(* ===== verification/Prelude.thy ===== *)
theory Prelude
  imports
    Main
    "HOL-Library.Word"
    "HOL-Library.AList"
    "HOL-Library.Multiset"
    "HOL-Library.List_Lexorder"
    "HOL-Library.Char_ord"
begin

text \<open>
  Shared vocabulary of the development: the machine integers of the Rust sources (bounded
  naturals and integers with saturation and wrap-around written out), byte strings, the
  \<open>std::collections::HashMap\<close> the coordinator keeps its tables in, little-endian and
  hexadecimal encodings, and the list facts the component theories share.

  A \<open>HashMap\<close> is an association list. Its order stands for the unspecified iteration order of
  the hash table, so a theorem about an operation that iterates holds for every order. The
  locale \<open>hash_map\<close> states what the clients rely on; it is interpreted on the association-list
  operations below as \<open>hm\<close>.
\<close>

named_theorems coord_simps "functional equations of the coordinator's operations"
named_theorems sat_simps "saturating and wrapping machine arithmetic"

subsection \<open>Machine integers\<close>

type_synonym u8 = "8 word"
type_synonym bytes = "u8 list"

abbreviation u32_max :: nat where "u32_max \<equiv> 4294967295"
abbreviation u64_max :: nat where "u64_max \<equiv> 18446744073709551615"
abbreviation i64_max :: int where "i64_max \<equiv> 9223372036854775807"
abbreviation i64_min :: int where "i64_min \<equiv> - 9223372036854775808"

definition sat_add_u32 :: "nat \<Rightarrow> nat \<Rightarrow> nat" where
  [sat_simps]: "sat_add_u32 a b = min (a + b) u32_max"

definition sat_add_u64 :: "nat \<Rightarrow> nat \<Rightarrow> nat" where
  [sat_simps]: "sat_add_u64 a b = min (a + b) u64_max"

definition sat_mul_u64 :: "nat \<Rightarrow> nat \<Rightarrow> nat" where
  [sat_simps]: "sat_mul_u64 a b = min (a * b) u64_max"

definition wrap_add_u64 :: "nat \<Rightarrow> nat \<Rightarrow> nat" where
  [sat_simps]: "wrap_add_u64 a b = (a + b) mod 2 ^ 64"

definition clamp_i64 :: "int \<Rightarrow> int" where
  [sat_simps]: "clamp_i64 x = max i64_min (min i64_max x)"

definition sat_add_i64 :: "int \<Rightarrow> int \<Rightarrow> int" where
  [sat_simps]: "sat_add_i64 a b = clamp_i64 (a + b)"

definition sat_sub_i64 :: "int \<Rightarrow> int \<Rightarrow> int" where
  [sat_simps]: "sat_sub_i64 a b = clamp_i64 (a - b)"

definition is_i64 :: "int \<Rightarrow> bool" where
  "is_i64 x \<longleftrightarrow> i64_min \<le> x \<and> x \<le> i64_max"

definition wrap_i64 :: "int \<Rightarrow> int" where
  [sat_simps]: "wrap_i64 x = (x + 9223372036854775808) mod 18446744073709551616 - 9223372036854775808"

lemma wrap_i64_id: "is_i64 x \<Longrightarrow> wrap_i64 x = x"
  by (simp add: wrap_i64_def is_i64_def)

lemma clamp_i64_id [simp]: "is_i64 x \<Longrightarrow> clamp_i64 x = x"
  by (simp add: clamp_i64_def is_i64_def)

lemma is_i64_clamp [simp, intro]: "is_i64 (clamp_i64 x)"
  by (simp add: clamp_i64_def is_i64_def)

lemma sat_add_u32_le [simp]: "sat_add_u32 a b \<le> u32_max"
  by (simp add: sat_add_u32_def)

lemma sat_add_u64_le [simp]: "sat_add_u64 a b \<le> u64_max"
  by (simp add: sat_add_u64_def)

lemma sat_add_u64_ge: "a \<le> u64_max \<Longrightarrow> a \<le> sat_add_u64 a b"
  by (simp add: sat_add_u64_def)

subsection \<open>The interface of a hash map\<close>

text \<open>
  \<open>get\<close> is \<open>HashMap::get\<close>, \<open>ins\<close> is \<open>insert\<close>, \<open>del\<close> is \<open>remove\<close>, \<open>upd\<close> is a write through
  \<open>get_mut\<close> (no effect on an absent key) and \<open>keys\<close> is the iteration order of \<open>keys()\<close>.
\<close>

locale hash_map =
  fixes get :: "'m \<Rightarrow> 'k \<Rightarrow> 'v option"
    and ins :: "'k \<Rightarrow> 'v \<Rightarrow> 'm \<Rightarrow> 'm"
    and del :: "'k \<Rightarrow> 'm \<Rightarrow> 'm"
    and upd :: "'k \<Rightarrow> ('v \<Rightarrow> 'v) \<Rightarrow> 'm \<Rightarrow> 'm"
    and keys :: "'m \<Rightarrow> 'k list"
    and wf :: "'m \<Rightarrow> bool"
  assumes get_ins: "get (ins k v m) k' = (if k' = k then Some v else get m k')"
    and get_del: "get (del k m) k' = (if k' = k then None else get m k')"
    and get_upd: "get (upd k f m) k' = (if k' = k then map_option f (get m k') else get m k')"
    and keys_dom: "k \<in> set (keys m) \<longleftrightarrow> get m k \<noteq> None"
    and wf_keys: "wf m \<Longrightarrow> distinct (keys m)"
    and wf_ins: "wf m \<Longrightarrow> wf (ins k v m)"
    and wf_del: "wf m \<Longrightarrow> wf (del k m)"
    and wf_upd: "wf (upd k f m) = wf m"
begin

lemma get_ins_same: "get (ins k v m) k = Some v"
  by (simp add: get_ins)

lemma get_del_same: "get (del k m) k = None"
  by (simp add: get_del)

lemma get_del_ins: "get m k = None \<Longrightarrow> get (del k (ins k v m)) k' = get m k'"
  by (auto simp: get_del get_ins)

lemma upd_absent: "get m k = None \<Longrightarrow> get (upd k f m) k' = get m k'"
  by (auto simp: get_upd)

lemma get_upd_None: "get (upd k f m) k' = None \<longleftrightarrow> get m k' = None"
  by (simp add: get_upd)

lemma keys_upd: "set (keys (upd k f m)) = set (keys m)"
  by (auto simp: keys_dom get_upd split: if_splits)

lemma keys_ins: "set (keys (ins k v m)) = insert k (set (keys m))"
  by (auto simp: keys_dom get_ins split: if_splits)

lemma keys_del: "set (keys (del k m)) = set (keys m) - {k}"
  by (auto simp: keys_dom get_del split: if_splits)

lemmas get_simps = get_ins get_del get_upd

end

subsection \<open>Association lists provide it\<close>

type_synonym ('k, 'v) hmap = "('k \<times> 'v) list"

definition hm_get :: "('k, 'v) hmap \<Rightarrow> 'k \<Rightarrow> 'v option" where
  "hm_get m k = map_of m k"

definition hm_insert :: "'k \<Rightarrow> 'v \<Rightarrow> ('k, 'v) hmap \<Rightarrow> ('k, 'v) hmap" where
  "hm_insert k v m = AList.update k v m"

definition hm_remove :: "'k \<Rightarrow> ('k, 'v) hmap \<Rightarrow> ('k, 'v) hmap" where
  "hm_remove k m = filter (\<lambda>e. fst e \<noteq> k) m"

definition hm_modify :: "'k \<Rightarrow> ('v \<Rightarrow> 'v) \<Rightarrow> ('k, 'v) hmap \<Rightarrow> ('k, 'v) hmap" where
  "hm_modify k f m = map (\<lambda>e. if fst e = k then (fst e, f (snd e)) else e) m"

definition hm_keys :: "('k, 'v) hmap \<Rightarrow> 'k list" where
  "hm_keys m = map fst m"

definition hm_wf :: "('k, 'v) hmap \<Rightarrow> bool" where
  "hm_wf m \<longleftrightarrow> distinct (map fst m)"

definition hm_map_values :: "('v \<Rightarrow> 'v) \<Rightarrow> ('k, 'v) hmap \<Rightarrow> ('k, 'v) hmap" where
  "hm_map_values f m = map (\<lambda>e. (fst e, f (snd e))) m"

lemma map_of_filter_key: "map_of (filter (\<lambda>e. fst e \<noteq> k) m) k' = (if k' = k then None else map_of m k')"
  by (induction m) auto

lemma map_of_modify_key:
  "map_of (map (\<lambda>e. if fst e = k then (fst e, f (snd e)) else e) m) k'
     = (if k' = k then map_option f (map_of m k') else map_of m k')"
  by (induction m) auto

lemma map_fst_modify [simp]:
  "map (fst \<circ> (\<lambda>e. if fst e = k then (fst e, f (snd e)) else e)) m = map fst m"
  by (induction m) auto

interpretation hm: hash_map hm_get hm_insert hm_remove hm_modify hm_keys hm_wf
proof (unfold_locales, goal_cases)
  case (1 k v m k') then show ?case by (simp add: hm_get_def hm_insert_def update_conv)
next
  case (2 k m k') then show ?case by (simp add: hm_get_def hm_remove_def map_of_filter_key)
next
  case (3 k f m k') then show ?case by (simp add: hm_get_def hm_modify_def map_of_modify_key)
next
  case (4 k m) then show ?case by (force simp: hm_keys_def hm_get_def map_of_eq_None_iff)
next
  case (5 m) then show ?case by (simp add: hm_wf_def hm_keys_def)
next
  case (6 m k v) then show ?case by (simp add: hm_wf_def hm_insert_def distinct_update)
next
  case (7 m k) then show ?case by (simp add: hm_wf_def hm_remove_def distinct_map_filter)
next
  case (8 k f m) then show ?case by (simp add: hm_wf_def hm_modify_def)
qed

lemma hm_get_map_values: "hm_get (hm_map_values f m) k = map_option f (hm_get m k)"
  by (induction m) (auto simp: hm_get_def hm_map_values_def)

lemma hm_wf_map_values: "hm_wf (hm_map_values f m) = hm_wf m"
  by (simp add: hm_wf_def hm_map_values_def comp_def)

lemma hm_wf_empty [simp]: "hm_wf []"
  by (simp add: hm_wf_def)

lemma hm_get_empty [simp]: "hm_get [] k = None"
  by (simp add: hm_get_def)

lemma hm_keys_map_values [simp]: "hm_keys (hm_map_values f m) = hm_keys m"
  by (simp add: hm_keys_def hm_map_values_def)

lemma hm_keys_modify [simp]: "hm_keys (hm_modify k f m) = hm_keys m"
  by (simp add: hm_keys_def hm_modify_def)

lemma hm_modify_absent: "hm_get m k = None \<Longrightarrow> hm_modify k f m = m"
  unfolding hm_get_def hm_modify_def
  by (induction m) (auto split: if_splits)

text \<open>Totals over the values of a map: one write moves the total by that entry alone.\<close>

definition hm_total :: "('v \<Rightarrow> 'a::comm_monoid_add) \<Rightarrow> ('k, 'v) hmap \<Rightarrow> 'a" where
  "hm_total F m = sum_list (map (\<lambda>e. F (snd e)) m)"

lemma hm_total_modify:
  "hm_wf m \<Longrightarrow> hm_get m k = Some v \<Longrightarrow>
     hm_total F (hm_modify k f m) + F v = hm_total F m + F (f v)"
proof (induction m)
  case (Cons e m)
  show ?case
  proof (cases "fst e = k")
    case True
    with Cons.prems have "hm_get m k = None" "snd e = v"
      by (auto simp: hm_wf_def hm_get_def map_of_eq_None_iff)
    with True show ?thesis
      using hm_modify_absent [of m k f] by (simp add: hm_total_def hm_modify_def ac_simps)
  next
    case False
    with Cons.prems Cons.IH show ?thesis
      by (cases e) (simp add: hm_total_def hm_modify_def hm_wf_def hm_get_def ac_simps)
  qed
qed (simp add: hm_get_def)

lemma hm_total_insert_new:
  "hm_get m k = None \<Longrightarrow> hm_total F (hm_insert k v m) = hm_total F m + F v"
proof (induction m)
  case Nil
  then show ?case by (simp add: hm_total_def hm_insert_def)
next
  case (Cons e m)
  then show ?case
    by (cases e) (auto simp: hm_total_def hm_insert_def hm_get_def ac_simps split: if_splits)
qed

lemma hm_remove_absent: "hm_get m k = None \<Longrightarrow> hm_remove k m = m"
  unfolding hm_get_def hm_remove_def by (induction m) (auto split: if_splits)

lemma hm_total_remove:
  "hm_wf m \<Longrightarrow> hm_get m k = Some v \<Longrightarrow> hm_total F (hm_remove k m) + F v = hm_total F m"
proof (induction m)
  case (Cons e m)
  show ?case
  proof (cases "fst e = k")
    case True
    with Cons.prems have "hm_get m k = None" "snd e = v"
      by (auto simp: hm_wf_def hm_get_def map_of_eq_None_iff)
    with True show ?thesis
      using hm_remove_absent [of m k] by (simp add: hm_total_def hm_remove_def ac_simps)
  next
    case False
    with Cons.prems Cons.IH show ?thesis
      by (cases e) (simp add: hm_total_def hm_remove_def hm_wf_def hm_get_def ac_simps)
  qed
qed (simp add: hm_get_def)

lemma hm_total_map_values: "hm_total F (hm_map_values f m) = hm_total (\<lambda>v. F (f v)) m"
  by (simp add: hm_total_def hm_map_values_def comp_def)

lemma hm_total_add: "hm_total (\<lambda>v. F v + G v) m = hm_total F m + hm_total G m"
  by (simp add: hm_total_def sum_list_addf)

definition opt_list :: "'a option \<Rightarrow> 'a list" where
  "opt_list x = (case x of None \<Rightarrow> [] | Some a \<Rightarrow> [a])"

lemma opt_list_simps [simp]: "opt_list None = []" "opt_list (Some a) = [a]"
  by (simp_all add: opt_list_def)

text \<open>
  Indexing that panics when an index is out of range: \<open>None\<close> is the panic.
\<close>

definition pick :: "'a list \<Rightarrow> nat list \<Rightarrow> 'a list option" where
  "pick xs is = (if list_all (\<lambda>i. i < length xs) is then Some (map (\<lambda>i. xs ! i) is) else None)"

lemma pick_Some: "pick xs is = Some ys \<longleftrightarrow> list_all (\<lambda>i. i < length xs) is \<and> ys = map (\<lambda>i. xs ! i) is"
  by (auto simp: pick_def)

lemma hm_get_filter:
  "hm_get (filter (\<lambda>e. P (fst e)) m) k = (if P k then hm_get m k else None)"
  unfolding hm_get_def by (induction m) auto

lemma hm_wf_filter: "hm_wf m \<Longrightarrow> hm_wf (filter P m)"
  unfolding hm_wf_def by (rule distinct_map_filter)

lemma hm_keys_insert: "hm_keys (hm_insert k v m) = (if k \<in> set (hm_keys m) then hm_keys m else hm_keys m @ [k])"
  by (simp add: hm_keys_def hm_insert_def update_keys)

lemma hm_keys_filter: "hm_keys (filter (\<lambda>e. P (fst e)) m) = filter P (hm_keys m)"
  by (induction m) (auto simp: hm_keys_def)

subsection \<open>Decimal text\<close>

text \<open>\<open>u64::to_string\<close>, and the parser \<open>str::parse::<u64>\<close>: an optional plus sign, at least one decimal digit, no overflow.\<close>

definition digit_char :: "nat \<Rightarrow> char" where
  "digit_char d = char_of (48 + d)"

fun show_nat :: "nat \<Rightarrow> string" where
  "show_nat n = (if n < 10 then [digit_char n] else show_nat (n div 10) @ [digit_char (n mod 10)])"

declare show_nat.simps [simp del]

definition digit_value :: "char \<Rightarrow> nat option" where
  "digit_value c = (if of_char c \<ge> (48 :: nat) \<and> of_char c \<le> (57 :: nat) then Some (of_char c - 48) else None)"

fun parse_digits :: "nat \<Rightarrow> string \<Rightarrow> nat option" where
  "parse_digits acc [] = Some acc"
| "parse_digits acc (c # cs) =
     (case digit_value c of
        None \<Rightarrow> None
      | Some d \<Rightarrow> if acc * 10 + d > u64_max then None else parse_digits (acc * 10 + d) cs)"

definition parse_u64 :: "string \<Rightarrow> nat option" where
  "parse_u64 s =
     (let ds = (case s of c # cs \<Rightarrow> if c = CHR ''+'' then cs else s | [] \<Rightarrow> s)
      in if ds = [] then None else parse_digits 0 ds)"

lemma digit_value_char: "d < 10 \<Longrightarrow> digit_value (digit_char d) = Some d"
  by (simp add: digit_value_def digit_char_def)

lemma digit_char_not_plus: "d < 10 \<Longrightarrow> digit_char d \<noteq> CHR ''+''"
proof
  assume d: "d < 10" and e: "digit_char d = CHR ''+''"
  have "of_char (digit_char d) = 48 + d" using d by (simp add: digit_char_def)
  with e show False by simp
qed

lemma parse_digits_append:
  "parse_digits acc (xs @ ys) = Option.bind (parse_digits acc xs) (\<lambda>a. parse_digits a ys)"
  by (induction xs arbitrary: acc) (auto split: option.splits)

lemma parse_digits_show: "n \<le> u64_max \<Longrightarrow> parse_digits 0 (show_nat n) = Some n"
proof (induction n rule: show_nat.induct)
  case (1 n)
  show ?case
  proof (cases "n < 10")
    case True
    then show ?thesis by (subst show_nat.simps) (simp add: digit_value_char)
  next
    case False
    with 1 have "parse_digits 0 (show_nat (n div 10)) = Some (n div 10)" by simp
    with False "1.prems" show ?thesis
      by (subst show_nat.simps) (simp add: parse_digits_append digit_value_char div_mult_mod_eq mult.commute [of _ 10])
  qed
qed

lemma show_nat_hd: "\<exists>d cs. show_nat n = digit_char d # cs \<and> d < 10"
proof (induction n rule: show_nat.induct)
  case (1 n)
  then show ?case
  proof (cases "n < 10")
    case False
    with 1 obtain d cs where "show_nat (n div 10) = digit_char d # cs" "d < 10" by blast
    with False show ?thesis by (subst show_nat.simps) auto
  qed (subst show_nat.simps, auto)
qed

lemma parse_show_nat:
  assumes "n \<le> u64_max"
  shows "parse_u64 (show_nat n) = Some n"
proof -
  obtain d cs where d: "show_nat n = digit_char d # cs" "d < 10" using show_nat_hd by blast
  have "parse_u64 (digit_char d # cs) = parse_digits 0 (digit_char d # cs)"
    using digit_char_not_plus [OF d(2)] by (simp only: parse_u64_def list.case if_False Let_def) simp
  then show ?thesis using parse_digits_show [OF assms] d(1) by (simp only:)
qed

lemma show_nat_inj:
  assumes "a \<le> u64_max" "b \<le> u64_max"
  shows "show_nat a = show_nat b \<longleftrightarrow> a = b"
  using parse_show_nat [OF assms(1)] parse_show_nat [OF assms(2)] by (metis option.inject)

end
