(* ===== verification/Round.thy ===== *)
theory Round
  imports Prelude
begin

text \<open>
  The round state machine of \<open>round.rs\<close>: \<open>RoundState\<close>, \<open>RoundEvent\<close> and the pure
  \<open>transition\<close>. The lemmas show that the machine is a ladder: an event moves it up by at most
  one rung, only \<open>Succeeded\<close> climbs the readiness rungs, and every climb to \<open>StartMining\<close>
  passes each of them.
\<close>

datatype RoundState =
    StopMining
  | ValidatorSynced
  | AccountFunded
  | MinerRegistered
  | RequirementsDownloaded
  | DescriptorFiled
  | StartMining
  | AwaitingQBlock

datatype RoundEvent = Succeeded | Failed | NewHead | Shutdown | WinPending | Resume

definition round_start :: RoundState where
  "round_start = StopMining"

fun transition :: "RoundState \<Rightarrow> RoundEvent \<Rightarrow> RoundState option" where
  "transition s Shutdown = None"
| "transition s NewHead = Some StopMining"
| "transition s Failed = Some s"
| "transition s WinPending = Some (case s of StartMining \<Rightarrow> AwaitingQBlock | other \<Rightarrow> other)"
| "transition s Resume = Some (case s of AwaitingQBlock \<Rightarrow> StopMining | other \<Rightarrow> other)"
| "transition s Succeeded =
     (case s of
        StopMining \<Rightarrow> Some ValidatorSynced
      | ValidatorSynced \<Rightarrow> Some AccountFunded
      | AccountFunded \<Rightarrow> Some MinerRegistered
      | MinerRegistered \<Rightarrow> Some RequirementsDownloaded
      | RequirementsDownloaded \<Rightarrow> Some DescriptorFiled
      | DescriptorFiled \<Rightarrow> Some StartMining
      | StartMining \<Rightarrow> Some s
      | AwaitingQBlock \<Rightarrow> Some s)"

definition as_str :: "RoundState \<Rightarrow> string" where
  "as_str s =
     (case s of
        StopMining \<Rightarrow> ''stop_mining''
      | ValidatorSynced \<Rightarrow> ''validator_synced''
      | AccountFunded \<Rightarrow> ''account_funded''
      | MinerRegistered \<Rightarrow> ''miner_registered''
      | RequirementsDownloaded \<Rightarrow> ''requirements_downloaded''
      | DescriptorFiled \<Rightarrow> ''descriptor_filed''
      | StartMining \<Rightarrow> ''start_mining''
      | AwaitingQBlock \<Rightarrow> ''awaiting_qblock'')"

subsection \<open>Runs of the machine\<close>

text \<open>A run feeds a list of events; \<open>None\<close> is the stopped machine.\<close>

fun run_round :: "RoundState \<Rightarrow> RoundEvent list \<Rightarrow> RoundState option" where
  "run_round s [] = Some s"
| "run_round s (e # es) = (case transition s e of None \<Rightarrow> None | Some s' \<Rightarrow> run_round s' es)"

text \<open>The states a run leaves through a \<open>Succeeded\<close> event, in order.\<close>

fun steps_done :: "RoundState \<Rightarrow> RoundEvent list \<Rightarrow> RoundState list" where
  "steps_done s [] = []"
| "steps_done s (e # es) =
     (case transition s e of
        None \<Rightarrow> []
      | Some s' \<Rightarrow> (if e = Succeeded then s # steps_done s' es else steps_done s' es))"

primrec rung :: "RoundState \<Rightarrow> nat" where
  "rung StopMining = 0"
| "rung ValidatorSynced = 1"
| "rung AccountFunded = 2"
| "rung MinerRegistered = 3"
| "rung RequirementsDownloaded = 4"
| "rung DescriptorFiled = 5"
| "rung StartMining = 6"
| "rung AwaitingQBlock = 7"

lemma rung_inj: "rung s = rung t \<Longrightarrow> s = t"
  by (cases s; cases t) auto

lemma rung_le: "rung s \<le> 7"
  by (cases s) auto

lemma transition_rung_step:
  "transition s e = Some s' \<Longrightarrow> rung s < rung s' \<Longrightarrow>
     rung s' = Suc (rung s) \<and> (e = Succeeded \<and> rung s < 6 \<or> e = WinPending \<and> s = StartMining)"
  by (cases e; cases s) auto

lemma run_round_append:
  "run_round s (es @ fs) = Option.bind (run_round s es) (\<lambda>s'. run_round s' fs)"
  by (induction es arbitrary: s) (auto split: option.splits)

lemma run_round_Shutdown: "Shutdown \<in> set es \<Longrightarrow> run_round s es = None"
  by (induction es arbitrary: s) (auto split: option.splits)

text \<open>Crossing a readiness rung leaves the state on it through \<open>Succeeded\<close>.\<close>

lemma crossing_done:
  assumes "run_round s es = Some t" "rung s \<le> rung x" "rung x < rung t" "rung x < 6"
  shows "x \<in> set (steps_done s es)"
  using assms
proof (induction es arbitrary: s)
  case Nil
  then show ?case by simp
next
  case (Cons e es)
  then obtain s' where s': "transition s e = Some s'" and run: "run_round s' es = Some t"
    by (auto split: option.splits)
  show ?case
  proof (cases "rung s' \<le> rung x")
    case True
    with Cons.IH [OF run] Cons.prems s' show ?thesis by auto
  next
    case False
    with transition_rung_step [OF s'] Cons.prems have "rung s = rung x" "e = Succeeded"
      by (auto simp: not_le)
    with s' show ?thesis by (auto dest: rung_inj)
  qed
qed

lemma walk_to_mining_done:
  assumes "run_round StopMining es = Some StartMining" "rung x < 6"
  shows "x \<in> set (steps_done StopMining es)"
  using crossing_done [OF assms(1)] assms(2) by simp

lemma ladder_climb:
  "rung s \<le> 6 \<Longrightarrow> run_round s (replicate (6 - rung s) Succeeded) = Some StartMining"
  by (cases s) (simp_all add: numeral_eq_Suc)

lemma transition_None_iff: "transition s e = None \<longleftrightarrow> e = Shutdown"
  by (cases e; cases s) auto

text \<open>
  Every new head has to earn mining again: a run that reaches \<open>start_mining\<close> after a head
  change has completed, since that head change, each of the six readiness steps, whatever
  failures, resumes or pending wins came in between.
\<close>
theorem mining_after_head_passes_every_gate:
  assumes "run_round s (pre @ NewHead # post) = Some StartMining"
  shows "{StopMining, ValidatorSynced, AccountFunded, MinerRegistered, RequirementsDownloaded,
     DescriptorFiled} \<subseteq> set (steps_done StopMining post)"
proof -
  have "run_round StopMining post = Some StartMining"
    using assms by (cases "run_round s pre") (auto simp: run_round_append)
  from walk_to_mining_done [OF this] show ?thesis by simp
qed

theorem mining_after_head_passes_every_gate_witness:
  "DescriptorFiled \<in> set (steps_done StopMining (Failed # replicate 6 Succeeded))"
  using mining_after_head_passes_every_gate
    [of StartMining "[WinPending]" "Failed # replicate 6 Succeeded"]
  by (simp add: numeral_eq_Suc)

text \<open>
  The ladder is live and stops only on request: from every readiness state the remaining
  successes reach \<open>start_mining\<close>, a failure anywhere keeps the machine where it is, and the
  machine ends exactly at a shutdown.
\<close>
theorem round_ladder_live:
  "(case s of AwaitingQBlock \<Rightarrow> run_round s (Resume # replicate 6 Succeeded) = Some StartMining
      | _ \<Rightarrow> run_round s (replicate (6 - rung s) Succeeded) = Some StartMining)
   \<and> transition s Failed = Some s \<and> (transition s e = None \<longleftrightarrow> e = Shutdown)"
  using ladder_climb [of s] by (cases s) (simp_all add: transition_None_iff numeral_eq_Suc)

end
