(* ===== verification/Wire.thy ===== *)
theory Wire
  imports Prelude
begin

text \<open>
  The protocol messages the coordinator reads and writes (\<open>quip_proto::v1\<close>, an external crate of
  generated types). Only the fields the sources use appear. An enum the sources compare with a
  named constant is a datatype with that constant and a catch-all for every other wire value,
  so \<open>x.kind == JobKind::IsingGenerate as i32\<close> is \<open>jb_kind x = IsingGenerate\<close>.
  Node ids are \<open>u32\<close> words; counts, generations and times are bounded naturals.
\<close>

type_synonym node = "32 word"

datatype JobKind = IsingSample | IsingGenerate | OtherKind int
datatype GeneratorAlgorithm = Blake3Chacha8V1 | OtherGenerator int
datatype CoefficientEncoding = EncI32 | EncOther int
datatype RejectReason =
    UnsupportedKind
  | MalformedJob
  | ExpiredJob
  | TopologyMissing
  | TopologyMismatch
  | TargetMissing
  | OtherReason int

datatype Graph = TopologyHash bytes | Edges "node list" "node list"

record IsingProblem =
  ip_graph :: "Graph option"
  ip_encoding :: CoefficientEncoding
  ip_scale :: nat
  ip_h :: bytes
  ip_j :: bytes
  ip_num_reads :: nat

record Provenance =
  pv_is_pow :: bool
  pv_order_id :: bytes

record IsingProblemGenerator =
  gn_algorithm :: GeneratorAlgorithm
  gn_topology_hash :: bytes
  gn_last_proof_block_hash :: bytes
  gn_miner_account :: bytes
  gn_base_salt :: bytes
  gn_salt_start :: nat
  gn_salt_count :: nat

record Job =
  jb_job_id :: bytes
  jb_kind :: JobKind
  jb_generation :: nat
  jb_deadline_ms :: nat
  jb_ising :: "IsingProblem option"
  jb_provenance :: "Provenance option"
  jb_generator :: "IsingProblemGenerator option"

record Capabilities =
  cp_protocol_version :: nat
  cp_backend :: int
  cp_algorithm :: int
  cp_supported_kinds :: "JobKind list"
  cp_max_nodes :: nat
  cp_max_edges :: nat
  cp_max_degree :: "nat option"
  cp_native_topology_hash :: "bytes option"
  cp_features :: "string list"
  cp_generators :: "GeneratorAlgorithm list"
  cp_stream_width :: nat

text \<open>\<open>quip_protocol::target::Target\<close>, and the wire message that adds the sampling overrides.\<close>

record Target =
  tg_max_energy_milli :: int
  tg_min_solutions :: nat
  tg_min_diversity_milli :: nat
  tg_max_proof_solutions :: nat

record SetTarget = Target +
  tg_num_reads :: nat
  tg_num_sweeps :: nat
  tg_anneal_time_us :: nat

record ProtoTopology =
  pt_hash :: bytes
  pt_nodes :: "node list"
  pt_edges :: "node list \<times> node list"
  pt_allowed_h_milli :: "int list"
  pt_allowed_j_milli :: "int list"

record Solution =
  sl_spins :: bytes
  sl_energy_milli :: int

end
