(* ===== verification/Topology.thy ===== *)
theory Topology
  imports Wire
begin

text \<open>
  \<open>topology.rs\<close>: the session graph, its wire form and its two fingerprints. The hash function
  (\<open>sp_core::hashing::blake2_256\<close>), the SCALE codec and the canonical bytes of an allowed-value
  set are external crates, so they are arguments here. The lemmas show that the native
  fingerprint hashes a canonical byte string: it ignores the order of nodes and edges and the
  direction of an edge, and it ignores nothing else.
\<close>

record Topology =
  tp_hash :: bytes
  tp_nodes :: "node list"
  tp_edges :: "node list \<times> node list"
  tp_allowed_h :: "int list"
  tp_allowed_j :: "int list"

definition default_spin_set :: "int list" where
  "default_spin_set = [- 1000, 1000]"

subsection \<open>Little-endian bytes\<close>

definition le_bytes :: "nat \<Rightarrow> nat \<Rightarrow> bytes" where
  "le_bytes n x = map (\<lambda>i. of_nat (x div 256 ^ i)) [0..<n]"

fun le_value :: "bytes \<Rightarrow> nat" where
  "le_value [] = 0"
| "le_value (b # bs) = unat b + 256 * le_value bs"

lemma length_le_bytes [simp]: "length (le_bytes n x) = n"
  by (simp add: le_bytes_def)

lemma le_bytes_Suc: "le_bytes (Suc n) x = of_nat x # le_bytes n (x div 256)"
  unfolding le_bytes_def upt_conv_Cons [OF zero_less_Suc] map_Suc_upt [symmetric]
  by (simp add: div_mult2_eq comp_def)

lemma unat_of_nat_u8: "unat (of_nat x :: u8) = x mod 256"
  by (simp add: unat_of_nat)

lemma le_value_le_bytes: "le_value (le_bytes n x) = x mod 256 ^ n"
proof (induction n arbitrary: x)
  case 0
  then show ?case by (simp add: le_bytes_def)
next
  case (Suc n)
  have "x mod (256 * 256 ^ n) = 256 * (x div 256 mod 256 ^ n) + x mod 256"
    by (rule mod_mult2_eq)
  with Suc show ?case by (simp add: le_bytes_Suc unat_of_nat_u8)
qed

lemma le_bytes_inj: "le_bytes n x = le_bytes n y \<Longrightarrow> x < 256 ^ n \<Longrightarrow> y < 256 ^ n \<Longrightarrow> x = y"
  by (metis le_value_le_bytes mod_less)

definition u32_le :: "node \<Rightarrow> bytes" where
  "u32_le w = le_bytes 4 (unat w)"

lemma length_u32_le [simp]: "length (u32_le w) = 4"
  by (simp add: u32_le_def)

lemma u32_le_inj: "u32_le v = u32_le w \<longleftrightarrow> v = w"
proof
  assume "u32_le v = u32_le w"
  then have "unat v = unat w"
    using le_bytes_inj [of 4 "unat v" "unat w"] unsigned_less [of v] unsigned_less [of w]
    by (simp add: u32_le_def)
  then show "v = w" by (simp add: word_unat_eq_iff)
qed simp

subsection \<open>Building and reading a topology\<close>

definition canon_edge :: "node \<times> node \<Rightarrow> node \<times> node" where
  "canon_edge e = (min (fst e) (snd e), max (fst e) (snd e))"

definition topology_hash ::
  "(bytes \<Rightarrow> bytes) \<Rightarrow> (node list \<times> (node \<times> node) list \<times> bytes \<times> bytes \<times> bytes \<Rightarrow> bytes)
    \<Rightarrow> ('spec \<Rightarrow> bytes) \<Rightarrow> node list \<Rightarrow> (node \<times> node) list \<Rightarrow> 'spec \<Rightarrow> 'spec \<Rightarrow> 'spec \<Rightarrow> bytes" where
  "topology_hash blake2_256 scale_encode canonical_bytes nodes edges allowed_h allowed_j allowed_spin =
     (let canonical_nodes = sort nodes;
          canonical_edges = sort_key (\<lambda>e. [fst e, snd e])
             (map (\<lambda>e. if fst e \<le> snd e then (fst e, snd e) else (snd e, fst e)) edges)
      in blake2_256 (scale_encode
           (canonical_nodes, canonical_edges, canonical_bytes allowed_h,
            canonical_bytes allowed_j, canonical_bytes allowed_spin)))"

definition from_nodes_edges ::
  "(node list \<Rightarrow> (node \<times> node) list \<Rightarrow> int list \<Rightarrow> int list \<Rightarrow> int list \<Rightarrow> bytes)
    \<Rightarrow> node list \<Rightarrow> (node \<times> node) list \<Rightarrow> int list \<Rightarrow> int list \<Rightarrow> int list \<Rightarrow> Topology" where
  "from_nodes_edges topology_hash_sets nodes edges allowed_h allowed_j allowed_spin =
     \<lparr> tp_hash = topology_hash_sets nodes edges allowed_h allowed_j allowed_spin,
       tp_nodes = nodes,
       tp_edges = (map fst edges, map snd edges),
       tp_allowed_h = allowed_h,
       tp_allowed_j = allowed_j \<rparr>"

definition edge_pairs :: "Topology \<Rightarrow> (node \<times> node) list" where
  "edge_pairs t = zip (fst (tp_edges t)) (snd (tp_edges t))"

definition to_proto :: "Topology \<Rightarrow> ProtoTopology" where
  "to_proto t =
     \<lparr> pt_hash = tp_hash t, pt_nodes = tp_nodes t, pt_edges = tp_edges t,
       pt_allowed_h_milli = tp_allowed_h t, pt_allowed_j_milli = tp_allowed_j t \<rparr>"

text \<open>The byte string \<open>native_topology_hash\<close> hashes; \<open>None\<close> when a length is past \<open>u32\<close>.\<close>

definition native_bytes :: "node list \<Rightarrow> (node \<times> node) list \<Rightarrow> bytes option" where
  "native_bytes nodes edges =
     (if length nodes > u32_max \<or> length edges > u32_max then None
      else Some (le_bytes 4 (length nodes)
             @ concat (map u32_le (sort nodes))
             @ le_bytes 4 (length edges)
             @ concat (map (\<lambda>e. u32_le (fst e) @ u32_le (snd e))
                 (sort_key (\<lambda>e. [fst e, snd e]) (map canon_edge edges)))))"

definition native_topology_hash ::
  "(bytes \<Rightarrow> bytes) \<Rightarrow> node list \<Rightarrow> (node \<times> node) list \<Rightarrow> bytes option" where
  "native_topology_hash blake2_256 nodes edges = map_option blake2_256 (native_bytes nodes edges)"

subsection \<open>Facts\<close>

lemma edge_pairs_from_nodes_edges [simp]:
  "edge_pairs (from_nodes_edges h nodes edges ah aj as) = edges"
  by (simp add: edge_pairs_def from_nodes_edges_def zip_map_fst_snd)

lemma pair_list_inj: "inj (\<lambda>e :: 'a \<times> 'a. [fst e, snd e])"
  by (auto simp: inj_def prod_eq_iff)

lemma sort_key_mset_cong:
  assumes "inj f" "mset xs = mset ys"
  shows "sort_key f xs = sort_key f ys"
  using assms by (intro sort_key_inj_key_eq) (auto intro: inj_on_subset)

lemma concat_fixed_inj:
  assumes "\<And>x. length (f x) = n" "\<And>x y. f x = f y \<Longrightarrow> x = y" "length xs = length ys"
    "concat (map f xs) = concat (map f ys)"
  shows "xs = ys"
proof -
  have "map f xs = map f ys"
    using assms(3,4) by (intro concat_injective) (auto simp: assms(1) in_set_zip)
  then show ?thesis using assms(2) by (metis inj_def inj_map_eq_map)
qed

lemma length_concat_fixed: "(\<And>x. length (f x) = n) \<Longrightarrow> length (concat (map f xs)) = n * length xs"
  by (induction xs) auto

definition same_graph ::
  "node list \<Rightarrow> (node \<times> node) list \<Rightarrow> node list \<Rightarrow> (node \<times> node) list \<Rightarrow> bool" where
  "same_graph ns es ns' es' \<longleftrightarrow>
     mset ns = mset ns' \<and> mset (map canon_edge es) = mset (map canon_edge es')"

lemma native_bytes_same_graph:
  assumes "same_graph ns es ns' es'"
  shows "native_bytes ns es = native_bytes ns' es'"
proof -
  from assms have ms: "mset ns = mset ns'" "mset (map canon_edge es) = mset (map canon_edge es')"
    by (auto simp: same_graph_def)
  then have "length ns = length ns'" "length es = length es'"
    using mset_eq_length [OF ms(1)] mset_eq_length [OF ms(2)] by simp_all
  moreover have "sort ns = sort ns'" by (rule sort_key_mset_cong [OF _ ms(1)]) simp
  moreover have "sort_key (\<lambda>e. [fst e, snd e]) (map canon_edge es)
      = sort_key (\<lambda>e. [fst e, snd e]) (map canon_edge es')"
    using ms(2) by (intro sort_key_mset_cong pair_list_inj)
  ultimately show ?thesis by (simp add: native_bytes_def)
qed

lemma native_bytes_determines:
  assumes "native_bytes ns es = Some b" "native_bytes ns' es' = Some b"
  shows "same_graph ns es ns' es'"
proof -
  let ?E = "\<lambda>e. u32_le (fst e) @ u32_le (snd e)"
  let ?S = "\<lambda>es. sort_key (\<lambda>e. [fst e, snd e]) (map canon_edge es)"
  have lens: "length ns \<le> u32_max" "length es \<le> u32_max" "length ns' \<le> u32_max" "length es' \<le> u32_max"
    using assms by (auto simp: native_bytes_def split: if_splits)
  then have eq: "le_bytes 4 (length ns) @ concat (map u32_le (sort ns)) @ le_bytes 4 (length es)
        @ concat (map ?E (?S es))
      = le_bytes 4 (length ns') @ concat (map u32_le (sort ns')) @ le_bytes 4 (length es')
        @ concat (map ?E (?S es'))"
    using assms by (simp add: native_bytes_def)
  then have ln_eq: "le_bytes 4 (length ns) = le_bytes 4 (length ns')"
    and rest: "concat (map u32_le (sort ns)) @ le_bytes 4 (length es) @ concat (map ?E (?S es))
      = concat (map u32_le (sort ns')) @ le_bytes 4 (length es') @ concat (map ?E (?S es'))"
    by simp_all
  from ln_eq have ln: "length ns = length ns'" by (rule le_bytes_inj) (use lens in auto)
  have len_ns: "length (concat (map u32_le (sort ns))) = length (concat (map u32_le (sort ns')))"
    using ln by (simp add: length_concat_fixed [where n = 4])
  from rest have n: "concat (map u32_le (sort ns)) = concat (map u32_le (sort ns'))"
    and e: "le_bytes 4 (length es) @ concat (map ?E (?S es))
      = le_bytes 4 (length es') @ concat (map ?E (?S es'))"
    using append_eq_append_conv [OF disjI1 [OF len_ns]] by blast+
  from e have "le_bytes 4 (length es) = le_bytes 4 (length es')" by simp
  then have le: "length es = length es'" by (rule le_bytes_inj) (use lens in auto)
  have "sort ns = sort ns'"
    by (rule concat_fixed_inj [where f = u32_le and n = 4]) (use n ln in \<open>auto simp: u32_le_inj\<close>)
  moreover have "?S es = ?S es'"
    by (rule concat_fixed_inj [where f = ?E and n = 8])
      (use e le in \<open>auto simp: u32_le_inj prod_eq_iff\<close>)
  ultimately have "mset (sort ns) = mset (sort ns')" "mset (?S es) = mset (?S es')"
    by simp_all
  then show ?thesis
    unfolding same_graph_def mset_sort by simp
qed

text \<open>
  The native fingerprint identifies the graph and nothing else: two graphs hash the same byte
  string exactly when they have the same nodes and the same undirected edges, whatever the order
  in which nodes and edges are listed and whichever way an edge is written.
\<close>
theorem native_fingerprint_canonical:
  assumes "native_bytes ns es = Some b"
  shows "native_bytes ns' es' = Some b \<longleftrightarrow> same_graph ns es ns' es'"
  using assms native_bytes_determines [of ns es b ns' es'] native_bytes_same_graph [of ns es ns' es']
  by auto

theorem native_fingerprint_canonical_witness:
  "\<exists>b. native_bytes [1, 0] [(1, 0)] = Some b \<and> native_bytes [0, 1] [(0, 1)] = Some b"
proof -
  obtain b where b: "native_bytes [1, 0] [(1, 0)] = Some b"
    by (simp add: native_bytes_def)
  have "same_graph [1, 0] [(1, 0)] [0, 1] [(0, 1)]"
    by (simp add: same_graph_def canon_edge_def add_mset_commute)
  with native_fingerprint_canonical [OF b] b show ?thesis by blast
qed

end
