(* ===== verification/Problem.thy ===== *)
theory Problem
  imports Topology
begin

text \<open>
  \<open>producer/problem.rs\<close>, \<open>producer/mempool.rs\<close> and \<open>producer/pow.rs\<close>: how the coordinator
  authors a wire job. The \<open>i32\<close> array codec of \<open>quip_protocol::wire\<close>, \<open>derive_nonce\<close> and
  \<open>draw_ising_milli\<close> belong to an external crate and are arguments; \<open>codec_roundtrip\<close> names the
  one law of the codec that is used.
\<close>

definition MILLI_SCALE :: nat where
  "MILLI_SCALE = 1000"

definition milli_problem ::
  "(int list \<Rightarrow> bytes) \<Rightarrow> Graph option \<Rightarrow> int list \<Rightarrow> int list \<Rightarrow> IsingProblem" where
  "milli_problem encode_i32_le graph h_milli j_milli =
     \<lparr> ip_graph = graph, ip_encoding = EncI32, ip_scale = MILLI_SCALE,
       ip_h = encode_i32_le h_milli, ip_j = encode_i32_le j_milli, ip_num_reads = 0 \<rparr>"

datatype ProblemError = WrongEncoding CoefficientEncoding nat | BadH string | BadJ string

definition problem_milli ::
  "(bytes \<Rightarrow> string + int list) \<Rightarrow> IsingProblem \<Rightarrow> ProblemError + int list \<times> int list" where
  "problem_milli decode_i32_le p =
     (if ip_encoding p \<noteq> EncI32 \<or> ip_scale p \<noteq> MILLI_SCALE
      then Inl (WrongEncoding (ip_encoding p) (ip_scale p))
      else case decode_i32_le (ip_h p) of
             Inl e \<Rightarrow> Inl (BadH e)
           | Inr h \<Rightarrow> (case decode_i32_le (ip_j p) of
                          Inl e \<Rightarrow> Inl (BadJ e)
                        | Inr j \<Rightarrow> Inr (h, j)))"

definition is_i32 :: "int \<Rightarrow> bool" where
  "is_i32 x \<longleftrightarrow> - 2147483648 \<le> x \<and> x \<le> 2147483647"

definition codec_roundtrip :: "(int list \<Rightarrow> bytes) \<Rightarrow> (bytes \<Rightarrow> string + int list) \<Rightarrow> bool" where
  "codec_roundtrip enc dec \<longleftrightarrow>
     (\<forall>xs. list_all is_i32 xs \<longrightarrow> dec (enc xs) = Inr xs \<and> length (enc xs) = 4 * length xs)"

text \<open>\<open>quip_protocol::wire\<close> documents a little-endian \<open>i32\<close> array: a concrete codec with its law.\<close>

definition i32_le_enc :: "int list \<Rightarrow> bytes" where
  "i32_le_enc xs = concat (map (\<lambda>x. u32_le (word_of_int x)) xs)"

fun i32_le_dec :: "bytes \<Rightarrow> string + int list" where
  "i32_le_dec [] = Inr []"
| "i32_le_dec (a # b # c # d # rest) =
     (case i32_le_dec rest of
        Inl e \<Rightarrow> Inl e
      | Inr xs \<Rightarrow> Inr (sint (of_nat (le_value [a, b, c, d]) :: 32 word) # xs))"
| "i32_le_dec bs = Inl ''length is not a multiple of 4''"

lemma u32_le_split: "\<exists>a b c d. u32_le w = [a, b, c, d] \<and> le_value [a, b, c, d] = unat w"
proof -
  have "le_value (u32_le w) = unat w"
    using unsigned_less [of w, where 'a = nat] by (simp add: u32_le_def le_value_le_bytes)
  moreover have "\<exists>a b c d. u32_le w = [a, b, c, d]"
    by (simp add: u32_le_def le_bytes_def upt_rec)
  ultimately show ?thesis by metis
qed

lemma sint_word_of_int_i32: "is_i32 x \<Longrightarrow> sint (word_of_int x :: 32 word) = x"
  unfolding is_i32_def by (simp add: signed_of_int signed_take_bit_int_eq_self)

lemma i32_le_codec: "codec_roundtrip i32_le_enc i32_le_dec"
proof -
  have "i32_le_dec (i32_le_enc xs) = Inr xs \<and> length (i32_le_enc xs) = 4 * length xs"
    if "list_all is_i32 xs" for xs
    using that
  proof (induction xs)
    case Nil
    then show ?case by (simp add: i32_le_enc_def)
  next
    case (Cons x xs)
    obtain a b c d where w: "u32_le (word_of_int x) = [a, b, c, d]"
      and v: "le_value [a, b, c, d] = unat (word_of_int x :: 32 word)"
      using u32_le_split by blast
    have "i32_le_enc (x # xs) = a # b # c # d # i32_le_enc xs"
      by (simp add: i32_le_enc_def w)
    moreover have "sint (of_nat (le_value [a, b, c, d]) :: 32 word) = x"
      unfolding v using Cons.prems by (simp add: sint_word_of_int_i32)
    ultimately show ?case using Cons by (simp del: le_value.simps)
  qed
  then show ?thesis by (simp add: codec_roundtrip_def)
qed

subsection \<open>Mempool orders\<close>

datatype SolverType = STCpu | STGpu | STQpuDwave | STQpuIbm | STQpuIonq | STQpuPasqal | STAsic

datatype MinerKind = MKCpu | MKGpu | MKQpuDwave | MKQpuIbm | MKQpuIonq | MKQpuPasqal | MKAsic | MKMetal

fun solver_type_of :: "MinerKind \<Rightarrow> SolverType" where
  "solver_type_of MKCpu = STCpu"
| "solver_type_of MKGpu = STGpu"
| "solver_type_of MKMetal = STGpu"
| "solver_type_of MKQpuDwave = STQpuDwave"
| "solver_type_of MKQpuIbm = STQpuIbm"
| "solver_type_of MKQpuIonq = STQpuIonq"
| "solver_type_of MKQpuPasqal = STQpuPasqal"
| "solver_type_of MKAsic = STAsic"

datatype JobMode = OpenMode | Bid "bytes list option" "nat list option"

record JobOrder =
  jo_order_id :: bytes
  jo_mode :: JobMode
  jo_nodes :: "node list"
  jo_edges :: "(node \<times> node) list"
  jo_h_milli :: "int list"
  jo_j_milli :: "int list"
  jo_min_energy_milli :: "int option"
  jo_min_diversity_milli :: "nat option"
  jo_min_solutions :: "nat option"
  jo_deadline_ms :: nat

primrec solver_type_tag :: "SolverType \<Rightarrow> nat" where
  "solver_type_tag STCpu = 0"
| "solver_type_tag STGpu = 1"
| "solver_type_tag STQpuDwave = 2"
| "solver_type_tag STQpuIbm = 3"
| "solver_type_tag STQpuIonq = 4"
| "solver_type_tag STQpuPasqal = 5"
| "solver_type_tag STAsic = 6"

definition is_eligible_for :: "JobOrder \<Rightarrow> bytes \<Rightarrow> SolverType \<Rightarrow> bool" where
  "is_eligible_for order solver_account solver_type =
     (case jo_mode order of
        OpenMode \<Rightarrow> True
      | Bid miners miner_types \<Rightarrow>
          (case miners of None \<Rightarrow> False | Some allowed \<Rightarrow> solver_account \<in> set allowed)
          \<or> (case miner_types of None \<Rightarrow> False
              | Some allowed \<Rightarrow> solver_type_tag solver_type \<in> set allowed))"

text \<open>
  The two loops of \<open>job_order_to_job\<close>: the label table, refused on a repeated label or an index
  past \<open>u32\<close>, and the endpoints mapped through it, refused at the first unknown label.
\<close>

fun index_nodes :: "nat \<Rightarrow> (node, node) hmap \<Rightarrow> node list \<Rightarrow> (node, node) hmap option" where
  "index_nodes i pos [] = Some pos"
| "index_nodes i pos (n # ns) =
     (if i > u32_max then None
      else if hm_get pos n \<noteq> None then None
      else index_nodes (Suc i) (hm_insert n (of_nat i) pos) ns)"

fun map_edges :: "(node, node) hmap \<Rightarrow> (node \<times> node) list \<Rightarrow> (node list \<times> node list) option" where
  "map_edges pos [] = Some ([], [])"
| "map_edges pos ((a, b) # es) =
     (case hm_get pos a of
        None \<Rightarrow> None
      | Some i \<Rightarrow>
          (case hm_get pos b of
             None \<Rightarrow> None
           | Some j \<Rightarrow>
               (case map_edges pos es of None \<Rightarrow> None | Some (u, v) \<Rightarrow> Some (i # u, j # v))))"

definition job_order_to_job :: "(int list \<Rightarrow> bytes) \<Rightarrow> JobOrder \<Rightarrow> Job option" where
  "job_order_to_job encode_i32_le order =
     (case index_nodes 0 [] (jo_nodes order) of
        None \<Rightarrow> None
      | Some pos \<Rightarrow>
          (case map_edges pos (jo_edges order) of
             None \<Rightarrow> None
           | Some (u, v) \<Rightarrow> Some
               \<lparr> jb_job_id = jo_order_id order, jb_kind = IsingSample, jb_generation = 0,
                 jb_deadline_ms = jo_deadline_ms order,
                 jb_ising = Some (milli_problem encode_i32_le (Some (Edges u v))
                                    (jo_h_milli order) (jo_j_milli order)),
                 jb_provenance = Some \<lparr> pv_is_pow = False, pv_order_id = jo_order_id order \<rparr>,
                 jb_generator = None \<rparr>))"

definition pos_of :: "node \<Rightarrow> node list \<Rightarrow> nat" where
  "pos_of n ns = length (takeWhile (\<lambda>m. m \<noteq> n) ns)"

lemma pos_of_Cons: "pos_of n (m # ns) = (if m = n then 0 else Suc (pos_of n ns))"
  by (simp add: pos_of_def)

lemma pos_of_less: "n \<in> set ns \<Longrightarrow> pos_of n ns < length ns"
  by (induction ns) (auto simp: pos_of_Cons)

lemma nth_pos_of: "n \<in> set ns \<Longrightarrow> ns ! pos_of n ns = n"
  by (induction ns) (auto simp: pos_of_Cons)

lemma index_nodes_Some:
  "index_nodes i pos ns = Some pos' \<Longrightarrow>
     distinct ns \<and> (ns \<noteq> [] \<longrightarrow> i + length ns \<le> Suc u32_max)
     \<and> (\<forall>n \<in> set ns. hm_get pos n = None)
     \<and> (\<forall>n. hm_get pos' n = (if n \<in> set ns then Some (of_nat (i + pos_of n ns)) else hm_get pos n))"
proof (induction i pos ns rule: index_nodes.induct)
  case (1 i pos)
  then show ?case by simp
next
  case (2 i pos n ns)
  then show ?case
    by (auto simp: pos_of_Cons hm.get_ins split: if_splits)
qed

lemma index_nodes_total:
  "distinct ns \<Longrightarrow> \<forall>n \<in> set ns. hm_get pos n = None \<Longrightarrow> i + length ns \<le> Suc u32_max \<Longrightarrow>
     index_nodes i pos ns \<noteq> None"
proof (induction i pos ns rule: index_nodes.induct)
  case (2 i pos n ns)
  have "\<forall>m \<in> set ns. hm_get (hm_insert n (of_nat i) pos) m = None"
    using "2.prems" by (auto simp: hm.get_ins)
  with 2 show ?case by auto
qed simp

lemma map_edges_Some:
  "map_edges pos es = Some (u, v) \<Longrightarrow>
     map (\<lambda>e. hm_get pos (fst e)) es = map Some u \<and> map (\<lambda>e. hm_get pos (snd e)) es = map Some v"
  by (induction pos es arbitrary: u v rule: map_edges.induct) (auto split: option.splits)

lemma map_edges_total:
  "map_edges pos es \<noteq> None
     \<longleftrightarrow> (\<forall>e \<in> set es. hm_get pos (fst e) \<noteq> None \<and> hm_get pos (snd e) \<noteq> None)"
  by (induction es) (auto simp: not_None_eq [symmetric] simp del: not_None_eq split: option.splits)

text \<open>An endpoint that the table resolves indexes the node list at its own label.\<close>

lemma nth_of_index:
  assumes idx: "index_nodes 0 [] ns = Some pos"
    and m: "map (\<lambda>e. hm_get pos (f e)) es = map Some u" and k: "k < length es"
  shows "k < length u \<and> unat (u ! k) < length ns \<and> ns ! unat (u ! k) = f (es ! k)"
proof -
  have len: "length u = length es" using m by (metis length_map)
  then have "hm_get pos (f (es ! k)) = Some (u ! k)"
    using m k by (metis nth_map)
  then have n: "f (es ! k) \<in> set ns" and u: "u ! k = of_nat (pos_of (f (es ! k)) ns)"
    using index_nodes_Some [OF idx] by (auto split: if_splits)
  have "length ns \<le> Suc u32_max"
    using index_nodes_Some [OF idx] n by auto
  with pos_of_less [OF n] have "unat (u ! k) = pos_of (f (es ! k)) ns"
    by (simp add: u unat_of_nat)
  with len k n show ?thesis by (simp add: pos_of_less nth_pos_of)
qed

lemma job_order_to_job_defined:
  "job_order_to_job enc order \<noteq> None \<longleftrightarrow>
     distinct (jo_nodes order) \<and> length (jo_nodes order) \<le> Suc u32_max
     \<and> (\<forall>e \<in> set (jo_edges order). fst e \<in> set (jo_nodes order) \<and> snd e \<in> set (jo_nodes order))"
proof (cases "index_nodes 0 [] (jo_nodes order)")
  case None
  then have "\<not> (distinct (jo_nodes order) \<and> length (jo_nodes order) \<le> Suc u32_max)"
    using index_nodes_total [of "jo_nodes order" "[]" 0] by auto
  with None show ?thesis by (auto simp: job_order_to_job_def)
next
  case (Some pos)
  have "hm_get pos n \<noteq> None \<longleftrightarrow> n \<in> set (jo_nodes order)" for n
    using index_nodes_Some [OF Some] by simp
  then have "map_edges pos (jo_edges order) \<noteq> None \<longleftrightarrow>
      (\<forall>e \<in> set (jo_edges order). fst e \<in> set (jo_nodes order) \<and> snd e \<in> set (jo_nodes order))"
    by (simp only: map_edges_total)
  moreover have "distinct (jo_nodes order) \<and> length (jo_nodes order) \<le> Suc u32_max"
    using index_nodes_Some [OF Some] by (cases "jo_nodes order") auto
  moreover have "job_order_to_job enc order \<noteq> None \<longleftrightarrow> map_edges pos (jo_edges order) \<noteq> None"
    by (auto simp: job_order_to_job_def Some split: option.splits)
  ultimately show ?thesis by blast
qed

lemma job_order_to_job_edges:
  assumes "job_order_to_job enc order = Some job"
  obtains u v where
    "jb_ising job = Some (milli_problem enc (Some (Edges u v)) (jo_h_milli order) (jo_j_milli order))"
    "length u = length (jo_edges order)" "length v = length (jo_edges order)"
    "\<And>k. k < length (jo_edges order) \<Longrightarrow>
        unat (u ! k) < length (jo_nodes order) \<and> unat (v ! k) < length (jo_nodes order)
        \<and> (jo_nodes order ! unat (u ! k), jo_nodes order ! unat (v ! k)) = jo_edges order ! k"
proof -
  obtain pos u v where idx: "index_nodes 0 [] (jo_nodes order) = Some pos"
    and es: "map_edges pos (jo_edges order) = Some (u, v)"
    and job: "jb_ising job = Some (milli_problem enc (Some (Edges u v)) (jo_h_milli order) (jo_j_milli order))"
    using assms by (auto simp: job_order_to_job_def split: option.splits)
  note ms = map_edges_Some [OF es]
  have "length u = length (jo_edges order)" "length v = length (jo_edges order)"
    using ms by (metis length_map)+
  moreover have "unat (u ! k) < length (jo_nodes order) \<and> unat (v ! k) < length (jo_nodes order)
      \<and> (jo_nodes order ! unat (u ! k), jo_nodes order ! unat (v ! k)) = jo_edges order ! k"
    if "k < length (jo_edges order)" for k
    using nth_of_index [OF idx conjunct1 [OF ms] that] nth_of_index [OF idx conjunct2 [OF ms] that]
    by simp
  ultimately show ?thesis using job by (rule that [rotated])
qed

subsection \<open>Snapshots and proof-of-work jobs\<close>

record MiningSnapshot =
  ms_head_hash :: bytes
  ms_last_proof_block_hash :: bytes
  ms_topology_hash :: bytes
  ms_nodes :: "node list"
  ms_edges :: "(node \<times> node) list"
  ms_allowed_h_milli :: "int list"
  ms_allowed_j_milli :: "int list"
  ms_allowed_spin_milli :: "int list"
  ms_min_solutions :: nat
  ms_max_energy_milli :: int
  ms_min_diversity_milli :: nat
  ms_block_number :: nat
  ms_spec_version :: nat

record DecayParams =
  dp_base_max_energy_milli :: int
  dp_last_proof_block :: nat
  dp_epoch_length :: nat
  dp_c_easy_milli :: nat
  dp_c_knee_milli :: nat
  dp_c_hard_milli :: nat

definition round_root :: "bytes \<Rightarrow> nat \<Rightarrow> nat \<Rightarrow> bytes \<Rightarrow> bytes" where
  "round_root head_hash block_number last_proof_block stored_hash =
     (if last_proof_block = block_number then head_hash else stored_hash)"

text \<open>\<open>i64::to_le_bytes\<close> is the little-endian form of the two's complement value.\<close>

definition i64_le :: "int \<Rightarrow> bytes" where
  "i64_le x = le_bytes 8 (nat (x mod 2 ^ 64))"

definition head_state_key :: "(bytes \<Rightarrow> bytes) \<Rightarrow> MiningSnapshot \<Rightarrow> bytes" where
  "head_state_key blake3 snap =
     blake3 (ms_last_proof_block_hash snap @ ms_topology_hash snap
       @ le_bytes 4 (ms_min_solutions snap) @ i64_le (ms_max_energy_milli snap)
       @ le_bytes 4 (ms_min_diversity_milli snap) @ le_bytes 8 (ms_block_number snap))"

definition snapshot_topology_hash ::
  "(node list \<Rightarrow> (node \<times> node) list \<Rightarrow> int list \<Rightarrow> int list \<Rightarrow> int list \<Rightarrow> bytes)
    \<Rightarrow> MiningSnapshot \<Rightarrow> bytes" where
  "snapshot_topology_hash topology_hash_sets snap =
     (if length (ms_topology_hash snap) = 32 then ms_topology_hash snap
      else topology_hash_sets (ms_nodes snap) (ms_edges snap)
             (ms_allowed_h_milli snap) (ms_allowed_j_milli snap)
             (if ms_allowed_spin_milli snap = [] then default_spin_set
              else ms_allowed_spin_milli snap))"

definition build_ising_job_from_nonce ::
  "(int list \<Rightarrow> bytes)
    \<Rightarrow> (bytes \<Rightarrow> nat \<Rightarrow> nat \<Rightarrow> int list \<Rightarrow> int list \<Rightarrow> 'derr + int list \<times> int list)
    \<Rightarrow> MiningSnapshot \<Rightarrow> bytes \<Rightarrow> nat \<Rightarrow> nat \<Rightarrow> 'derr + Job" where
  "build_ising_job_from_nonce encode_i32_le draw_ising_milli snap nonce generation deadline_ms =
     (case draw_ising_milli nonce (length (ms_nodes snap)) (length (ms_edges snap))
             (ms_allowed_h_milli snap) (ms_allowed_j_milli snap) of
        Inl e \<Rightarrow> Inl e
      | Inr (h, j) \<Rightarrow> Inr
          \<lparr> jb_job_id = nonce, jb_kind = IsingSample, jb_generation = generation,
            jb_deadline_ms = deadline_ms,
            jb_ising = Some (milli_problem encode_i32_le
                               (Some (TopologyHash (ms_topology_hash snap))) h j),
            jb_provenance = Some \<lparr> pv_is_pow = True, pv_order_id = [] \<rparr>,
            jb_generator = None \<rparr>)"

definition derive_pow_job ::
  "(bytes \<Rightarrow> bytes \<Rightarrow> bytes \<Rightarrow> bytes) \<Rightarrow> (int list \<Rightarrow> bytes)
    \<Rightarrow> (bytes \<Rightarrow> nat \<Rightarrow> nat \<Rightarrow> int list \<Rightarrow> int list \<Rightarrow> 'derr + int list \<times> int list)
    \<Rightarrow> MiningSnapshot \<Rightarrow> bytes \<Rightarrow> bytes \<Rightarrow> nat \<Rightarrow> nat \<Rightarrow> 'derr + Job" where
  "derive_pow_job derive_nonce encode_i32_le draw_ising_milli snap miner_account salt generation
      deadline_ms =
     build_ising_job_from_nonce encode_i32_le draw_ising_milli snap
       (derive_nonce (ms_last_proof_block_hash snap) miner_account salt) generation deadline_ms"

text \<open>
  A problem the coordinator authors is read back exactly: with an array codec that round-trips
  \<open>i32\<close> values, decoding \<open>milli_problem\<close> returns the fields and couplings it was built from.
\<close>
theorem milli_problem_roundtrip:
  assumes "codec_roundtrip encode decode" "list_all is_i32 h" "list_all is_i32 j"
  shows "problem_milli decode (milli_problem encode g h j) = Inr (h, j)"
  using assms by (simp add: problem_milli_def milli_problem_def codec_roundtrip_def)

theorem milli_problem_roundtrip_witness:
  "problem_milli i32_le_dec (milli_problem i32_le_enc None [1000, - 1000] [500]) = Inr ([1000, - 1000], [500])"
  by (rule milli_problem_roundtrip [OF i32_le_codec]) (simp_all add: is_i32_def)

text \<open>
  A mempool order becomes a job exactly when its node list can index its edges (no repeated
  node, at most \<open>2 ^ 32\<close> of them, every endpoint listed); the job's inline edges then are site
  positions that name the order's own edges, one for one and in order, so the couplings stay
  aligned with them, and the job belongs to generation 0, which no cancel drops.
\<close>
theorem job_order_positions:
  "(case job_order_to_job enc order of
      None \<Rightarrow> \<not> distinct (jo_nodes order) \<or> length (jo_nodes order) > 2 ^ 32
        \<or> (\<exists>e \<in> set (jo_edges order). fst e \<notin> set (jo_nodes order) \<or> snd e \<notin> set (jo_nodes order))
    | Some job \<Rightarrow>
        jb_generation job = 0
        \<and> (\<exists>u v. jb_ising job = Some (milli_problem enc (Some (Edges u v)) (jo_h_milli order) (jo_j_milli order))
             \<and> map (\<lambda>(a, b). (jo_nodes order ! unat a, jo_nodes order ! unat b)) (zip u v) = jo_edges order
             \<and> length u = length v
             \<and> (\<forall>a \<in> set u \<union> set v. unat a < length (jo_nodes order))))"
proof (cases "job_order_to_job enc order")
  case None
  then have "\<not> (distinct (jo_nodes order) \<and> length (jo_nodes order) \<le> Suc u32_max
     \<and> (\<forall>e \<in> set (jo_edges order). fst e \<in> set (jo_nodes order) \<and> snd e \<in> set (jo_nodes order)))"
    using job_order_to_job_defined [of enc order] by blast
  with None show ?thesis by auto
next
  case (Some job)
  from Some obtain u v where uv:
    "jb_ising job = Some (milli_problem enc (Some (Edges u v)) (jo_h_milli order) (jo_j_milli order))"
    "length u = length (jo_edges order)" "length v = length (jo_edges order)"
    "\<And>k. k < length (jo_edges order) \<Longrightarrow>
        unat (u ! k) < length (jo_nodes order) \<and> unat (v ! k) < length (jo_nodes order)
        \<and> (jo_nodes order ! unat (u ! k), jo_nodes order ! unat (v ! k)) = jo_edges order ! k"
    using job_order_to_job_edges by blast
  have "map (\<lambda>(a, b). (jo_nodes order ! unat a, jo_nodes order ! unat b)) (zip u v) = jo_edges order"
    using uv by (intro nth_equalityI) auto
  moreover have "\<forall>a \<in> set u \<union> set v. unat a < length (jo_nodes order)"
    using uv(2-4) by (fastforce simp: in_set_conv_nth)
  moreover have "jb_generation job = 0"
    using Some by (auto simp: job_order_to_job_def split: option.splits)
  ultimately show ?thesis using uv(1-3) unfolding Some option.case
    by (intro conjI exI [of _ u] exI [of _ v]) simp_all
qed

definition ex_order :: JobOrder where
  "ex_order = \<lparr> jo_order_id = [1], jo_mode = OpenMode, jo_nodes = [0, 12, 30],
     jo_edges = [(0, 12), (12, 30)], jo_h_milli = [1000, - 1000, 250], jo_j_milli = [500, - 500],
     jo_min_energy_milli = None, jo_min_diversity_milli = None, jo_min_solutions = None,
     jo_deadline_ms = 9 \<rparr>"

theorem job_order_positions_witness:
  "(case job_order_to_job i32_le_enc ex_order of None \<Rightarrow> False | Some job \<Rightarrow> jb_generation job = 0)"
proof -
  have "job_order_to_job i32_le_enc ex_order \<noteq> None"
    by (simp add: job_order_to_job_defined ex_order_def del: not_None_eq)
  then show ?thesis
    using job_order_positions [where enc = i32_le_enc and order = ex_order] by (auto split: option.splits)
qed

end
