(* ===== verification/Validate.thy ===== *)
theory Validate
  imports Problem
begin

text \<open>
  \<open>validate.rs\<close>: scoring a miner's result and applying the chain's proof gates to it. The
  selection and diversity functions of the \<open>quantum_validation\<close> crate and the packed-spin
  decoder are arguments. \<open>None\<close> is a panic (an index out of range); the theorems show that there
  is none when the selector returns indices of the slice it was given, which is its contract
  (\<open>selector_ok\<close>). Energies are \<open>i64\<close> with the wrap-around written out.
\<close>

definition MAX_PROOF_SOLUTIONS :: nat where
  "MAX_PROOF_SOLUTIONS = 32"

record SpinRow =
  sr_spins :: "int list"
  sr_energy_milli :: int

record QualityGates =
  qg_min_energy_milli :: int
  qg_min_diversity_milli :: nat
  qg_min_solutions :: nat

record Validated =
  vd_best_energy_milli :: int
  vd_diversity_milli :: nat
  vd_n_valid :: nat
  vd_accepted :: bool
  vd_selected_solutions :: "SpinRow list"
  vd_raw_best_energy_milli :: int
  vd_stash_solutions :: "SpinRow list"

record ProofGates =
  pg_best_energy_milli :: int
  pg_diversity_milli :: nat
  pg_n_valid :: nat
  pg_accepted :: bool

type_synonym 'e selector = "int list list \<Rightarrow> nat \<Rightarrow> 'e + nat list"
type_synonym 'e diversity = "int list list \<Rightarrow> 'e + nat"

definition select_and_score ::
  "'e selector \<Rightarrow> 'e diversity \<Rightarrow> int list list \<Rightarrow> nat \<Rightarrow> (nat list \<times> nat) option" where
  "select_and_score select_diverse calculate_diversity rows min_solutions =
     (let target = min (length rows) (max min_solutions 1);
          selected = (case select_diverse rows target of Inr s \<Rightarrow> s | Inl _ \<Rightarrow> [0..<length rows])
      in case pick rows selected of
           None \<Rightarrow> None
         | Some picked \<Rightarrow>
             Some (selected, case calculate_diversity picked of Inr d \<Rightarrow> d | Inl _ \<Rightarrow> 0))"

definition admitted_rows :: "int \<Rightarrow> SpinRow list \<Rightarrow> SpinRow list" where
  "admitted_rows ceiling solutions = filter (\<lambda>s. sr_energy_milli s < ceiling) solutions"

definition check_proof_gates ::
  "'e selector \<Rightarrow> 'e diversity \<Rightarrow> SpinRow list \<Rightarrow> QualityGates \<Rightarrow> ProofGates option" where
  "check_proof_gates select_diverse calculate_diversity solutions gates =
     (let admitted = admitted_rows (qg_min_energy_milli gates) solutions in
      if admitted = []
      then Some \<lparr> pg_best_energy_milli = i64_max, pg_diversity_milli = 0, pg_n_valid = 0,
                  pg_accepted = False \<rparr>
      else let rows = map sr_spins admitted; n_valid = length rows mod 2 ^ 32 in
        case select_and_score select_diverse calculate_diversity rows (qg_min_solutions gates) of
          None \<Rightarrow> None
        | Some (_, diversity_milli) \<Rightarrow> Some
            \<lparr> pg_best_energy_milli = Min (set (map sr_energy_milli admitted)),
              pg_diversity_milli = diversity_milli,
              pg_n_valid = n_valid,
              pg_accepted = (n_valid \<ge> qg_min_solutions gates
                             \<and> diversity_milli \<ge> qg_min_diversity_milli gates) \<rparr>)"

definition gates_from_target :: "SetTarget option \<Rightarrow> QualityGates" where
  "gates_from_target target =
     (case target of
        None \<Rightarrow> \<lparr> qg_min_energy_milli = i64_max, qg_min_diversity_milli = 0, qg_min_solutions = 0 \<rparr>
      | Some t \<Rightarrow> \<lparr> qg_min_energy_milli = tg_max_energy_milli t,
                    qg_min_diversity_milli = tg_min_diversity_milli t,
                    qg_min_solutions = tg_min_solutions t \<rparr>)"

record ResolvedTopo =
  rs_edges_pos :: "(node \<times> node) list"

definition node_positions :: "node list \<Rightarrow> (node, node) hmap" where
  "node_positions nodes = fold (\<lambda>(i, n) pos. hm_insert n (of_nat i) pos) (enumerate 0 nodes) []"

definition resolved_topo_new :: "node list \<Rightarrow> (node \<times> node) list \<Rightarrow> ResolvedTopo" where
  "resolved_topo_new nodes edges_ids =
     (let pos = node_positions nodes;
          at = (\<lambda>n. case hm_get pos n of None \<Rightarrow> 0 | Some i \<Rightarrow> i)
      in \<lparr> rs_edges_pos = map (\<lambda>e. (at (fst e), at (snd e))) edges_ids \<rparr>)"

definition neg_i8 :: "int \<Rightarrow> int" where
  "neg_i8 s = (if s = - 128 then - 128 else - s)"

definition canonicalize_spins :: "int list \<Rightarrow> int list" where
  "canonicalize_spins spins =
     (case spins of
        [] \<Rightarrow> spins
      | s # _ \<Rightarrow> if s = - 1 then map neg_i8 spins else spins)"

fun coupling_sum :: "int list \<Rightarrow> (node \<times> node) list \<Rightarrow> int list \<Rightarrow> int \<Rightarrow> int option" where
  "coupling_sum spins ((u, v) # es) (coupling # cs) energy =
     (if unat u < length spins then
        if unat v < length spins then
          coupling_sum spins es cs
            (wrap_i64 (energy + coupling * spins ! unat u * spins ! unat v))
        else None
      else None)"
| "coupling_sum spins _ _ energy = Some energy"

definition energy_of_row ::
  "int list \<Rightarrow> int list \<Rightarrow> (node \<times> node) list \<Rightarrow> int list \<Rightarrow> int option" where
  "energy_of_row spins h_milli edges_pos j_milli =
     (if length spins \<noteq> length h_milli then None
      else coupling_sum spins edges_pos j_milli
             (fold (\<lambda>(field, s) energy. wrap_i64 (energy + field * s)) (zip h_milli spins) 0))"

text \<open>Keep the first row of each class of rows equal up to a global flip.\<close>

fun dedup_rows :: "int list list \<Rightarrow> nat list \<Rightarrow> int list set \<Rightarrow> nat list" where
  "dedup_rows rows [] seen = []"
| "dedup_rows rows (i # is) seen =
     (let c = canonicalize_spins (rows ! i) in
      if c \<in> seen then dedup_rows rows is seen else i # dedup_rows rows is (insert c seen))"

definition STASH_SCAN_LIMIT :: nat where
  "STASH_SCAN_LIMIT = 4 * MAX_PROOF_SOLUTIONS"

fun stash_loop ::
  "'e selector \<Rightarrow> 'e diversity \<Rightarrow> int list list \<Rightarrow> QualityGates \<Rightarrow> nat list \<Rightarrow> int list set
    \<Rightarrow> nat \<Rightarrow> nat list \<Rightarrow> nat list option" where
  "stash_loop sel dv rows gates [] seen examined chosen = Some chosen"
| "stash_loop sel dv rows gates (i # order) seen examined chosen =
     (if length chosen = MAX_PROOF_SOLUTIONS \<or> examined = STASH_SCAN_LIMIT then Some chosen
      else let c = canonicalize_spins (rows ! i) in
        if c \<in> seen then stash_loop sel dv rows gates order seen examined chosen
        else let seen' = insert c seen; examined' = examined + 1; chosen' = chosen @ [i] in
          if length chosen' < 2
          then stash_loop sel dv rows gates order seen' examined' chosen'
          else case select_and_score sel dv (map (\<lambda>k. rows ! k) chosen') (qg_min_solutions gates) of
                 None \<Rightarrow> None
               | Some (_, diversity) \<Rightarrow>
                   if diversity < qg_min_diversity_milli gates
                   then stash_loop sel dv rows gates order seen' examined' chosen
                   else stash_loop sel dv rows gates order seen' examined' chosen')"

definition spin_row_at :: "int list list \<Rightarrow> int list \<Rightarrow> nat \<Rightarrow> SpinRow" where
  "spin_row_at rows energies i = \<lparr> sr_spins = rows ! i, sr_energy_milli = energies ! i \<rparr>"

definition stash_rows ::
  "'e selector \<Rightarrow> 'e diversity \<Rightarrow> int list list \<Rightarrow> int list \<Rightarrow> QualityGates \<Rightarrow> SpinRow list option" where
  "stash_rows sel dv rows energies gates =
     (if length rows > length energies then None
      else map_option (map (spin_row_at rows energies))
             (stash_loop sel dv rows gates (sort_key (\<lambda>i. energies ! i) [0..<length rows]) {} 0 []))"

definition validate_scored ::
  "'e selector \<Rightarrow> 'e diversity \<Rightarrow> int list list \<Rightarrow> int list \<Rightarrow> QualityGates \<Rightarrow> Validated option" where
  "validate_scored sel dv rows energies gates =
     (let energy_valid = filter (\<lambda>i. energies ! i < qg_min_energy_milli gates) [0..<length energies] in
      if \<not> list_all (\<lambda>i. i < length rows) energy_valid then None
      else let unique_valid = dedup_rows rows energy_valid {};
               n_valid = length unique_valid mod 2 ^ 32;
               picked = (if unique_valid = [] then Some (i64_max, 0, [])
                  else case select_and_score sel dv (map (\<lambda>i. rows ! i) unique_valid) (qg_min_solutions gates) of
                         None \<Rightarrow> None
                       | Some (selected, diversity) \<Rightarrow>
                           let idx = map (\<lambda>i. unique_valid ! i) selected in
                           Some (if idx = [] then i64_max else Min (set (map (\<lambda>i. energies ! i) idx)),
                                 diversity,
                                 map (spin_row_at rows energies) (take MAX_PROOF_SOLUTIONS idx)))
           in case picked of
                None \<Rightarrow> None
              | Some (best, diversity_milli, selected_solutions) \<Rightarrow>
                  (case stash_rows sel dv rows energies gates of
                     None \<Rightarrow> None
                   | Some stash \<Rightarrow> Some
                       \<lparr> vd_best_energy_milli = best,
                         vd_diversity_milli = diversity_milli,
                         vd_n_valid = n_valid,
                         vd_accepted = (n_valid \<ge> qg_min_solutions gates
                                        \<and> diversity_milli \<ge> qg_min_diversity_milli gates),
                         vd_selected_solutions = selected_solutions,
                         vd_raw_best_energy_milli =
                           (if energies = [] then i64_max else Min (set energies)),
                         vd_stash_solutions = stash \<rparr>))"

definition rejected_result :: Validated where
  "rejected_result =
     \<lparr> vd_best_energy_milli = i64_max, vd_diversity_milli = 0, vd_n_valid = 0, vd_accepted = False,
       vd_selected_solutions = [], vd_raw_best_energy_milli = i64_max, vd_stash_solutions = [] \<rparr>"

definition result_edges :: "IsingProblem \<Rightarrow> ResolvedTopo \<Rightarrow> (node \<times> node) list" where
  "result_edges problem topo =
     (case ip_graph problem of
        Some (Edges u v) \<Rightarrow> zip u v
      | Some (TopologyHash _) \<Rightarrow> rs_edges_pos topo
      | None \<Rightarrow> [])"

definition score_solutions ::
  "(bytes \<Rightarrow> nat \<Rightarrow> 'd + int list) \<Rightarrow> int list \<Rightarrow> (node \<times> node) list \<Rightarrow> int list \<Rightarrow> Solution list
    \<Rightarrow> (int list \<times> int) list" where
  "score_solutions decode_spins_packed h_milli edges_pos j_milli solutions =
     List.map_filter (\<lambda>sol.
       case decode_spins_packed (sl_spins sol) (length h_milli) of
         Inl _ \<Rightarrow> None
       | Inr spins \<Rightarrow> map_option (Pair spins) (energy_of_row spins h_milli edges_pos j_milli)) solutions"

definition validate_result ::
  "'e selector \<Rightarrow> 'e diversity \<Rightarrow> (bytes \<Rightarrow> string + int list) \<Rightarrow> (bytes \<Rightarrow> nat \<Rightarrow> 'd + int list)
    \<Rightarrow> IsingProblem \<Rightarrow> Solution list \<Rightarrow> QualityGates \<Rightarrow> ResolvedTopo \<Rightarrow> Validated option" where
  "validate_result sel dv decode_i32_le decode_spins_packed problem solutions gates topo =
     (case problem_milli decode_i32_le problem of
        Inl _ \<Rightarrow> Some rejected_result
      | Inr (h_milli, j_milli) \<Rightarrow>
          let scored = score_solutions decode_spins_packed h_milli (result_edges problem topo) j_milli solutions
          in validate_scored sel dv (map fst scored) (map snd scored) gates)"

definition beats_current :: "int \<Rightarrow> int option \<Rightarrow> bool" where
  "beats_current candidate_milli current_best_milli =
     (case current_best_milli of None \<Rightarrow> True | Some cur \<Rightarrow> candidate_milli < cur)"

end
