(* ===== verification/Validate_Laws.thy ===== *)
theory Validate_Laws
  imports Validate "HOL-Library.Sublist"
begin

text \<open>
  Correctness of result validation: the energy scorer computes the Ising energy without
  overflow, counting is up to a global flip, the rows submitted at once clear the chain's gates,
  and the rows kept for later clear them under every ceiling that admits enough of them.
\<close>

subsection \<open>The contract of the external selector\<close>

definition selector_ok :: "'e selector \<Rightarrow> bool" where
  "selector_ok sel \<longleftrightarrow> (\<forall>rows k idx. sel rows k = Inr idx \<longrightarrow>
     distinct idx \<and> set idx \<subseteq> {..<length rows} \<and> length idx = min k (length rows))"

definition order_free :: "'e diversity \<Rightarrow> bool" where
  "order_free dv \<longleftrightarrow> (\<forall>xs ys. mset xs = mset ys \<longrightarrow> dv xs = dv ys)"

definition first_k :: "unit selector" where
  "first_k rows k = Inr [0..<min k (length rows)]"

definition flat_diversity :: "unit diversity" where
  "flat_diversity rows = Inr (if length rows < 2 then 0 else 500)"

lemma first_k_ok: "selector_ok first_k"
  by (auto simp: selector_ok_def first_k_def)

lemma flat_diversity_order_free: "order_free flat_diversity"
  by (auto simp: order_free_def flat_diversity_def dest: mset_eq_length)

lemma select_and_score_total:
  assumes "selector_ok sel"
  obtains idx d where "select_and_score sel dv rows ms = Some (idx, d)"
    "distinct idx" "set idx \<subseteq> {..<length rows}"
    "length idx = min (length rows) (max ms 1) \<or> idx = [0..<length rows]"
    "d = (case dv (map (\<lambda>i. rows ! i) idx) of Inr d \<Rightarrow> d | Inl _ \<Rightarrow> 0)"
proof -
  define idx where "idx = (case sel rows (min (length rows) (max ms 1)) of Inr s \<Rightarrow> s | Inl _ \<Rightarrow> [0..<length rows])"
  have idx: "distinct idx" "set idx \<subseteq> {..<length rows}"
    "length idx = min (length rows) (max ms 1) \<or> idx = [0..<length rows]"
    using assms by (auto simp: idx_def selector_ok_def split: sum.splits)
  then have "pick rows idx = Some (map (\<lambda>i. rows ! i) idx)"
    by (auto simp: pick_def list_all_iff)
  then have "select_and_score sel dv rows ms
      = Some (idx, case dv (map (\<lambda>i. rows ! i) idx) of Inr d \<Rightarrow> d | Inl _ \<Rightarrow> 0)"
    by (simp add: select_and_score_def Let_def idx_def)
  with idx that show thesis by blast
qed

lemma select_and_score_Some: "selector_ok sel \<Longrightarrow> select_and_score sel dv rows ms \<noteq> None"
  by (metis option.distinct(1) select_and_score_total)

subsection \<open>Energies\<close>

definition spin_row :: "int list \<Rightarrow> bool" where
  "spin_row spins \<longleftrightarrow> (\<forall>s \<in> set spins. s = 1 \<or> s = - 1)"

text \<open>The Ising energy over unbounded integers.\<close>

definition ising_energy :: "int list \<Rightarrow> int list \<Rightarrow> (node \<times> node) list \<Rightarrow> int list \<Rightarrow> int" where
  "ising_energy spins h edges j =
     (\<Sum>(f, s) \<leftarrow> zip h spins. f * s)
     + (\<Sum>((u, v), c) \<leftarrow> zip edges j. c * spins ! unat u * spins ! unat v)"

lemma spin_abs: "spin_row spins \<Longrightarrow> s \<in> set spins \<Longrightarrow> \<bar>x * s\<bar> = \<bar>x\<bar>"
  by (auto simp: spin_row_def abs_mult)

lemma field_fold:
  assumes "spin_row spins" "list_all is_i32 h" "length h + n < 2 ^ 32" "\<bar>acc\<bar> \<le> int n * 2 ^ 31"
  shows "fold (\<lambda>(f, s) e. wrap_i64 (e + f * s)) (zip h spins) acc
      = acc + (\<Sum>(f, s) \<leftarrow> zip h spins. f * s)
    \<and> \<bar>acc + (\<Sum>(f, s) \<leftarrow> zip h spins. f * s)\<bar> \<le> int (n + length h) * 2 ^ 31"
  using assms
proof (induction h arbitrary: spins acc n)
  case (Cons f h)
  show ?case
  proof (cases spins)
    case Nil
    with Cons.prems show ?thesis by (simp add: algebra_simps)
  next
    case (Cons s spins')
    have "\<bar>f * s\<bar> \<le> 2 ^ 31"
      using Cons.prems(1,2) spin_abs [of spins s f] by (auto simp: is_i32_def Cons)
    then have b: "\<bar>acc + f * s\<bar> \<le> int (Suc n) * 2 ^ 31"
      using Cons.prems(4) by (simp add: algebra_simps)
    also have "\<dots> \<le> (2 ^ 32 - 1) * 2 ^ 31" using Cons.prems(3) by simp
    finally have "is_i64 (acc + f * s)" by (auto simp: is_i64_def)
    moreover have "spin_row spins'" using Cons.prems(1) by (simp add: spin_row_def Cons)
    ultimately show ?thesis
      using Cons.IH [of spins' "Suc n" "acc + f * s"] Cons.prems b
      by (simp add: Cons wrap_i64_id add.assoc)
  qed
qed (simp add: algebra_simps)

lemma coupling_fold:
  assumes "spin_row spins" "list_all is_i32 j" "length j + n < 2 ^ 32" "\<bar>acc\<bar> \<le> int n * 2 ^ 31"
    "\<forall>(u, v) \<in> set edges. unat u < length spins \<and> unat v < length spins"
  shows "coupling_sum spins edges j acc
      = Some (acc + (\<Sum>((u, v), c) \<leftarrow> zip edges j. c * spins ! unat u * spins ! unat v))"
  using assms
proof (induction spins edges j acc arbitrary: n rule: coupling_sum.induct)
  case (1 spins u v es c cs e)
  have uv: "spins ! unat u \<in> set spins" "spins ! unat v \<in> set spins"
    using "1.prems"(5) by auto
  have "\<bar>c * spins ! unat u * spins ! unat v\<bar> = \<bar>c\<bar>"
    using spin_abs [OF "1.prems"(1) uv(1)] spin_abs [OF "1.prems"(1) uv(2)] by metis
  then have "\<bar>c * spins ! unat u * spins ! unat v\<bar> \<le> 2 ^ 31"
    using "1.prems"(2) by (auto simp: is_i32_def)
  then have b: "\<bar>e + c * spins ! unat u * spins ! unat v\<bar> \<le> int (Suc n) * 2 ^ 31"
    using "1.prems"(4) by (simp add: algebra_simps)
  also have "\<dots> \<le> (2 ^ 32 - 1) * 2 ^ 31" using "1.prems"(3) by simp
  finally have w: "wrap_i64 (e + c * spins ! unat u * spins ! unat v) = e + c * spins ! unat u * spins ! unat v"
    by (intro wrap_i64_id) (auto simp: is_i64_def)
  from "1.prems" 1(1) [of "Suc n"] b show ?case by (simp add: w)
qed auto

lemma energy_of_row_exact:
  assumes "spin_row spins" "length spins = length h" "list_all is_i32 h" "list_all is_i32 j"
    "length h + length j < 2 ^ 32"
    "\<forall>(u, v) \<in> set edges. unat u < length spins \<and> unat v < length spins"
  shows "energy_of_row spins h edges j = Some (ising_energy spins h edges j)"
proof -
  have f: "fold (\<lambda>(f, s) e. wrap_i64 (e + f * s)) (zip h spins) 0 = (\<Sum>(f, s) \<leftarrow> zip h spins. f * s)"
    "\<bar>\<Sum>(f, s) \<leftarrow> zip h spins. f * s\<bar> \<le> int (length h) * 2 ^ 31"
    using field_fold [of spins h 0 0] assms by auto
  from coupling_fold [OF assms(1,4) _ f(2) assms(6)] assms(2,5) show ?thesis
    by (simp add: energy_of_row_def f(1) ising_energy_def add.commute)
qed

lemma flip_nth: "i < length spins \<Longrightarrow> map uminus spins ! i = - spins ! i" for spins :: "int list"
  by simp

lemma ising_energy_flip:
  assumes "\<forall>(u, v) \<in> set edges. unat u < length spins \<and> unat v < length spins"
  shows "ising_energy (map uminus spins) h edges j
     = ising_energy spins h edges j - 2 * (\<Sum>(f, s) \<leftarrow> zip h spins. f * s)"
proof -
  have fields: "(\<Sum>(f, s) \<leftarrow> zip h (map uminus spins). f * s) = - (\<Sum>(f, s) \<leftarrow> zip h spins. f * s)"
  proof (induction h arbitrary: spins)
    case (Cons a h)
    then show ?case by (cases spins) auto
  qed simp
  have "(\<Sum>((u, v), c) \<leftarrow> zip edges j. c * map uminus spins ! unat u * map uminus spins ! unat v)
      = (\<Sum>((u, v), c) \<leftarrow> zip edges j. c * spins ! unat u * spins ! unat v)"
    using assms
  proof (induction edges arbitrary: j)
    case (Cons e es)
    then show ?case by (cases j) (auto simp: flip_nth)
  qed simp
  with fields show ?thesis by (simp add: ising_energy_def)
qed

text \<open>
  C30. Scoring is exact: for a row of \<open>\<plusminus>1\<close> spins of the right length, \<open>i32\<close> coefficients, fewer
  than \<open>2 ^ 32\<close> of them, and edges that index the row, the \<open>i64\<close> accumulation never wraps and
  returns the Ising energy; flipping every spin changes it by minus twice the field term, so at
  zero field a row and its flip score the same.
\<close>
theorem energy_exact_and_flip:
  assumes "spin_row spins" "length spins = length h" "list_all is_i32 h" "list_all is_i32 j"
    "length h + length j < 2 ^ 32"
    "\<forall>(u, v) \<in> set edges. unat u < length spins \<and> unat v < length spins"
  shows "energy_of_row spins h edges j = Some (ising_energy spins h edges j)
    \<and> energy_of_row (map uminus spins) h edges j
        = Some (ising_energy spins h edges j - 2 * (\<Sum>(f, s) \<leftarrow> zip h spins. f * s))
    \<and> (set h \<subseteq> {0} \<longrightarrow> energy_of_row (map uminus spins) h edges j = energy_of_row spins h edges j)"
proof -
  have fl: "spin_row (map uminus spins)" using assms(1) by (auto simp: spin_row_def)
  have "(\<Sum>(f, s) \<leftarrow> zip h spins. f * s) = 0" if "set h \<subseteq> {0}"
    using that
  proof (induction h arbitrary: spins)
    case (Cons a h)
    then show ?case by (cases spins) auto
  qed simp
  moreover have "energy_of_row (map uminus spins) h edges j
      = Some (ising_energy (map uminus spins) h edges j)"
    by (rule energy_of_row_exact) (use assms fl in auto)
  ultimately show ?thesis
    using energy_of_row_exact [OF assms] ising_energy_flip [OF assms(6), of h j] by simp
qed

theorem energy_exact_and_flip_witness:
  "energy_of_row [1, - 1] [1000, 0] [(0, 1)] [500] = Some (ising_energy [1, - 1] [1000, 0] [(0, 1)] [500])"
  using energy_exact_and_flip [of "[1, - 1]" "[1000, 0]" "[500]" "[(0, 1)]"]
  by (simp add: spin_row_def is_i32_def)

subsection \<open>Counting up to a flip\<close>

lemma dedup_rows_canon:
  "distinct (map (\<lambda>i. canonicalize_spins (rows ! i)) (dedup_rows rows is seen))
   \<and> (\<lambda>i. canonicalize_spins (rows ! i)) ` set (dedup_rows rows is seen)
       = (\<lambda>i. canonicalize_spins (rows ! i)) ` set is - seen
   \<and> set (dedup_rows rows is seen) \<subseteq> set is"
  by (induction "is" arbitrary: seen) (auto simp: Let_def)

lemma dedup_rows_length:
  "length (dedup_rows rows is {}) = card ((\<lambda>i. canonicalize_spins (rows ! i)) ` set is)"
proof -
  have "length (dedup_rows rows is {})
      = card (set (map (\<lambda>i. canonicalize_spins (rows ! i)) (dedup_rows rows is {})))"
    using dedup_rows_canon [of rows "is" "{}"] distinct_card [of "map (\<lambda>i. canonicalize_spins (rows ! i)) (dedup_rows rows is {})"]
    by simp
  also have "\<dots> = card ((\<lambda>i. canonicalize_spins (rows ! i)) ` set is)"
    using dedup_rows_canon [of rows "is" "{}"] by simp
  finally show ?thesis .
qed

lemma canonicalize_flip:
  "spin_row a \<Longrightarrow> spin_row b \<Longrightarrow> canonicalize_spins a = canonicalize_spins b \<longleftrightarrow> a = b \<or> a = map uminus b"
proof -
  have neg: "map neg_i8 c = map uminus c" if "spin_row c" for c
    using that by (auto simp: spin_row_def neg_i8_def)
  assume ab: "spin_row a" "spin_row b"
  have idem: "map uminus (map uminus c) = c" for c :: "int list"
    by (simp add: comp_def)
  show ?thesis
  proof (cases "a = [] \<or> b = []")
    case True
    then show ?thesis by (auto simp: canonicalize_spins_def neg [OF ab(1)] neg [OF ab(2)] split: list.splits)
  next
    case False
    then obtain x xs y ys where a: "a = x # xs" and b: "b = y # ys" by (auto simp: neq_Nil_conv)
    have x: "x = 1 \<or> x = - 1" and y: "y = 1 \<or> y = - 1"
      using ab by (auto simp: a b spin_row_def)
    have ca: "canonicalize_spins a = (if x = - 1 then map uminus a else a)"
      using neg [OF ab(1)] by (auto simp: canonicalize_spins_def a)
    have cb: "canonicalize_spins b = (if y = - 1 then map uminus b else b)"
      using neg [OF ab(2)] by (auto simp: canonicalize_spins_def b)
    show ?thesis
      using x y unfolding ca cb by (auto simp: a b dest: arg_cong [where f = "map uminus"])
  qed
qed

subsection \<open>The stash rows\<close>

definition prefix_ok :: "'e selector \<Rightarrow> 'e diversity \<Rightarrow> QualityGates \<Rightarrow> int list list \<Rightarrow> bool" where
  "prefix_ok sel dv gates rows \<longleftrightarrow>
     (case select_and_score sel dv rows (qg_min_solutions gates) of
        None \<Rightarrow> False | Some (_, d) \<Rightarrow> qg_min_diversity_milli gates \<le> d)"

text \<open>One turn of the loop: stop, skip a twin, examine and drop, examine and keep.\<close>

lemma stash_loop_turn [case_names Stop Skip Drop Keep]:
  assumes "stash_loop sel dv rows gates (i # order) seen examined chosen = Some res"
  obtains "res = chosen"
  | "stash_loop sel dv rows gates order seen examined chosen = Some res"
      "canonicalize_spins (rows ! i) \<in> seen"
  | "stash_loop sel dv rows gates order (insert (canonicalize_spins (rows ! i)) seen)
       (examined + 1) chosen = Some res"
      "chosen \<noteq> []" "canonicalize_spins (rows ! i) \<notin> seen"
  | "stash_loop sel dv rows gates order (insert (canonicalize_spins (rows ! i)) seen)
       (examined + 1) (chosen @ [i]) = Some res"
      "canonicalize_spins (rows ! i) \<notin> seen" "length chosen \<noteq> MAX_PROOF_SOLUTIONS"
      "chosen = [] \<or> prefix_ok sel dv gates (map (\<lambda>k. rows ! k) (chosen @ [i]))"
proof -
  note u = assms [unfolded stash_loop.simps(2) Let_def]
  show thesis
  proof (cases "length chosen = MAX_PROOF_SOLUTIONS \<or> examined = STASH_SCAN_LIMIT")
    case True
    with u show thesis by (intro that(1)) simp
  next
    case go: False
    show thesis
    proof (cases "canonicalize_spins (rows ! i) \<in> seen")
      case True
      with u go show thesis by (intro that(2)) simp_all
    next
      case new: False
      show thesis
      proof (cases "chosen = []")
        case True
        with u go new show thesis by (intro that(4)) simp_all
      next
        case False
        then have "\<not> length (chosen @ [i]) < 2" by (simp add: Suc_less_eq2 not_less Suc_le_eq)
        with u go new obtain idx d where d:
          "select_and_score sel dv (map (\<lambda>k. rows ! k) (chosen @ [i])) (qg_min_solutions gates) = Some (idx, d)"
          by (cases "select_and_score sel dv (map (\<lambda>k. rows ! k) (chosen @ [i])) (qg_min_solutions gates)") auto
        show thesis
        proof (cases "d < qg_min_diversity_milli gates")
          case True
          with u go new d False show thesis by (intro that(3)) simp_all
        next
          case False
          then have "prefix_ok sel dv gates (map (\<lambda>k. rows ! k) (chosen @ [i]))"
            by (simp only: prefix_ok_def d option.case prod.case not_less)
          with u go new d False \<open>chosen \<noteq> []\<close> show thesis by (intro that(4)) simp_all
        qed
      qed
    qed
  qed
qed

lemma stash_loop_extends:
  "stash_loop sel dv rows gates order seen examined chosen = Some res \<Longrightarrow>
     \<exists>ext. res = chosen @ ext \<and> subseq ext order"
proof (induction order arbitrary: seen examined chosen)
  case (Cons i order)
  from Cons.prems show ?case
    by (cases rule: stash_loop_turn) (auto dest!: Cons.IH)
qed auto

lemma stash_loop_prefixes:
  "stash_loop sel dv rows gates order seen examined chosen = Some res \<Longrightarrow>
     \<forall>k \<in> {2..length chosen}. prefix_ok sel dv gates (map (\<lambda>k. rows ! k) (take k chosen)) \<Longrightarrow>
     \<forall>k \<in> {2..length res}. prefix_ok sel dv gates (map (\<lambda>k. rows ! k) (take k res))"
proof (induction order arbitrary: seen examined chosen)
  case (Cons i order)
  from Cons.prems(1) show ?case
  proof (cases rule: stash_loop_turn)
    case Keep
    have "\<forall>k \<in> {2..length (chosen @ [i])}.
        prefix_ok sel dv gates (map (\<lambda>k. rows ! k) (take k (chosen @ [i])))"
      using Cons.prems(2) Keep(4) by (auto simp: le_Suc_eq)
    with Keep(1) show ?thesis by (rule Cons.IH)
  qed (use Cons in blast)+
qed auto

lemma stash_loop_bound:
  "stash_loop sel dv rows gates order seen examined chosen = Some res \<Longrightarrow>
     length chosen \<le> MAX_PROOF_SOLUTIONS \<Longrightarrow> length res \<le> MAX_PROOF_SOLUTIONS"
proof (induction order arbitrary: seen examined chosen)
  case (Cons i order)
  from Cons.prems(1) show ?case
    by (cases rule: stash_loop_turn) (use Cons.IH Cons.prems(2) in fastforce)+
qed auto

lemma stash_loop_distinct:
  "stash_loop sel dv rows gates order seen examined chosen = Some res \<Longrightarrow>
     distinct (map (\<lambda>i. canonicalize_spins (rows ! i)) chosen) \<Longrightarrow>
     (\<lambda>i. canonicalize_spins (rows ! i)) ` set chosen \<subseteq> seen \<Longrightarrow>
     distinct (map (\<lambda>i. canonicalize_spins (rows ! i)) res)"
proof (induction order arbitrary: seen examined chosen)
  case (Cons i order)
  from Cons.prems(1) show ?case
    by (cases rule: stash_loop_turn) (use Cons.IH Cons.prems(2,3) in fastforce)+
qed auto

lemma stash_loop_total:
  "selector_ok sel \<Longrightarrow> stash_loop sel dv rows gates order seen examined chosen \<noteq> None"
proof (induction order arbitrary: seen examined chosen)
  case (Cons i order)
  then show ?case
    using select_and_score_Some [OF Cons.prems, of dv "map (\<lambda>k. rows ! k) (chosen @ [i])" "qg_min_solutions gates"]
    by (auto simp: Let_def split: option.splits)
qed auto

lemma sorted_wrt_subseq: "subseq xs ys \<Longrightarrow> sorted_wrt P ys \<Longrightarrow> sorted_wrt P xs"
proof (induction rule: list_emb.induct)
  case (list_emb_Cons2 x y xs ys)
  then show ?case by (auto dest: list_emb_set)
qed auto

lemma subseq_set: "subseq xs ys \<Longrightarrow> set xs \<subseteq> set ys"
  by (auto dest: list_emb_set)

lemma filter_sorted_prefix:
  fixes f :: "'a \<Rightarrow> 'b :: linorder"
  assumes "sorted (map f xs)"
  shows "filter (\<lambda>x. f x < c) xs = take (length (filter (\<lambda>x. f x < c) xs)) xs"
proof -
  have "filter (\<lambda>x. f x < c) xs = takeWhile (\<lambda>x. f x < c) xs"
    using assms
  proof (induction xs)
    case (Cons a xs)
    show ?case
    proof (cases "f a < c")
      case False
      then have "\<forall>x \<in> set xs. \<not> f x < c" using Cons.prems by auto
      with False show ?thesis by (simp add: filter_empty_conv)
    qed (use Cons in simp)
  qed simp
  then show ?thesis by (metis takeWhile_eq_take)
qed

lemma map_spin_row_at [simp]:
  "map sr_spins (map (spin_row_at rows energies) is) = map (\<lambda>i. rows ! i) is"
  "map sr_energy_milli (map (spin_row_at rows energies) is) = map (\<lambda>i. energies ! i) is"
  by (simp_all add: spin_row_at_def)

lemma stash_rows_chosen:
  assumes "stash_rows sel dv rows energies gates = Some st"
  obtains chosen where "st = map (spin_row_at rows energies) chosen" "length rows \<le> length energies"
    "stash_loop sel dv rows gates (sort_key (\<lambda>i. energies ! i) [0..<length rows]) {} 0 [] = Some chosen"
    "subseq chosen (sort_key (\<lambda>i. energies ! i) [0..<length rows])"
    "sorted (map (\<lambda>i. energies ! i) chosen)" "set chosen \<subseteq> {..<length rows}"
proof -
  from assms obtain chosen where c: "st = map (spin_row_at rows energies) chosen" "length rows \<le> length energies"
    "stash_loop sel dv rows gates (sort_key (\<lambda>i. energies ! i) [0..<length rows]) {} 0 [] = Some chosen"
    by (auto simp: stash_rows_def split: if_splits)
  from stash_loop_extends [OF c(3)]
  have sub: "subseq chosen (sort_key (\<lambda>i. energies ! i) [0..<length rows])" by simp
  have "sorted_wrt (\<lambda>i j. energies ! i \<le> energies ! j) (sort_key (\<lambda>i. energies ! i) [0..<length rows])"
    using sorted_sort_key [of "\<lambda>i. energies ! i" "[0..<length rows]"] by (simp add: sorted_wrt_map)
  with sub have "sorted (map (\<lambda>i. energies ! i) chosen)"
    by (simp add: sorted_wrt_map sorted_wrt_subseq)
  moreover have "set chosen \<subseteq> {..<length rows}" using subseq_set [OF sub] by auto
  ultimately show thesis using that c sub by blast
qed

lemma stash_rows_head:
  assumes "stash_rows sel dv rows energies gates = Some st" "rows \<noteq> []" "length rows = length energies"
  shows "st \<noteq> [] \<and> sr_energy_milli (hd st) = Min (set energies)"
proof -
  from stash_rows_chosen [OF assms(1)] obtain chosen where st: "st = map (spin_row_at rows energies) chosen"
    and loop: "stash_loop sel dv rows gates (sort_key (\<lambda>i. energies ! i) [0..<length rows]) {} 0 [] = Some chosen"
    by blast
  let ?order = "sort_key (\<lambda>i. energies ! i) [0..<length rows]"
  have "length ?order \<noteq> 0" using assms(2) by simp
  then obtain i order where o: "?order = i # order" by (cases ?order) simp_all
  have "stash_loop sel dv rows gates order {canonicalize_spins (rows ! i)} 1 [i] = Some chosen"
    using loop by (simp add: o MAX_PROOF_SOLUTIONS_def STASH_SCAN_LIMIT_def Let_def)
  from stash_loop_extends [OF this] obtain ext where c: "chosen = i # ext" by auto
  have range: "set (i # order) = {..<length rows}"
    by (simp only: o [symmetric] set_sort set_upt atLeast0LessThan)
  then have "i < length energies" unfolding assms(3) [symmetric] by (metis lessThan_iff list.set_intros(1))
  then have i: "energies ! i \<in> set energies" by simp
  have "sorted (map (\<lambda>i. energies ! i) (i # order))"
    using sorted_sort_key [of "\<lambda>i. energies ! i" "[0..<length rows]"] by (simp only: o)
  then have least: "\<forall>k \<in> set (i # order). energies ! i \<le> energies ! k" by auto
  have "energies ! i \<le> e" if "e \<in> set energies" for e
    using that least unfolding range assms(3) by (auto simp: in_set_conv_nth)
  with i have "Min (set energies) = energies ! i" by (intro Min_eqI) auto
  then show ?thesis by (simp add: st c spin_row_at_def)
qed

lemma stash_admitted_prefix:
  assumes "stash_rows sel dv rows energies gates = Some st" "2 \<le> length (admitted_rows c st)"
  shows "prefix_ok sel dv gates (map sr_spins (admitted_rows c st))"
proof -
  from stash_rows_chosen [OF assms(1)] obtain chosen where st: "st = map (spin_row_at rows energies) chosen"
    and loop: "stash_loop sel dv rows gates (sort_key (\<lambda>i. energies ! i) [0..<length rows]) {} 0 [] = Some chosen"
    and srt: "sorted (map (\<lambda>i. energies ! i) chosen)"
    by blast
  define k where "k = length (admitted_rows c st)"
  have "sorted (map sr_energy_milli st)" using srt by (simp only: st map_spin_row_at)
  then have adm: "admitted_rows c st = take k st"
    unfolding k_def admitted_rows_def by (rule filter_sorted_prefix)
  have "k \<le> length chosen" unfolding k_def admitted_rows_def st by (metis length_filter_le length_map)
  with assms(2) have "prefix_ok sel dv gates (map (\<lambda>k. rows ! k) (take k chosen))"
    using stash_loop_prefixes [OF loop] by (simp add: k_def)
  moreover have "map sr_spins (take k st) = map (\<lambda>k. rows ! k) (take k chosen)"
    by (simp only: st take_map map_spin_row_at)
  ultimately show ?thesis by (simp only: adm)
qed

text \<open>
  C4. A stashed proof stays submittable as the difficulty eases: for every energy ceiling, the rows
  of the stash that the ceiling admits clear the diversity floor the result was validated under as
  soon as there are two of them, so the proof is accepted exactly when it has enough rows.
\<close>
theorem stash_clears_every_ceiling:
  assumes "stash_rows sel dv rows energies gates = Some st"
    and "check_proof_gates sel dv st (gates\<lparr>qg_min_energy_milli := ceiling\<rparr>) = Some g"
    and "2 \<le> pg_n_valid g"
  shows "qg_min_diversity_milli gates \<le> pg_diversity_milli g
     \<and> (pg_accepted g \<longleftrightarrow> qg_min_solutions gates \<le> pg_n_valid g)"
proof -
  let ?adm = "admitted_rows ceiling st"
  have ne: "?adm \<noteq> []" using assms(2,3) by (auto simp: check_proof_gates_def)
  from stash_rows_chosen [OF assms(1)] obtain chosen where st: "st = map (spin_row_at rows energies) chosen"
    and loop: "stash_loop sel dv rows gates (sort_key (\<lambda>i. energies ! i) [0..<length rows]) {} 0 [] = Some chosen"
    by blast
  have "length ?adm \<le> 32"
    using stash_loop_bound [OF loop] length_filter_le [of "\<lambda>s. sr_energy_milli s < ceiling" st]
    unfolding MAX_PROOF_SOLUTIONS_def admitted_rows_def st length_map list.size by linarith
  then have m: "length ?adm mod 2 ^ 32 = length ?adm" by simp
  obtain idx d where d: "select_and_score sel dv (map sr_spins ?adm) (qg_min_solutions gates) = Some (idx, d)"
    and g: "pg_diversity_milli g = d" "pg_n_valid g = length ?adm"
      "pg_accepted g = (length ?adm \<ge> qg_min_solutions gates \<and> d \<ge> qg_min_diversity_milli gates)"
    using assms(2) ne m by (auto simp: check_proof_gates_def Let_def split: option.splits)
  have "prefix_ok sel dv gates (map sr_spins ?adm)"
    by (rule stash_admitted_prefix [OF assms(1)]) (use assms(3) g(2) in simp)
  then have "qg_min_diversity_milli gates \<le> d" by (simp only: prefix_ok_def d option.case prod.case)
  with g show ?thesis by simp
qed

text \<open>
  The shape of the stash: at most 32 rows of the result, in ascending energy, no two equal up
  to a global flip, the first one with the lowest energy the miner found.
\<close>
theorem stash_rows_shape:
  assumes "stash_rows sel dv rows energies gates = Some st" "length rows = length energies"
  shows "length st \<le> 32 \<and> sorted (map sr_energy_milli st)
    \<and> distinct (map (\<lambda>r. canonicalize_spins (sr_spins r)) st)
    \<and> set st \<subseteq> (\<lambda>(s, e). \<lparr> sr_spins = s, sr_energy_milli = e \<rparr>) ` set (zip rows energies)
    \<and> (rows = [] \<longleftrightarrow> st = []) \<and> (rows \<noteq> [] \<longrightarrow> sr_energy_milli (hd st) = Min (set energies))"
proof -
  from stash_rows_chosen [OF assms(1)] obtain chosen where st: "st = map (spin_row_at rows energies) chosen"
    and loop: "stash_loop sel dv rows gates (sort_key (\<lambda>i. energies ! i) [0..<length rows]) {} 0 [] = Some chosen"
    and srt: "sorted (map (\<lambda>i. energies ! i) chosen)" and range: "set chosen \<subseteq> {..<length rows}"
    by blast
  have "sorted (map sr_energy_milli st)" using srt by (simp only: st map_spin_row_at)
  moreover have "length st \<le> 32" using stash_loop_bound [OF loop] by (simp add: st MAX_PROOF_SOLUTIONS_def)
  moreover have "distinct (map (\<lambda>r. canonicalize_spins (sr_spins r)) st)"
    using stash_loop_distinct [OF loop] by (simp add: st spin_row_at_def comp_def)
  moreover have "set st \<subseteq> (\<lambda>(s, e). \<lparr> sr_spins = s, sr_energy_milli = e \<rparr>) ` set (zip rows energies)"
    using range assms(2) by (fastforce simp: st spin_row_at_def set_zip image_iff)
  moreover have "rows = [] \<Longrightarrow> st = []" using range by (simp add: st)
  ultimately show ?thesis using stash_rows_head [OF assms(1) _ assms(2)] by blast
qed

subsection \<open>The gates\<close>

definition valid_indices :: "int list \<Rightarrow> QualityGates \<Rightarrow> nat list" where
  "valid_indices energies gates = filter (\<lambda>i. energies ! i < qg_min_energy_milli gates) [0..<length energies]"

text \<open>The one selection both the count and the submitted rows come from.\<close>

lemma validate_scored_unfold:
  assumes sel: "selector_ok sel" and len: "length rows = length energies" "length rows < 2 ^ 32"
  obtains v uniq idx d stash where "validate_scored sel dv rows energies gates = Some v"
    "uniq = dedup_rows rows (valid_indices energies gates) {}"
    "uniq = [] \<Longrightarrow> d = 0 \<and> idx = []"
    "uniq \<noteq> [] \<Longrightarrow> select_and_score sel dv (map (\<lambda>i. rows ! i) uniq) (qg_min_solutions gates) = Some (idx, d)"
    "distinct idx" "set idx \<subseteq> {..<length uniq}"
    "vd_n_valid v = length uniq" "vd_diversity_milli v = d"
    "vd_accepted v \<longleftrightarrow> length uniq \<ge> qg_min_solutions gates \<and> d \<ge> qg_min_diversity_milli gates"
    "vd_selected_solutions v = map (spin_row_at rows energies) (take MAX_PROOF_SOLUTIONS (map (\<lambda>i. uniq ! i) idx))"
    "vd_best_energy_milli v = (if idx = [] then i64_max else Min ((\<lambda>i. energies ! (uniq ! i)) ` set idx))"
    "stash_rows sel dv rows energies gates = Some stash" "vd_stash_solutions v = stash"
    "vd_raw_best_energy_milli v = (if energies = [] then i64_max else Min (set energies))"
proof -
  let ?uniq = "dedup_rows rows (valid_indices energies gates) {}"
  have vi: "list_all (\<lambda>i. i < length rows) (valid_indices energies gates)"
    using len(1) by (auto simp: valid_indices_def list_all_iff)
  obtain stash where st: "stash_rows sel dv rows energies gates = Some stash"
    using stash_loop_total [OF sel] len(1) by (fastforce simp: stash_rows_def)
  have "length ?uniq \<le> length rows"
  proof -
    have "length ?uniq \<le> card (set (valid_indices energies gates))"
      by (simp add: dedup_rows_length card_image_le)
    also have "\<dots> \<le> length energies"
      by (rule order_trans [OF card_length]) (auto simp: valid_indices_def intro: order_trans [OF length_filter_le])
    finally show ?thesis using len(1) by simp
  qed
  then have m: "length ?uniq mod 2 ^ 32 = length ?uniq" using len(2) by simp
  show thesis
  proof (cases "?uniq = []")
    case True
    obtain v where v: "validate_scored sel dv rows energies gates = Some v"
      "v = \<lparr> vd_best_energy_milli = i64_max, vd_diversity_milli = 0, vd_n_valid = 0,
         vd_accepted = (0 \<ge> qg_min_solutions gates \<and> 0 \<ge> qg_min_diversity_milli gates),
         vd_selected_solutions = [],
         vd_raw_best_energy_milli = (if energies = [] then i64_max else Min (set energies)),
         vd_stash_solutions = stash \<rparr>"
      using vi st True by (simp add: validate_scored_def valid_indices_def [symmetric] Let_def)
    show thesis
      by (rule that [OF v(1) refl, of 0 "[]"]) (use st True in \<open>simp_all add: v(2)\<close>)
  next
    case False
    obtain idx d where sd: "select_and_score sel dv (map (\<lambda>i. rows ! i) ?uniq) (qg_min_solutions gates) = Some (idx, d)"
      and idx: "distinct idx" "set idx \<subseteq> {..<length (map (\<lambda>i. rows ! i) ?uniq)}"
      using select_and_score_total [OF sel] by metis
    let ?at = "map (\<lambda>i. ?uniq ! i) idx"
    obtain v where v: "validate_scored sel dv rows energies gates = Some v"
      "v = \<lparr> vd_best_energy_milli = (if ?at = [] then i64_max else Min (set (map (\<lambda>i. energies ! i) ?at))),
         vd_diversity_milli = d, vd_n_valid = length ?uniq,
         vd_accepted = (length ?uniq \<ge> qg_min_solutions gates \<and> d \<ge> qg_min_diversity_milli gates),
         vd_selected_solutions = map (spin_row_at rows energies) (take MAX_PROOF_SOLUTIONS ?at),
         vd_raw_best_energy_milli = (if energies = [] then i64_max else Min (set energies)),
         vd_stash_solutions = stash \<rparr>"
      using vi st False sd m by (simp add: validate_scored_def valid_indices_def [symmetric] Let_def)
    show thesis
      by (rule that [OF v(1) refl, of d idx]) (use st False sd idx in \<open>simp_all add: v(2) image_image\<close>)
  qed
qed

lemma dedup_valid:
  assumes "uniq = dedup_rows rows (valid_indices energies gates) {}" "length rows = length energies"
  shows "length uniq = card ((\<lambda>(r, e). canonicalize_spins r)
      ` {(r, e) \<in> set (zip rows energies). e < qg_min_energy_milli gates})"
    "i \<in> set uniq \<Longrightarrow> i < length rows \<and> energies ! i < qg_min_energy_milli gates"
    "distinct (map (\<lambda>i. canonicalize_spins (rows ! i)) uniq)"
proof -
  have "(\<lambda>i. canonicalize_spins (rows ! i)) ` set (valid_indices energies gates)
      = (\<lambda>(r, e). canonicalize_spins r) ` {(r, e) \<in> set (zip rows energies). e < qg_min_energy_milli gates}"
    using assms(2) by (force simp: valid_indices_def set_zip)
  then show "length uniq = card ((\<lambda>(r, e). canonicalize_spins r)
      ` {(r, e) \<in> set (zip rows energies). e < qg_min_energy_milli gates})"
    by (simp only: assms(1) dedup_rows_length)
  show "i \<in> set uniq \<Longrightarrow> i < length rows \<and> energies ! i < qg_min_energy_milli gates"
    using dedup_rows_canon [of rows "valid_indices energies gates" "{}"] assms
    by (auto simp: valid_indices_def)
  show "distinct (map (\<lambda>i. canonicalize_spins (rows ! i)) uniq)"
    using dedup_rows_canon [of rows "valid_indices energies gates" "{}"] assms(1) by simp
qed

lemma nth_distinct_map: "distinct idx \<Longrightarrow> set idx \<subseteq> {..<length xs} \<Longrightarrow> distinct (map f xs) \<Longrightarrow>
    distinct (map (\<lambda>i. f (xs ! i)) idx)"
  by (auto simp: distinct_map inj_on_def subset_eq) (metis nth_eq_iff_index_eq distinct_map lessThan_iff inj_on_def nth_mem)

text \<open>
  C6. Validating a scored result: it never panics with a selector that returns indices of its
  slice; the count is the number of rows below the ceiling up to a global flip; the rows picked
  for submission are at most 32 rows of the result, all below the ceiling and pairwise different
  up to a flip; and the result is accepted exactly when count and diversity reach their floors.
\<close>
theorem validate_scored_spec:
  assumes "selector_ok sel" "length rows = length energies" "length rows < 2 ^ 32"
  shows "\<exists>v. validate_scored sel dv rows energies gates = Some v
    \<and> vd_n_valid v = card ((\<lambda>(r, e). canonicalize_spins r)
        ` {(r, e) \<in> set (zip rows energies). e < qg_min_energy_milli gates})
    \<and> length (vd_selected_solutions v) \<le> 32
    \<and> set (vd_selected_solutions v) \<subseteq> (\<lambda>(r, e). \<lparr> sr_spins = r, sr_energy_milli = e \<rparr>)
        ` {(r, e) \<in> set (zip rows energies). e < qg_min_energy_milli gates}
    \<and> distinct (map (\<lambda>r. canonicalize_spins (sr_spins r)) (vd_selected_solutions v))
    \<and> (vd_accepted v \<longleftrightarrow> qg_min_solutions gates \<le> vd_n_valid v
        \<and> qg_min_diversity_milli gates \<le> vd_diversity_milli v)"
proof (rule validate_scored_unfold [OF assms, of dv gates])
  fix v uniq idx d stash
  assume v: "validate_scored sel dv rows energies gates = Some v"
    and u: "uniq = dedup_rows rows (valid_indices energies gates) {}"
    and idx: "distinct idx" "set idx \<subseteq> {..<length uniq}"
    and n: "vd_n_valid v = length uniq" and d: "vd_diversity_milli v = d"
    and acc: "vd_accepted v \<longleftrightarrow> length uniq \<ge> qg_min_solutions gates \<and> d \<ge> qg_min_diversity_milli gates"
    and s: "vd_selected_solutions v = map (spin_row_at rows energies) (take MAX_PROOF_SOLUTIONS (map (\<lambda>i. uniq ! i) idx))"
  note du = dedup_valid [OF u assms(2)]
  have "set (take MAX_PROOF_SOLUTIONS (map (\<lambda>i. uniq ! i) idx)) \<subseteq> set uniq"
    using idx(2) by (auto dest!: in_set_takeD simp: subset_eq)
  then have "set (vd_selected_solutions v) \<subseteq> (\<lambda>(r, e). \<lparr> sr_spins = r, sr_energy_milli = e \<rparr>)
      ` {(r, e) \<in> set (zip rows energies). e < qg_min_energy_milli gates}"
    using du(2) assms(2) by (fastforce simp: s spin_row_at_def set_zip image_iff)
  moreover have "distinct (map (\<lambda>r. canonicalize_spins (sr_spins r)) (vd_selected_solutions v))"
    using nth_distinct_map [OF idx du(3)]
    by (simp add: s spin_row_at_def take_map [symmetric] comp_def)
  moreover have "length (vd_selected_solutions v) \<le> 32" by (simp add: s MAX_PROOF_SOLUTIONS_def)
  ultimately show ?thesis using v n d acc du(1) by auto
qed

definition ex_rows :: "int list list" where
  "ex_rows = [[1, 1, - 1], [1, - 1, 1], [- 1, - 1, 1]]"

definition ex_gates :: QualityGates where
  "ex_gates = \<lparr> qg_min_energy_milli = - 10, qg_min_diversity_milli = 300, qg_min_solutions = 2 \<rparr>"

theorem validate_scored_spec_witness:
  "\<exists>v. validate_scored first_k flat_diversity ex_rows [- 30, - 20, - 30] ex_gates = Some v
     \<and> length (vd_selected_solutions v) \<le> 32"
  using validate_scored_spec [OF first_k_ok, of ex_rows "[- 30, - 20, - 30]" flat_diversity ex_gates]
  by (auto simp: ex_rows_def)

lemma ex_stash:
  "stash_rows first_k flat_diversity ex_rows [- 30, - 20, - 30] ex_gates
     = Some [\<lparr> sr_spins = [1, 1, - 1], sr_energy_milli = - 30 \<rparr>,
             \<lparr> sr_spins = [1, - 1, 1], sr_energy_milli = - 20 \<rparr>]"
proof -
  have "sort_key (\<lambda>i. [- 30, - 20, - 30 :: int] ! i) [0..<3] = [0, 2, 1]"
    by (simp add: upt_rec sort_key_simps insort_key.simps numeral_2_eq_2)
  then show ?thesis
    by (simp add: stash_rows_def ex_rows_def ex_gates_def MAX_PROOF_SOLUTIONS_def STASH_SCAN_LIMIT_def
        Let_def canonicalize_spins_def neg_i8_def select_and_score_def first_k_def flat_diversity_def
        pick_def spin_row_at_def numeral_2_eq_2 upt_rec)
qed

theorem stash_rows_shape_witness:
  "sorted (map sr_energy_milli [\<lparr> sr_spins = [1, 1, - 1], sr_energy_milli = - 30 \<rparr>,
             \<lparr> sr_spins = [1, - 1, 1], sr_energy_milli = - 20 \<rparr>])"
  using stash_rows_shape [OF ex_stash] by (simp add: ex_rows_def)

theorem stash_clears_every_ceiling_witness:
  "\<exists>g. check_proof_gates first_k flat_diversity
      [\<lparr> sr_spins = [1, 1, - 1], sr_energy_milli = - 30 \<rparr>, \<lparr> sr_spins = [1, - 1, 1], sr_energy_milli = - 20 \<rparr>]
      (ex_gates\<lparr>qg_min_energy_milli := 0\<rparr>) = Some g \<and> 300 \<le> pg_diversity_milli g \<and> pg_accepted g"
proof -
  obtain g where g: "check_proof_gates first_k flat_diversity
      [\<lparr> sr_spins = [1, 1, - 1], sr_energy_milli = - 30 \<rparr>, \<lparr> sr_spins = [1, - 1, 1], sr_energy_milli = - 20 \<rparr>]
      (ex_gates\<lparr>qg_min_energy_milli := 0\<rparr>) = Some g" and n: "pg_n_valid g = 2"
    by (simp add: check_proof_gates_def admitted_rows_def ex_gates_def Let_def select_and_score_def
        first_k_def flat_diversity_def pick_def upt_rec)
  show ?thesis
    using stash_clears_every_ceiling [OF ex_stash g] g n by (intro exI [of _ g]) (simp add: ex_gates_def)
qed

text \<open>The chain's own check of the submitted rows.\<close>

definition selector_total :: "'e selector \<Rightarrow> bool" where
  "selector_total sel \<longleftrightarrow> (\<forall>rows k. list_all spin_row rows \<longrightarrow> (\<exists>idx. sel rows k = Inr idx))"

lemma select_and_score_target:
  assumes "selector_ok sel" "selector_total sel" "list_all spin_row rows"
    "select_and_score sel dv rows ms = Some (idx, d)"
  shows "length idx = min (length rows) (max ms 1)"
    "d = (case dv (map (\<lambda>i. rows ! i) idx) of Inr d \<Rightarrow> d | Inl _ \<Rightarrow> 0)"
proof -
  obtain i where i: "sel rows (min (length rows) (max ms 1)) = Inr i"
    using assms(2,3) by (auto simp: selector_total_def)
  then have li: "length i = min (length rows) (max ms 1)"
    using assms(1) [unfolded selector_ok_def, rule_format, OF i] by simp
  have e: "i = idx" "d = (case dv (map (\<lambda>i. rows ! i) idx) of Inr d \<Rightarrow> d | Inl _ \<Rightarrow> 0)"
    using assms(4) i by (auto simp: select_and_score_def Let_def pick_def split: if_splits)
  show "length idx = min (length rows) (max ms 1)" using li by (simp only: e(1))
  show "d = (case dv (map (\<lambda>i. rows ! i) idx) of Inr d \<Rightarrow> d | Inl _ \<Rightarrow> 0)" by (rule e(2))
qed

lemma pick_all_mset:
  assumes "distinct idx" "set idx \<subseteq> {..<length xs}" "length idx = length xs"
  shows "mset (map (\<lambda>i. xs ! i) idx) = mset xs"
proof -
  have "set idx = {..<length xs}"
    using assms by (intro card_subset_eq) (auto simp: distinct_card)
  then have "mset idx = mset [0..<length xs]"
    using assms(1) set_eq_iff_mset_eq_distinct [of idx "[0..<length xs]"] by (simp add: lessThan_atLeast0)
  then have "mset (map (\<lambda>i. xs ! i) idx) = mset (map (\<lambda>i. xs ! i) [0..<length xs])"
    by simp
  then show ?thesis by (simp only: map_nth)
qed

text \<open>
  C5. What is submitted at once is what the chain accepts: when a result of \<open>\<plusminus>1\<close> rows is accepted
  and the solution floor is between 1 and 32, replaying the chain's gates over the selected rows
  alone accepts them too, with the same diversity, for a diversity score that ignores row order.
\<close>
theorem accepted_submission_clears_gates:
  assumes "selector_ok sel" "selector_total sel" "order_free dv"
    and "length rows = length energies" "length rows < 2 ^ 32" "list_all spin_row rows"
    and "1 \<le> qg_min_solutions gates" "qg_min_solutions gates \<le> 32"
    and "validate_scored sel dv rows energies gates = Some v" "vd_accepted v"
  shows "\<exists>g. check_proof_gates sel dv (vd_selected_solutions v) gates = Some g
     \<and> pg_accepted g \<and> pg_diversity_milli g = vd_diversity_milli v"
proof (rule validate_scored_unfold [OF assms(1,4,5), of dv gates])
  fix v' uniq idx d stash
  let ?ms = "qg_min_solutions gates"
  assume v: "validate_scored sel dv rows energies gates = Some v'"
    and u: "uniq = dedup_rows rows (valid_indices energies gates) {}"
    and sd: "uniq \<noteq> [] \<Longrightarrow> select_and_score sel dv (map (\<lambda>i. rows ! i) uniq) ?ms = Some (idx, d)"
    and idx: "distinct idx" "set idx \<subseteq> {..<length uniq}"
    and d: "vd_diversity_milli v' = d"
    and acc: "vd_accepted v' \<longleftrightarrow> length uniq \<ge> ?ms \<and> d \<ge> qg_min_diversity_milli gates"
    and s: "vd_selected_solutions v' = map (spin_row_at rows energies) (take MAX_PROOF_SOLUTIONS (map (\<lambda>i. uniq ! i) idx))"
  have [simp]: "v' = v" using v assms(9) by simp
  have n: "length uniq \<ge> ?ms" "d \<ge> qg_min_diversity_milli gates" using acc assms(10) by auto
  then have ne: "uniq \<noteq> []" using assms(7) by auto
  note du = dedup_valid [OF u assms(4)]
  let ?at = "map (\<lambda>i. uniq ! i) idx"
  have at: "set ?at \<subseteq> set uniq" using idx(2) by auto
  have spins: "list_all spin_row (map (\<lambda>i. rows ! i) is)" if "set is \<subseteq> set uniq" for "is"
    using that du(2) assms(6) by (fastforce simp: list_all_iff)
  note t = select_and_score_target [OF assms(1,2) spins [OF order_refl] sd [OF ne]]
  have li: "length idx = ?ms" using t(1) n assms(7) by simp
  have sel: "vd_selected_solutions v = map (spin_row_at rows energies) ?at"
    using s li assms(8) by (simp add: MAX_PROOF_SOLUTIONS_def)
  have adm: "admitted_rows (qg_min_energy_milli gates) (vd_selected_solutions v) = vd_selected_solutions v"
    using at du(2) unfolding admitted_rows_def sel by (intro filter_True) (fastforce simp: spin_row_at_def)
  let ?rows = "map sr_spins (vd_selected_solutions v)"
  have r: "?rows = map (\<lambda>i. rows ! i) ?at" by (simp only: sel map_spin_row_at)
  obtain idx' d' where sd': "select_and_score sel dv ?rows ?ms = Some (idx', d')"
    and idx': "distinct idx'" "set idx' \<subseteq> {..<length ?rows}"
    using select_and_score_total [OF assms(1)] by metis
  have sp: "list_all spin_row ?rows" unfolding r by (rule spins [OF at])
  note t' = select_and_score_target [OF assms(1,2) sp sd']
  have "length ?rows = ?ms" using li by (simp add: sel)
  with t'(1) assms(7) have "length idx' = length ?rows" by simp
  from pick_all_mset [OF idx' this] have "mset (map (\<lambda>i. ?rows ! i) idx') = mset ?rows" .
  then have "dv (map (\<lambda>i. ?rows ! i) idx') = dv ?rows" using assms(3) by (simp add: order_free_def)
  moreover have "map (\<lambda>i. map (\<lambda>i. rows ! i) uniq ! i) idx = ?rows"
    unfolding r using idx(2) by auto
  ultimately have "d' = d" using t(2) t'(2) by simp
  with sd' adm \<open>length ?rows = ?ms\<close> assms(7,8) n(2) d show ?thesis
    by (auto simp: check_proof_gates_def Let_def)
qed

lemma first_k_total: "selector_total first_k"
  by (simp add: selector_total_def first_k_def)

theorem accepted_submission_clears_gates_witness:
  "\<exists>v g. validate_scored first_k flat_diversity ex_rows [- 30, - 20, - 30] ex_gates = Some v
     \<and> check_proof_gates first_k flat_diversity (vd_selected_solutions v) ex_gates = Some g \<and> pg_accepted g"
proof -
  have u: "filter (\<lambda>i. [- 30, - 20, - 30] ! i < (- 10 :: int)) [0..<3] = [0, 1, 2]"
    by (simp add: upt_rec numeral_2_eq_2)
  obtain v where v: "validate_scored first_k flat_diversity ex_rows [- 30, - 20, - 30] ex_gates = Some v"
    and a: "vd_accepted v"
    using ex_stash u
    by (simp add: validate_scored_def ex_rows_def ex_gates_def Let_def canonicalize_spins_def
        neg_i8_def select_and_score_def first_k_def flat_diversity_def pick_def upt_rec)
  show ?thesis
    using accepted_submission_clears_gates [OF first_k_ok first_k_total flat_diversity_order_free _ _ _ _ _ v a] v
    by (auto simp: ex_rows_def ex_gates_def spin_row_def)
qed

end
