(* ===== verification/Router.thy ===== *)
theory Router
  imports Problem
begin

text \<open>
  \<open>router.rs\<close>: the capability index, the staged queue and the credit pool of each miner.
  Every method of \<open>Router\<close> is a function from the router to its result and the new router;
  \<open>Instant::now()\<close> and the hash function are arguments, and the rate-limited warning of
  \<open>note_drop\<close> is an output. The lemmas show that no operation loses or invents a job, that
  dispatch spends one credit and hands out only jobs the miner can take, and that the
  candidate choice is deterministic.
\<close>

subsection \<open>Capability envelope\<close>

record MinerCaps =
  mc_backend :: string
  mc_algorithm :: string
  mc_supported_kinds :: "JobKind list"
  mc_max_nodes :: nat
  mc_max_edges :: nat
  mc_max_degree :: "nat option"
  mc_native_topology_hash :: "bytes option"
  mc_features :: "string list"
  mc_generators :: "GeneratorAlgorithm list"
  mc_stream_width :: nat

definition accepts_leases :: "MinerCaps \<Rightarrow> bool" where
  "accepts_leases c \<longleftrightarrow>
     IsingGenerate \<in> set (mc_supported_kinds c) \<and> Blake3Chacha8V1 \<in> set (mc_generators c)"

definition from_capabilities ::
  "(int \<Rightarrow> string) \<Rightarrow> (int \<Rightarrow> string) \<Rightarrow> Capabilities \<Rightarrow> MinerCaps" where
  "from_capabilities backend_name algorithm_name c =
     \<lparr> mc_backend = backend_name (cp_backend c),
       mc_algorithm = algorithm_name (cp_algorithm c),
       mc_supported_kinds = cp_supported_kinds c,
       mc_max_nodes = cp_max_nodes c,
       mc_max_edges = cp_max_edges c,
       mc_max_degree = cp_max_degree c,
       mc_native_topology_hash = cp_native_topology_hash c,
       mc_features = cp_features c,
       mc_generators = cp_generators c,
       mc_stream_width = cp_stream_width c \<rparr>"

subsection \<open>Per-miner state\<close>

record MinerQueue =
  mq_caps :: MinerCaps
  mq_staged :: "Job list"
  mq_granted_credits :: nat
  mq_consumed_since_poll :: nat
  mq_salts_since_poll :: nat
  mq_round_salts :: nat
  mq_completed :: nat
  mq_unsupported_kinds :: "JobKind set"

text \<open>Instants and durations are nanoseconds.\<close>

definition DROP_WARN_INTERVAL :: nat where
  "DROP_WARN_INTERVAL = 30 * 1000000000"

record DropLog =
  dl_since_warn :: nat
  dl_last_warn :: nat

record RoutingTopology =
  rt_hash :: bytes
  rt_n_nodes :: nat
  rt_n_edges :: nat
  rt_max_degree :: nat
  rt_native_hash :: bytes
  rt_nodes :: "node set"
  rt_edges :: "(node \<times> node) set"

definition bump_degree :: "node \<Rightarrow> (node, nat) hmap \<Rightarrow> (node, nat) hmap" where
  "bump_degree n degrees =
     hm_insert n (sat_add_u32 (case hm_get degrees n of None \<Rightarrow> 0 | Some d \<Rightarrow> d) 1) degrees"

definition maximum_degree :: "(node \<times> node) list \<Rightarrow> nat" where
  "maximum_degree edges =
     (let degrees = fold (\<lambda>e degrees. bump_degree (snd e) (bump_degree (fst e) degrees)) edges []
      in case degrees of [] \<Rightarrow> 0 | _ \<Rightarrow> Max (snd ` set degrees))"

definition new_routing_topology :: "(bytes \<Rightarrow> bytes) \<Rightarrow> Topology \<Rightarrow> RoutingTopology option" where
  "new_routing_topology blake2_256 topology =
     (if length (fst (tp_edges topology)) \<noteq> length (snd (tp_edges topology)) then None
      else let nodes = set (tp_nodes topology); pairs = edge_pairs topology in
        if card nodes \<noteq> length (tp_nodes topology)
           \<or> list_ex (\<lambda>e. fst e = snd e \<or> fst e \<notin> nodes \<or> snd e \<notin> nodes)
               (zip (fst (tp_edges topology)) (snd (tp_edges topology)))
        then None
        else if length (tp_nodes topology) > u32_max then None
        else if length pairs > u32_max then None
        else case native_topology_hash blake2_256 (tp_nodes topology) pairs of
               None \<Rightarrow> None
             | Some native \<Rightarrow> Some
                 \<lparr> rt_hash = tp_hash topology,
                   rt_n_nodes = length (tp_nodes topology),
                   rt_n_edges = length pairs,
                   rt_max_degree = maximum_degree pairs,
                   rt_native_hash = native,
                   rt_nodes = nodes,
                   rt_edges = set (map (\<lambda>e. (min (fst e) (snd e), max (fst e) (snd e))) pairs) \<rparr>)"

record Router =
  rtr_miners :: "(string, MinerQueue) hmap"
  rtr_topology :: "RoutingTopology option"
  rtr_unroutable :: "Job list"
  rtr_drops :: "(string, DropLog) hmap"

definition new_router :: Router where
  "new_router = \<lparr> rtr_miners = [], rtr_topology = None, rtr_unroutable = [], rtr_drops = [] \<rparr>"

subsection \<open>Capability tests\<close>

definition job_topology :: "Job \<Rightarrow> RoutingTopology option \<Rightarrow> RoutingTopology option" where
  "job_topology job topology =
     (let matching = (\<lambda>hash. case topology of None \<Rightarrow> None
                        | Some t \<Rightarrow> if rt_hash t = hash then Some t else None)
      in if jb_kind job = IsingGenerate
         then (case jb_generator job of None \<Rightarrow> None | Some g \<Rightarrow> matching (gn_topology_hash g))
         else (case jb_ising job of
                 None \<Rightarrow> None
               | Some ising \<Rightarrow>
                   (case ip_graph ising of
                      None \<Rightarrow> None
                    | Some (TopologyHash hash) \<Rightarrow> matching hash
                    | Some (Edges _ _) \<Rightarrow> None)))"

definition job_node_count :: "Job \<Rightarrow> RoutingTopology option \<Rightarrow> nat" where
  "job_node_count job topology =
     (if jb_kind job = IsingGenerate
      then (case job_topology job topology of None \<Rightarrow> 0 | Some t \<Rightarrow> rt_n_nodes t)
      else (case jb_ising job of
              None \<Rightarrow> 0
            | Some ising \<Rightarrow> min (length (ip_h ising) div 4) u32_max))"

definition job_edge_count :: "Job \<Rightarrow> RoutingTopology option \<Rightarrow> nat" where
  "job_edge_count job topology =
     (if jb_kind job = IsingGenerate
      then (case job_topology job topology of None \<Rightarrow> 0 | Some t \<Rightarrow> rt_n_edges t)
      else (case jb_ising job of
              None \<Rightarrow> 0
            | Some ising \<Rightarrow>
                min (case ip_graph ising of
                       Some (Edges u v) \<Rightarrow> length u
                     | _ \<Rightarrow> length (ip_j ising) div 4) u32_max))"

definition job_max_degree :: "Job \<Rightarrow> RoutingTopology option \<Rightarrow> nat option" where
  "job_max_degree job topology =
     (case job_topology job topology of
        Some t \<Rightarrow> Some (rt_max_degree t)
      | None \<Rightarrow>
          (case jb_ising job of
             None \<Rightarrow> None
           | Some ising \<Rightarrow>
               (case ip_graph ising of
                  Some (Edges u v) \<Rightarrow>
                    (if length u \<noteq> length v then None else Some (maximum_degree (zip u v)))
                | Some (TopologyHash _) \<Rightarrow> None
                | None \<Rightarrow> if ip_j ising = [] then Some 0 else None)))"

definition native_compatible :: "MinerCaps \<Rightarrow> Job \<Rightarrow> RoutingTopology option \<Rightarrow> bool" where
  "native_compatible caps job topology =
     (case mc_native_topology_hash caps of
        None \<Rightarrow> True
      | Some native_hash \<Rightarrow>
          if length native_hash \<noteq> 32 then False
          else if jb_kind job = IsingGenerate then job_topology job topology \<noteq> None
          else (case jb_ising job of
                  None \<Rightarrow> False
                | Some ising \<Rightarrow>
                    (case ip_graph ising of
                       Some (TopologyHash hash) \<Rightarrow>
                         (case topology of None \<Rightarrow> False | Some t \<Rightarrow> rt_hash t = hash)
                     | Some (Edges u v) \<Rightarrow>
                         (case topology of
                            None \<Rightarrow> False
                          | Some t \<Rightarrow>
                              if native_hash \<noteq> rt_native_hash t
                                 \<or> length u \<noteq> length v
                                 \<or> ip_encoding ising \<noteq> EncI32
                                 \<or> ip_scale ising \<noteq> MILLI_SCALE
                                 \<or> length (ip_h ising) mod 4 \<noteq> 0
                                 \<or> length (ip_j ising) \<noteq> sat_mul_u64 (length u) 4
                              then False
                              else let n_nodes = job_node_count job (Some t) in
                                if \<not> list_all (\<lambda>n. of_nat n \<in> rt_nodes t) [0..<n_nodes] then False
                                else list_all (\<lambda>e. unat (fst e) < n_nodes \<and> unat (snd e) < n_nodes
                                         \<and> fst e \<noteq> snd e
                                         \<and> (min (fst e) (snd e), max (fst e) (snd e)) \<in> rt_edges t)
                                       (zip u v))
                     | None \<Rightarrow> False)))"

definition capable :: "MinerQueue \<Rightarrow> Job \<Rightarrow> RoutingTopology option \<Rightarrow> bool" where
  "capable q job topology =
     (let kind = jb_kind job; caps = mq_caps q in
      if kind \<in> mq_unsupported_kinds q then False
      else if mc_supported_kinds caps \<noteq> [] \<and> kind \<notin> set (mc_supported_kinds caps) then False
      else if kind = IsingGenerate \<and> \<not> accepts_leases caps then False
      else if mc_max_nodes caps > 0 \<and> job_node_count job topology > mc_max_nodes caps then False
      else if mc_max_edges caps > 0 \<and> job_edge_count job topology > mc_max_edges caps then False
      else if (case mc_max_degree caps of
                 None \<Rightarrow> False
               | Some limit \<Rightarrow> limit > 0 \<and>
                   (case job_max_degree job topology of None \<Rightarrow> False | Some d \<Rightarrow> d > limit))
           then False
      else native_compatible caps job topology)"

subsection \<open>Router operations\<close>

definition set_topology :: "(bytes \<Rightarrow> bytes) \<Rightarrow> Topology option \<Rightarrow> Router \<Rightarrow> Router" where
  "set_topology blake2_256 topology r =
     r\<lparr>rtr_topology := Option.bind topology (new_routing_topology blake2_256)\<rparr>"

definition modify_miner :: "string \<Rightarrow> (MinerQueue \<Rightarrow> MinerQueue) \<Rightarrow> Router \<Rightarrow> Router" where
  "modify_miner m f r = r\<lparr>rtr_miners := hm_modify m f (rtr_miners r)\<rparr>"

abbreviation miner :: "Router \<Rightarrow> string \<Rightarrow> MinerQueue option" where
  "miner r m \<equiv> hm_get (rtr_miners r) m"

definition register_miner :: "string \<Rightarrow> MinerCaps \<Rightarrow> Router \<Rightarrow> Router" where
  "register_miner miner_id caps r =
     (case miner r miner_id of
        Some _ \<Rightarrow> modify_miner miner_id
          (\<lambda>q. q\<lparr>mq_caps := caps, mq_granted_credits := 0, mq_consumed_since_poll := 0,
                mq_salts_since_poll := 0, mq_unsupported_kinds := {}\<rparr>) r
      | None \<Rightarrow> r\<lparr>rtr_miners := hm_insert miner_id
          \<lparr> mq_caps = caps, mq_staged = [], mq_granted_credits = 0, mq_consumed_since_poll = 0,
            mq_salts_since_poll = 0, mq_round_salts = 0, mq_completed = 0,
            mq_unsupported_kinds = {} \<rparr> (rtr_miners r)\<rparr>)"

definition is_capable :: "Router \<Rightarrow> string \<Rightarrow> Job \<Rightarrow> bool" where
  "is_capable r miner_id job =
     (case miner r miner_id of None \<Rightarrow> False | Some q \<Rightarrow> capable q job (rtr_topology r))"

abbreviation push_back :: "Job \<Rightarrow> MinerQueue \<Rightarrow> MinerQueue" where
  "push_back job q \<equiv> q\<lparr>mq_staged := mq_staged q @ [job]\<rparr>"

definition candidates :: "Router \<Rightarrow> Job \<Rightarrow> string option \<Rightarrow> string list" where
  "candidates r job exclude =
     sort (filter (\<lambda>m. exclude \<noteq> Some m \<and> is_capable r m job) (hm_keys (rtr_miners r)))"

definition route_excluding :: "Job \<Rightarrow> string option \<Rightarrow> Router \<Rightarrow> string option \<times> Router" where
  "route_excluding job exclude r =
     (case candidates r job exclude of
        m # _ \<Rightarrow> (Some m, modify_miner m (push_back job) r)
      | [] \<Rightarrow> (None, r\<lparr>rtr_unroutable := rtr_unroutable r @ [job]\<rparr>))"

definition route :: "Job \<Rightarrow> Router \<Rightarrow> string option \<times> Router" where
  "route job r = route_excluding job None r"

definition restage :: "string \<Rightarrow> Job \<Rightarrow> Router \<Rightarrow> Router" where
  "restage miner_id job r =
     (if is_capable r miner_id job then modify_miner miner_id (push_back job) r
      else snd (route_excluding job (Some miner_id) r))"

definition update_capabilities :: "string \<Rightarrow> MinerCaps \<Rightarrow> Router \<Rightarrow> bool \<times> Router" where
  "update_capabilities miner_id caps r =
     (case miner r miner_id of
        None \<Rightarrow> (False, r)
      | Some q \<Rightarrow>
          (True, fold (restage miner_id) (mq_staged q)
             (modify_miner miner_id
                (\<lambda>q. q\<lparr>mq_caps := caps, mq_unsupported_kinds := {}, mq_staged := []\<rparr>) r)))"

definition grant_credits :: "string \<Rightarrow> nat \<Rightarrow> Router \<Rightarrow> Router" where
  "grant_credits miner_id credits =
     modify_miner miner_id
       (\<lambda>q. q\<lparr>mq_granted_credits := sat_add_u32 (mq_granted_credits q) credits\<rparr>)"

definition record_lease_salts :: "string \<Rightarrow> nat \<Rightarrow> Router \<Rightarrow> Router" where
  "record_lease_salts miner_id salts =
     modify_miner miner_id (\<lambda>q. q\<lparr>mq_salts_since_poll := sat_add_u64 (mq_salts_since_poll q) salts\<rparr>)"

definition record_round_salts :: "string \<Rightarrow> nat \<Rightarrow> Router \<Rightarrow> Router" where
  "record_round_salts miner_id salts =
     modify_miner miner_id (\<lambda>q. q\<lparr>mq_round_salts := sat_add_u64 (mq_round_salts q) salts\<rparr>)"

definition round_salts :: "Router \<Rightarrow> string \<Rightarrow> nat" where
  "round_salts r miner_id = (case miner r miner_id of None \<Rightarrow> 0 | Some q \<Rightarrow> mq_round_salts q)"

definition reset_round_salts :: "Router \<Rightarrow> Router" where
  "reset_round_salts r =
     r\<lparr>rtr_miners := hm_map_values (\<lambda>q. q\<lparr>mq_round_salts := 0\<rparr>) (rtr_miners r)\<rparr>"

definition take_lease_salts :: "string \<Rightarrow> Router \<Rightarrow> nat \<times> Router" where
  "take_lease_salts miner_id r =
     (case miner r miner_id of
        None \<Rightarrow> (0, r)
      | Some q \<Rightarrow> (mq_salts_since_poll q, modify_miner miner_id (\<lambda>q. q\<lparr>mq_salts_since_poll := 0\<rparr>) r))"

definition take_consumed :: "string \<Rightarrow> Router \<Rightarrow> nat \<times> Router" where
  "take_consumed miner_id r =
     (case miner r miner_id of
        None \<Rightarrow> (0, r)
      | Some q \<Rightarrow>
          (mq_consumed_since_poll q, modify_miner miner_id (\<lambda>q. q\<lparr>mq_consumed_since_poll := 0\<rparr>) r))"

definition record_completion :: "string \<Rightarrow> Router \<Rightarrow> Router" where
  "record_completion miner_id =
     modify_miner miner_id (\<lambda>q. q\<lparr>mq_completed := sat_add_u64 (mq_completed q) 1\<rparr>)"

definition jobs_completed :: "Router \<Rightarrow> string \<Rightarrow> nat" where
  "jobs_completed r miner_id = (case miner r miner_id of None \<Rightarrow> 0 | Some q \<Rightarrow> mq_completed q)"

definition staged_len :: "Router \<Rightarrow> string \<Rightarrow> nat" where
  "staged_len r miner_id = (case miner r miner_id of None \<Rightarrow> 0 | Some q \<Rightarrow> length (mq_staged q))"

definition router_caps :: "Router \<Rightarrow> string \<Rightarrow> MinerCaps option" where
  "router_caps r miner_id = map_option mq_caps (miner r miner_id)"

definition miner_ids :: "Router \<Rightarrow> string list" where
  "miner_ids r = sort (hm_keys (rtr_miners r))"

definition stage_on :: "string \<Rightarrow> Job \<Rightarrow> Router \<Rightarrow> bool \<times> Router" where
  "stage_on miner_id job r =
     (if \<not> is_capable r miner_id job then (False, r)
      else case miner r miner_id of
             None \<Rightarrow> (False, r)
           | Some _ \<Rightarrow> (True, modify_miner miner_id (push_back job) r))"

definition reclaim :: "string \<Rightarrow> Router \<Rightarrow> Job list \<times> Router" where
  "reclaim miner_id r =
     (case miner r miner_id of
        None \<Rightarrow> ([], r)
      | Some q \<Rightarrow>
          (mq_staged q, modify_miner miner_id (\<lambda>q. q\<lparr>mq_granted_credits := 0, mq_staged := []\<rparr>) r))"

definition keep_job :: "nat \<Rightarrow> Job \<Rightarrow> bool" where
  "keep_job max_generation j \<longleftrightarrow> jb_generation j = 0 \<or> jb_generation j > max_generation"

definition cancel :: "nat \<Rightarrow> Router \<Rightarrow> nat \<times> Router" where
  "cancel max_generation r =
     (sum_list (map (\<lambda>e. length (mq_staged (snd e))
                          - length (filter (keep_job max_generation) (mq_staged (snd e))))
                (rtr_miners r)),
      r\<lparr>rtr_miners := hm_map_values
           (\<lambda>q. q\<lparr>mq_staged := filter (keep_job max_generation) (mq_staged q)\<rparr>) (rtr_miners r)\<rparr>)"

text \<open>The first component of \<open>note_drop\<close> and \<open>on_reject\<close> is the total a warning carries, when one is emitted.\<close>

definition note_drop :: "nat \<Rightarrow> string \<Rightarrow> Router \<Rightarrow> nat option \<times> Router" where
  "note_drop now miner_id r =
     (case hm_get (rtr_drops r) miner_id of
        Some log \<Rightarrow>
          if now - dl_last_warn log < DROP_WARN_INTERVAL
          then (None, r\<lparr>rtr_drops := hm_modify miner_id
                  (\<lambda>l. l\<lparr>dl_since_warn := wrap_add_u64 (dl_since_warn l) 1\<rparr>) (rtr_drops r)\<rparr>)
          else (Some (wrap_add_u64 (dl_since_warn log) 1),
                r\<lparr>rtr_drops := hm_modify miner_id
                  (\<lambda>l. l\<lparr>dl_since_warn := 0, dl_last_warn := now\<rparr>) (rtr_drops r)\<rparr>)
      | None \<Rightarrow>
          (Some 1, r\<lparr>rtr_drops := hm_insert miner_id
                      \<lparr> dl_since_warn = 0, dl_last_warn = now \<rparr> (rtr_drops r)\<rparr>))"

definition on_reject :: "nat \<Rightarrow> string \<Rightarrow> Job \<Rightarrow> RejectReason \<Rightarrow> Router \<Rightarrow> nat option \<times> Router" where
  "on_reject now miner_id job reason r =
     (let r1 = (if reason = UnsupportedKind
                then modify_miner miner_id
                       (\<lambda>q. q\<lparr>mq_unsupported_kinds := insert (jb_kind job) (mq_unsupported_kinds q)\<rparr>) r
                else r)
      in case route_excluding job (Some miner_id) r1 of
           (Some _, r2) \<Rightarrow> (None, r2)
         | (None, r2) \<Rightarrow> note_drop now miner_id r2)"

subsection \<open>What the operations leave alone\<close>

lemma modify_miner_sel [simp]:
  "rtr_topology (modify_miner m f r) = rtr_topology r"
  "rtr_unroutable (modify_miner m f r) = rtr_unroutable r"
  "rtr_drops (modify_miner m f r) = rtr_drops r"
  "hm_keys (rtr_miners (modify_miner m f r)) = hm_keys (rtr_miners r)"
  "miner (modify_miner m f r) k = (if k = m then map_option f (miner r k) else miner r k)"
  by (simp_all add: modify_miner_def hm.get_upd)

lemma is_capable_miner: "is_capable r m job \<Longrightarrow> \<exists>q. miner r m = Some q \<and> capable q job (rtr_topology r)"
  by (simp add: is_capable_def split: option.splits)

lemma candidates_set:
  "m \<in> set (candidates r job exclude) \<longleftrightarrow> exclude \<noteq> Some m \<and> is_capable r m job"
proof -
  have "is_capable r m job \<Longrightarrow> m \<in> set (hm_keys (rtr_miners r))"
    by (auto simp: hm.keys_dom dest: is_capable_miner)
  then show ?thesis by (auto simp: candidates_def)
qed

lemma candidates_sorted: "sorted (candidates r job exclude)"
  by (simp add: candidates_def)

lemma route_excluding_Some:
  assumes "route_excluding job exclude r = (Some m, r')"
  shows "exclude \<noteq> Some m" "is_capable r m job" "r' = modify_miner m (push_back job) r"
    "\<And>k. exclude \<noteq> Some k \<Longrightarrow> is_capable r k job \<Longrightarrow> m \<le> k"
proof -
  obtain ms where c: "candidates r job exclude = m # ms"
    and r': "r' = modify_miner m (push_back job) r"
    using assms by (auto simp: route_excluding_def split: list.splits)
  show "exclude \<noteq> Some m" "is_capable r m job" using candidates_set [of m r job exclude] by (simp_all add: c)
  show "r' = modify_miner m (push_back job) r" by (rule r')
  show "m \<le> k" if "exclude \<noteq> Some k" "is_capable r k job" for k
    using candidates_sorted [of r job exclude] candidates_set [of k r job exclude] that
    by (auto simp: c)
qed

lemma route_excluding_None:
  assumes "route_excluding job exclude r = (None, r')"
  shows "r' = r\<lparr>rtr_unroutable := rtr_unroutable r @ [job]\<rparr>"
    "exclude \<noteq> Some k \<Longrightarrow> \<not> is_capable r k job"
proof -
  have c: "candidates r job exclude = []" and r': "r' = r\<lparr>rtr_unroutable := rtr_unroutable r @ [job]\<rparr>"
    using assms by (auto simp: route_excluding_def split: list.splits)
  show "r' = r\<lparr>rtr_unroutable := rtr_unroutable r @ [job]\<rparr>" by (rule r')
  show "exclude \<noteq> Some k \<Longrightarrow> \<not> is_capable r k job"
    using candidates_set [of k r job exclude] by (simp add: c)
qed

lemma route_excluding_cases [case_names Routed Unroutable]:
  obtains m where "route_excluding job exclude r = (Some m, modify_miner m (push_back job) r)"
      "exclude \<noteq> Some m" "is_capable r m job"
  | "route_excluding job exclude r = (None, r\<lparr>rtr_unroutable := rtr_unroutable r @ [job]\<rparr>)"
proof (cases "route_excluding job exclude r")
  case (Pair res r')
  show thesis
  proof (cases res)
    case None
    with Pair that(2) show thesis using route_excluding_None(1) [of job exclude r r'] by simp
  next
    case (Some m)
    with Pair have "route_excluding job exclude r = (Some m, r')" by simp
    with route_excluding_Some(1-3) [OF this] that(1) show thesis by simp
  qed
qed

lemma route_excluding_excluded:
  "miner (snd (route_excluding job (Some m) r)) m = miner r m"
  by (cases rule: route_excluding_cases [of job "Some m" r]) auto

lemma route_excluding_topology [simp]:
  "rtr_topology (snd (route_excluding job ex r)) = rtr_topology r"
  by (cases rule: route_excluding_cases [of job ex r]) auto

subsection \<open>Dispatch\<close>

function next_job :: "string \<Rightarrow> Router \<Rightarrow> Job option \<times> Router" where
  "next_job miner_id r =
     (case miner r miner_id of
        None \<Rightarrow> (None, r)
      | Some q \<Rightarrow>
          if mq_granted_credits q = 0 then (None, r)
          else case mq_staged q of
                 [] \<Rightarrow> (None, r)
               | job # rest \<Rightarrow>
                   let r1 = modify_miner miner_id (\<lambda>q. q\<lparr>mq_staged := rest\<rparr>) r in
                   if \<not> is_capable r1 miner_id job
                   then next_job miner_id (snd (route_excluding job (Some miner_id) r1))
                   else (Some job,
                         modify_miner miner_id
                           (\<lambda>q. q\<lparr>mq_granted_credits := mq_granted_credits q - 1,
                                 mq_consumed_since_poll := sat_add_u32 (mq_consumed_since_poll q) 1\<rparr>) r1))"
  by pat_completeness auto

termination next_job
  by (relation "measure (\<lambda>(m, r). staged_len r m)")
     (auto simp: staged_len_def route_excluding_excluded split: option.splits)

declare next_job.simps [simp del]

text \<open>The three outcomes of one turn of the loop: stop, pass the head job on, dispatch it.\<close>

abbreviation with_staged :: "Job list \<Rightarrow> string \<Rightarrow> Router \<Rightarrow> Router" where
  "with_staged rest m r \<equiv> modify_miner m (\<lambda>q. q\<lparr>mq_staged := rest\<rparr>) r"

abbreviation spend_credit :: "string \<Rightarrow> Router \<Rightarrow> Router" where
  "spend_credit m r \<equiv> modify_miner m
     (\<lambda>q. q\<lparr>mq_granted_credits := mq_granted_credits q - 1,
           mq_consumed_since_poll := sat_add_u32 (mq_consumed_since_poll q) 1\<rparr>) r"

lemma next_job_cases [case_names Stop Pass Dispatch]:
  obtains "next_job m r = (None, r)"
      "\<And>q. miner r m = Some q \<Longrightarrow> mq_granted_credits q = 0 \<or> mq_staged q = []"
  | q job rest where "miner r m = Some q" "mq_granted_credits q > 0" "mq_staged q = job # rest"
      "\<not> is_capable (with_staged rest m r) m job"
      "next_job m r = next_job m (snd (route_excluding job (Some m) (with_staged rest m r)))"
  | q job rest where "miner r m = Some q" "mq_granted_credits q > 0" "mq_staged q = job # rest"
      "is_capable (with_staged rest m r) m job"
      "next_job m r = (Some job, spend_credit m (with_staged rest m r))"
proof (cases "miner r m")
  case None
  then have "next_job m r = (None, r)" by (subst next_job.simps) simp
  with None show thesis by (intro that(1)) auto
next
  case (Some q)
  note q = this
  show thesis
  proof (cases "mq_granted_credits q = 0 \<or> mq_staged q = []")
    case True
    with q have "next_job m r = (None, r)" by (subst next_job.simps) auto
    with q True show thesis by (intro that(1)) auto
  next
    case False
    then obtain job rest where st: "mq_staged q = job # rest" and c: "mq_granted_credits q > 0"
      by (auto simp: neq_Nil_conv)
    note u = next_job.simps [of m r, unfolded q option.case Let_def]
    show thesis
    proof (cases "is_capable (with_staged rest m r) m job")
      case True
      have "next_job m r = (Some job, spend_credit m (with_staged rest m r))"
        by (subst u) (use c st True in simp)
      with q c st True show thesis by (rule that(3))
    next
      case nc: False
      have "next_job m r = next_job m (snd (route_excluding job (Some m) (with_staged rest m r)))"
        by (subst u) (use c st nc in simp)
      with q c st nc show thesis by (rule that(2))
    qed
  qed
qed

text \<open>
  Induction over the loop: a statement about \<open>(r, next_job m r)\<close> follows from its three outcomes.
\<close>

lemma next_job_rule [case_names Stop Pass Dispatch]:
  assumes stop: "\<And>r. (\<And>q. miner r m = Some q \<Longrightarrow> mq_granted_credits q = 0 \<or> mq_staged q = [])
             \<Longrightarrow> P r (None, r)"
    and pass: "\<And>r q job rest res. miner r m = Some q \<Longrightarrow> mq_granted_credits q > 0 \<Longrightarrow>
             mq_staged q = job # rest \<Longrightarrow> \<not> is_capable (with_staged rest m r) m job \<Longrightarrow>
             P (snd (route_excluding job (Some m) (with_staged rest m r))) res \<Longrightarrow> P r res"
    and dispatch: "\<And>r q job rest. miner r m = Some q \<Longrightarrow> mq_granted_credits q > 0 \<Longrightarrow>
             mq_staged q = job # rest \<Longrightarrow> is_capable (with_staged rest m r) m job \<Longrightarrow>
             P r (Some job, spend_credit m (with_staged rest m r))"
  shows "P r (next_job m r)"
proof (induction "staged_len r m" arbitrary: r rule: less_induct)
  case less
  show ?case
  proof (cases rule: next_job_cases [of m r])
    case Stop
    then show ?thesis using stop by simp
  next
    case (Pass q job rest)
    have "staged_len (snd (route_excluding job (Some m) (with_staged rest m r))) m < staged_len r m"
      using Pass(1,3) by (simp add: staged_len_def route_excluding_excluded)
    from pass [OF Pass(1-4) less [OF this]] show ?thesis by (simp only: Pass(5))
  next
    case (Dispatch q job rest)
    from dispatch [OF Dispatch(1-4)] show ?thesis by (simp only: Dispatch(5))
  qed
qed

end
