(* ===== verification/Ledger.thy ===== *)
theory Ledger
  imports Prelude
begin

text \<open>
  Runs of a component: a list of calls applied in order, with the list of their results. The
  locales state what a component promises per call and prove what follows for every run:
  \<open>stepper\<close> an invariant, \<open>exact_ledger\<close> a quantity that is conserved, \<open>bounded_ledger\<close> a
  quantity that never grows beyond what was put in. An exact ledger is a bounded one.
\<close>

fun run_steps :: "('op \<Rightarrow> 'r \<Rightarrow> 'out \<times> 'r) \<Rightarrow> 'op list \<Rightarrow> 'r \<Rightarrow> 'out list \<times> 'r" where
  "run_steps step [] r = ([], r)"
| "run_steps step (op # ops) r =
     (let (out, r1) = step op r; (outs, r2) = run_steps step ops r1 in (out # outs, r2))"

lemma run_steps_Cons:
  "fst (run_steps step (op # ops) r) = fst (step op r) # fst (run_steps step ops (snd (step op r)))"
  "snd (run_steps step (op # ops) r) = snd (run_steps step ops (snd (step op r)))"
  by (simp_all add: split_def Let_def)

lemma run_steps_append:
  "run_steps step (xs @ ys) r =
     (let (o1, r1) = run_steps step xs r; (o2, r2) = run_steps step ys r1 in (o1 @ o2, r2))"
  by (induction xs arbitrary: r) (auto simp: split_def Let_def)

lemma length_run_steps: "length (fst (run_steps step ops r)) = length ops"
  by (induction ops arbitrary: r) (simp_all add: run_steps_Cons del: run_steps.simps(2))

declare run_steps.simps(2) [simp del]

locale stepper =
  fixes step :: "'op \<Rightarrow> 'r \<Rightarrow> 'out \<times> 'r"
    and wf :: "'r \<Rightarrow> bool"
  assumes wf_step: "wf r \<Longrightarrow> wf (snd (step op r))"
begin

lemma run_wf: "wf r \<Longrightarrow> wf (snd (run_steps step ops r))"
  by (induction ops arbitrary: r) (simp_all add: run_steps_Cons wf_step)

end

locale bounded_ledger = stepper step wf
  for step :: "'op \<Rightarrow> 'r \<Rightarrow> 'out \<times> 'r" and wf :: "'r \<Rightarrow> bool" +
  fixes held :: "'r \<Rightarrow> 'a :: ordered_comm_monoid_add"
    and taken_in :: "'op \<Rightarrow> 'a"
    and given_out :: "'out \<Rightarrow> 'a"
  assumes bound: "wf r \<Longrightarrow>
      held (snd (step op r)) + given_out (fst (step op r)) \<le> held r + taken_in op"
begin

lemma run_bound:
  "wf r \<Longrightarrow> held (snd (run_steps step ops r)) + sum_list (map given_out (fst (run_steps step ops r)))
     \<le> held r + sum_list (map taken_in ops)"
proof (induction ops arbitrary: r)
  case (Cons op ops)
  let ?r = "snd (step op r)"
  have "held (snd (run_steps step ops ?r)) + sum_list (map given_out (fst (run_steps step ops ?r)))
      + given_out (fst (step op r)) \<le> held ?r + sum_list (map taken_in ops) + given_out (fst (step op r))"
    using Cons.IH [OF wf_step [OF Cons.prems]] by (rule add_right_mono)
  also have "\<dots> = (held ?r + given_out (fst (step op r))) + sum_list (map taken_in ops)"
    by (simp add: ac_simps)
  also have "\<dots> \<le> (held r + taken_in op) + sum_list (map taken_in ops)"
    using bound [OF Cons.prems] by (rule add_right_mono)
  finally show ?case by (simp add: run_steps_Cons ac_simps)
qed simp

end

locale exact_ledger = stepper step wf
  for step :: "'op \<Rightarrow> 'r \<Rightarrow> 'out \<times> 'r" and wf :: "'r \<Rightarrow> bool" +
  fixes held :: "'r \<Rightarrow> 'a :: comm_monoid_add"
    and taken_in :: "'op \<Rightarrow> 'a"
    and given_out :: "'out \<Rightarrow> 'a"
  assumes balance: "wf r \<Longrightarrow>
      held (snd (step op r)) + given_out (fst (step op r)) = held r + taken_in op"
begin

lemma run_balance:
  "wf r \<Longrightarrow> held (snd (run_steps step ops r)) + sum_list (map given_out (fst (run_steps step ops r)))
     = held r + sum_list (map taken_in ops)"
proof (induction ops arbitrary: r)
  case (Cons op ops)
  let ?r = "snd (step op r)"
  have "held (snd (run_steps step ops ?r)) + sum_list (map given_out (fst (run_steps step ops ?r)))
      + given_out (fst (step op r)) = held ?r + given_out (fst (step op r)) + sum_list (map taken_in ops)"
    using Cons.IH [OF wf_step [OF Cons.prems]] by (simp add: ac_simps)
  also have "\<dots> = held r + taken_in op + sum_list (map taken_in ops)"
    by (simp only: balance [OF Cons.prems])
  finally show ?case by (simp add: run_steps_Cons ac_simps)
qed simp

end

end
