(* ===== verification/Router_Laws.thy ===== *)
theory Router_Laws
  imports Router Ledger
begin

text \<open>
  What the router promises its clients: the ledger locales interpreted on it twice, for the
  jobs it holds (exactly) and for the credits of one miner (as an upper bound, because a
  reconnect and a reclaim drop credits and a grant saturates), the routing choice, dispatch,
  cancellation, rejects and the drop log.
\<close>

subsection \<open>Well-formed routers\<close>

definition queue_ok :: "MinerQueue \<Rightarrow> bool" where
  "queue_ok q \<longleftrightarrow> mq_granted_credits q \<le> u32_max \<and> mq_consumed_since_poll q \<le> u32_max
     \<and> mq_salts_since_poll q \<le> u64_max \<and> mq_round_salts q \<le> u64_max \<and> mq_completed q \<le> u64_max"

definition router_wf :: "Router \<Rightarrow> bool" where
  "router_wf r \<longleftrightarrow> hm_wf (rtr_miners r) \<and> hm_wf (rtr_drops r) \<and> (\<forall>m q. miner r m = Some q \<longrightarrow> queue_ok q)"

lemma router_wf_new: "router_wf new_router"
  by (simp add: router_wf_def new_router_def)

lemma router_wf_modify:
  "router_wf r \<Longrightarrow> (\<And>q. miner r m = Some q \<Longrightarrow> queue_ok q \<Longrightarrow> queue_ok (f q)) \<Longrightarrow>
     router_wf (modify_miner m f r)"
  unfolding router_wf_def modify_miner_def
  by (auto simp: hm.wf_upd hm.get_upd split: if_splits)

lemma queue_ok_staged [simp]: "queue_ok (q\<lparr>mq_staged := js\<rparr>) = queue_ok q"
  by (simp add: queue_ok_def)

lemma router_wf_unroutable [simp]: "router_wf (r\<lparr>rtr_unroutable := js\<rparr>) = router_wf r"
  by (simp add: router_wf_def)

lemma router_wf_drops: "router_wf r \<Longrightarrow> hm_wf d \<Longrightarrow> router_wf (r\<lparr>rtr_drops := d\<rparr>)"
  by (simp add: router_wf_def)

lemma router_wf_topology [simp]: "router_wf (r\<lparr>rtr_topology := t\<rparr>) = router_wf r"
  by (simp add: router_wf_def)

lemma router_wf_map_values:
  "router_wf r \<Longrightarrow> (\<And>q. queue_ok q \<Longrightarrow> queue_ok (f q)) \<Longrightarrow>
     router_wf (r\<lparr>rtr_miners := hm_map_values f (rtr_miners r)\<rparr>)"
  by (auto simp: router_wf_def hm_wf_map_values hm_get_map_values)

lemma router_wf_route_excluding: "router_wf r \<Longrightarrow> router_wf (snd (route_excluding job ex r))"
  by (cases rule: route_excluding_cases [of job ex r]) (auto intro: router_wf_modify)

lemma router_wf_restage: "router_wf r \<Longrightarrow> router_wf (restage m job r)"
  by (simp add: restage_def router_wf_route_excluding router_wf_modify)

lemma router_wf_fold_restage: "router_wf r \<Longrightarrow> router_wf (fold (restage m) jobs r)"
  by (induction jobs arbitrary: r) (auto intro: router_wf_restage)

lemma router_wf_next_job: "router_wf r \<longrightarrow> router_wf (snd (next_job m r))"
  by (rule next_job_rule [where P = "\<lambda>r res. router_wf r \<longrightarrow> router_wf (snd res)"])
     (auto intro!: router_wf_route_excluding router_wf_modify simp: queue_ok_def)

subsection \<open>The jobs a router holds\<close>

definition router_jobs :: "Router \<Rightarrow> Job multiset" where
  "router_jobs r = hm_total (\<lambda>q. mset (mq_staged q)) (rtr_miners r) + mset (rtr_unroutable r)"

lemma router_jobs_modify:
  assumes "router_wf r" "miner r m = Some q"
  shows "router_jobs (modify_miner m f r) + mset (mq_staged q) = router_jobs r + mset (mq_staged (f q))"
proof -
  have "hm_total (\<lambda>q. mset (mq_staged q)) (hm_modify m f (rtr_miners r)) + mset (mq_staged q)
      = hm_total (\<lambda>q. mset (mq_staged q)) (rtr_miners r) + mset (mq_staged (f q))"
    using hm_total_modify [of "rtr_miners r" m q "\<lambda>q. mset (mq_staged q)" f] assms
    by (simp add: router_wf_def)
  then show ?thesis by (simp add: router_jobs_def modify_miner_def ac_simps)
qed

lemma router_jobs_modify_absent:
  "miner r m = None \<Longrightarrow> router_jobs (modify_miner m f r) = router_jobs r"
  by (simp add: router_jobs_def modify_miner_def hm_modify_absent)

lemma router_jobs_modify_same:
  "router_wf r \<Longrightarrow> (\<And>q. mq_staged (f q) = mq_staged q) \<Longrightarrow> router_jobs (modify_miner m f r) = router_jobs r"
  by (cases "miner r m") (use router_jobs_modify [of r m _ f] router_jobs_modify_absent [of r m f] in auto)

lemma router_jobs_sel [simp]:
  "router_jobs (r\<lparr>rtr_drops := d\<rparr>) = router_jobs r"
  "router_jobs (r\<lparr>rtr_topology := t\<rparr>) = router_jobs r"
  "router_jobs (r\<lparr>rtr_unroutable := js @ [job]\<rparr>) = add_mset job (router_jobs (r\<lparr>rtr_unroutable := js\<rparr>))"
  by (simp_all add: router_jobs_def)

lemma router_jobs_unroutable_id [simp]: "r\<lparr>rtr_unroutable := rtr_unroutable r\<rparr> = r"
  by simp

lemma router_jobs_push:
  "router_wf r \<Longrightarrow> miner r m \<noteq> None \<Longrightarrow>
     router_jobs (modify_miner m (push_back job) r) = add_mset job (router_jobs r)"
  using router_jobs_modify [of r m _ "push_back job"] by auto

lemma router_jobs_route_excluding:
  "router_wf r \<Longrightarrow> router_jobs (snd (route_excluding job ex r)) = add_mset job (router_jobs r)"
  by (cases rule: route_excluding_cases [of job ex r])
     (auto simp: router_jobs_push dest: is_capable_miner)

lemma router_jobs_restage:
  "router_wf r \<Longrightarrow> router_jobs (restage m job r) = add_mset job (router_jobs r)"
  by (auto simp: restage_def router_jobs_route_excluding router_jobs_push dest: is_capable_miner)

lemma router_jobs_fold_restage:
  "router_wf r \<Longrightarrow> router_jobs (fold (restage m) jobs r) = router_jobs r + mset jobs"
  by (induction jobs arbitrary: r) (auto simp: router_jobs_restage router_wf_restage)

lemma router_jobs_with_staged:
  "router_wf r \<Longrightarrow> miner r m = Some q \<Longrightarrow> mq_staged q = job # rest \<Longrightarrow>
     add_mset job (router_jobs (with_staged rest m r)) = router_jobs r"
  using router_jobs_modify [of r m q "\<lambda>q. q\<lparr>mq_staged := rest\<rparr>"] by simp

lemma router_wf_with_staged: "router_wf r \<Longrightarrow> router_wf (with_staged rest m r)"
  by (rule router_wf_modify) auto

lemma router_jobs_next_job:
  "router_wf r \<longrightarrow>
     router_jobs (snd (next_job m r)) + mset (opt_list (fst (next_job m r))) = router_jobs r"
proof (induction rule: next_job_rule)
  case (Stop r)
  then show ?case by simp
next
  case (Pass r q job rest res)
  then show ?case
    using router_jobs_with_staged [of r m q job rest]
    by (auto simp: router_jobs_route_excluding router_wf_route_excluding router_wf_with_staged)
next
  case (Dispatch r q job rest)
  then show ?case
    using router_jobs_with_staged [of r m q job rest]
    by (auto simp: router_jobs_modify_same router_wf_with_staged)
qed

lemma note_drop_jobs [simp]: "router_jobs (snd (note_drop now m r)) = router_jobs r"
  by (auto simp: note_drop_def split: option.splits)

lemma router_wf_note_drop: "router_wf r \<Longrightarrow> router_wf (snd (note_drop now m r))"
  by (auto simp: note_drop_def hm.wf_upd hm.wf_ins router_wf_def split: option.splits)

definition mark_unsupported :: "string \<Rightarrow> Job \<Rightarrow> RejectReason \<Rightarrow> Router \<Rightarrow> Router" where
  "mark_unsupported m job reason r =
     (if reason = UnsupportedKind
      then modify_miner m
             (\<lambda>q. q\<lparr>mq_unsupported_kinds := insert (jb_kind job) (mq_unsupported_kinds q)\<rparr>) r
      else r)"

lemma mark_unsupported_wf: "router_wf r \<Longrightarrow> router_wf (mark_unsupported m job reason r)"
  by (auto simp: mark_unsupported_def queue_ok_def intro!: router_wf_modify)

lemma mark_unsupported_jobs:
  "router_wf r \<Longrightarrow> router_jobs (mark_unsupported m job reason r) = router_jobs r"
  by (simp add: mark_unsupported_def router_jobs_modify_same)

lemma on_reject_cases [case_names Rerouted Dropped]:
  obtains k where
      "on_reject now m job reason r =
         (None, modify_miner k (push_back job) (mark_unsupported m job reason r))"
      "k \<noteq> m" "is_capable (mark_unsupported m job reason r) k job"
      "route_excluding job (Some m) (mark_unsupported m job reason r) =
         (Some k, modify_miner k (push_back job) (mark_unsupported m job reason r))"
  | r2 where
      "r2 = (mark_unsupported m job reason r)
              \<lparr>rtr_unroutable := rtr_unroutable (mark_unsupported m job reason r) @ [job]\<rparr>"
      "on_reject now m job reason r = note_drop now m r2"
      "route_excluding job (Some m) (mark_unsupported m job reason r) = (None, r2)"
proof -
  have u: "on_reject now m job reason r =
      (case route_excluding job (Some m) (mark_unsupported m job reason r) of
         (Some _, r2) \<Rightarrow> (None, r2) | (None, r2) \<Rightarrow> note_drop now m r2)"
    by (simp add: on_reject_def mark_unsupported_def Let_def)
  show thesis
    by (cases rule: route_excluding_cases [of job "Some m" "mark_unsupported m job reason r"])
       (auto simp: u intro: that)
qed

lemma router_wf_on_reject: "router_wf r \<Longrightarrow> router_wf (snd (on_reject now m job reason r))"
  by (cases rule: on_reject_cases [of now m job reason r])
     (auto intro!: router_wf_modify router_wf_note_drop mark_unsupported_wf)

lemma router_jobs_on_reject:
  assumes "router_wf r"
  shows "router_jobs (snd (on_reject now m job reason r)) = add_mset job (router_jobs r)"
proof -
  have "router_jobs (snd (on_reject now m job reason r))
      = router_jobs (snd (route_excluding job (Some m) (mark_unsupported m job reason r)))"
    by (cases rule: on_reject_cases [of now m job reason r]) auto
  with assms show ?thesis
    by (simp add: router_jobs_route_excluding mark_unsupported_wf mark_unsupported_jobs)
qed

lemma router_jobs_cancel:
  "router_jobs (snd (cancel g r))
     + hm_total (\<lambda>q. mset (filter (\<lambda>j. \<not> keep_job g j) (mq_staged q))) (rtr_miners r) = router_jobs r"
proof -
  have "hm_total (\<lambda>q. mset (filter (keep_job g) (mq_staged q))) (rtr_miners r)
      + hm_total (\<lambda>q. mset (filter (\<lambda>j. \<not> keep_job g j) (mq_staged q))) (rtr_miners r)
      = hm_total (\<lambda>q. mset (mq_staged q)) (rtr_miners r)"
    by (simp add: hm_total_add [symmetric] multiset_partition [symmetric])
  then show ?thesis
    by (simp add: cancel_def router_jobs_def hm_total_map_values add.commute add.left_commute)
qed

subsection \<open>Calls and runs\<close>

text \<open>One constructor per mutating method of \<open>Router\<close>; \<open>OpReject\<close> carries the clock reading.\<close>

datatype RouterOp =
    OpSetTopology "Topology option"
  | OpRegister string MinerCaps
  | OpRoute Job
  | OpUpdateCapabilities string MinerCaps
  | OpGrant string nat
  | OpLeaseSalts string nat
  | OpRoundSalts string nat
  | OpResetRoundSalts
  | OpTakeLeaseSalts string
  | OpNextJob string
  | OpTakeConsumed string
  | OpComplete string
  | OpReject nat string Job RejectReason
  | OpCancel nat
  | OpReclaim string
  | OpStageOn string Job

text \<open>
  The jobs that leave the router at a call, tagged by where they go: dispatched to a miner,
  dropped by a cancel, returned to the caller.
\<close>

datatype JobExit = Dispatched string Job | Cancelled Job | Returned Job

primrec exit_job :: "JobExit \<Rightarrow> Job" where
  "exit_job (Dispatched m j) = j"
| "exit_job (Cancelled j) = j"
| "exit_job (Returned j) = j"

definition cancelled_jobs :: "nat \<Rightarrow> Router \<Rightarrow> Job list" where
  "cancelled_jobs g r =
     concat (map (\<lambda>e. filter (\<lambda>j. \<not> keep_job g j) (mq_staged (snd e))) (rtr_miners r))"

fun router_step :: "(bytes \<Rightarrow> bytes) \<Rightarrow> RouterOp \<Rightarrow> Router \<Rightarrow> JobExit list \<times> Router" where
  "router_step blake (OpSetTopology t) r = ([], set_topology blake t r)"
| "router_step blake (OpRegister m c) r = ([], register_miner m c r)"
| "router_step blake (OpRoute j) r = ([], snd (route j r))"
| "router_step blake (OpUpdateCapabilities m c) r = ([], snd (update_capabilities m c r))"
| "router_step blake (OpGrant m n) r = ([], grant_credits m n r)"
| "router_step blake (OpLeaseSalts m n) r = ([], record_lease_salts m n r)"
| "router_step blake (OpRoundSalts m n) r = ([], record_round_salts m n r)"
| "router_step blake OpResetRoundSalts r = ([], reset_round_salts r)"
| "router_step blake (OpTakeLeaseSalts m) r = ([], snd (take_lease_salts m r))"
| "router_step blake (OpNextJob m) r =
     (map (Dispatched m) (opt_list (fst (next_job m r))), snd (next_job m r))"
| "router_step blake (OpTakeConsumed m) r = ([], snd (take_consumed m r))"
| "router_step blake (OpComplete m) r = ([], record_completion m r)"
| "router_step blake (OpReject now m j reason) r = ([], snd (on_reject now m j reason r))"
| "router_step blake (OpCancel g) r = (map Cancelled (cancelled_jobs g r), snd (cancel g r))"
| "router_step blake (OpReclaim m) r = (map Returned (fst (reclaim m r)), snd (reclaim m r))"
| "router_step blake (OpStageOn m j) r =
     (if fst (stage_on m j r) then [] else [Returned j], snd (stage_on m j r))"

fun jobs_in :: "RouterOp \<Rightarrow> Job multiset" where
  "jobs_in (OpRoute j) = {#j#}"
| "jobs_in (OpReject now m j reason) = {#j#}"
| "jobs_in (OpStageOn m j) = {#j#}"
| "jobs_in _ = {#}"

definition jobs_out :: "JobExit list \<Rightarrow> Job multiset" where
  "jobs_out xs = mset (map exit_job xs)"

fun credits_in :: "string \<Rightarrow> RouterOp \<Rightarrow> nat" where
  "credits_in m (OpGrant k n) = (if k = m then n else 0)"
| "credits_in m _ = 0"

definition credits_out :: "string \<Rightarrow> JobExit list \<Rightarrow> nat" where
  "credits_out m xs = length (filter (\<lambda>x. \<exists>j. x = Dispatched m j) xs)"

definition credits_of :: "string \<Rightarrow> Router \<Rightarrow> nat" where
  "credits_of m r = (case miner r m of None \<Rightarrow> 0 | Some q \<Rightarrow> mq_granted_credits q)"

lemma cancelled_jobs_mset:
  "mset (cancelled_jobs g r) = hm_total (\<lambda>q. mset (filter (\<lambda>j. \<not> keep_job g j) (mq_staged q))) (rtr_miners r)"
  by (simp add: cancelled_jobs_def hm_total_def mset_concat comp_def)

lemma router_wf_step: "router_wf r \<Longrightarrow> router_wf (snd (router_step blake op r))"
proof (cases op)
  case (OpRegister m c)
  then show "router_wf r \<Longrightarrow> ?thesis"
    by (auto simp: register_miner_def queue_ok_def router_wf_def hm.get_ins hm.wf_ins hm.wf_upd
        hm.get_upd modify_miner_def split: option.splits if_splits)
next
  case (OpUpdateCapabilities m c)
  then show "router_wf r \<Longrightarrow> ?thesis"
    by (auto simp: update_capabilities_def queue_ok_def intro!: router_wf_fold_restage router_wf_modify
        split: option.splits)
qed (auto simp: set_topology_def route_def router_wf_route_excluding grant_credits_def
    record_lease_salts_def record_round_salts_def reset_round_salts_def take_lease_salts_def
    router_wf_next_job router_wf_on_reject take_consumed_def record_completion_def cancel_def reclaim_def stage_on_def
    queue_ok_def intro!: router_wf_modify router_wf_map_values split: option.splits)

lemmas router_op_defs = set_topology_def route_def grant_credits_def record_lease_salts_def
  record_round_salts_def reset_round_salts_def take_lease_salts_def take_consumed_def
  record_completion_def cancel_def reclaim_def stage_on_def

lemma router_jobs_register: "router_wf r \<Longrightarrow> router_jobs (register_miner m c r) = router_jobs r"
  by (auto simp: register_miner_def router_jobs_modify_same split: option.splits)
     (simp add: router_jobs_def hm_total_insert_new)

lemma router_jobs_update_capabilities:
  assumes "router_wf r"
  shows "router_jobs (snd (update_capabilities m c r)) = router_jobs r"
proof (cases "miner r m")
  case None
  then show ?thesis by (simp add: update_capabilities_def)
next
  case (Some q)
  let ?f = "\<lambda>q. q\<lparr>mq_caps := c, mq_unsupported_kinds := {}, mq_staged := []\<rparr>"
  have "router_wf (modify_miner m ?f r)"
    using assms by (intro router_wf_modify) (auto simp: queue_ok_def)
  with Some show ?thesis
    using router_jobs_modify [OF assms Some, of ?f]
    by (simp add: update_capabilities_def router_jobs_fold_restage)
qed

lemma router_jobs_reclaim:
  assumes "router_wf r"
  shows "router_jobs (snd (reclaim m r)) + mset (fst (reclaim m r)) = router_jobs r"
proof (cases "miner r m")
  case (Some q)
  then show ?thesis
    using router_jobs_modify [OF assms Some, of "\<lambda>q. q\<lparr>mq_granted_credits := 0, mq_staged := []\<rparr>"]
    by (simp add: reclaim_def)
qed (simp add: reclaim_def)

lemma router_jobs_stage_on:
  "router_wf r \<Longrightarrow> router_jobs (snd (stage_on m job r)) + (if fst (stage_on m job r) then {#} else {#job#})
     = add_mset job (router_jobs r)"
  by (auto simp: stage_on_def router_jobs_push split: option.splits dest: is_capable_miner)

lemma router_jobs_step:
  assumes "router_wf r"
  shows "router_jobs (snd (router_step blake op r)) + jobs_out (fst (router_step blake op r))
     = router_jobs r + jobs_in op"
proof (cases op)
  case (OpNextJob m)
  then show ?thesis
    using router_jobs_next_job [of r m] assms
    by (simp add: jobs_out_def comp_def)
next
  case (OpCancel g)
  then show ?thesis
    using router_jobs_cancel [of g r] by (simp add: jobs_out_def comp_def cancelled_jobs_mset)
next
  case (OpReclaim m)
  then show ?thesis
    using router_jobs_reclaim [OF assms, of m] by (simp add: jobs_out_def comp_def)
next
  case (OpStageOn m j)
  then show ?thesis
    using router_jobs_stage_on [OF assms, of m j] by (auto simp: jobs_out_def)
next
  case OpResetRoundSalts
  then show ?thesis
    by (simp add: jobs_out_def reset_round_salts_def router_jobs_def hm_total_map_values)
qed (use assms in \<open>auto simp: jobs_out_def router_jobs_register router_jobs_update_capabilities
    router_jobs_on_reject router_jobs_route_excluding router_op_defs router_jobs_modify_same
    split: option.splits\<close>)

subsection \<open>Credits\<close>

lemma credits_of_modify:
  "(\<And>q. mq_granted_credits (f q) = mq_granted_credits q) \<Longrightarrow>
     credits_of k (modify_miner m f r) = credits_of k r"
  by (simp add: credits_of_def split: option.splits)

lemma credits_of_sel [simp]:
  "credits_of k (r\<lparr>rtr_unroutable := js\<rparr>) = credits_of k r"
  "credits_of k (r\<lparr>rtr_drops := d\<rparr>) = credits_of k r"
  "credits_of k (r\<lparr>rtr_topology := t\<rparr>) = credits_of k r"
  by (simp_all add: credits_of_def)

lemma credits_of_map_values:
  "(\<And>q. mq_granted_credits (f q) = mq_granted_credits q) \<Longrightarrow>
     credits_of k (r\<lparr>rtr_miners := hm_map_values f (rtr_miners r)\<rparr>) = credits_of k r"
  by (simp add: credits_of_def hm_get_map_values split: option.splits)

lemma credits_of_route_excluding [simp]:
  "credits_of k (snd (route_excluding job ex r)) = credits_of k r"
  by (cases rule: route_excluding_cases [of job ex r]) (simp_all add: credits_of_modify)

lemma credits_of_restage [simp]: "credits_of k (restage m job r) = credits_of k r"
  by (simp add: restage_def credits_of_modify)

lemma credits_of_fold_restage [simp]: "credits_of k (fold (restage m) jobs r) = credits_of k r"
  by (induction jobs arbitrary: r) auto

lemma credits_of_next_job:
  "credits_of k (snd (next_job m r))
     + (if k = m \<and> fst (next_job m r) \<noteq> None then 1 else 0) = credits_of k r"
  by (rule next_job_rule [where P = "\<lambda>r res. credits_of k (snd res)
        + (if k = m \<and> fst res \<noteq> None then 1 else 0) = credits_of k r"])
     (auto simp: credits_of_modify, auto simp: credits_of_def split: option.splits)

lemma credits_of_on_reject [simp]: "credits_of k (snd (on_reject now m job reason r)) = credits_of k r"
  by (cases rule: on_reject_cases [of now m job reason r])
     (auto simp: mark_unsupported_def credits_of_modify note_drop_def split: option.splits)

lemma credits_out_other [simp]:
  "credits_out k (map Cancelled js) = 0" "credits_out k (map Returned js) = 0" "credits_out k [] = 0"
  "credits_out k [Returned j] = 0"
  by (simp_all add: credits_out_def filter_map comp_def)

lemma credits_step:
  "credits_of k (snd (router_step blake op r)) + credits_out k (fst (router_step blake op r))
     \<le> credits_of k r + credits_in k op"
proof (cases op)
  case (OpNextJob m)
  then show ?thesis
    using credits_of_next_job [of k m r]
    by (cases "fst (next_job m r)") (auto simp: credits_out_def split: if_splits)
next
  case (OpRegister m c)
  then show ?thesis
    by (auto simp: register_miner_def credits_of_def hm.get_ins split: option.splits)
next
  case (OpGrant m n)
  then show ?thesis
    by (auto simp: grant_credits_def credits_of_def sat_add_u32_def split: option.splits)
next
  case (OpReclaim m)
  then show ?thesis
    by (auto simp: reclaim_def credits_of_def split: option.splits)
next
  case (OpUpdateCapabilities m c)
  then show ?thesis
    by (auto simp: update_capabilities_def credits_of_modify split: option.splits)
qed (auto simp: router_op_defs credits_of_modify credits_of_map_values split: option.splits)

subsection \<open>The router as a ledger\<close>

interpretation router_stepper: stepper "router_step blake" router_wf for blake
  by unfold_locales (rule router_wf_step)

interpretation job_ledger: exact_ledger "router_step blake" router_wf router_jobs jobs_in jobs_out for blake
  by unfold_locales (rule router_jobs_step)

interpretation credit_ledger:
  bounded_ledger "router_step blake" router_wf "credits_of m" "credits_in m" "credits_out m" for blake m
  by unfold_locales (rule credits_step)

text \<open>
  C1. The router neither loses nor invents a job. Over any sequence of calls on a fresh router,
  the jobs handed to it (routed, rejected back, staged) are exactly the jobs it still holds,
  staged or unroutable, together with those that left it: dispatched to a miner, dropped by a
  cancel, or returned to the caller.
\<close>
theorem router_conserves_jobs:
  "router_jobs (snd (run_steps (router_step blake2_256) ops new_router))
     + sum_list (map jobs_out (fst (run_steps (router_step blake2_256) ops new_router)))
   = sum_list (map jobs_in ops)"
  using job_ledger.run_balance [OF router_wf_new, of blake2_256 ops]
  by (simp add: router_jobs_def new_router_def hm_total_def)

text \<open>
  C3. A miner is never sent more jobs than it asked for: over any sequence of calls on a fresh
  router, the dispatches to a miner plus its unspent credits are at most the credits granted to it.
\<close>
theorem dispatch_within_credits:
  "credits_of m (snd (run_steps (router_step blake2_256) ops new_router))
     + sum_list (map (credits_out m) (fst (run_steps (router_step blake2_256) ops new_router)))
   \<le> sum_list (map (credits_in m) ops)"
  using credit_ledger.run_bound [OF router_wf_new, of m blake2_256 ops]
  by (simp add: credits_of_def new_router_def)

subsection \<open>Routing\<close>

lemma finite_capable: "finite {k. is_capable r k job}"
proof (rule finite_subset)
  show "{k. is_capable r k job} \<subseteq> set (hm_keys (rtr_miners r))"
    by (auto simp: hm.keys_dom dest: is_capable_miner)
qed simp

lemma route_excluding_Min:
  "route_excluding job ex r =
     (let able = {k. is_capable r k job \<and> ex \<noteq> Some k}
      in if able = {} then (None, r\<lparr>rtr_unroutable := rtr_unroutable r @ [job]\<rparr>)
         else (Some (Min able), modify_miner (Min able) (push_back job) r))"
proof (cases "route_excluding job ex r")
  case (Pair res r')
  let ?able = "{k. is_capable r k job \<and> ex \<noteq> Some k}"
  have fin: "finite ?able" by (rule finite_subset [OF _ finite_capable [of r job]]) auto
  show ?thesis
  proof (cases res)
    case None
    with Pair have "route_excluding job ex r = (None, r')" by simp
    from route_excluding_None [OF this] this show ?thesis by (auto simp: Let_def)
  next
    case (Some m)
    with Pair have eq: "route_excluding job ex r = (Some m, r')" by simp
    note f = route_excluding_Some [OF eq]
    have "Min ?able = m"
      using fin f by (intro Min_eqI) auto
    with f eq show ?thesis by (auto simp: Let_def)
  qed
qed

text \<open>
  Routing is deterministic and complete: a job goes to the back of the queue of the least
  miner id that is capable of it, and it becomes unroutable exactly when no registered miner is.
  The result does not depend on the iteration order of the miner table.
\<close>
theorem route_least_capable:
  "route job r =
     (let able = {k. is_capable r k job}
      in if able = {} then (None, r\<lparr>rtr_unroutable := rtr_unroutable r @ [job]\<rparr>)
         else (Some (Min able), modify_miner (Min able) (push_back job) r))"
  by (simp add: route_def route_excluding_Min)

subsection \<open>Dispatch order\<close>

lemma capable_cong:
  "mq_caps q = mq_caps q' \<Longrightarrow> mq_unsupported_kinds q = mq_unsupported_kinds q' \<Longrightarrow>
     capable q job t = capable q' job t"
  by (simp add: capable_def)

lemma is_capable_modify:
  "(\<And>q. mq_caps (f q) = mq_caps q) \<Longrightarrow> (\<And>q. mq_unsupported_kinds (f q) = mq_unsupported_kinds q) \<Longrightarrow>
     is_capable (modify_miner m f r) k job = is_capable r k job"
  by (auto simp: is_capable_def split: option.splits intro: capable_cong capable_cong [THEN iffD1])

lemma is_capable_route_excluding [simp]:
  "is_capable (snd (route_excluding job' ex r)) k job = is_capable r k job"
  by (cases rule: route_excluding_cases [of job' ex r])
     (simp_all add: is_capable_modify, simp_all add: is_capable_def cong: option.case_cong)

lemma next_job_find:
  "\<forall>q. miner r m = Some q \<and> mq_granted_credits q > 0 \<longrightarrow>
     fst (next_job m r) = find (is_capable r m) (mq_staged q)
     \<and> map_option mq_staged (miner (snd (next_job m r)) m)
         = Some (drop 1 (dropWhile (\<lambda>j. \<not> is_capable r m j) (mq_staged q)))"
proof (induction rule: next_job_rule)
  case (Stop r)
  then show ?case by auto
next
  case (Pass r q job rest res)
  have "\<not> is_capable r m job" using Pass(4) by (simp add: is_capable_modify)
  with Pass show ?case by (auto simp: route_excluding_excluded is_capable_modify)
next
  case (Dispatch r q job rest)
  have "is_capable r m job" using Dispatch(4) by (simp add: is_capable_modify)
  with Dispatch show ?case by auto
qed

text \<open>A small fleet the witnesses run on.\<close>

definition ex_caps :: MinerCaps where
  "ex_caps = \<lparr> mc_backend = ''cpu'', mc_algorithm = ''sa'', mc_supported_kinds = [IsingSample],
     mc_max_nodes = 0, mc_max_edges = 0, mc_max_degree = None, mc_native_topology_hash = None,
     mc_features = [], mc_generators = [], mc_stream_width = 1 \<rparr>"

definition ex_lease_caps :: MinerCaps where
  "ex_lease_caps = ex_caps\<lparr>mc_supported_kinds := [IsingSample, IsingGenerate],
     mc_generators := [Blake3Chacha8V1]\<rparr>"

definition ex_job :: "JobKind \<Rightarrow> nat \<Rightarrow> Job" where
  "ex_job kind gen = \<lparr> jb_job_id = [1], jb_kind = kind, jb_generation = gen, jb_deadline_ms = 0,
     jb_ising = None, jb_provenance = None, jb_generator = None \<rparr>"

definition ex_queue :: "MinerCaps \<Rightarrow> Job list \<Rightarrow> nat \<Rightarrow> MinerQueue" where
  "ex_queue caps jobs credits = \<lparr> mq_caps = caps, mq_staged = jobs, mq_granted_credits = credits,
      mq_consumed_since_poll = 0, mq_salts_since_poll = 0, mq_round_salts = 0, mq_completed = 0,
      mq_unsupported_kinds = {} \<rparr>"

text \<open>Miner \<open>a\<close> re-registered without the lease generator while a lease was staged on it.\<close>

definition ex_router :: Router where
  "ex_router = \<lparr> rtr_miners =
      [(''b'', ex_queue ex_lease_caps [] 0),
       (''a'', ex_queue ex_caps [ex_job IsingGenerate 7, ex_job IsingSample 0] 1)],
      rtr_topology = None, rtr_unroutable = [], rtr_drops = [] \<rparr>"

lemmas ex_defs = ex_router_def ex_queue_def ex_caps_def ex_lease_caps_def ex_job_def

lemma ex_router_miner:
  "miner ex_router ''a'' = Some (ex_queue ex_caps [ex_job IsingGenerate 7, ex_job IsingSample 0] 1)"
  "miner ex_router ''b'' = Some (ex_queue ex_lease_caps [] 0)"
  "rtr_topology ex_router = None"
  by (simp_all add: ex_router_def hm_get_def)

lemma ex_router_capable:
  "is_capable ex_router ''a'' (ex_job IsingSample 0)"
  "\<not> is_capable ex_router ''a'' (ex_job IsingGenerate 7)"
  "is_capable ex_router ''b'' (ex_job IsingGenerate 7)"
  "is_capable ex_router ''b'' (ex_job IsingSample 0)"
  by (simp_all add: is_capable_def ex_router_miner capable_def native_compatible_def accepts_leases_def
      ex_queue_def ex_caps_def ex_lease_caps_def ex_job_def)

text \<open>
  Dispatch is first in, first out among the jobs the miner can still take: with a credit to
  spend, \<open>next_job\<close> hands out the first staged job the miner is capable of (none when there is
  none), passes every job before it on to another miner, and leaves exactly the jobs behind it
  staged.
\<close>
theorem next_job_first_capable:
  assumes "miner r m = Some q" "mq_granted_credits q > 0"
  shows "fst (next_job m r) = find (is_capable r m) (mq_staged q)
     \<and> map_option mq_staged (miner (snd (next_job m r)) m)
         = Some (drop 1 (dropWhile (\<lambda>j. \<not> is_capable r m j) (mq_staged q)))"
  using next_job_find assms by blast

theorem next_job_first_capable_witness:
  "fst (next_job ''a'' ex_router) = Some (ex_job IsingSample 0)"
  using next_job_first_capable [OF ex_router_miner(1)] ex_router_capable
  by (simp add: ex_queue_def)

lemma capable_unfold:
  "capable q job topology \<longleftrightarrow>
     jb_kind job \<notin> mq_unsupported_kinds q
     \<and> (mc_supported_kinds (mq_caps q) = [] \<or> jb_kind job \<in> set (mc_supported_kinds (mq_caps q)))
     \<and> (jb_kind job \<noteq> IsingGenerate \<or> accepts_leases (mq_caps q))
     \<and> (mc_max_nodes (mq_caps q) = 0 \<or> job_node_count job topology \<le> mc_max_nodes (mq_caps q))
     \<and> (mc_max_edges (mq_caps q) = 0 \<or> job_edge_count job topology \<le> mc_max_edges (mq_caps q))
     \<and> (\<forall>limit d. mc_max_degree (mq_caps q) = Some limit \<and> job_max_degree job topology = Some d
          \<longrightarrow> limit = 0 \<or> d \<le> limit)
     \<and> native_compatible (mq_caps q) job topology"
  by (auto simp: capable_def Let_def not_less split: option.splits)

lemma next_job_is_capable:
  assumes "fst (next_job m r) = Some job"
  shows "is_capable r m job"
proof -
  obtain q where q: "miner r m = Some q" "mq_granted_credits q > 0"
    using assms by (cases rule: next_job_cases [of m r]) auto
  with next_job_find [of r m] have "fst (next_job m r) = find (is_capable r m) (mq_staged q)" by blast
  with assms have "find (is_capable r m) (mq_staged q) = Some job" by simp
  then show ?thesis by (auto simp: find_Some_iff)
qed

text \<open>
  A lease is only ever dispatched to a miner whose current advertisement lists the lease kind
  and the generator this coordinator issues; a job of any kind only to a miner that has not
  refused its kind, and within the miner's node, edge and degree limits. The test is made against
  the envelope at dispatch time, whatever the envelope was when the job was staged.
\<close>
theorem dispatch_respects_envelope:
  assumes "fst (next_job m r) = Some job"
  shows "\<exists>q. miner r m = Some q
     \<and> jb_kind job \<notin> mq_unsupported_kinds q
     \<and> (jb_kind job = IsingGenerate \<longrightarrow>
          IsingGenerate \<in> set (mc_supported_kinds (mq_caps q)) \<and> Blake3Chacha8V1 \<in> set (mc_generators (mq_caps q)))
     \<and> (mc_max_nodes (mq_caps q) = 0 \<or> job_node_count job (rtr_topology r) \<le> mc_max_nodes (mq_caps q))
     \<and> (mc_max_edges (mq_caps q) = 0 \<or> job_edge_count job (rtr_topology r) \<le> mc_max_edges (mq_caps q))
     \<and> (\<forall>limit d. mc_max_degree (mq_caps q) = Some limit \<and> job_max_degree job (rtr_topology r) = Some d
          \<longrightarrow> limit = 0 \<or> d \<le> limit)"
  using is_capable_miner [OF next_job_is_capable [OF assms]]
  by (auto simp: capable_unfold accepts_leases_def)

theorem dispatch_respects_envelope_witness:
  "\<exists>q. miner ex_router ''a'' = Some q \<and> jb_kind (ex_job IsingSample 0) \<notin> mq_unsupported_kinds q"
proof -
  have "fst (next_job ''a'' ex_router) = Some (ex_job IsingSample 0)"
    using next_job_find [of ex_router "''a''"] ex_router_capable
    by (simp add: ex_router_miner ex_queue_def)
  from dispatch_respects_envelope [OF this] show ?thesis by blast
qed

subsection \<open>Rejects, cancellation, reconnection\<close>

lemma note_drop_miners [simp]:
  "rtr_miners (snd (note_drop now m r)) = rtr_miners r"
  "rtr_unroutable (snd (note_drop now m r)) = rtr_unroutable r"
  by (auto simp: note_drop_def split: option.splits)

lemma mark_unsupported_staged:
  "map_option mq_staged (miner (mark_unsupported m job reason r) k) = map_option mq_staged (miner r k)"
  "rtr_unroutable (mark_unsupported m job reason r) = rtr_unroutable r"
  by (auto simp: mark_unsupported_def option.map_comp comp_def)

lemma is_capable_mark_other:
  "k \<noteq> m \<Longrightarrow> is_capable (mark_unsupported m job reason r) k job' = is_capable r k job'"
  by (simp add: mark_unsupported_def is_capable_def cong: option.case_cong)

lemma route_excluding_mark:
  "route_excluding job (Some m) (mark_unsupported m job reason r) =
     (let others = {k. is_capable r k job \<and> k \<noteq> m}; r1 = mark_unsupported m job reason r
      in if others = {} then (None, r1\<lparr>rtr_unroutable := rtr_unroutable r1 @ [job]\<rparr>)
         else (Some (Min others), modify_miner (Min others) (push_back job) r1))"
proof -
  have "{k. is_capable (mark_unsupported m job reason r) k job \<and> Some m \<noteq> Some k}
      = {k. is_capable r k job \<and> k \<noteq> m}"
    using is_capable_mark_other [of _ m job reason r job] by auto
  then show ?thesis by (simp only: route_excluding_Min Let_def)
qed

text \<open>
  A rejected job is never put back on the miner that rejected it: that miner's queue is
  unchanged, and the job goes to the back of the queue of the least other capable miner, or to
  the unroutable list when there is none.
\<close>
theorem reject_never_restages:
  "map_option mq_staged (miner (snd (on_reject now m job reason r)) m) = map_option mq_staged (miner r m)
   \<and> (let others = {k. is_capable r k job \<and> k \<noteq> m}; r' = snd (on_reject now m job reason r)
      in if others = {} then rtr_unroutable r' = rtr_unroutable r @ [job]
         else rtr_unroutable r' = rtr_unroutable r
              \<and> map_option mq_staged (miner r' (Min others))
                  = map_option (\<lambda>q. mq_staged q @ [job]) (miner r (Min others)))"
proof -
  let ?others = "{k. is_capable r k job \<and> k \<noteq> m}" and ?r1 = "mark_unsupported m job reason r"
  have st: "map_option mq_staged (miner ?r1 k) = map_option mq_staged (miner r k)" for k
    by (rule mark_unsupported_staged)
  show ?thesis
  proof (cases rule: on_reject_cases [of now m job reason r])
    case (Rerouted k)
    have k: "?others \<noteq> {}" "Min ?others = k"
      using Rerouted(4) unfolding route_excluding_mark by (auto simp: Let_def split: if_splits)
    have r': "snd (on_reject now m job reason r) = modify_miner k (push_back job) ?r1"
      by (simp add: Rerouted(1))
    have "map_option mq_staged (miner (modify_miner k (push_back job) ?r1) k)
        = map_option (\<lambda>js. js @ [job]) (map_option mq_staged (miner ?r1 k))"
      by (simp add: option.map_comp comp_def)
    also have "\<dots> = map_option (\<lambda>q. mq_staged q @ [job]) (miner r k)"
      by (simp only: st) (simp add: option.map_comp comp_def)
    finally show ?thesis
      unfolding Let_def r' k(2) if_not_P [OF k(1)]
      using Rerouted(2) st [of m] mark_unsupported_staged(2) [of m job reason r] by simp
  next
    case (Dropped r2)
    have none: "?others = {}"
      using Dropped(3) unfolding route_excluding_mark by (auto simp: Let_def split: if_splits)
    show ?thesis
      unfolding Let_def if_P [OF none] Dropped(2)
      using Dropped(1) st [of m] mark_unsupported_staged(2) [of m job reason r] by simp
  qed
qed

lemma hm_total_filter_size:
  "hm_total (\<lambda>v. length (filter P (F v))) m = size (filter_mset P (hm_total (\<lambda>v. mset (F v)) m))"
  by (induction m) (simp_all add: hm_total_def mset_filter [symmetric] del: mset_filter)

text \<open>
  A cancel drops exactly the staged proof-of-work jobs of generations \<open>1 .. max\<close>: every other
  staged job stays, in order, mempool jobs (generation 0) and newer generations included, nothing
  else changes, and the returned count is the number of jobs dropped.
\<close>
theorem cancel_exact:
  "map_option mq_staged (miner (snd (cancel g r)) m)
     = map_option (\<lambda>q. filter (\<lambda>j. \<not> (0 < jb_generation j \<and> jb_generation j \<le> g)) (mq_staged q)) (miner r m)
   \<and> rtr_unroutable (snd (cancel g r)) = rtr_unroutable r
   \<and> fst (cancel g r) = size (filter_mset (\<lambda>j. 0 < jb_generation j \<and> jb_generation j \<le> g)
        (hm_total (\<lambda>q. mset (mq_staged q)) (rtr_miners r)))"
proof -
  have keep: "keep_job g = (\<lambda>j. \<not> (0 < jb_generation j \<and> jb_generation j \<le> g))"
    by (auto simp: keep_job_def)
  have "length js - length (filter (\<lambda>j. \<not> P j) js) = length (filter P js)" for js :: "Job list" and P
    using sum_length_filter_compl [of P js] by arith
  then have "fst (cancel g r) = hm_total (\<lambda>q. length (filter
      (\<lambda>j. 0 < jb_generation j \<and> jb_generation j \<le> g) (mq_staged q))) (rtr_miners r)"
    by (simp only: cancel_def keep fst_conv hm_total_def)
  then show ?thesis
    by (simp add: hm_total_filter_size cancel_def keep hm_get_map_values option.map_comp comp_def)
qed

subsection \<open>Degrees and native graphs\<close>

definition endpoints :: "(node \<times> node) list \<Rightarrow> node list" where
  "endpoints es = concat (map (\<lambda>e. [fst e, snd e]) es)"

lemma bump_degree_get:
  "hm_get (fold bump_degree ns d) n =
     (if count_list ns n = 0 then hm_get d n
      else Some (min ((case hm_get d n of None \<Rightarrow> 0 | Some k \<Rightarrow> k) + count_list ns n) u32_max))"
  if "\<forall>k. hm_get d n = Some k \<longrightarrow> k \<le> u32_max"
  using that
proof (induction ns arbitrary: d)
  case (Cons a ns)
  have "\<forall>k. hm_get (bump_degree a d) n = Some k \<longrightarrow> k \<le> u32_max"
    using Cons.prems by (auto simp: bump_degree_def hm.get_ins)
  from Cons.IH [OF this] show ?case
    by (auto simp: bump_degree_def hm.get_ins sat_add_u32_def split: option.splits)
qed simp

lemma bump_degree_wf: "hm_wf d \<Longrightarrow> hm_wf (fold bump_degree ns d)"
  by (induction ns arbitrary: d) (auto simp: bump_degree_def hm.wf_ins)

lemma degrees_fold:
  "fold (\<lambda>e d. bump_degree (snd e) (bump_degree (fst e) d)) es d = fold bump_degree (endpoints es) d"
  by (induction es arbitrary: d) (auto simp: endpoints_def)

lemma hm_values: "hm_wf d \<Longrightarrow> snd ` set d = {v. \<exists>k. hm_get d k = Some v}"
  unfolding hm_wf_def hm_get_def by (force simp: map_of_eq_Some_iff)

text \<open>
  The maximum degree used for capability checks is the largest number of times a node occurs
  as an endpoint, saturated at \<open>u32::MAX\<close>, and 0 without edges; parallel edges count each time.
\<close>
theorem maximum_degree_spec:
  "maximum_degree es =
     Max (insert 0 ((\<lambda>n. min (count_list (endpoints es) n) u32_max) ` set (endpoints es)))"
proof -
  let ?d = "fold bump_degree (endpoints es) []"
  have get: "hm_get ?d n = (if n \<in> set (endpoints es)
      then Some (min (count_list (endpoints es) n) u32_max) else None)" for n
    using bump_degree_get [of "[]" n "endpoints es"] by (simp add: count_list_0_iff)
  have vals: "snd ` set ?d = (\<lambda>n. min (count_list (endpoints es) n) u32_max) ` set (endpoints es)"
    using hm_values [OF bump_degree_wf [OF hm_wf_empty, of "endpoints es"]]
    by (auto simp: get)
  show ?thesis
  proof (cases "?d = []")
    case True
    then have "set (endpoints es) = {}" using vals by auto
    with True show ?thesis by (simp add: maximum_degree_def degrees_fold)
  next
    case False
    have "maximum_degree es = Max (snd ` set ?d)"
      using False by (simp add: maximum_degree_def degrees_fold Let_def split: list.splits)
    also have "\<dots> = Max (insert 0 (snd ` set ?d))"
      using False by simp
    finally show ?thesis by (simp only: vals)
  qed
qed

lemma new_routing_topology_sets:
  assumes "new_routing_topology blake t = Some rt"
  shows "rt_nodes rt = set (tp_nodes t)" "rt_edges rt = canon_edge ` set (edge_pairs t)"
    "distinct (tp_nodes t)" "\<forall>e \<in> set (edge_pairs t). fst e \<noteq> snd e \<and> fst e \<in> set (tp_nodes t) \<and> snd e \<in> set (tp_nodes t)"
    "native_topology_hash blake (tp_nodes t) (edge_pairs t) = Some (rt_native_hash rt)"
proof -
  have ce: "(\<lambda>e. (min (fst e) (snd e), max (fst e) (snd e))) = canon_edge"
    by (simp add: fun_eq_iff canon_edge_def)
  show "rt_nodes rt = set (tp_nodes t)" "rt_edges rt = canon_edge ` set (edge_pairs t)"
    "distinct (tp_nodes t)" "\<forall>e \<in> set (edge_pairs t). fst e \<noteq> snd e \<and> fst e \<in> set (tp_nodes t) \<and> snd e \<in> set (tp_nodes t)"
    "native_topology_hash blake (tp_nodes t) (edge_pairs t) = Some (rt_native_hash rt)"
    using assms
    by (auto simp: new_routing_topology_def Let_def ce edge_pairs_def card_distinct list_ex_iff
        split: if_splits option.splits)
qed

text \<open>
  An inline problem is only given to a hardware-graph miner as a subgraph of its hardware
  graph: when a miner that advertises a native fingerprint is capable of a job with inline edges,
  the fingerprint is that of the session topology, every site of the job is a node of that
  topology, and every inline edge joins two different sites and is an edge of that topology.
\<close>
theorem native_inline_subgraph:
  assumes "new_routing_topology blake2_256 topo = Some rt"
    and "capable q job (Some rt)"
    and "mc_native_topology_hash (mq_caps q) = Some native"
    and "jb_kind job \<noteq> IsingGenerate" "jb_ising job = Some ising" "ip_graph ising = Some (Edges u v)"
  shows "native_topology_hash blake2_256 (tp_nodes topo) (edge_pairs topo) = Some native
     \<and> (\<forall>i < job_node_count job (Some rt). of_nat i \<in> set (tp_nodes topo))
     \<and> length u = length v
     \<and> (\<forall>(a, b) \<in> set (zip u v). a \<noteq> b \<and> unat a < job_node_count job (Some rt)
          \<and> unat b < job_node_count job (Some rt)
          \<and> (\<exists>e \<in> set (edge_pairs topo). e = (a, b) \<or> e = (b, a)))"
proof -
  note t = new_routing_topology_sets [OF assms(1)]
  have "native_compatible (mq_caps q) job (Some rt)" using assms(2) by (simp add: capable_unfold)
  then have c: "native = rt_native_hash rt" "length u = length v"
    "\<forall>n \<in> {0..<job_node_count job (Some rt)}. of_nat n \<in> rt_nodes rt"
    "\<forall>e \<in> set (zip u v). unat (fst e) < job_node_count job (Some rt)
        \<and> unat (snd e) < job_node_count job (Some rt) \<and> fst e \<noteq> snd e
        \<and> canon_edge e \<in> rt_edges rt"
    using assms(3-6)
    by (auto simp: native_compatible_def Let_def list_all_iff canon_edge_def split: if_splits)
  have "\<exists>e \<in> set (edge_pairs topo). e = (a, b) \<or> e = (b, a)" if "canon_edge (a, b) \<in> rt_edges rt" for a b
    using that unfolding t(2) by (force simp: canon_edge_def min_def max_def split: if_splits)
  with c t show ?thesis by (auto simp: Ball_def)
qed

definition ex_native_topo :: Topology where
  "ex_native_topo = \<lparr> tp_hash = [9], tp_nodes = [0, 1], tp_edges = ([1], [0]),
     tp_allowed_h = [0], tp_allowed_j = [- 1000, 1000] \<rparr>"

definition ex_native_rt :: RoutingTopology where
  "ex_native_rt = the (new_routing_topology (\<lambda>_. replicate 32 0) ex_native_topo)"

definition ex_native_queue :: MinerQueue where
  "ex_native_queue = ex_queue (ex_caps\<lparr>mc_native_topology_hash := Some (replicate 32 0)\<rparr>) [] 0"

definition ex_ising :: IsingProblem where
  "ex_ising = \<lparr> ip_graph = Some (Edges [0] [1]), ip_encoding = EncI32, ip_scale = MILLI_SCALE,
     ip_h = replicate 8 0, ip_j = replicate 4 0, ip_num_reads = 0 \<rparr>"

lemma ex_native_rt_eval:
  "new_routing_topology (\<lambda>_. replicate 32 0) ex_native_topo = Some ex_native_rt"
  "rt_native_hash ex_native_rt = replicate 32 0" "rt_nodes ex_native_rt = {0, 1}"
  "rt_edges ex_native_rt = {(0, 1)}"
  by (simp_all add: ex_native_rt_def new_routing_topology_def ex_native_topo_def native_topology_hash_def
      native_bytes_def edge_pairs_def Let_def)

lemma ex_native_capable:
  "capable ex_native_queue ((ex_job IsingSample 0)\<lparr>jb_ising := Some ex_ising\<rparr>) (Some ex_native_rt)"
  by (simp add: capable_def ex_native_queue_def ex_queue_def ex_caps_def ex_job_def Let_def
      native_compatible_def ex_native_rt_eval ex_ising_def job_node_count_def sat_mul_u64_def
      upt_rec numeral_2_eq_2)

theorem native_inline_subgraph_witness:
  "native_topology_hash (\<lambda>_. replicate 32 0) [0, 1] [(1, 0)] = Some (replicate 32 0)"
  using native_inline_subgraph [OF ex_native_rt_eval(1) ex_native_capable]
  by (simp add: ex_native_queue_def ex_queue_def ex_job_def ex_ising_def ex_native_topo_def edge_pairs_def)

subsection \<open>The drop log\<close>

definition pending_drops :: "string \<Rightarrow> Router \<Rightarrow> nat" where
  "pending_drops m r = (case hm_get (rtr_drops r) m of None \<Rightarrow> 0 | Some l \<Rightarrow> dl_since_warn l)"

definition drop_run :: "string \<Rightarrow> nat list \<Rightarrow> Router \<Rightarrow> nat option list \<times> Router" where
  "drop_run m ts r = run_steps (\<lambda>now. note_drop now m) ts r"

definition warn_times :: "nat list \<Rightarrow> nat option list \<Rightarrow> nat list" where
  "warn_times ts outs = map fst (filter (\<lambda>e. snd e \<noteq> None) (zip ts outs))"

lemma note_drop_balance:
  "pending_drops m r + 1 < 2 ^ 64 \<Longrightarrow>
     pending_drops m (snd (note_drop now m r)) + sum_list (opt_list (fst (note_drop now m r)))
       = pending_drops m r + 1"
  by (auto simp: note_drop_def pending_drops_def wrap_add_u64_def hm.get_upd hm.get_ins
      split: option.splits)

lemma drop_run_balance:
  "pending_drops m r + length ts < 2 ^ 64 \<Longrightarrow>
     pending_drops m (snd (drop_run m ts r)) + sum_list (concat (map opt_list (fst (drop_run m ts r))))
       = pending_drops m r + length ts"
proof (induction ts arbitrary: r)
  case Nil
  then show ?case by (simp add: drop_run_def)
next
  case (Cons t ts)
  have b: "pending_drops m (snd (note_drop t m r)) + sum_list (opt_list (fst (note_drop t m r)))
      = pending_drops m r + 1"
    using Cons.prems by (intro note_drop_balance) simp
  then have "pending_drops m (snd (note_drop t m r)) + length ts < 2 ^ 64"
    using Cons.prems by simp
  from Cons.IH [OF this] b show ?case by (simp add: drop_run_def run_steps_Cons)
qed

lemma drop_run_spaced:
  "sorted_wrt (\<lambda>a b. a + DROP_WARN_INTERVAL \<le> b) (warn_times ts (fst (drop_run m ts r)))
   \<and> (\<forall>l. hm_get (rtr_drops r) m = Some l \<longrightarrow>
        (\<forall>t \<in> set (warn_times ts (fst (drop_run m ts r))). dl_last_warn l + DROP_WARN_INTERVAL \<le> t))"
proof (induction ts arbitrary: r)
  case Nil
  then show ?case by (simp add: warn_times_def)
next
  case (Cons t ts)
  have step: "warn_times (t # ts) (fst (drop_run m (t # ts) r)) =
      (if fst (note_drop t m r) = None then [] else [t])
        @ warn_times ts (fst (drop_run m ts (snd (note_drop t m r))))"
    by (simp add: drop_run_def run_steps_Cons warn_times_def)
  have pos: "0 < DROP_WARN_INTERVAL" by (simp add: DROP_WARN_INTERVAL_def)
  show ?case
    unfolding step using Cons.IH [of "snd (note_drop t m r)"] pos
    by (fastforce simp: note_drop_def hm.get_upd hm.get_ins split: option.splits if_splits)
qed

text \<open>
  The drop warnings of a miner account for every dropped job: with fewer than \<open>2 ^ 64\<close> drops,
  the totals in the emitted warnings plus the drops counted since the last one equal the number of
  drops, and any two warnings are at least 30 seconds apart.
\<close>
theorem drop_log_accounts:
  assumes "hm_get (rtr_drops r) m = None" "length ts < 2 ^ 64"
  shows "pending_drops m (snd (drop_run m ts r)) + sum_list (concat (map opt_list (fst (drop_run m ts r))))
       = length ts
     \<and> sorted_wrt (\<lambda>a b. a + 30000000000 \<le> b) (warn_times ts (fst (drop_run m ts r)))"
  using drop_run_balance [of m r ts] drop_run_spaced [of ts m r] assms
  by (simp add: pending_drops_def DROP_WARN_INTERVAL_def)

theorem drop_log_accounts_witness:
  "pending_drops ''a'' (snd (drop_run ''a'' [0, 5, 30000000000] new_router))
     + sum_list (concat (map opt_list (fst (drop_run ''a'' [0, 5, 30000000000] new_router)))) = 3"
  using drop_log_accounts [of new_router "''a''" "[0, 5, 30000000000]"]
  by (simp add: new_router_def)

end
