(* ===== verification/Float64.thy ===== *)
theory Float64
  imports Prelude Complex_Main
begin

text \<open>
  The \<open>f64\<close> arithmetic the decay and attempt code uses. A finite value is its exact rational;
  every operation computes exactly and then rounds to the nearest double, ties to even, with
  subnormals and overflow to infinity. Signed zeros are not distinguished: the sources never
  divide by a computed zero. \<open>f_round\<close> is \<open>f64::round\<close> (half away from zero) and \<open>f_to_i64\<close> the
  saturating \<open>as i64\<close> cast.
\<close>

datatype f64 = Fin rat | PInf | NInf | NaN

definition half_even :: "rat \<Rightarrow> int" where
  "half_even x =
     (let f = \<lfloor>x\<rfloor>; d = x - of_int f in
      if d < 1 / 2 then f else if d > 1 / 2 then f + 1 else if even f then f else f + 1)"

definition pow2 :: "int \<Rightarrow> rat" where
  "pow2 e = (if e \<ge> 0 then 2 ^ nat e else 1 / 2 ^ nat (- e))"

function bit_length :: "int \<Rightarrow> int" where
  "bit_length n = (if n \<le> 0 then 0 else 1 + bit_length (n div 2))"
  by pat_completeness auto
termination bit_length by (relation "measure nat") auto

text \<open>The exponent of the last of 53 significant bits of a positive rational.\<close>

definition ulp_exp :: "rat \<Rightarrow> int" where
  "ulp_exp x =
     (let (a, b) = quotient_of x;
          e = bit_length a - bit_length b - 53;
          e' = (if x < pow2 (e + 52) then e - 1 else if x \<ge> pow2 (e + 53) then e + 1 else e)
      in max e' (- 1074))"

definition f_rnd :: "rat \<Rightarrow> f64" where
  "f_rnd x =
     (if x = 0 then Fin 0
      else let a = \<bar>x\<bar>; e = ulp_exp a; m = of_int (half_even (a / pow2 e)) * pow2 e in
        if m \<ge> pow2 1024 then (if x > 0 then PInf else NInf)
        else Fin (if x > 0 then m else - m))"

definition f_of_int :: "int \<Rightarrow> f64" where
  "f_of_int n = f_rnd (of_int n)"

definition f_neg :: "f64 \<Rightarrow> f64" where
  "f_neg a = (case a of Fin x \<Rightarrow> Fin (- x) | PInf \<Rightarrow> NInf | NInf \<Rightarrow> PInf | NaN \<Rightarrow> NaN)"

fun f_add :: "f64 \<Rightarrow> f64 \<Rightarrow> f64" where
  "f_add (Fin x) (Fin y) = f_rnd (x + y)"
| "f_add NaN _ = NaN"
| "f_add _ NaN = NaN"
| "f_add PInf NInf = NaN"
| "f_add NInf PInf = NaN"
| "f_add PInf _ = PInf"
| "f_add NInf _ = NInf"
| "f_add (Fin _) PInf = PInf"
| "f_add (Fin _) NInf = NInf"

definition f_sub :: "f64 \<Rightarrow> f64 \<Rightarrow> f64" where
  "f_sub a b = f_add a (f_neg b)"

definition f_sign :: "f64 \<Rightarrow> rat" where
  "f_sign a = (case a of Fin x \<Rightarrow> sgn x | PInf \<Rightarrow> 1 | NInf \<Rightarrow> - 1 | NaN \<Rightarrow> 0)"

definition f_inf :: "rat \<Rightarrow> f64" where
  "f_inf s = (if s > 0 then PInf else if s < 0 then NInf else NaN)"

fun f_mul :: "f64 \<Rightarrow> f64 \<Rightarrow> f64" where
  "f_mul (Fin x) (Fin y) = f_rnd (x * y)"
| "f_mul NaN _ = NaN"
| "f_mul _ NaN = NaN"
| "f_mul a b = f_inf (f_sign a * f_sign b)"

fun f_div :: "f64 \<Rightarrow> f64 \<Rightarrow> f64" where
  "f_div (Fin x) (Fin y) = (if y = 0 then f_inf (sgn x) else f_rnd (x / y))"
| "f_div NaN _ = NaN"
| "f_div _ NaN = NaN"
| "f_div (Fin _) _ = Fin 0"
| "f_div a (Fin y) = f_inf (f_sign a * (if y = 0 then 1 else sgn y))"
| "f_div _ _ = NaN"

fun f_less :: "f64 \<Rightarrow> f64 \<Rightarrow> bool" where
  "f_less (Fin x) (Fin y) = (x < y)"
| "f_less NaN _ = False"
| "f_less _ NaN = False"
| "f_less NInf b = (b \<noteq> NInf)"
| "f_less (Fin _) b = (b = PInf)"
| "f_less PInf _ = False"

definition f_le :: "f64 \<Rightarrow> f64 \<Rightarrow> bool" where
  "f_le a b \<longleftrightarrow> f_less a b \<or> (a = b \<and> a \<noteq> NaN)"

text \<open>\<open>f64::min\<close> and \<open>f64::max\<close> return the other argument when one is NaN.\<close>

definition f_min :: "f64 \<Rightarrow> f64 \<Rightarrow> f64" where
  "f_min a b = (if a = NaN then b else if b = NaN then a else if f_less b a then b else a)"

definition f_max :: "f64 \<Rightarrow> f64 \<Rightarrow> f64" where
  "f_max a b = (if a = NaN then b else if b = NaN then a else if f_less a b then b else a)"

definition half_away :: "rat \<Rightarrow> int" where
  "half_away x = (if x \<ge> 0 then \<lfloor>x + 1 / 2\<rfloor> else - \<lfloor>- x + 1 / 2\<rfloor>)"

definition f_round :: "f64 \<Rightarrow> f64" where
  "f_round a = (case a of Fin x \<Rightarrow> Fin (of_int (half_away x)) | _ \<Rightarrow> a)"

definition f_ceil :: "f64 \<Rightarrow> f64" where
  "f_ceil a = (case a of Fin x \<Rightarrow> Fin (of_int \<lceil>x\<rceil>) | _ \<Rightarrow> a)"

definition f_is_finite :: "f64 \<Rightarrow> bool" where
  "f_is_finite a = (case a of Fin _ \<Rightarrow> True | _ \<Rightarrow> False)"

definition trunc_rat :: "rat \<Rightarrow> int" where
  "trunc_rat x = (if x \<ge> 0 then \<lfloor>x\<rfloor> else - \<lfloor>- x\<rfloor>)"

definition f_to_i64 :: "f64 \<Rightarrow> int" where
  "f_to_i64 a = (case a of Fin x \<Rightarrow> clamp_i64 (trunc_rat x) | PInf \<Rightarrow> i64_max | NInf \<Rightarrow> i64_min | NaN \<Rightarrow> 0)"

definition f_to_u64 :: "f64 \<Rightarrow> nat" where
  "f_to_u64 a = (case a of Fin x \<Rightarrow> min (nat (trunc_rat x)) u64_max | PInf \<Rightarrow> u64_max | _ \<Rightarrow> 0)"

text \<open>
  The correctly rounded square root: the integer root of the value scaled by an even power of two
  to more than 54 bits, with a half added when it is not exact so that rounding sees the tail.
\<close>

function isqrt :: "int \<Rightarrow> int" where
  "isqrt n =
     (if n \<le> 0 then 0
      else let r = 2 * isqrt (n div 4) in if (r + 1) * (r + 1) \<le> n then r + 1 else r)"
  by pat_completeness auto
termination isqrt by (relation "measure nat") auto

definition sqrt_scaled :: "rat \<Rightarrow> rat" where
  "sqrt_scaled x =
     (let (a, b) = quotient_of x;
          k = 60 + nat (bit_length b);
          n = \<lfloor>x * 4 ^ k\<rfloor>;
          r = isqrt n
      in if r * r = n \<and> of_int n = x * 4 ^ k then of_int r / 2 ^ k
         else (of_int r + 1 / 2) / 2 ^ k)"

definition f_sqrt :: "f64 \<Rightarrow> f64" where
  "f_sqrt a = (case a of Fin x \<Rightarrow> if x < 0 then NaN else f_rnd (sqrt_scaled x)
                | PInf \<Rightarrow> PInf | _ \<Rightarrow> NaN)"

declare isqrt.simps [simp del] bit_length.simps [simp del]

lemma isqrt_spec: "0 \<le> n \<Longrightarrow> 0 \<le> isqrt n \<and> isqrt n * isqrt n \<le> n \<and> n < (isqrt n + 1) * (isqrt n + 1)"
proof (induction n rule: isqrt.induct)
  case (1 n)
  show ?case
  proof (cases "n = 0")
    case True
    then show ?thesis by (simp add: isqrt.simps)
  next
    case False
    define s where "s = isqrt (n div 4)"
    have ih: "0 \<le> s" "s * s \<le> n div 4" "n div 4 < (s + 1) * (s + 1)" using 1 False by (auto simp: s_def)
    have "4 * (s * s) \<le> n" using ih(2) by linarith
    then have lo: "(2 * s) * (2 * s) \<le> n" by (simp add: algebra_simps)
    have "n < 4 * ((s + 1) * (s + 1))" using ih(3) by linarith
    then have hi: "n < (2 * s + 2) * (2 * s + 2)" by (simp add: algebra_simps)
    have "isqrt n = (if (2 * s + 1) * (2 * s + 1) \<le> n then 2 * s + 1 else 2 * s)"
      using False "1.prems" by (subst isqrt.simps) (simp add: s_def Let_def)
    then show ?thesis using lo hi ih(1) by (auto simp: algebra_simps)
  qed
qed

lemma f_to_i64_bounds [simp]: "is_i64 (f_to_i64 a)"
  by (auto simp: f_to_i64_def is_i64_def clamp_i64_def split: f64.splits)

end
