(* ===== verification/Extrinsic.thy ===== *)
theory Extrinsic
  imports Problem "HOL-Library.Monad_Syntax"
begin

text \<open>
  \<open>chain/extrinsic.rs\<close>, \<open>chain/orders.rs\<close> and \<open>chain/pool.rs\<close>: hexadecimal text, storage keys,
  the signed envelope the coordinator writes and the decoder that reads it back from the
  transaction pool. The hashes, the SCALE codec of compact integers, signatures and proofs and
  the signature scheme are external; they are the fields of \<open>Codec\<close>. \<open>codec_ok\<close> states what SCALE
  promises: a decoder reads back what the encoder wrote and leaves the rest of the input alone.
\<close>

subsection \<open>Hexadecimal\<close>

definition hex_digit :: "nat \<Rightarrow> char" where
  "hex_digit n = ''0123456789abcdef'' ! n"

definition hex_byte :: "u8 \<Rightarrow> string" where
  "hex_byte b = [hex_digit (unat b div 16), hex_digit (unat b mod 16)]"

definition hex_plain :: "bytes \<Rightarrow> string" where
  "hex_plain bs = concat (map hex_byte bs)"

definition hex_encode :: "bytes \<Rightarrow> string" where
  "hex_encode bs = ''0x'' @ hex_plain bs"

datatype HexError = OddLength nat | InvalidDigit

definition decode_nibble :: "char \<Rightarrow> HexError + nat" where
  "decode_nibble c =
     (let b = of_char c :: nat in
      if 48 \<le> b \<and> b \<le> 57 then Inr (b - 48)
      else if 97 \<le> b \<and> b \<le> 102 then Inr (b - 97 + 10)
      else if 65 \<le> b \<and> b \<le> 70 then Inr (b - 65 + 10)
      else Inl InvalidDigit)"

fun decode_pairs :: "string \<Rightarrow> HexError + bytes" where
  "decode_pairs (high # low # rest) =
     (case decode_nibble high of
        Inl e \<Rightarrow> Inl e
      | Inr h \<Rightarrow>
          (case decode_nibble low of
             Inl e \<Rightarrow> Inl e
           | Inr l \<Rightarrow>
               (case decode_pairs rest of
                  Inl e \<Rightarrow> Inl e
                | Inr bs \<Rightarrow> Inr (of_nat (h * 16 + l) # bs))))"
| "decode_pairs _ = Inr []"

definition strip_0x :: "string \<Rightarrow> string" where
  "strip_0x s = (if take 2 s = ''0x'' then drop 2 s else s)"

definition hex_decode :: "string \<Rightarrow> HexError + bytes" where
  "hex_decode s =
     (let s = strip_0x s in
      if length s mod 2 \<noteq> 0 then Inl (OddLength (length s)) else decode_pairs s)"

lemma decode_hex_digit: "n < 16 \<Longrightarrow> decode_nibble (hex_digit n) = Inr n"
  by (auto simp: decode_nibble_def hex_digit_def less_Suc_eq numeral_eq_Suc)

lemma decode_pairs_hex_plain: "decode_pairs (hex_plain bs) = Inr bs"
proof (induction bs)
  case (Cons b bs)
  have b: "unat b < 256" using unsigned_less [of b, where 'a = nat] by simp
  then have "unat b div 16 < 16" by simp
  with Cons show ?case
    by (simp add: hex_plain_def hex_byte_def decode_hex_digit)
qed (simp add: hex_plain_def)

lemma length_hex_plain: "length (hex_plain bs) = 2 * length bs"
  by (induction bs) (auto simp: hex_plain_def hex_byte_def)

lemma hex_digit_no_x: "n < 16 \<Longrightarrow> hex_digit n \<noteq> CHR ''x''"
proof -
  assume "n < 16"
  then have "hex_digit n \<in> set ''0123456789abcdef''" unfolding hex_digit_def by (intro nth_mem) simp
  then show ?thesis by auto
qed

lemma hex_plain_not_prefixed: "take 2 (hex_plain bs) \<noteq> ''0x''"
proof (cases bs)
  case (Cons b bs')
  have "unat b mod 16 < 16" by simp
  then have "hex_digit (unat b mod 16) \<noteq> CHR ''x''"
    by (rule hex_digit_no_x)
  with Cons show ?thesis by (simp add: hex_plain_def hex_byte_def)
qed (simp add: hex_plain_def)

lemma decode_nibble_error: "decode_nibble c = Inl e \<Longrightarrow> e = InvalidDigit"
  by (auto simp: decode_nibble_def Let_def split: if_splits)

lemma decode_pairs_error: "decode_pairs t = Inl e \<Longrightarrow> e = InvalidDigit"
  by (induction t arbitrary: e rule: decode_pairs.induct)
     (fastforce split: sum.splits dest: decode_nibble_error)+

text \<open>
  Hexadecimal text reads back as the bytes it was written from, with or without the \<open>0x\<close>
  prefix; text of odd length is refused.
\<close>
theorem hex_roundtrip:
  "hex_decode (hex_encode bs) = Inr bs \<and> hex_decode (hex_plain bs) = Inr bs
   \<and> (case hex_decode s of Inl (OddLength n) \<Rightarrow> odd n | _ \<Rightarrow> even (length (strip_0x s)))"
proof -
  have "hex_decode (hex_encode bs) = Inr bs \<and> hex_decode (hex_plain bs) = Inr bs"
    using hex_plain_not_prefixed [of bs]
    by (simp add: hex_decode_def hex_encode_def strip_0x_def length_hex_plain decode_pairs_hex_plain)
  then show ?thesis
    by (auto simp: hex_decode_def Let_def odd_iff_mod_2_eq_one even_iff_mod_2_eq_zero
        split: sum.splits HexError.splits dest: decode_pairs_error)
qed

subsection \<open>Storage keys\<close>

definition ascii :: "string \<Rightarrow> bytes" where
  "ascii s = map (\<lambda>c. of_nat (of_char c)) s"

text \<open>
  \<open>twox128\<close> is two \<open>XxHash64\<close> digests, seeds 0 and 1, each little-endian; the 64-bit hash itself
  is external, and so is \<open>blake2_128\<close>.
\<close>

definition twox128 :: "(nat \<Rightarrow> bytes \<Rightarrow> nat) \<Rightarrow> bytes \<Rightarrow> bytes" where
  "twox128 xxhash64 data = le_bytes 8 (xxhash64 0 data) @ le_bytes 8 (xxhash64 1 data)"

definition item_prefix :: "(nat \<Rightarrow> bytes \<Rightarrow> nat) \<Rightarrow> string \<Rightarrow> string \<Rightarrow> bytes" where
  "item_prefix xxhash64 pallet item = twox128 xxhash64 (ascii pallet) @ twox128 xxhash64 (ascii item)"

definition job_orders_storage_key ::
  "(nat \<Rightarrow> bytes \<Rightarrow> nat) \<Rightarrow> (bytes \<Rightarrow> bytes) \<Rightarrow> nat \<Rightarrow> bytes" where
  "job_orders_storage_key xxhash64 blake2_128 order_id =
     (let encoded_id = le_bytes 8 order_id in
      twox128 xxhash64 (ascii ''QuantumComputeMempool'') @ twox128 xxhash64 (ascii ''JobOrders'')
      @ blake2_128 encoded_id @ encoded_id)"

definition solvers_storage_key ::
  "(nat \<Rightarrow> bytes \<Rightarrow> nat) \<Rightarrow> (bytes \<Rightarrow> bytes) \<Rightarrow> bytes \<Rightarrow> bytes" where
  "solvers_storage_key xxhash64 blake2_128 account =
     item_prefix xxhash64 ''QuantumComputeMempool'' ''Solvers'' @ blake2_128 account @ account"

definition order_solutions_storage_key ::
  "(nat \<Rightarrow> bytes \<Rightarrow> nat) \<Rightarrow> (bytes \<Rightarrow> bytes) \<Rightarrow> nat \<Rightarrow> bytes \<Rightarrow> bytes" where
  "order_solutions_storage_key xxhash64 blake2_128 order_id account =
     (let encoded_id = le_bytes 8 order_id in
      item_prefix xxhash64 ''QuantumComputeMempool'' ''OrderSolutions''
      @ blake2_128 encoded_id @ encoded_id @ blake2_128 account @ account)"

definition quantum_pow_map_key ::
  "(nat \<Rightarrow> bytes \<Rightarrow> nat) \<Rightarrow> (bytes \<Rightarrow> bytes) \<Rightarrow> string \<Rightarrow> bytes \<Rightarrow> bytes" where
  "quantum_pow_map_key xxhash64 blake2_128 item map_key =
     item_prefix xxhash64 ''QuantumPow'' item @ blake2_128 map_key @ map_key"

definition participants_by_qblock_storage_key ::
  "(nat \<Rightarrow> bytes \<Rightarrow> nat) \<Rightarrow> (bytes \<Rightarrow> bytes) \<Rightarrow> nat \<Rightarrow> bytes \<Rightarrow> bytes" where
  "participants_by_qblock_storage_key xxhash64 blake2_128 qblock_id account =
     (let encoded_id = le_bytes 8 qblock_id in
      item_prefix xxhash64 ''MinerRegistry'' ''ParticipantsByQBlock''
      @ blake2_128 encoded_id @ encoded_id @ blake2_128 account @ account)"

definition job_orders_prefix :: "(nat \<Rightarrow> bytes \<Rightarrow> nat) \<Rightarrow> bytes" where
  "job_orders_prefix xxhash64 =
     twox128 xxhash64 (ascii ''QuantumComputeMempool'') @ twox128 xxhash64 (ascii ''JobOrders'')"

definition order_id_from_key :: "(nat \<Rightarrow> bytes \<Rightarrow> nat) \<Rightarrow> bytes \<Rightarrow> nat option" where
  "order_id_from_key xxhash64 key =
     (let want = 32 + 16 + 8 in
      if length key \<noteq> want
         \<or> take (length (job_orders_prefix xxhash64)) key \<noteq> job_orders_prefix xxhash64
      then None
      else Some (le_value (drop (want - 8) key)))"

lemma length_twox128 [simp]: "length (twox128 h d) = 16"
  by (simp add: twox128_def)

text \<open>
  An order id is recovered from its own storage key: for every \<open>u64\<close> id and any hash functions
  of the right width, reading the id out of the key of that id returns it, and the keys of
  different ids differ.
\<close>
theorem order_id_key_roundtrip:
  assumes "\<And>d. length (blake2_128 d) = 16" "order_id \<le> u64_max" "other \<le> u64_max"
  shows "order_id_from_key xxhash64 (job_orders_storage_key xxhash64 blake2_128 order_id) = Some order_id
    \<and> (job_orders_storage_key xxhash64 blake2_128 order_id = job_orders_storage_key xxhash64 blake2_128 other
        \<longleftrightarrow> order_id = other)"
proof -
  have r: "order_id_from_key xxhash64 (job_orders_storage_key xxhash64 blake2_128 n) = Some n"
    if "n \<le> u64_max" for n
    using that
    by (simp add: order_id_from_key_def job_orders_storage_key_def job_orders_prefix_def Let_def assms(1)
        le_value_le_bytes)
  from r [OF assms(2)] r [OF assms(3)] show ?thesis by (metis option.inject)
qed

theorem order_id_key_roundtrip_witness:
  "order_id_from_key (\<lambda>_ _. 7) (job_orders_storage_key (\<lambda>_ _. 7) (\<lambda>_. replicate 16 0) 42) = Some 42"
  using order_id_key_roundtrip [of "\<lambda>_. replicate 16 0" 42 42 "\<lambda>_ _. 7"] by simp

subsection \<open>The signed envelope\<close>

record RuntimeTxContext =
  rc_genesis_hash :: bytes
  rc_spec_version :: nat
  rc_transaction_version :: nat

record SignedExtensionContext =
  sx_account_nonce :: nat
  sx_genesis_hash :: bytes
  sx_spec_version :: nat
  sx_transaction_version :: nat
  sx_tip :: nat

record ('key, 'sig, 'proof) Codec =
  cd_compact :: "nat \<Rightarrow> bytes"
  cd_compact_decode :: "nat \<Rightarrow> bytes \<Rightarrow> (nat \<times> bytes) option"
  cd_signature :: "'sig \<Rightarrow> bytes"
  cd_signature_decode :: "bytes \<Rightarrow> ('sig \<times> bytes) option"
  cd_proof :: "'proof \<Rightarrow> bytes"
  cd_proof_decode :: "bytes \<Rightarrow> ('proof \<times> bytes) option"
  cd_blake2_256 :: "bytes \<Rightarrow> bytes"
  cd_sign :: "'key \<Rightarrow> bytes \<Rightarrow> 'sig"
  cd_verify :: "'sig \<Rightarrow> bytes \<Rightarrow> bool"
  cd_derived_account :: "'sig \<Rightarrow> bytes"
  cd_signer_account :: "'key \<Rightarrow> bytes"

definition encode_extra :: "('key, 'sig, 'proof) Codec \<Rightarrow> nat \<Rightarrow> nat \<Rightarrow> bytes" where
  "encode_extra C nonce tip = [0x00] @ cd_compact C nonce @ cd_compact C tip @ [0x00]"

definition encode_additional :: "nat \<Rightarrow> nat \<Rightarrow> bytes \<Rightarrow> bytes" where
  "encode_additional spec_version transaction_version genesis_hash =
     le_bytes 4 spec_version @ le_bytes 4 transaction_version @ genesis_hash @ genesis_hash @ [0x00]"

definition signing_payload :: "(bytes \<Rightarrow> bytes) \<Rightarrow> bytes \<Rightarrow> bytes \<Rightarrow> bytes \<Rightarrow> bytes" where
  "signing_payload blake2_256 call extra additional =
     (let payload = call @ extra @ additional in
      if length payload > 256 then blake2_256 payload else payload)"

definition assemble_signed_extrinsic ::
  "('key, 'sig, 'proof) Codec \<Rightarrow> bytes \<Rightarrow> 'sig \<Rightarrow> bytes \<Rightarrow> bytes \<Rightarrow> bytes" where
  "assemble_signed_extrinsic C account signature extra call =
     (let body = [0x84, 0x00] @ account @ cd_signature C signature @ extra @ call
      in cd_compact C (length body mod 2 ^ 32) @ body)"

definition build_hybrid_signed_extrinsic ::
  "('key, 'sig, 'proof) Codec \<Rightarrow> 'key \<Rightarrow> bytes \<Rightarrow> SignedExtensionContext \<Rightarrow> bytes" where
  "build_hybrid_signed_extrinsic C pair call_bytes ctx =
     (let extra = encode_extra C (sx_account_nonce ctx) (sx_tip ctx);
          additional = encode_additional (sx_spec_version ctx) (sx_transaction_version ctx) (sx_genesis_hash ctx);
          sig = cd_sign C pair (signing_payload (cd_blake2_256 C) call_bytes extra additional)
      in assemble_signed_extrinsic C (cd_signer_account C pair) sig extra call_bytes)"

definition extrinsic_hash :: "('key, 'sig, 'proof) Codec \<Rightarrow> bytes \<Rightarrow> bytes" where
  "extrinsic_hash C ext = cd_blake2_256 C ext"

definition encode_submit_proof_call :: "('key, 'sig, 'proof) Codec \<Rightarrow> 'proof \<Rightarrow> bytes" where
  "encode_submit_proof_call C proof = [10, 4] @ cd_proof C proof"

subsection \<open>Reading it back\<close>

record 'proof PendingProof =
  pp_extrinsic_hash :: bytes
  pp_account :: bytes
  pp_proof :: 'proof

definition read_byte :: "bytes \<Rightarrow> (u8 \<times> bytes) option" where
  "read_byte input = (case input of [] \<Rightarrow> None | b # rest \<Rightarrow> Some (b, rest))"

definition read_array :: "nat \<Rightarrow> bytes \<Rightarrow> (bytes \<times> bytes) option" where
  "read_array n input = (if length input < n then None else Some (take n input, drop n input))"

definition ensure :: "bool \<Rightarrow> unit option" where
  "ensure b = (if b then Some () else None)"

definition read_signed_extensions :: "('key, 'sig, 'proof) Codec \<Rightarrow> bytes \<Rightarrow> (u8 \<times> bytes) option" where
  "read_signed_extensions C input = do {
     (era, input) \<leftarrow> read_byte input;
     ensure (era = 0x00);
     (nonce, input) \<leftarrow> cd_compact_decode C 32 input;
     (tip, input) \<leftarrow> cd_compact_decode C 128 input;
     (mode, input) \<leftarrow> read_byte input;
     ensure (mode = 0x00 \<or> mode = 0x01);
     Some (mode, input)
   }"

definition signature_holds ::
  "('key, 'sig, 'proof) Codec \<Rightarrow> 'sig \<Rightarrow> bytes \<Rightarrow> bytes \<Rightarrow> bytes \<Rightarrow> u8 \<Rightarrow> RuntimeTxContext \<Rightarrow> bool" where
  "signature_holds C signature account call extra metadata_hash_mode ctx =
     (if cd_derived_account C signature \<noteq> account then False
      else if metadata_hash_mode = 0x01 then True
      else let additional = encode_additional (rc_spec_version ctx) (rc_transaction_version ctx) (rc_genesis_hash ctx);
               payload = signing_payload (cd_blake2_256 C) call extra additional
           in cd_verify C signature payload)"

definition decode_pending_proof ::
  "('key, 'sig, 'proof) Codec \<Rightarrow> bytes \<Rightarrow> RuntimeTxContext \<Rightarrow> 'proof PendingProof option" where
  "decode_pending_proof C bytes ctx = do {
     (declared, input) \<leftarrow> cd_compact_decode C 32 bytes;
     ensure (declared = length input);
     (version, input) \<leftarrow> read_byte input;
     ensure (version = 0x84);
     (address, input) \<leftarrow> read_byte input;
     ensure (address = 0x00);
     (account, input) \<leftarrow> read_array 32 input;
     (signature, input) \<leftarrow> cd_signature_decode C input;
     let extra_start = length bytes - length input;
     (metadata_hash_mode, input) \<leftarrow> read_signed_extensions C input;
     let call_start = length bytes - length input;
     (pallet, input) \<leftarrow> read_byte input;
     ensure (pallet = 10);
     (call_index, input) \<leftarrow> read_byte input;
     ensure (call_index = 4);
     (proof, input) \<leftarrow> cd_proof_decode C input;
     ensure (input = []);
     let extra = take (call_start - extra_start) (drop extra_start bytes);
     let call = drop call_start bytes;
     ensure (signature_holds C signature account call extra metadata_hash_mode ctx);
     Some \<lparr> pp_extrinsic_hash = extrinsic_hash C bytes, pp_account = account, pp_proof = proof \<rparr>
   }"

subsection \<open>Round trip\<close>

definition codec_ok :: "('key, 'sig, 'proof) Codec \<Rightarrow> bool" where
  "codec_ok C \<longleftrightarrow>
     (\<forall>w n rest. n < 2 ^ w \<longrightarrow> cd_compact_decode C w (cd_compact C n @ rest) = Some (n, rest))
     \<and> (\<forall>s rest. cd_signature_decode C (cd_signature C s @ rest) = Some (s, rest))
     \<and> (\<forall>p rest. cd_proof_decode C (cd_proof C p @ rest) = Some (p, rest))
     \<and> (\<forall>k. length (cd_signer_account C k) = 32)
     \<and> (\<forall>k m. cd_verify C (cd_sign C k m) m)
     \<and> (\<forall>k m. cd_derived_account C (cd_sign C k m) = cd_signer_account C k)"

lemma drop_prefix: "drop (length (a @ b) - length b) (a @ b) = b"
  by simp

lemma read_signed_extensions_extra:
  assumes "codec_ok C" "nonce < 2 ^ 32" "tip < 2 ^ 128"
  shows "read_signed_extensions C (encode_extra C nonce tip @ rest) = Some (0, rest)"
  using assms by (simp add: read_signed_extensions_def encode_extra_def read_byte_def ensure_def codec_ok_def)

text \<open>
  C31. The pool decoder reads what the coordinator signs: a \<open>submit_proof\<close> extrinsic built for a
  nonce, tip and runtime is decoded, under the same runtime, to the proof and the signer's
  account, with the hash of its bytes; the signature check passes because both sides build the
  same payload.
\<close>
theorem pending_proof_roundtrip:
  assumes ok: "codec_ok C" and n: "sx_account_nonce ctx < 2 ^ 32" and t: "sx_tip ctx < 2 ^ 128"
    and rt: "rt = \<lparr> rc_genesis_hash = sx_genesis_hash ctx, rc_spec_version = sx_spec_version ctx,
                    rc_transaction_version = sx_transaction_version ctx \<rparr>"
    and ext: "ext = build_hybrid_signed_extrinsic C pair (encode_submit_proof_call C proof) ctx"
    and len: "length ext < 2 ^ 32"
  shows "decode_pending_proof C ext rt = Some \<lparr> pp_extrinsic_hash = extrinsic_hash C ext,
     pp_account = cd_signer_account C pair, pp_proof = proof \<rparr>"
proof -
  define call where "call = encode_submit_proof_call C proof"
  define extra where "extra = encode_extra C (sx_account_nonce ctx) (sx_tip ctx)"
  define payload where "payload = signing_payload (cd_blake2_256 C) call extra
    (encode_additional (sx_spec_version ctx) (sx_transaction_version ctx) (sx_genesis_hash ctx))"
  define sig where "sig = cd_sign C pair payload"
  define acc where "acc = cd_signer_account C pair"
  define body where "body = [0x84, 0x00] @ acc @ cd_signature C sig @ extra @ call"
  define pre where "pre = cd_compact C (length body) @ [0x84, 0x00] @ acc @ cd_signature C sig"
  have e: "ext = cd_compact C (length body mod 2 ^ 32) @ body"
    by (simp add: ext build_hybrid_signed_extrinsic_def assemble_signed_extrinsic_def Let_def
        call_def extra_def payload_def sig_def acc_def body_def)
  have lb: "length body < 2 ^ 32" using len by (simp add: e)
  then have e1: "ext = cd_compact C (length body) @ body" by (simp add: e)
  have e2: "ext = pre @ extra @ call" by (simp add: e1 pre_def body_def)
  have acc: "length acc = 32" using ok by (simp add: codec_ok_def acc_def)
  have hold: "signature_holds C sig acc call extra 0 rt"
    using ok by (simp add: signature_holds_def codec_ok_def acc_def sig_def payload_def rt Let_def)
  have ex: "take (length (pre @ extra) - length pre) (drop (length pre) ext) = extra"
    "drop (length (pre @ extra)) ext = call"
    by (simp_all add: e2)
  have starts: "length ext - length (extra @ call) = length pre" "length ext - length call = length (pre @ extra)"
    by (simp_all add: e2)
  have head: "cd_compact_decode C 32 ext = Some (length body, body)"
    using ok lb by (simp add: e1 codec_ok_def)
  have sigd: "cd_signature_decode C (cd_signature C sig @ extra @ call) = Some (sig, extra @ call)"
    using ok by (simp add: codec_ok_def)
  have exts: "read_signed_extensions C (extra @ call) = Some (0, call)"
    unfolding extra_def by (rule read_signed_extensions_extra [OF ok n t])
  have pd: "cd_proof_decode C (cd_proof C proof) = Some (proof, [])"
    using ok unfolding codec_ok_def by (metis append_Nil2)
  define rest where "rest = cd_signature C sig @ extra @ call"
  have reads: "read_byte body = Some (0x84, 0x00 # acc @ rest)"
    "read_byte (0x00 # acc @ rest) = Some (0x00, acc @ rest)"
    "read_array 32 (acc @ rest) = Some (acc, rest)"
    "read_byte call = Some (10, 4 # cd_proof C proof)"
    "read_byte (4 # cd_proof C proof) = Some (4, cd_proof C proof)"
    using acc by (simp_all add: read_byte_def read_array_def body_def rest_def call_def encode_submit_proof_call_def)
  have ens: "ensure True = Some ()" by (simp add: ensure_def)
  have hold': "signature_holds C sig acc (drop (length ext - length call) ext)
      (take (length ext - length call - (length ext - length (extra @ call)))
        (drop (length ext - length (extra @ call)) ext)) 0 rt = True"
    unfolding starts ex using hold by simp
  show ?thesis
    unfolding decode_pending_proof_def head reads sigd [folded rest_def] exts pd Option.bind.simps prod.case
      simp_thms ens Let_def hold' acc_def [symmetric] ..
qed

text \<open>A self-delimiting codec and a trivial signature scheme that satisfy the contract.\<close>

definition ex_codec :: "(unit, unit, unit) Codec" where
  "ex_codec = \<lparr> cd_compact = (\<lambda>n. replicate n 1 @ [0]),
     cd_compact_decode = (\<lambda>w bs. let n = length (takeWhile (\<lambda>b. b = 1) bs) in
        if n < length bs then Some (n, drop (Suc n) bs) else None),
     cd_signature = (\<lambda>_. []), cd_signature_decode = (\<lambda>bs. Some ((), bs)),
     cd_proof = (\<lambda>_. []), cd_proof_decode = (\<lambda>bs. Some ((), bs)),
     cd_blake2_256 = (\<lambda>_. replicate 32 0), cd_sign = (\<lambda>_ _. ()), cd_verify = (\<lambda>_ _. True),
     cd_derived_account = (\<lambda>_. replicate 32 1), cd_signer_account = (\<lambda>_. replicate 32 1) \<rparr>"

lemma ex_codec_ok: "codec_ok ex_codec"
proof -
  have "takeWhile (\<lambda>b. b = 1) (replicate n (1 :: u8) @ 0 # rest) = replicate n 1" for n rest
    by (induction n) auto
  then show ?thesis by (simp add: codec_ok_def ex_codec_def Let_def)
qed

definition ex_tx_ctx :: SignedExtensionContext where
  "ex_tx_ctx = \<lparr> sx_account_nonce = 0, sx_genesis_hash = replicate 32 7, sx_spec_version = 119,
     sx_transaction_version = 1, sx_tip = 0 \<rparr>"

theorem pending_proof_roundtrip_witness:
  "map_option pp_account (decode_pending_proof ex_codec
      (build_hybrid_signed_extrinsic ex_codec () (encode_submit_proof_call ex_codec ()) ex_tx_ctx)
      \<lparr> rc_genesis_hash = replicate 32 7, rc_spec_version = 119, rc_transaction_version = 1 \<rparr>)
    = Some (replicate 32 1)"
proof -
  have "length (build_hybrid_signed_extrinsic ex_codec () (encode_submit_proof_call ex_codec ()) ex_tx_ctx) < 2 ^ 32"
    by (simp add: build_hybrid_signed_extrinsic_def assemble_signed_extrinsic_def encode_submit_proof_call_def
        encode_extra_def ex_codec_def ex_tx_ctx_def Let_def)
  from pending_proof_roundtrip [OF ex_codec_ok _ _ refl refl this] show ?thesis
    by (simp add: ex_tx_ctx_def) (simp add: ex_codec_def)
qed

end
