(* ===== verification/Lease.thy ===== *)
theory Lease
  imports Validate Float64 Extrinsic
begin

text \<open>
  \<open>lease.rs\<close>: salt leases. Lease ids, the lease job, how many salts a lease names, the two-step
  check of a lease result and the throughput estimate. The redraw-and-rescore verifier and the
  spin decoder are external, and \<open>exp\<close> is an argument because its last bit is not specified.
\<close>

definition LEASE_TARGET_SECS :: f64 where "LEASE_TARGET_SECS = Fin 60"
definition LEASE_RATE_WINDOW_SECS :: f64 where "LEASE_RATE_WINDOW_SECS = Fin 300"
definition LEASE_MAX_SALTS :: nat where "LEASE_MAX_SALTS = 2 ^ 20"
definition LEASE_STAGE_DEPTH :: nat where "LEASE_STAGE_DEPTH = 2"
definition LEASE_JOB_ID_PREFIX :: bytes where "LEASE_JOB_ID_PREFIX = ascii ''lease:''"
definition INITIAL_SALTS_PER_SEC_PER_SLOT :: f64 where "INITIAL_SALTS_PER_SEC_PER_SLOT = Fin 75"

definition lease_job_id :: "nat \<Rightarrow> bytes" where
  "lease_job_id salt_start = LEASE_JOB_ID_PREFIX @ le_bytes 8 salt_start"

definition is_lease :: "Job \<Rightarrow> bool" where
  "is_lease job \<longleftrightarrow> jb_kind job = IsingGenerate"

definition build_lease_job :: "MiningSnapshot \<Rightarrow> bytes \<Rightarrow> nat \<Rightarrow> nat \<Rightarrow> nat \<Rightarrow> Job" where
  "build_lease_job snap miner_identity salt_start salt_count generation =
     \<lparr> jb_job_id = lease_job_id salt_start,
       jb_kind = IsingGenerate,
       jb_generation = generation,
       jb_deadline_ms = 0,
       jb_ising = None,
       jb_provenance = Some \<lparr> pv_is_pow = True, pv_order_id = [] \<rparr>,
       jb_generator = Some
         \<lparr> gn_algorithm = Blake3Chacha8V1,
           gn_topology_hash = ms_topology_hash snap,
           gn_last_proof_block_hash = ms_last_proof_block_hash snap,
           gn_miner_account = miner_identity,
           gn_base_salt = replicate 32 0,
           gn_salt_start = salt_start,
           gn_salt_count = salt_count \<rparr> \<rparr>"

definition lease_salt_count :: "f64 \<Rightarrow> nat \<Rightarrow> nat" where
  "lease_salt_count salts_per_sec stream_width =
     (let fill = max stream_width 1;
          rate = (if f_is_finite salts_per_sec \<and> f_less (Fin 0) salts_per_sec then salts_per_sec
                  else f_mul (f_of_int (int fill)) INITIAL_SALTS_PER_SEC_PER_SLOT);
          want_f = f_ceil (f_mul rate LEASE_TARGET_SECS);
          want = (if f_le (f_of_int (int LEASE_MAX_SALTS)) want_f then LEASE_MAX_SALTS else f_to_u64 want_f)
      in min (max want (min fill LEASE_MAX_SALTS)) LEASE_MAX_SALTS)"

definition AUTHENTICITY_ONLY :: Target where
  "AUTHENTICITY_ONLY = \<lparr> tg_max_energy_milli = i64_max, tg_min_solutions = 0,
     tg_min_diversity_milli = 0, tg_max_proof_solutions = u32_max \<rparr>"

text \<open>The outer \<open>option\<close> is a panic of the validator; \<open>Inl\<close> is the verification error.\<close>

definition verify_and_select ::
  "'e selector \<Rightarrow> 'e diversity \<Rightarrow> (bytes \<Rightarrow> nat \<Rightarrow> 'd + int list)
    \<Rightarrow> (IsingProblemGenerator \<Rightarrow> 'topo \<Rightarrow> Target \<Rightarrow> 'res \<Rightarrow> string + 'verified)
    \<Rightarrow> ('topo \<Rightarrow> nat) \<Rightarrow> ('res \<Rightarrow> Solution list)
    \<Rightarrow> IsingProblemGenerator \<Rightarrow> 'topo \<Rightarrow> SetTarget \<Rightarrow> 'res \<Rightarrow> (string + 'verified \<times> Validated) option" where
  "verify_and_select sel dv decode_spins_packed verify_lease_result num_nodes solutions
      generator topology target result =
     (case verify_lease_result generator topology AUTHENTICITY_ONLY result of
        Inl e \<Rightarrow> Some (Inl e)
      | Inr verified \<Rightarrow>
          let scored = List.map_filter (\<lambda>s.
                case decode_spins_packed (sl_spins s) (num_nodes topology) of
                  Inl _ \<Rightarrow> None
                | Inr spins \<Rightarrow> Some (spins, sl_energy_milli s)) (solutions result);
              gates = gates_from_target (Some target)
          in (case validate_scored sel dv (map fst scored) (map snd scored) gates of
                None \<Rightarrow> None
              | Some validated \<Rightarrow> Some (Inr (verified, validated))))"

record SaltRate =
  sr_salts :: f64
  sr_secs :: f64

definition observe :: "(f64 \<Rightarrow> f64) \<Rightarrow> nat \<Rightarrow> f64 \<Rightarrow> SaltRate \<Rightarrow> f64 \<times> SaltRate" where
  "observe f64_exp salts elapsed_secs r =
     (let keep = f64_exp (f_div (f_neg elapsed_secs) LEASE_RATE_WINDOW_SECS);
          salts' = f_add (f_mul (sr_salts r) keep) (f_of_int (int salts));
          secs' = f_add (f_mul (sr_secs r) keep) elapsed_secs
      in (if f_less (Fin 0) secs' then f_div salts' secs' else Fin 0,
          \<lparr> sr_salts = salts', sr_secs = secs' \<rparr>))"

lemma length_ascii [simp]: "length (ascii s) = length s"
  by (simp add: ascii_def)

text \<open>
  Lease ids are unique and apart from nonce ids: different first counters give different ids,
  and no lease id equals a 32-byte nonce, so a result can always be matched to one kind of job.
\<close>
theorem lease_id_unique:
  assumes "a \<le> u64_max" "b \<le> u64_max" "length nonce = 32"
  shows "(lease_job_id a = lease_job_id b \<longleftrightarrow> a = b) \<and> lease_job_id a \<noteq> nonce"
proof -
  have "le_bytes 8 a = le_bytes 8 b \<longleftrightarrow> a = b"
    using le_bytes_inj [of 8 a b] assms(1,2) by auto
  moreover have "length (lease_job_id a) = 14" by (simp add: lease_job_id_def LEASE_JOB_ID_PREFIX_def)
  ultimately show ?thesis using assms(3) by (auto simp: lease_job_id_def)
qed

theorem lease_id_unique_witness:
  "lease_job_id 1 \<noteq> lease_job_id 2 \<and> lease_job_id 1 \<noteq> replicate 32 0"
  using lease_id_unique [of 1 2 "replicate 32 0"] by simp

text \<open>
  The size of a lease is always usable: whatever the measured rate, including no rate, infinity
  or a NaN, a lease names at least one pipeline fill (at most \<open>2 ^ 20\<close>), at least one salt, and at most
  \<open>2 ^ 20\<close> salts.
\<close>
theorem lease_salt_count_bounds:
  "min (max stream_width 1) (2 ^ 20) \<le> lease_salt_count rate stream_width
   \<and> 1 \<le> lease_salt_count rate stream_width \<and> lease_salt_count rate stream_width \<le> 2 ^ 20"
  by (auto simp: lease_salt_count_def Let_def LEASE_MAX_SALTS_def)

end
