(* ===== verification/Submit.thy ===== *)
theory Submit
  imports Validate Ledger
begin

text \<open>
  \<open>chain/submit.rs\<close> and \<open>chain/outcome.rs\<close>: what a submission produced, how pallet error text is
  classified, and the ledger that stops resubmitting a proof the runtime keeps refusing.
\<close>

datatype SubmitAction = Success | Retry | StopRoundStale | StopFatal

record SubmitReceipt =
  sb_action :: SubmitAction
  sb_extrinsic_hash :: "bytes option"
  sb_block_hash :: "bytes option"
  sb_block_number :: "nat option"

definition action_only :: "SubmitAction \<Rightarrow> SubmitReceipt" where
  "action_only action =
     \<lparr> sb_action = action, sb_extrinsic_hash = None, sb_block_hash = None, sb_block_number = None \<rparr>"

record Proof =
  pr_job_id :: bytes
  pr_best_energy_milli :: int
  pr_diversity_milli :: nat
  pr_n_valid :: nat
  pr_solutions :: "SpinRow list"
  pr_is_pow :: bool
  pr_order_id :: bytes
  pr_generation :: nat
  pr_salt :: bytes
  pr_device_access_time_us :: nat

subsection \<open>Error text\<close>

definition starts_with :: "string \<Rightarrow> string \<Rightarrow> bool" where
  "starts_with s p \<longleftrightarrow> take (length p) s = p"

fun contains :: "string \<Rightarrow> string \<Rightarrow> bool" where
  "contains [] p = (p = [])"
| "contains (c # s) p = (starts_with (c # s) p \<or> contains s p)"

definition contains_any :: "string \<Rightarrow> string list \<Rightarrow> bool" where
  "contains_any e ss = list_ex (contains e) ss"

datatype DescriptorOutcome = Filed | Rejected

definition DESCRIPTOR_REJECT :: "string list" where
  "DESCRIPTOR_REJECT =
     [''EmptyNodeId'', ''EmptyNodeName'', ''EmptyPublicHost'', ''EmptyRpcEndpoint'', ''EmptyMinerLabel'',
      ''EmptyMinerBackend'', ''EmptyMinerDeviceId'', ''EmptyOsSystem'', ''EmptyCpuBrand'', ''EmptyCpuArch'',
      ''EmptyGpuVendor'', ''EmptyGpuName'', ''InvalidGpuUtilization'', ''EmptyPythonVersion'',
      ''EmptyQuipVersion'', ''EmptyDockerImage'', ''NoMiners'', ''InvalidPort'', ''InsufficientBalance'',
      ''LiquidityRestrictions'']"

definition classify_descriptor :: "string option \<Rightarrow> DescriptorOutcome option" where
  "classify_descriptor error =
     (case error of
        None \<Rightarrow> Some Filed
      | Some e \<Rightarrow> if contains_any e DESCRIPTOR_REJECT then Some Rejected else None)"

datatype ParticipationOutcome = Declared | AlreadyDeclared | StaleQBlock | DescriptorMissing

definition classify_participation :: "string option \<Rightarrow> ParticipationOutcome option" where
  "classify_participation error =
     (case error of
        None \<Rightarrow> Some Declared
      | Some e \<Rightarrow>
          if contains e ''DuplicateParticipation'' then Some AlreadyDeclared
          else if contains e ''InvalidQBlockId'' then Some StaleQBlock
          else if contains e ''DescriptorRequired'' then Some DescriptorMissing
          else None)"

datatype RegistrationOutcome = Registered | AlreadyRegistered

definition classify_registration :: "string option \<Rightarrow> RegistrationOutcome option" where
  "classify_registration error =
     (case error of
        None \<Rightarrow> Some Registered
      | Some e \<Rightarrow>
          if contains e ''MinerAlreadyRegistered'' \<or> contains e ''SolverAlreadyRegistered''
          then Some AlreadyRegistered else None)"

definition classify_receipt :: "string option \<Rightarrow> SubmitAction" where
  "classify_receipt error =
     (case error of
        None \<Rightarrow> Success
      | Some e \<Rightarrow>
          if contains_any e [''InsufficientEnergy'', ''ProofLimitReached''] then Retry
          else if contains_any e [''InvalidNonce'', ''TopologyNotRegistered'', ''InvalidTopology''] then StopRoundStale
          else if contains_any e [''InsufficientSolutions'', ''InsufficientDiversity'', ''MinerNotRegistered'']
          then StopFatal
          else StopFatal)"

subsection \<open>The submit ledger\<close>

definition QBLOCK_RETENTION :: nat where
  "QBLOCK_RETENTION = 8"

record SubmitLedger =
  lg_max_attempts :: nat
  lg_counts :: "(nat, (bytes, nat) hmap) hmap"

definition new_ledger :: "nat \<Rightarrow> SubmitLedger" where
  "new_ledger max_attempts = \<lparr> lg_max_attempts = max max_attempts 1, lg_counts = [] \<rparr>"

definition attempts :: "SubmitLedger \<Rightarrow> nat \<Rightarrow> bytes \<Rightarrow> nat" where
  "attempts l qblock_id job_id =
     (case hm_get (lg_counts l) qblock_id of
        None \<Rightarrow> 0
      | Some jobs \<Rightarrow> (case hm_get jobs job_id of None \<Rightarrow> 0 | Some n \<Rightarrow> n))"

definition tracked_qblocks :: "SubmitLedger \<Rightarrow> nat" where
  "tracked_qblocks l = length (lg_counts l)"

definition prune :: "nat \<Rightarrow> SubmitLedger \<Rightarrow> SubmitLedger" where
  "prune newest l =
     l\<lparr>lg_counts := filter (\<lambda>e. fst e \<ge> newest - (QBLOCK_RETENTION - 1)) (lg_counts l)\<rparr>"

definition record_failure :: "nat \<Rightarrow> bytes \<Rightarrow> SubmitLedger \<Rightarrow> SubmitAction \<times> SubmitLedger" where
  "record_failure qblock_id job_id l =
     (let jobs = (case hm_get (lg_counts l) qblock_id of None \<Rightarrow> [] | Some js \<Rightarrow> js);
          n = sat_add_u32 (case hm_get jobs job_id of None \<Rightarrow> 0 | Some n \<Rightarrow> n) 1;
          l1 = l\<lparr>lg_counts := hm_insert qblock_id (hm_insert job_id n jobs) (lg_counts l)\<rparr>
      in (if n \<ge> lg_max_attempts l then StopFatal else Retry, prune qblock_id l1))"

definition record_success :: "nat \<Rightarrow> bytes \<Rightarrow> SubmitLedger \<Rightarrow> SubmitLedger" where
  "record_success qblock_id job_id l =
     l\<lparr>lg_counts := hm_modify qblock_id (hm_remove job_id) (lg_counts l)\<rparr>"

datatype LedgerOp = LFail nat bytes | LOk nat bytes

fun ledger_step :: "LedgerOp \<Rightarrow> SubmitLedger \<Rightarrow> SubmitAction \<times> SubmitLedger" where
  "ledger_step (LFail q j) l = record_failure q j l"
| "ledger_step (LOk q j) l = (Success, record_success q j l)"

text \<open>The reference: failures of a job in a quantum block since it last landed there.\<close>

fun failures_since :: "nat \<Rightarrow> bytes \<Rightarrow> LedgerOp list \<Rightarrow> nat" where
  "failures_since q j [] = 0"
| "failures_since q j (LFail q' j' # ops) = (if q' = q \<and> j' = j then Suc (failures_since q j ops) else failures_since q j ops)"
| "failures_since q j (LOk q' j' # ops) = (if q' = q \<and> j' = j then 0 else failures_since q j ops)"

lemma prune_get:
  "hm_get (lg_counts (prune newest l)) q = (if q \<ge> newest - 7 then hm_get (lg_counts l) q else None)"
  by (simp add: prune_def hm_get_filter [where P = "\<lambda>q. q \<ge> newest - 7"] QBLOCK_RETENTION_def)

lemma attempts_failure:
  "q' \<le> q + 7 \<Longrightarrow> attempts (snd (record_failure q' j' l)) q j =
     (if q' = q \<and> j' = j then sat_add_u32 (attempts l q j) 1 else attempts l q j)"
  by (auto simp: attempts_def record_failure_def Let_def prune_get hm.get_ins split: option.splits)

lemma attempts_success:
  "attempts (record_success q' j' l) q j = (if q' = q \<and> j' = j then 0 else attempts l q j)"
  by (auto simp: attempts_def record_success_def hm.get_upd hm.get_del split: option.splits)

lemma ledger_max [simp]: "lg_max_attempts (snd (ledger_step op l)) = lg_max_attempts l"
  by (cases op) (auto simp: record_failure_def record_success_def prune_def Let_def)

definition ledger_run :: "LedgerOp list \<Rightarrow> SubmitLedger \<Rightarrow> SubmitLedger" where
  "ledger_run ops l = snd (run_steps ledger_step ops l)"

lemma ledger_run_snoc: "ledger_run (ops @ [op]) l = snd (ledger_step op (ledger_run ops l))"
  by (simp add: ledger_run_def run_steps_append run_steps_Cons split_def Let_def run_steps.simps)

lemma ledger_run_max [simp]: "lg_max_attempts (ledger_run ops l) = lg_max_attempts l"
  by (induction ops rule: rev_induct) (simp_all add: ledger_run_snoc, simp add: ledger_run_def)

lemma attempts_run:
  "\<forall>q' j'. LFail q' j' \<in> set ops \<longrightarrow> q' \<le> q + 7 \<Longrightarrow>
     attempts (ledger_run ops (new_ledger k)) q j = min (failures_since q j (rev ops)) u32_max"
proof (induction ops rule: rev_induct)
  case Nil
  then show ?case by (simp add: ledger_run_def attempts_def new_ledger_def)
next
  case (snoc op ops)
  then show ?case
    by (cases op) (auto simp: ledger_run_snoc attempts_failure attempts_success sat_add_u32_def)
qed

lemma record_failure_action:
  "fst (record_failure q j l) =
     (if sat_add_u32 (attempts l q j) 1 \<ge> lg_max_attempts l then StopFatal else Retry)"
  by (auto simp: record_failure_def Let_def attempts_def split: option.splits)

text \<open>
  Repeated refusals stop loudly: after any history of submissions in which no later round has
  pushed this one out of the retention window, one more failure of a job is fatal exactly when
  the job has then failed at least \<open>max_attempts\<close> times (at least once) in that quantum block since
  it last landed there, and is retried otherwise.
\<close>
theorem submit_ledger_stops:
  assumes "\<forall>q' j'. LFail q' j' \<in> set ops \<longrightarrow> q' \<le> q + 7" "max_attempts \<le> u32_max"
  shows "fst (record_failure q j (ledger_run ops (new_ledger max_attempts))) =
     (if Suc (failures_since q j (rev ops)) \<ge> max max_attempts 1 then StopFatal else Retry)"
  using assms attempts_run [OF assms(1), of max_attempts j]
  by (auto simp: record_failure_action sat_add_u32_def new_ledger_def)

theorem submit_ledger_stops_witness:
  "fst (record_failure 5 [1] (ledger_run [LFail 5 [1], LFail 5 [2], LFail 5 [1]] (new_ledger 3))) = StopFatal"
  using submit_ledger_stops [of "[LFail 5 [1], LFail 5 [2], LFail 5 [1]]" 5 3 "[1]"] by simp

lemma record_failure_keys:
  "hm_keys (lg_counts (snd (record_failure q j l))) =
     filter (\<lambda>p. q - 7 \<le> p)
       (if q \<in> set (hm_keys (lg_counts l)) then hm_keys (lg_counts l) else hm_keys (lg_counts l) @ [q])"
  by (simp add: record_failure_def prune_def Let_def QBLOCK_RETENTION_def
      hm_keys_filter [where P = "\<lambda>p. q - 7 \<le> p"] hm_keys_insert)

lemma tracked_keys: "tracked_qblocks l = length (hm_keys (lg_counts l))"
  by (simp add: tracked_qblocks_def hm_keys_def)

lemma tracked_bound:
  assumes "hm_wf (lg_counts l)" "\<forall>q \<in> set (hm_keys (lg_counts l)). q \<le> n"
  shows "tracked_qblocks (prune n l) \<le> 8"
proof -
  let ?ks = "map fst (filter (\<lambda>e. fst e \<ge> n - 7) (lg_counts l))"
  have "distinct ?ks" using assms(1) by (simp add: hm_wf_def distinct_map_filter)
  moreover have "set ?ks \<subseteq> {n - 7..n}" using assms(2) by (auto simp: hm_keys_def)
  ultimately have "length ?ks \<le> card {n - 7..n}"
    by (metis card_mono distinct_card finite_atLeastAtMost)
  then show ?thesis by (simp add: tracked_qblocks_def prune_def QBLOCK_RETENTION_def)
qed

lemma ledger_keys_bound:
  "(\<forall>q j. LFail q j \<in> set ops \<longrightarrow> q \<le> n) \<Longrightarrow>
     hm_wf (lg_counts (ledger_run ops (new_ledger k)))
     \<and> (\<forall>q \<in> set (hm_keys (lg_counts (ledger_run ops (new_ledger k)))). q \<le> n)"
proof (induction ops rule: rev_induct)
  case Nil
  then show ?case by (simp add: ledger_run_def new_ledger_def hm_keys_def)
next
  case (snoc op ops)
  let ?l = "ledger_run ops (new_ledger k)"
  have ih: "hm_wf (lg_counts ?l)" "\<forall>q \<in> set (hm_keys (lg_counts ?l)). q \<le> n" using snoc by auto
  show ?case
  proof (cases op)
    case (LFail q j)
    have "q \<le> n" using snoc.prems LFail by auto
    moreover have "hm_wf (lg_counts (snd (record_failure q j ?l)))"
      using ih by (simp add: record_failure_def prune_def Let_def hm_wf_filter hm.wf_ins)
    ultimately show ?thesis
      using ih by (auto simp: LFail ledger_run_snoc record_failure_keys split: if_splits)
  next
    case (LOk q j)
    with ih show ?thesis by (simp add: ledger_run_snoc record_success_def hm.wf_upd)
  qed
qed

text \<open>
  While round numbers do not go back, the ledger holds at most eight rounds: a failure recorded
  for a round no earlier than any before leaves at most \<open>QBLOCK_RETENTION\<close> quantum blocks.
\<close>
theorem ledger_retention:
  assumes "\<forall>q' j'. LFail q' j' \<in> set ops \<longrightarrow> q' \<le> q"
  shows "tracked_qblocks (ledger_run (ops @ [LFail q j]) (new_ledger k)) \<le> 8"
proof -
  let ?l = "ledger_run ops (new_ledger k)"
  have b: "hm_wf (lg_counts ?l)" "\<forall>p \<in> set (hm_keys (lg_counts ?l)). p \<le> q"
    using ledger_keys_bound [OF assms, of k] by auto
  have "\<exists>l1. snd (record_failure q j ?l) = prune q l1 \<and> hm_wf (lg_counts l1)
      \<and> (\<forall>p \<in> set (hm_keys (lg_counts l1)). p \<le> q)"
    using b by (auto simp: record_failure_def Let_def hm.wf_ins hm.keys_ins intro!: exI)
  then show ?thesis using tracked_bound by (auto simp: ledger_run_snoc)
qed

theorem ledger_retention_witness:
  "tracked_qblocks (ledger_run ([LFail 1 [1], LFail 5 [2]] @ [LFail 20 [1]]) (new_ledger 3)) \<le> 8"
  using ledger_retention [of "[LFail 1 [1], LFail 5 [2]]" 20 "[1]" 3] by simp

text \<open>
  When round numbers go back the bound of eight that \<open>prune\<close> documents does not hold: keys newer
  than the recorded round are kept, so nine failures for descending rounds leave nine rounds.
\<close>
theorem ledger_retention_exceeded:
  "tracked_qblocks (ledger_run (map (\<lambda>q. LFail q [1]) [9, 8, 7, 6, 5, 4, 3, 2, 1]) (new_ledger 3)) = 9"
proof -
  have "hm_keys (lg_counts (new_ledger 3)) = []" by (simp add: new_ledger_def hm_keys_def)
  then show ?thesis
    by (simp add: tracked_keys ledger_run_def run_steps_Cons record_failure_keys)
qed

end
