(* ===== verification/Decay.thy ===== *)
theory Decay
  imports Float64 Problem
begin

text \<open>
  \<open>decay.rs\<close>: the three easing rules of the chain and the projection that asks when the
  threshold first clears an energy. The transcendental functions of the \<open>libm\<close> crate (\<open>log\<close>,
  \<open>pow\<close>) are arguments; everything else is computed, with \<open>f64\<close> rounding and \<open>i64\<close> saturation.
\<close>

definition DECAY_RATE_MILLI :: int where "DECAY_RATE_MILLI = 25"
definition MIN_ENERGY_DELTA_MILLI :: int where "MIN_ENERGY_DELTA_MILLI = 1000"
definition TARGET_PROOF_BLOCKS :: nat where "TARGET_PROOF_BLOCKS = 100"
definition OVERDUE_EASE_RATE_MILLI :: int where "OVERDUE_EASE_RATE_MILLI = 25"
definition CONTINUOUS_DECAY_SPEC_VERSION :: nat where "CONTINUOUS_DECAY_SPEC_VERSION = 118"
definition GATED_DECAY_SPEC_VERSION :: nat where "GATED_DECAY_SPEC_VERSION = 119"
definition EPOCH_LENGTH_BLOCKS :: nat where "EPOCH_LENGTH_BLOCKS = 100"
definition DEFAULT_C_EASY_MILLI :: nat where "DEFAULT_C_EASY_MILLI = 700"
definition DEFAULT_C_KNEE_MILLI :: nat where "DEFAULT_C_KNEE_MILLI = 725"
definition DEFAULT_C_HARD_MILLI :: nat where "DEFAULT_C_HARD_MILLI = 750"
definition DEFAULT_BASE_MAX_ENERGY_MILLI :: int where "DEFAULT_BASE_MAX_ENERGY_MILLI = - 1200000"

definition genesis_params :: DecayParams where
  "genesis_params =
     \<lparr> dp_base_max_energy_milli = DEFAULT_BASE_MAX_ENERGY_MILLI,
       dp_last_proof_block = 0,
       dp_epoch_length = EPOCH_LENGTH_BLOCKS,
       dp_c_easy_milli = DEFAULT_C_EASY_MILLI,
       dp_c_knee_milli = DEFAULT_C_KNEE_MILLI,
       dp_c_hard_milli = DEFAULT_C_HARD_MILLI \<rparr>"

record EnergyCurve =
  ec_min_milli :: int
  ec_knee_milli :: int
  ec_max_milli :: int

subsection \<open>The rules\<close>

definition geometric_floored :: "int \<Rightarrow> int \<Rightarrow> int \<Rightarrow> int" where
  "geometric_floored room rate_milli min_delta =
     (let rate = f_div (f_of_int rate_milli) (Fin 1000);
          stepped = f_to_i64 (f_round (f_mul (f_of_int room) rate))
      in max stepped min_delta)"

definition ease_step :: "int \<Rightarrow> EnergyCurve \<Rightarrow> int" where
  "ease_step current curve =
     (if ec_max_milli curve \<le> ec_min_milli curve then current
      else let room = sat_sub_i64 (ec_max_milli curve) current in
        if room \<le> 0 then current
        else let g = geometric_floored room DECAY_RATE_MILLI MIN_ENERGY_DELTA_MILLI
             in sat_add_i64 current (min g room))"

fun ease_stepwise :: "int \<Rightarrow> nat \<Rightarrow> EnergyCurve \<Rightarrow> int" where
  "ease_stepwise cur 0 curve = cur"
| "ease_stepwise cur (Suc steps) curve = ease_stepwise (ease_step cur curve) steps curve"

definition ease_room ::
  "(f64 \<Rightarrow> f64) \<Rightarrow> (f64 \<Rightarrow> f64 \<Rightarrow> f64) \<Rightarrow> int \<Rightarrow> nat \<Rightarrow> nat \<Rightarrow> f64 \<Rightarrow> int" where
  "ease_room libm_log libm_pow room blocks epoch_length rate =
     (if room \<le> 0 \<or> blocks = 0 \<or> epoch_length = 0 \<or> f_le rate (Fin 0) \<or> f_le (Fin 1) rate then 0
      else let floor = f_of_int MIN_ENERGY_DELTA_MILLI;
               room_f = f_of_int room;
               epochs = f_div (f_of_int (int blocks)) (f_of_int (int epoch_length));
               crossover = f_div floor rate;
               geometric_epochs =
                 (if f_le room_f crossover then Fin 0
                  else f_min (f_div (libm_log (f_div crossover room_f)) (libm_log (f_sub (Fin 1) rate))) epochs);
               room_after_geometric = f_mul room_f (libm_pow (f_sub (Fin 1) rate) geometric_epochs);
               linear = f_mul (f_sub epochs geometric_epochs) floor;
               eased = f_to_i64 (f_round (f_add (f_sub room_f room_after_geometric) linear))
           in min eased room)"

definition ease_continuous ::
  "(f64 \<Rightarrow> f64) \<Rightarrow> (f64 \<Rightarrow> f64 \<Rightarrow> f64) \<Rightarrow> int \<Rightarrow> nat \<Rightarrow> nat \<Rightarrow> EnergyCurve \<Rightarrow> int" where
  "ease_continuous libm_log libm_pow current elapsed_blocks epoch_length curve =
     (if ec_max_milli curve \<le> ec_min_milli curve \<or> elapsed_blocks = 0 \<or> epoch_length = 0 then current
      else let room = sat_sub_i64 (ec_max_milli curve) current in
        if room \<le> 0 then current
        else let baseline_retained = f_sub (Fin 1) (f_div (f_of_int DECAY_RATE_MILLI) (Fin 1000));
                 overdue_retained = f_mul baseline_retained
                   (f_sub (Fin 1) (f_div (f_of_int OVERDUE_EASE_RATE_MILLI) (Fin 1000)));
                 in_target = min elapsed_blocks TARGET_PROOF_BLOCKS;
                 overdue = elapsed_blocks - in_target;
                 first = ease_room libm_log libm_pow room in_target epoch_length (f_sub (Fin 1) baseline_retained);
                 second = ease_room libm_log libm_pow (wrap_i64 (room - first)) overdue epoch_length
                            (f_sub (Fin 1) overdue_retained)
             in sat_add_i64 current (min (wrap_i64 (first + second)) room))"

definition ease_gated ::
  "(f64 \<Rightarrow> f64) \<Rightarrow> (f64 \<Rightarrow> f64 \<Rightarrow> f64) \<Rightarrow> int \<Rightarrow> nat \<Rightarrow> nat \<Rightarrow> EnergyCurve \<Rightarrow> int" where
  "ease_gated libm_log libm_pow current elapsed_blocks epoch_length curve =
     (let overdue = elapsed_blocks - TARGET_PROOF_BLOCKS in
      if ec_max_milli curve \<le> ec_min_milli curve \<or> overdue = 0 \<or> epoch_length = 0 then current
      else let room = sat_sub_i64 (ec_max_milli curve) current;
               retained = f_mul (f_sub (Fin 1) (f_div (f_of_int DECAY_RATE_MILLI) (Fin 1000)))
                   (f_sub (Fin 1) (f_div (f_of_int OVERDUE_EASE_RATE_MILLI) (Fin 1000)))
           in sat_add_i64 current (ease_room libm_log libm_pow room overdue epoch_length (f_sub (Fin 1) retained)))"

datatype DecayAlgorithm = Stepwise | Continuous | Gated

definition for_spec_version :: "nat \<Rightarrow> DecayAlgorithm" where
  "for_spec_version spec_version =
     (if spec_version \<ge> GATED_DECAY_SPEC_VERSION then Gated
      else if spec_version \<ge> CONTINUOUS_DECAY_SPEC_VERSION then Continuous
      else Stepwise)"

primrec algorithm_label :: "DecayAlgorithm \<Rightarrow> string" where
  "algorithm_label Stepwise = ''stepwise''"
| "algorithm_label Continuous = ''continuous''"
| "algorithm_label Gated = ''gated''"

record DecayModel =
  dm_base_max_energy_milli :: int
  dm_curve :: "EnergyCurve option"
  dm_epoch_length :: nat
  dm_algorithm :: DecayAlgorithm

definition threshold_at ::
  "(f64 \<Rightarrow> f64) \<Rightarrow> (f64 \<Rightarrow> f64 \<Rightarrow> f64) \<Rightarrow> DecayModel \<Rightarrow> nat \<Rightarrow> int" where
  "threshold_at libm_log libm_pow m elapsed_blocks =
     (case dm_curve m of
        None \<Rightarrow> dm_base_max_energy_milli m
      | Some curve \<Rightarrow>
          if dm_epoch_length m = 0 then dm_base_max_energy_milli m
          else case dm_algorithm m of
                 Stepwise \<Rightarrow> ease_stepwise (dm_base_max_energy_milli m) (elapsed_blocks div dm_epoch_length m) curve
               | Continuous \<Rightarrow> ease_continuous libm_log libm_pow (dm_base_max_energy_milli m) elapsed_blocks (dm_epoch_length m) curve
               | Gated \<Rightarrow> ease_gated libm_log libm_pow (dm_base_max_energy_milli m) elapsed_blocks (dm_epoch_length m) curve)"

text \<open>The search loop: the threshold at \<open>lo\<close> does not clear, at \<open>hi\<close> it does.\<close>

function bisect :: "(nat \<Rightarrow> int) \<Rightarrow> int \<Rightarrow> nat \<Rightarrow> nat \<Rightarrow> nat" where
  "bisect th energy lo hi =
     (if hi - lo > 1 then
        let mid = lo + (hi - lo) div 2 in
        if th mid > energy then bisect th energy lo mid else bisect th energy mid hi
      else hi)"
  by pat_completeness auto
termination bisect
  by (relation "measure (\<lambda>(th, e, lo, hi). hi - lo)") auto

declare bisect.simps [simp del]

definition first_clearing_elapsed ::
  "(f64 \<Rightarrow> f64) \<Rightarrow> (f64 \<Rightarrow> f64 \<Rightarrow> f64) \<Rightarrow> DecayModel \<Rightarrow> int \<Rightarrow> nat \<Rightarrow> nat option" where
  "first_clearing_elapsed libm_log libm_pow m energy_milli horizon_blocks =
     (if threshold_at libm_log libm_pow m 0 > energy_milli then Some 0
      else if threshold_at libm_log libm_pow m horizon_blocks \<le> energy_milli then None
      else Some (bisect (threshold_at libm_log libm_pow m) energy_milli 0 horizon_blocks))"

subsection \<open>The curve\<close>

definition mean_abs_unit :: "int list \<Rightarrow> f64" where
  "mean_abs_unit allowed_milli =
     (if allowed_milli = [] then Fin 0
      else f_div (f_of_int (sum_list (map abs allowed_milli)))
             (f_mul (f_of_int (int (length allowed_milli))) (Fin 1000)))"

text \<open>\<open>0.88\<close> is the double nearest to that decimal.\<close>

definition DEFAULT_H_ALPHA :: f64 where
  "DEFAULT_H_ALPHA = f_rnd (88 / 100)"

definition expected_gse_milli :: "nat \<Rightarrow> nat \<Rightarrow> f64 \<Rightarrow> int list \<Rightarrow> int list \<Rightarrow> int" where
  "expected_gse_milli num_nodes num_edges c allowed_h_milli allowed_j_milli =
     (if num_nodes = 0 \<or> num_edges = 0 then 0
      else let h_mean_abs = mean_abs_unit allowed_h_milli;
               j_mean_abs = mean_abs_unit allowed_j_milli;
               n = f_of_int (int num_nodes);
               m = f_of_int (int num_edges);
               avg_degree = f_div (f_mul (Fin 2) m) n;
               sqrt_avg_degree = f_sqrt avg_degree;
               j_contribution = f_mul (f_mul (f_mul (f_neg c) j_mean_abs) sqrt_avg_degree) n;
               h_contribution = f_div (f_mul (f_mul (f_mul (f_neg c) DEFAULT_H_ALPHA) h_mean_abs) n) sqrt_avg_degree
           in f_to_i64 (f_round (f_mul (f_add j_contribution h_contribution) (Fin 1000))))"

definition curve_from_topology ::
  "nat \<Rightarrow> nat \<Rightarrow> nat \<Rightarrow> nat \<Rightarrow> nat \<Rightarrow> int list \<Rightarrow> int list \<Rightarrow> EnergyCurve" where
  "curve_from_topology num_nodes num_edges c_easy_milli c_knee_milli c_hard_milli allowed_h_milli allowed_j_milli =
     (let gse = (\<lambda>c_milli. expected_gse_milli num_nodes num_edges
                   (f_div (f_of_int (int c_milli)) (Fin 1000)) allowed_h_milli allowed_j_milli)
      in \<lparr> ec_min_milli = gse c_hard_milli, ec_knee_milli = gse c_knee_milli, ec_max_milli = gse c_easy_milli \<rparr>)"

subsection \<open>Searching a schedule\<close>

lemma bisect_bracket:
  "th lo \<le> e \<Longrightarrow> e < th hi \<Longrightarrow> lo < hi \<Longrightarrow>
     lo < bisect th e lo hi \<and> bisect th e lo hi \<le> hi
     \<and> e < th (bisect th e lo hi) \<and> th (bisect th e lo hi - 1) \<le> e"
proof (induction th e lo hi rule: bisect.induct)
  case (1 th e lo hi)
  show ?case
  proof (cases "hi - lo > 1")
    case False
    with "1.prems" have "hi = Suc lo" by simp
    with "1.prems" False show ?thesis by (simp add: bisect.simps)
  next
    case True
    define mid where "mid = lo + (hi - lo) div 2"
    have "lo < mid" "mid < hi" using True by (auto simp: mid_def)
    then show ?thesis
      using "1.IH" [OF True mid_def] "1.prems" True
      by (subst (1 2 3 4) bisect.simps) (auto simp: Let_def mid_def [symmetric] not_less)
  qed
qed

text \<open>
  A family of threshold schedules that only ever ease. \<open>ok\<close> are the parameters for which the
  schedule is known to be monotone.
\<close>

locale easing_schedule =
  fixes ok :: "'m \<Rightarrow> bool" and th :: "'m \<Rightarrow> nat \<Rightarrow> int"
  assumes eases: "ok m \<Longrightarrow> t \<le> t' \<Longrightarrow> th m t \<le> th m t'"
begin

lemma clears_stays: "ok m \<Longrightarrow> e < th m t \<Longrightarrow> t \<le> t' \<Longrightarrow> e < th m t'"
  using eases by (meson less_le_trans)

lemma bisect_least:
  assumes "ok m" "th m 0 \<le> e" "e < th m h"
  shows "bisect (th m) e 0 h = (LEAST t. e < th m t)"
proof -
  have "0 < h" using assms by (cases h) auto
  note b = bisect_bracket [OF assms(2,3) this]
  have "bisect (th m) e 0 h \<le> t" if "e < th m t" for t
  proof (rule ccontr)
    assume "\<not> bisect (th m) e 0 h \<le> t"
    then have "t \<le> bisect (th m) e 0 h - 1" by simp
    from clears_stays [OF assms(1) that this] b show False by simp
  qed
  with b show ?thesis by (intro Least_equality [symmetric]) auto
qed

lemma never_within: "ok m \<Longrightarrow> th m h \<le> e \<Longrightarrow> t \<le> h \<Longrightarrow> th m t \<le> e"
  using eases by (meson order_trans)

end

subsection \<open>The stepwise rule\<close>

lemma geometric_floored_ge: "min_delta \<le> geometric_floored room rate min_delta"
  by (simp add: geometric_floored_def Let_def)

lemma ease_step_bounds:
  assumes "is_i64 cur" "is_i64 (ec_max_milli curve)"
  shows "cur \<le> ease_step cur curve" "is_i64 (ease_step cur curve)"
    "ec_min_milli curve < ec_max_milli curve \<Longrightarrow> cur \<le> ec_max_milli curve \<Longrightarrow>
       ease_step cur curve \<le> ec_max_milli curve
       \<and> min (cur + 1000) (ec_max_milli curve) \<le> ease_step cur curve"
proof -
  let ?room = "sat_sub_i64 (ec_max_milli curve) cur"
  define g where "g = geometric_floored ?room DECAY_RATE_MILLI MIN_ENERGY_DELTA_MILLI"
  have g: "1000 \<le> g" using geometric_floored_ge [of MIN_ENERGY_DELTA_MILLI] by (simp add: g_def MIN_ENERGY_DELTA_MILLI_def)
  have e: "ease_step cur curve = (if ec_max_milli curve \<le> ec_min_milli curve \<or> ?room \<le> 0 then cur
      else sat_add_i64 cur (min g ?room))"
    by (simp add: ease_step_def Let_def g_def)
  note defs = sat_add_i64_def sat_sub_i64_def clamp_i64_def is_i64_def
  show "cur \<le> ease_step cur curve" "is_i64 (ease_step cur curve)"
    using assms g unfolding e by (auto simp: defs min_def max_def)
  show "ease_step cur curve \<le> ec_max_milli curve
       \<and> min (cur + 1000) (ec_max_milli curve) \<le> ease_step cur curve"
    if "ec_min_milli curve < ec_max_milli curve" "cur \<le> ec_max_milli curve"
    using assms g that unfolding e by (auto simp: defs min_def max_def)
qed

lemma ease_stepwise_ge:
  "is_i64 cur \<Longrightarrow> is_i64 (ec_max_milli curve) \<Longrightarrow>
     cur \<le> ease_stepwise cur n curve \<and> is_i64 (ease_stepwise cur n curve)"
  by (induction n arbitrary: cur) (auto intro: order_trans ease_step_bounds)

lemma ease_stepwise_add:
  "ease_stepwise cur (m + n) curve = ease_stepwise (ease_stepwise cur m curve) n curve"
  by (induction m arbitrary: cur) auto

lemma ease_stepwise_mono:
  assumes "is_i64 cur" "is_i64 (ec_max_milli curve)" "m \<le> n"
  shows "ease_stepwise cur m curve \<le> ease_stepwise cur n curve"
proof -
  obtain k where n: "n = m + k" using assms(3) le_Suc_ex by blast
  show ?thesis
    unfolding n ease_stepwise_add
    using ease_stepwise_ge [OF conjunct2 [OF ease_stepwise_ge [OF assms(1,2), of m]] assms(2)] by blast
qed

lemma ease_stepwise_progress:
  "is_i64 cur \<Longrightarrow> is_i64 (ec_max_milli curve) \<Longrightarrow> ec_min_milli curve < ec_max_milli curve \<Longrightarrow>
   cur \<le> ec_max_milli curve \<Longrightarrow>
     ease_stepwise cur n curve \<le> ec_max_milli curve
     \<and> min (cur + 1000 * int n) (ec_max_milli curve) \<le> ease_stepwise cur n curve"
proof (induction n arbitrary: cur)
  case (Suc n)
  note b = ease_step_bounds [OF Suc.prems(1,2)]
  from Suc.IH [OF b(2) Suc.prems(2,3)] b(3) [OF Suc.prems(3,4)] show ?case
    by (auto simp: min_def split: if_splits)
qed simp

definition stepwise_model :: "DecayModel \<Rightarrow> bool" where
  "stepwise_model m \<longleftrightarrow> dm_algorithm m = Stepwise \<and> is_i64 (dm_base_max_energy_milli m)
     \<and> (case dm_curve m of None \<Rightarrow> True | Some c \<Rightarrow> is_i64 (ec_max_milli c))"

interpretation stepwise: easing_schedule stepwise_model "threshold_at libm_log libm_pow" for libm_log libm_pow
  by unfold_locales
     (auto simp: stepwise_model_def threshold_at_def intro!: ease_stepwise_mono div_le_mono split: option.splits)

lemma first_clearing_Some:
  assumes "first_clearing_elapsed libm_log libm_pow m energy horizon = Some r"
  shows "r \<le> horizon \<and> energy < threshold_at libm_log libm_pow m r"
  using assms bisect_bracket [of "threshold_at libm_log libm_pow m" 0 energy horizon]
  by (cases horizon) (auto simp: first_clearing_elapsed_def not_less not_le split: if_splits)

text \<open>
  The projection brackets the clearing block, under every rule and whatever \<open>log\<close> and \<open>pow\<close>
  compute: an answer lies within the horizon, the threshold there admits the energy and one block
  earlier it does not; without an answer neither the start nor the horizon admits it.
\<close>
theorem first_clearing_bracket:
  "case first_clearing_elapsed libm_log libm_pow m energy horizon of
     None \<Rightarrow> threshold_at libm_log libm_pow m 0 \<le> energy \<and> threshold_at libm_log libm_pow m horizon \<le> energy
   | Some r \<Rightarrow> r \<le> horizon \<and> energy < threshold_at libm_log libm_pow m r
       \<and> (r = 0 \<or> threshold_at libm_log libm_pow m (r - 1) \<le> energy)"
proof (cases "threshold_at libm_log libm_pow m 0 \<le> energy \<and> energy < threshold_at libm_log libm_pow m horizon")
  case True
  then have "0 < horizon" by (cases horizon) auto
  from bisect_bracket [OF conjunct1 [OF True] conjunct2 [OF True] this] True show ?thesis
    by (simp add: first_clearing_elapsed_def not_less [symmetric])
next
  case False
  then show ?thesis by (auto simp: first_clearing_elapsed_def not_less)
qed

text \<open>
  C29. Under the stepwise rule the projection is exact: it returns the first block at which the
  threshold admits the energy, and returns nothing exactly when no block within the horizon does.
\<close>
theorem first_clearing_stepwise_exact:
  assumes "stepwise_model m"
  shows "first_clearing_elapsed libm_log libm_pow m energy horizon =
     (if \<exists>t \<le> horizon. energy < threshold_at libm_log libm_pow m t
      then Some (LEAST t. energy < threshold_at libm_log libm_pow m t) else None)"
proof (cases "threshold_at libm_log libm_pow m 0 \<le> energy \<and> energy < threshold_at libm_log libm_pow m horizon")
  case True
  then show ?thesis
    using stepwise.bisect_least [OF assms, of libm_log libm_pow energy horizon]
    by (auto simp: first_clearing_elapsed_def)
next
  case out: False
  show ?thesis
  proof (cases "energy < threshold_at libm_log libm_pow m 0")
    case True
    then show ?thesis by (auto simp: first_clearing_elapsed_def intro: Least_eq_0 [symmetric])
  next
    case False
    with out have h: "threshold_at libm_log libm_pow m horizon \<le> energy" by simp
    have "threshold_at libm_log libm_pow m t \<le> energy" if "t \<le> horizon" for t
      using stepwise.never_within [OF assms h that] .
    with False h show ?thesis by (auto simp: first_clearing_elapsed_def dest: leD)
  qed
qed

definition ex_decay :: DecayModel where
  "ex_decay = \<lparr> dm_base_max_energy_milli = - 5000,
     dm_curve = Some \<lparr> ec_min_milli = - 9000, ec_knee_milli = - 7000, ec_max_milli = - 3500 \<rparr>,
     dm_epoch_length = 100, dm_algorithm = Stepwise \<rparr>"

theorem first_clearing_stepwise_exact_witness:
  "first_clearing_elapsed (\<lambda>_. Fin 0) (\<lambda>_ _. Fin 1) ex_decay (- 6000) 1000 = Some 0"
  using first_clearing_stepwise_exact [of ex_decay "\<lambda>_. Fin 0" "\<lambda>_ _. Fin 1" "- 6000" 1000]
  by (auto simp: stepwise_model_def ex_decay_def is_i64_def threshold_at_def first_clearing_elapsed_def)

text \<open>
  The stepwise threshold never eases past the easy bound of the curve and eases by at least one
  energy unit per epoch until it is there: after as many epochs as the remaining room has units it
  equals the bound.
\<close>
theorem stepwise_reaches_cap:
  assumes "is_i64 base" "is_i64 (ec_max_milli curve)" "ec_min_milli curve < ec_max_milli curve"
    "base \<le> ec_max_milli curve"
  shows "base \<le> ease_stepwise base n curve \<and> ease_stepwise base n curve \<le> ec_max_milli curve
     \<and> (ec_max_milli curve - base \<le> 1000 * int n \<longrightarrow> ease_stepwise base n curve = ec_max_milli curve)"
  using ease_stepwise_progress [OF assms, of n] ease_stepwise_ge [OF assms(1,2), of n] by auto

theorem stepwise_reaches_cap_witness:
  "ease_stepwise (- 5000) 2 \<lparr> ec_min_milli = - 9000, ec_knee_milli = - 7000, ec_max_milli = - 3500 \<rparr> = - 3500"
  using stepwise_reaches_cap [of "- 5000" "\<lparr> ec_min_milli = - 9000, ec_knee_milli = - 7000, ec_max_milli = - 3500 \<rparr>" 2]
  by (simp add: is_i64_def)

lemma ease_room_le: "ease_room l p room blocks epoch rate \<le> max 0 room"
  by (auto simp: ease_room_def Let_def)

text \<open>
  The gated rule holds the base threshold through block 100 of a round, and at no block does it
  ease past the easy bound, whatever \<open>log\<close> and \<open>pow\<close> compute.
\<close>
theorem gated_holds_and_caps:
  assumes "dm_algorithm m = Gated" "dm_curve m = Some curve"
    "is_i64 (dm_base_max_energy_milli m)" "is_i64 (ec_max_milli curve)"
  shows "(t \<le> 100 \<longrightarrow> threshold_at libm_log libm_pow m t = dm_base_max_energy_milli m)
     \<and> threshold_at libm_log libm_pow m t \<le> max (dm_base_max_energy_milli m) (ec_max_milli curve)"
proof -
  let ?b = "dm_base_max_energy_milli m"
  have "sat_add_i64 ?b (ease_room libm_log libm_pow (sat_sub_i64 (ec_max_milli curve) ?b) n e r)
      \<le> max ?b (ec_max_milli curve)" for n e r
    using ease_room_le [of libm_log libm_pow "sat_sub_i64 (ec_max_milli curve) ?b" n e r] assms(3,4)
    by (auto simp: sat_add_i64_def sat_sub_i64_def clamp_i64_def is_i64_def min_def max_def split: if_splits)
  then show ?thesis
    using assms(1,2) by (auto simp: threshold_at_def ease_gated_def Let_def TARGET_PROOF_BLOCKS_def)
qed

theorem gated_holds_and_caps_witness:
  "threshold_at (\<lambda>_. Fin 0) (\<lambda>_ _. Fin 1) (ex_decay\<lparr>dm_algorithm := Gated\<rparr>) 100 = - 5000"
  using gated_holds_and_caps [of "ex_decay\<lparr>dm_algorithm := Gated\<rparr>"
      "\<lparr> ec_min_milli = - 9000, ec_knee_milli = - 7000, ec_max_milli = - 3500 \<rparr>" 100 "\<lambda>_. Fin 0" "\<lambda>_ _. Fin 1"]
  by (simp add: ex_decay_def is_i64_def)

end
