(* ===== verification/Stash.thy ===== *)
theory Stash
  imports Validate Decay Extrinsic Ledger
begin

text \<open>
  \<open>stash.rs\<close>: the win-time stash. It keeps the \<open>k\<close> lowest-energy candidates of a generation,
  best first, and projects for each the block at which the easing threshold admits it. The
  lemmas show that it keeps exactly the best, that a candidate offered for submission is due
  under the model and improves on the round's best, and that every call preserves the order.
\<close>

definition DECAY_HORIZON_BLOCKS :: nat where
  "DECAY_HORIZON_BLOCKS = 25600"

record Candidate =
  ca_job_id :: bytes
  ca_salt :: "bytes option"
  ca_generation :: nat
  ca_best_energy_milli :: int
  ca_diversity_milli :: nat
  ca_n_valid :: nat
  ca_solutions :: "SpinRow list"
  ca_is_pow :: bool
  ca_order_id :: bytes
  ca_device_access_time_us :: nat
  ca_submitted :: bool

record WinStash =
  ws_generation :: nat
  ws_model :: "DecayModel option"
  ws_last_proof_block :: nat
  ws_k :: nat
  ws_candidates :: "Candidate list"

definition new_stash :: "nat \<Rightarrow> WinStash" where
  "new_stash k =
     \<lparr> ws_generation = 0, ws_model = None, ws_last_proof_block = 0, ws_k = max k 1, ws_candidates = [] \<rparr>"

definition reset_stash :: "nat \<Rightarrow> DecayModel option \<Rightarrow> nat \<Rightarrow> WinStash \<Rightarrow> WinStash" where
  "reset_stash generation model last_proof_block s =
     s\<lparr>ws_generation := generation, ws_model := model, ws_last_proof_block := last_proof_block,
       ws_candidates := []\<rparr>"

definition set_algorithm :: "DecayAlgorithm \<Rightarrow> WinStash \<Rightarrow> bool \<times> WinStash" where
  "set_algorithm algorithm s =
     (case ws_model s of
        Some m \<Rightarrow> if dm_algorithm m \<noteq> algorithm
                  then (True, s\<lparr>ws_model := Some (m\<lparr>dm_algorithm := algorithm\<rparr>)\<rparr>) else (False, s)
      | None \<Rightarrow> (False, s))"

definition stash_algorithm :: "WinStash \<Rightarrow> DecayAlgorithm option" where
  "stash_algorithm s = map_option dm_algorithm (ws_model s)"

definition viability_block ::
  "(f64 \<Rightarrow> f64) \<Rightarrow> (f64 \<Rightarrow> f64 \<Rightarrow> f64) \<Rightarrow> WinStash \<Rightarrow> int \<Rightarrow> nat option" where
  "viability_block libm_log libm_pow s energy_milli =
     (case ws_model s of
        None \<Rightarrow> None
      | Some model \<Rightarrow>
          map_option (\<lambda>elapsed. sat_add_u64 (ws_last_proof_block s) elapsed)
            (first_clearing_elapsed libm_log libm_pow model energy_milli DECAY_HORIZON_BLOCKS))"

definition stash_insert ::
  "(f64 \<Rightarrow> f64) \<Rightarrow> (f64 \<Rightarrow> f64 \<Rightarrow> f64) \<Rightarrow> Candidate \<Rightarrow> WinStash \<Rightarrow> bool \<times> WinStash" where
  "stash_insert libm_log libm_pow cand s =
     (if viability_block libm_log libm_pow s (ca_best_energy_milli cand) = None then (False, s)
      else let cs = take (ws_k s) (sort_key ca_best_energy_milli (ws_candidates s @ [cand]))
           in (list_ex (\<lambda>c. ca_job_id c = ca_job_id cand) cs, s\<lparr>ws_candidates := cs\<rparr>))"

definition is_due ::
  "(f64 \<Rightarrow> f64) \<Rightarrow> (f64 \<Rightarrow> f64 \<Rightarrow> f64) \<Rightarrow> WinStash \<Rightarrow> nat \<Rightarrow> Candidate \<Rightarrow> bool" where
  "is_due libm_log libm_pow s current_block c \<longleftrightarrow>
     \<not> ca_submitted c
     \<and> (case viability_block libm_log libm_pow s (ca_best_energy_milli c) of
          None \<Rightarrow> False | Some b \<Rightarrow> b \<le> current_block)"

definition due_at ::
  "(f64 \<Rightarrow> f64) \<Rightarrow> (f64 \<Rightarrow> f64 \<Rightarrow> f64) \<Rightarrow> WinStash \<Rightarrow> nat \<Rightarrow> Candidate option" where
  "due_at libm_log libm_pow s current_block = find (is_due libm_log libm_pow s current_block) (ws_candidates s)"

definition due_improving ::
  "(f64 \<Rightarrow> f64) \<Rightarrow> (f64 \<Rightarrow> f64 \<Rightarrow> f64) \<Rightarrow> WinStash \<Rightarrow> nat \<Rightarrow> int option \<Rightarrow> Candidate option" where
  "due_improving libm_log libm_pow s current_block current_best =
     (case due_at libm_log libm_pow s current_block of
        None \<Rightarrow> None
      | Some c \<Rightarrow>
          if (case current_best of None \<Rightarrow> True | Some b \<Rightarrow> ca_best_energy_milli c < b) then Some c else None)"

fun mark_first :: "bytes \<Rightarrow> Candidate list \<Rightarrow> Candidate list" where
  "mark_first job_id [] = []"
| "mark_first job_id (c # cs) =
     (if ca_job_id c = job_id then c\<lparr>ca_submitted := True\<rparr> # cs else c # mark_first job_id cs)"

definition mark_submitted :: "bytes \<Rightarrow> WinStash \<Rightarrow> WinStash" where
  "mark_submitted job_id s = s\<lparr>ws_candidates := mark_first job_id (ws_candidates s)\<rparr>"

record CandidateSummary =
  cs_job_id :: string
  cs_best_energy_milli :: int
  cs_diversity_milli :: nat
  cs_n_valid :: nat
  cs_viability_block :: "nat option"
  cs_submitted :: bool

record StashSummary =
  ss_generation :: nat
  ss_last_proof_block :: nat
  ss_epoch_length :: nat
  ss_decay_algorithm :: string
  ss_candidates :: "CandidateSummary list"

definition stash_summary :: "(f64 \<Rightarrow> f64) \<Rightarrow> (f64 \<Rightarrow> f64 \<Rightarrow> f64) \<Rightarrow> WinStash \<Rightarrow> StashSummary" where
  "stash_summary libm_log libm_pow s =
     \<lparr> ss_generation = ws_generation s,
       ss_last_proof_block = ws_last_proof_block s,
       ss_epoch_length = (case ws_model s of None \<Rightarrow> 0 | Some m \<Rightarrow> dm_epoch_length m),
       ss_decay_algorithm = (case ws_model s of None \<Rightarrow> ''none'' | Some m \<Rightarrow> algorithm_label (dm_algorithm m)),
       ss_candidates = map (\<lambda>c.
         \<lparr> cs_job_id = hex_plain (ca_job_id c),
           cs_best_energy_milli = ca_best_energy_milli c,
           cs_diversity_milli = ca_diversity_milli c,
           cs_n_valid = ca_n_valid c,
           cs_viability_block = viability_block libm_log libm_pow s (ca_best_energy_milli c),
           cs_submitted = ca_submitted c \<rparr>) (ws_candidates s) \<rparr>"

definition retained_band_milli :: "StashSummary \<Rightarrow> (int \<times> int) option" where
  "retained_band_milli s =
     (case ss_candidates s of
        [] \<Rightarrow> None
      | c # cs \<Rightarrow> Some (cs_best_energy_milli (last (c # cs)), cs_best_energy_milli c))"

subsection \<open>Calls and the invariant\<close>

datatype StashOp =
    StReset nat "DecayModel option" nat
  | StSetAlgorithm DecayAlgorithm
  | StInsert Candidate
  | StMark bytes

fun stash_step :: "(f64 \<Rightarrow> f64) \<Rightarrow> (f64 \<Rightarrow> f64 \<Rightarrow> f64) \<Rightarrow> StashOp \<Rightarrow> WinStash \<Rightarrow> bool \<times> WinStash" where
  "stash_step l p (StReset g m b) s = (True, reset_stash g m b s)"
| "stash_step l p (StSetAlgorithm a) s = set_algorithm a s"
| "stash_step l p (StInsert c) s = stash_insert l p c s"
| "stash_step l p (StMark j) s = (True, mark_submitted j s)"

definition stash_ok :: "WinStash \<Rightarrow> bool" where
  "stash_ok s \<longleftrightarrow> 1 \<le> ws_k s \<and> length (ws_candidates s) \<le> ws_k s
     \<and> sorted (map ca_best_energy_milli (ws_candidates s))"

lemma map_energy_mark [simp]:
  "map ca_best_energy_milli (mark_first j cs) = map ca_best_energy_milli cs"
  "length (mark_first j cs) = length cs"
  by (induction cs) auto

lemma stash_ok_step: "stash_ok s \<Longrightarrow> stash_ok (snd (stash_step l p op s))"
proof (cases op)
  case (StInsert c)
  have "sorted (map ca_best_energy_milli (take n (sort_key ca_best_energy_milli xs)))" for n and xs :: "Candidate list"
    using sorted_wrt_take [OF sorted_sort_key [of ca_best_energy_milli xs]] by (simp add: take_map)
  then show "stash_ok s \<Longrightarrow> ?thesis"
    by (simp add: StInsert stash_ok_def stash_insert_def Let_def)
qed (auto simp: stash_ok_def reset_stash_def set_algorithm_def mark_submitted_def split: option.splits)

interpretation stash: stepper "stash_step l p" stash_ok for l p
  by unfold_locales (rule stash_ok_step)

lemma stash_ok_new: "stash_ok (new_stash k)"
  by (simp add: stash_ok_def new_stash_def)

subsection \<open>The best are kept\<close>

lemma take_insort_take:
  fixes x :: "'a :: linorder"
  assumes "sorted xs"
  shows "take k (insort x (take k xs)) = take k (insort x xs)"
  using assms
proof (induction xs arbitrary: k)
  case (Cons y ys)
  have "take n (y # take n ys) = take n (y # ys)" for n
    by (cases n) (simp_all add: min_def)
  with Cons show ?case by (cases k) auto
qed simp

lemma sort_key_energies:
  fixes cs :: "Candidate list"
  shows "map ca_best_energy_milli (sort_key ca_best_energy_milli cs) = sort (map ca_best_energy_milli cs)"
  by (rule properties_for_sort [symmetric]) simp_all

definition insert_all ::
  "(f64 \<Rightarrow> f64) \<Rightarrow> (f64 \<Rightarrow> f64 \<Rightarrow> f64) \<Rightarrow> Candidate list \<Rightarrow> WinStash \<Rightarrow> WinStash" where
  "insert_all l p cs s = snd (run_steps (stash_step l p) (map StInsert cs) s)"

lemma stash_insert_fields:
  "ws_k (snd (stash_insert l p c s)) = ws_k s"
  "viability_block l p (snd (stash_insert l p c s)) e = viability_block l p s e"
  by (auto simp: stash_insert_def viability_block_def Let_def cong: option.case_cong)

lemma stash_insert_energies:
  "map ca_best_energy_milli (ws_candidates (snd (stash_insert l p c s))) =
     (if viability_block l p s (ca_best_energy_milli c) = None then map ca_best_energy_milli (ws_candidates s)
      else take (ws_k s) (sort (map ca_best_energy_milli (ws_candidates s) @ [ca_best_energy_milli c])))"
  by (simp add: stash_insert_def Let_def take_map [symmetric] sort_key_energies del: sort_key_simps)

lemma sort_snoc: "sort (xs @ [x]) = insort x (sort xs)" for x :: "'a :: linorder"
  by (rule properties_for_sort) (simp_all add: sorted_insort)

lemma insert_all_energies:
  "stash_ok s \<Longrightarrow> map ca_best_energy_milli (ws_candidates (insert_all l p cs s)) =
     take (ws_k s) (sort (map ca_best_energy_milli (ws_candidates s)
        @ filter (\<lambda>e. viability_block l p s e \<noteq> None) (map ca_best_energy_milli cs)))"
proof (induction cs arbitrary: s)
  case Nil
  then show ?case by (simp add: insert_all_def stash_ok_def sorted_sort_id)
next
  case (Cons c cs)
  let ?s = "snd (stash_insert l p c s)"
  let ?E = "map ca_best_energy_milli" and ?v = "\<lambda>e. viability_block l p s e \<noteq> None"
  have step: "insert_all l p (c # cs) s = insert_all l p cs ?s"
    by (simp add: insert_all_def run_steps_Cons)
  have ok: "stash_ok ?s" using stash_ok_step [OF Cons.prems, of l p "StInsert c"] by simp
  have ih: "?E (ws_candidates (insert_all l p cs ?s)) =
      take (ws_k s) (sort (?E (ws_candidates ?s) @ filter ?v (?E cs)))"
    using Cons.IH [OF ok] by (simp only: stash_insert_fields)
  show ?case
  proof (cases "?v (ca_best_energy_milli c)")
    case False
    then show ?thesis unfolding step ih by (simp add: stash_insert_energies)
  next
    case True
    have "take k (sort (take k xs @ ys)) = take k (sort (xs @ ys))" if "sorted xs" for k and xs ys :: "int list"
      using that
    proof (induction ys rule: rev_induct)
      case Nil
      then show ?case by (simp add: sorted_sort_id sorted_wrt_take)
    next
      case (snoc y ys)
      have "take k (insort y (sort (take k xs @ ys))) = take k (insort y (take k (sort (take k xs @ ys))))"
        by (rule take_insort_take [symmetric]) simp
      also have "\<dots> = take k (insort y (take k (sort (xs @ ys))))" using snoc by simp
      also have "\<dots> = take k (insort y (sort (xs @ ys)))" by (rule take_insort_take) simp
      finally show ?case by (simp only: append_assoc [symmetric] sort_snoc)
    qed
    note cut = this [OF sorted_sort]
    have "?E (ws_candidates ?s) = take (ws_k s) (sort (?E (ws_candidates s) @ [ca_best_energy_milli c]))"
      using True by (auto simp: stash_insert_energies)
    then have "?E (ws_candidates (insert_all l p cs ?s)) =
        take (ws_k s) (sort (sort (?E (ws_candidates s) @ [ca_best_energy_milli c]) @ filter ?v (?E cs)))"
      unfolding ih by (simp only: cut)
    also have "sort (sort (?E (ws_candidates s) @ [ca_best_energy_milli c]) @ filter ?v (?E cs))
        = sort (?E (ws_candidates s) @ [ca_best_energy_milli c] @ filter ?v (?E cs))"
      by (rule properties_for_sort) simp_all
    finally show ?thesis using True by (simp add: step)
  qed
qed

text \<open>
  C28. The stash keeps the best: after any candidates are inserted into an armed stash, the held
  energies are exactly the \<open>k\<close> lowest among those that clear within the horizon, in ascending
  order, whatever the order of arrival.
\<close>
theorem stash_keeps_best:
  "map ca_best_energy_milli (ws_candidates (insert_all libm_log libm_pow cs (reset_stash g m b (new_stash k))))
     = take (max k 1) (sort (filter
         (\<lambda>e. viability_block libm_log libm_pow (reset_stash g m b (new_stash k)) e \<noteq> None)
         (map ca_best_energy_milli cs)))"
  using insert_all_energies [OF stash_ok_step [OF stash_ok_new, of libm_log libm_pow "StReset g m b" k], of libm_log libm_pow cs]
  by (simp add: reset_stash_def new_stash_def)

subsection \<open>Due candidates\<close>

lemma find_sorted:
  assumes "find P xs = Some x" "sorted (map f xs)"
  shows "x \<in> set xs \<and> P x \<and> (\<forall>y \<in> set xs. P y \<longrightarrow> f x \<le> f y)"
  using assms by (induction xs) (auto split: if_splits)

text \<open>
  What the stash offers for submission, after any sequence of calls, is due and improves the
  round: an unsubmitted candidate of least energy among the due ones, strictly below the round's
  best, for which at its clearing block (already reached) the model's threshold exceeds the
  energy. When it offers nothing, no unsubmitted due candidate improves the round.
\<close>
theorem due_improving_spec:
  assumes s: "s = snd (run_steps (stash_step libm_log libm_pow) ops (new_stash k))"
  shows "case due_improving libm_log libm_pow s now best of
     Some c \<Rightarrow> c \<in> set (ws_candidates s) \<and> \<not> ca_submitted c
       \<and> (\<forall>b. best = Some b \<longrightarrow> ca_best_energy_milli c < b)
       \<and> (\<forall>d \<in> set (ws_candidates s). is_due libm_log libm_pow s now d
            \<longrightarrow> ca_best_energy_milli c \<le> ca_best_energy_milli d)
       \<and> (\<exists>m t. ws_model s = Some m \<and> t \<le> DECAY_HORIZON_BLOCKS
            \<and> sat_add_u64 (ws_last_proof_block s) t \<le> now
            \<and> ca_best_energy_milli c < threshold_at libm_log libm_pow m t)
   | None \<Rightarrow> (\<forall>d \<in> set (ws_candidates s). is_due libm_log libm_pow s now d
       \<longrightarrow> (\<exists>b. best = Some b \<and> b \<le> ca_best_energy_milli d))"
proof -
  have "stash_ok s" unfolding s by (rule stash.run_wf [OF stash_ok_new])
  then have srt: "sorted (map ca_best_energy_milli (ws_candidates s))" by (simp add: stash_ok_def)
  show ?thesis
  proof (cases "due_at libm_log libm_pow s now")
    case None
    then have "\<forall>d \<in> set (ws_candidates s). \<not> is_due libm_log libm_pow s now d"
      by (simp add: due_at_def find_None_iff)
    with None show ?thesis by (simp add: due_improving_def)
  next
    case (Some c)
    then have c: "c \<in> set (ws_candidates s) \<and> is_due libm_log libm_pow s now c
        \<and> (\<forall>d \<in> set (ws_candidates s). is_due libm_log libm_pow s now d
             \<longrightarrow> ca_best_energy_milli c \<le> ca_best_energy_milli d)"
      unfolding due_at_def by (rule find_sorted [OF _ srt])
    have "\<exists>m t. ws_model s = Some m \<and> t \<le> DECAY_HORIZON_BLOCKS
        \<and> sat_add_u64 (ws_last_proof_block s) t \<le> now
        \<and> ca_best_energy_milli c < threshold_at libm_log libm_pow m t"
      using c by (auto simp: is_due_def viability_block_def split: option.splits dest!: first_clearing_Some)
    with Some c show ?thesis
      by (auto simp: due_improving_def is_due_def split: option.splits)
  qed
qed

definition ex_candidate :: Candidate where
  "ex_candidate = \<lparr> ca_job_id = [1], ca_salt = None, ca_generation = 1, ca_best_energy_milli = - 6000,
     ca_diversity_milli = 300, ca_n_valid = 2, ca_solutions = [], ca_is_pow = True, ca_order_id = [],
     ca_device_access_time_us = 0, ca_submitted = False \<rparr>"

theorem due_improving_spec_witness:
  "due_improving (\<lambda>_. Fin 0) (\<lambda>_ _. Fin 1)
     (snd (run_steps (stash_step (\<lambda>_. Fin 0) (\<lambda>_ _. Fin 1))
        [StReset 1 (Some ex_decay) 10, StInsert ex_candidate] (new_stash 4))) 10 (Some (- 5500)) \<noteq> None"
proof
  let ?s = "snd (run_steps (stash_step (\<lambda>_. Fin 0) (\<lambda>_ _. Fin 1))
        [StReset 1 (Some ex_decay) 10, StInsert ex_candidate] (new_stash 4))"
  assume n: "due_improving (\<lambda>_. Fin 0) (\<lambda>_ _. Fin 1) ?s 10 (Some (- 5500)) = None"
  have s: "?s = \<lparr> ws_generation = 1, ws_model = Some ex_decay, ws_last_proof_block = 10, ws_k = 4,
      ws_candidates = [ex_candidate] \<rparr>"
    by (simp add: run_steps_Cons reset_stash_def new_stash_def stash_insert_def viability_block_def Let_def
        first_clearing_elapsed_def threshold_at_def ex_decay_def ex_candidate_def)
  have "is_due (\<lambda>_. Fin 0) (\<lambda>_ _. Fin 1) ?s 10 ex_candidate"
    unfolding s by (simp add: is_due_def viability_block_def first_clearing_elapsed_def threshold_at_def
        ex_decay_def ex_candidate_def sat_add_u64_def)
  with due_improving_spec [OF refl, of "\<lambda>_. Fin 0" "\<lambda>_ _. Fin 1"
      "[StReset 1 (Some ex_decay) 10, StInsert ex_candidate]" 4 10 "Some (- 5500)"] n
  show False unfolding s by (simp add: ex_candidate_def)
qed

end
