(* ===== verification/Attempt.thy ===== *)
theory Attempt
  imports Stash Validate
begin

text \<open>
  \<open>attempt.rs\<close>: the record of one mining attempt, the per-qblock summary and the writer thread. The
  data directory is a map from a path (directory segment, file name) to the file's text; JSON
  serialisation (\<open>serde_json\<close>) is an argument, the clock too, and so is what the file system does
  with each write, which may be refused or cut short. The lemmas show that the files partition the
  attempts by qblock, torn lines included.
\<close>

record AttemptRecord =
  ar_ts_ms :: nat
  ar_qblock_id :: "nat option"
  ar_generation :: nat
  ar_miner_id :: string
  ar_job_id :: string
  ar_is_pow :: bool
  ar_order_id :: string
  ar_best_energy_milli :: int
  ar_raw_best_energy_milli :: int
  ar_diversity_milli :: nat
  ar_n_valid :: nat
  ar_accepted :: bool
  ar_submitted :: bool
  ar_device_access_time_us :: nat
  ar_miner_type :: string
  ar_threshold_milli :: int
  ar_last_proof_block_hash :: string
  ar_extrinsic_hash :: "string option"
  ar_chain_block_hash :: "string option"
  ar_chain_block_number :: "nat option"
  ar_pow_sequence :: "nat option"

record AttemptContext =
  ax_miner_type :: string
  ax_threshold_milli :: int
  ax_last_proof_block_hash :: string
  ax_extrinsic_hash :: "string option"
  ax_chain_block_hash :: "string option"
  ax_chain_block_number :: "nat option"
  ax_pow_sequence :: "nat option"
  ax_device_access_time_us :: nat

definition new_attempt ::
  "nat \<Rightarrow> nat option \<Rightarrow> string \<Rightarrow> bytes \<Rightarrow> Job \<Rightarrow> Validated \<Rightarrow> bool \<Rightarrow> AttemptContext \<Rightarrow> AttemptRecord" where
  "new_attempt now_ms qblock_id miner_id job_id job v submitted ctx =
     (let (is_pow, order_id) = (case jb_provenance job of
            None \<Rightarrow> (False, [])
          | Some p \<Rightarrow> (pv_is_pow p, hex_plain (pv_order_id p)))
      in \<lparr> ar_ts_ms = now_ms,
           ar_qblock_id = qblock_id,
           ar_generation = jb_generation job,
           ar_miner_id = miner_id,
           ar_job_id = hex_plain job_id,
           ar_is_pow = is_pow,
           ar_order_id = order_id,
           ar_best_energy_milli = vd_best_energy_milli v,
           ar_raw_best_energy_milli = vd_raw_best_energy_milli v,
           ar_diversity_milli = vd_diversity_milli v,
           ar_n_valid = vd_n_valid v,
           ar_accepted = vd_accepted v,
           ar_submitted = submitted,
           ar_device_access_time_us = ax_device_access_time_us ctx,
           ar_miner_type = ax_miner_type ctx,
           ar_threshold_milli = ax_threshold_milli ctx,
           ar_last_proof_block_hash = ax_last_proof_block_hash ctx,
           ar_extrinsic_hash = ax_extrinsic_hash ctx,
           ar_chain_block_hash = ax_chain_block_hash ctx,
           ar_chain_block_number = ax_chain_block_number ctx,
           ar_pow_sequence = ax_pow_sequence ctx \<rparr>)"

record QblockSummary =
  qs_qblock_id :: "nat option"
  qs_updated_ts_ms :: nat
  qs_current_best_milli :: "int option"
  qs_results_validated :: nat
  qs_stash :: StashSummary

definition summary_body ::
  "(QblockSummary \<Rightarrow> string option) \<Rightarrow> nat \<Rightarrow> nat option \<Rightarrow> int option \<Rightarrow> nat \<Rightarrow> StashSummary \<Rightarrow> string" where
  "summary_body to_json now_ms qblock_id current_best_milli results_validated stash =
     (case to_json \<lparr> qs_qblock_id = qblock_id, qs_updated_ts_ms = now_ms,
                     qs_current_best_milli = current_best_milli,
                     qs_results_validated = results_validated, qs_stash = stash \<rparr>
      of None \<Rightarrow> [] | Some s \<Rightarrow> s)"

definition qblock_dir_name :: "nat option \<Rightarrow> string" where
  "qblock_dir_name qblock_id = (case qblock_id of None \<Rightarrow> ''pending'' | Some q \<Rightarrow> show_nat q)"

datatype WriterMsg = WAttempt AttemptRecord | WSummary "nat option" string

type_synonym files = "string \<times> string \<Rightarrow> string option"

text \<open>
  What the file system does with one write: it takes every byte, it refuses the directory or the
  file, or it opens the file and then takes only the first so many bytes. Opening \<open>attempts.jsonl\<close>
  creates it when it is missing, before the record is serialised; \<open>std::fs::write\<close> empties
  \<open>attempts.json\<close> before it writes. The result of an operation is whether it returned \<open>Ok\<close>.
\<close>

datatype IoOutcome = IoTakesAll | IoRefuses | IoTakes nat

fun io_taken :: "IoOutcome \<Rightarrow> string \<Rightarrow> string" where
  "io_taken IoTakesAll text_out = text_out"
| "io_taken IoRefuses text_out = []"
| "io_taken (IoTakes n) text_out = take n text_out"

definition append_record ::
  "(AttemptRecord \<Rightarrow> string option) \<Rightarrow> IoOutcome \<Rightarrow> AttemptRecord \<Rightarrow> files \<Rightarrow> bool \<times> files" where
  "append_record to_json io rec fs =
     (if io = IoRefuses then (False, fs)
      else let path = (qblock_dir_name (ar_qblock_id rec), ''attempts.jsonl'');
               old = (case fs path of None \<Rightarrow> [] | Some t \<Rightarrow> t)
           in case to_json rec of
                None \<Rightarrow> (False, fs(path \<mapsto> old))
              | Some line \<Rightarrow>
                  let out = line @ [CHR 0x0A]; taken = io_taken io out
                  in (taken = out, fs(path \<mapsto> old @ taken)))"

definition write_summary :: "IoOutcome \<Rightarrow> nat option \<Rightarrow> string \<Rightarrow> files \<Rightarrow> bool \<times> files" where
  "write_summary io qblock_id body fs =
     (if io = IoRefuses then (False, fs)
      else let taken = io_taken io body
           in (taken = body, fs((qblock_dir_name qblock_id, ''attempts.json'') \<mapsto> taken)))"

text \<open>One turn of the writer thread: a failed write is logged and the next message is taken.\<close>

fun writer_step ::
  "(AttemptRecord \<Rightarrow> string option) \<Rightarrow> WriterMsg \<times> IoOutcome \<Rightarrow> files \<Rightarrow> files" where
  "writer_step to_json (WAttempt rec, io) fs = snd (append_record to_json io rec fs)"
| "writer_step to_json (WSummary qblock_id body, io) fs = snd (write_summary io qblock_id body fs)"

definition spawn_writer ::
  "(AttemptRecord \<Rightarrow> string option) \<Rightarrow> (WriterMsg \<times> IoOutcome) list \<Rightarrow> files \<Rightarrow> files" where
  "spawn_writer to_json msgs fs = fold (writer_step to_json) msgs fs"

subsection \<open>The files partition the attempts by qblock\<close>

lemma show_nat_not_pending: "show_nat n \<noteq> ''pending''"
proof
  assume e: "show_nat n = ''pending''"
  obtain d cs where "show_nat n = digit_char d # cs" "d < 10" using show_nat_hd by blast
  with e have "digit_char d = CHR ''p''" "d < 10" by auto
  then have "of_char (digit_char d) = (112 :: nat)" by simp
  moreover have "of_char (digit_char d) = 48 + d" using \<open>d < 10\<close> by (simp add: digit_char_def)
  ultimately show False using \<open>d < 10\<close> by simp
qed

definition is_u64_opt :: "nat option \<Rightarrow> bool" where
  "is_u64_opt q = (case q of None \<Rightarrow> True | Some n \<Rightarrow> n \<le> u64_max)"

lemma qblock_dir_inj:
  "is_u64_opt p \<Longrightarrow> is_u64_opt q \<Longrightarrow> qblock_dir_name p = qblock_dir_name q \<longleftrightarrow> p = q"
  using show_nat_not_pending
  by (auto simp: is_u64_opt_def qblock_dir_name_def show_nat_inj split: option.splits) metis

fun msg_qblock :: "WriterMsg \<Rightarrow> nat option" where
  "msg_qblock (WAttempt r) = ar_qblock_id r"
| "msg_qblock (WSummary q _) = q"

text \<open>The attempts of a qblock among the messages, and what the file system took of each.\<close>

fun attempts_of :: "nat option \<Rightarrow> (WriterMsg \<times> IoOutcome) list \<Rightarrow> (AttemptRecord \<times> IoOutcome) list" where
  "attempts_of q [] = []"
| "attempts_of q ((WAttempt r, io) # ms) =
     (if ar_qblock_id r = q then [(r, io)] else []) @ attempts_of q ms"
| "attempts_of q ((WSummary _ _, io) # ms) = attempts_of q ms"

definition line_of :: "(AttemptRecord \<Rightarrow> string option) \<Rightarrow> AttemptRecord \<Rightarrow> string" where
  "line_of to_json r = (case to_json r of None \<Rightarrow> [] | Some l \<Rightarrow> l @ [CHR 0x0A])"

definition taken_line :: "(AttemptRecord \<Rightarrow> string option) \<Rightarrow> AttemptRecord \<times> IoOutcome \<Rightarrow> string" where
  "taken_line to_json ri = io_taken (snd ri) (line_of to_json (fst ri))"

text \<open>The texts left in the summary file by the messages of a qblock: a refused write leaves none.\<close>

fun summaries_of :: "nat option \<Rightarrow> (WriterMsg \<times> IoOutcome) list \<Rightarrow> string list" where
  "summaries_of q [] = []"
| "summaries_of q ((WSummary p body, io) # ms) =
     (if io \<noteq> IoRefuses \<and> p = q then [io_taken io body] else []) @ summaries_of q ms"
| "summaries_of q ((WAttempt _, io) # ms) = summaries_of q ms"

definition file_text :: "files \<Rightarrow> string \<times> string \<Rightarrow> string" where
  "file_text fs path = (case fs path of None \<Rightarrow> [] | Some t \<Rightarrow> t)"

abbreviation log_path :: "nat option \<Rightarrow> string \<times> string" where
  "log_path q \<equiv> (qblock_dir_name q, ''attempts.jsonl'')"

abbreviation summary_path :: "nat option \<Rightarrow> string \<times> string" where
  "summary_path q \<equiv> (qblock_dir_name q, ''attempts.json'')"

lemma last_append: "last (x # a @ b) = last (last (x # a) # b)"
  by (cases b) auto

lemma io_taken_Nil [simp]: "io_taken io [] = []"
  by (cases io) auto

lemma append_record_text:
  "file_text (snd (append_record to_json io r fs)) path
     = file_text fs path
       @ (if path = log_path (ar_qblock_id r) then taken_line to_json (r, io) else [])"
  by (auto simp: append_record_def file_text_def taken_line_def line_of_def Let_def split: option.splits)

lemma write_summary_text:
  "file_text (snd (write_summary io p body fs)) (log_path q) = file_text fs (log_path q)"
  by (simp add: write_summary_def file_text_def Let_def)

lemma append_record_ok:
  "fst (append_record to_json io r fs)
     \<longleftrightarrow> io \<noteq> IoRefuses \<and> to_json r \<noteq> None \<and> taken_line to_json (r, io) = line_of to_json r"
  by (auto simp: append_record_def taken_line_def line_of_def Let_def split: option.splits)

lemma append_record_frame:
  "snd p = ''attempts.json'' \<Longrightarrow> snd (append_record to_json io r fs) p = fs p"
  by (auto simp: append_record_def Let_def split: option.splits)

lemma writer_step_files:
  assumes "is_u64_opt q" "is_u64_opt (msg_qblock (fst m))"
  shows "file_text (writer_step to_json m fs) (log_path q)
      = file_text fs (log_path q) @ concat (map (taken_line to_json) (attempts_of q [m]))"
    "writer_step to_json m fs (summary_path q)
      = last (fs (summary_path q) # map Some (summaries_of q [m]))"
proof -
  obtain w io where m: "m = (w, io)" by (cases m)
  have i: "qblock_dir_name q = qblock_dir_name (msg_qblock w) \<longleftrightarrow> q = msg_qblock w"
    using qblock_dir_inj [OF assms] m by simp
  show "file_text (writer_step to_json m fs) (log_path q)
      = file_text fs (log_path q) @ concat (map (taken_line to_json) (attempts_of q [m]))"
    using i m by (cases w) (auto simp: append_record_text write_summary_text)
  show "writer_step to_json m fs (summary_path q)
      = last (fs (summary_path q) # map Some (summaries_of q [m]))"
    using i m by (cases w) (auto simp: append_record_frame write_summary_def Let_def)
qed

lemma of_Cons:
  "attempts_of q (m # msgs) = attempts_of q [m] @ attempts_of q msgs"
  "summaries_of q (m # msgs) = summaries_of q [m] @ summaries_of q msgs"
  by (cases m; cases "fst m"; simp)+

lemma spawn_writer_Cons:
  "spawn_writer to_json (m # msgs) fs = spawn_writer to_json msgs (writer_step to_json m fs)"
  by (simp add: spawn_writer_def)

lemma writer_log:
  assumes "is_u64_opt q" "list_all (\<lambda>m. is_u64_opt (msg_qblock (fst m))) msgs"
  shows "file_text (spawn_writer to_json msgs fs) (log_path q)
      = file_text fs (log_path q) @ concat (map (taken_line to_json) (attempts_of q msgs))
    \<and> spawn_writer to_json msgs fs (summary_path q)
      = last (fs (summary_path q) # map Some (summaries_of q msgs))"
  using assms(2)
proof (induction msgs arbitrary: fs)
  case Nil
  show ?case by (simp add: spawn_writer_def)
next
  case (Cons m msgs)
  then have u: "is_u64_opt (msg_qblock (fst m))" and us: "list_all (\<lambda>m. is_u64_opt (msg_qblock (fst m))) msgs"
    by simp_all
  note ih = Cons.IH [OF us, of "writer_step to_json m fs"]
  show ?case
    unfolding spawn_writer_Cons of_Cons(1) [of q m msgs] of_Cons(2) [of q m msgs] map_append last_append
    using ih writer_step_files [OF assms(1) u, of to_json fs]
    by (simp only: map_append concat_append append_assoc)
qed

text \<open>Whether an append returns \<open>Ok\<close> depends on the record and the file system, not on the files there are.\<close>

definition append_succeeds ::
  "(AttemptRecord \<Rightarrow> string option) \<Rightarrow> AttemptRecord \<times> IoOutcome \<Rightarrow> bool" where
  "append_succeeds to_json ri = fst (append_record to_json (snd ri) (fst ri) (\<lambda>_. None))"

lemma append_succeeds_line:
  "append_succeeds to_json (r, io) \<Longrightarrow> taken_line to_json (r, io) = the (to_json r) @ [CHR 0x0A]"
  by (auto simp: append_succeeds_def append_record_ok line_of_def)

lemma taken_line_prefix: "\<exists>n. taken_line to_json (r, io) = take n (line_of to_json r)"
proof (cases io)
  case IoTakesAll
  then show ?thesis by (auto simp: taken_line_def intro: exI [of _ "length (line_of to_json r)"])
next
  case IoRefuses
  then show ?thesis by (auto simp: taken_line_def intro: exI [of _ 0])
next
  case (IoTakes n)
  then show ?thesis by (auto simp: taken_line_def)
qed

lemma complete_lines:
  "list_all (append_succeeds to_json) ris
     \<Longrightarrow> concat (map (taken_line to_json) ris)
       = concat (map (\<lambda>(r, _). the (to_json r) @ [CHR 0x0A]) ris)"
  by (induction ris) (auto simp: append_succeeds_line)

text \<open>
  C37. The attempt log is complete and partitioned. After the writer has handled any sequence of
  messages, whatever the file system did with each write, the text of a qblock's \<open>attempts.jsonl\<close>
  is its old text followed by, for each attempt of that qblock in order, a prefix of the attempt's
  line: the whole line with its line end when the append returned \<open>Ok\<close>, the bytes the file system
  took when the write was cut short (the next line then follows on the torn one), nothing when the
  file was refused. When every append of the qblock succeeded the file has gained exactly one
  complete line per attempt. Its \<open>attempts.json\<close> is what the last summary of that qblock that got
  past opening the file left there, cut short if its write was. No attempt or summary of another
  qblock, or of the \<open>pending\<close> bucket, gets in. The ids are 64-bit, as in the source.
\<close>
theorem attempt_log_partition:
  assumes "is_u64_opt q" "list_all (\<lambda>m. is_u64_opt (msg_qblock (fst m))) msgs"
  shows "file_text (spawn_writer to_json msgs fs) (log_path q)
      = file_text fs (log_path q) @ concat (map (taken_line to_json) (attempts_of q msgs))
    \<and> (\<forall>(r, io) \<in> set (attempts_of q msgs).
           (\<exists>n. taken_line to_json (r, io) = take n (line_of to_json r))
         \<and> (append_succeeds to_json (r, io)
             \<longrightarrow> taken_line to_json (r, io) = the (to_json r) @ [CHR 0x0A]))
    \<and> (list_all (append_succeeds to_json) (attempts_of q msgs)
       \<longrightarrow> file_text (spawn_writer to_json msgs fs) (log_path q)
         = file_text fs (log_path q)
           @ concat (map (\<lambda>(r, _). the (to_json r) @ [CHR 0x0A]) (attempts_of q msgs)))
    \<and> spawn_writer to_json msgs fs (summary_path q)
      = last (fs (summary_path q) # map Some (summaries_of q msgs))"
  using writer_log [OF assms] complete_lines taken_line_prefix append_succeeds_line
  by (auto simp del: split_paired_All)

definition ex_attempt :: "nat option \<Rightarrow> string \<Rightarrow> AttemptRecord" where
  "ex_attempt q tag =
     \<lparr> ar_ts_ms = 1, ar_qblock_id = q, ar_generation = 0, ar_miner_id = tag, ar_job_id = [],
       ar_is_pow = True, ar_order_id = [], ar_best_energy_milli = - 5, ar_raw_best_energy_milli = - 5,
       ar_diversity_milli = 0, ar_n_valid = 1, ar_accepted = True, ar_submitted = False,
       ar_device_access_time_us = 0, ar_miner_type = [], ar_threshold_milli = 0,
       ar_last_proof_block_hash = [], ar_extrinsic_hash = None, ar_chain_block_hash = None,
       ar_chain_block_number = None, ar_pow_sequence = None \<rparr>"

definition ex_msgs :: "(WriterMsg \<times> IoOutcome) list" where
  "ex_msgs =
     [(WAttempt (ex_attempt (Some 7) ''ab''), IoTakesAll), (WAttempt (ex_attempt None ''cd''), IoTakesAll),
      (WSummary (Some 7) ''xyz'', IoTakesAll), (WAttempt (ex_attempt (Some 7) ''ef''), IoTakes 1),
      (WSummary None ''b'', IoTakesAll), (WAttempt (ex_attempt (Some 7) ''gh''), IoTakesAll),
      (WSummary (Some 7) ''uvw'', IoTakes 2), (WSummary (Some 7) ''no'', IoRefuses)]"

theorem attempt_log_partition_witness:
  "file_text (spawn_writer (\<lambda>r. Some (ar_miner_id r)) ex_msgs (\<lambda>_. None)) (log_path (Some 7))
     = ''ab'' @ [CHR 0x0A] @ ''egh'' @ [CHR 0x0A]
   \<and> spawn_writer (\<lambda>r. Some (ar_miner_id r)) ex_msgs (\<lambda>_. None) (summary_path (Some 7)) = Some ''uv''
   \<and> file_text (spawn_writer (\<lambda>r. Some (ar_miner_id r)) ex_msgs (\<lambda>_. None)) (log_path None)
     = ''cd'' @ [CHR 0x0A]
   \<and> spawn_writer (\<lambda>r. Some (ar_miner_id r)) ex_msgs (\<lambda>_. None) (summary_path None) = Some ''b''"
proof -
  have u: "list_all (\<lambda>m. is_u64_opt (msg_qblock (fst m))) ex_msgs"
    by (simp add: ex_msgs_def ex_attempt_def is_u64_opt_def)
  have q: "is_u64_opt (Some 7)" "is_u64_opt None" by (simp_all add: is_u64_opt_def)
  note seven = attempt_log_partition [OF q(1) u, of "\<lambda>r. Some (ar_miner_id r)" "\<lambda>_. None"]
  note pending = attempt_log_partition [OF q(2) u, of "\<lambda>r. Some (ar_miner_id r)" "\<lambda>_. None"]
  show ?thesis
    using seven pending by (simp add: ex_msgs_def ex_attempt_def file_text_def taken_line_def line_of_def)
qed

end
