(* ===== verification/Liveness.thy ===== *)
theory Liveness
  imports Ledger
begin

text \<open>
  \<open>liveness.rs\<close>: what a miner says about itself in a \<open>Status\<close>. \<open>evaluate_status\<close> folds the
  reported statistics into the last known liveness and returns the transitions worth logging.
  The lemmas show that pause and resume reports alternate over any sequence of statuses.
\<close>

record MinerLiveness =
  ml_paused :: bool
  ml_reason :: "string option"
  ml_generation :: "nat option"

definition liveness_default :: MinerLiveness where
  "liveness_default = \<lparr> ml_paused = False, ml_reason = None, ml_generation = None \<rparr>"

datatype LivenessEvent = EnteredPaused "string option" | Resumed | StaleRound nat nat

definition evaluate_status ::
  "MinerLiveness \<Rightarrow> (string, string) hmap \<Rightarrow> nat \<Rightarrow> MinerLiveness \<times> LivenessEvent list" where
  "evaluate_status prev stats current_generation =
     (let paused = (hm_get stats ''state'' = Some ''paused'');
          reason = (if paused then hm_get stats ''reason'' else None);
          generation = Option.bind (hm_get stats ''generation'') parse_u64;
          pause_events =
            (if paused \<and> \<not> ml_paused prev then [EnteredPaused reason]
             else if \<not> paused \<and> ml_paused prev then [Resumed] else []);
          stale_events =
            (case generation of
               None \<Rightarrow> []
             | Some g \<Rightarrow>
                 if current_generation > 0 \<and> g < current_generation \<and> ml_generation prev \<noteq> Some g
                 then [StaleRound g current_generation] else [])
      in (\<lparr> ml_paused = paused, ml_reason = reason, ml_generation = generation \<rparr>,
          pause_events @ stale_events))"

subsection \<open>Sequences of statuses\<close>

definition status_step ::
  "(string, string) hmap \<times> nat \<Rightarrow> MinerLiveness \<Rightarrow> LivenessEvent list \<times> MinerLiveness" where
  "status_step s l = (let (l', es) = evaluate_status l (fst s) (snd s) in (es, l'))"

fun pause_marks :: "LivenessEvent list \<Rightarrow> bool list" where
  "pause_marks [] = []"
| "pause_marks (EnteredPaused _ # es) = True # pause_marks es"
| "pause_marks (Resumed # es) = False # pause_marks es"
| "pause_marks (StaleRound _ _ # es) = pause_marks es"

text \<open>Starting from \<open>p\<close>, the marks flip it each time.\<close>

fun alternates :: "bool \<Rightarrow> bool list \<Rightarrow> bool" where
  "alternates p [] = True"
| "alternates p (b # bs) \<longleftrightarrow> b \<noteq> p \<and> alternates b bs"

lemma pause_marks_append: "pause_marks (xs @ ys) = pause_marks xs @ pause_marks ys"
  by (induction xs rule: pause_marks.induct) auto

lemma alternates_append: "alternates p (xs @ ys) \<longleftrightarrow> alternates p xs \<and> alternates (last (p # xs)) ys"
  by (induction xs arbitrary: p) auto

lemma status_step_marks:
  "alternates (ml_paused l) (pause_marks (fst (status_step s l)))
   \<and> last (ml_paused l # pause_marks (fst (status_step s l))) = ml_paused (snd (status_step s l))"
  by (auto simp: status_step_def evaluate_status_def Let_def pause_marks_append split: option.splits)

lemma status_step_stale:
  "StaleRound g cur \<in> set (fst (status_step s l)) \<Longrightarrow> cur = snd s \<and> g < cur \<and> ml_generation l \<noteq> Some g"
  by (auto simp: status_step_def evaluate_status_def Let_def split: option.splits if_splits)

text \<open>
  Over any sequence of status reports the log tells the truth about pausing: pause and resume
  events strictly alternate, the last of them is the miner's last reported state, and a
  stale-round event names a generation that is behind the round it is compared with.
\<close>
theorem liveness_events_alternate:
  "let (outs, l') = run_steps status_step ss l; marks = pause_marks (concat outs) in
     alternates (ml_paused l) marks
     \<and> last (ml_paused l # marks) = ml_paused l'
     \<and> (\<forall>es. es \<in> set outs \<longrightarrow> (\<forall>g cur. StaleRound g cur \<in> set es \<longrightarrow> g < cur))"
proof (induction ss arbitrary: l)
  case (Cons s ss)
  have h: "alternates (ml_paused l) (pause_marks (fst (status_step s l)))"
      "last (ml_paused l # pause_marks (fst (status_step s l))) = ml_paused (snd (status_step s l))"
    using status_step_marks by auto
  have lst: "last (ml_paused l # xs @ ys) = last (last (ml_paused l # xs) # ys)" for xs ys
    by (cases ys) auto
  show ?case
    using Cons.IH [of "snd (status_step s l)"] h status_step_stale [of _ _ s l]
    by (auto simp: run_steps_Cons split_def Let_def pause_marks_append alternates_append lst
             simp del: last.simps)
qed (simp add: Let_def)

definition ex_paused :: "(string, string) hmap" where
  "ex_paused = [(''state'', ''paused''), (''generation'', ''4'')]"

theorem liveness_events_alternate_witness:
  "let (outs, l') = run_steps status_step [(ex_paused, 5), ([], 5), (ex_paused, 6)] liveness_default;
       marks = pause_marks (concat outs) in
     alternates False marks \<and> last (False # marks) = ml_paused l' \<and> marks = [True, False, True]
     \<and> outs = [[EnteredPaused None, StaleRound 4 5], [Resumed], [EnteredPaused None, StaleRound 4 6]]"
proof -
  have e: "run_steps status_step [(ex_paused, 5), ([], 5), (ex_paused, 6)] liveness_default =
      ([[EnteredPaused None, StaleRound 4 5], [Resumed], [EnteredPaused None, StaleRound 4 6]],
       \<lparr> ml_paused = True, ml_reason = None, ml_generation = Some 4 \<rparr>)"
    by (simp add: run_steps.simps(2) status_step_def evaluate_status_def Let_def ex_paused_def
        liveness_default_def hm_get_def parse_u64_def digit_value_def)
  show ?thesis
    using liveness_events_alternate [of "[(ex_paused, 5), ([], 5), (ex_paused, 6)]" liveness_default]
    unfolding e Let_def prod.case by (simp add: liveness_default_def)
qed

end
