(* ===== verification/Timing.thy ===== *)
theory Timing
  imports Float64
begin

text \<open>
  \<open>timing.rs\<close>: the moving averages of block interval and network lag, the estimate of the current
  block and the deadline for a target block. Clocks are arguments, as in the source.
\<close>

record TimingTracker =
  tt_lag_min_s :: f64
  tt_lag_max_s :: f64
  tt_ema_alpha :: f64
  tt_interval_s :: f64
  tt_lag_s :: f64
  tt_anchor_block :: "nat option"
  tt_anchor_monotonic_s :: f64
  tt_prev_block :: "nat option"
  tt_prev_chain_ts_s :: f64
  tt_have_interval :: bool

definition new_timing :: "f64 \<Rightarrow> f64 \<Rightarrow> f64 \<Rightarrow> f64 \<Rightarrow> TimingTracker" where
  "new_timing fallback_interval_s lag_min_s lag_max_s ema_alpha =
     \<lparr> tt_lag_min_s = lag_min_s, tt_lag_max_s = lag_max_s, tt_ema_alpha = ema_alpha,
       tt_interval_s = fallback_interval_s, tt_lag_s = Fin 0, tt_anchor_block = None,
       tt_anchor_monotonic_s = Fin 0, tt_prev_block = None, tt_prev_chain_ts_s = Fin 0,
       tt_have_interval = False \<rparr>"

text \<open>The literal \<open>0.3\<close> is the double nearest to it.\<close>

definition timing_with_defaults :: TimingTracker where
  "timing_with_defaults = new_timing (Fin 6) (Fin 0) (Fin 12) (f_rnd (3 / 10))"

text \<open>\<open>f64::clamp\<close> panics when the bounds are out of order or not numbers.\<close>

definition f_clamp :: "f64 \<Rightarrow> f64 \<Rightarrow> f64 \<Rightarrow> f64 option" where
  "f_clamp lo hi x =
     (if \<not> f_le lo hi then None else Some (if f_less x lo then lo else if f_less hi x then hi else x))"

definition ema :: "f64 \<Rightarrow> f64 \<Rightarrow> f64 \<Rightarrow> f64" where
  "ema alpha new old = f_add (f_mul alpha new) (f_mul (f_sub (Fin 1) alpha) old)"

definition fold_interval :: "nat \<Rightarrow> f64 \<Rightarrow> TimingTracker \<Rightarrow> TimingTracker" where
  "fold_interval block_number chain_ts_s t =
     (case tt_prev_block t of
        None \<Rightarrow> t
      | Some prev \<Rightarrow>
          if block_number > prev \<and> f_less (tt_prev_chain_ts_s t) chain_ts_s
          then let observed = f_div (f_sub chain_ts_s (tt_prev_chain_ts_s t))
                                    (f_of_int (int (block_number - prev)))
               in if tt_have_interval t
                  then t\<lparr>tt_interval_s := ema (tt_ema_alpha t) observed (tt_interval_s t)\<rparr>
                  else t\<lparr>tt_interval_s := observed, tt_have_interval := True\<rparr>
          else t)"

definition observe_head :: "nat \<Rightarrow> f64 \<Rightarrow> f64 \<Rightarrow> f64 \<Rightarrow> TimingTracker \<Rightarrow> TimingTracker option" where
  "observe_head block_number chain_ts_s monotonic_now wallclock_now t =
     (let t1 = (fold_interval block_number chain_ts_s t)
                 \<lparr>tt_prev_block := Some block_number, tt_prev_chain_ts_s := chain_ts_s\<rparr>
      in case f_clamp (tt_lag_min_s t1) (tt_lag_max_s t1) (f_sub wallclock_now chain_ts_s) of
           None \<Rightarrow> None
         | Some clamped \<Rightarrow>
             Some (t1\<lparr>tt_lag_s := (if tt_anchor_block t1 = None then clamped
                                   else ema (tt_ema_alpha t1) clamped (tt_lag_s t1)),
                      tt_anchor_block := Some block_number,
                      tt_anchor_monotonic_s := monotonic_now\<rparr>))"

definition estimate_block :: "f64 \<Rightarrow> TimingTracker \<Rightarrow> nat option" where
  "estimate_block now_monotonic t =
     (case tt_anchor_block t of
        None \<Rightarrow> None
      | Some anchor \<Rightarrow>
          if f_le (tt_interval_s t) (Fin 0) then None
          else let elapsed = f_max (f_sub now_monotonic (tt_anchor_monotonic_s t)) (Fin 0)
               in Some (wrap_add_u64 anchor (f_to_u64 (f_div elapsed (tt_interval_s t)))))"

definition fire_deadline_monotonic :: "nat \<Rightarrow> TimingTracker \<Rightarrow> f64 option" where
  "fire_deadline_monotonic b_star t =
     (case tt_anchor_block t of
        None \<Rightarrow> None
      | Some anchor \<Rightarrow>
          let chain_delta = f_mul (f_sub (f_of_int (int b_star)) (f_of_int (int anchor))) (tt_interval_s t)
          in Some (f_sub (f_add (tt_anchor_monotonic_s t) chain_delta) (tt_lag_s t)))"

lemma fold_interval_keeps [simp]:
  "tt_lag_min_s (fold_interval b c t) = tt_lag_min_s t"
  "tt_lag_max_s (fold_interval b c t) = tt_lag_max_s t"
  "tt_ema_alpha (fold_interval b c t) = tt_ema_alpha t"
  "tt_anchor_block (fold_interval b c t) = tt_anchor_block t"
  "tt_lag_s (fold_interval b c t) = tt_lag_s t"
  by (auto simp: fold_interval_def Let_def split: option.splits)

lemma observe_head_total: "f_le (tt_lag_min_s t) (tt_lag_max_s t) \<Longrightarrow> \<exists>t'. observe_head b c m w t = Some t'"
  by (simp add: observe_head_def f_clamp_def Let_def)

end
