(* ===== verification/Text.thy ===== *)
theory Text
  imports Prelude
begin

text \<open>
  Rust strings as lists of Unicode scalar values, with the operations of the standard library that the
  coordinator applies to configured and probed text: UTF-8 lengths, \<open>char::is_whitespace\<close>,
  \<open>char::is_control\<close>, \<open>trim\<close>, \<open>match_indices\<close>, \<open>split_whitespace\<close> and truncation at a code-point
  boundary.
\<close>

type_synonym ustring = "nat list"

definition us :: "string \<Rightarrow> ustring" where
  "us s = map of_char s"

text \<open>UTF-8 of one scalar value: one to four bytes.\<close>

definition utf8_char :: "nat \<Rightarrow> bytes" where
  "utf8_char c =
     (if c < 0x80 then [of_nat c]
      else if c < 0x800 then [of_nat (0xC0 + c div 64), of_nat (0x80 + c mod 64)]
      else if c < 0x10000 then [of_nat (0xE0 + c div 4096), of_nat (0x80 + c div 64 mod 64), of_nat (0x80 + c mod 64)]
      else [of_nat (0xF0 + c div 262144), of_nat (0x80 + c div 4096 mod 64), of_nat (0x80 + c div 64 mod 64),
            of_nat (0x80 + c mod 64)])"

definition utf8 :: "ustring \<Rightarrow> bytes" where
  "utf8 s = concat (map utf8_char s)"

text \<open>A string as the characters of its UTF-8 bytes, the form in which addresses and JSON texts are held.\<close>

definition byte_string :: "ustring \<Rightarrow> string" where
  "byte_string s = map (\<lambda>b. char_of (unat b)) (utf8 s)"

definition str_len :: "ustring \<Rightarrow> nat" where
  "str_len s = length (utf8 s)"

definition is_whitespace :: "nat \<Rightarrow> bool" where
  "is_whitespace c \<longleftrightarrow> (9 \<le> c \<and> c \<le> 13) \<or> c = 0x20 \<or> c = 0x85 \<or> c = 0xA0 \<or> c = 0x1680
     \<or> (0x2000 \<le> c \<and> c \<le> 0x200A) \<or> c = 0x2028 \<or> c = 0x2029 \<or> c = 0x202F \<or> c = 0x205F \<or> c = 0x3000"

definition is_control :: "nat \<Rightarrow> bool" where
  "is_control c \<longleftrightarrow> c < 0x20 \<or> (0x7F \<le> c \<and> c < 0xA0)"

definition is_ascii_digit :: "nat \<Rightarrow> bool" where
  "is_ascii_digit c \<longleftrightarrow> 48 \<le> c \<and> c \<le> 57"

definition is_ascii_uppercase :: "nat \<Rightarrow> bool" where
  "is_ascii_uppercase c \<longleftrightarrow> 65 \<le> c \<and> c \<le> 90"

definition is_ascii_alphanumeric :: "nat \<Rightarrow> bool" where
  "is_ascii_alphanumeric c \<longleftrightarrow> is_ascii_digit c \<or> is_ascii_uppercase c \<or> (97 \<le> c \<and> c \<le> 122)"

definition ascii_lower :: "nat \<Rightarrow> nat" where
  "ascii_lower c = (if is_ascii_uppercase c then c + 32 else c)"

definition trim_start :: "ustring \<Rightarrow> ustring" where
  "trim_start s = dropWhile is_whitespace s"

definition trim :: "ustring \<Rightarrow> ustring" where
  "trim s = rev (trim_start (rev (trim_start s)))"

text \<open>A configured value counts when it is not blank: \<open>map(str::trim).filter(|s| !s.is_empty())\<close>.\<close>

definition nonblank :: "ustring option \<Rightarrow> ustring option" where
  "nonblank v = Option.bind v (\<lambda>s. if trim s = [] then None else Some (trim s))"

text \<open>What follows each non-overlapping match of a non-empty pattern, left to right.\<close>

fun match_rests_fuel :: "nat \<Rightarrow> ustring \<Rightarrow> ustring \<Rightarrow> ustring list" where
  "match_rests_fuel 0 pat s = []"
| "match_rests_fuel (Suc n) pat [] = []"
| "match_rests_fuel (Suc n) pat (c # s) =
     (if take (length pat) (c # s) = pat
      then drop (length pat) (c # s) # match_rests_fuel n pat (drop (length pat) (c # s))
      else match_rests_fuel n pat s)"

definition match_rests :: "ustring \<Rightarrow> ustring \<Rightarrow> ustring list" where
  "match_rests pat s = match_rests_fuel (Suc (length s)) pat s"

definition first_word :: "ustring \<Rightarrow> ustring option" where
  "first_word s = (let w = takeWhile (\<lambda>c. \<not> is_whitespace c) (trim_start s) in if w = [] then None else Some w)"

text \<open>\<open>str::lines\<close>: pieces between newlines, each without one final carriage return; no piece after a final newline.\<close>

fun split_lines :: "ustring \<Rightarrow> ustring \<Rightarrow> ustring list" where
  "split_lines cur [] = (if cur = [] then [] else [rev cur])"
| "split_lines cur (c # s) = (if c = 10 then rev cur # split_lines [] s else split_lines (c # cur) s)"

definition strip_cr :: "ustring \<Rightarrow> ustring" where
  "strip_cr l = (if l \<noteq> [] \<and> List.last l = 13 then butlast l else l)"

definition str_lines :: "ustring \<Rightarrow> ustring list" where
  "str_lines s = map strip_cr (split_lines [] s)"

text \<open>The longest prefix of at most \<open>max\<close> bytes that ends at a code-point boundary.\<close>

fun boundary_prefix :: "nat \<Rightarrow> ustring \<Rightarrow> ustring" where
  "boundary_prefix m [] = []"
| "boundary_prefix m (c # s) =
     (if length (utf8_char c) \<le> m then c # boundary_prefix (m - length (utf8_char c)) s else [])"

text \<open>Byte offsets that are code-point boundaries, stepping back to one, and the prefix that ends there.\<close>

definition is_char_boundary :: "ustring \<Rightarrow> nat \<Rightarrow> bool" where
  "is_char_boundary s k \<longleftrightarrow> list_ex (\<lambda>n. str_len (take n s) = k) [0..<Suc (length s)]"

fun step_back :: "ustring \<Rightarrow> nat \<Rightarrow> nat" where
  "step_back s 0 = 0"
| "step_back s (Suc e) = (if is_char_boundary s (Suc e) then Suc e else step_back s e)"

definition str_prefix :: "ustring \<Rightarrow> nat \<Rightarrow> ustring" where
  "str_prefix s k = (case find (\<lambda>n. str_len (take n s) = k) [0..<Suc (length s)] of Some n \<Rightarrow> take n s | None \<Rightarrow> [])"

lemma utf8_char_length: "1 \<le> length (utf8_char c)" "length (utf8_char c) \<le> 4"
  by (auto simp: utf8_char_def)

lemma utf8_simps [simp]:
  "utf8 [] = []" "utf8 (c # s) = utf8_char c @ utf8 s" "utf8 (s @ t) = utf8 s @ utf8 t"
  by (simp_all add: utf8_def)

lemma utf8_Nil_iff [simp]: "utf8 s = [] \<longleftrightarrow> s = []"
  using utf8_char_length(1) by (cases s) (auto simp: utf8_def Suc_le_eq)

lemma length_le_str_len: "length s \<le> str_len s"
proof (induction s)
  case (Cons c s)
  then show ?case using utf8_char_length(1) [of c] by (simp add: str_len_def)
qed (simp add: str_len_def)

lemma boundary_prefix_bound: "str_len (boundary_prefix m s) \<le> m"
proof (induction s arbitrary: m)
  case (Cons c s)
  show ?case using Cons.IH [of "m - length (utf8_char c)"] by (auto simp: str_len_def)
qed (simp add: str_len_def)

lemma boundary_prefix_take: "\<exists>n. boundary_prefix m s = take n s"
proof (induction s arbitrary: m)
  case (Cons c s)
  then obtain n where "boundary_prefix (m - length (utf8_char c)) s = take n s" by blast
  then show ?case by (auto intro: exI [of _ 0] exI [of _ "Suc n"])
qed simp

text \<open>No longer prefix fits: the truncation loses only what the bound forces it to.\<close>

lemma boundary_prefix_maximal:
  "length (boundary_prefix m s) < length s \<Longrightarrow> m < str_len (take (Suc (length (boundary_prefix m s))) s)"
proof (induction s arbitrary: m)
  case (Cons c s)
  show ?case using Cons.IH [of "m - length (utf8_char c)"] Cons.prems by (auto simp: str_len_def split: if_splits)
qed simp

lemma str_len_take_mono: "i \<le> j \<Longrightarrow> str_len (take i s) \<le> str_len (take j s)"
  by (metis le_add1 length_append min.absorb1 str_len_def take_take utf8_simps(3) append_take_drop_id)

lemma str_len_take_strict: "i < j \<Longrightarrow> j \<le> length s \<Longrightarrow> str_len (take i s) < str_len (take j s)"
proof -
  assume ij: "i < j" "j \<le> length s"
  have "str_len (take (Suc i) s) = str_len (take i s) + length (utf8_char (s ! i))"
    using ij by (simp add: str_len_def take_Suc_conv_app_nth)
  then have "str_len (take i s) < str_len (take (Suc i) s)" using utf8_char_length(1) [of "s ! i"] by linarith
  also have "\<dots> \<le> str_len (take j s)" using ij by (intro str_len_take_mono) simp
  finally show ?thesis .
qed

lemma is_char_boundary_iff: "is_char_boundary s k \<longleftrightarrow> (\<exists>n \<le> length s. str_len (take n s) = k)"
  by (auto simp: is_char_boundary_def list_ex_iff less_Suc_eq_le Bex_def simp del: upt_Suc)

lemma step_back_greatest:
  "step_back s m \<le> m" "is_char_boundary s (step_back s m)" "is_char_boundary s k \<Longrightarrow> k \<le> m \<Longrightarrow> k \<le> step_back s m"
proof (induction m)
  case 0
  { case 2 then show ?case by (auto simp: is_char_boundary_iff str_len_def intro!: exI [of _ 0]) }
qed (auto simp: le_Suc_eq)

lemma str_prefix_take:
  assumes "n \<le> length s"
  shows "str_prefix s (str_len (take n s)) = take n s"
proof -
  have unique: "i = n" if "i \<le> length s" "str_len (take i s) = str_len (take n s)" for i
    using str_len_take_strict [of i n s] str_len_take_strict [of n i s] that assms
    by (cases i n rule: linorder_cases) auto
  have "find (\<lambda>i. str_len (take i s) = str_len (take n s)) [0..<Suc (length s)] \<noteq> None"
    using assms by (auto simp: find_None_iff less_Suc_eq_le simp del: upt_Suc)
  then obtain i where i: "find (\<lambda>i. str_len (take i s) = str_len (take n s)) [0..<Suc (length s)] = Some i" by auto
  then have "i \<le> length s" "str_len (take i s) = str_len (take n s)"
    unfolding find_Some_iff by (auto simp del: upt_Suc simp: less_Suc_eq_le)
  with unique have "i = n" by simp
  with i show ?thesis by (simp add: str_prefix_def)
qed

text \<open>Stepping back from byte \<open>m\<close> to a boundary yields the longest prefix of at most \<open>m\<close> bytes.\<close>

lemma str_prefix_step_back: "str_prefix s (step_back s m) = boundary_prefix m s"
proof -
  obtain n where n: "step_back s m = str_len (take n s)" "n \<le> length s"
    using step_back_greatest(2) [of s m] unfolding is_char_boundary_iff by metis
  let ?b = "boundary_prefix m s"
  obtain i where "?b = take i s" using boundary_prefix_take by blast
  then have b: "?b = take (length ?b) s" "length ?b \<le> length s" by (auto simp: min_def)
  have "is_char_boundary s (str_len ?b)" using b by (metis is_char_boundary_iff)
  then have "str_len (take (length ?b) s) \<le> str_len (take n s)"
    using step_back_greatest(3) boundary_prefix_bound [of m s] b(1) n(1) by metis
  then have "length ?b \<le> n" using str_len_take_strict [of n "length ?b" s] b(2) by (meson leD leI)
  moreover have "\<not> length ?b < n"
  proof
    assume lt: "length ?b < n"
    then have "m < str_len (take (Suc (length ?b)) s)" using n(2) by (intro boundary_prefix_maximal) simp
    also have "\<dots> \<le> str_len (take n s)" using lt by (intro str_len_take_mono) simp
    finally show False using step_back_greatest(1) [of s m] n(1) by simp
  qed
  ultimately show ?thesis using str_prefix_take [OF n(2)] n(1) b(1) by simp
qed

lemma boundary_prefix_all: "str_len s \<le> m \<Longrightarrow> boundary_prefix m s = s"
  by (induction s arbitrary: m) (auto simp: str_len_def)

lemma set_trim: "set (trim s) \<subseteq> set s"
  by (auto simp: trim_def trim_start_def dest!: set_dropWhileD)

lemma trim_ends: "trim s \<noteq> [] \<Longrightarrow> \<not> is_whitespace (hd (trim s))"
proof -
  assume ne: "trim s \<noteq> []"
  define t where "t = trim_start s"
  have "trim s = rev (dropWhile is_whitespace (rev t))" by (simp add: trim_def trim_start_def t_def)
  then obtain ws where split: "t = trim s @ ws" by (metis rev_append rev_rev_ident takeWhile_dropWhile_id)
  then have "t \<noteq> []" using ne by auto
  then have "\<not> is_whitespace (hd t)" unfolding t_def trim_start_def by (rule hd_dropWhile)
  with split ne show ?thesis by simp
qed

lemma match_rests_enough:
  assumes "pat \<noteq> []" "length s < n"
  shows "match_rests_fuel n pat s = match_rests pat s"
proof -
  have "match_rests_fuel m pat s = match_rests_fuel n pat s" if "length s < m" "length s < n" for m n s
    using that
  proof (induction n arbitrary: m s)
    case (Suc n)
    then obtain m' where m: "m = Suc m'" by (cases m) auto
    show ?case
    proof (cases s)
      case (Cons c t)
      obtain p ps where pat: "pat = p # ps" using assms(1) by (cases pat) auto
      have "match_rests_fuel m' pat (drop (length ps) t) = match_rests_fuel n pat (drop (length ps) t)"
        "match_rests_fuel m' pat t = match_rests_fuel n pat t"
        using Suc.prems Cons m by (auto intro: Suc.IH)
      then show ?thesis using Cons m by (simp add: pat)
    qed (simp add: m)
  qed simp
  from this [OF assms(2), of "Suc (length s)"] show ?thesis by (simp add: match_rests_def)
qed

end
