(* ===== verification/Metrics.thy ===== *)
theory Metrics
  imports Problem Ledger Text
begin

text \<open>
  \<open>metrics.rs\<close>: the controller counters, process-wide and per backend, with the roster. A
  \<open>BTreeMap\<close> is an association list read in key order. Atomic additions wrap at \<open>2 ^ 64\<close>; the
  sequence of calls is the order in which they take effect. The lemmas show that the per-backend
  counters add up to the process-wide ones.
\<close>

record Counters =
  ct_heads_observed :: nat
  ct_contexts_dispatched :: nat
  ct_results_received :: nat
  ct_proofs_submitted :: nat
  ct_stale_drops :: nat
  ct_submission_errors :: nat
  ct_duplicate_result_drops :: nat

definition counters_default :: Counters where
  "counters_default = \<lparr> ct_heads_observed = 0, ct_contexts_dispatched = 0, ct_results_received = 0,
     ct_proofs_submitted = 0, ct_stale_drops = 0, ct_submission_errors = 0, ct_duplicate_result_drops = 0 \<rparr>"

record MinerEntry =
  me_id :: string
  me_miner_type :: string

record MinerInfo =
  mi_registered_at :: nat
  mi_deposit :: nat
  mi_proofs_submitted :: nat
  mi_proofs_won :: nat
  mi_rewards_earned :: nat

record ChainView =
  cv_head_hash :: string
  cv_head_number :: nat
  cv_is_mining :: bool
  cv_miner_registered :: bool
  cv_miner_info :: "MinerInfo option"

definition chain_view_default :: ChainView where
  "chain_view_default = \<lparr> cv_head_hash = [], cv_head_number = 0, cv_is_mining = False,
     cv_miner_registered = False, cv_miner_info = None \<rparr>"

record Identity =
  id_ss58_address :: ustring
  id_account_id_hex :: ustring
  id_node_id :: ustring

definition identity_default :: Identity where
  "identity_default = \<lparr> id_ss58_address = [], id_account_id_hex = [], id_node_id = [] \<rparr>"

text \<open>The start of the process is the origin of the clock.\<close>

record CoordinatorMetrics =
  mt_global :: Counters
  mt_modes :: "(string, Counters) hmap"
  mt_rosters :: "(string, MinerEntry list) hmap"
  mt_miner_mode :: "(string, string) hmap"
  mt_identity :: Identity
  mt_chain :: ChainView
  mt_last_successful_submission :: "nat option"

definition miner_kind_from_backend :: "string \<Rightarrow> MinerKind" where
  "miner_kind_from_backend backend =
     (if backend = ''cuda'' then MKGpu
      else if backend = ''metal'' then MKMetal
      else if backend = ''dwave'' then MKQpuDwave
      else MKCpu)"

text \<open>Backend names are ASCII section names, for which \<open>to_uppercase\<close> is the ASCII map.\<close>

definition upper_char :: "char \<Rightarrow> char" where
  "upper_char c = (if of_char c \<ge> (97 :: nat) \<and> of_char c \<le> (122 :: nat) then char_of (of_char c - 32 :: nat) else c)"

definition miner_type_label :: "string \<Rightarrow> string" where
  "miner_type_label backend =
     (let prefix = (case miner_kind_from_backend backend of
            MKCpu \<Rightarrow> ''CPU'' | MKAsic \<Rightarrow> ''CPU''
          | MKGpu \<Rightarrow> ''GPU'' | MKMetal \<Rightarrow> ''GPU''
          | MKQpuDwave \<Rightarrow> ''QPU'' | MKQpuIbm \<Rightarrow> ''QPU'' | MKQpuIonq \<Rightarrow> ''QPU'' | MKQpuPasqal \<Rightarrow> ''QPU'');
          suffix = map upper_char backend
      in if suffix = prefix then prefix else prefix @ ''-'' @ suffix)"

definition or_default :: "'v \<Rightarrow> 'k \<Rightarrow> ('k, 'v) hmap \<Rightarrow> ('k, 'v) hmap" where
  "or_default d k m = (case hm_get m k of None \<Rightarrow> hm_insert k d m | Some _ \<Rightarrow> m)"

definition launch_one :: "string \<times> string \<Rightarrow> CoordinatorMetrics \<Rightarrow> CoordinatorMetrics" where
  "launch_one e m =
     (let (miner_id, backend) = e in
      m\<lparr>mt_modes := or_default counters_default backend (mt_modes m),
        mt_rosters := hm_modify backend
          (\<lambda>es. es @ [\<lparr> me_id = miner_id, me_miner_type = miner_type_label backend \<rparr>])
          (or_default [] backend (mt_rosters m)),
        mt_miner_mode := hm_insert miner_id backend (mt_miner_mode m)\<rparr>)"

definition new_metrics :: "(string \<times> string) list \<Rightarrow> CoordinatorMetrics" where
  "new_metrics launch = fold launch_one launch
     \<lparr> mt_global = counters_default, mt_modes = [], mt_rosters = [], mt_miner_mode = [],
       mt_identity = identity_default, mt_chain = chain_view_default, mt_last_successful_submission = None \<rparr>"

definition metric_miners :: "CoordinatorMetrics \<Rightarrow> MinerEntry list" where
  "metric_miners m = concat (map (\<lambda>b. case hm_get (mt_rosters m) b of None \<Rightarrow> [] | Some es \<Rightarrow> es)
                              (sort (hm_keys (mt_rosters m))))"

record ModeView =
  mv_counters :: Counters
  mv_miners :: "MinerEntry list"

text \<open>A snapshot of the counters is their values.\<close>

definition mode_views :: "CoordinatorMetrics \<Rightarrow> (string \<times> ModeView) list" where
  "mode_views m = map (\<lambda>e. (fst e, \<lparr> mv_counters = snd e,
     mv_miners = (case hm_get (mt_rosters m) (fst e) of None \<Rightarrow> [] | Some es \<Rightarrow> es) \<rparr>)) (sort_key fst (mt_modes m))"

definition set_identity :: "Identity \<Rightarrow> CoordinatorMetrics \<Rightarrow> CoordinatorMetrics" where
  "set_identity identity m = m\<lparr>mt_identity := identity\<rparr>"

definition set_chain :: "ChainView \<Rightarrow> CoordinatorMetrics \<Rightarrow> CoordinatorMetrics" where
  "set_chain chain m = m\<lparr>mt_chain := chain\<rparr>"

definition record_head_observed :: "CoordinatorMetrics \<Rightarrow> CoordinatorMetrics" where
  "record_head_observed m =
     m\<lparr>mt_global := ct_heads_observed_update (\<lambda>x. wrap_add_u64 x 1) (mt_global m),
       mt_modes := hm_map_values (ct_heads_observed_update (\<lambda>x. wrap_add_u64 x 1)) (mt_modes m)\<rparr>"

text \<open>\<open>field\<close> names the counter, as the field's updater.\<close>

definition bump ::
  "string \<Rightarrow> nat \<Rightarrow> ((nat \<Rightarrow> nat) \<Rightarrow> Counters \<Rightarrow> Counters) \<Rightarrow> CoordinatorMetrics \<Rightarrow> CoordinatorMetrics" where
  "bump miner_id n field m =
     (let m1 = m\<lparr>mt_global := field (\<lambda>x. wrap_add_u64 x n) (mt_global m)\<rparr> in
      case hm_get (mt_miner_mode m) miner_id of
        None \<Rightarrow> m1
      | Some backend \<Rightarrow> m1\<lparr>mt_modes := hm_modify backend (field (\<lambda>x. wrap_add_u64 x n)) (mt_modes m)\<rparr>)"

definition record_contexts_dispatched :: "string \<Rightarrow> nat \<Rightarrow> CoordinatorMetrics \<Rightarrow> CoordinatorMetrics" where
  "record_contexts_dispatched miner_id n = bump miner_id n ct_contexts_dispatched_update"

definition record_result_received :: "string \<Rightarrow> CoordinatorMetrics \<Rightarrow> CoordinatorMetrics" where
  "record_result_received miner_id = bump miner_id 1 ct_results_received_update"

definition record_proof_submitted :: "nat \<Rightarrow> string \<Rightarrow> CoordinatorMetrics \<Rightarrow> CoordinatorMetrics" where
  "record_proof_submitted now miner_id m =
     (bump miner_id 1 ct_proofs_submitted_update m)\<lparr>mt_last_successful_submission := Some now\<rparr>"

definition record_stale_drop :: "string \<Rightarrow> CoordinatorMetrics \<Rightarrow> CoordinatorMetrics" where
  "record_stale_drop miner_id = bump miner_id 1 ct_stale_drops_update"

definition record_submission_error :: "string \<Rightarrow> CoordinatorMetrics \<Rightarrow> CoordinatorMetrics" where
  "record_submission_error miner_id = bump miner_id 1 ct_submission_errors_update"

definition record_duplicate_result_drop :: "string \<Rightarrow> CoordinatorMetrics \<Rightarrow> CoordinatorMetrics" where
  "record_duplicate_result_drop miner_id = bump miner_id 1 ct_duplicate_result_drops_update"

subsection \<open>Runs of recording calls\<close>

datatype MetricOp =
    MHead
  | MDispatched string nat
  | MReceived string
  | MSubmitted nat string
  | MStale string
  | MError string
  | MDuplicate string
  | MChain ChainView

fun metric_step :: "MetricOp \<Rightarrow> CoordinatorMetrics \<Rightarrow> unit \<times> CoordinatorMetrics" where
  "metric_step MHead m = ((), record_head_observed m)"
| "metric_step (MDispatched i n) m = ((), record_contexts_dispatched i n m)"
| "metric_step (MReceived i) m = ((), record_result_received i m)"
| "metric_step (MSubmitted t i) m = ((), record_proof_submitted t i m)"
| "metric_step (MStale i) m = ((), record_stale_drop i m)"
| "metric_step (MError i) m = ((), record_submission_error i m)"
| "metric_step (MDuplicate i) m = ((), record_duplicate_result_drop i m)"
| "metric_step (MChain c) m = ((), set_chain c m)"

fun metric_miner :: "MetricOp \<Rightarrow> string option" where
  "metric_miner (MDispatched i _) = Some i"
| "metric_miner (MReceived i) = Some i"
| "metric_miner (MSubmitted _ i) = Some i"
| "metric_miner (MStale i) = Some i"
| "metric_miner (MError i) = Some i"
| "metric_miner (MDuplicate i) = Some i"
| "metric_miner _ = None"

text \<open>The six counters a miner's activity moves.\<close>

definition miner_counters :: "(Counters \<Rightarrow> nat) list" where
  "miner_counters = [ct_contexts_dispatched, ct_results_received, ct_proofs_submitted, ct_stale_drops,
     ct_submission_errors, ct_duplicate_result_drops]"

definition reconciled :: "CoordinatorMetrics \<Rightarrow> bool" where
  "reconciled m \<longleftrightarrow> hm_wf (mt_modes m)
     \<and> list_all (\<lambda>f. f (mt_global m) mod 2 ^ 64 = hm_total f (mt_modes m) mod 2 ^ 64) miner_counters"

definition planned :: "CoordinatorMetrics \<Rightarrow> string \<Rightarrow> bool" where
  "planned m i \<longleftrightarrow> (case hm_get (mt_miner_mode m) i of
     None \<Rightarrow> False | Some b \<Rightarrow> hm_get (mt_modes m) b \<noteq> None)"

lemma hm_total_modify_keep:
  "(\<And>v. F (f v) = F v) \<Longrightarrow> hm_total F (hm_modify k f m) = hm_total F m"
  by (induction m) (auto simp: hm_total_def hm_modify_def)

lemma hm_total_add_mod:
  fixes F :: "'v \<Rightarrow> nat"
  assumes "hm_wf m" "hm_get m k = Some v" "F (f v) = wrap_add_u64 (F v) n"
  shows "hm_total F (hm_modify k f m) mod 2 ^ 64 = (hm_total F m + n) mod 2 ^ 64"
proof -
  have "hm_total F (hm_modify k f m) + F v = hm_total F m + (F v + n) mod 2 ^ 64"
    using hm_total_modify [OF assms(1,2), of F f] assms(3) by (simp add: wrap_add_u64_def)
  then have "(hm_total F (hm_modify k f m) + F v) mod 2 ^ 64 = (hm_total F m + n + F v) mod 2 ^ 64"
    by (simp add: mod_simps ac_simps)
  then obtain a b :: nat where "hm_total F (hm_modify k f m) + F v + 2 ^ 64 * a = hm_total F m + n + F v + 2 ^ 64 * b"
    unfolding nat_mod_eq_iff by blast
  then have "hm_total F (hm_modify k f m) + 2 ^ 64 * a = hm_total F m + n + 2 ^ 64 * b" by linarith
  then show ?thesis unfolding nat_mod_eq_iff by blast
qed

text \<open>One additive call on a counter \<open>F\<close> that \<open>field\<close> updates keeps its total in step.\<close>

lemma bump_total:
  assumes "hm_wf (mt_modes m)" "planned m i"
    and "\<And>c. F (field (\<lambda>x. wrap_add_u64 x n) c) = wrap_add_u64 (F c) n"
    and "F (mt_global m) mod 2 ^ 64 = hm_total F (mt_modes m) mod 2 ^ 64"
  shows "F (mt_global (bump i n field m)) mod 2 ^ 64 = hm_total F (mt_modes (bump i n field m)) mod 2 ^ 64"
proof -
  obtain b v where b: "hm_get (mt_miner_mode m) i = Some b" "hm_get (mt_modes m) b = Some v"
    using assms(2) by (auto simp: planned_def split: option.splits)
  have "(F (mt_global m) + n) mod 2 ^ 64 = (hm_total F (mt_modes m) + n) mod 2 ^ 64"
    using assms(4) by (metis mod_add_left_eq)
  then show ?thesis
    using hm_total_add_mod [where F = F and f = "field (\<lambda>x. wrap_add_u64 x n)" and n = n, OF assms(1) b(2) assms(3)] b
    by (simp add: bump_def Let_def assms(3)) (simp add: wrap_add_u64_def)
qed

lemma bump_other:
  assumes "\<And>c. F (field (\<lambda>x. wrap_add_u64 x n) c) = F c"
  shows "F (mt_global (bump i n field m)) = F (mt_global m)"
    "hm_total F (mt_modes (bump i n field m)) = hm_total F (mt_modes m)"
  by (auto simp: bump_def Let_def assms hm_total_modify_keep split: option.splits)

lemma bump_keeps [simp]:
  "hm_wf (mt_modes (bump i n field m)) = hm_wf (mt_modes m)"
  "mt_miner_mode (bump i n field m) = mt_miner_mode m"
  "hm_get (mt_modes (bump i n field m)) b = None \<longleftrightarrow> hm_get (mt_modes m) b = None"
  by (auto simp: bump_def Let_def hm.wf_upd hm.get_upd split: option.splits)

lemma planned_step: "planned (snd (metric_step op m)) i = planned m i"
  by (cases op)
     (auto simp: planned_def record_head_observed_def record_contexts_dispatched_def
        record_result_received_def record_proof_submitted_def record_stale_drop_def
        record_submission_error_def record_duplicate_result_drop_def set_chain_def
        hm_get_map_values split: option.splits)

lemma reconciled_bump:
  assumes "reconciled m" "planned m i"
    and "list_all (\<lambda>F. (\<forall>c. F (field (\<lambda>x. wrap_add_u64 x n) c) = wrap_add_u64 (F c) n)
                    \<or> (\<forall>c. F (field (\<lambda>x. wrap_add_u64 x n) c) = F c)) miner_counters"
  shows "reconciled (bump i n field m)"
proof -
  have "F (mt_global (bump i n field m)) mod 2 ^ 64 = hm_total F (mt_modes (bump i n field m)) mod 2 ^ 64"
    if F: "F \<in> set miner_counters" for F
  proof -
    have eq: "F (mt_global m) mod 2 ^ 64 = hm_total F (mt_modes m) mod 2 ^ 64" and wf: "hm_wf (mt_modes m)"
      using assms(1) F by (auto simp: reconciled_def list_all_iff)
    consider "\<forall>c. F (field (\<lambda>x. wrap_add_u64 x n) c) = wrap_add_u64 (F c) n"
      | "\<forall>c. F (field (\<lambda>x. wrap_add_u64 x n) c) = F c"
      using assms(3) F by (auto simp: list_all_iff)
    then show ?thesis
    proof cases
      case 1
      then show ?thesis using bump_total [where F = F, OF wf assms(2) _ eq] by blast
    next
      case 2
      then show ?thesis using bump_other [of F field n i m] eq by simp
    qed
  qed
  moreover have "hm_wf (mt_modes (bump i n field m))" using assms(1) by (simp add: reconciled_def)
  ultimately show ?thesis by (simp add: reconciled_def list_all_iff)
qed

lemma reconciled_step:
  assumes "reconciled m" "\<And>i. metric_miner op = Some i \<Longrightarrow> planned m i"
  shows "reconciled (snd (metric_step op m))"
proof (cases op)
  case MHead
  with assms(1) show ?thesis
    by (simp add: reconciled_def record_head_observed_def miner_counters_def hm_wf_map_values hm_total_map_values)
next
  case (MSubmitted t i)
  then have "reconciled (bump i 1 ct_proofs_submitted_update m)"
    using assms by (intro reconciled_bump) (auto simp: miner_counters_def)
  with MSubmitted show ?thesis by (simp add: record_proof_submitted_def reconciled_def)
next
  case (MChain c)
  with assms(1) show ?thesis by (simp add: set_chain_def reconciled_def)
qed (use assms in \<open>auto simp: record_contexts_dispatched_def record_result_received_def
       record_stale_drop_def record_submission_error_def record_duplicate_result_drop_def
       miner_counters_def intro!: reconciled_bump\<close>)

lemma reconciled_run:
  "reconciled m \<Longrightarrow> (\<And>op i. op \<in> set ops \<Longrightarrow> metric_miner op = Some i \<Longrightarrow> planned m i)
     \<Longrightarrow> reconciled (snd (run_steps metric_step ops m))"
proof (induction ops arbitrary: m)
  case (Cons op ops)
  then have "reconciled (snd (metric_step op m))" by (intro reconciled_step) auto
  moreover have "op' \<in> set ops \<Longrightarrow> metric_miner op' = Some i \<Longrightarrow> planned (snd (metric_step op m)) i" for op' i
    using Cons.prems(2) [of op' i] by (simp add: planned_step)
  ultimately show ?case using Cons.IH by (simp add: run_steps_Cons)
qed simp

lemma or_default_get: "hm_get (or_default d k m) k' = (if k' = k \<and> hm_get m k = None then Some d else hm_get m k')"
  by (auto simp: or_default_def hm.get_ins split: option.splits)

lemma or_default_wf: "hm_wf m \<Longrightarrow> hm_wf (or_default d k m)"
  by (auto simp: or_default_def hm.wf_ins split: option.splits)

lemma or_default_total: "F d = 0 \<Longrightarrow> hm_total F (or_default d k m) = hm_total F m"
  by (auto simp: or_default_def hm_total_insert_new split: option.splits)

lemma launch_plan:
  assumes "reconciled m" "\<And>i. hm_get (mt_miner_mode m) i \<noteq> None \<Longrightarrow> planned m i"
  shows "reconciled (fold launch_one launch m)
    \<and> (\<forall>i. i \<in> fst ` set launch \<or> hm_get (mt_miner_mode m) i \<noteq> None \<longrightarrow> planned (fold launch_one launch m) i)"
  using assms
proof (induction launch arbitrary: m)
  case (Cons e launch)
  obtain i b where e: "e = (i, b)" by (cases e)
  have z: "F \<in> set miner_counters \<Longrightarrow> F counters_default = 0" for F
    by (auto simp: miner_counters_def counters_default_def)
  have r: "reconciled (launch_one e m)"
    using Cons.prems(1) z
    by (auto simp: e launch_one_def reconciled_def or_default_wf or_default_total list_all_iff)
  have p: "hm_get (mt_miner_mode (launch_one e m)) k \<noteq> None \<Longrightarrow> planned (launch_one e m) k" for k
    using Cons.prems(2) [of k]
    by (auto simp: e launch_one_def planned_def or_default_get hm.get_ins split: if_splits option.splits)
  have k: "hm_get (mt_miner_mode (launch_one e m)) k \<noteq> None \<longleftrightarrow> k = i \<or> hm_get (mt_miner_mode m) k \<noteq> None" for k
    by (auto simp: e launch_one_def hm.get_ins)
  from Cons.IH [OF r p] k show ?case by (auto simp: e)
qed auto

text \<open>
  The dashboard's totals reconcile: for any sequence of recording calls about miners of the launch
  plan, each of the six per-miner counters summed over the backends equals the process-wide
  counter (modulo the \<open>2 ^ 64\<close> wrap of the atomics).
\<close>
theorem counters_reconcile:
  assumes "\<And>op i. op \<in> set ops \<Longrightarrow> metric_miner op = Some i \<Longrightarrow> i \<in> fst ` set launch"
  shows "let m = snd (run_steps metric_step ops (new_metrics launch)) in
           list_all (\<lambda>f. f (mt_global m) mod 2 ^ 64 = hm_total f (mt_modes m) mod 2 ^ 64) miner_counters"
proof -
  let ?z = "\<lparr> mt_global = counters_default, mt_modes = [], mt_rosters = [], mt_miner_mode = [],
       mt_identity = identity_default, mt_chain = chain_view_default, mt_last_successful_submission = None \<rparr>"
  have "reconciled ?z" by (simp add: reconciled_def miner_counters_def counters_default_def hm_total_def)
  from launch_plan [OF this, of launch]
  have "reconciled (new_metrics launch)" "\<And>i. i \<in> fst ` set launch \<Longrightarrow> planned (new_metrics launch) i"
    by (auto simp: new_metrics_def)
  with reconciled_run [of "new_metrics launch" ops] assms show ?thesis
    by (simp add: reconciled_def Let_def)
qed

theorem counters_reconcile_witness:
  "let m = snd (run_steps metric_step [MReceived ''cpu-0'', MDispatched ''cuda-0'' 5, MHead]
              (new_metrics [(''cuda-0'', ''cuda''), (''cpu-0'', ''cpu'')])) in
     list_all (\<lambda>f. f (mt_global m) mod 2 ^ 64 = hm_total f (mt_modes m) mod 2 ^ 64) miner_counters"
  by (rule counters_reconcile) auto

text \<open>
  The roster is grouped by backend name, not in launch order: launching a CUDA miner before a CPU miner
  lists the CPU miner first.
\<close>
theorem roster_is_backend_order:
  "map me_id (metric_miners (new_metrics [(''cuda-0'', ''cuda''), (''cpu-0'', ''cpu'')])) = [''cpu-0'', ''cuda-0'']"
  by (simp add: metric_miners_def new_metrics_def launch_one_def or_default_def hm_get_def hm_insert_def
      hm_modify_def hm_keys_def)

end
