(* ===== verification/Supervisor.thy ===== *)
theory Supervisor
  imports Ledger Text
begin

text \<open>
  \<open>supervisor.rs\<close>, the part without processes: exit codes to restart policy, exponential backoff
  with a sliding-window failure budget, and the argument vector of a child. The requeue of a dead
  miner's jobs acts on the coordinator state and is in \<open>Session\<close>.
\<close>

datatype Restart = ROnDemand | RNever | RBackoff

definition restart_policy :: "int \<Rightarrow> Restart" where
  "restart_policy exit_code =
     (if exit_code = 0 then ROnDemand
      else if exit_code = 2 \<or> exit_code = 64 \<or> exit_code = 69 \<or> exit_code = 77 then RNever
      else RBackoff)"

datatype RestartAction = OnDemand | Never | Backoff nat | Unhealthy

record BackoffPolicy =
  bp_base_ms :: nat
  bp_max_ms :: nat
  bp_budget :: nat
  bp_window_ms :: nat

definition default_policy :: BackoffPolicy where
  "default_policy = \<lparr> bp_base_ms = 500, bp_max_ms = 30000, bp_budget = 5, bp_window_ms = 60000 \<rparr>"

record RestartTracker =
  rk_policy :: BackoffPolicy
  rk_consecutive :: nat
  rk_crashes :: "nat list"

definition new_tracker :: "BackoffPolicy \<Rightarrow> RestartTracker" where
  "new_tracker policy = \<lparr> rk_policy = policy, rk_consecutive = 0, rk_crashes = [] \<rparr>"

text \<open>\<open>1u64 << shift\<close> with \<open>shift \<le> 16\<close> does not lose bits.\<close>

definition on_exit :: "int \<Rightarrow> nat \<Rightarrow> RestartTracker \<Rightarrow> RestartAction \<times> RestartTracker" where
  "on_exit exit_code now_ms t =
     (case restart_policy exit_code of
        ROnDemand \<Rightarrow> (OnDemand, t\<lparr>rk_consecutive := 0\<rparr>)
      | RNever \<Rightarrow> (Never, t)
      | RBackoff \<Rightarrow>
          let cutoff = now_ms - bp_window_ms (rk_policy t);
              crashes = dropWhile (\<lambda>c. c < cutoff) (rk_crashes t) @ [now_ms];
              t1 = t\<lparr>rk_crashes := crashes\<rparr>
          in if length crashes > bp_budget (rk_policy t) then (Unhealthy, t1)
             else let shift = min (rk_consecutive t) 16;
                      delay = min (sat_mul_u64 (bp_base_ms (rk_policy t)) (2 ^ shift)) (bp_max_ms (rk_policy t))
                  in (Backoff delay, t1\<lparr>rk_consecutive := sat_add_u32 (rk_consecutive t) 1\<rparr>))"

datatype LogLevel = Trace | Debug | Info | Warn | Error

definition log_level_str :: "LogLevel \<Rightarrow> string" where
  "log_level_str l =
     (case l of Trace \<Rightarrow> ''trace'' | Debug \<Rightarrow> ''debug'' | Info \<Rightarrow> ''info'' | Warn \<Rightarrow> ''warn'' | Error \<Rightarrow> ''error'')"

record Configure =
  cf_queue_depth :: nat
  cf_idle_timeout_s :: nat
  cf_heartbeat_s :: nat
  cf_reconnect_window_s :: nat
  cf_backend_toml :: ustring

record LaunchEntry =
  le_miner_id :: string
  le_binary :: ustring
  le_configure :: Configure
  le_backend :: string
  le_device :: "nat option"

definition child_args :: "LaunchEntry \<Rightarrow> string \<Rightarrow> LogLevel \<Rightarrow> string list" where
  "child_args entry sock_uri log_level =
     [''--quip-coordinator'', sock_uri, ''--miner-id'', le_miner_id entry,
      ''--log-level'', log_level_str log_level]
     @ (case le_device entry of None \<Rightarrow> [] | Some n \<Rightarrow> [''--device'', show_nat n])"

subsection \<open>The failure budget over a history of exits\<close>

definition exit_step :: "int \<times> nat \<Rightarrow> RestartTracker \<Rightarrow> RestartAction \<times> RestartTracker" where
  "exit_step e = on_exit (fst e) (snd e)"

definition crash_times :: "(int \<times> nat) list \<Rightarrow> nat list" where
  "crash_times xs = map snd (filter (\<lambda>e. restart_policy (fst e) = RBackoff) xs)"

text \<open>Backoffs since the last clean exit.\<close>

fun is_backoff :: "RestartAction \<Rightarrow> bool" where
  "is_backoff (Backoff _) = True"
| "is_backoff _ = False"

definition streak :: "RestartAction list \<Rightarrow> nat" where
  "streak acts = length (filter is_backoff (takeWhile (\<lambda>a. a \<noteq> OnDemand) (rev acts)))"

lemma streak_snoc [simp]:
  "streak [] = 0"
  "streak (acts @ [OnDemand]) = 0"
  "streak (acts @ [Never]) = streak acts"
  "streak (acts @ [Unhealthy]) = streak acts"
  "streak (acts @ [Backoff d]) = Suc (streak acts)"
  by (simp_all add: streak_def)

lemma dropWhile_sorted_less: "sorted xs \<Longrightarrow> dropWhile (\<lambda>c. c < k) xs = filter (\<lambda>c. k \<le> c) (xs :: nat list)"
proof (induction xs)
  case (Cons x xs)
  then show ?case
  proof (cases "x < k")
    case False
    with Cons.prems have "filter (\<lambda>c. k \<le> c) xs = xs" by (intro filter_True) auto
    with False show ?thesis by simp
  qed simp
qed simp

lemma run_steps_snoc:
  "fst (run_steps step (xs @ [x]) r) = fst (run_steps step xs r) @ [fst (step x (snd (run_steps step xs r)))]"
  "snd (run_steps step (xs @ [x]) r) = snd (step x (snd (run_steps step xs r)))"
  by (simp_all add: run_steps_append split_def Let_def run_steps_Cons)

text \<open>
  The tracker after a history: its crash list is the crashes from some cutoff on, a cutoff no later
  than the last exit's window, and its streak is the backoffs since the last clean exit.
\<close>

lemma tracker_history:
  assumes "sorted (map snd xs)"
  shows "let (acts, t) = run_steps exit_step xs (new_tracker p) in
     rk_policy t = p \<and> rk_consecutive t = min (streak acts) u32_max
     \<and> (\<exists>c. rk_crashes t = filter (\<lambda>s. c \<le> s) (crash_times xs)
            \<and> (\<forall>now. (\<forall>e. e \<in> set xs \<longrightarrow> snd e \<le> now) \<longrightarrow> c \<le> now - bp_window_ms p))"
  using assms
proof (induction xs rule: rev_induct)
  case Nil
  then show ?case by (auto simp: new_tracker_def crash_times_def intro: exI [of _ 0])
next
  case (snoc e xs)
  define t where "t = snd (run_steps exit_step xs (new_tracker p))"
  define acts where "acts = fst (run_steps exit_step xs (new_tracker p))"
  have srt: "sorted (map snd xs)" "\<And>e'. e' \<in> set xs \<Longrightarrow> snd e' \<le> snd e"
    using snoc.prems by (auto simp: sorted_append)
  from snoc.IH [OF srt(1)] obtain c where ih: "rk_policy t = p" "rk_consecutive t = min (streak acts) u32_max"
      "rk_crashes t = filter (\<lambda>s. c \<le> s) (crash_times xs)"
      "\<And>now. (\<And>e. e \<in> set xs \<Longrightarrow> snd e \<le> now) \<Longrightarrow> c \<le> now - bp_window_ms p"
    by (auto simp: t_def acts_def split_def Let_def)
  have step: "run_steps exit_step (xs @ [e]) (new_tracker p) =
      (acts @ [fst (exit_step e t)], snd (exit_step e t))"
    by (simp add: prod_eq_iff run_steps_snoc t_def acts_def)
  show ?case
  proof (cases "restart_policy (fst e)")
    case RBackoff
    define k where "k = snd e - bp_window_ms p"
    have "c \<le> k" unfolding k_def using srt(2) by (rule ih(4))
    moreover have "sorted (crash_times xs)"
      using srt(1) unfolding crash_times_def by (simp add: sorted_map sorted_wrt_filter)
    ultimately have "dropWhile (\<lambda>c. c < k) (rk_crashes t) = filter (\<lambda>s. k \<le> s) (crash_times xs)"
      by (auto simp: ih(3) dropWhile_sorted_less sorted_wrt_filter intro!: filter_cong)
    moreover have "crash_times (xs @ [e]) = crash_times xs @ [snd e]"
      using RBackoff by (simp add: crash_times_def)
    ultimately have "rk_crashes (snd (exit_step e t)) = filter (\<lambda>s. k \<le> s) (crash_times (xs @ [e]))"
      using RBackoff by (simp add: exit_step_def on_exit_def ih(1) k_def Let_def)
    moreover have "(\<forall>e'. e' \<in> set (xs @ [e]) \<longrightarrow> snd e' \<le> now) \<Longrightarrow> k \<le> now - bp_window_ms p" for now
      unfolding k_def by (rule diff_le_mono) (cases e, auto)
    ultimately show ?thesis
      unfolding step using RBackoff ih(1,2)
      by (auto simp: exit_step_def on_exit_def Let_def sat_add_u32_def intro!: exI [of _ k])
  next
    case ROnDemand
    then have "exit_step e t = (OnDemand, t\<lparr>rk_consecutive := 0\<rparr>)" "crash_times (xs @ [e]) = crash_times xs"
      by (simp_all add: exit_step_def on_exit_def crash_times_def)
    with ih show ?thesis unfolding step by (auto intro!: exI [of _ c])
  next
    case RNever
    then have "exit_step e t = (Never, t)" "crash_times (xs @ [e]) = crash_times xs"
      by (simp_all add: exit_step_def on_exit_def crash_times_def)
    with ih show ?thesis unfolding step by (auto intro!: exI [of _ c])
  qed
qed

text \<open>
  The restart decision after a crash is exactly the documented policy: with exits in time order, the
  miner is marked unhealthy if and only if the crashes inside the sliding window, this one included,
  exceed the budget; otherwise it restarts after \<open>base * 2 ^ k\<close> milliseconds, capped, where \<open>k\<close> counts
  the backoffs since the last clean exit (at most 16).
\<close>
theorem restart_budget_exact:
  assumes "sorted (map snd (xs @ [(code, now)]))" "restart_policy code = RBackoff"
  shows "let (acts, t) = run_steps exit_step xs (new_tracker p);
             recent = filter (\<lambda>s. now - bp_window_ms p \<le> s) (crash_times xs) in
     fst (on_exit code now t) =
       (if length recent + 1 > bp_budget p then Unhealthy
        else Backoff (min (min (bp_base_ms p * 2 ^ min (streak acts) 16) u64_max) (bp_max_ms p)))"
proof -
  define t where "t = snd (run_steps exit_step xs (new_tracker p))"
  define acts where "acts = fst (run_steps exit_step xs (new_tracker p))"
  have srt: "sorted (map snd xs)" "\<And>e. e \<in> set xs \<Longrightarrow> snd e \<le> now"
    using assms(1) by (auto simp: sorted_append)
  obtain c where h: "rk_policy t = p" "rk_consecutive t = min (streak acts) u32_max"
      "rk_crashes t = filter (\<lambda>s. c \<le> s) (crash_times xs)"
      "\<And>now. (\<And>e. e \<in> set xs \<Longrightarrow> snd e \<le> now) \<Longrightarrow> c \<le> now - bp_window_ms p"
    using tracker_history [OF srt(1), of p] by (auto simp: t_def acts_def split_def Let_def)
  have "c \<le> now - bp_window_ms p" using srt(2) by (rule h(4))
  moreover have "sorted (crash_times xs)"
    using srt(1) unfolding crash_times_def by (simp add: sorted_map sorted_wrt_filter)
  ultimately have cr: "dropWhile (\<lambda>c. c < now - bp_window_ms p) (rk_crashes t)
      = filter (\<lambda>s. now - bp_window_ms p \<le> s) (crash_times xs)"
    by (auto simp: h(3) dropWhile_sorted_less sorted_wrt_filter intro!: filter_cong)
  have "min (rk_consecutive t) 16 = min (streak acts) 16" by (simp add: h(2))
  moreover have "run_steps exit_step xs (new_tracker p) = (acts, t)" by (simp add: acts_def t_def)
  ultimately show ?thesis
    using assms(2) cr by (simp add: on_exit_def h(1) sat_mul_u64_def Let_def)
qed

theorem restart_budget_exact_witness:
  "let (acts, t) = run_steps exit_step [(70, 0), (- 9, 1000), (0, 2000), (70, 3000)] (new_tracker default_policy) in
     fst (on_exit 70 61500 t) = Backoff 1000"
  using restart_budget_exact [of "[(70, 0), (- 9, 1000), (0, 2000), (70, 3000)]" 70 61500 default_policy]
  by (simp add: run_steps.simps(2) exit_step_def on_exit_def restart_policy_def new_tracker_def
      default_policy_def crash_times_def streak_def Let_def sat_mul_u64_def sat_add_u32_def)

end
