(* ===== verification/Session.thy ===== *)
theory Session
  imports Router_Laws Lease Submit Attempt Liveness Timing Metrics Supervisor
begin

text \<open>
  \<open>session.rs\<close>: the shared coordinator state, the session message loop and result settlement, and
  the requeue of \<open>supervisor.rs\<close>. Each definition is one section of code that runs under the state
  lock, or a composition of them in program order; an awaited chain call stands between two
  sections, so another session may run there. Messages to the miner, grants to the dispatcher,
  records for the writer thread and chain calls are outputs. The chain's answer, the clock and the
  external libraries are arguments. \<open>None\<close> is a panic of the result validator.
\<close>

subsection \<open>Messages\<close>

record SamplerMeta =
  sm_device_access_time_us :: nat
  sm_reads :: nat
  sm_sweeps :: nat

record MinerResult =
  rr_job_id :: bytes
  rr_solutions :: "Solution list"
  rr_meta :: "SamplerMeta option"
  rr_salt :: bytes
  rr_nonce :: bytes

record LeaseDone =
  ld_job_id :: bytes
  ld_salts_done :: nat
  ld_best_energy_milli :: int

record Hello =
  he_miner_id :: string
  he_session_token :: string
  he_capabilities :: "Capabilities option"

datatype MinerMsg =
    Ready
  | JobRequest nat
  | ResultMsg MinerResult
  | Reject bytes RejectReason
  | StatusMsg nat "(string, string) hmap"
  | Fatal nat string
  | HelloMsg Hello
  | CapabilitiesMsg Capabilities
  | LeaseDoneMsg LeaseDone
  | Unrecognized

datatype CoordMsg =
    Welcome nat
  | ConfigureMsg Configure
  | TopologyMsg ProtoTopology
  | SetTargetMsg SetTarget
  | JobMsg Job

text \<open>What a handler does outside the shared state.\<close>

datatype SessionOut =
    ToMiner CoordMsg
  | Grant nat
  | Wake string
  | Write WriterMsg
  | NotifySubmitted
  | SubmitProof Proof
  | SubmitSolution Proof
  | LogLiveness LivenessEvent
  | DropWarning nat

subsection \<open>External code\<close>

record VerifiedLease =
  vl_nonce :: bytes
  vl_salt :: bytes

record ('e, 'd, 'topo) Externals =
  xt_select :: "'e selector"
  xt_diversity :: "'e diversity"
  xt_decode_i32 :: "bytes \<Rightarrow> string + int list"
  xt_decode_spins :: "bytes \<Rightarrow> nat \<Rightarrow> 'd + int list"
  xt_blake2 :: "bytes \<Rightarrow> bytes"
  xt_log :: "f64 \<Rightarrow> f64"
  xt_pow :: "f64 \<Rightarrow> f64 \<Rightarrow> f64"
  xt_view :: "ProtoTopology \<Rightarrow> string + 'topo"
  xt_num_nodes :: "'topo \<Rightarrow> nat"
  xt_verify :: "IsingProblemGenerator \<Rightarrow> 'topo \<Rightarrow> Target \<Rightarrow> MinerResult \<Rightarrow> string + VerifiedLease"
  xt_backend_name :: "int \<Rightarrow> string"
  xt_algorithm_name :: "int \<Rightarrow> string"
  xt_summary_json :: "QblockSummary \<Rightarrow> string option"
  xt_protocol_version :: nat

subsection \<open>Coordinator state\<close>

definition WIN_STASH_K :: nat where
  "WIN_STASH_K = 8"

text \<open>A channel is the number of the session that opened it; \<open>cs_attempt_tx\<close> is whether a writer is attached.\<close>

record 'topo CoordinatorState =
  cs_expected_tokens :: "(string, string) hmap"
  cs_configure :: "(string, Configure) hmap"
  cs_topology :: "Topology option"
  cs_lease_topology :: "'topo option"
  cs_resolved_topo :: ResolvedTopo
  cs_target :: "SetTarget option"
  cs_router :: Router
  cs_inflight :: "(bytes, Job) hmap"
  cs_inflight_owner :: "(bytes, string) hmap"
  cs_lease_issued_at :: "(bytes, nat) hmap"
  cs_outbound :: "(string, nat) hmap"
  cs_wakeups :: "(string, nat) hmap"
  cs_salts :: "(bytes, bytes) hmap"
  cs_current_best_milli :: "int option"
  cs_results_validated :: nat
  cs_last_abandoned_generation :: nat
  cs_attempt_tx :: bool
  cs_qblock_id :: "nat option"
  cs_stash :: WinStash
  cs_timing :: TimingTracker
  cs_generation :: nat
  cs_mined_generation :: "nat option"
  cs_miner_liveness :: "(string, MinerLiveness) hmap"
  cs_metrics :: CoordinatorMetrics
  cs_last_proof_block_hash :: string
  cs_miner_types :: "(string, string) hmap"
  cs_mempool_orders :: "(bytes, QualityGates) hmap"

definition resolved_topo_default :: ResolvedTopo where
  "resolved_topo_default = \<lparr> rs_edges_pos = [] \<rparr>"

definition new_state :: "'topo CoordinatorState" where
  "new_state =
     \<lparr> cs_expected_tokens = [], cs_configure = [], cs_topology = None, cs_lease_topology = None,
       cs_resolved_topo = resolved_topo_default, cs_target = None, cs_router = new_router,
       cs_inflight = [], cs_inflight_owner = [], cs_lease_issued_at = [], cs_outbound = [], cs_wakeups = [],
       cs_salts = [], cs_current_best_milli = None, cs_results_validated = 0,
       cs_last_abandoned_generation = 0, cs_attempt_tx = False, cs_qblock_id = None,
       cs_stash = new_stash WIN_STASH_K, cs_timing = timing_with_defaults, cs_generation = 0,
       cs_mined_generation = None, cs_miner_liveness = [], cs_metrics = new_metrics [],
       cs_last_proof_block_hash = [], cs_miner_types = [], cs_mempool_orders = [] \<rparr>"

definition state_set_topology ::
  "('e, 'd, 'topo) Externals \<Rightarrow> Topology option \<Rightarrow> 'topo CoordinatorState \<Rightarrow> 'topo CoordinatorState" where
  "state_set_topology x topology st =
     st\<lparr>cs_router := set_topology (xt_blake2 x) topology (cs_router st),
        cs_lease_topology := Option.bind topology (\<lambda>t.
          case xt_view x (to_proto t) of Inl _ \<Rightarrow> None | Inr v \<Rightarrow> Some v),
        cs_resolved_topo := (case topology of
            None \<Rightarrow> resolved_topo_default
          | Some t \<Rightarrow> resolved_topo_new (tp_nodes t) (edge_pairs t)),
        cs_topology := topology\<rparr>"

definition record_salt :: "bytes \<Rightarrow> bytes \<Rightarrow> 'topo CoordinatorState \<Rightarrow> 'topo CoordinatorState" where
  "record_salt job_id salt st = st\<lparr>cs_salts := hm_insert job_id salt (cs_salts st)\<rparr>"

definition take_salt :: "bytes \<Rightarrow> 'topo CoordinatorState \<Rightarrow> bytes option \<times> 'topo CoordinatorState" where
  "take_salt job_id st = (hm_get (cs_salts st) job_id, st\<lparr>cs_salts := hm_remove job_id (cs_salts st)\<rparr>)"

definition clear_salts :: "'topo CoordinatorState \<Rightarrow> 'topo CoordinatorState" where
  "clear_salts st = st\<lparr>cs_salts := []\<rparr>"

definition dispatch_inflight :: "nat \<Rightarrow> string \<Rightarrow> Job \<Rightarrow> 'topo CoordinatorState \<Rightarrow> 'topo CoordinatorState" where
  "dispatch_inflight now miner_id job st =
     st\<lparr>cs_inflight_owner := hm_insert (jb_job_id job) miner_id (cs_inflight_owner st),
        cs_lease_issued_at := (if is_lease job then hm_insert (jb_job_id job) now (cs_lease_issued_at st)
                               else cs_lease_issued_at st),
        cs_inflight := hm_insert (jb_job_id job) job (cs_inflight st)\<rparr>"

definition complete_inflight :: "bytes \<Rightarrow> 'topo CoordinatorState \<Rightarrow> Job option \<times> 'topo CoordinatorState" where
  "complete_inflight job_id st =
     (hm_get (cs_inflight st) job_id,
      st\<lparr>cs_inflight_owner := hm_remove job_id (cs_inflight_owner st),
         cs_lease_issued_at := hm_remove job_id (cs_lease_issued_at st),
         cs_inflight := hm_remove job_id (cs_inflight st)\<rparr>)"

definition cancel_inflight :: "nat \<Rightarrow> 'topo CoordinatorState \<Rightarrow> nat \<times> 'topo CoordinatorState" where
  "cancel_inflight max_generation st =
     (let ids = map fst (filter (\<lambda>e. jb_generation (snd e) \<noteq> 0 \<and> jb_generation (snd e) \<le> max_generation)
                          (cs_inflight st))
      in (length ids, fold (\<lambda>i s. snd (complete_inflight i s)) ids st))"

definition note_result :: "nat \<Rightarrow> 'topo CoordinatorState \<Rightarrow> 'topo CoordinatorState" where
  "note_result job_generation st =
     (if job_generation = cs_generation st then st\<lparr>cs_mined_generation := Some job_generation\<rparr> else st)"

definition round_mined :: "'topo CoordinatorState \<Rightarrow> bool" where
  "round_mined st \<longleftrightarrow> cs_mined_generation st = Some (cs_generation st)"

definition reclaim_one :: "bytes \<Rightarrow> Job list \<times> 'topo CoordinatorState \<Rightarrow> Job list \<times> 'topo CoordinatorState" where
  "reclaim_one i acc =
     (let (jobs, st) = acc; (job, st') = complete_inflight i st in (jobs @ opt_list job, st'))"

definition reclaim_miner :: "string \<Rightarrow> 'topo CoordinatorState \<Rightarrow> Job list \<times> 'topo CoordinatorState" where
  "reclaim_miner miner_id st =
     (let owned = map fst (filter (\<lambda>e. snd e = miner_id) (cs_inflight_owner st));
          (jobs, st1) = fold reclaim_one owned ([], st);
          (staged, r) = reclaim miner_id (cs_router st1)
      in (jobs @ staged,
          st1\<lparr>cs_router := r, cs_outbound := hm_remove miner_id (cs_outbound st1)\<rparr>))"

definition register_outbound :: "string \<Rightarrow> nat \<Rightarrow> 'topo CoordinatorState \<Rightarrow> 'topo CoordinatorState" where
  "register_outbound miner_id tx st = st\<lparr>cs_outbound := hm_insert miner_id tx (cs_outbound st)\<rparr>"

definition register_wakeup :: "string \<Rightarrow> nat \<Rightarrow> 'topo CoordinatorState \<Rightarrow> 'topo CoordinatorState" where
  "register_wakeup miner_id grants st = st\<lparr>cs_wakeups := hm_insert miner_id grants (cs_wakeups st)\<rparr>"

definition deregister_outbound :: "string \<Rightarrow> 'topo CoordinatorState \<Rightarrow> 'topo CoordinatorState" where
  "deregister_outbound miner_id st =
     st\<lparr>cs_outbound := hm_remove miner_id (cs_outbound st), cs_wakeups := hm_remove miner_id (cs_wakeups st)\<rparr>"

definition wake_dispatcher :: "string \<Rightarrow> 'topo CoordinatorState \<Rightarrow> SessionOut list" where
  "wake_dispatcher miner_id st = (if hm_get (cs_wakeups st) miner_id \<noteq> None then [Wake miner_id] else [])"

definition apply_capabilities ::
  "('e, 'd, 'topo) Externals \<Rightarrow> string \<Rightarrow> Capabilities \<Rightarrow> 'topo CoordinatorState
    \<Rightarrow> bool \<times> SessionOut list \<times> 'topo CoordinatorState" where
  "apply_capabilities x miner_id caps st =
     (if cp_protocol_version caps \<noteq> xt_protocol_version x then (False, [], st)
      else let (known, r) = update_capabilities miner_id
                 (from_capabilities (xt_backend_name x) (xt_algorithm_name x) caps) (cs_router st)
           in if \<not> known then (False, [], st\<lparr>cs_router := r\<rparr>)
              else (True, concat (map (\<lambda>i. wake_dispatcher i st) (miner_ids r)), st\<lparr>cs_router := r\<rparr>))"

definition short_job_id :: "bytes \<Rightarrow> string" where
  "short_job_id job_id = hex_plain (take 8 job_id) @ (if length job_id > 8 then ''..'' else [])"

definition gen_session_token :: "bytes \<Rightarrow> string" where
  "gen_session_token random_32 = hex_plain random_32"

subsection \<open>Dispatch\<close>

text \<open>The \<open>while let\<close> loop of \<open>dispatch_granted\<close>: each job handed out spends a credit, so it ends.\<close>

function drain_jobs :: "nat \<Rightarrow> string \<Rightarrow> 'topo CoordinatorState \<Rightarrow> Job list \<times> 'topo CoordinatorState" where
  "drain_jobs now miner_id st =
     (case next_job miner_id (cs_router st) of
        (None, r) \<Rightarrow> ([], st\<lparr>cs_router := r\<rparr>)
      | (Some job, r) \<Rightarrow>
          let (jobs, st') = drain_jobs now miner_id (dispatch_inflight now miner_id job (st\<lparr>cs_router := r\<rparr>))
          in (job # jobs, st'))"
  by pat_completeness auto

lemma dispatch_inflight_sel [simp]:
  "cs_router (dispatch_inflight now m job st) = cs_router st"
  "cs_metrics (dispatch_inflight now m job st) = cs_metrics st"
  "cs_inflight (dispatch_inflight now m job st) = hm_insert (jb_job_id job) job (cs_inflight st)"
  "cs_inflight_owner (dispatch_inflight now m job st) = hm_insert (jb_job_id job) m (cs_inflight_owner st)"
  by (simp_all add: dispatch_inflight_def)

lemma credits_of_next_job_less: "next_job m r = (Some job, r') \<Longrightarrow> credits_of m r' < credits_of m r"
  using credits_of_next_job [of m m r] by simp

termination drain_jobs
  by (relation "measure (\<lambda>(now, m, st). credits_of m (cs_router st))")
     (auto dest: credits_of_next_job_less [OF sym])

declare drain_jobs.simps [simp del]

definition dispatch_granted ::
  "nat \<Rightarrow> string \<Rightarrow> nat \<Rightarrow> 'topo CoordinatorState \<Rightarrow> SessionOut list \<times> 'topo CoordinatorState" where
  "dispatch_granted now miner_id credits st =
     (let st1 = st\<lparr>cs_router := grant_credits miner_id credits (cs_router st)\<rparr>;
          (jobs, st2) = drain_jobs now miner_id st1
      in (map (\<lambda>j. ToMiner (JobMsg j)) jobs,
          st2\<lparr>cs_metrics := record_contexts_dispatched miner_id (length jobs) (cs_metrics st2)\<rparr>))"

subsection \<open>Settling a proof-of-work outcome\<close>

record PowOutcome =
  po_miner_id :: string
  po_job :: Job
  po_job_id :: bytes
  po_salt :: "bytes option"
  po_validated :: Validated
  po_gates :: QualityGates
  po_current_best_milli :: "int option"
  po_device_access_time_us :: nat

definition job_is_pow :: "Job \<Rightarrow> bool" where
  "job_is_pow job = (case jb_provenance job of None \<Rightarrow> False | Some p \<Rightarrow> pv_is_pow p)"

definition job_order_id :: "Job \<Rightarrow> bytes" where
  "job_order_id job = (case jb_provenance job of None \<Rightarrow> [] | Some p \<Rightarrow> pv_order_id p)"

definition wants_submit :: "PowOutcome \<Rightarrow> bool" where
  "wants_submit o' \<longleftrightarrow> vd_accepted (po_validated o')
     \<and> beats_current (vd_best_energy_milli (po_validated o')) (po_current_best_milli o')"

definition pow_proof :: "PowOutcome \<Rightarrow> Proof" where
  "pow_proof o' =
     \<lparr> pr_job_id = po_job_id o',
       pr_best_energy_milli = vd_best_energy_milli (po_validated o'),
       pr_diversity_milli = vd_diversity_milli (po_validated o'),
       pr_n_valid = vd_n_valid (po_validated o'),
       pr_solutions = vd_selected_solutions (po_validated o'),
       pr_is_pow = job_is_pow (po_job o'),
       pr_order_id = job_order_id (po_job o'),
       pr_generation = jb_generation (po_job o'),
       pr_salt = (case po_salt o' of None \<Rightarrow> [] | Some s \<Rightarrow> s),
       pr_device_access_time_us = po_device_access_time_us o' \<rparr>"

text \<open>
  The section after the chain answered: a success sets the round best. The results are whether the
  proof counts as submitted and whether the candidate is kept for the win-time retry.
\<close>

definition settle_submit ::
  "nat \<Rightarrow> PowOutcome \<Rightarrow> string + SubmitReceipt \<Rightarrow> 'topo CoordinatorState
    \<Rightarrow> (bool \<times> bool \<times> SessionOut list) \<times> 'topo CoordinatorState" where
  "settle_submit now o' submit_result st =
     (let m = po_miner_id o' in
      case submit_result of
        Inr r \<Rightarrow>
          (case sb_action r of
             Success \<Rightarrow> ((True, False, [NotifySubmitted]),
               st\<lparr>cs_current_best_milli := Some (vd_best_energy_milli (po_validated o')),
                  cs_metrics := record_proof_submitted now m (cs_metrics st)\<rparr>)
           | Retry \<Rightarrow> ((False, True, []), st\<lparr>cs_metrics := record_submission_error m (cs_metrics st)\<rparr>)
           | StopRoundStale \<Rightarrow> ((False, False, []), st\<lparr>cs_metrics := record_stale_drop m (cs_metrics st)\<rparr>)
           | StopFatal \<Rightarrow> ((False, False, []), st\<lparr>cs_metrics := record_submission_error m (cs_metrics st)\<rparr>))
      | Inl _ \<Rightarrow> ((False, True, []), st\<lparr>cs_metrics := record_submission_error m (cs_metrics st)\<rparr>))"

definition stash_candidate :: "PowOutcome \<Rightarrow> Candidate" where
  "stash_candidate o' =
     \<lparr> ca_job_id = po_job_id o',
       ca_salt = po_salt o',
       ca_generation = jb_generation (po_job o'),
       ca_best_energy_milli = vd_raw_best_energy_milli (po_validated o'),
       ca_diversity_milli = vd_diversity_milli (po_validated o'),
       ca_n_valid = vd_n_valid (po_validated o'),
       ca_solutions = vd_stash_solutions (po_validated o'),
       ca_is_pow = job_is_pow (po_job o'),
       ca_order_id = job_order_id (po_job o'),
       ca_device_access_time_us = po_device_access_time_us o',
       ca_submitted = False \<rparr>"

definition attempt_context ::
  "PowOutcome \<Rightarrow> bool \<Rightarrow> (string + SubmitReceipt) option \<Rightarrow> 'topo CoordinatorState \<Rightarrow> AttemptContext" where
  "attempt_context o' submitted receipt st =
     (let ok = (case receipt of Some (Inr r) \<Rightarrow> Some r | _ \<Rightarrow> None) in
      \<lparr> ax_miner_type = (case hm_get (cs_miner_types st) (po_miner_id o') of None \<Rightarrow> [] | Some t \<Rightarrow> t),
        ax_threshold_milli = qg_min_energy_milli (po_gates o'),
        ax_last_proof_block_hash = cs_last_proof_block_hash st,
        ax_extrinsic_hash = map_option hex_encode (Option.bind ok sb_extrinsic_hash),
        ax_chain_block_hash = map_option hex_encode (Option.bind ok sb_block_hash),
        ax_chain_block_number = Option.bind ok sb_block_number,
        ax_pow_sequence = (if submitted
          then map_option mi_proofs_submitted (cv_miner_info (mt_chain (cs_metrics st))) else None),
        ax_device_access_time_us = po_device_access_time_us o' \<rparr>)"

text \<open>The last section: count the result, stash what is not submitted, record the attempt.\<close>

definition settle_record ::
  "('e, 'd, 'topo) Externals \<Rightarrow> nat \<Rightarrow> PowOutcome \<Rightarrow> bool \<Rightarrow> bool \<Rightarrow> (string + SubmitReceipt) option
    \<Rightarrow> 'topo CoordinatorState \<Rightarrow> SessionOut list \<times> 'topo CoordinatorState" where
  "settle_record x now_ms o' submitted retain_for_retry receipt st =
     (let v = po_validated o';
          (stash_changed, stash) =
            (if \<not> vd_accepted v \<or> retain_for_retry
             then stash_insert (xt_log x) (xt_pow x) (stash_candidate o') (cs_stash st)
             else (False, cs_stash st));
          st1 = st\<lparr>cs_results_validated := wrap_add_u64 (cs_results_validated st) 1, cs_stash := stash\<rparr>;
          attempt = new_attempt now_ms (cs_qblock_id st1) (po_miner_id o') (po_job_id o') (po_job o') v
                      submitted (attempt_context o' submitted receipt st1);
          summary = summary_body (xt_summary_json x) now_ms (cs_qblock_id st1) (cs_current_best_milli st1)
                      (cs_results_validated st1) (stash_summary (xt_log x) (xt_pow x) stash)
      in (if cs_attempt_tx st1
          then Write (WAttempt attempt)
               # (if stash_changed \<or> submitted then [Write (WSummary (cs_qblock_id st1) summary)] else [])
          else [], st1))"

definition settle_pow_result ::
  "('e, 'd, 'topo) Externals \<Rightarrow> nat \<Rightarrow> (Proof \<Rightarrow> string + SubmitReceipt) \<Rightarrow> PowOutcome
    \<Rightarrow> 'topo CoordinatorState \<Rightarrow> SessionOut list \<times> 'topo CoordinatorState" where
  "settle_pow_result x now submit_proof o' st =
     (if wants_submit o'
      then let res = submit_proof (pow_proof o');
               ((submitted, retain, outs), st1) = settle_submit now o' res st;
               (outs2, st2) = settle_record x now o' submitted retain (Some res) st1
           in (SubmitProof (pow_proof o') # outs @ outs2, st2)
      else settle_record x now o' False False None st)"

subsection \<open>Leases\<close>

definition is_lease_result :: "bytes \<Rightarrow> 'topo CoordinatorState \<Rightarrow> bool" where
  "is_lease_result job_id st = (case hm_get (cs_inflight st) job_id of None \<Rightarrow> False | Some job \<Rightarrow> is_lease job)"

definition device_time :: "MinerResult \<Rightarrow> nat" where
  "device_time result = (case rr_meta result of None \<Rightarrow> 0 | Some m \<Rightarrow> sm_device_access_time_us m)"

definition handle_lease_result ::
  "('e, 'd, 'topo) Externals \<Rightarrow> nat \<Rightarrow> (Proof \<Rightarrow> string + SubmitReceipt) \<Rightarrow> string \<Rightarrow> MinerResult
    \<Rightarrow> 'topo CoordinatorState \<Rightarrow> (SessionOut list \<times> 'topo CoordinatorState) option" where
  "handle_lease_result x now submit_proof miner_id result st =
     (let st1 = st\<lparr>cs_metrics := record_result_received miner_id (cs_metrics st)\<rparr> in
      case hm_get (cs_inflight st) (rr_job_id result) of
        None \<Rightarrow> Some ([], st1\<lparr>cs_metrics := record_duplicate_result_drop miner_id (cs_metrics st1)\<rparr>)
      | Some job \<Rightarrow>
          (case (jb_generator job, cs_lease_topology st, cs_target st) of
             (Some generator, Some view, Some target) \<Rightarrow>
               if rr_solutions result = [] then Some ([], st1)
               else (case verify_and_select (xt_select x) (xt_diversity x) (xt_decode_spins x) (xt_verify x)
                            (xt_num_nodes x) rr_solutions generator view target result of
                       None \<Rightarrow> None
                     | Some (Inl _) \<Rightarrow> Some ([], st1)
                     | Some (Inr (verified, validated)) \<Rightarrow>
                         Some (settle_pow_result x now submit_proof
                           \<lparr> po_miner_id = miner_id, po_job = job, po_job_id = vl_nonce verified,
                             po_salt = Some (vl_salt verified), po_validated = validated,
                             po_gates = gates_from_target (Some target),
                             po_current_best_milli = cs_current_best_milli st,
                             po_device_access_time_us = device_time result \<rparr>
                           (note_result (jb_generation job) st1)))
           | _ \<Rightarrow> Some ([], st1)))"

definition handle_lease_done :: "string \<Rightarrow> LeaseDone \<Rightarrow> 'topo CoordinatorState \<Rightarrow> 'topo CoordinatorState" where
  "handle_lease_done miner_id done st =
     (let st1 = st\<lparr>cs_router := record_lease_salts miner_id (ld_salts_done done) (cs_router st)\<rparr>;
          (job, st2) = complete_inflight (ld_job_id done) st1
      in case job of
           None \<Rightarrow> st2\<lparr>cs_metrics := record_duplicate_result_drop miner_id (cs_metrics st2)\<rparr>
         | Some job \<Rightarrow>
             let st3 = st2\<lparr>cs_router := record_completion miner_id (cs_router st2)\<rparr>;
                 st4 = (if jb_generation job = cs_generation st3
                        then st3\<lparr>cs_router := record_round_salts miner_id (ld_salts_done done) (cs_router st3)\<rparr>
                        else st3)
             in if ld_salts_done done > 0 then note_result (jb_generation job) st4 else st4)"

subsection \<open>Mempool orders\<close>

definition MAX_ORDER_SOLUTIONS :: nat where
  "MAX_ORDER_SOLUTIONS = 20"

definition order_proof :: "Job \<Rightarrow> Validated \<Rightarrow> nat \<Rightarrow> Proof" where
  "order_proof job v device_us =
     \<lparr> pr_job_id = jb_job_id job,
       pr_best_energy_milli = vd_best_energy_milli v,
       pr_diversity_milli = vd_diversity_milli v,
       pr_n_valid = vd_n_valid v,
       pr_solutions = take MAX_ORDER_SOLUTIONS (vd_selected_solutions v),
       pr_is_pow = False,
       pr_order_id = job_order_id job,
       pr_generation = 0,
       pr_salt = [],
       pr_device_access_time_us = device_us \<rparr>"

definition submit_mempool_result ::
  "('e, 'd, 'topo) Externals \<Rightarrow> (Proof \<Rightarrow> string + SubmitReceipt) \<Rightarrow> Job \<Rightarrow> Solution list \<Rightarrow> nat
    \<Rightarrow> 'topo CoordinatorState \<Rightarrow> (SessionOut list \<times> 'topo CoordinatorState) option" where
  "submit_mempool_result x submit_solution job solutions device_us st =
     (case (jb_ising job, hm_get (cs_mempool_orders st) (jb_job_id job)) of
        (Some ising, Some gates) \<Rightarrow>
          (case validate_result (xt_select x) (xt_diversity x) (xt_decode_i32 x) (xt_decode_spins x)
                  ising solutions gates resolved_topo_default of
             None \<Rightarrow> None
           | Some v \<Rightarrow>
               if \<not> vd_accepted v then Some ([], st)
               else let p = order_proof job v device_us;
                        forget = st\<lparr>cs_mempool_orders := hm_remove (jb_job_id job) (cs_mempool_orders st)\<rparr>
                    in Some ([SubmitSolution p],
                             case submit_solution p of
                               Inr r \<Rightarrow> (if sb_action r = Retry then forget else st)
                             | Inl _ \<Rightarrow> forget))
      | _ \<Rightarrow> Some ([], st))"

subsection \<open>Message handlers\<close>

text \<open>The locked section that takes a result off the in-flight table.\<close>

definition take_result ::
  "string \<Rightarrow> bytes \<Rightarrow> 'topo CoordinatorState \<Rightarrow> (Job option \<times> bytes option) \<times> 'topo CoordinatorState" where
  "take_result miner_id job_id st =
     (let st1 = st\<lparr>cs_metrics := record_result_received miner_id (cs_metrics st)\<rparr>;
          (job, st2) = complete_inflight job_id st1;
          st3 = (case job of
                   Some j \<Rightarrow> note_result (jb_generation j)
                     (st2\<lparr>cs_router := record_completion miner_id (cs_router st2)\<rparr>)
                 | None \<Rightarrow> st2\<lparr>cs_metrics := record_duplicate_result_drop miner_id (cs_metrics st2)\<rparr>);
          (salt, st4) = take_salt job_id st3
      in ((job, salt), st4))"

definition is_mempool :: "Job \<Rightarrow> bool" where
  "is_mempool job = (case jb_provenance job of None \<Rightarrow> False | Some p \<Rightarrow> \<not> pv_is_pow p)"

definition handle_plain_result ::
  "('e, 'd, 'topo) Externals \<Rightarrow> nat \<Rightarrow> (Proof \<Rightarrow> string + SubmitReceipt) \<Rightarrow> (Proof \<Rightarrow> string + SubmitReceipt)
    \<Rightarrow> string \<Rightarrow> MinerResult \<Rightarrow> 'topo CoordinatorState \<Rightarrow> (SessionOut list \<times> 'topo CoordinatorState) option" where
  "handle_plain_result x now submit_proof submit_solution miner_id result st =
     (let ((job, salt), st1) = take_result miner_id (rr_job_id result) st;
          gates = gates_from_target (cs_target st1)
      in case job of
           None \<Rightarrow> Some ([], st1)
         | Some job \<Rightarrow>
             if is_mempool job
             then submit_mempool_result x submit_solution job (rr_solutions result) (device_time result) st1
             else let st2 = (if jb_generation job < cs_generation st1
                             then st1\<lparr>cs_metrics := record_stale_drop miner_id (cs_metrics st1)\<rparr> else st1)
                  in case jb_ising job of
                       None \<Rightarrow> Some ([], st2)
                     | Some ising \<Rightarrow>
                         (case validate_result (xt_select x) (xt_diversity x) (xt_decode_i32 x)
                                 (xt_decode_spins x) ising (rr_solutions result) gates (cs_resolved_topo st1) of
                            None \<Rightarrow> None
                          | Some validated \<Rightarrow>
                              Some (settle_pow_result x now submit_proof
                                \<lparr> po_miner_id = miner_id, po_job = job, po_job_id = rr_job_id result,
                                  po_salt = salt, po_validated = validated, po_gates = gates,
                                  po_current_best_milli = cs_current_best_milli st1,
                                  po_device_access_time_us = device_time result \<rparr> st2)))"

definition handle_result ::
  "('e, 'd, 'topo) Externals \<Rightarrow> nat \<Rightarrow> (Proof \<Rightarrow> string + SubmitReceipt) \<Rightarrow> (Proof \<Rightarrow> string + SubmitReceipt)
    \<Rightarrow> string \<Rightarrow> MinerResult \<Rightarrow> 'topo CoordinatorState \<Rightarrow> (SessionOut list \<times> 'topo CoordinatorState) option" where
  "handle_result x now submit_proof submit_solution miner_id result st =
     (if is_lease_result (rr_job_id result) st
      then handle_lease_result x now submit_proof miner_id result st
      else handle_plain_result x now submit_proof submit_solution miner_id result st)"

definition handle_reject ::
  "nat \<Rightarrow> string \<Rightarrow> bytes \<Rightarrow> RejectReason \<Rightarrow> 'topo CoordinatorState \<Rightarrow> SessionOut list \<times> 'topo CoordinatorState" where
  "handle_reject now miner_id job_id reason st =
     (let (job, st1) = complete_inflight job_id st in
      case job of
        None \<Rightarrow> ([], st1)
      | Some job \<Rightarrow>
          let (warned, r) = on_reject now miner_id job reason (record_completion miner_id (cs_router st1))
          in (map DropWarning (opt_list warned), st1\<lparr>cs_router := r\<rparr>))"

definition handle_status ::
  "string \<Rightarrow> nat \<Rightarrow> (string, string) hmap \<Rightarrow> 'topo CoordinatorState \<Rightarrow> SessionOut list \<times> 'topo CoordinatorState" where
  "handle_status miner_id abandoned_generation sampler_stats st =
     (let st1 = (if abandoned_generation > 0
                 then st\<lparr>cs_last_abandoned_generation := abandoned_generation\<rparr> else st);
          prev = (case hm_get (cs_miner_liveness st1) miner_id of None \<Rightarrow> liveness_default | Some l \<Rightarrow> l);
          (new, events) = evaluate_status prev sampler_stats (cs_generation st1)
      in (map LogLiveness events,
          st1\<lparr>cs_miner_liveness := hm_insert miner_id new (cs_miner_liveness st1)\<rparr>))"

definition seed_credits :: "Configure \<Rightarrow> nat" where
  "seed_credits configure = max (cf_queue_depth configure) 1"

text \<open>One turn of the message loop.\<close>

fun session_message ::
  "('e, 'd, 'topo) Externals \<Rightarrow> nat \<Rightarrow> (Proof \<Rightarrow> string + SubmitReceipt) \<Rightarrow> (Proof \<Rightarrow> string + SubmitReceipt)
    \<Rightarrow> Configure \<Rightarrow> string \<Rightarrow> MinerMsg \<Rightarrow> 'topo CoordinatorState
    \<Rightarrow> (SessionOut list \<times> 'topo CoordinatorState) option" where
  "session_message x now sp ss cf m Ready st = Some ([Grant (seed_credits cf)], st)"
| "session_message x now sp ss cf m (JobRequest credits) st = Some ([Grant credits], st)"
| "session_message x now sp ss cf m (ResultMsg result) st = handle_result x now sp ss m result st"
| "session_message x now sp ss cf m (Reject job_id reason) st = Some (handle_reject now m job_id reason st)"
| "session_message x now sp ss cf m (StatusMsg abandoned stats) st = Some (handle_status m abandoned stats st)"
| "session_message x now sp ss cf m (Fatal _ _) st = Some ([], st)"
| "session_message x now sp ss cf m (HelloMsg _) st = Some ([], st)"
| "session_message x now sp ss cf m (CapabilitiesMsg caps) st = Some (snd (apply_capabilities x m caps st))"
| "session_message x now sp ss cf m (LeaseDoneMsg done) st = Some ([], handle_lease_done m done st)"
| "session_message x now sp ss cf m Unrecognized st = Some ([], st)"

subsection \<open>Handshake\<close>

definition default_configure :: Configure where
  "default_configure = \<lparr> cf_queue_depth = 3, cf_idle_timeout_s = 300, cf_heartbeat_s = 15,
     cf_reconnect_window_s = 60, cf_backend_toml = [] \<rparr>"

definition hello_ok :: "('e, 'd, 'topo) Externals \<Rightarrow> Hello \<Rightarrow> 'topo CoordinatorState \<Rightarrow> bool" where
  "hello_ok x hello st =
     (let expected = (case hm_get (cs_expected_tokens st) (he_miner_id hello) of None \<Rightarrow> [] | Some t \<Rightarrow> t)
      in expected \<noteq> [] \<and> he_session_token hello = expected
         \<and> (case he_capabilities hello of
              None \<Rightarrow> False | Some caps \<Rightarrow> cp_protocol_version caps = xt_protocol_version x))"

text \<open>
  The first message of a session; \<open>tx\<close> is this session's channel. No miner in the result: the stream is dropped.
  \<open>sent i\<close> is whether the \<open>i\<close>-th send of the handshake finds the stream open. A stream that closes before the welcome or
  the configuration ends the session with the miner already registered and no outbound channel; the two later sends
  ignore a failure.
\<close>

definition session_handshake ::
  "('e, 'd, 'topo) Externals \<Rightarrow> (nat \<Rightarrow> bool) \<Rightarrow> nat \<Rightarrow> MinerMsg \<Rightarrow> 'topo CoordinatorState
    \<Rightarrow> (string \<times> Configure) option \<times> SessionOut list \<times> 'topo CoordinatorState" where
  "session_handshake x sent tx msg st =
     (case msg of
        HelloMsg hello \<Rightarrow>
          if \<not> hello_ok x hello st then (None, [], st)
          else (case he_capabilities hello of
             None \<Rightarrow> (None, [], st)
           | Some caps \<Rightarrow>
               let miner_id = he_miner_id hello;
                   configure = (case hm_get (cs_configure st) miner_id of
                                  None \<Rightarrow> default_configure | Some c \<Rightarrow> c);
                   miner_caps = from_capabilities (xt_backend_name x) (xt_algorithm_name x) caps;
                   st1 = st\<lparr>cs_router := register_miner miner_id miner_caps (cs_router st)\<rparr>;
                   welcome = ToMiner (Welcome (xt_protocol_version x))
               in if \<not> sent 0 then (None, [], st1)
                  else if \<not> sent 1 then (None, [welcome], st1)
                  else let outs = [welcome, ToMiner (ConfigureMsg configure)]
                         @ (if sent 2 then map (\<lambda>t. ToMiner (TopologyMsg (to_proto t))) (opt_list (cs_topology st1)) else [])
                         @ (if sent 3 then map (\<lambda>t. ToMiner (SetTargetMsg t)) (opt_list (cs_target st1)) else [])
                       in (Some (miner_id, configure), outs,
                           register_wakeup miner_id tx (register_outbound miner_id tx st1)))
      | _ \<Rightarrow> (None, [], st))"

subsection \<open>Requeue by the supervisor\<close>

definition requeue_miner :: "string \<Rightarrow> 'topo CoordinatorState \<Rightarrow> 'topo CoordinatorState" where
  "requeue_miner miner_id st =
     (let (jobs, st1) = reclaim_miner miner_id st
      in st1\<lparr>cs_router := fold (\<lambda>job r. snd (route job r)) jobs (cs_router st1)\<rparr>)"

end
