(* ===== verification/Session_Laws.thy ===== *)
theory Session_Laws
  imports Session
begin

text \<open>
  What the sessions promise together. A step relation lists every section of code that touches the
  queues or the in-flight table (dispatch, staging, a miner's message, a reconnect, a cancel, the
  requeue after a miner's exit); rule induction shows that a job is never lost, never duplicated
  and never settled twice. Further lemmas: mempool results stay out of the round, cancelled work is
  never scored, and the interleaving that can regress the round's best.
\<close>

subsection \<open>The jobs a coordinator holds\<close>

definition inflight_jobs :: "'topo CoordinatorState \<Rightarrow> Job multiset" where
  "inflight_jobs st = hm_total (\<lambda>j. {#j#}) (cs_inflight st)"

definition live_jobs :: "'topo CoordinatorState \<Rightarrow> Job multiset" where
  "live_jobs st = router_jobs (cs_router st) + inflight_jobs st"

definition unique_ids :: "Job multiset \<Rightarrow> bool" where
  "unique_ids J \<longleftrightarrow> (\<forall>i. count (image_mset jb_job_id J) i \<le> 1)"

definition session_wf :: "'topo CoordinatorState \<Rightarrow> bool" where
  "session_wf st \<longleftrightarrow> router_wf (cs_router st)
     \<and> hm_wf (cs_inflight st) \<and> hm_wf (cs_inflight_owner st)
     \<and> set (hm_keys (cs_inflight st)) = set (hm_keys (cs_inflight_owner st))
     \<and> (\<forall>i job. hm_get (cs_inflight st) i = Some job \<longrightarrow> jb_job_id job = i)
     \<and> unique_ids (live_jobs st)"

definition fresh_id :: "bytes \<Rightarrow> 'topo CoordinatorState \<Rightarrow> bool" where
  "fresh_id i st \<longleftrightarrow> i \<notin># image_mset jb_job_id (live_jobs st)"

lemma at_most_one_insert:
  fixes c :: "'a \<Rightarrow> nat"
  shows "(\<forall>i. (if a = i then Suc (c i) else c i) \<le> 1) \<longleftrightarrow> (\<forall>i. c i \<le> 1) \<and> c a = 0"
proof
  assume h: "\<forall>i. (if a = i then Suc (c i) else c i) \<le> 1"
  have "c a = 0" using spec [OF h, of a] by simp
  moreover have "c i \<le> 1" for i using spec [OF h, of i] by (cases "a = i") simp_all
  ultimately show "(\<forall>i. c i \<le> 1) \<and> c a = 0" by blast
qed auto

lemma unique_ids_add: "unique_ids (add_mset j J) \<longleftrightarrow> unique_ids J \<and> jb_job_id j \<notin># image_mset jb_job_id J"
  unfolding unique_ids_def image_mset_add_mset count_add_mset not_in_iff at_most_one_insert ..

lemma inflight_jobs_mem: "j \<in># inflight_jobs st \<longleftrightarrow> (\<exists>i. (i, j) \<in> set (cs_inflight st))"
proof -
  have "j \<in># hm_total (\<lambda>j. {#j#}) m \<longleftrightarrow> (\<exists>i. (i, j) \<in> set m)" for m :: "(bytes, Job) hmap"
    by (induction m) (auto simp: hm_total_def)
  then show ?thesis by (simp add: inflight_jobs_def)
qed

lemma inflight_get_mem: "hm_get (cs_inflight st) i = Some j \<Longrightarrow> j \<in># inflight_jobs st"
  unfolding inflight_jobs_mem hm_get_def by (blast dest: map_of_SomeD)

text \<open>The other fields do not matter.\<close>

lemma session_wf_other [simp]:
  "live_jobs (st\<lparr>cs_metrics := v0\<rparr>) = live_jobs st" "session_wf (st\<lparr>cs_metrics := v0\<rparr>) = session_wf st"
  "live_jobs (st\<lparr>cs_salts := v1\<rparr>) = live_jobs st" "session_wf (st\<lparr>cs_salts := v1\<rparr>) = session_wf st"
  "live_jobs (st\<lparr>cs_current_best_milli := v2\<rparr>) = live_jobs st" "session_wf (st\<lparr>cs_current_best_milli := v2\<rparr>) = session_wf st"
  "live_jobs (st\<lparr>cs_results_validated := v3\<rparr>) = live_jobs st" "session_wf (st\<lparr>cs_results_validated := v3\<rparr>) = session_wf st"
  "live_jobs (st\<lparr>cs_stash := v4\<rparr>) = live_jobs st" "session_wf (st\<lparr>cs_stash := v4\<rparr>) = session_wf st"
  "live_jobs (st\<lparr>cs_mined_generation := v5\<rparr>) = live_jobs st" "session_wf (st\<lparr>cs_mined_generation := v5\<rparr>) = session_wf st"
  "live_jobs (st\<lparr>cs_miner_liveness := v6\<rparr>) = live_jobs st" "session_wf (st\<lparr>cs_miner_liveness := v6\<rparr>) = session_wf st"
  "live_jobs (st\<lparr>cs_mempool_orders := v7\<rparr>) = live_jobs st" "session_wf (st\<lparr>cs_mempool_orders := v7\<rparr>) = session_wf st"
  "live_jobs (st\<lparr>cs_last_abandoned_generation := v8\<rparr>) = live_jobs st" "session_wf (st\<lparr>cs_last_abandoned_generation := v8\<rparr>) = session_wf st"
  "live_jobs (st\<lparr>cs_outbound := v9\<rparr>) = live_jobs st" "session_wf (st\<lparr>cs_outbound := v9\<rparr>) = session_wf st"
  "live_jobs (st\<lparr>cs_wakeups := v10\<rparr>) = live_jobs st" "session_wf (st\<lparr>cs_wakeups := v10\<rparr>) = session_wf st"
  "live_jobs (st\<lparr>cs_target := v11\<rparr>) = live_jobs st" "session_wf (st\<lparr>cs_target := v11\<rparr>) = session_wf st"
  "live_jobs (st\<lparr>cs_generation := v12\<rparr>) = live_jobs st" "session_wf (st\<lparr>cs_generation := v12\<rparr>) = session_wf st"
  "live_jobs (st\<lparr>cs_qblock_id := v13\<rparr>) = live_jobs st" "session_wf (st\<lparr>cs_qblock_id := v13\<rparr>) = session_wf st"
  "live_jobs (st\<lparr>cs_last_proof_block_hash := v14\<rparr>) = live_jobs st" "session_wf (st\<lparr>cs_last_proof_block_hash := v14\<rparr>) = session_wf st"
  by (simp_all add: session_wf_def live_jobs_def inflight_jobs_def)

text \<open>A section that only rearranges the router's jobs.\<close>

lemma session_wf_router:
  assumes "session_wf st" "router_wf r" "router_jobs r = router_jobs (cs_router st)"
  shows "session_wf (st\<lparr>cs_router := r\<rparr>)" "live_jobs (st\<lparr>cs_router := r\<rparr>) = live_jobs st"
  using assms by (simp_all add: session_wf_def live_jobs_def inflight_jobs_def)

lemma session_wf_router_add:
  assumes "session_wf st" "router_wf r" "router_jobs r = add_mset job (router_jobs (cs_router st))"
    "fresh_id (jb_job_id job) st"
  shows "session_wf (st\<lparr>cs_router := r\<rparr>)" "live_jobs (st\<lparr>cs_router := r\<rparr>) = add_mset job (live_jobs st)"
proof -
  show l: "live_jobs (st\<lparr>cs_router := r\<rparr>) = add_mset job (live_jobs st)"
    using assms(3) by (simp add: live_jobs_def inflight_jobs_def)
  show "session_wf (st\<lparr>cs_router := r\<rparr>)"
    using assms(1,2,4) l unfolding session_wf_def fresh_id_def by (simp add: unique_ids_add)
qed

subsection \<open>In-flight bookkeeping\<close>

lemma complete_inflight_sel [simp]:
  "cs_router (snd (complete_inflight i st)) = cs_router st"
  "cs_generation (snd (complete_inflight i st)) = cs_generation st"
  "cs_metrics (snd (complete_inflight i st)) = cs_metrics st"
  "cs_inflight (snd (complete_inflight i st)) = hm_remove i (cs_inflight st)"
  "cs_inflight_owner (snd (complete_inflight i st)) = hm_remove i (cs_inflight_owner st)"
  "fst (complete_inflight i st) = hm_get (cs_inflight st) i"
  by (simp_all add: complete_inflight_def)

lemma complete_inflight_ledger:
  assumes "session_wf st"
  shows "session_wf (snd (complete_inflight i st))"
    "live_jobs (snd (complete_inflight i st)) + mset (opt_list (fst (complete_inflight i st))) = live_jobs st"
proof -
  have wf: "hm_wf (cs_inflight st)" using assms by (simp add: session_wf_def)
  show l: "live_jobs (snd (complete_inflight i st)) + mset (opt_list (fst (complete_inflight i st))) = live_jobs st"
  proof (cases "hm_get (cs_inflight st) i")
    case None
    then show ?thesis by (simp add: live_jobs_def inflight_jobs_def hm_remove_absent)
  next
    case (Some job)
    then show ?thesis
      using hm_total_remove [OF wf Some, of "\<lambda>j. {#j#}"] by (simp add: live_jobs_def inflight_jobs_def)
  qed
  have "unique_ids (live_jobs (snd (complete_inflight i st)))"
  proof (cases "hm_get (cs_inflight st) i")
    case None
    with l assms show ?thesis by (simp add: session_wf_def)
  next
    case (Some job)
    with l assms show ?thesis by (simp add: session_wf_def) (metis unique_ids_add)
  qed
  with assms show "session_wf (snd (complete_inflight i st))"
    by (auto simp: session_wf_def hm.wf_del hm.keys_del hm.get_del split: if_splits)
qed

lemma dispatch_inflight_ledger:
  assumes "session_wf (st\<lparr>cs_router := r\<rparr>)" "fresh_id (jb_job_id job) (st\<lparr>cs_router := r\<rparr>)"
  shows "session_wf (dispatch_inflight now m job (st\<lparr>cs_router := r\<rparr>))"
    "live_jobs (dispatch_inflight now m job (st\<lparr>cs_router := r\<rparr>)) = add_mset job (live_jobs (st\<lparr>cs_router := r\<rparr>))"
proof -
  have "hm_get (cs_inflight st) (jb_job_id job) = None"
  proof (rule ccontr)
    assume "hm_get (cs_inflight st) (jb_job_id job) \<noteq> None"
    then obtain j where j: "hm_get (cs_inflight st) (jb_job_id job) = Some j" by blast
    then have "j \<in># inflight_jobs (st\<lparr>cs_router := r\<rparr>)" "jb_job_id j = jb_job_id job"
      using assms(1) inflight_get_mem [of "st\<lparr>cs_router := r\<rparr>"] by (auto simp: session_wf_def)
    then have "jb_job_id job \<in># image_mset jb_job_id (live_jobs (st\<lparr>cs_router := r\<rparr>))"
      unfolding live_jobs_def by (metis image_eqI set_image_mset union_iff)
    with assms(2) show False by (simp add: fresh_id_def)
  qed
  then show l: "live_jobs (dispatch_inflight now m job (st\<lparr>cs_router := r\<rparr>))
      = add_mset job (live_jobs (st\<lparr>cs_router := r\<rparr>))"
    by (simp add: live_jobs_def inflight_jobs_def hm_total_insert_new)
  show "session_wf (dispatch_inflight now m job (st\<lparr>cs_router := r\<rparr>))"
    using assms l unfolding session_wf_def fresh_id_def
    by (auto simp: hm.wf_ins hm.keys_ins hm.get_ins unique_ids_add split: if_splits)
qed

lemma drain_jobs_ledger:
  "session_wf st \<Longrightarrow> session_wf (snd (drain_jobs now m st)) \<and> live_jobs (snd (drain_jobs now m st)) = live_jobs st"
proof (induction now m st rule: drain_jobs.induct)
  case (1 now m st)
  have rw: "router_wf (cs_router st)" using "1.prems" by (simp add: session_wf_def)
  obtain res r where nj: "next_job m (cs_router st) = (res, r)" by fastforce
  have r: "router_wf r" "router_jobs r + mset (opt_list res) = router_jobs (cs_router st)"
    using router_wf_next_job [of "cs_router st" m] router_jobs_next_job [of "cs_router st" m] rw nj by simp_all
  show ?case
  proof (cases res)
    case None
    with nj r show ?thesis
      using session_wf_router [OF "1.prems"] by (subst (1 2) drain_jobs.simps) simp
  next
    case (Some job)
    let ?s = "st\<lparr>cs_router := r\<rparr>"
    have l: "live_jobs st = add_mset job (live_jobs ?s)"
      using r(2) Some by (simp add: live_jobs_def inflight_jobs_def)
    have f: "session_wf ?s" "fresh_id (jb_job_id job) ?s"
      using "1.prems" r(1) l by (auto simp: session_wf_def unique_ids_add fresh_id_def)
    note d = dispatch_inflight_ledger [OF f, of now m]
    have "drain_jobs now m st = (job # fst (drain_jobs now m (dispatch_inflight now m job ?s)),
        snd (drain_jobs now m (dispatch_inflight now m job ?s)))"
      using nj Some by (subst drain_jobs.simps) (simp add: split_def Let_def)
    then show ?thesis using "1.IH" [OF nj [symmetric] Some d(1)] d(2) l by simp
  qed
qed

lemma dispatch_granted_ledger:
  assumes "session_wf st"
  shows "session_wf (snd (dispatch_granted now m c st))" "live_jobs (snd (dispatch_granted now m c st)) = live_jobs st"
proof -
  let ?r = "grant_credits m c (cs_router st)"
  have rw: "router_wf (cs_router st)" using assms by (simp add: session_wf_def)
  have "router_wf ?r" "router_jobs ?r = router_jobs (cs_router st)"
    using router_wf_step [OF rw, of _ "OpGrant m c"] router_jobs_step [OF rw, of _ "OpGrant m c"]
    by (simp_all add: jobs_out_def)
  note s = session_wf_router [OF assms this]
  note d = drain_jobs_ledger [OF s(1), of now m]
  then show "session_wf (snd (dispatch_granted now m c st))"
    "live_jobs (snd (dispatch_granted now m c st)) = live_jobs st"
    using s(2) by (simp_all add: dispatch_granted_def split_def Let_def)
qed

subsection \<open>Message handlers\<close>

lemma note_result_ledger [simp]:
  "session_wf (note_result g st) = session_wf st" "live_jobs (note_result g st) = live_jobs st"
  by (simp_all add: note_result_def)

lemma settle_submit_ledger [simp]:
  "session_wf (snd (settle_submit now o' res st)) = session_wf st"
  "live_jobs (snd (settle_submit now o' res st)) = live_jobs st"
  by (auto simp: settle_submit_def Let_def split: sum.split SubmitAction.split)

lemma settle_record_ledger [simp]:
  "session_wf (snd (settle_record x now o' a b res st)) = session_wf st"
  "live_jobs (snd (settle_record x now o' a b res st)) = live_jobs st"
  by (simp_all add: settle_record_def Let_def split_def)

lemma settle_pow_result_ledger [simp]:
  "session_wf (snd (settle_pow_result x now sp o' st)) = session_wf st"
  "live_jobs (snd (settle_pow_result x now sp o' st)) = live_jobs st"
  by (simp_all add: settle_pow_result_def Let_def split_def)

text \<open>Router calls that move no job.\<close>

lemma router_counters_ledger:
  assumes "session_wf st"
  shows "session_wf (st\<lparr>cs_router := record_completion m (cs_router st)\<rparr>)"
    "live_jobs (st\<lparr>cs_router := record_completion m (cs_router st)\<rparr>) = live_jobs st"
    "session_wf (st\<lparr>cs_router := record_lease_salts m n (cs_router st)\<rparr>)"
    "live_jobs (st\<lparr>cs_router := record_lease_salts m n (cs_router st)\<rparr>) = live_jobs st"
    "session_wf (st\<lparr>cs_router := record_round_salts m n (cs_router st)\<rparr>)"
    "live_jobs (st\<lparr>cs_router := record_round_salts m n (cs_router st)\<rparr>) = live_jobs st"
proof -
  have rw: "router_wf (cs_router st)" using assms by (simp add: session_wf_def)
  note w = router_wf_step [OF rw] and j = router_jobs_step [OF rw]
  show "session_wf (st\<lparr>cs_router := record_completion m (cs_router st)\<rparr>)"
    "live_jobs (st\<lparr>cs_router := record_completion m (cs_router st)\<rparr>) = live_jobs st"
    using w [of _ "OpComplete m"] j [of _ "OpComplete m"]
    by (simp_all add: jobs_out_def session_wf_router [OF assms])
  show "session_wf (st\<lparr>cs_router := record_lease_salts m n (cs_router st)\<rparr>)"
    "live_jobs (st\<lparr>cs_router := record_lease_salts m n (cs_router st)\<rparr>) = live_jobs st"
    using w [of _ "OpLeaseSalts m n"] j [of _ "OpLeaseSalts m n"]
    by (simp_all add: jobs_out_def session_wf_router [OF assms])
  show "session_wf (st\<lparr>cs_router := record_round_salts m n (cs_router st)\<rparr>)"
    "live_jobs (st\<lparr>cs_router := record_round_salts m n (cs_router st)\<rparr>) = live_jobs st"
    using w [of _ "OpRoundSalts m n"] j [of _ "OpRoundSalts m n"]
    by (simp_all add: jobs_out_def session_wf_router [OF assms])
qed

text \<open>The job a message takes off the in-flight table.\<close>

fun settled_by :: "MinerMsg \<Rightarrow> 'topo CoordinatorState \<Rightarrow> Job list" where
  "settled_by (ResultMsg r) st =
     (if is_lease_result (rr_job_id r) st then [] else opt_list (hm_get (cs_inflight st) (rr_job_id r)))"
| "settled_by (LeaseDoneMsg d) st = opt_list (hm_get (cs_inflight st) (ld_job_id d))"
| "settled_by _ st = []"

lemma take_result_ledger:
  assumes "session_wf st"
  shows "session_wf (snd (take_result m i st))"
    "live_jobs (snd (take_result m i st)) + mset (opt_list (hm_get (cs_inflight st) i)) = live_jobs st"
    "fst (fst (take_result m i st)) = hm_get (cs_inflight st) i"
proof -
  define s1 where "s1 = st\<lparr>cs_metrics := record_result_received m (cs_metrics st)\<rparr>"
  have s1: "session_wf s1" "live_jobs s1 = live_jobs st" "cs_inflight s1 = cs_inflight st"
    using assms by (simp_all add: s1_def)
  note c = complete_inflight_ledger [OF s1(1), of i]
  have e: "take_result m i st = (let (job, st2) = complete_inflight i s1;
          st3 = (case job of
                   Some j \<Rightarrow> note_result (jb_generation j)
                     (st2\<lparr>cs_router := record_completion m (cs_router st2)\<rparr>)
                 | None \<Rightarrow> st2\<lparr>cs_metrics := record_duplicate_result_drop m (cs_metrics st2)\<rparr>)
      in ((job, hm_get (cs_salts st3) i), st3\<lparr>cs_salts := hm_remove i (cs_salts st3)\<rparr>))"
    by (simp add: take_result_def s1_def take_salt_def Let_def split_def)
  show "session_wf (snd (take_result m i st))"
    "live_jobs (snd (take_result m i st)) + mset (opt_list (hm_get (cs_inflight st) i)) = live_jobs st"
    "fst (fst (take_result m i st)) = hm_get (cs_inflight st) i"
    using c s1 router_counters_ledger(1,2) [OF c(1), of m]
    by (auto simp: e Let_def split_def split: option.split)
qed

lemma submit_mempool_ledger:
  "submit_mempool_result x ss job sols t st = Some (outs, st') \<Longrightarrow>
     session_wf st' = session_wf st \<and> live_jobs st' = live_jobs st"
  by (auto simp: submit_mempool_result_def Let_def split: option.splits sum.splits if_splits)

lemma handle_lease_result_ledger:
  assumes "handle_lease_result x now sp m r st = Some (outs, st')"
  shows "session_wf st' = session_wf st \<and> live_jobs st' = live_jobs st"
proof -
  have sp: "settle_pow_result x now sp o' s = (outs, st') \<Longrightarrow>
      session_wf st' = session_wf s \<and> live_jobs st' = live_jobs s" for o' s
    using settle_pow_result_ledger [of x now sp o' s] by simp
  show ?thesis
    using assms
    by (auto simp: handle_lease_result_def Let_def split: option.splits if_splits sum.splits dest!: sp)
qed

lemma handle_plain_result_ledger:
  assumes "session_wf st" "handle_plain_result x now sp ss m r st = Some (outs, st')"
  shows "session_wf st' \<and> live_jobs st' + mset (opt_list (hm_get (cs_inflight st) (rr_job_id r))) = live_jobs st"
proof -
  obtain job salt st1 where t: "take_result m (rr_job_id r) st = ((job, salt), st1)" by (metis surj_pair)
  note tl = take_result_ledger [OF assms(1), of m "rr_job_id r", unfolded t fst_conv snd_conv]
  have sp: "settle_pow_result x now sp o' s = (outs, st') \<Longrightarrow>
      session_wf st' = session_wf s \<and> live_jobs st' = live_jobs s" for o' s
    using settle_pow_result_ledger [of x now sp o' s] by simp
  have "session_wf st' = session_wf st1 \<and> live_jobs st' = live_jobs st1"
    using assms(2) unfolding handle_plain_result_def t
    by (auto simp: Let_def split: option.splits if_splits dest!: sp dest: submit_mempool_ledger)
  with tl show ?thesis by simp
qed

lemma handle_reject_ledger:
  assumes "session_wf st"
  shows "session_wf (snd (handle_reject now m i reason st))"
    "live_jobs (snd (handle_reject now m i reason st)) = live_jobs st"
proof -
  define s1 where "s1 = snd (complete_inflight i st)"
  have c: "session_wf s1" "live_jobs s1 + mset (opt_list (hm_get (cs_inflight st) i)) = live_jobs st"
    using complete_inflight_ledger [OF assms, of i] by (simp_all add: s1_def)
  have e: "complete_inflight i st = (hm_get (cs_inflight st) i, s1)"
    by (simp add: s1_def prod_eq_iff)
  have "session_wf (snd (handle_reject now m i reason st)) \<and> live_jobs (snd (handle_reject now m i reason st)) = live_jobs st"
  proof (cases "hm_get (cs_inflight st) i")
    case None
    with c show ?thesis by (simp add: handle_reject_def e)
  next
    case (Some job)
    let ?rc = "record_completion m (cs_router s1)"
    let ?r = "snd (on_reject now m job reason ?rc)"
    have w0: "router_wf ?rc" "router_jobs ?rc = router_jobs (cs_router s1)"
      using router_wf_step [of "cs_router s1" _ "OpComplete m"] router_jobs_step [of "cs_router s1" _ "OpComplete m"]
        c(1) by (simp_all add: session_wf_def jobs_out_def)
    have l: "add_mset job (live_jobs s1) = live_jobs st" using c(2) Some by simp
    then have "fresh_id (jb_job_id job) s1"
      using assms by (simp add: session_wf_def fresh_id_def flip: l) (metis unique_ids_add set_image_mset)
    from session_wf_router_add [OF c(1) router_wf_on_reject [OF w0(1)] _ this] router_jobs_on_reject [OF w0(1)] w0(2) l
    show ?thesis by (simp add: handle_reject_def e Some split_def Let_def)
  qed
  then show "session_wf (snd (handle_reject now m i reason st))"
    "live_jobs (snd (handle_reject now m i reason st)) = live_jobs st" by simp_all
qed

lemma handle_lease_done_ledger:
  assumes "session_wf st"
  shows "session_wf (handle_lease_done m d st)"
    "live_jobs (handle_lease_done m d st) + mset (opt_list (hm_get (cs_inflight st) (ld_job_id d))) = live_jobs st"
proof -
  define s1 where "s1 = st\<lparr>cs_router := record_lease_salts m (ld_salts_done d) (cs_router st)\<rparr>"
  define s2 where "s2 = snd (complete_inflight (ld_job_id d) s1)"
  have s1: "session_wf s1" "live_jobs s1 = live_jobs st" "cs_inflight s1 = cs_inflight st"
    using router_counters_ledger(3,4) [OF assms] by (simp_all add: s1_def)
  have s2: "session_wf s2" "live_jobs s2 + mset (opt_list (hm_get (cs_inflight st) (ld_job_id d))) = live_jobs st"
    using complete_inflight_ledger [OF s1(1), of "ld_job_id d"] s1(2,3) by (simp_all add: s2_def)
  have e: "complete_inflight (ld_job_id d) s1 = (hm_get (cs_inflight st) (ld_job_id d), s2)"
    by (simp add: s2_def prod_eq_iff s1(3))
  note k = router_counters_ledger(1,2) [OF s2(1), of m]
  note k2 = router_counters_ledger(5,6) [OF k(1), of m "ld_salts_done d"]
  show "session_wf (handle_lease_done m d st)"
    "live_jobs (handle_lease_done m d st) + mset (opt_list (hm_get (cs_inflight st) (ld_job_id d))) = live_jobs st"
    using s2 k k2
    unfolding handle_lease_done_def s1_def [symmetric] Let_def e prod.case
    by (auto split: option.split)
qed

lemma handle_status_ledger:
  "session_wf (snd (handle_status m a stats st)) = session_wf st"
  "live_jobs (snd (handle_status m a stats st)) = live_jobs st"
  by (simp_all add: handle_status_def Let_def split_def)

lemma apply_capabilities_ledger:
  assumes "session_wf st"
  shows "session_wf (snd (snd (apply_capabilities x m caps st)))"
    "live_jobs (snd (snd (apply_capabilities x m caps st))) = live_jobs st"
proof -
  have rw: "router_wf (cs_router st)" using assms by (simp add: session_wf_def)
  have "router_wf (snd (update_capabilities m c (cs_router st)))"
      "router_jobs (snd (update_capabilities m c (cs_router st))) = router_jobs (cs_router st)" for c
    using router_wf_step [OF rw, of _ "OpUpdateCapabilities m c"] router_jobs_update_capabilities [OF rw] by simp_all
  from session_wf_router [OF assms this] assms
  show "session_wf (snd (snd (apply_capabilities x m caps st)))"
    "live_jobs (snd (snd (apply_capabilities x m caps st))) = live_jobs st"
    by (auto simp: apply_capabilities_def Let_def split_def)
qed

lemma session_message_ledger:
  assumes "session_wf st" "session_message x now sp ss cf m msg st = Some (outs, st')"
  shows "session_wf st' \<and> live_jobs st' + mset (settled_by msg st) = live_jobs st"
proof (cases msg)
  case (ResultMsg r)
  then show ?thesis
    using assms handle_lease_result_ledger [of x now sp m r st outs st']
      handle_plain_result_ledger [OF assms(1), of x now sp ss m r outs st']
    by (auto simp: handle_result_def split: if_splits)
next
  case (Reject i reason)
  then show ?thesis using assms handle_reject_ledger [OF assms(1), of now m i reason] by simp
next
  case (StatusMsg a stats)
  then show ?thesis using assms handle_status_ledger [of m a stats st] by simp
next
  case (CapabilitiesMsg caps)
  then show ?thesis using assms apply_capabilities_ledger [OF assms(1), of x m caps] by simp
next
  case (LeaseDoneMsg d)
  then show ?thesis using assms handle_lease_done_ledger [OF assms(1), of m d] by auto
qed (use assms in auto)

subsection \<open>Requeue and cancel\<close>

lemma fold_reclaim_ledger:
  assumes "session_wf st"
  shows "session_wf (snd (fold reclaim_one ids (jobs, st)))
    \<and> live_jobs (snd (fold reclaim_one ids (jobs, st))) + mset (fst (fold reclaim_one ids (jobs, st)))
        = live_jobs st + mset jobs"
  using assms
proof (induction ids arbitrary: jobs st)
  case (Cons i ids)
  note c = complete_inflight_ledger [OF Cons.prems, of i]
  have "reclaim_one i (jobs, st) = (jobs @ opt_list (fst (complete_inflight i st)), snd (complete_inflight i st))"
    by (simp add: reclaim_one_def split_def)
  then show ?case using Cons.IH [OF c(1)] c(2) by (simp add: ac_simps del: complete_inflight_sel)
qed simp

lemma fold_route_jobs:
  "router_wf r \<Longrightarrow> router_wf (fold (\<lambda>job r. snd (route job r)) jobs r)
     \<and> router_jobs (fold (\<lambda>job r. snd (route job r)) jobs r) = router_jobs r + mset jobs"
  by (induction jobs arbitrary: r)
     (auto simp: route_def router_wf_route_excluding router_jobs_route_excluding)

lemma requeue_ledger:
  assumes "session_wf st"
  shows "session_wf (requeue_miner m st)" "live_jobs (requeue_miner m st) = live_jobs st"
proof -
  define ids where "ids = map fst (filter (\<lambda>e. snd e = m) (cs_inflight_owner st))"
  obtain js s1 where f: "fold reclaim_one ids ([], st) = (js, s1)" by fastforce
  have s1: "session_wf s1" "live_jobs s1 + mset js = live_jobs st"
    using fold_reclaim_ledger [OF assms, of ids "[]"] by (simp_all add: f)
  have rw: "router_wf (cs_router s1)" using s1(1) by (simp add: session_wf_def)
  obtain staged r where r: "reclaim m (cs_router s1) = (staged, r)" by fastforce
  have r': "router_wf r" "router_jobs r + mset staged = router_jobs (cs_router s1)"
    using router_wf_step [OF rw, of _ "OpReclaim m"] router_jobs_reclaim [OF rw, of m] by (simp_all add: r)
  let ?r = "fold (\<lambda>job r. snd (route job r)) (js @ staged) r"
  have fr: "router_wf ?r" "router_jobs ?r = router_jobs (cs_router s1) + mset js"
    using fold_route_jobs [OF r'(1), of "js @ staged"] r'(2) by (simp_all add: ac_simps)
  have e: "requeue_miner m st = s1\<lparr>cs_outbound := hm_remove m (cs_outbound s1)\<rparr>\<lparr>cs_router := ?r\<rparr>"
    by (simp add: requeue_miner_def reclaim_miner_def flip: ids_def) (simp add: f r)
  show l: "live_jobs (requeue_miner m st) = live_jobs st"
    using fr(2) s1(2) by (simp add: e live_jobs_def inflight_jobs_def ac_simps)
  show "session_wf (requeue_miner m st)"
    using s1(1) fr(1) l assms by (simp add: session_wf_def) (simp add: e)
qed

lemma handshake_ledger:
  assumes "session_wf st" "session_handshake x sent tx msg st = (who, outs, st')"
  shows "session_wf st' \<and> live_jobs st' = live_jobs st"
proof -
  have rw: "router_wf (cs_router st)" using assms(1) by (simp add: session_wf_def)
  have "router_wf (register_miner m c (cs_router st))"
      "router_jobs (register_miner m c (cs_router st)) = router_jobs (cs_router st)" for m c
    using router_wf_step [OF rw, of _ "OpRegister m c"] router_jobs_register [OF rw] by simp_all
  from session_wf_router [OF assms(1) this] assms show ?thesis
    by (auto simp: session_handshake_def register_wakeup_def register_outbound_def Let_def
        split: MinerMsg.splits option.splits if_splits)
qed

text \<open>A reseed cancels the old generations both in the queues and in flight.\<close>

definition cancel_generations :: "nat \<Rightarrow> 'topo CoordinatorState \<Rightarrow> 'topo CoordinatorState" where
  "cancel_generations g st =
     snd (cancel_inflight g (st\<lparr>cs_router := snd (cancel g (cs_router st))\<rparr>))"

definition stale_job :: "nat \<Rightarrow> Job \<Rightarrow> bool" where
  "stale_job g j \<longleftrightarrow> jb_generation j \<noteq> 0 \<and> jb_generation j \<le> g"

definition dropped_jobs :: "nat \<Rightarrow> 'topo CoordinatorState \<Rightarrow> Job list" where
  "dropped_jobs g st = cancelled_jobs g (cs_router st)
     @ map snd (filter (\<lambda>e. stale_job g (snd e)) (cs_inflight st))"

lemma fold_complete_ledger:
  assumes "session_wf st" "distinct ids" "\<And>i. i \<in> set ids \<Longrightarrow> hm_get (cs_inflight st) i \<noteq> None"
  shows "session_wf (fold (\<lambda>i s. snd (complete_inflight i s)) ids st)
    \<and> live_jobs (fold (\<lambda>i s. snd (complete_inflight i s)) ids st)
        + mset (map (\<lambda>i. the (hm_get (cs_inflight st) i)) ids) = live_jobs st"
  using assms
proof (induction ids arbitrary: st)
  case (Cons i ids)
  let ?s = "snd (complete_inflight i st)"
  note c = complete_inflight_ledger [OF Cons.prems(1), of i]
  obtain job where j: "hm_get (cs_inflight st) i = Some job" using Cons.prems(3) [of i] by auto
  have g: "k \<in> set ids \<Longrightarrow> hm_get (cs_inflight ?s) k = hm_get (cs_inflight st) k" for k
    using Cons.prems(2) by (auto simp: hm.get_del)
  then have m: "map (\<lambda>k. the (hm_get (cs_inflight ?s) k)) ids = map (\<lambda>k. the (hm_get (cs_inflight st) k)) ids"
    by (intro map_cong) (simp_all del: complete_inflight_sel)
  have "distinct ids" "\<And>k. k \<in> set ids \<Longrightarrow> hm_get (cs_inflight ?s) k \<noteq> None"
    using Cons.prems(2,3) g by auto
  from Cons.IH [OF c(1) this] have ih: "session_wf (fold (\<lambda>i s. snd (complete_inflight i s)) ids ?s)"
      "live_jobs (fold (\<lambda>i s. snd (complete_inflight i s)) ids ?s)
        + mset (map (\<lambda>k. the (hm_get (cs_inflight st) k)) ids) = live_jobs ?s"
    unfolding m by blast+
  have "live_jobs ?s + {#job#} = live_jobs st" using c(2) j by simp
  then show ?case using ih(1) by (simp add: j flip: ih(2))
qed simp

lemma cancel_generations_ledger:
  assumes "session_wf st"
  shows "session_wf (cancel_generations g st)"
    "live_jobs (cancel_generations g st) + mset (dropped_jobs g st) = live_jobs st"
proof -
  let ?s = "st\<lparr>cs_router := snd (cancel g (cs_router st))\<rparr>"
  have rw: "router_wf (cs_router st)" and iw: "hm_wf (cs_inflight st)" using assms by (simp_all add: session_wf_def)
  have r: "router_wf (snd (cancel g (cs_router st)))"
      "router_jobs (snd (cancel g (cs_router st))) + mset (cancelled_jobs g (cs_router st)) = router_jobs (cs_router st)"
    using router_wf_step [OF rw, of _ "OpCancel g"] router_jobs_cancel [of g "cs_router st"]
    by (simp_all add: cancelled_jobs_mset)
  have l: "live_jobs ?s + mset (cancelled_jobs g (cs_router st)) = live_jobs st"
    using r(2) by (simp add: live_jobs_def inflight_jobs_def ac_simps)
  have "unique_ids (live_jobs ?s + M) \<Longrightarrow> unique_ids (live_jobs ?s)" for M
    by (induction M) (simp_all add: unique_ids_add)
  with l assms r(1) have w: "session_wf ?s" by (simp add: session_wf_def) (metis l)
  let ?es = "filter (\<lambda>e. stale_job g (snd e)) (cs_inflight st)"
  have d: "distinct (map fst ?es)" using iw by (simp add: hm_wf_def distinct_map_filter)
  have get: "e \<in> set ?es \<Longrightarrow> hm_get (cs_inflight st) (fst e) = Some (snd e)" for e
    using iw by (auto simp: hm_get_def hm_wf_def)
  have n: "i \<in> set (map fst ?es) \<Longrightarrow> hm_get (cs_inflight ?s) i \<noteq> None" for i
    using get by (auto simp del: set_filter)
  have m: "map (\<lambda>i. the (hm_get (cs_inflight ?s) i)) (map fst ?es) = map snd ?es" using get by simp
  have "session_wf (fold (\<lambda>i s. snd (complete_inflight i s)) (map fst ?es) ?s)
      \<and> live_jobs (fold (\<lambda>i s. snd (complete_inflight i s)) (map fst ?es) ?s) + mset (map snd ?es) = live_jobs ?s"
    using fold_complete_ledger [OF w d n] unfolding m .
  then show "session_wf (cancel_generations g st)"
    "live_jobs (cancel_generations g st) + mset (dropped_jobs g st) = live_jobs st"
    using l by (auto simp: cancel_generations_def cancel_inflight_def stale_job_def dropped_jobs_def Let_def ac_simps)
qed

subsection \<open>The step relation\<close>

text \<open>
  \<open>session_step x st entered left st'\<close>: one section of some task. \<open>entered\<close> are the jobs the feeder
  stages, which it does under ids that are not live; \<open>left\<close> are the jobs settled or cancelled. A bookkeeping
  step moves no job: it changes salts, counters, the target or the stash.
\<close>

inductive session_step ::
  "('e, 'd, 'topo) Externals \<Rightarrow> 'topo CoordinatorState \<Rightarrow> Job list \<Rightarrow> Job list \<Rightarrow> 'topo CoordinatorState \<Rightarrow> bool"
  for x where
  Dispatching: "session_step x st [] [] (snd (dispatch_granted now m credits st))"
| Staging: "fresh_id (jb_job_id job) st \<Longrightarrow> stage_on m job (cs_router st) = (True, r) \<Longrightarrow>
    session_step x st [job] [] (st\<lparr>cs_router := r\<rparr>)"
| Routing: "fresh_id (jb_job_id job) st \<Longrightarrow>
    session_step x st [job] [] (st\<lparr>cs_router := snd (route job (cs_router st))\<rparr>)"
| Message: "session_message x now sp ss cf m msg st = Some (outs, st') \<Longrightarrow>
    session_step x st [] (settled_by msg st) st'"
| Handshake: "session_handshake x sent tx msg st = (who, outs, st') \<Longrightarrow> session_step x st [] [] st'"
| Hangup: "session_step x st [] [] (deregister_outbound m st)"
| Requeue: "session_step x st [] [] (requeue_miner m st)"
| Cancelling: "session_step x st [] (dropped_jobs g st) (cancel_generations g st)"
| Bookkeeping: "router_wf (cs_router st') \<Longrightarrow> router_jobs (cs_router st') = router_jobs (cs_router st) \<Longrightarrow>
    cs_inflight st' = cs_inflight st \<Longrightarrow> cs_inflight_owner st' = cs_inflight_owner st \<Longrightarrow> session_step x st [] [] st'"

inductive session_run ::
  "('e, 'd, 'topo) Externals \<Rightarrow> 'topo CoordinatorState \<Rightarrow> Job list \<Rightarrow> Job list \<Rightarrow> 'topo CoordinatorState \<Rightarrow> bool"
  for x where
  Done: "session_run x st [] [] st"
| Step: "session_run x st ins outs st1 \<Longrightarrow> session_step x st1 i o' st2 \<Longrightarrow>
    session_run x st (ins @ i) (outs @ o') st2"

lemma session_step_ledger:
  "session_step x st ins outs st' \<Longrightarrow> session_wf st \<Longrightarrow>
     session_wf st' \<and> live_jobs st' + mset outs = live_jobs st + mset ins"
proof (induction rule: session_step.induct)
  case (Dispatching st now m credits)
  then show ?case by (simp add: dispatch_granted_ledger)
next
  case (Staging job st m r)
  then have rw: "router_wf (cs_router st)" by (simp add: session_wf_def)
  have "router_wf r" "router_jobs r = add_mset job (router_jobs (cs_router st))"
    using router_wf_step [OF rw, of _ "OpStageOn m job"] router_jobs_stage_on [OF rw, of m job] Staging(2) by simp_all
  from session_wf_router_add [OF Staging(3) this Staging(1)] show ?case by simp
next
  case (Routing job st)
  then have rw: "router_wf (cs_router st)" by (simp add: session_wf_def)
  have "router_wf (snd (route job (cs_router st)))"
      "router_jobs (snd (route job (cs_router st))) = add_mset job (router_jobs (cs_router st))"
    by (simp_all add: route_def router_wf_route_excluding [OF rw] router_jobs_route_excluding [OF rw])
  from session_wf_router_add [OF Routing(2) this Routing(1)] show ?case by simp
next
  case (Message now sp ss cf m msg st outs st')
  then show ?case using session_message_ledger by simp
next
  case (Handshake sent tx msg st who outs st')
  then show ?case using handshake_ledger by simp
next
  case (Hangup st m)
  then show ?case by (simp add: deregister_outbound_def)
next
  case (Requeue st m)
  then show ?case by (simp add: requeue_ledger)
next
  case (Cancelling st g)
  then show ?case using cancel_generations_ledger [of st g] by simp
next
  case (Bookkeeping st' st)
  then show ?case by (simp add: session_wf_def live_jobs_def inflight_jobs_def)
qed

lemma session_run_ledger:
  "session_run x st ins outs st' \<Longrightarrow> session_wf st \<Longrightarrow>
     session_wf st' \<and> live_jobs st' + mset outs = live_jobs st + mset ins"
proof (induction rule: session_run.induct)
  case (Step st ins outs st1 i o' st2)
  then have "session_wf st2 \<and> live_jobs st2 + mset o' = live_jobs st1 + mset i"
    using session_step_ledger [of x st1 i o' st2] by simp
  moreover have "live_jobs st1 + mset outs = live_jobs st + mset ins" using Step by blast
  ultimately have "session_wf st2"
    "live_jobs st2 + mset o' + mset outs = live_jobs st + mset ins + mset i"
    by (simp_all add: ac_simps)
  then show ?case by (simp add: ac_simps)
qed simp

lemma session_wf_new: "session_wf new_state"
  using router_wf_new
  by (simp add: session_wf_def new_state_def live_jobs_def inflight_jobs_def unique_ids_def
      router_jobs_def new_router_def hm_total_def hm_keys_def)

lemma live_jobs_new [simp]: "live_jobs new_state = {#}"
  by (simp add: new_state_def live_jobs_def inflight_jobs_def router_jobs_def new_router_def hm_total_def)

text \<open>
  C2. No job is lost, duplicated or answered twice, however the tasks interleave: after any sequence of
  dispatches, stagings under unused ids, miner messages of any kind, reconnects, hang-ups, crash
  requeues and cancels on a fresh coordinator, the jobs staged are exactly the jobs still queued or
  in flight plus the jobs settled or cancelled, every live id is unique, and the in-flight table and
  its owner table name the same ids.
\<close>
theorem session_conserves_jobs:
  assumes "session_run x new_state ins outs st"
  shows "live_jobs st + mset outs = mset ins \<and> unique_ids (live_jobs st)
     \<and> set (hm_keys (cs_inflight st)) = set (hm_keys (cs_inflight_owner st))"
  using session_run_ledger [OF assms session_wf_new] by (simp_all add: session_wf_def)

definition ex_externals :: "(unit, unit, unit) Externals" where
  "ex_externals =
     \<lparr> xt_select = (\<lambda>rows n. Inr [0..<length rows]), xt_diversity = (\<lambda>_. Inr 0), xt_decode_i32 = i32_le_dec,
       xt_decode_spins = (\<lambda>_ n. Inr (replicate n 1)), xt_blake2 = (\<lambda>b. b), xt_log = (\<lambda>a. a), xt_pow = (\<lambda>a b. a),
       xt_view = (\<lambda>_. Inr ()), xt_num_nodes = (\<lambda>_. 0),
       xt_verify = (\<lambda>g t k r. Inr \<lparr> vl_nonce = [], vl_salt = [] \<rparr>),
       xt_backend_name = (\<lambda>_. []), xt_algorithm_name = (\<lambda>_. []), xt_summary_json = (\<lambda>_. None),
       xt_protocol_version = 1 \<rparr>"

theorem session_conserves_jobs_witness:
  "let job = ex_job IsingSample 1;
       st = cancel_generations 0 (new_state\<lparr>cs_router := snd (route job new_router)\<rparr> :: unit CoordinatorState) in
   live_jobs st + mset [] = mset [job]"
proof -
  let ?job = "ex_job IsingSample 1"
  let ?s = "new_state\<lparr>cs_router := snd (route ?job new_router)\<rparr> :: unit CoordinatorState"
  have r: "cs_router (new_state :: unit CoordinatorState) = new_router" by (simp add: new_state_def)
  have "session_step ex_externals new_state [?job] [] ?s"
    using session_step.Routing [where x = ex_externals and job = ?job and st = new_state]
    by (simp add: fresh_id_def r)
  from session_run.Step [OF session_run.Step [OF session_run.Done this] session_step.Cancelling [of _ ?s 0]]
  have "session_run ex_externals new_state [?job] (dropped_jobs 0 ?s) (cancel_generations 0 ?s)" by simp
  moreover have "dropped_jobs 0 ?s = []"
    by (auto simp: dropped_jobs_def cancelled_jobs_def keep_job_def stale_job_def filter_empty_conv)
  ultimately show ?thesis
    using session_conserves_jobs [of ex_externals "[?job]" "[]" "cancel_generations 0 ?s"] by (simp add: Let_def)
qed

subsection \<open>Late and cancelled work\<close>

lemma fold_complete_inflight:
  "hm_get (cs_inflight (fold (\<lambda>i s. snd (complete_inflight i s)) ids st)) k
     = (if k \<in> set ids then None else hm_get (cs_inflight st) k)"
  by (induction ids arbitrary: st) (auto simp: hm.get_del)

lemma fold_complete_keeps:
  "cs_stash (fold (\<lambda>i s. snd (complete_inflight i s)) ids st) = cs_stash st
   \<and> cs_current_best_milli (fold (\<lambda>i s. snd (complete_inflight i s)) ids st) = cs_current_best_milli st
   \<and> cs_results_validated (fold (\<lambda>i s. snd (complete_inflight i s)) ids st) = cs_results_validated st
   \<and> cs_mined_generation (fold (\<lambda>i s. snd (complete_inflight i s)) ids st) = cs_mined_generation st"
  by (induction ids arbitrary: st) (auto simp: complete_inflight_def)

lemma unknown_result_dropped:
  assumes "hm_get (cs_inflight st) (rr_job_id r) = None"
  shows "\<exists>st'. handle_result x now sp ss m r st = Some ([], st')
     \<and> cs_stash st' = cs_stash st \<and> cs_current_best_milli st' = cs_current_best_milli st
     \<and> cs_results_validated st' = cs_results_validated st \<and> cs_mined_generation st' = cs_mined_generation st"
  using assms
  by (simp add: handle_result_def is_lease_result_def handle_plain_result_def take_result_def take_salt_def
      complete_inflight_def Let_def)

text \<open>
  C27. Cancelled work is never scored: once a round turn-over has cancelled the generations up to \<open>g\<close>, a
  result that still arrives for an in-flight job of such a generation produces no chain call and no
  record, and leaves the stash, the round best, the result count and the participation mark as they were.
\<close>
theorem cancelled_work_never_scored:
  assumes "hm_get (cs_inflight st) (rr_job_id r) = Some job" "stale_job g job"
  shows "\<exists>st'. handle_result x now sp ss m r (cancel_generations g st) = Some ([], st')
     \<and> cs_stash st' = cs_stash st \<and> cs_current_best_milli st' = cs_current_best_milli st
     \<and> cs_results_validated st' = cs_results_validated st \<and> cs_mined_generation st' = cs_mined_generation st"
proof -
  let ?s = "st\<lparr>cs_router := snd (cancel g (cs_router st))\<rparr>"
  let ?ids = "map fst (filter (\<lambda>e. stale_job g (snd e)) (cs_inflight st))"
  have c: "cancel_generations g st = fold (\<lambda>i s. snd (complete_inflight i s)) ?ids ?s"
    by (simp add: cancel_generations_def cancel_inflight_def stale_job_def Let_def)
  have "(rr_job_id r, job) \<in> set (cs_inflight st)" using assms(1) by (simp add: hm_get_def map_of_SomeD)
  with assms(2) have "rr_job_id r \<in> set ?ids" by force
  then have "hm_get (cs_inflight (cancel_generations g st)) (rr_job_id r) = None"
    unfolding c by (simp only: fold_complete_inflight if_True)
  from unknown_result_dropped [OF this, of x now sp ss m] fold_complete_keeps [of ?ids ?s]
  show ?thesis unfolding c by simp
qed

definition ex_flight :: "Job \<Rightarrow> unit CoordinatorState" where
  "ex_flight job = new_state\<lparr>cs_inflight := [(jb_job_id job, job)], cs_inflight_owner := [(jb_job_id job, ''cpu-0'')],
     cs_generation := 4\<rparr>"

definition ex_result :: "Job \<Rightarrow> MinerResult" where
  "ex_result job = \<lparr> rr_job_id = jb_job_id job, rr_solutions = [], rr_meta = None, rr_salt = [], rr_nonce = [] \<rparr>"

definition ex_pow_job :: Job where
  "ex_pow_job = (ex_job IsingSample 3)\<lparr>jb_generation := 3\<rparr>"

theorem cancelled_work_never_scored_witness:
  "\<exists>st'. handle_result ex_externals 0 (\<lambda>_. Inl []) (\<lambda>_. Inl []) ''cpu-0'' (ex_result ex_pow_job)
            (cancel_generations 3 (ex_flight ex_pow_job)) = Some ([], st')
     \<and> cs_results_validated st' = 0"
proof -
  have "hm_get (cs_inflight (ex_flight ex_pow_job)) (rr_job_id (ex_result ex_pow_job)) = Some ex_pow_job"
    by (simp add: ex_flight_def ex_result_def hm_get_def)
  moreover have "stale_job 3 ex_pow_job" by (simp add: stale_job_def ex_pow_job_def)
  ultimately show ?thesis
    using cancelled_work_never_scored [of "ex_flight ex_pow_job" "ex_result ex_pow_job" ex_pow_job 3
        ex_externals 0 "\<lambda>_. Inl []" "\<lambda>_. Inl []" "''cpu-0''"]
    by (auto simp: ex_flight_def new_state_def)
qed

subsection \<open>Mempool results stay out of the round\<close>

lemma take_result_other:
  assumes "take_result m i st = ((Some job, salt), st')" "jb_generation job \<noteq> cs_generation st"
  shows "cs_stash st' = cs_stash st \<and> cs_current_best_milli st' = cs_current_best_milli st
    \<and> cs_results_validated st' = cs_results_validated st \<and> cs_mined_generation st' = cs_mined_generation st
    \<and> cs_mempool_orders st' = cs_mempool_orders st"
  using assms
  by (auto simp: take_result_def take_salt_def complete_inflight_def note_result_def Let_def)

definition order_answered :: "(Proof \<Rightarrow> string + SubmitReceipt) \<Rightarrow> Proof \<Rightarrow> bool" where
  "order_answered ss p = (case ss p of Inl _ \<Rightarrow> False | Inr r \<Rightarrow> sb_action r \<noteq> Retry)"

lemma submit_mempool_isolated:
  assumes "submit_mempool_result x ss job sols t st = Some (outs, st')"
  shows "cs_stash st' = cs_stash st \<and> cs_current_best_milli st' = cs_current_best_milli st
    \<and> cs_results_validated st' = cs_results_validated st \<and> cs_mined_generation st' = cs_mined_generation st
    \<and> (outs = [] \<and> cs_mempool_orders st' = cs_mempool_orders st
       \<or> (\<exists>p. outs = [SubmitSolution p] \<and> \<not> pr_is_pow p \<and> length (pr_solutions p) \<le> 20
            \<and> cs_mempool_orders st' = (if order_answered ss p then cs_mempool_orders st
                                       else hm_remove (jb_job_id job) (cs_mempool_orders st))))"
  using assms
  by (auto simp: submit_mempool_result_def order_proof_def order_answered_def MAX_ORDER_SOLUTIONS_def Let_def
      split: option.splits sum.splits if_splits)

text \<open>
  Mempool results stay out of the proof-of-work round: once the first round has begun, handling a
  result for an in-flight mempool job leaves the stash, the round best, the result count and the
  participation mark unchanged and makes at most one chain call, a \<open>submit_solution\<close> of at most 20
  rows that is not marked proof-of-work. The order is forgotten, to be staged again, exactly when that
  call failed to deliver.
\<close>
theorem mempool_result_isolated:
  assumes "hm_get (cs_inflight st) (rr_job_id r) = Some job" "is_mempool job" "\<not> is_lease job"
    and "jb_generation job = 0" "cs_generation st > 0"
    and "handle_result x now sp ss m r st = Some (outs, st')"
  shows "cs_stash st' = cs_stash st \<and> cs_current_best_milli st' = cs_current_best_milli st
    \<and> cs_results_validated st' = cs_results_validated st \<and> cs_mined_generation st' = cs_mined_generation st
    \<and> (outs = [] \<and> cs_mempool_orders st' = cs_mempool_orders st
       \<or> (\<exists>p. outs = [SubmitSolution p] \<and> \<not> pr_is_pow p \<and> length (pr_solutions p) \<le> 20
            \<and> cs_mempool_orders st' = (if order_answered ss p then cs_mempool_orders st
                                       else hm_remove (jb_job_id job) (cs_mempool_orders st))))"
proof -
  obtain job' salt st1 where t: "take_result m (rr_job_id r) st = ((job', salt), st1)" by (metis surj_pair)
  have "fst (complete_inflight (rr_job_id r) (st\<lparr>cs_metrics := c\<rparr>)) = Some job" for c
    using assms(1) by simp
  then have "job' = Some job" using t by (auto simp: take_result_def Let_def split_def)
  note t = t [unfolded this]
  have "handle_result x now sp ss m r st
      = submit_mempool_result x ss job (rr_solutions r) (device_time r) st1"
    using assms(1-3) t by (simp add: handle_result_def is_lease_result_def handle_plain_result_def Let_def)
  with assms(6) have "submit_mempool_result x ss job (rr_solutions r) (device_time r) st1 = Some (outs, st')" by simp
  note iso = submit_mempool_isolated [OF this]
  have k: "cs_stash st1 = cs_stash st" "cs_current_best_milli st1 = cs_current_best_milli st"
      "cs_results_validated st1 = cs_results_validated st" "cs_mined_generation st1 = cs_mined_generation st"
      "cs_mempool_orders st1 = cs_mempool_orders st"
    using take_result_other [OF t] assms(4,5) by simp_all
  show ?thesis using iso unfolding k .
qed

definition ex_mempool_job :: Job where
  "ex_mempool_job = (ex_job IsingSample 0)
     \<lparr>jb_generation := 0, jb_provenance := Some \<lparr> pv_is_pow = False, pv_order_id = [7] \<rparr>, jb_ising := None\<rparr>"

theorem mempool_result_isolated_witness:
  "\<exists>st'. handle_result ex_externals 0 (\<lambda>_. Inl []) (\<lambda>_. Inl []) ''cpu-0'' (ex_result ex_mempool_job)
            (ex_flight ex_mempool_job) = Some ([], st') \<and> cs_results_validated st' = 0"
proof -
  let ?st = "ex_flight ex_mempool_job"
  have g: "hm_get (cs_inflight ?st) (rr_job_id (ex_result ex_mempool_job)) = Some ex_mempool_job"
    by (simp add: ex_flight_def ex_result_def hm_get_def)
  have j: "is_mempool ex_mempool_job" "\<not> is_lease ex_mempool_job" "jb_generation ex_mempool_job = 0" "cs_generation ?st > 0"
    by (simp_all add: is_mempool_def is_lease_def ex_mempool_job_def ex_job_def ex_flight_def)
  have "\<exists>st'. handle_result ex_externals 0 (\<lambda>_. Inl []) (\<lambda>_. Inl []) ''cpu-0'' (ex_result ex_mempool_job) ?st = Some ([], st')"
    using g j(1,2)
    by (simp add: handle_result_def is_lease_result_def handle_plain_result_def take_result_def take_salt_def
        complete_inflight_def submit_mempool_result_def ex_mempool_job_def Let_def)
  then obtain st' where h: "handle_result ex_externals 0 (\<lambda>_. Inl []) (\<lambda>_. Inl []) ''cpu-0'' (ex_result ex_mempool_job) ?st
      = Some ([], st')" by blast
  with mempool_result_isolated [OF g j h] show ?thesis by (simp add: ex_flight_def new_state_def)
qed

subsection \<open>Settlement\<close>

text \<open>
  Two settlements that read the same round best can finish in either order. When the worse proof's
  chain call returns last it overwrites the better one: the round best regresses.
\<close>

lemma round_best_can_regress:
  assumes "po_current_best_milli a = cs_current_best_milli st" "po_current_best_milli b = cs_current_best_milli st"
    and "wants_submit a" "wants_submit b"
    and "vd_best_energy_milli (po_validated b) < vd_best_energy_milli (po_validated a)"
    and "sb_action ra = Success" "sb_action rb = Success"
  shows "let s1 = snd (settle_submit t1 b (Inr rb) st); s2 = snd (settle_submit t2 a (Inr ra) s1) in
     cs_current_best_milli s1 = Some (vd_best_energy_milli (po_validated b))
     \<and> cs_current_best_milli s2 = Some (vd_best_energy_milli (po_validated a))
     \<and> \<not> beats_current (vd_best_energy_milli (po_validated a)) (cs_current_best_milli s1)"
  using assms by (simp add: settle_submit_def beats_current_def)

text \<open>A session that ends after its miner has reconnected removes the new session's channels.\<close>

lemma late_hangup_drops_live_channel:
  "hm_get (cs_outbound (deregister_outbound m (register_outbound m new_tx (register_outbound m old_tx st)))) m = None"
  by (simp add: deregister_outbound_def register_outbound_def hm.get_del)

end
