(* ===== verification/Funding.thy ===== *)
theory Funding
  imports Text
begin

text \<open>
  \<open>funding.rs\<close> and \<open>chain/sync.rs\<close>: the two startup waits. The chain and the faucet are
  environments that answer the \<open>i\<close>-th call; durations are milliseconds. Both loops may in principle
  run forever, so they are partial functions and \<open>None\<close> is divergence: the theorems show that the
  funding loop always returns within its time budget, and that the sync wait returns whenever the
  node stops making progress reports.
\<close>

subsection \<open>Funding\<close>

definition DEFAULT_MIN_BALANCE_PLANCKS :: nat where "DEFAULT_MIN_BALANCE_PLANCKS = 2000000000000"
definition DEFAULT_TOP_UP_PLANCKS :: nat where "DEFAULT_TOP_UP_PLANCKS = 10000000000000"
definition DEFAULT_FUNDING_TIMEOUT :: nat where "DEFAULT_FUNDING_TIMEOUT = 10 * 60 * 1000"
definition BACKOFF_START :: nat where "BACKOFF_START = 2 * 1000"
definition BACKOFF_MAX :: nat where "BACKOFF_MAX = 30 * 1000"

datatype FaucetError = Permanent string | AlreadyFunded string | Transient string

datatype FundingError =
    Underfunded nat nat
  | FaucetExhausted nat nat string
  | FaucetRejected string
  | ChainUnreadable string

record FundingParams =
  fp_faucet_url :: "ustring option"
  fp_min_balance :: nat
  fp_top_up :: nat
  fp_timeout :: nat

definition default_funding :: FundingParams where
  "default_funding = \<lparr> fp_faucet_url = None, fp_min_balance = DEFAULT_MIN_BALANCE_PLANCKS,
     fp_top_up = DEFAULT_TOP_UP_PLANCKS, fp_timeout = DEFAULT_FUNDING_TIMEOUT \<rparr>"

fun faucet_error_str :: "FaucetError \<Rightarrow> string" where
  "faucet_error_str (Permanent s) = s"
| "faucet_error_str (AlreadyFunded s) = s"
| "faucet_error_str (Transient s) = s"

definition classify_status :: "nat \<Rightarrow> string \<Rightarrow> FaucetError + unit" where
  "classify_status status detail =
     (let msg = ''faucet returned '' @ show_nat status @ '': '' @ detail in
      if 200 \<le> status \<and> status \<le> 299 then Inr ()
      else if status = 400 then Inl (Permanent msg)
      else if status = 403 then Inl (AlreadyFunded msg)
      else Inl (Transient msg))"

text \<open>Doubling saturates far above the ceiling, so the minimum is that of the exact double.\<close>

definition next_backoff :: "nat \<Rightarrow> nat" where
  "next_backoff current = min (current * 2) BACKOFF_MAX"

text \<open>
  One pass of the loop body: either the call returns, or the pass leaves a note and the last balance.
\<close>

definition funding_pass ::
  "string + nat \<Rightarrow> (unit \<Rightarrow> FaucetError + unit) option \<Rightarrow> FundingParams \<Rightarrow> nat option
    \<Rightarrow> (FundingError + nat) + (string \<times> nat option)" where
  "funding_pass balance_read faucet params last_balance =
     (case balance_read of
        Inr balance \<Rightarrow>
          if balance \<ge> fp_min_balance params then Inl (Inr balance)
          else (case faucet of
                  None \<Rightarrow> Inl (Inl (Underfunded balance (fp_min_balance params)))
                | Some request \<Rightarrow>
                    (case request () of
                       Inr _ \<Rightarrow> Inr (''requested'', Some balance)
                     | Inl (Permanent e) \<Rightarrow> Inl (Inl (FaucetRejected e))
                     | Inl e \<Rightarrow> Inr (faucet_error_str e, Some balance)))
      | Inl e \<Rightarrow> Inr (''chain read failed: '' @ e, last_balance))"

text \<open>
  \<open>i\<close> counts passes; \<open>chain i\<close> and \<open>faucet i\<close> are what they answer in pass \<open>i\<close>. The result carries the
  number of passes and the time slept.
\<close>

partial_function (option) funding_loop ::
  "(nat \<Rightarrow> string + nat) \<Rightarrow> (nat \<Rightarrow> FaucetError + unit) option \<Rightarrow> FundingParams
    \<Rightarrow> nat \<Rightarrow> nat \<Rightarrow> nat \<Rightarrow> nat option \<Rightarrow> nat \<Rightarrow> ((FundingError + nat) \<times> nat \<times> nat) option" where
  "funding_loop chain faucet params i remaining backoff last_balance slept =
     (case funding_pass (chain i) (map_option (\<lambda>f u. f i) faucet) params last_balance of
        Inl result \<Rightarrow> Some (result, Suc i, slept)
      | Inr (last_note, last_balance') \<Rightarrow>
          if remaining \<le> backoff
          then Some (Inl (case last_balance' of
                            Some balance \<Rightarrow> FaucetExhausted balance (fp_min_balance params) last_note
                          | None \<Rightarrow> ChainUnreadable last_note), Suc i, slept)
          else funding_loop chain faucet params (Suc i) (remaining - backoff) (next_backoff backoff)
                 last_balance' (slept + backoff))"

definition ensure_funded ::
  "(nat \<Rightarrow> string + nat) \<Rightarrow> (nat \<Rightarrow> FaucetError + unit) option \<Rightarrow> FundingParams
    \<Rightarrow> ((FundingError + nat) \<times> nat \<times> nat) option" where
  "ensure_funded chain faucet params =
     funding_loop chain faucet params 0 (fp_timeout params) BACKOFF_START None 0"

lemma next_backoff_bounds: "2000 \<le> b \<Longrightarrow> 2000 \<le> next_backoff b" "next_backoff b \<le> 30000"
  by (simp_all add: next_backoff_def BACKOFF_MAX_def)

text \<open>What a finished run means, in terms of what the chain answered.\<close>

fun funding_verdict ::
  "(nat \<Rightarrow> string + nat) \<Rightarrow> (nat \<Rightarrow> FaucetError + unit) option \<Rightarrow> FundingParams \<Rightarrow> nat \<Rightarrow> FundingError + nat \<Rightarrow> bool" where
  "funding_verdict chain faucet params n (Inr balance) \<longleftrightarrow>
     chain (n - 1) = Inr balance \<and> fp_min_balance params \<le> balance"
| "funding_verdict chain faucet params n (Inl (Underfunded balance threshold)) \<longleftrightarrow>
     faucet = None \<and> chain (n - 1) = Inr balance \<and> balance < threshold \<and> threshold = fp_min_balance params"
| "funding_verdict chain faucet params n (Inl (FaucetExhausted balance threshold note)) \<longleftrightarrow>
     faucet \<noteq> None \<and> balance < threshold \<and> threshold = fp_min_balance params
     \<and> (\<exists>k. k < n \<and> chain k = Inr balance \<and> (\<forall>j. k < j \<and> j < n \<longrightarrow> (\<exists>e. chain j = Inl e)))"
| "funding_verdict chain faucet params n (Inl (FaucetRejected e)) \<longleftrightarrow>
     (\<exists>f. faucet = Some f \<and> f (n - 1) = Inl (Permanent e))"
| "funding_verdict chain faucet params n (Inl (ChainUnreadable note)) \<longleftrightarrow>
     (\<forall>j. j < n \<longrightarrow> (\<exists>e. chain j = Inl e))"

text \<open>The last balance read before pass \<open>i\<close>: below the floor, and unreadable since.\<close>

definition balance_history ::
  "(nat \<Rightarrow> string + nat) \<Rightarrow> (nat \<Rightarrow> FaucetError + unit) option \<Rightarrow> FundingParams \<Rightarrow> nat \<Rightarrow> nat option \<Rightarrow> bool" where
  "balance_history chain faucet params i last_balance =
     (case last_balance of
        None \<Rightarrow> (\<forall>j. j < i \<longrightarrow> (\<exists>e. chain j = Inl e))
      | Some b \<Rightarrow> faucet \<noteq> None \<and> b < fp_min_balance params
          \<and> (\<exists>k. k < i \<and> chain k = Inr b \<and> (\<forall>j. k < j \<and> j < i \<longrightarrow> (\<exists>e. chain j = Inl e))))"

lemma funding_pass_done:
  assumes "funding_pass (chain i) (map_option (\<lambda>f u. f i) faucet) params lb = Inl result"
  shows "funding_verdict chain faucet params (Suc i) result"
  using assms
  by (auto simp: funding_pass_def split: sum.splits if_splits option.splits FaucetError.splits)

lemma funding_pass_more:
  assumes "funding_pass (chain i) (map_option (\<lambda>f u. f i) faucet) params lb = Inr (note, lb')"
    and "balance_history chain faucet params i lb"
  shows "balance_history chain faucet params (Suc i) lb'"
proof (cases "chain i")
  case (Inl e)
  with assms have "lb' = lb" by (simp add: funding_pass_def)
  with assms(2) Inl show ?thesis
    by (auto simp: balance_history_def less_Suc_eq split: option.splits)
next
  case (Inr b)
  with assms(1) have "lb' = Some b" "b < fp_min_balance params" "faucet \<noteq> None"
    by (auto simp: funding_pass_def split: if_splits option.splits sum.splits FaucetError.splits)
  with Inr show ?thesis by (auto simp: balance_history_def)
qed

lemma funding_loop_returns:
  assumes "2000 \<le> backoff" "balance_history chain faucet params i lb"
  shows "\<exists>result n s. funding_loop chain faucet params i remaining backoff lb slept = Some (result, n, s)
     \<and> s \<le> slept + remaining \<and> i < n \<and> 2000 * (n - Suc i) \<le> remaining
     \<and> funding_verdict chain faucet params n result"
  using assms
proof (induction remaining arbitrary: i backoff lb slept rule: less_induct)
  case (less remaining)
  show ?case
  proof (cases "funding_pass (chain i) (map_option (\<lambda>f u. f i) faucet) params lb")
    case (Inl result)
    then show ?thesis
      using funding_pass_done [of chain i faucet params lb result] by (subst funding_loop.simps) simp
  next
    case (Inr p)
    obtain nt lb' where p: "p = (nt, lb')" by (cases p)
    note pass = Inr [unfolded p]
    note hist = funding_pass_more [of chain i faucet params lb nt lb', OF pass less.prems(2)]
    show ?thesis
    proof (cases "remaining \<le> backoff")
      case True
      have "funding_verdict chain faucet params (Suc i)
          (Inl (case lb' of Some b \<Rightarrow> FaucetExhausted b (fp_min_balance params) nt | None \<Rightarrow> ChainUnreadable nt))"
        using hist by (auto simp: balance_history_def split: option.splits)
      with True pass show ?thesis by (subst funding_loop.simps) simp
    next
      case False
      have "remaining - backoff < remaining" using False less.prems(1) by simp
      from less.IH [OF this next_backoff_bounds(1) [OF less.prems(1)] hist, of "slept + backoff"]
      obtain result n s where r: "funding_loop chain faucet params (Suc i) (remaining - backoff)
            (next_backoff backoff) lb' (slept + backoff) = Some (result, n, s)"
          "s \<le> slept + backoff + (remaining - backoff)" "Suc i < n" "2000 * (n - Suc (Suc i)) \<le> remaining - backoff"
          "funding_verdict chain faucet params n result" by blast
      have "funding_loop chain faucet params i remaining backoff lb slept = Some (result, n, s)"
        using False pass r(1) by (subst funding_loop.simps) simp
      moreover have "2000 * (n - Suc i) \<le> remaining" using r(3,4) less.prems(1) False by (simp add: algebra_simps)
      ultimately show ?thesis using r False by auto
    qed
  qed
qed

text \<open>
  C39. The funding wait always ends, and tells the truth: whatever the chain and the faucet answer, it returns
  after at most \<open>timeout / 2 s + 1\<close> balance reads and sleeps at most the timeout in total. Success means
  the last read met the floor; \<open>Underfunded\<close> means it fell short with no faucet; \<open>FaucetExhausted\<close>
  names the last balance read; \<open>Chain\<close> means the chain never answered; \<open>FaucetRejected\<close> means the faucet
  refused permanently.
\<close>
theorem ensure_funded_returns:
  "\<exists>result n slept. ensure_funded chain faucet params = Some (result, n, slept)
     \<and> slept \<le> fp_timeout params \<and> 2000 * (n - 1) \<le> fp_timeout params
     \<and> funding_verdict chain faucet params n result"
  using funding_loop_returns [of BACKOFF_START chain faucet params 0 None "fp_timeout params" 0]
  by (auto simp: ensure_funded_def BACKOFF_START_def balance_history_def)

subsection \<open>Waiting for the validator to sync\<close>

definition POLL_INTERVAL :: nat where "POLL_INTERVAL = 5 * 1000"
definition SYNCED_CONFIRMATIONS :: nat where "SYNCED_CONFIRMATIONS = 2"
definition UNREACHABLE_GRACE :: nat where "UNREACHABLE_GRACE = 60 * 1000"

record SyncStatus =
  sy_is_syncing :: bool
  sy_peers :: nat
  sy_should_have_peers :: bool
  sy_current_block :: "nat option"
  sy_highest_block :: "nat option"

definition behind :: "SyncStatus \<Rightarrow> nat option" where
  "behind s = (case (sy_current_block s, sy_highest_block s) of
     (Some current, Some highest) \<Rightarrow> Some (highest - current) | _ \<Rightarrow> None)"

datatype SyncOutcome = Synced | SyncUnknown string

record SyncLoop =
  sl_unreachable_for :: nat
  sl_saw_syncing :: bool
  sl_clear_polls :: nat

definition sync_init :: SyncLoop where
  "sync_init = \<lparr> sl_unreachable_for = 0, sl_saw_syncing = False, sl_clear_polls = 0 \<rparr>"

text \<open>One poll: the outcome when the wait ends here, and the loop's variables. The report timer only paces log lines.\<close>

definition sync_poll :: "string + SyncStatus \<Rightarrow> SyncLoop \<Rightarrow> SyncOutcome option \<times> SyncLoop" where
  "sync_poll answer l =
     (case answer of
        Inr status \<Rightarrow>
          let l1 = l\<lparr>sl_unreachable_for := 0\<rparr> in
          if sy_is_syncing status
          then (None, l1\<lparr>sl_saw_syncing := True, sl_clear_polls := 0\<rparr>)
          else let l2 = l1\<lparr>sl_clear_polls := sat_add_u32 (sl_clear_polls l1) 1\<rparr>
               in if \<not> sl_saw_syncing l2 \<or> sl_clear_polls l2 \<ge> SYNCED_CONFIRMATIONS then (Some Synced, l2)
                  else (None, l2)
      | Inl e \<Rightarrow>
          let l1 = l\<lparr>sl_unreachable_for := sl_unreachable_for l + POLL_INTERVAL\<rparr>
          in if sl_unreachable_for l1 > UNREACHABLE_GRACE then (Some (SyncUnknown e), l1) else (None, l1))"

partial_function (option) sync_loop :: "(nat \<Rightarrow> string + SyncStatus) \<Rightarrow> nat \<Rightarrow> SyncLoop \<Rightarrow> (SyncOutcome \<times> nat) option" where
  "sync_loop chain i l =
     (case sync_poll (chain i) l of
        (Some outcome, _) \<Rightarrow> Some (outcome, Suc i)
      | (None, l') \<Rightarrow> sync_loop chain (Suc i) l')"

definition wait_until_synced :: "(nat \<Rightarrow> string + SyncStatus) \<Rightarrow> (SyncOutcome \<times> nat) option" where
  "wait_until_synced chain = sync_loop chain 0 sync_init"

definition clear_answer :: "string + SyncStatus \<Rightarrow> bool" where
  "clear_answer a = (case a of Inl _ \<Rightarrow> False | Inr s \<Rightarrow> \<not> sy_is_syncing s)"

text \<open>After twelve silent polls the loop is one silent poll from giving up.\<close>

lemma sync_silent:
  assumes "\<And>j. i \<le> j \<Longrightarrow> j \<le> i + k \<Longrightarrow> \<exists>e. chain j = Inl e"
    and "sl_unreachable_for l + Suc k * 5000 > 60000"
  shows "\<exists>e n. sync_loop chain i l = Some (SyncUnknown e, n) \<and> n \<le> Suc (i + k)"
  using assms
proof (induction k arbitrary: i l)
  case 0
  obtain e where "chain i = Inl e" using 0(1) [of i] by auto
  with 0 show ?case
    by (subst sync_loop.simps) (simp add: sync_poll_def Let_def POLL_INTERVAL_def UNREACHABLE_GRACE_def)
next
  case (Suc k)
  obtain e where e: "chain i = Inl e" using Suc.prems(1) [of i] by auto
  show ?case
  proof (cases "sl_unreachable_for l + 5000 > 60000")
    case True
    with e show ?thesis
      by (subst sync_loop.simps) (simp add: sync_poll_def Let_def POLL_INTERVAL_def UNREACHABLE_GRACE_def)
  next
    case False
    let ?l = "l\<lparr>sl_unreachable_for := sl_unreachable_for l + 5000\<rparr>"
    have "sync_loop chain i l = sync_loop chain (Suc i) ?l"
      using e False by (subst sync_loop.simps) (simp add: sync_poll_def Let_def POLL_INTERVAL_def UNREACHABLE_GRACE_def)
    moreover have "\<exists>e n. sync_loop chain (Suc i) ?l = Some (SyncUnknown e, n) \<and> n \<le> Suc (Suc i + k)"
      using Suc.prems by (intro Suc.IH) auto
    ultimately show ?thesis by simp
  qed
qed

lemma sync_settles:
  assumes "\<And>j. i \<le> j \<Longrightarrow> j \<le> i + 1 \<Longrightarrow> clear_answer (chain j)"
  shows "\<exists>n. sync_loop chain i l = Some (Synced, n) \<and> n \<le> i + 2"
proof -
  obtain s t where st: "chain i = Inr s" "chain (Suc i) = Inr t" "\<not> sy_is_syncing s" "\<not> sy_is_syncing t"
    using assms [of i] assms [of "Suc i"] by (auto simp: clear_answer_def split: sum.splits)
  show ?thesis
  proof (cases "fst (sync_poll (chain i) l)")
    case (Some oc)
    with st have "oc = Synced" by (auto simp: sync_poll_def Let_def split: if_splits)
    with Some show ?thesis by (subst sync_loop.simps) (simp add: split_def)
  next
    case None
    define l1 where "l1 = snd (sync_poll (chain i) l)"
    have p: "sync_poll (chain i) l = (None, l1)" using None by (simp add: l1_def prod_eq_iff)
    have "1 \<le> sl_clear_polls l1" using p st(1,3)
      by (auto simp: sync_poll_def Let_def sat_add_u32_def split: if_splits)
    then have "fst (sync_poll (chain (Suc i)) l1) = Some Synced"
      using st by (auto simp: sync_poll_def Let_def sat_add_u32_def SYNCED_CONFIRMATIONS_def)
    then have "sync_loop chain (Suc i) l1 = Some (Synced, i + 2)"
      by (subst sync_loop.simps) (simp add: split_def)
    moreover have "sync_loop chain i l = sync_loop chain (Suc i) l1" by (subst sync_loop.simps) (simp add: p)
    ultimately show ?thesis by simp
  qed
qed

text \<open>The loop passes every poll that does not end it.\<close>

lemma sync_loop_reaches:
  "(\<exists>oc n. sync_loop chain i l = Some (oc, n) \<and> n \<le> i + k) \<or> (\<exists>l'. sync_loop chain i l = sync_loop chain (i + k) l')"
proof (induction k arbitrary: i l)
  case (Suc k)
  show ?case
  proof (cases "fst (sync_poll (chain i) l)")
    case (Some oc)
    then have "sync_loop chain i l = Some (oc, Suc i)" by (subst sync_loop.simps) (simp add: split_def)
    then show ?thesis by auto
  next
    case None
    then have "sync_loop chain i l = sync_loop chain (Suc i) (snd (sync_poll (chain i) l))"
      by (subst sync_loop.simps) (simp add: split_def)
    with Suc.IH [of "Suc i" "snd (sync_poll (chain i) l)"] show ?thesis by auto
  qed
qed auto

text \<open>
  The sync wait ends as soon as the node settles: if from some poll on the node answers nothing for a
  minute, or reports twice in a row that it is not syncing, the wait has returned by then; a node that
  is not syncing at the first poll is believed at once.
\<close>
theorem wait_until_synced_returns:
  assumes "(\<forall>j. k \<le> j \<and> j \<le> k + 12 \<longrightarrow> (\<exists>e. chain j = Inl e)) \<or> (\<forall>j. k \<le> j \<and> j \<le> k + 1 \<longrightarrow> clear_answer (chain j))"
  shows "(\<exists>outcome n. wait_until_synced chain = Some (outcome, n) \<and> n \<le> k + 13)
     \<and> (clear_answer (chain 0) \<longrightarrow> wait_until_synced chain = Some (Synced, 1))"
proof
  from sync_loop_reaches [of chain 0 sync_init k]
  show "\<exists>outcome n. wait_until_synced chain = Some (outcome, n) \<and> n \<le> k + 13"
  proof
    assume "\<exists>oc n. sync_loop chain 0 sync_init = Some (oc, n) \<and> n \<le> 0 + k"
    then show ?thesis unfolding wait_until_synced_def by fastforce
  next
    assume "\<exists>l'. sync_loop chain 0 sync_init = sync_loop chain (0 + k) l'"
    then obtain l' where l': "wait_until_synced chain = sync_loop chain k l'" by (auto simp: wait_until_synced_def)
    from assms show ?thesis
    proof
      assume "\<forall>j. k \<le> j \<and> j \<le> k + 12 \<longrightarrow> (\<exists>e. chain j = Inl e)"
      then have "\<exists>e n. sync_loop chain k l' = Some (SyncUnknown e, n) \<and> n \<le> Suc (k + 12)"
        by (intro sync_silent) auto
      then show ?thesis unfolding l' by auto
    next
      assume "\<forall>j. k \<le> j \<and> j \<le> k + 1 \<longrightarrow> clear_answer (chain j)"
      then have "\<exists>n. sync_loop chain k l' = Some (Synced, n) \<and> n \<le> k + 2" by (intro sync_settles) auto
      then show ?thesis unfolding l' by fastforce
    qed
  qed
  show "clear_answer (chain 0) \<longrightarrow> wait_until_synced chain = Some (Synced, 1)"
    unfolding wait_until_synced_def
    by (subst sync_loop.simps) (auto simp: clear_answer_def sync_poll_def sync_init_def Let_def split: sum.splits)
qed

theorem wait_until_synced_returns_witness:
  "\<exists>outcome n. wait_until_synced (\<lambda>_. Inl ''refused'') = Some (outcome, n) \<and> n \<le> 13"
  using wait_until_synced_returns [of 0 "\<lambda>_. Inl ''refused''"] by auto

end
