(* ===== verification/PoolWatch.thy ===== *)
theory PoolWatch
  imports Validate_Laws Extrinsic
begin

text \<open>
  \<open>pool_watch.rs\<close>: judging the proofs that wait in the transaction pool, and the memory that decides
  how long a pending proof may hold the miners. The \<open>quantum_validation\<close> crate is a record of
  functions (\<open>PowCrate\<close>); its errors are already rendered as strings. A \<open>U256\<close> nonce is a natural.
\<close>

subsection \<open>Judging a pending proof\<close>

record QuantumProof =
  qp_topology_hash :: bytes
  qp_nonce :: nat
  qp_salt :: bytes
  qp_solutions :: "bytes list"
  qp_device_access_time_us :: nat

record 'index PowCrate =
  pc_blake2_256 :: "bytes \<Rightarrow> bytes"
  pc_derive_nonce :: "bytes \<Rightarrow> bytes \<Rightarrow> bytes \<Rightarrow> nat"
  pc_topology_index :: "node list \<Rightarrow> (node \<times> node) list \<Rightarrow> string + 'index"
  pc_generate :: "nat \<Rightarrow> node list \<Rightarrow> (node \<times> node) list \<Rightarrow> int list \<Rightarrow> int list \<Rightarrow> 'index
    \<Rightarrow> string + (int list \<times> int list)"
  pc_unpack :: "bytes \<Rightarrow> nat \<Rightarrow> int list \<Rightarrow> string + int list"
  pc_energy :: "int list \<Rightarrow> int list \<Rightarrow> (node \<times> node) list \<Rightarrow> int list \<Rightarrow> 'index \<Rightarrow> string + int"
  pc_select :: "string selector"
  pc_diversity :: "string diversity"

datatype Verdict = Clears int | OtherRound | BelowGates | Malformed string

fun clears :: "Verdict \<Rightarrow> bool" where
  "clears (Clears _) = True"
| "clears _ = False"

definition account_identity_bytes :: "'index PowCrate \<Rightarrow> bytes \<Rightarrow> bytes" where
  "account_identity_bytes P account = pc_blake2_256 P account"

text \<open>The signs of an unpacked row; a zero is refused.\<close>

fun sign_row :: "int list \<Rightarrow> string + int list" where
  "sign_row [] = Inr []"
| "sign_row (value # milli) =
     (if value = 0 then Inl ''zero spin''
      else case sign_row milli of Inl e \<Rightarrow> Inl e | Inr spins \<Rightarrow> Inr (sgn value # spins))"

definition score_row ::
  "'index PowCrate \<Rightarrow> MiningSnapshot \<Rightarrow> 'index \<Rightarrow> int list \<Rightarrow> int list \<Rightarrow> bytes \<Rightarrow> string + SpinRow" where
  "score_row P snap index h j packed =
     (case pc_unpack P packed (length (ms_nodes snap)) (ms_allowed_spin_milli snap) of
        Inl e \<Rightarrow> Inl (''unpack: '' @ e)
      | Inr milli \<Rightarrow> (case sign_row milli of
          Inl e \<Rightarrow> Inl e
        | Inr spins \<Rightarrow> (case pc_energy P spins h (ms_edges snap) j index of
            Inl e \<Rightarrow> Inl (''energy: '' @ e)
          | Inr energy \<Rightarrow> Inr \<lparr> sr_spins = spins, sr_energy_milli = energy \<rparr>)))"

text \<open>The loop over the packed solutions; the first bad row ends it, and only rows under the ceiling are kept.\<close>

fun score_rows ::
  "'index PowCrate \<Rightarrow> MiningSnapshot \<Rightarrow> 'index \<Rightarrow> int list \<Rightarrow> int list \<Rightarrow> bytes list \<Rightarrow> SpinRow list
    \<Rightarrow> string + SpinRow list" where
  "score_rows P snap index h j [] valid = Inr valid"
| "score_rows P snap index h j (packed # solutions) valid =
     (case score_row P snap index h j packed of
        Inl e \<Rightarrow> Inl e
      | Inr row \<Rightarrow> score_rows P snap index h j solutions
          (if sr_energy_milli row < ms_max_energy_milli snap then valid @ [row] else valid))"

text \<open>The gates over the kept rows: selector indices out of range are skipped, errors reject the proof.\<close>

definition score_gates :: "'index PowCrate \<Rightarrow> MiningSnapshot \<Rightarrow> SpinRow list \<Rightarrow> string + Verdict" where
  "score_gates P snap valid =
     (if valid = [] then Inr BelowGates
      else let best_energy_milli = Min (set (map sr_energy_milli valid));
               rows = map sr_spins valid;
               target = min (length rows) (max (ms_min_solutions snap) 1)
           in case pc_select P rows target of
                Inl e \<Rightarrow> Inl (''select: '' @ e)
              | Inr selected_idx \<Rightarrow>
                  let selected = map (\<lambda>i. rows ! i) (filter (\<lambda>i. i < length rows) selected_idx)
                  in case pc_diversity P selected of
                       Inl e \<Rightarrow> Inl (''diversity: '' @ e)
                     | Inr diversity \<Rightarrow>
                         let n_valid = min (length rows) u32_max
                         in if n_valid \<ge> ms_min_solutions snap \<and> diversity \<ge> ms_min_diversity_milli snap
                            then Inr (Clears best_energy_milli) else Inr BelowGates)"

definition score :: "'index PowCrate \<Rightarrow> QuantumProof \<Rightarrow> MiningSnapshot \<Rightarrow> string + Verdict" where
  "score P proof snap =
     (case pc_topology_index P (ms_nodes snap) (ms_edges snap) of
        Inl e \<Rightarrow> Inl (''topology: '' @ e)
      | Inr index \<Rightarrow>
         (case pc_generate P (qp_nonce proof) (ms_nodes snap) (ms_edges snap)
                 (ms_allowed_h_milli snap) (ms_allowed_j_milli snap) index of
            Inl e \<Rightarrow> Inl (''model: '' @ e)
          | Inr (h, j) \<Rightarrow>
             (case score_rows P snap index h j (qp_solutions proof) [] of
                Inl e \<Rightarrow> Inl e
              | Inr valid \<Rightarrow> score_gates P snap valid)))"

definition judge_pending_proof ::
  "'index PowCrate \<Rightarrow> QuantumProof PendingProof \<Rightarrow> MiningSnapshot \<Rightarrow> Verdict" where
  "judge_pending_proof P pending snap =
     (if qp_topology_hash (pp_proof pending) \<noteq> ms_topology_hash snap then OtherRound
      else let identity = account_identity_bytes P (pp_account pending);
               expected = pc_derive_nonce P (ms_last_proof_block_hash snap) identity (qp_salt (pp_proof pending))
           in if qp_nonce (pp_proof pending) \<noteq> expected then OtherRound
              else case score P (pp_proof pending) snap of
                     Inr verdict \<Rightarrow> verdict | Inl reason \<Rightarrow> Malformed reason)"

subsection \<open>The memory of a round\<close>

definition AWAIT_CLEAR_POLLS :: nat where "AWAIT_CLEAR_POLLS = 2"
definition AWAIT_QBLOCK_MAX_BLOCKS :: nat where "AWAIT_QBLOCK_MAX_BLOCKS = 2"

record Clearing =
  cl_account :: bytes
  cl_nonce :: nat
  cl_best_energy_milli :: int

datatype PoolObservation = ObsClearing | ObsClear | ObsUnknown
datatype ResumeReason = PoolClear | BlocksElapsed

fun resume_reason_str :: "ResumeReason \<Rightarrow> string" where
  "resume_reason_str PoolClear = ''no clearing proof is pending''"
| "resume_reason_str BlocksElapsed = ''no qblock followed the pending proof''"

record PoolWatch =
  pw_root :: "bytes option"
  pw_verdicts :: "(bytes, Clearing option) hmap"
  pw_ignored :: "(bytes \<times> nat) set"
  pw_stopped_at :: "nat option"
  pw_clear_polls :: nat

definition new_pool_watch :: PoolWatch where
  "new_pool_watch = \<lparr> pw_root = None, pw_verdicts = [], pw_ignored = {}, pw_stopped_at = None, pw_clear_polls = 0 \<rparr>"

definition start_root :: "MiningSnapshot \<Rightarrow> PoolWatch \<Rightarrow> PoolWatch" where
  "start_root snap w =
     (if pw_root w \<noteq> Some (ms_last_proof_block_hash snap)
      then w\<lparr>pw_root := Some (ms_last_proof_block_hash snap), pw_verdicts := [], pw_ignored := {}\<rparr>
      else w)"

definition better_clearing :: "Clearing option \<Rightarrow> Clearing option \<Rightarrow> Clearing option" where
  "better_clearing verdict best =
     (case verdict of
        None \<Rightarrow> best
      | Some c \<Rightarrow> (case best of
          None \<Rightarrow> Some c
        | Some b \<Rightarrow> if cl_best_energy_milli c < cl_best_energy_milli b then Some c else best))"

definition scan_one ::
  "'index PowCrate \<Rightarrow> MiningSnapshot \<Rightarrow> QuantumProof PendingProof \<Rightarrow> PoolWatch \<times> Clearing option
    \<Rightarrow> PoolWatch \<times> Clearing option" where
  "scan_one P snap p acc =
     (let (w, best) = acc in
      if (pp_account p, qp_nonce (pp_proof p)) \<in> pw_ignored w then (w, best)
      else case hm_get (pw_verdicts w) (pp_extrinsic_hash p) of
             Some verdict \<Rightarrow> (w, better_clearing verdict best)
           | None \<Rightarrow>
               let store = (\<lambda>v. (w\<lparr>pw_verdicts := hm_insert (pp_extrinsic_hash p) v (pw_verdicts w)\<rparr>,
                                 better_clearing v best))
               in case judge_pending_proof P p snap of
                    Clears e \<Rightarrow> store (Some \<lparr> cl_account = pp_account p, cl_nonce = qp_nonce (pp_proof p),
                                              cl_best_energy_milli = e \<rparr>)
                  | OtherRound \<Rightarrow> store None
                  | BelowGates \<Rightarrow> (w, best)
                  | Malformed reason \<Rightarrow> store None)"

definition scan ::
  "'index PowCrate \<Rightarrow> QuantumProof PendingProof list \<Rightarrow> MiningSnapshot \<Rightarrow> PoolWatch \<Rightarrow> PoolWatch \<times> Clearing option" where
  "scan P pending snap w = fold (scan_one P snap) pending (start_root snap w, None)"

definition expire_clearing :: "PoolWatch \<Rightarrow> PoolWatch" where
  "expire_clearing w =
     w\<lparr>pw_ignored := pw_ignored w \<union> {(cl_account c, cl_nonce c) | c. Some c \<in> snd ` set (pw_verdicts w)},
       pw_verdicts := filter (\<lambda>e. snd e = None) (pw_verdicts w)\<rparr>"

definition stopped :: "nat \<Rightarrow> PoolWatch \<Rightarrow> PoolWatch" where
  "stopped block w = w\<lparr>pw_stopped_at := Some block, pw_clear_polls := 0\<rparr>"

definition resume_reason :: "PoolObservation \<Rightarrow> nat \<Rightarrow> PoolWatch \<Rightarrow> PoolWatch \<times> ResumeReason option" where
  "resume_reason observed block w =
     (let w = (case observed of
                 ObsClearing \<Rightarrow> w\<lparr>pw_clear_polls := 0\<rparr>
               | ObsClear \<Rightarrow> w\<lparr>pw_clear_polls := sat_add_u32 (pw_clear_polls w) 1\<rparr>
               | ObsUnknown \<Rightarrow> w)
      in if pw_clear_polls w \<ge> AWAIT_CLEAR_POLLS then (w, Some PoolClear)
         else case pw_stopped_at w of
                None \<Rightarrow> (w, None)
              | Some since \<Rightarrow> if block - since \<ge> AWAIT_QBLOCK_MAX_BLOCKS then (w, Some BlocksElapsed) else (w, None))"

subsection \<open>The judge is the pallet's gate check\<close>

lemma sign_row_spins: "sign_row milli = Inr spins \<Longrightarrow> spin_row spins"
  by (induction milli arbitrary: spins)
    (auto simp: spin_row_def sgn_if split: if_splits sum.splits)

text \<open>Every row of the proof with its energy, the way the pallet scores it before any gate.\<close>

fun proof_rows ::
  "'index PowCrate \<Rightarrow> MiningSnapshot \<Rightarrow> 'index \<Rightarrow> int list \<Rightarrow> int list \<Rightarrow> bytes list \<Rightarrow> string + SpinRow list" where
  "proof_rows P snap index h j [] = Inr []"
| "proof_rows P snap index h j (packed # solutions) =
     (case score_row P snap index h j packed of
        Inl e \<Rightarrow> Inl e
      | Inr row \<Rightarrow> (case proof_rows P snap index h j solutions of
          Inl e \<Rightarrow> Inl e | Inr rows \<Rightarrow> Inr (row # rows)))"

lemma score_rows_proof_rows:
  "score_rows P snap index h j solutions valid
     = (case proof_rows P snap index h j solutions of
          Inl e \<Rightarrow> Inl e
        | Inr rows \<Rightarrow> Inr (valid @ admitted_rows (ms_max_energy_milli snap) rows))"
  by (induction solutions arbitrary: valid) (auto simp: admitted_rows_def split: sum.splits)

lemma score_row_spins: "score_row P snap index h j packed = Inr row \<Longrightarrow> spin_row (sr_spins row)"
  by (auto simp: score_row_def sign_row_spins split: sum.splits)

lemma proof_rows_shape:
  "proof_rows P snap index h j solutions = Inr rows \<Longrightarrow>
     length rows = length solutions \<and> list_all (\<lambda>r. spin_row (sr_spins r)) rows"
  by (induction solutions arbitrary: rows) (auto simp: score_row_spins split: sum.splits)

definition snapshot_gates :: "MiningSnapshot \<Rightarrow> QualityGates" where
  "snapshot_gates snap = \<lparr> qg_min_energy_milli = ms_max_energy_milli snap,
     qg_min_diversity_milli = ms_min_diversity_milli snap, qg_min_solutions = ms_min_solutions snap \<rparr>"

definition diversity_total :: "'e diversity \<Rightarrow> bool" where
  "diversity_total dv \<longleftrightarrow> (\<forall>rows. list_all spin_row rows \<longrightarrow> (\<exists>d. dv rows = Inr d))"

lemma score_gates_check:
  assumes "selector_ok (pc_select P)" "selector_total (pc_select P)" "diversity_total (pc_diversity P)"
    and rows: "list_all (\<lambda>r. spin_row (sr_spins r)) rows" "length rows < 2 ^ 32"
  shows "score_gates P snap (admitted_rows (ms_max_energy_milli snap) rows) = Inr (Clears e) \<longleftrightarrow>
    (\<exists>pg. check_proof_gates (pc_select P) (pc_diversity P) rows (snapshot_gates snap) = Some pg
       \<and> pg_accepted pg \<and> pg_best_energy_milli pg = e)"
proof -
  define adm where "adm = admitted_rows (ms_max_energy_milli snap) rows"
  define spins where "spins = map sr_spins adm"
  define target where "target = min (length spins) (max (ms_min_solutions snap) 1)"
  have sp: "list_all spin_row spins"
    using rows(1) by (auto simp: spins_def adm_def admitted_rows_def list_all_iff)
  have len: "length adm < 2 ^ 32"
    unfolding adm_def admitted_rows_def by (rule le_less_trans [OF length_filter_le rows(2)])
  obtain idx where idx: "pc_select P spins target = Inr idx"
    using assms(2) sp by (auto simp: selector_total_def)
  have in_range: "set idx \<subseteq> {..<length spins}"
    using assms(1) idx by (auto simp: selector_ok_def)
  have filt: "filter (\<lambda>i. i < length spins) idx = idx"
    using in_range by (intro filter_True) auto
  have picked: "pick spins idx = Some (map (\<lambda>i. spins ! i) idx)"
    using in_range by (auto simp: pick_def list_all_iff)
  have "list_all spin_row (map (\<lambda>i. spins ! i) idx)"
    using in_range sp by (auto simp: list_all_iff)
  then obtain d where d: "pc_diversity P (map (\<lambda>i. spins ! i) idx) = Inr d"
    using assms(3) by (auto simp: diversity_total_def)
  have score: "score_gates P snap adm = Inr (Clears e) \<longleftrightarrow> adm \<noteq> [] \<and> ms_min_solutions snap \<le> length adm
      \<and> ms_min_diversity_milli snap \<le> d \<and> e = Min (set (map sr_energy_milli adm))"
    using idx d filt len unfolding score_gates_def Let_def spins_def [symmetric] target_def [symmetric]
    by (auto simp: spins_def)
  have sas: "select_and_score (pc_select P) (pc_diversity P) spins (ms_min_solutions snap) = Some (idx, d)"
    unfolding select_and_score_def Let_def target_def [symmetric] by (simp add: idx picked d)
  have "check_proof_gates (pc_select P) (pc_diversity P) rows (snapshot_gates snap) =
      (if adm = [] then Some \<lparr> pg_best_energy_milli = i64_max, pg_diversity_milli = 0, pg_n_valid = 0, pg_accepted = False \<rparr>
       else Some \<lparr> pg_best_energy_milli = Min (set (map sr_energy_milli adm)), pg_diversity_milli = d,
         pg_n_valid = length adm, pg_accepted = (ms_min_solutions snap \<le> length adm \<and> ms_min_diversity_milli snap \<le> d) \<rparr>)"
    using sas len unfolding check_proof_gates_def Let_def snapshot_gates_def QualityGates.select_convs
      adm_def [symmetric] spins_def [symmetric] by (simp add: spins_def)
  with score show ?thesis unfolding adm_def [symmetric] by auto
qed

lemma score_Clears:
  "score P proof snap = Inr (Clears e) \<longleftrightarrow>
     (\<exists>index h j rows. pc_topology_index P (ms_nodes snap) (ms_edges snap) = Inr index
        \<and> pc_generate P (qp_nonce proof) (ms_nodes snap) (ms_edges snap)
            (ms_allowed_h_milli snap) (ms_allowed_j_milli snap) index = Inr (h, j)
        \<and> proof_rows P snap index h j (qp_solutions proof) = Inr rows
        \<and> score_gates P snap (admitted_rows (ms_max_energy_milli snap) rows) = Inr (Clears e))"
  by (auto simp: score_def score_rows_proof_rows split: sum.splits)

lemma judge_Clears:
  "judge_pending_proof P pending snap = Clears e \<longleftrightarrow>
     qp_topology_hash (pp_proof pending) = ms_topology_hash snap
     \<and> qp_nonce (pp_proof pending) = pc_derive_nonce P (ms_last_proof_block_hash snap)
          (pc_blake2_256 P (pp_account pending)) (qp_salt (pp_proof pending))
     \<and> score P (pp_proof pending) snap = Inr (Clears e)"
  by (auto simp: judge_pending_proof_def account_identity_bytes_def split: sum.splits)

text \<open>
  C38. The watcher's judge is the gate check of \<open>validate.rs\<close>: a pending proof clears with energy \<open>e\<close> exactly when it
  names the snapshot's topology, its nonce is derived from the snapshot's root and its signer, every row
  decodes, and \<open>check_proof_gates\<close> accepts the decoded rows under the snapshot's gates with best energy \<open>e\<close>.
\<close>
theorem judge_is_gate_check:
  assumes "selector_ok (pc_select P)" "selector_total (pc_select P)" "diversity_total (pc_diversity P)"
    and "length (qp_solutions (pp_proof pending)) < 2 ^ 32"
  shows "judge_pending_proof P pending snap = Clears e \<longleftrightarrow>
    qp_topology_hash (pp_proof pending) = ms_topology_hash snap
    \<and> qp_nonce (pp_proof pending) = pc_derive_nonce P (ms_last_proof_block_hash snap)
         (pc_blake2_256 P (pp_account pending)) (qp_salt (pp_proof pending))
    \<and> (\<exists>index h j rows pg. pc_topology_index P (ms_nodes snap) (ms_edges snap) = Inr index
        \<and> pc_generate P (qp_nonce (pp_proof pending)) (ms_nodes snap) (ms_edges snap)
            (ms_allowed_h_milli snap) (ms_allowed_j_milli snap) index = Inr (h, j)
        \<and> proof_rows P snap index h j (qp_solutions (pp_proof pending)) = Inr rows
        \<and> check_proof_gates (pc_select P) (pc_diversity P) rows (snapshot_gates snap) = Some pg
        \<and> pg_accepted pg \<and> pg_best_energy_milli pg = e)"
proof -
  have gates: "score_gates P snap (admitted_rows (ms_max_energy_milli snap) rows) = Inr (Clears e) \<longleftrightarrow>
      (\<exists>pg. check_proof_gates (pc_select P) (pc_diversity P) rows (snapshot_gates snap) = Some pg
         \<and> pg_accepted pg \<and> pg_best_energy_milli pg = e)"
    if "proof_rows P snap index h j (qp_solutions (pp_proof pending)) = Inr rows" for index h j rows
    using score_gates_check [of P rows snap e, OF assms(1-3)] proof_rows_shape [OF that] assms(4) by simp
  have "score P (pp_proof pending) snap = Inr (Clears e) \<longleftrightarrow>
      (\<exists>index h j rows pg. pc_topology_index P (ms_nodes snap) (ms_edges snap) = Inr index
        \<and> pc_generate P (qp_nonce (pp_proof pending)) (ms_nodes snap) (ms_edges snap)
            (ms_allowed_h_milli snap) (ms_allowed_j_milli snap) index = Inr (h, j)
        \<and> proof_rows P snap index h j (qp_solutions (pp_proof pending)) = Inr rows
        \<and> check_proof_gates (pc_select P) (pc_diversity P) rows (snapshot_gates snap) = Some pg
        \<and> pg_accepted pg \<and> pg_best_energy_milli pg = e)"
    unfolding score_Clears using gates by blast
  then show ?thesis unfolding judge_Clears by (simp only:)
qed

text \<open>A crate that accepts any byte string as a row of \<open>+1\<close> spins, two nodes and one edge.\<close>

definition demo_crate :: "unit PowCrate" where
  "demo_crate = \<lparr> pc_blake2_256 = (\<lambda>b. b), pc_derive_nonce = (\<lambda>r i s. length r + length i + length s),
     pc_topology_index = (\<lambda>_ _. Inr ()), pc_generate = (\<lambda>_ ns es _ _ _. Inr (map (\<lambda>_. - 1000) ns, map (\<lambda>_. 0) es)),
     pc_unpack = (\<lambda>_ n _. Inr (replicate n 1000)), pc_energy = (\<lambda>spins h _ _ _. Inr (sum_list (map2 (*) spins h))),
     pc_select = (\<lambda>rows k. Inr [0..<min k (length rows)]), pc_diversity = (\<lambda>_. Inr 500) \<rparr>"

definition demo_snapshot :: MiningSnapshot where
  "demo_snapshot = \<lparr> ms_head_hash = [], ms_last_proof_block_hash = [], ms_topology_hash = [7], ms_nodes = [0, 1],
     ms_edges = [(0, 1)], ms_allowed_h_milli = [], ms_allowed_j_milli = [], ms_allowed_spin_milli = [],
     ms_min_solutions = 1, ms_max_energy_milli = - 1500, ms_min_diversity_milli = 500, ms_block_number = 3,
     ms_spec_version = 1 \<rparr>"

definition demo_pending :: "QuantumProof PendingProof" where
  "demo_pending = \<lparr> pp_extrinsic_hash = [9], pp_account = [5], pp_proof = \<lparr> qp_topology_hash = [7], qp_nonce = 2,
     qp_salt = [6], qp_solutions = [[1]], qp_device_access_time_us = 0 \<rparr> \<rparr>"

lemmas demo_defs = demo_crate_def demo_snapshot_def demo_pending_def

lemma demo_crate_contract:
  "selector_ok (pc_select demo_crate)" "selector_total (pc_select demo_crate)" "diversity_total (pc_diversity demo_crate)"
  by (auto simp: demo_crate_def selector_ok_def selector_total_def diversity_total_def)

theorem judge_is_gate_check_witness: "judge_pending_proof demo_crate demo_pending demo_snapshot = Clears (- 2000)"
proof -
  have "length (qp_solutions (pp_proof demo_pending)) < 2 ^ 32" by (simp add: demo_defs)
  from judge_is_gate_check [OF demo_crate_contract this, of demo_snapshot "- 2000"] show ?thesis
    by (simp add: demo_defs score_row_def check_proof_gates_def admitted_rows_def snapshot_gates_def
        select_and_score_def pick_def)
qed

subsection \<open>A proof that held the miners once does not hold them again\<close>

definition watch_ok :: "PoolWatch \<Rightarrow> bool" where
  "watch_ok w \<longleftrightarrow> (\<forall>c. Some c \<in> snd ` set (pw_verdicts w) \<longrightarrow> (cl_account c, cl_nonce c) \<notin> pw_ignored w)"

text \<open>The best clearing so far is one of the cached ones.\<close>

definition best_cached :: "PoolWatch \<times> Clearing option \<Rightarrow> bool" where
  "best_cached acc \<longleftrightarrow> (\<forall>c. snd acc = Some c \<longrightarrow> Some c \<in> snd ` set (pw_verdicts (fst acc)))"

lemma hm_get_in: "hm_get m k = Some v \<Longrightarrow> v \<in> snd ` set m"
  unfolding hm_get_def by (force dest: map_of_SomeD)

lemma hm_insert_values:
  "hm_get m k = None \<Longrightarrow> snd ` set (hm_insert k v m) = insert v (snd ` set m)"
  unfolding hm_get_def hm_insert_def by (induction m) (auto split: if_splits)

lemma better_clearing_cases: "better_clearing v best = Some c \<Longrightarrow> v = Some c \<or> best = Some c"
  by (auto simp: better_clearing_def split: option.splits if_splits)

lemma scan_one_keeps:
  assumes "watch_ok (fst acc)" "best_cached acc"
  shows "watch_ok (fst (scan_one P snap p acc))" "best_cached (scan_one P snap p acc)"
    "pw_ignored (fst (scan_one P snap p acc)) = pw_ignored (fst acc)"
    "pw_root (fst (scan_one P snap p acc)) = pw_root (fst acc)"
    "pw_stopped_at (fst (scan_one P snap p acc)) = pw_stopped_at (fst acc)"
    "pw_clear_polls (fst (scan_one P snap p acc)) = pw_clear_polls (fst acc)"
  using assms
  by (auto simp: scan_one_def split_def Let_def watch_ok_def best_cached_def hm_insert_values
      split: option.splits Verdict.splits dest!: better_clearing_cases dest: hm_get_in)

lemma scan_fold_keeps:
  assumes "watch_ok (fst acc)" "best_cached acc" "fold (scan_one P snap) pending acc = acc'"
  shows "watch_ok (fst acc') \<and> best_cached acc' \<and> pw_ignored (fst acc') = pw_ignored (fst acc)
    \<and> pw_root (fst acc') = pw_root (fst acc) \<and> pw_stopped_at (fst acc') = pw_stopped_at (fst acc)
    \<and> pw_clear_polls (fst acc') = pw_clear_polls (fst acc)"
  using assms
proof (induction pending arbitrary: acc)
  case (Cons p pending)
  with Cons.IH [of "scan_one P snap p acc"] scan_one_keeps [OF Cons.prems(1,2), of P snap p] show ?case by simp
qed simp

lemma scan_keeps:
  assumes "watch_ok w" "scan P pending snap w = (w', found)"
  shows "watch_ok w'" "best_cached (w', found)" "pw_root w' = Some (ms_last_proof_block_hash snap)"
    "pw_root w = Some (ms_last_proof_block_hash snap) \<Longrightarrow> pw_ignored w' = pw_ignored w"
    "pw_stopped_at w' = pw_stopped_at w" "pw_clear_polls w' = pw_clear_polls w"
proof -
  have "watch_ok (start_root snap w)" using assms(1) by (simp add: watch_ok_def start_root_def)
  moreover have "best_cached (start_root snap w, None)" by (simp add: best_cached_def)
  ultimately have k: "watch_ok w' \<and> best_cached (w', found) \<and> pw_ignored w' = pw_ignored (start_root snap w)
      \<and> pw_root w' = pw_root (start_root snap w) \<and> pw_stopped_at w' = pw_stopped_at (start_root snap w)
      \<and> pw_clear_polls w' = pw_clear_polls (start_root snap w)"
    using scan_fold_keeps [of "(start_root snap w, None)" P snap pending "(w', found)"] assms(2)
    by (simp add: scan_def)
  then show "watch_ok w'" "best_cached (w', found)" by simp_all
  from k show "pw_root w' = Some (ms_last_proof_block_hash snap)"
      "pw_root w = Some (ms_last_proof_block_hash snap) \<Longrightarrow> pw_ignored w' = pw_ignored w"
      "pw_stopped_at w' = pw_stopped_at w" "pw_clear_polls w' = pw_clear_polls w"
    by (auto simp: start_root_def)
qed

text \<open>A call on the watch, and a sequence of calls.\<close>

datatype pool_call =
  PScan "QuantumProof PendingProof list" MiningSnapshot | PExpire | PStopped nat | PResume PoolObservation nat

fun pool_call_step :: "'index PowCrate \<Rightarrow> pool_call \<Rightarrow> PoolWatch \<Rightarrow> PoolWatch" where
  "pool_call_step P (PScan pending snap) w = fst (scan P pending snap w)"
| "pool_call_step P PExpire w = expire_clearing w"
| "pool_call_step P (PStopped block) w = stopped block w"
| "pool_call_step P (PResume observed block) w = fst (resume_reason observed block w)"

definition pool_run :: "'index PowCrate \<Rightarrow> pool_call list \<Rightarrow> PoolWatch \<Rightarrow> PoolWatch" where
  "pool_run P calls w = fold (pool_call_step P) calls w"

fun on_root :: "bytes \<Rightarrow> pool_call \<Rightarrow> bool" where
  "on_root root (PScan pending snap) \<longleftrightarrow> ms_last_proof_block_hash snap = root"
| "on_root root _ \<longleftrightarrow> True"

lemma resume_reason_fields:
  "pw_root (fst (resume_reason observed block w)) = pw_root w"
  "pw_verdicts (fst (resume_reason observed block w)) = pw_verdicts w"
  "pw_ignored (fst (resume_reason observed block w)) = pw_ignored w"
  "pw_stopped_at (fst (resume_reason observed block w)) = pw_stopped_at w"
  by (auto simp: resume_reason_def Let_def split: PoolObservation.splits option.splits)

lemma pool_call_step_ok: "watch_ok w \<Longrightarrow> watch_ok (pool_call_step P call w)"
proof (cases call)
  case (PScan pending snap)
  assume "watch_ok w"
  then show ?thesis using scan_keeps(1) [of w P pending snap] PScan by (simp add: prod_eq_iff)
qed (auto simp: watch_ok_def expire_clearing_def stopped_def resume_reason_fields)

lemma pool_call_step_root:
  assumes "watch_ok w" "pw_root w = Some root" "on_root root call"
  shows "pw_root (pool_call_step P call w) = Some root" "pw_ignored w \<subseteq> pw_ignored (pool_call_step P call w)"
proof -
  have "pw_root (pool_call_step P call w) = Some root \<and> pw_ignored w \<subseteq> pw_ignored (pool_call_step P call w)"
  proof (cases call)
    case (PScan pending snap)
    then show ?thesis
      using assms scan_keeps(3,4) [OF assms(1), where P = P and pending = pending and snap = snap
          and w' = "fst (scan P pending snap w)" and found = "snd (scan P pending snap w)"] by simp
  qed (use assms(2) in \<open>auto simp: expire_clearing_def stopped_def resume_reason_fields\<close>)
  then show "pw_root (pool_call_step P call w) = Some root" "pw_ignored w \<subseteq> pw_ignored (pool_call_step P call w)" by auto
qed

lemma pool_run_ok: "watch_ok w \<Longrightarrow> watch_ok (pool_run P calls w)"
  unfolding pool_run_def by (induction calls arbitrary: w) (auto simp: pool_call_step_ok)

lemma pool_run_root:
  assumes "watch_ok w" "pw_root w = Some root" "list_all (on_root root) calls"
  shows "pw_root (pool_run P calls w) = Some root \<and> pw_ignored w \<subseteq> pw_ignored (pool_run P calls w)"
  using assms
proof (induction calls arbitrary: w)
  case (Cons call calls)
  then show ?case
    using Cons.IH [of "pool_call_step P call w"] pool_call_step_ok [of w P call] pool_call_step_root [of w root call P]
    by (auto simp: pool_run_def)
qed (simp add: pool_run_def)

text \<open>
  A proof that held the miners and produced no qblock cannot hold them again on its root: from a fresh
  watch after any calls, once a scan has found it and the round was resumed (\<open>expire_clearing\<close>), no later scan on
  the same root returns a clearing of the same signer and nonce, under whatever extrinsic hash it is
  resubmitted and however scans, stops, polls and further resumes interleave.
\<close>
theorem expired_proof_never_holds_again:
  assumes "scan P pending snap (pool_run P calls new_pool_watch) = (w, Some c)"
    and "list_all (on_root (ms_last_proof_block_hash snap)) calls'"
    and "ms_last_proof_block_hash snap' = ms_last_proof_block_hash snap"
    and "scan P pending' snap' (pool_run P calls' (expire_clearing w)) = (w', Some c')"
  shows "(cl_account c', cl_nonce c') \<noteq> (cl_account c, cl_nonce c)"
proof -
  have "watch_ok new_pool_watch" by (simp add: watch_ok_def new_pool_watch_def)
  note w = scan_keeps [OF pool_run_ok [OF this, of P calls] assms(1)]
  let ?w1 = "expire_clearing w" let ?w2 = "pool_run P calls' ?w1"
  have ok1: "watch_ok ?w1" by (auto simp: watch_ok_def expire_clearing_def)
  have "(cl_account c, cl_nonce c) \<in> pw_ignored ?w1" using w(2) by (auto simp: best_cached_def expire_clearing_def)
  moreover have r2: "pw_root ?w2 = Some (ms_last_proof_block_hash snap) \<and> pw_ignored ?w1 \<subseteq> pw_ignored ?w2"
    using w(3) by (intro pool_run_root ok1 assms(2)) (simp add: expire_clearing_def)
  moreover note w2 = scan_keeps [OF pool_run_ok [OF ok1, of P calls'] assms(4)]
  moreover have "pw_ignored w' = pw_ignored ?w2" using w2(4) r2 assms(3) by simp
  moreover have "(cl_account c', cl_nonce c') \<notin> pw_ignored w'"
    using w2(1,2) by (auto simp: watch_ok_def best_cached_def)
  ultimately show ?thesis by auto
qed

definition demo_pending2 :: "QuantumProof PendingProof" where
  "demo_pending2 = \<lparr> pp_extrinsic_hash = [8], pp_account = [5], pp_proof = \<lparr> qp_topology_hash = [7], qp_nonce = 3,
     qp_salt = [6, 6], qp_solutions = [[1]], qp_device_access_time_us = 0 \<rparr> \<rparr>"

lemma demo_judged:
  "judge_pending_proof demo_crate demo_pending demo_snapshot = Clears (- 2000)"
  "judge_pending_proof demo_crate demo_pending2 demo_snapshot = Clears (- 2000)"
  by (simp_all add: demo_defs demo_pending2_def judge_pending_proof_def account_identity_bytes_def score_def
      score_row_def score_gates_def)

lemma demo_ids:
  "pp_extrinsic_hash demo_pending = [9]" "pp_account demo_pending = [5]" "qp_nonce (pp_proof demo_pending) = 2"
  "pp_extrinsic_hash demo_pending2 = [8]" "pp_account demo_pending2 = [5]" "qp_nonce (pp_proof demo_pending2) = 3"
  by (simp_all add: demo_pending_def demo_pending2_def)

theorem expired_proof_never_holds_again_witness:
  "\<exists>w w'. scan demo_crate [demo_pending] demo_snapshot (pool_run demo_crate [] new_pool_watch)
       = (w, Some \<lparr> cl_account = [5], cl_nonce = 2, cl_best_energy_milli = - 2000 \<rparr>)
     \<and> scan demo_crate [demo_pending, demo_pending2] demo_snapshot
         (pool_run demo_crate [PStopped 3, PScan [demo_pending] demo_snapshot] (expire_clearing w))
       = (w', Some \<lparr> cl_account = [5], cl_nonce = 3, cl_best_energy_milli = - 2000 \<rparr>)
     \<and> ([5 :: u8], 3 :: nat) \<noteq> ([5], 2)"
proof -
  let ?w = "\<lparr> pw_root = Some [], pw_verdicts = [([9], Some \<lparr> cl_account = [5], cl_nonce = 2, cl_best_energy_milli = - 2000 \<rparr>)],
    pw_ignored = {}, pw_stopped_at = None, pw_clear_polls = 0 \<rparr> :: PoolWatch"
  let ?w' = "\<lparr> pw_root = Some [], pw_verdicts = [([8], Some \<lparr> cl_account = [5], cl_nonce = 3, cl_best_energy_milli = - 2000 \<rparr>)],
    pw_ignored = {([5], 2)}, pw_stopped_at = Some 3, pw_clear_polls = 0 \<rparr> :: PoolWatch"
  have root: "ms_last_proof_block_hash demo_snapshot = []" by (simp add: demo_snapshot_def)
  note eval = scan_def start_root_def scan_one_def pool_run_def new_pool_watch_def root demo_judged demo_ids
    hm_get_def hm_insert_def better_clearing_def expire_clearing_def stopped_def
  have 1: "scan demo_crate [demo_pending] demo_snapshot (pool_run demo_crate [] new_pool_watch)
      = (?w, Some \<lparr> cl_account = [5], cl_nonce = 2, cl_best_energy_milli = - 2000 \<rparr>)"
    by (simp add: eval)
  have 2: "scan demo_crate [demo_pending, demo_pending2] demo_snapshot
         (pool_run demo_crate [PStopped 3, PScan [demo_pending] demo_snapshot] (expire_clearing ?w))
       = (?w', Some \<lparr> cl_account = [5], cl_nonce = 3, cl_best_energy_milli = - 2000 \<rparr>)"
    by (simp add: eval)
  have 3: "list_all (on_root (ms_last_proof_block_hash demo_snapshot)) [PStopped 3, PScan [demo_pending] demo_snapshot]"
    by simp
  from expired_proof_never_holds_again [OF 1 3 refl 2] 1 2 show ?thesis by (intro exI conjI) simp_all
qed

subsection \<open>How long a pending proof holds the miners\<close>

text \<open>Polls with an empty pool since the last poll that saw a clearing proof; unreadable polls do not count.\<close>

fun clear_streak :: "pool_call list \<Rightarrow> nat" where
  "clear_streak [] = 0"
| "clear_streak (PResume ObsClear _ # calls) = Suc (clear_streak calls)"
| "clear_streak (PResume ObsClearing _ # calls) = 0"
| "clear_streak (_ # calls) = clear_streak calls"

fun is_stop :: "pool_call \<Rightarrow> bool" where
  "is_stop (PStopped _) = True"
| "is_stop _ = False"

lemma resume_clear_polls:
  "pw_clear_polls (fst (resume_reason observed block w)) =
     (case observed of ObsClearing \<Rightarrow> 0 | ObsClear \<Rightarrow> sat_add_u32 (pw_clear_polls w) 1 | ObsUnknown \<Rightarrow> pw_clear_polls w)"
  by (auto simp: resume_reason_def Let_def split: PoolObservation.splits option.splits)

lemma resume_decision:
  "snd (resume_reason observed block w) =
     (let w' = fst (resume_reason observed block w) in
      if 2 \<le> pw_clear_polls w' then Some PoolClear
      else case pw_stopped_at w' of None \<Rightarrow> None
        | Some since \<Rightarrow> if 2 \<le> block - since then Some BlocksElapsed else None)"
  by (auto simp: resume_reason_def Let_def AWAIT_CLEAR_POLLS_def AWAIT_QBLOCK_MAX_BLOCKS_def
      split: PoolObservation.splits option.splits)

lemma waiting_run:
  assumes "watch_ok w" "list_all (\<lambda>call. \<not> is_stop call) calls"
  shows "watch_ok (pool_run P (rev calls) (stopped block w))
    \<and> pw_stopped_at (pool_run P (rev calls) (stopped block w)) = Some block
    \<and> pw_clear_polls (pool_run P (rev calls) (stopped block w)) = min (clear_streak calls) u32_max"
  using assms(2)
proof (induction calls)
  case Nil
  then show ?case using assms(1) by (simp add: pool_run_def stopped_def watch_ok_def)
next
  case (Cons call calls)
  let ?w = "pool_run P (rev calls) (stopped block w)"
  have step: "pool_run P (rev (call # calls)) (stopped block w) = pool_call_step P call ?w" by (simp add: pool_run_def)
  have ih: "watch_ok ?w" "pw_stopped_at ?w = Some block" "pw_clear_polls ?w = min (clear_streak calls) u32_max"
    using Cons by simp_all
  show ?case
  proof (cases call)
    case (PScan pending snap)
    with ih scan_keeps(1,5,6) [OF ih(1), where P = P and pending = pending and snap = snap
        and w' = "fst (scan P pending snap ?w)" and found = "snd (scan P pending snap ?w)"]
    show ?thesis unfolding step by simp
  next
    case (PResume obs blk)
    then show ?thesis unfolding step
      using ih pool_call_step_ok [OF ih(1), of P call]
      by (cases obs) (auto simp: resume_clear_polls resume_reason_fields sat_add_u32_def)
  next
    case PExpire
    then show ?thesis unfolding step using ih pool_call_step_ok [OF ih(1), of P call]
      by (simp add: expire_clearing_def)
  qed (use Cons.prems in simp)
qed

text \<open>
  Exactly when the wait ends: after the miners were stopped at a block, a poll resumes the round with \<open>PoolClear\<close>
  when it is the second or later poll in a row that saw no clearing proof (polls that could not read the pool neither
  count nor reset), with \<open>BlocksElapsed\<close> when two blocks have passed since the stop, and keeps waiting otherwise.
  So no pending proof holds the miners past the second block, whatever the pool shows.
\<close>
theorem resume_exactly_when:
  assumes "list_all (\<lambda>call. \<not> is_stop call) polls"
  shows "snd (resume_reason observed block
      (pool_run P polls (stopped since (pool_run P calls new_pool_watch)))) =
    (if 2 \<le> clear_streak (PResume observed block # rev polls) then Some PoolClear
     else if 2 \<le> block - since then Some BlocksElapsed else None)"
proof -
  have "watch_ok new_pool_watch" by (simp add: watch_ok_def new_pool_watch_def)
  note ok = pool_run_ok [OF this, of P calls]
  have "list_all (\<lambda>call. \<not> is_stop call) (PResume observed block # rev polls)" using assms by (simp add: list_all_iff)
  from waiting_run [OF ok this, of P since]
  show ?thesis
    unfolding resume_decision by (auto simp: pool_run_def Let_def)
qed

theorem resume_exactly_when_witness:
  "snd (resume_reason ObsClear 11 (pool_run demo_crate [PResume ObsClear 10, PResume ObsUnknown 11]
      (stopped 10 (pool_run demo_crate [] new_pool_watch)))) = Some PoolClear"
  using resume_exactly_when [of "[PResume ObsClear 10, PResume ObsUnknown 11]" ObsClear 11 demo_crate 10 "[]"] by simp

end
