(* ===== verification/Survey.thy ===== *)
theory Survey
  imports Text
begin

text \<open>
  \<open>survey.rs\<close>: the host survey that goes into the node descriptor. The probes read the machine and are
  inputs (\<open>RawSurvey\<close>); the sanitizer that clamps them into the pallet's bounds is modelled whole.
  \<open>str::to_lowercase\<close> is an argument (the Unicode tables), as is the crate version; the theorems hold
  for any of them.
\<close>

subsection \<open>The pallet's shape\<close>

definition MAX_OS_STRING_BYTES :: nat where "MAX_OS_STRING_BYTES = 64"
definition MAX_CPU_BRAND_BYTES :: nat where "MAX_CPU_BRAND_BYTES = 96"
definition MAX_ARCH_BYTES :: nat where "MAX_ARCH_BYTES = 16"
definition MAX_GPU_VENDOR_BYTES :: nat where "MAX_GPU_VENDOR_BYTES = 16"
definition MAX_GPU_NAME_BYTES :: nat where "MAX_GPU_NAME_BYTES = 96"
definition MAX_GPUS :: nat where "MAX_GPUS = 16"
definition MAX_RUNTIME_VERSION_BYTES :: nat where "MAX_RUNTIME_VERSION_BYTES = 48"
definition MAX_DOCKER_IMAGE_BYTES :: nat where "MAX_DOCKER_IMAGE_BYTES = 256"

lemmas pallet_maxima = MAX_OS_STRING_BYTES_def MAX_CPU_BRAND_BYTES_def MAX_ARCH_BYTES_def
  MAX_GPU_VENDOR_BYTES_def MAX_GPU_NAME_BYTES_def MAX_GPUS_def MAX_RUNTIME_VERSION_BYTES_def MAX_DOCKER_IMAGE_BYTES_def

record OsInfoScale =
  os_system :: bytes
  os_release :: bytes
  os_machine :: bytes

record CpuInfoScale =
  cpu_logical_cores :: "nat option"
  cpu_physical_cores :: "nat option"
  cpu_brand :: bytes
  cpu_arch :: bytes

record GpuInfoScale =
  gpu_index :: nat
  gpu_vendor :: bytes
  gpu_name :: bytes
  gpu_memory_mb :: "nat option"
  gpu_utilization_pct :: "nat option"

record SystemInfoScale =
  si_os :: OsInfoScale
  si_cpu :: CpuInfoScale
  si_memory_mb :: "nat option"
  si_gpus :: "GpuInfoScale list"

record RuntimeInfoScale =
  ri_python :: bytes
  ri_quip_version :: bytes
  ri_protocol_version :: nat
  ri_in_docker :: bool
  ri_docker_image :: "bytes option"

record RawGpu =
  rg_vendor :: ustring
  rg_name :: ustring
  rg_memory_mb :: "nat option"
  rg_utilization_pct :: "nat option"

record RawSurvey =
  rw_os_system :: ustring
  rw_os_release :: ustring
  rw_os_machine :: ustring
  rw_cpu_brand :: ustring
  rw_cpu_arch :: ustring
  rw_logical_cores :: "nat option"
  rw_physical_cores :: "nat option"
  rw_memory_mb :: "nat option"
  rw_gpus :: "RawGpu list"
  rw_python :: ustring
  rw_in_docker :: bool
  rw_docker_image :: "ustring option"

record HostSurvey =
  hs_system :: SystemInfoScale
  hs_runtime :: RuntimeInfoScale

definition UNKNOWN :: ustring where "UNKNOWN = us ''unknown''"
definition REDACTED :: ustring where "REDACTED = us ''redacted''"
definition PYTHON_UNKNOWN :: ustring where "PYTHON_UNKNOWN = us ''v0.0.0''"
definition SURVEY_PROTOCOL_VERSION :: nat where "SURVEY_PROTOCOL_VERSION = 1"

definition fits_pallet_bounds :: "SystemInfoScale \<Rightarrow> bool" where
  "fits_pallet_bounds info =
     (let os_ok = os_system (si_os info) \<noteq> [] \<and> length (os_system (si_os info)) \<le> MAX_OS_STRING_BYTES
            \<and> length (os_release (si_os info)) \<le> MAX_OS_STRING_BYTES
            \<and> length (os_machine (si_os info)) \<le> MAX_OS_STRING_BYTES;
          cpu_ok = cpu_brand (si_cpu info) \<noteq> [] \<and> length (cpu_brand (si_cpu info)) \<le> MAX_CPU_BRAND_BYTES
            \<and> cpu_arch (si_cpu info) \<noteq> [] \<and> length (cpu_arch (si_cpu info)) \<le> MAX_ARCH_BYTES;
          gpus_ok = length (si_gpus info) \<le> MAX_GPUS \<and> list_all (\<lambda>gpu.
              gpu_vendor gpu \<noteq> [] \<and> length (gpu_vendor gpu) \<le> MAX_GPU_VENDOR_BYTES
              \<and> gpu_name gpu \<noteq> [] \<and> length (gpu_name gpu) \<le> MAX_GPU_NAME_BYTES
              \<and> (case gpu_utilization_pct gpu of None \<Rightarrow> True | Some pct \<Rightarrow> pct \<le> 100)) (si_gpus info)
      in os_ok \<and> cpu_ok \<and> gpus_ok)"

definition runtime_fits_pallet_bounds :: "RuntimeInfoScale \<Rightarrow> bool" where
  "runtime_fits_pallet_bounds info \<longleftrightarrow>
     ri_python info \<noteq> [] \<and> length (ri_python info) \<le> MAX_RUNTIME_VERSION_BYTES
     \<and> ri_quip_version info \<noteq> [] \<and> length (ri_quip_version info) \<le> MAX_RUNTIME_VERSION_BYTES
     \<and> (case ri_docker_image info of None \<Rightarrow> True
         | Some img \<Rightarrow> img \<noteq> [] \<and> length img \<le> MAX_DOCKER_IMAGE_BYTES)"

subsection \<open>The sanitizer\<close>

definition is_token_char :: "nat \<Rightarrow> bool" where
  "is_token_char c \<longleftrightarrow> is_ascii_alphanumeric c \<or> c \<in> {46, 45, 95}"

definition has_prefixed_run :: "ustring \<Rightarrow> ustring \<Rightarrow> nat \<Rightarrow> (nat \<Rightarrow> bool) \<Rightarrow> bool" where
  "has_prefixed_run value prefix run ok \<longleftrightarrow>
     list_ex (\<lambda>rest. length (takeWhile ok rest) \<ge> run) (match_rests prefix value)"

definition assigns_value :: "ustring \<Rightarrow> ustring \<Rightarrow> bool" where
  "assigns_value haystack key \<longleftrightarrow>
     list_ex (\<lambda>rest. case trim_start rest of
         [] \<Rightarrow> False
       | sep # tail \<Rightarrow>
           if sep \<noteq> 58 \<and> sep \<noteq> 61 then False
           else (case first_word tail of None \<Rightarrow> False | Some assigned \<Rightarrow> str_len assigned \<ge> 8))
       (match_rests key haystack)"

definition contains_text :: "ustring \<Rightarrow> ustring \<Rightarrow> bool" where
  "contains_text needle value \<longleftrightarrow> match_rests needle value \<noteq> []"

definition looks_like_credential :: "(ustring \<Rightarrow> ustring) \<Rightarrow> ustring \<Rightarrow> bool" where
  "looks_like_credential to_lowercase value =
     (let lowered = to_lowercase value;
          squashed = filter (\<lambda>c. c \<noteq> 45 \<and> c \<noteq> 95) lowered
      in if list_ex (\<lambda>needle. contains_text (us needle) squashed)
              [''dwaveapikey'', ''dwaveapitoken'', ''awsaccesskey'', ''awssecretkey'', ''privatekey''] then True
         else if list_ex (\<lambda>key. assigns_value lowered (us key)) [''apikey'', ''token'', ''secret'', ''password''] then True
         else has_prefixed_run value (us ''AKIA'') 16 (\<lambda>c. is_ascii_uppercase c \<or> is_ascii_digit c)
            \<or> has_prefixed_run lowered (us ''sk-'') 20 is_token_char
            \<or> has_prefixed_run lowered (us ''bearer '') 20 is_token_char
            \<or> has_prefixed_run value (us ''eyJ'') 20 is_token_char)"

definition clamp_utf8 :: "ustring \<Rightarrow> nat \<Rightarrow> ustring" where
  "clamp_utf8 value max' =
     (let trimmed = trim value in if str_len trimmed \<le> max' then trimmed else str_prefix trimmed (step_back trimmed max'))"

definition is_invisible :: "nat \<Rightarrow> bool" where
  "is_invisible c \<longleftrightarrow> c = 0x00AD \<or> (0x200B \<le> c \<and> c \<le> 0x200F) \<or> (0x2028 \<le> c \<and> c \<le> 0x202E)
     \<or> (0x2060 \<le> c \<and> c \<le> 0x2064) \<or> (0x2066 \<le> c \<and> c \<le> 0x2069) \<or> c = 0xFEFF \<or> (0xFFF9 \<le> c \<and> c \<le> 0xFFFB)"

fun scrub_loop :: "ustring \<Rightarrow> bool \<Rightarrow> ustring \<Rightarrow> ustring" where
  "scrub_loop [] gap out = out"
| "scrub_loop (ch # value) gap out =
     (if is_control ch \<or> is_whitespace ch \<or> is_invisible ch then scrub_loop value True out
      else scrub_loop value False ((if gap \<and> out \<noteq> [] then out @ [0x20] else out) @ [ch]))"

definition scrub :: "ustring \<Rightarrow> ustring" where
  "scrub value = scrub_loop value False []"

definition bounded :: "(ustring \<Rightarrow> ustring) \<Rightarrow> ustring \<Rightarrow> nat \<Rightarrow> bytes" where
  "bounded to_lowercase value max' =
     (let scrubbed = scrub value in
      if looks_like_credential to_lowercase scrubbed then utf8 REDACTED
      else utf8 (clamp_utf8 scrubbed max'))"

definition bounded_nonempty :: "(ustring \<Rightarrow> ustring) \<Rightarrow> ustring \<Rightarrow> nat \<Rightarrow> bytes" where
  "bounded_nonempty to_lowercase value max' =
     (let out = bounded to_lowercase value max' in if out = [] then utf8 UNKNOWN else out)"

definition sanitize_gpu :: "(ustring \<Rightarrow> ustring) \<Rightarrow> nat \<Rightarrow> RawGpu \<Rightarrow> GpuInfoScale" where
  "sanitize_gpu lc index raw =
     \<lparr> gpu_index = min index 255,
       gpu_vendor = bounded_nonempty lc (rg_vendor raw) MAX_GPU_VENDOR_BYTES,
       gpu_name = bounded_nonempty lc (rg_name raw) MAX_GPU_NAME_BYTES,
       gpu_memory_mb = rg_memory_mb raw,
       gpu_utilization_pct = map_option (\<lambda>pct. min pct 100) (rg_utilization_pct raw) \<rparr>"

definition sanitize :: "(ustring \<Rightarrow> ustring) \<Rightarrow> ustring \<Rightarrow> RawSurvey \<Rightarrow> HostSurvey" where
  "sanitize lc pkg_version raw =
     \<lparr> hs_system =
         \<lparr> si_os = \<lparr> os_system = bounded_nonempty lc (rw_os_system raw) MAX_OS_STRING_BYTES,
                    os_release = bounded lc (rw_os_release raw) MAX_OS_STRING_BYTES,
                    os_machine = bounded lc (rw_os_machine raw) MAX_OS_STRING_BYTES \<rparr>,
           si_cpu = \<lparr> cpu_logical_cores = rw_logical_cores raw,
                     cpu_physical_cores = (case (rw_physical_cores raw, rw_logical_cores raw) of
                         (Some physical, Some logical) \<Rightarrow> Some (min physical logical)
                       | (physical, _) \<Rightarrow> physical),
                     cpu_brand = bounded_nonempty lc (rw_cpu_brand raw) MAX_CPU_BRAND_BYTES,
                     cpu_arch = bounded_nonempty lc (rw_cpu_arch raw) MAX_ARCH_BYTES \<rparr>,
           si_memory_mb = rw_memory_mb raw,
           si_gpus = map (\<lambda>(index, gpu). sanitize_gpu lc index gpu) (enumerate 0 (take MAX_GPUS (rw_gpus raw))) \<rparr>,
       hs_runtime =
         \<lparr> ri_python = bounded_nonempty lc (rw_python raw) MAX_RUNTIME_VERSION_BYTES,
           ri_quip_version = bounded_nonempty lc pkg_version MAX_RUNTIME_VERSION_BYTES,
           ri_protocol_version = SURVEY_PROTOCOL_VERSION,
           ri_in_docker = rw_in_docker raw,
           ri_docker_image = Option.bind (rw_docker_image raw) (\<lambda>img.
             let b = bounded lc img MAX_DOCKER_IMAGE_BYTES in if b = [] then None else Some b) \<rparr> \<rparr>"

text \<open>The probe thread answers within the budget or not at all.\<close>

definition collect :: "(ustring \<Rightarrow> ustring) \<Rightarrow> ustring \<Rightarrow> RawSurvey option \<Rightarrow> HostSurvey option" where
  "collect lc pkg_version probed = map_option (sanitize lc pkg_version) probed"

definition parse_python_version :: "ustring \<Rightarrow> ustring option" where
  "parse_python_version s =
     (let rest = dropWhile (\<lambda>c. \<not> is_whitespace c) (trim_start s)
      in case first_word rest of
           Some version \<Rightarrow> if is_ascii_digit (hd version) then Some version else None
         | None \<Rightarrow> None)"

definition sysctl_get :: "(ustring \<times> ustring) list \<Rightarrow> ustring \<Rightarrow> ustring option" where
  "sysctl_get values key = map_option snd (find (\<lambda>e. fst e = key) values)"

subsection \<open>Every field fits, and displays as what it is\<close>

definition displayable :: "ustring \<Rightarrow> bool" where
  "displayable s \<longleftrightarrow> (\<forall>c \<in> set s. \<not> is_control c \<and> \<not> is_invisible c \<and> (is_whitespace c \<longrightarrow> c = 0x20))"

lemma us_Nil [simp]: "us [] = []" and us_Cons [simp]: "us (c # s) = of_char c # us s"
  by (simp_all add: us_def)

lemma stand_ins:
  "length (utf8 REDACTED) = 8" "length (utf8 UNKNOWN) = 7" "displayable REDACTED" "displayable UNKNOWN"
  by (simp_all add: REDACTED_def UNKNOWN_def utf8_char_def displayable_def is_control_def is_invisible_def is_whitespace_def)

lemma displayable_append: "displayable (s @ t) \<longleftrightarrow> displayable s \<and> displayable t"
  by (auto simp: displayable_def)

lemma displayable_char:
  "displayable [0x20]" "\<not> (is_control c \<or> is_whitespace c \<or> is_invisible c) \<Longrightarrow> displayable [c]"
  by (simp_all add: displayable_def is_control_def is_invisible_def)

lemma scrub_displayable: "displayable out \<Longrightarrow> displayable (scrub_loop s gap out)"
  by (induction s gap out rule: scrub_loop.induct) (auto simp: displayable_append displayable_char)

lemma clamp_utf8_spec: "str_len (clamp_utf8 s m) \<le> m" "set (clamp_utf8 s m) \<subseteq> set s"
proof -
  show "str_len (clamp_utf8 s m) \<le> m" by (simp add: clamp_utf8_def Let_def str_prefix_step_back boundary_prefix_bound)
  obtain n where "boundary_prefix m (trim s) = take n (trim s)" using boundary_prefix_take by blast
  then show "set (clamp_utf8 s m) \<subseteq> set s"
    using set_trim [of s] by (auto simp: clamp_utf8_def Let_def str_prefix_step_back dest: in_set_takeD)
qed

lemma bounded_spec:
  assumes "8 \<le> m"
  shows "length (bounded lc v m) \<le> m" "\<exists>s. bounded lc v m = utf8 s \<and> displayable s"
proof -
  show "length (bounded lc v m) \<le> m"
    using assms clamp_utf8_spec(1) [of "scrub v" m]
    by (simp add: bounded_def Let_def stand_ins str_len_def)
  have "displayable (scrub v)" unfolding scrub_def by (rule scrub_displayable) (simp add: displayable_def)
  then have "displayable (clamp_utf8 (scrub v) m)"
    using clamp_utf8_spec(2) [of "scrub v" m] by (auto simp: displayable_def)
  then show "\<exists>s. bounded lc v m = utf8 s \<and> displayable s"
    using stand_ins(3) by (auto simp: bounded_def Let_def)
qed

lemma bounded_nonempty_spec:
  assumes "8 \<le> m"
  shows "length (bounded_nonempty lc v m) \<le> m" "bounded_nonempty lc v m \<noteq> []"
    "\<exists>s. bounded_nonempty lc v m = utf8 s \<and> displayable s"
  using bounded_spec [OF assms, of lc v] assms stand_ins by (auto simp: bounded_nonempty_def Let_def)

text \<open>Every text field of a survey, with an absent container image as the empty text.\<close>

definition survey_texts :: "HostSurvey \<Rightarrow> bytes list" where
  "survey_texts hs =
     [os_system (si_os (hs_system hs)), os_release (si_os (hs_system hs)), os_machine (si_os (hs_system hs)),
      cpu_brand (si_cpu (hs_system hs)), cpu_arch (si_cpu (hs_system hs)), ri_python (hs_runtime hs),
      ri_quip_version (hs_runtime hs), case ri_docker_image (hs_runtime hs) of None \<Rightarrow> [] | Some i \<Rightarrow> i]
     @ concat (map (\<lambda>g. [gpu_vendor g, gpu_name g]) (si_gpus (hs_system hs)))"

text \<open>
  C40. The sanitizer puts every host inside the pallet's bounds, whatever the probes returned: both blocks pass the
  last gate before the wire, so it never drops a survey; every text field is the UTF-8 of a text
  without control or invisible characters, cut only at code-point boundaries; and the core counts never
  say that there are more physical than logical cores.
\<close>
theorem sanitize_fits:
  "fits_pallet_bounds (hs_system (sanitize lc pkg raw)) \<and> runtime_fits_pallet_bounds (hs_runtime (sanitize lc pkg raw))
   \<and> list_all (\<lambda>field. \<exists>s. field = utf8 s \<and> displayable s) (survey_texts (sanitize lc pkg raw))
   \<and> (case (cpu_physical_cores (si_cpu (hs_system (sanitize lc pkg raw))),
             cpu_logical_cores (si_cpu (hs_system (sanitize lc pkg raw)))) of
        (Some physical, Some logical) \<Rightarrow> physical \<le> logical | _ \<Rightarrow> True)"
proof -
  note b = bounded_spec(1) bounded_nonempty_spec(1,2)
  have "fits_pallet_bounds (hs_system (sanitize lc pkg raw))"
    by (auto simp: fits_pallet_bounds_def sanitize_def sanitize_gpu_def pallet_maxima b list_all_iff split: option.splits)
  moreover have "runtime_fits_pallet_bounds (hs_runtime (sanitize lc pkg raw))"
    by (auto simp: runtime_fits_pallet_bounds_def sanitize_def pallet_maxima b Let_def split: option.splits bind_splits)
  moreover have "list_all (\<lambda>field. \<exists>s. field = utf8 s \<and> displayable s) (survey_texts (sanitize lc pkg raw))"
  proof -
    have none: "\<exists>s. [] = utf8 s \<and> displayable s" by (rule exI [of _ "[]"]) (simp add: displayable_def)
    note d = bounded_spec(2) bounded_nonempty_spec(3) none
    show ?thesis
      by (auto simp: survey_texts_def sanitize_def sanitize_gpu_def pallet_maxima list_all_iff Let_def
          intro!: d split: option.splits bind_splits)
  qed
  ultimately show ?thesis
    by (auto simp: sanitize_def split: option.splits)
qed

end
