(* ===== verification/Readiness.thy ===== *)
theory Readiness
  imports Survey Funding Submit Extrinsic Round
begin

text \<open>
  \<open>readiness.rs\<close> and the descriptor parts of \<open>config.rs\<close> and \<open>chain/scale_types.rs\<close>: the steps before mining.
  The chain is an environment that answers the \<open>i\<close>-th call of a step. An \<open>AtomicBool\<close> latch is a boolean
  that is passed in and returned; each operation also returns how many transactions it submitted.
  Text from the configuration is a list of scalar values, with lengths in UTF-8 bytes.
\<close>

definition SUBMIT_ATTEMPTS :: nat where "SUBMIT_ATTEMPTS = 3"
definition MAX_NODE_ID_BYTES :: nat where "MAX_NODE_ID_BYTES = 64"
definition MAX_NODE_NAME_BYTES :: nat where "MAX_NODE_NAME_BYTES = 64"
definition MAX_PUBLIC_HOST_BYTES :: nat where "MAX_PUBLIC_HOST_BYTES = 253"
definition MAX_RPC_ENDPOINT_BYTES :: nat where "MAX_RPC_ENDPOINT_BYTES = 256"
definition MAX_RPC_ENDPOINTS :: nat where "MAX_RPC_ENDPOINTS = 8"
definition MAX_MINER_SPECS :: nat where "MAX_MINER_SPECS = 16"

lemmas descriptor_maxima = MAX_NODE_ID_BYTES_def MAX_NODE_NAME_BYTES_def MAX_PUBLIC_HOST_BYTES_def
  MAX_RPC_ENDPOINT_BYTES_def MAX_RPC_ENDPOINTS_def

datatype ReadinessError = FundingFailed FundingError | SnapshotFailed string

datatype NodeLogLevel = LevelDebug | LevelInfo | LevelWarning | LevelError

record MinerSpecScale =
  sp_kind :: MinerKind
  sp_label :: "bytes option"
  sp_backend :: "bytes option"
  sp_device_id :: "bytes option"

record DescriptorParams =
  ds_node_id :: "ustring option"
  ds_node_name :: "ustring option"
  ds_public_host :: "ustring option"
  ds_public_port :: "nat option"
  ds_auto_mine :: bool
  ds_log_level :: NodeLogLevel
  ds_rpc_endpoints :: "ustring list"
  ds_miners :: "MinerSpecScale list"
  ds_system_info :: "SystemInfoScale option"
  ds_runtime :: "RuntimeInfoScale option"

definition default_descriptor :: DescriptorParams where
  "default_descriptor =
     \<lparr> ds_node_id = None, ds_node_name = None, ds_public_host = None, ds_public_port = None, ds_auto_mine = True,
       ds_log_level = LevelInfo, ds_rpc_endpoints = [], ds_miners = [], ds_system_info = None, ds_runtime = None \<rparr>"

record NodeDescriptorV2Input =
  nd_node_id :: bytes
  nd_node_name :: bytes
  nd_public_host :: "bytes option"
  nd_public_port :: "nat option"
  nd_rpc_endpoints :: "bytes list"
  nd_auto_mine :: bool
  nd_log_level :: NodeLogLevel
  nd_miners :: "MinerSpecScale list"
  nd_system_info :: "SystemInfoScale option"
  nd_runtime :: "RuntimeInfoScale option"

definition node_id_from_account :: "bytes \<Rightarrow> string" where
  "node_id_from_account account = hex_plain account"

definition keep_if :: "('a \<Rightarrow> bool) \<Rightarrow> 'a option \<Rightarrow> 'a option" where
  "keep_if P v = Option.bind v (\<lambda>x. if P x then Some x else None)"

text \<open>\<open>ss58\<close> renders an account as its SS58 address.\<close>

definition build_descriptor_payload ::
  "(bytes \<Rightarrow> ustring) \<Rightarrow> DescriptorParams \<Rightarrow> bytes \<Rightarrow> NodeDescriptorV2Input option" where
  "build_descriptor_payload ss58 params account =
     (let name = (case nonblank (ds_node_name params) of None \<Rightarrow> ss58 account | Some s \<Rightarrow> s) in
      if str_len name > MAX_NODE_NAME_BYTES then None
      else let node_id = (case nonblank (ds_node_id params) of
                            None \<Rightarrow> us (node_id_from_account account) | Some s \<Rightarrow> s) in
      if node_id = [] \<or> str_len node_id > MAX_NODE_ID_BYTES then None
      else if ds_miners params = [] then None
      else let host = nonblank (ds_public_host params) in
      if (case host of None \<Rightarrow> False | Some h \<Rightarrow> str_len h > MAX_PUBLIC_HOST_BYTES) then None
      else Some
        \<lparr> nd_node_id = utf8 node_id,
          nd_node_name = utf8 name,
          nd_public_host = map_option utf8 host,
          nd_public_port = keep_if (\<lambda>p. 0 < p) (ds_public_port params),
          nd_rpc_endpoints = map (\<lambda>e. utf8 (trim e))
             (filter (\<lambda>e. \<not> (trim e = [] \<or> str_len (trim e) > MAX_RPC_ENDPOINT_BYTES))
                (take MAX_RPC_ENDPOINTS (ds_rpc_endpoints params))),
          nd_auto_mine = ds_auto_mine params,
          nd_log_level = ds_log_level params,
          nd_miners = ds_miners params,
          nd_system_info = keep_if fits_pallet_bounds (ds_system_info params),
          nd_runtime = keep_if runtime_fits_pallet_bounds (ds_runtime params) \<rparr>)"

subsection \<open>The once-per-process steps\<close>

text \<open>The attempts left; the result is the answer returned, the latch and the calls made.\<close>

fun register_attempts :: "(nat \<Rightarrow> string + RegistrationOutcome) \<Rightarrow> nat \<Rightarrow> nat \<Rightarrow> bool \<times> bool \<times> nat" where
  "register_attempts chain i 0 = (False, False, i)"
| "register_attempts chain i (Suc left) =
     (case chain i of
        Inr Registered \<Rightarrow> (True, True, Suc i)
      | Inr AlreadyRegistered \<Rightarrow> (True, True, Suc i)
      | Inl _ \<Rightarrow> register_attempts chain (Suc i) left)"

definition register_round_miner :: "(nat \<Rightarrow> string + RegistrationOutcome) \<Rightarrow> bool \<Rightarrow> bool \<times> bool \<times> nat" where
  "register_round_miner chain miner_registered =
     (if miner_registered then (True, True, 0) else register_attempts chain 0 SUBMIT_ATTEMPTS)"

definition register_round_solver :: "string + RegistrationOutcome \<Rightarrow> bool \<Rightarrow> bool \<times> bool" where
  "register_round_solver answer solver_registered =
     (if solver_registered then (True, True)
      else case answer of
             Inr Registered \<Rightarrow> (True, True)
           | Inr AlreadyRegistered \<Rightarrow> (True, True)
           | Inl _ \<Rightarrow> (False, solver_registered))"

fun descriptor_attempts :: "(nat \<Rightarrow> string + DescriptorOutcome) \<Rightarrow> nat \<Rightarrow> nat \<Rightarrow> bool \<times> nat" where
  "descriptor_attempts chain i 0 = (False, i)"
| "descriptor_attempts chain i (Suc left) =
     (case chain i of
        Inr Filed \<Rightarrow> (True, Suc i)
      | Inr Rejected \<Rightarrow> (True, Suc i)
      | Inl _ \<Rightarrow> if left = 0 then (True, Suc i) else descriptor_attempts chain (Suc i) left)"

definition file_round_descriptor ::
  "(NodeDescriptorV2Input \<Rightarrow> nat \<Rightarrow> string + DescriptorOutcome) \<Rightarrow> (bytes \<Rightarrow> ustring) \<Rightarrow> bool \<Rightarrow> DescriptorParams \<Rightarrow> bytes
    \<Rightarrow> bool \<times> nat" where
  "file_round_descriptor chain ss58 descriptor_filed params account =
     (if descriptor_filed then (True, 0)
      else case build_descriptor_payload ss58 params account of
             None \<Rightarrow> (True, 0)
           | Some payload \<Rightarrow> descriptor_attempts (chain payload) 0 SUBMIT_ATTEMPTS)"

subsection \<open>Participation\<close>

definition candidate_qblock_id :: "nat option \<Rightarrow> nat" where
  "candidate_qblock_id latest = sat_add_u64 (case latest of None \<Rightarrow> 0 | Some n \<Rightarrow> n) 1"

text \<open>Settled or not, the qblock remembered, and the qblock for which a transaction was submitted, if any.\<close>

definition declare_round_participation ::
  "string + nat option \<Rightarrow> (nat \<Rightarrow> string + ParticipationOutcome) \<Rightarrow> nat option \<Rightarrow> bool \<times> nat option \<times> nat option" where
  "declare_round_participation latest_read declare_participation last_declared =
     (case latest_read of
        Inl _ \<Rightarrow> (False, last_declared, None)
      | Inr latest \<Rightarrow>
          let qblock_id = candidate_qblock_id latest in
          if last_declared = Some qblock_id then (True, last_declared, None)
          else case declare_participation qblock_id of
                 Inr Declared \<Rightarrow> (True, Some qblock_id, Some qblock_id)
               | Inr AlreadyDeclared \<Rightarrow> (True, Some qblock_id, Some qblock_id)
               | Inr StaleQBlock \<Rightarrow> (True, Some qblock_id, Some qblock_id)
               | Inr DescriptorMissing \<Rightarrow> (True, Some qblock_id, Some qblock_id)
               | Inl _ \<Rightarrow> (False, last_declared, Some qblock_id))"

subsection \<open>The walk at process start\<close>

record StartChain =
  sc_sync :: "nat \<Rightarrow> string + SyncStatus"
  sc_balance :: "nat \<Rightarrow> string + nat"
  sc_faucet :: "(nat \<Rightarrow> FaucetError + unit) option"
  sc_register :: "nat \<Rightarrow> string + RegistrationOutcome"
  sc_snapshot :: "string + MiningSnapshot option"
  sc_descriptor :: "NodeDescriptorV2Input \<Rightarrow> nat \<Rightarrow> string + DescriptorOutcome"

record ProcessLatches =
  la_descriptor_filed :: bool
  la_miner_registered :: bool

definition advance :: "RoundState \<Rightarrow> RoundState" where
  "advance state = (case transition state Succeeded of Some s \<Rightarrow> s | None \<Rightarrow> state)"

text \<open>
  \<open>None\<close> is a sync or funding wait that never ends. The result carries the latches and the states entered.
\<close>

definition prepare_round ::
  "StartChain \<Rightarrow> (bytes \<Rightarrow> ustring) \<Rightarrow> FundingParams \<Rightarrow> DescriptorParams \<Rightarrow> bytes \<Rightarrow> ProcessLatches
    \<Rightarrow> ((ReadinessError + MiningSnapshot) \<times> ProcessLatches \<times> RoundState list) option" where
  "prepare_round chain ss58 funding descriptor account latches =
     (let s0 = ValidatorSynced in
      case wait_until_synced (sc_sync chain) of
        None \<Rightarrow> None
      | Some _ \<Rightarrow>
         let s1 = advance s0 in
         (case ensure_funded (sc_balance chain) (sc_faucet chain) funding of
            None \<Rightarrow> None
          | Some (Inl e, _) \<Rightarrow> Some (Inl (FundingFailed e), latches, [s0, s1])
          | Some (Inr _, _) \<Rightarrow>
             let s2 = advance s1;
                 (_, registered, _) = register_round_miner (sc_register chain) (la_miner_registered latches);
                 latches = latches\<lparr>la_miner_registered := registered\<rparr>;
                 s3 = advance s2
             in case sc_snapshot chain of
                  Inl e \<Rightarrow> Some (Inl (SnapshotFailed e), latches, [s0, s1, s2, s3])
                | Inr None \<Rightarrow> Some (Inl (SnapshotFailed ''chain has no mining snapshot''), latches, [s0, s1, s2, s3])
                | Inr (Some snap) \<Rightarrow>
                    let s4 = advance s3;
                        (filed, _) = file_round_descriptor (sc_descriptor chain) ss58 (la_descriptor_filed latches) descriptor account
                    in Some (Inr snap, latches\<lparr>la_descriptor_filed := filed\<rparr>, [s0, s1, s2, s3, s4])))"

subsection \<open>The payload fits the pallet, and the reasons for not filing one\<close>

lemma keep_if_Some [simp]: "keep_if P v = Some x \<longleftrightarrow> v = Some x \<and> P x"
  by (cases v) (auto simp: keep_if_def)

lemma nonblank_Some: "nonblank v = Some s \<Longrightarrow> s \<noteq> []"
  by (cases v) (auto simp: nonblank_def split: if_splits)

text \<open>Hexadecimal text is ASCII, so an account's default node id is exactly at the bound.\<close>

lemma hex_digit_ascii: "n < 16 \<Longrightarrow> length (utf8_char (of_char (hex_digit n))) = 1"
proof -
  assume "n < 16"
  then have mem: "hex_digit n \<in> set ''0123456789abcdef''" unfolding hex_digit_def by (intro nth_mem) simp
  have "\<forall>c \<in> set ''0123456789abcdef''. of_char c < (128 :: nat)" by simp
  with mem have "of_char (hex_digit n) < (128 :: nat)" by blast
  then show ?thesis by (simp add: utf8_char_def)
qed

lemma str_len_hex_plain: "str_len (us (hex_plain bs)) = 2 * length bs"
proof (induction bs)
  case (Cons b bs)
  have "unat b < 256" using unsigned_less [of b, where 'a = nat] by simp
  then have "unat b div 16 < 16" "unat b mod 16 < 16" by auto
  with Cons show ?case by (simp add: hex_plain_def hex_byte_def str_len_def hex_digit_ascii)
qed (simp add: hex_plain_def str_len_def)

definition descriptor_fits :: "NodeDescriptorV2Input \<Rightarrow> bool" where
  "descriptor_fits d \<longleftrightarrow>
     nd_node_id d \<noteq> [] \<and> length (nd_node_id d) \<le> MAX_NODE_ID_BYTES \<and> length (nd_node_name d) \<le> MAX_NODE_NAME_BYTES
     \<and> (\<forall>h. nd_public_host d = Some h \<longrightarrow> h \<noteq> [] \<and> length h \<le> MAX_PUBLIC_HOST_BYTES)
     \<and> (\<forall>p. nd_public_port d = Some p \<longrightarrow> 0 < p)
     \<and> length (nd_rpc_endpoints d) \<le> MAX_RPC_ENDPOINTS
     \<and> list_all (\<lambda>e. e \<noteq> [] \<and> length e \<le> MAX_RPC_ENDPOINT_BYTES) (nd_rpc_endpoints d)
     \<and> nd_miners d \<noteq> []
     \<and> (\<forall>i. nd_system_info d = Some i \<longrightarrow> fits_pallet_bounds i)
     \<and> (\<forall>r. nd_runtime d = Some r \<longrightarrow> runtime_fits_pallet_bounds r)"

text \<open>The display name filed when none is configured is the SS58 address.\<close>

definition descriptor_name :: "(bytes \<Rightarrow> ustring) \<Rightarrow> DescriptorParams \<Rightarrow> bytes \<Rightarrow> ustring" where
  "descriptor_name ss58 params account = (case nonblank (ds_node_name params) of None \<Rightarrow> ss58 account | Some s \<Rightarrow> s)"

lemma endpoints_fit:
  "length (map f (filter P (take m es))) \<le> m"
  unfolding length_map by (rule order.trans [OF length_filter_le]) simp

lemma payload_Some_fits:
  assumes "build_descriptor_payload ss58 params account = Some d"
  shows "descriptor_fits d"
proof -
  from assms obtain name node_id where
    ok: "str_len name \<le> MAX_NODE_NAME_BYTES" "node_id \<noteq> []" "str_len node_id \<le> MAX_NODE_ID_BYTES" "ds_miners params \<noteq> []"
      "\<forall>h. nonblank (ds_public_host params) = Some h \<longrightarrow> str_len h \<le> MAX_PUBLIC_HOST_BYTES"
    and d: "nd_node_id d = utf8 node_id" "nd_node_name d = utf8 name" "nd_miners d = ds_miners params"
      "nd_public_host d = map_option utf8 (nonblank (ds_public_host params))"
      "nd_public_port d = keep_if (\<lambda>p. 0 < p) (ds_public_port params)"
      "nd_rpc_endpoints d = map (\<lambda>e. utf8 (trim e))
         (filter (\<lambda>e. \<not> (trim e = [] \<or> str_len (trim e) > MAX_RPC_ENDPOINT_BYTES))
            (take MAX_RPC_ENDPOINTS (ds_rpc_endpoints params)))"
      "nd_system_info d = keep_if fits_pallet_bounds (ds_system_info params)"
      "nd_runtime d = keep_if runtime_fits_pallet_bounds (ds_runtime params)"
    unfolding build_descriptor_payload_def Let_def by (auto simp: not_less split: if_splits option.splits)
  show ?thesis
    unfolding descriptor_fits_def d using ok endpoints_fit
    by (auto simp: list_all_iff str_len_def [symmetric] dest: nonblank_Some)
qed

text \<open>
  A filed descriptor is inside the pallet's bounds for every text field, port and block, whatever the operator
  configured; and it is withheld exactly when the name, the configured id or the host is over-length, or no
  miner is planned. The default id, the account in hexadecimal, always fits.
\<close>
theorem descriptor_payload_spec:
  assumes "length account = 32"
  shows "(case build_descriptor_payload ss58 params account of
       Some d \<Rightarrow> descriptor_fits d \<and> nd_miners d = ds_miners params \<and> nd_node_name d = utf8 (descriptor_name ss58 params account)
     | None \<Rightarrow> MAX_NODE_NAME_BYTES < str_len (descriptor_name ss58 params account)
         \<or> (\<exists>i. nonblank (ds_node_id params) = Some i \<and> MAX_NODE_ID_BYTES < str_len i)
         \<or> ds_miners params = []
         \<or> (\<exists>h. nonblank (ds_public_host params) = Some h \<and> MAX_PUBLIC_HOST_BYTES < str_len h))"
proof (cases "build_descriptor_payload ss58 params account")
  case None
  have default: "str_len (us (node_id_from_account account)) = 64" "us (node_id_from_account account) \<noteq> []"
    using assms str_len_hex_plain [of account] by (auto simp: node_id_from_account_def str_len_def)
  from None default show ?thesis
    by (auto simp: build_descriptor_payload_def Let_def descriptor_name_def MAX_NODE_ID_BYTES_def
        dest: nonblank_Some split: if_splits option.splits)
next
  case (Some d)
  with payload_Some_fits [OF Some] show ?thesis
    by (auto simp: build_descriptor_payload_def Let_def descriptor_name_def split: if_splits)
qed

theorem descriptor_payload_spec_witness:
  "(case build_descriptor_payload (\<lambda>_. us ''5F'') default_descriptor (replicate 32 0) of Some d \<Rightarrow> False | None \<Rightarrow> True)"
proof -
  have "length (replicate 32 (0 :: u8)) = 32" by simp
  from descriptor_payload_spec [OF this, of "\<lambda>_. us ''5F''" default_descriptor] show ?thesis
    by (auto simp: descriptor_fits_def default_descriptor_def split: option.splits)
qed

text \<open>The number of miner specs is not among the checks: seventeen of them are filed although the pallet takes sixteen.\<close>

lemma miner_specs_unchecked:
  "\<exists>params d. build_descriptor_payload (\<lambda>_. us ''5F'') params (replicate 32 0) = Some d
     \<and> MAX_MINER_SPECS < length (nd_miners d)"
proof -
  let ?spec = "\<lparr> sp_kind = MKGpu, sp_label = None, sp_backend = None, sp_device_id = None \<rparr>"
  let ?params = "default_descriptor\<lparr>ds_miners := replicate 17 ?spec\<rparr>"
  have "str_len (us (node_id_from_account (replicate 32 0))) = 64" "us (node_id_from_account (replicate 32 (0 :: u8))) \<noteq> []"
    using str_len_hex_plain [of "replicate 32 0"] by (auto simp: node_id_from_account_def str_len_def)
  moreover have "str_len (us ''5F'') = 2" by (simp add: str_len_def utf8_char_def)
  ultimately have "\<exists>d. build_descriptor_payload (\<lambda>_. us ''5F'') ?params (replicate 32 0) = Some d \<and> length (nd_miners d) = 17"
    by (simp add: build_descriptor_payload_def default_descriptor_def nonblank_def MAX_NODE_NAME_BYTES_def MAX_NODE_ID_BYTES_def)
  then obtain d where "build_descriptor_payload (\<lambda>_. us ''5F'') ?params (replicate 32 0) = Some d" "length (nd_miners d) = 17"
    by blast
  then show ?thesis by (intro exI [of _ ?params] exI [of _ d]) (simp add: MAX_MINER_SPECS_def)
qed

subsection \<open>The latches\<close>

lemma descriptor_attempts_spec:
  "0 < left \<Longrightarrow> fst (descriptor_attempts chain i left) \<and> snd (descriptor_attempts chain i left) \<le> i + left"
proof (induction left arbitrary: i)
  case (Suc left)
  show ?case
    using Suc.IH [of "Suc i"] by (cases "left = 0") (auto split: sum.splits DescriptorOutcome.splits)
qed simp

lemma file_round_descriptor_latches:
  "fst (file_round_descriptor chain ss58 filed params account)"
  "snd (file_round_descriptor chain ss58 filed params account) \<le> 3"
  "filed \<Longrightarrow> snd (file_round_descriptor chain ss58 filed params account) = 0"
proof -
  have "fst (descriptor_attempts c 0 3) \<and> snd (descriptor_attempts c 0 3) \<le> 3" for c
    using descriptor_attempts_spec [of 3 c 0] by simp
  then show "fst (file_round_descriptor chain ss58 filed params account)"
    "snd (file_round_descriptor chain ss58 filed params account) \<le> 3"
    "filed \<Longrightarrow> snd (file_round_descriptor chain ss58 filed params account) = 0"
    by (auto simp: file_round_descriptor_def SUBMIT_ATTEMPTS_def split: option.splits)
qed

lemma register_attempts_spec:
  "register_attempts chain i left = (r, l, n) \<Longrightarrow>
     r = l \<and> n \<le> i + left \<and> (r \<longleftrightarrow> (\<exists>k < left. \<exists>a. chain (i + k) = Inr a))"
proof (induction left arbitrary: i)
  case (Suc left)
  show ?case
  proof (cases "chain i")
    case (Inl e)
    then have "register_attempts chain (Suc i) left = (r, l, n)" using Suc.prems by simp
    from Suc.IH [OF this] have "r = l \<and> n \<le> Suc i + left \<and> (r \<longleftrightarrow> (\<exists>k < left. \<exists>a. chain (Suc i + k) = Inr a))" .
    moreover have "(\<exists>k < Suc left. \<exists>a. chain (i + k) = Inr a) \<longleftrightarrow> (\<exists>k < left. \<exists>a. chain (Suc i + k) = Inr a)"
      using Inl by (simp add: Ex_less_Suc2)
    ultimately show ?thesis by (metis add_Suc_shift)
  next
    case (Inr a)
    with Suc.prems show ?thesis by (cases a) (auto intro: exI [of _ 0])
  qed
qed auto

lemma register_round_miner_spec:
  "register_round_miner chain latch = (r, latch', n) \<Longrightarrow>
     r = latch' \<and> (latch \<longrightarrow> n = 0) \<and> n \<le> 3 \<and> (r \<longleftrightarrow> latch \<or> (\<exists>k < 3. \<exists>a. chain k = Inr a))"
  using register_attempts_spec [of chain 0 3 r latch' n]
  by (auto simp: register_round_miner_def SUBMIT_ATTEMPTS_def split: if_splits)

lemma ensure_funded_Some: "\<exists>funded n slept. ensure_funded balance faucet funding = Some (funded, n, slept)"
  using funding_loop_returns [of BACKOFF_START balance faucet funding 0 None "fp_timeout funding" 0]
  by (auto simp: ensure_funded_def BACKOFF_START_def balance_history_def)

text \<open>Once the validator wait has ended the walk returns, and only funding or the snapshot can fail it.\<close>

lemma prepare_round_returns:
  assumes "wait_until_synced (sc_sync chain) = Some w"
  shows "\<exists>funded n slept result latches' states.
     ensure_funded (sc_balance chain) (sc_faucet chain) funding = Some (funded, n, slept)
     \<and> prepare_round chain ss58 funding descriptor account latches = Some (result, latches', states)
     \<and> (case funded of
          Inl e \<Rightarrow> result = Inl (FundingFailed e)
        | Inr _ \<Rightarrow> (\<exists>snap. result = Inr snap) \<or> (\<exists>e. result = Inl (SnapshotFailed e)))"
proof -
  obtain funded n slept where f: "ensure_funded (sc_balance chain) (sc_faucet chain) funding = Some (funded, n, slept)"
    using ensure_funded_Some by blast
  obtain r l c where reg: "register_round_miner (sc_register chain) (la_miner_registered latches) = (r, l, c)"
    by (metis prod_cases3)
  show ?thesis
    using assms f reg by (auto simp: prepare_round_def Let_def split_def split: sum.splits option.splits)
qed

text \<open>
  The walk at process start: once the validator wait has ended it always returns. It fails with the funding
  error exactly when funding failed (and has then called nothing else), and with a snapshot error when
  the account is funded but there is no snapshot; registration and the descriptor never fail it, the
  descriptor latch is set whenever it succeeds, and it enters the states of the ladder in order.
\<close>
theorem prepare_round_outcome:
  assumes "wait_until_synced (sc_sync chain) = Some w"
  shows "\<exists>funded n slept result latches' states.
     ensure_funded (sc_balance chain) (sc_faucet chain) funding = Some (funded, n, slept)
     \<and> prepare_round chain ss58 funding descriptor account latches = Some (result, latches', states)
     \<and> (case funded of
          Inl e \<Rightarrow> result = Inl (FundingFailed e) \<and> latches' = latches \<and> states = [ValidatorSynced, AccountFunded]
        | Inr _ \<Rightarrow>
           (la_miner_registered latches' \<longleftrightarrow> la_miner_registered latches \<or> (\<exists>k < 3. \<exists>a. sc_register chain k = Inr a))
           \<and> (case sc_snapshot chain of
                Inr (Some snap) \<Rightarrow> result = Inr snap \<and> la_descriptor_filed latches'
                  \<and> states = [ValidatorSynced, AccountFunded, MinerRegistered, RequirementsDownloaded, DescriptorFiled]
              | Inr None \<Rightarrow> result = Inl (SnapshotFailed ''chain has no mining snapshot'')
                  \<and> la_descriptor_filed latches' = la_descriptor_filed latches
              | Inl e \<Rightarrow> result = Inl (SnapshotFailed e) \<and> la_descriptor_filed latches' = la_descriptor_filed latches))"
proof -
  obtain funded n slept where f: "ensure_funded (sc_balance chain) (sc_faucet chain) funding = Some (funded, n, slept)"
    using ensure_funded_Some by blast
  obtain r l c where reg: "register_round_miner (sc_register chain) (la_miner_registered latches) = (r, l, c)"
    by (metis prod_cases3)
  have l: "l \<longleftrightarrow> la_miner_registered latches \<or> (\<exists>k < 3. \<exists>a. sc_register chain k = Inr a)"
    using register_round_miner_spec [OF reg] by blast
  show ?thesis
    using assms f reg l file_round_descriptor_latches(1) [of "sc_descriptor chain" ss58]
    by (auto simp: prepare_round_def Let_def advance_def split_def split: sum.splits option.splits)
qed

definition demo_start :: StartChain where
  "demo_start = \<lparr> sc_sync = (\<lambda>_. Inr \<lparr> sy_is_syncing = False, sy_peers = 3, sy_should_have_peers = True,
      sy_current_block = None, sy_highest_block = None \<rparr>), sc_balance = (\<lambda>_. Inr 0), sc_faucet = None,
    sc_register = (\<lambda>_. Inr Registered), sc_snapshot = Inr None, sc_descriptor = (\<lambda>_ _. Inr Filed) \<rparr>"

theorem prepare_round_outcome_witness:
  "\<exists>result latches' states.
     prepare_round demo_start (\<lambda>_. []) default_funding default_descriptor [] \<lparr> la_descriptor_filed = False, la_miner_registered = False \<rparr>
       = Some (result, latches', states)"
proof -
  have "wait_until_synced (sc_sync demo_start) = Some (Synced, 1)"
    unfolding wait_until_synced_def
    by (subst sync_loop.simps) (simp add: demo_start_def sync_poll_def sync_init_def)
  from prepare_round_outcome [OF this, of default_funding "\<lambda>_. []" default_descriptor "[]"
      "\<lparr> la_descriptor_filed = False, la_miner_registered = False \<rparr>"]
  show ?thesis by blast
qed

subsection \<open>Participation is settled once per quantum block\<close>

type_synonym participation_call = "(string + nat option) \<times> (nat \<Rightarrow> string + ParticipationOutcome)"

text \<open>The quantum blocks for which a sequence of calls submitted and settled a participation.\<close>

fun declare_run :: "participation_call list \<Rightarrow> nat option \<Rightarrow> nat list" where
  "declare_run [] last_declared = []"
| "declare_run (call # calls) last_declared =
     (let (settled, last_declared', submitted) = declare_round_participation (fst call) (snd call) last_declared
      in (if settled then opt_list submitted else []) @ declare_run calls last_declared')"

fun candidates_read :: "participation_call list \<Rightarrow> nat list" where
  "candidates_read [] = []"
| "candidates_read ((Inl _, _) # calls) = candidates_read calls"
| "candidates_read ((Inr latest, _) # calls) = candidate_qblock_id latest # candidates_read calls"

lemma declare_run_increasing:
  assumes "sorted (candidates_read calls)" "\<forall>q. last' = Some q \<longrightarrow> (\<forall>c \<in> set (candidates_read calls). q \<le> c)"
  shows "sorted_wrt (<) (declare_run calls last') \<and> set (declare_run calls last') \<subseteq> set (candidates_read calls)
    \<and> (\<forall>q. last' = Some q \<longrightarrow> (\<forall>x \<in> set (declare_run calls last'). q < x))"
  using assms
proof (induction calls arbitrary: last')
  case (Cons call calls)
  obtain rd ans where call: "call = (rd, ans)" by (cases call)
  show ?case
  proof (cases rd)
    case (Inl e)
    with Cons call show ?thesis by (simp add: declare_round_participation_def)
  next
    case (Inr latest)
    let ?c = "candidate_qblock_id latest"
    have srt: "sorted (candidates_read calls)" "\<forall>c \<in> set (candidates_read calls). ?c \<le> c"
      using Cons.prems(1) call Inr by simp_all
    from Cons.IH [of "Some ?c"] srt have ih: "sorted_wrt (<) (declare_run calls (Some ?c))"
        "set (declare_run calls (Some ?c)) \<subseteq> set (candidates_read calls)" "\<forall>x \<in> set (declare_run calls (Some ?c)). ?c < x"
      by simp_all
    have le: "\<forall>q. last' = Some q \<longrightarrow> q \<le> ?c" using Cons.prems(2) call Inr by simp
    show ?thesis
    proof (cases "last' = Some ?c")
      case True
      with ih call Inr show ?thesis by (auto simp: declare_round_participation_def Let_def)
    next
      case new: False
      show ?thesis
      proof (cases "ans ?c")
        case (Inl e)
        have "\<forall>q. last' = Some q \<longrightarrow> (\<forall>c \<in> set (candidates_read calls). q \<le> c)" using Cons.prems(2) call Inr by simp
        from Cons.IH [OF srt(1) this] new Inl call Inr show ?thesis
          by (auto simp: declare_round_participation_def Let_def)
      next
        case (Inr o')
        have "declare_run (call # calls) last' = ?c # declare_run calls (Some ?c)"
          using new call Inr \<open>rd = Inr latest\<close>
          by (cases o') (simp_all add: declare_round_participation_def Let_def)
        moreover have "\<forall>q. last' = Some q \<longrightarrow> q < ?c" using le new by (auto simp: order_less_le)
        moreover have "set (candidates_read (call # calls)) = insert ?c (set (candidates_read calls))"
          using call \<open>rd = Inr latest\<close> by simp
        ultimately show ?thesis using ih by (auto simp del: declare_run.simps) (meson order.strict_trans)
      qed
    qed
  qed
qed simp

text \<open>
  Participation is settled at most once per quantum block: if the chain's quantum blocks do not go back, the
  declarations the process settles, over any sequence of calls with failed reads, transient errors and
  pallet answers in between, are for strictly increasing quantum blocks.
\<close>
theorem participation_once_per_qblock:
  assumes "sorted (candidates_read calls)"
  shows "sorted_wrt (<) (declare_run calls None)"
  using declare_run_increasing [of calls None] assms by simp

theorem participation_once_per_qblock_witness:
  "sorted_wrt (<) (declare_run [(Inr None, \<lambda>_. Inr Declared), (Inl ''x'', \<lambda>_. Inr Declared), (Inr None, \<lambda>_. Inr Declared)] None)"
  using participation_once_per_qblock
    [of "[(Inr None, \<lambda>_. Inr Declared), (Inl ''x'', \<lambda>_. Inr Declared), (Inr None, \<lambda>_. Inr Declared)]"] by simp

end
