(* ===== verification/Feeder.thy ===== *)
theory Feeder
  imports Session PoolWatch Readiness
begin

text \<open>
  \<open>runtime.rs\<close>: the feeder. It follows the chain head, walks the round machine, stops the miners for a
  pending win, keeps every miner's queue topped up and submits stashed candidates when their time
  has come. One poll is a sequence of sections under the state lock, with chain calls between them; at
  each of those points other tasks may change the shared state, which \<open>pc_others\<close> and \<open>we_others\<close> stand
  for. The chain's answers, the clock and the external libraries are arguments; log lines and the
  counters that only feed them are left out. \<open>usize\<close> is 64 bits.
\<close>

subsection \<open>Sizing and gates\<close>

definition CONSUMPTION_EMA_ALPHA :: f64 where "CONSUMPTION_EMA_ALPHA = f_rnd (3 / 10)"
definition WINDOW_HEADROOM :: f64 where "WINDOW_HEADROOM = Fin 2"
definition MAX_STAGE_BYTES_PER_MINER :: nat where "MAX_STAGE_BYTES_PER_MINER = 64 * 1024 * 1024"
definition MAX_PROOF_SOLUTIONS_WIRE :: nat where "MAX_PROOF_SOLUTIONS_WIRE = 32"

definition adaptive_depth :: "f64 \<Rightarrow> nat \<Rightarrow> nat" where
  "adaptive_depth e floor' = max floor' (f_to_u64 (f_ceil (f_mul e WINDOW_HEADROOM)))"

definition est_job_bytes :: "nat \<Rightarrow> nat \<Rightarrow> nat" where
  "est_job_bytes num_nodes num_edges = max (min (4 * sat_add_u64 num_nodes num_edges) u64_max) 1"

definition stage_ceiling :: "nat \<Rightarrow> nat \<Rightarrow> nat \<Rightarrow> nat" where
  "stage_ceiling num_nodes num_edges floor' = max floor' (MAX_STAGE_BYTES_PER_MINER div est_job_bytes num_nodes num_edges)"

definition target_from_snapshot :: "MiningSnapshot \<Rightarrow> SetTarget" where
  "target_from_snapshot snap =
     \<lparr> tg_max_energy_milli = ms_max_energy_milli snap, tg_min_solutions = ms_min_solutions snap,
       tg_min_diversity_milli = ms_min_diversity_milli snap, tg_max_proof_solutions = MAX_PROOF_SOLUTIONS_WIRE,
       tg_num_reads = 0, tg_num_sweeps = 0, tg_anneal_time_us = 0 \<rparr>"

definition salt_from_counter :: "nat \<Rightarrow> bytes" where
  "salt_from_counter ctr = le_bytes 8 ctr @ replicate 24 0"

definition order_gates :: "JobOrder \<Rightarrow> QualityGates" where
  "order_gates order =
     (let min_diversity_milli = (case jo_min_diversity_milli order of None \<Rightarrow> 0 | Some d \<Rightarrow> d)
      in \<lparr> qg_min_energy_milli = (case jo_min_energy_milli order of None \<Rightarrow> i64_max | Some e \<Rightarrow> min (e + 1) i64_max),
           qg_min_diversity_milli = min_diversity_milli,
           qg_min_solutions = (case jo_min_solutions order of
               None \<Rightarrow> (if min_diversity_milli > 0 then 2 else 1) | Some n \<Rightarrow> n) \<rparr>)"

subsection \<open>Broadcasts\<close>

datatype FeedMsg = FTopology ProtoTopology | FTarget SetTarget | FCancel nat

datatype FeedOut =
    Tell string FeedMsg
  | WakeMiner string
  | WinSubmit Proof
  | WriteRecord WriterMsg
  | DeclareFor nat

definition feed_broadcast :: "FeedMsg \<Rightarrow> 'topo CoordinatorState \<Rightarrow> FeedOut list" where
  "feed_broadcast msg st = map (\<lambda>m. Tell m msg) (hm_keys (cs_outbound st))"

definition broadcast_set_target :: "SetTarget \<Rightarrow> 'topo CoordinatorState \<Rightarrow> FeedOut list" where
  "broadcast_set_target target st = feed_broadcast (FTarget target) st"

definition broadcast_topology :: "ProtoTopology \<Rightarrow> 'topo CoordinatorState \<Rightarrow> FeedOut list" where
  "broadcast_topology topo st = feed_broadcast (FTopology topo) st"

definition broadcast_cancel :: "nat \<Rightarrow> 'topo CoordinatorState \<Rightarrow> nat \<times> FeedOut list" where
  "broadcast_cancel max_generation st = (length (cs_outbound st), feed_broadcast (FCancel max_generation) st)"

definition stop_mining :: "nat \<Rightarrow> 'topo CoordinatorState \<Rightarrow> nat \<times> 'topo CoordinatorState" where
  "stop_mining generation st =
     (let st = st\<lparr>cs_generation := generation\<rparr>;
          st = st\<lparr>cs_current_best_milli := None\<rparr>;
          st = st\<lparr>cs_stash := reset_stash generation None 0 (cs_stash st)\<rparr>;
          (dropped, r) = cancel (generation - 1) (cs_router st);
          st = snd (cancel_inflight (generation - 1) (st\<lparr>cs_router := r\<rparr>));
          st = clear_salts st
      in (dropped, st\<lparr>cs_router := reset_round_salts (cs_router st)\<rparr>))"

subsection \<open>The walk to mining\<close>

record FeederParams =
  fd_miner_identity :: bytes
  fd_miner_account :: bytes
  fd_buffer_depth :: nat
  fd_funding :: FundingParams
  fd_descriptor :: DescriptorParams
  fd_max_submit_attempts :: nat

text \<open>
  What the \<open>i\<close>-th pass of the walk meets: whether a shutdown arrives while it works or while it sleeps
  before a retry, the chain's answers, and what other tasks do to the shared state after it.
\<close>

record 'topo WalkEnv =
  we_stop :: "nat \<Rightarrow> bool"
  we_stop_sleep :: "nat \<Rightarrow> bool"
  we_sync :: "nat \<Rightarrow> nat \<Rightarrow> string + SyncStatus"
  we_balance :: "nat \<Rightarrow> nat \<Rightarrow> string + nat"
  we_faucet :: "(nat \<Rightarrow> nat \<Rightarrow> FaucetError + unit) option"
  we_register :: "nat \<Rightarrow> nat \<Rightarrow> string + RegistrationOutcome"
  we_snapshot :: "nat \<Rightarrow> string + MiningSnapshot option"
  we_descriptor :: "nat \<Rightarrow> NodeDescriptorV2Input \<Rightarrow> nat \<Rightarrow> string + DescriptorOutcome"
  we_ss58 :: "bytes \<Rightarrow> ustring"
  we_others :: "nat \<Rightarrow> 'topo CoordinatorState \<Rightarrow> 'topo CoordinatorState"

record 'topo Walk =
  wk_machine :: RoundState
  wk_cancelled :: nat
  wk_told :: nat
  wk_snap :: "MiningSnapshot option"
  wk_latches :: ProcessLatches
  wk_state :: "'topo CoordinatorState"

text \<open>A pass ends the walk on a shutdown, never ends, completes the walk, or yields an event.\<close>

datatype 'topo WalkPass =
    PassStop
  | PassHang
  | PassDone "(MiningSnapshot \<times> nat \<times> nat) option"
  | PassEvent RoundEvent "'topo Walk"

definition walk_pass :: "'topo WalkEnv \<Rightarrow> FeederParams \<Rightarrow> nat \<Rightarrow> nat \<Rightarrow> 'topo Walk \<Rightarrow> 'topo WalkPass" where
  "walk_pass env params generation i w =
     (case wk_machine w of
        StopMining \<Rightarrow>
          let (dropped, st) = stop_mining generation (wk_state w);
              told = (if generation > 1 then fst (broadcast_cancel (generation - 1) st) else 0)
          in PassEvent Succeeded (w\<lparr>wk_cancelled := dropped, wk_told := told, wk_state := st\<rparr>)
      | ValidatorSynced \<Rightarrow>
          if we_stop env i then PassStop
          else (case wait_until_synced (we_sync env i) of
                  None \<Rightarrow> PassHang
                | Some (Synced, _) \<Rightarrow> PassEvent Succeeded w
                | Some (SyncUnknown _, _) \<Rightarrow> PassEvent Succeeded w)
      | AccountFunded \<Rightarrow>
          if we_stop env i then PassStop
          else (case ensure_funded (we_balance env i) (map_option (\<lambda>f. f i) (we_faucet env)) (fd_funding params) of
                  None \<Rightarrow> PassHang
                | Some (Inr _, _) \<Rightarrow> PassEvent Succeeded w
                | Some (Inl _, _) \<Rightarrow> PassEvent Failed w)
      | MinerRegistered \<Rightarrow>
          if we_stop env i then PassStop
          else let (registered, latch, _) = register_round_miner (we_register env i) (la_miner_registered (wk_latches w))
               in PassEvent (if registered then Succeeded else Failed)
                    (w\<lparr>wk_latches := wk_latches w\<lparr>la_miner_registered := latch\<rparr>\<rparr>)
      | RequirementsDownloaded \<Rightarrow>
          if we_stop env i then PassStop
          else (case we_snapshot env i of
                  Inr (Some s) \<Rightarrow> PassEvent Succeeded (w\<lparr>wk_snap := Some s\<rparr>)
                | Inr None \<Rightarrow> PassEvent Failed w
                | Inl _ \<Rightarrow> PassEvent Failed w)
      | DescriptorFiled \<Rightarrow>
          let (filed, _) = file_round_descriptor (we_descriptor env i) (we_ss58 env) (la_descriptor_filed (wk_latches w))
                 (fd_descriptor params) (fd_miner_account params)
          in PassEvent Succeeded (w\<lparr>wk_latches := wk_latches w\<lparr>la_descriptor_filed := filed\<rparr>\<rparr>)
      | StartMining \<Rightarrow> PassDone (map_option (\<lambda>s. (s, wk_cancelled w, wk_told w)) (wk_snap w))
      | AwaitingQBlock \<Rightarrow> PassEvent Resume w)"

text \<open>\<open>None\<close> is a walk that never ends; \<open>Some None\<close> a walk that a shutdown ended.\<close>

partial_function (option) drive_loop ::
  "'topo WalkEnv \<Rightarrow> FeederParams \<Rightarrow> nat \<Rightarrow> nat \<Rightarrow> 'topo Walk
    \<Rightarrow> ((MiningSnapshot \<times> nat \<times> nat) \<times> 'topo Walk) option option" where
  "drive_loop env params generation i w =
     (case walk_pass env params generation i w of
        PassStop \<Rightarrow> Some None
      | PassHang \<Rightarrow> None
      | PassDone done \<Rightarrow> Some (map_option (\<lambda>d. (d, w)) done)
      | PassEvent event w' \<Rightarrow>
          if event = Failed \<and> we_stop_sleep env i then Some None
          else (case transition (wk_machine w) event of
                  None \<Rightarrow> Some None
                | Some next_state \<Rightarrow>
                    drive_loop env params generation (Suc i)
                      (w'\<lparr>wk_machine := next_state, wk_state := we_others env i (wk_state w')\<rparr>)))"

definition drive_to_mining ::
  "RoundState \<Rightarrow> 'topo WalkEnv \<Rightarrow> FeederParams \<Rightarrow> nat \<Rightarrow> ProcessLatches \<Rightarrow> 'topo CoordinatorState
    \<Rightarrow> ((MiningSnapshot \<times> nat \<times> nat) \<times> 'topo Walk) option option" where
  "drive_to_mining machine env params generation latches st =
     drive_loop env params generation 0
       \<lparr> wk_machine = machine, wk_cancelled = 0, wk_told = 0, wk_snap = None, wk_latches = latches, wk_state = st \<rparr>"

end
