(* ===== verification/Feeding.thy ===== *)
theory Feeding
  imports Feeder Session_Laws
begin

text \<open>
  \<open>runtime.rs\<close>, the body of \<open>feeder_loop\<close>: one poll, section by section. \<open>FeederVars\<close> are the loop's
  variables; those that only pace log lines are left out. \<open>FeedCrate\<close> holds the nonce derivation, the
  model draw, the array codec, \<open>exp\<close> and \<open>topology_hash\<close> over value sets.
\<close>

record FeedCrate =
  fx_derive_nonce :: "bytes \<Rightarrow> bytes \<Rightarrow> bytes \<Rightarrow> bytes"
  fx_encode_i32 :: "int list \<Rightarrow> bytes"
  fx_draw :: "bytes \<Rightarrow> nat \<Rightarrow> nat \<Rightarrow> int list \<Rightarrow> int list \<Rightarrow> string + int list \<times> int list"
  fx_exp :: "f64 \<Rightarrow> f64"
  fx_topology_hash :: "node list \<Rightarrow> (node \<times> node) list \<Rightarrow> int list \<Rightarrow> int list \<Rightarrow> int list \<Rightarrow> bytes"

record FeederVars =
  fv_current_head :: "bytes option"
  fv_last_block_number :: nat
  fv_generation :: nat
  fv_salt_ctr :: nat
  fv_consumption_ema :: "(string, f64) hmap"
  fv_salt_rates :: "(string, SaltRate) hmap"
  fv_last_broadcast :: "(int \<times> nat \<times> nat) option"
  fv_round :: "RoundState option"
  fv_last_declared :: "nat option"
  fv_declared_generation :: "nat option"
  fv_submit_ledger :: SubmitLedger
  fv_solver_attempted :: "nat option"
  fv_orders_read_at :: nat
  fv_pool_watch :: PoolWatch
  fv_latches :: ProcessLatches
  fv_solver_registered :: bool

definition feeder_init :: "FeederParams \<Rightarrow> ProcessLatches \<Rightarrow> bool \<Rightarrow> FeederVars" where
  "feeder_init params latches solver_registered =
     \<lparr> fv_current_head = None, fv_last_block_number = 0, fv_generation = 0, fv_salt_ctr = 0,
       fv_consumption_ema = [], fv_salt_rates = [], fv_last_broadcast = None, fv_round = None,
       fv_last_declared = None, fv_declared_generation = None,
       fv_submit_ledger = new_ledger (fd_max_submit_attempts params), fv_solver_attempted = None,
       fv_orders_read_at = 0, fv_pool_watch = new_pool_watch, fv_latches = latches,
       fv_solver_registered = solver_registered \<rparr>"

subsection \<open>Topping up\<close>

lemma stage_on_staged_len:
  "stage_on m job r = (True, r') \<Longrightarrow> staged_len r' m = Suc (staged_len r m)"
  by (auto simp: stage_on_def staged_len_def split: option.splits if_splits)

text \<open>The \<open>while\<close> loop for a miner that takes plain jobs; the first component is the jobs staged.\<close>

function topup_plain ::
  "FeedCrate \<Rightarrow> bytes \<Rightarrow> MiningSnapshot \<Rightarrow> nat \<Rightarrow> string \<Rightarrow> nat \<Rightarrow> nat \<Rightarrow> 'topo CoordinatorState
    \<Rightarrow> Job list \<times> nat \<times> 'topo CoordinatorState" where
  "topup_plain C identity snap generation m depth salt_ctr st =
     (if staged_len (cs_router st) m < depth
      then let ctr = sat_add_u64 salt_ctr 1; salt = salt_from_counter ctr in
        (case derive_pow_job (fx_derive_nonce C) (fx_encode_i32 C) (fx_draw C) snap identity salt generation 0 of
           Inl _ \<Rightarrow> ([], ctr, st)
         | Inr job \<Rightarrow>
            (case stage_on m job (cs_router st) of
               (False, r) \<Rightarrow> ([], ctr, st\<lparr>cs_router := r\<rparr>)
             | (True, r) \<Rightarrow>
                 let (jobs, ctr', st') = topup_plain C identity snap generation m depth ctr
                       (record_salt (jb_job_id job) salt (st\<lparr>cs_router := r\<rparr>))
                 in (job # jobs, ctr', st')))
      else ([], salt_ctr, st))"
  by pat_completeness auto

termination
  by (relation "measure (\<lambda>(C, identity, snap, generation, m, depth, ctr, st). depth - staged_len (cs_router st) m)")
     (auto simp: record_salt_def stage_on_staged_len [OF sym])

text \<open>The \<open>while\<close> loop for a miner that takes leases of \<open>salts\<close> salts each.\<close>

function topup_lease ::
  "bytes \<Rightarrow> MiningSnapshot \<Rightarrow> nat \<Rightarrow> string \<Rightarrow> nat \<Rightarrow> nat \<Rightarrow> 'topo CoordinatorState
    \<Rightarrow> Job list \<times> nat \<times> 'topo CoordinatorState" where
  "topup_lease identity snap generation m salts salt_ctr st =
     (if staged_len (cs_router st) m < LEASE_STAGE_DEPTH
      then let start = sat_add_u64 salt_ctr 1; job = build_lease_job snap identity start salts generation in
        (case stage_on m job (cs_router st) of
           (False, r) \<Rightarrow> ([], salt_ctr, st\<lparr>cs_router := r\<rparr>)
         | (True, r) \<Rightarrow>
             let (jobs, ctr', st') = topup_lease identity snap generation m salts (sat_add_u64 start (salts - 1))
                   (st\<lparr>cs_router := r\<rparr>)
             in (job # jobs, ctr', st'))
      else ([], salt_ctr, st))"
  by pat_completeness auto

termination
  by (relation "measure (\<lambda>(identity, snap, generation, m, salts, ctr, st). LEASE_STAGE_DEPTH - staged_len (cs_router st) m)")
     (auto simp: stage_on_staged_len [OF sym])

declare topup_plain.simps [simp del] topup_lease.simps [simp del]

definition next_ema :: "f64 option \<Rightarrow> nat \<Rightarrow> f64" where
  "next_ema prev consumed_raw =
     (let consumed = f_of_int (int consumed_raw) in
      case prev of
        None \<Rightarrow> consumed
      | Some p \<Rightarrow> f_add (f_mul CONSUMPTION_EMA_ALPHA consumed) (f_mul (f_sub (Fin 1) CONSUMPTION_EMA_ALPHA) p))"

text \<open>A miner's rate window opens at its first lease, with no rate yet.\<close>

definition next_rate :: "(f64 \<Rightarrow> f64) \<Rightarrow> nat \<Rightarrow> f64 \<Rightarrow> string \<Rightarrow> (string, SaltRate) hmap \<Rightarrow> f64 \<times> (string, SaltRate) hmap" where
  "next_rate f64_exp finished rate_secs m rates =
     (case hm_get rates m of
        Some sr \<Rightarrow> let (rate, sr') = observe f64_exp finished rate_secs sr in (rate, hm_insert m sr' rates)
      | None \<Rightarrow> (Fin 0, hm_insert m \<lparr> sr_salts = Fin 0, sr_secs = Fin 0 \<rparr> rates))"

text \<open>The body of the loop over miners: drain rate, lease or window sizing, staging, and the wake-up.\<close>

definition topup_miner ::
  "FeedCrate \<Rightarrow> FeederParams \<Rightarrow> MiningSnapshot \<Rightarrow> f64 \<Rightarrow> string
    \<Rightarrow> Job list \<times> FeedOut list \<times> FeederVars \<times> 'topo CoordinatorState
    \<Rightarrow> Job list \<times> FeedOut list \<times> FeederVars \<times> 'topo CoordinatorState" where
  "topup_miner C params snap rate_secs m acc =
     (let (staged, outs, fv, st) = acc;
          (consumed_raw, r) = take_consumed m (cs_router st);
          st = st\<lparr>cs_router := r\<rparr>;
          e = next_ema (hm_get (fv_consumption_ema fv) m) consumed_raw;
          fv = fv\<lparr>fv_consumption_ema := hm_insert m e (fv_consumption_ema fv)\<rparr>;
          lease_width = map_option mc_stream_width (keep_if accepts_leases (router_caps (cs_router st) m));
          (jobs, fv, st) =
            (case lease_width of
               Some stream_width \<Rightarrow>
                 let (finished, r) = take_lease_salts m (cs_router st);
                     st = st\<lparr>cs_router := r\<rparr>;
                     (rate, rates) = next_rate (fx_exp C) finished rate_secs m (fv_salt_rates fv);
                     salts = lease_salt_count rate stream_width;
                     (jobs, ctr, st) = topup_lease (fd_miner_identity params) snap (fv_generation fv) m salts (fv_salt_ctr fv) st
                 in (jobs, fv\<lparr>fv_salt_rates := rates, fv_salt_ctr := ctr\<rparr>, st)
             | None \<Rightarrow>
                 let depth = min (adaptive_depth e (fd_buffer_depth params))
                       (stage_ceiling (length (ms_nodes snap)) (length (ms_edges snap)) (fd_buffer_depth params));
                     (jobs, ctr, st) = topup_plain C (fd_miner_identity params) snap (fv_generation fv) m depth (fv_salt_ctr fv) st
                 in (jobs, fv\<lparr>fv_salt_ctr := ctr\<rparr>, st))
      in (staged @ jobs, outs @ (if hm_get (cs_wakeups st) m \<noteq> None then [WakeMiner m] else []), fv, st))"

definition topup_all ::
  "FeedCrate \<Rightarrow> FeederParams \<Rightarrow> MiningSnapshot \<Rightarrow> f64 \<Rightarrow> FeederVars \<Rightarrow> 'topo CoordinatorState
    \<Rightarrow> Job list \<times> FeedOut list \<times> FeederVars \<times> 'topo CoordinatorState" where
  "topup_all C params snap rate_secs fv st =
     fold (topup_miner C params snap rate_secs) (miner_ids (cs_router st)) ([], [], fv, st)"

subsection \<open>Mempool orders\<close>

definition stage_order ::
  "(int list \<Rightarrow> bytes) \<Rightarrow> JobOrder \<Rightarrow> Job list \<times> FeedOut list \<times> 'topo CoordinatorState
    \<Rightarrow> Job list \<times> FeedOut list \<times> 'topo CoordinatorState" where
  "stage_order encode_i32_le order acc =
     (let (staged, outs, st) = acc in
      if hm_get (cs_mempool_orders st) (jo_order_id order) \<noteq> None then (staged, outs, st)
      else let st = st\<lparr>cs_mempool_orders := hm_insert (jo_order_id order) (order_gates order) (cs_mempool_orders st)\<rparr> in
        (case job_order_to_job encode_i32_le order of
           None \<Rightarrow> (staged, outs, st)
         | Some job \<Rightarrow>
             let (who, r) = route job (cs_router st); st = st\<lparr>cs_router := r\<rparr> in
             (staged @ [job],
              outs @ (case who of None \<Rightarrow> []
                      | Some m \<Rightarrow> if hm_get (cs_wakeups st) m \<noteq> None then [WakeMiner m] else []), st)))"

definition stage_mempool_orders ::
  "(int list \<Rightarrow> bytes) \<Rightarrow> string + JobOrder list \<Rightarrow> ('topo CoordinatorState \<Rightarrow> 'topo CoordinatorState) \<Rightarrow> 'topo CoordinatorState
    \<Rightarrow> bool \<times> Job list \<times> FeedOut list \<times> 'topo CoordinatorState" where
  "stage_mempool_orders encode_i32_le fetched others st =
     (if miner_ids (cs_router st) = [] then (False, [], [], st)
      else let st = others st in
        (case fetched of
           Inl _ \<Rightarrow> (False, [], [], st)
         | Inr orders \<Rightarrow> (True, fold (stage_order encode_i32_le) orders ([], [], st))))"

subsection \<open>Win-time submission\<close>

definition win_proof :: "Candidate \<Rightarrow> Proof" where
  "win_proof cand =
     \<lparr> pr_job_id = ca_job_id cand, pr_best_energy_milli = ca_best_energy_milli cand,
       pr_diversity_milli = ca_diversity_milli cand, pr_n_valid = ca_n_valid cand,
       pr_solutions = ca_solutions cand, pr_is_pow = ca_is_pow cand, pr_order_id = ca_order_id cand,
       pr_generation = ca_generation cand, pr_salt = (case ca_salt cand of None \<Rightarrow> [] | Some s \<Rightarrow> s),
       pr_device_access_time_us = ca_device_access_time_us cand \<rparr>"

text \<open>The gates replayed over a due candidate; the outer \<open>option\<close> is a panic of the replay.\<close>

definition replay_gates :: "('e, 'd, 'topo) Externals \<Rightarrow> SetTarget \<Rightarrow> Candidate option \<Rightarrow> Candidate option option" where
  "replay_gates x target due =
     (case due of
        None \<Rightarrow> Some None
      | Some cand \<Rightarrow>
          (case check_proof_gates (xt_select x) (xt_diversity x) (ca_solutions cand) (gates_from_target (Some target)) of
             None \<Rightarrow> None
           | Some check \<Rightarrow> Some (if pg_accepted check then Some cand else None)))"

definition settle_win ::
  "('e, 'd, 'topo) Externals \<Rightarrow> nat \<Rightarrow> Candidate \<Rightarrow> string + SubmitReceipt \<Rightarrow> SubmitLedger \<Rightarrow> 'topo CoordinatorState
    \<Rightarrow> FeedOut list \<times> SubmitLedger \<times> 'topo CoordinatorState" where
  "settle_win x now_ms cand receipt ledger st =
     (let marked = st\<lparr>cs_stash := mark_submitted (ca_job_id cand) (cs_stash st)\<rparr>;
          qblock_key = (case cs_qblock_id st of None \<Rightarrow> 0 | Some q \<Rightarrow> q)
      in case receipt of
           Inl _ \<Rightarrow> ([], ledger, st)
         | Inr r \<Rightarrow>
            (case sb_action r of
               Success \<Rightarrow>
                 let ledger = record_success qblock_key (ca_job_id cand) ledger;
                     st = marked\<lparr>cs_current_best_milli := Some (ca_best_energy_milli cand)\<rparr>;
                     body = summary_body (xt_summary_json x) now_ms (cs_qblock_id st) (cs_current_best_milli st)
                              (cs_results_validated st) (stash_summary (xt_log x) (xt_pow x) (cs_stash st))
                 in (if cs_attempt_tx st then [WriteRecord (WSummary (cs_qblock_id st) body)] else [], ledger, st)
             | Retry \<Rightarrow>
                 let (decided, ledger) = record_failure qblock_key (ca_job_id cand) ledger
                 in if decided = StopFatal then ([], ledger, marked) else ([], ledger, st)
             | StopRoundStale \<Rightarrow> ([], ledger, marked)
             | StopFatal \<Rightarrow> ([], ledger, marked)))"

subsection \<open>One poll\<close>

text \<open>
  What a poll meets: the chain's answers, the clock, and what other tasks do to the shared state at the
  \<open>i\<close>-th point where the lock is not held.
\<close>

record ('index, 'topo) PollEnv =
  pe_snapshot :: "string + MiningSnapshot option"
  pe_miner_info :: "string + MinerInfo option"
  pe_pending :: "string + QuantumProof PendingProof list"
  pe_pow :: "'index PowCrate"
  pe_walk :: "'topo WalkEnv"
  pe_qblock :: "string + nat option"
  pe_decay :: "bytes \<Rightarrow> string + DecayParams option"
  pe_latest :: "string + nat option"
  pe_declare :: "nat \<Rightarrow> string + ParticipationOutcome"
  pe_solver :: "string + RegistrationOutcome"
  pe_orders :: "string + JobOrder list"
  pe_submit :: "Proof \<Rightarrow> string + SubmitReceipt"
  pe_rate_secs :: f64
  pe_now_mono :: f64
  pe_now_wall :: f64
  pe_now_ms :: nat
  pe_others :: "nat \<Rightarrow> 'topo CoordinatorState \<Rightarrow> 'topo CoordinatorState"

text \<open>Block counting and the dashboard's view of the chain.\<close>

definition observe_chain ::
  "('index, 'topo) PollEnv \<Rightarrow> MiningSnapshot \<Rightarrow> FeederVars \<Rightarrow> 'topo CoordinatorState \<Rightarrow> FeederVars \<times> 'topo CoordinatorState" where
  "observe_chain env snap fv st =
     (let advanced = ms_block_number snap > fv_last_block_number fv;
          mt = (if advanced then record_head_observed (cs_metrics st) else cs_metrics st);
          old = cv_miner_info (mt_chain mt);
          miner_info = (if fv_current_head fv \<noteq> Some (ms_last_proof_block_hash snap)
                        then (case pe_miner_info env of Inr info \<Rightarrow> info | Inl _ \<Rightarrow> old) else old);
          view = \<lparr> cv_head_hash = hex_encode (ms_head_hash snap), cv_head_number = ms_block_number snap,
                   cv_is_mining = (fv_round fv \<noteq> Some AwaitingQBlock), cv_miner_registered = (miner_info \<noteq> None),
                   cv_miner_info = miner_info \<rparr>
      in (if advanced then fv\<lparr>fv_last_block_number := ms_block_number snap\<rparr> else fv,
          st\<lparr>cs_metrics := set_chain view mt\<rparr>))"

text \<open>The pool scan on an unchanged root, in the two states that care.\<close>

definition scan_pool ::
  "('index, 'topo) PollEnv \<Rightarrow> MiningSnapshot \<Rightarrow> FeederVars \<Rightarrow> Clearing option \<times> PoolObservation \<times> FeederVars" where
  "scan_pool env snap fv =
     (if fv_current_head fv = Some (ms_last_proof_block_hash snap) \<and> fv_round fv \<in> {Some StartMining, Some AwaitingQBlock}
      then (case pe_pending env of
              Inr pending \<Rightarrow>
                let (w, clearing) = scan (pe_pow env) pending snap (fv_pool_watch fv)
                in (clearing, if clearing \<noteq> None then ObsClearing else ObsClear, fv\<lparr>fv_pool_watch := w\<rparr>)
            | Inl _ \<Rightarrow> (None, ObsUnknown, fv))
      else (None, ObsUnknown, fv))"

definition poll_event ::
  "MiningSnapshot \<Rightarrow> Clearing option \<Rightarrow> PoolObservation \<Rightarrow> FeederVars \<Rightarrow> RoundEvent option \<times> Clearing option \<times> FeederVars" where
  "poll_event snap clearing observed fv =
     (if fv_current_head fv \<noteq> Some (ms_last_proof_block_hash snap) then (Some NewHead, clearing, fv)
      else if fv_round fv = Some AwaitingQBlock
      then let (w, reason) = resume_reason observed (ms_block_number snap) (fv_pool_watch fv)
           in (case reason of
                 None \<Rightarrow> (None, clearing, fv\<lparr>fv_pool_watch := w\<rparr>)
               | Some _ \<Rightarrow> (Some Resume, None, fv\<lparr>fv_pool_watch := expire_clearing w\<rparr>))
      else (None, clearing, fv))"

definition round_model :: "MiningSnapshot \<Rightarrow> DecayParams option \<Rightarrow> DecayModel option \<times> nat" where
  "round_model snap decay =
     (case decay of
        None \<Rightarrow> (None, 0)
      | Some dp \<Rightarrow>
          (Some \<lparr> dm_base_max_energy_milli = dp_base_max_energy_milli dp,
                  dm_curve = Some (curve_from_topology (length (ms_nodes snap)) (length (ms_edges snap))
                    (dp_c_easy_milli dp) (dp_c_knee_milli dp) (dp_c_hard_milli dp)
                    (ms_allowed_h_milli snap) (ms_allowed_j_milli snap)),
                  dm_epoch_length = dp_epoch_length dp,
                  dm_algorithm = for_spec_version (ms_spec_version snap) \<rparr>, dp_last_proof_block dp))"

definition target_key :: "SetTarget \<Rightarrow> int \<times> nat \<times> nat" where
  "target_key t = (tg_max_energy_milli t, tg_min_solutions t, tg_min_diversity_milli t)"

text \<open>The reads and the locked section of a reseed, then the two broadcasts.\<close>

definition reseed ::
  "('e, 'd, 'topo) Externals \<Rightarrow> FeedCrate \<Rightarrow> ('index, 'topo) PollEnv \<Rightarrow> MiningSnapshot \<Rightarrow> FeederVars \<Rightarrow> 'topo CoordinatorState
    \<Rightarrow> FeedOut list \<times> FeederVars \<times> 'topo CoordinatorState" where
  "reseed x C env snap fv st =
     (let topo = from_nodes_edges (fx_topology_hash C) (ms_nodes snap) (ms_edges snap) (ms_allowed_h_milli snap)
                   (ms_allowed_j_milli snap) (ms_allowed_spin_milli snap);
          qblock_id = (case pe_qblock env of Inr i \<Rightarrow> i | Inl _ \<Rightarrow> None);
          decay = (if length (ms_topology_hash snap) = 32
                   then (case pe_decay env (ms_topology_hash snap) of Inr dp \<Rightarrow> dp | Inl _ \<Rightarrow> None) else None);
          (model, last_proof_block) = round_model snap decay;
          target = target_from_snapshot snap;
          st = pe_others env 1 st;
          st = state_set_topology x (Some topo) st;
          st = st\<lparr>cs_target := Some target, cs_qblock_id := qblock_id,
                  cs_last_proof_block_hash := hex_encode (ms_last_proof_block_hash snap),
                  cs_stash := reset_stash (fv_generation fv) model last_proof_block (cs_stash st)\<rparr>;
          outs = broadcast_topology (to_proto topo) st @ broadcast_set_target target st
      in (outs, fv\<lparr>fv_last_broadcast := Some (target_key target),
                   fv_current_head := Some (ms_last_proof_block_hash snap)\<rparr>, pe_others env 2 st))"

text \<open>Stopping for a pending win; participation owed for the round is declared after the miners stopped.\<close>

definition stop_for_win ::
  "('index, 'topo) PollEnv \<Rightarrow> MiningSnapshot \<Rightarrow> FeederVars \<Rightarrow> 'topo CoordinatorState
    \<Rightarrow> FeedOut list \<times> FeederVars \<times> 'topo CoordinatorState" where
  "stop_for_win env snap fv st =
     (let owed = (fv_declared_generation fv \<noteq> Some (fv_generation fv) \<and> round_mined st);
          round' = Option.bind (fv_round fv) (\<lambda>s. transition s WinPending);
          generation = sat_add_u64 (fv_generation fv) 1;
          (cancelled, st) = stop_mining generation (pe_others env 3 st);
          (told, outs) = broadcast_cancel (generation - 1) st;
          fv = fv\<lparr>fv_round := round', fv_generation := generation,
                  fv_pool_watch := stopped (ms_block_number snap) (fv_pool_watch fv)\<rparr>
      in if owed
         then let (settled, last_declared, submitted) =
                    declare_round_participation (pe_latest env) (pe_declare env) (fv_last_declared fv)
              in (outs @ map DeclareFor (opt_list submitted), fv\<lparr>fv_last_declared := last_declared\<rparr>, pe_others env 4 st)
         else (outs, fv, st))"

definition declare_if_mined ::
  "('index, 'topo) PollEnv \<Rightarrow> FeederVars \<Rightarrow> 'topo CoordinatorState \<Rightarrow> FeedOut list \<times> FeederVars" where
  "declare_if_mined env fv st =
     (if fv_declared_generation fv \<noteq> Some (fv_generation fv) \<and> round_mined st
      then let (settled, last_declared, submitted) =
                 declare_round_participation (pe_latest env) (pe_declare env) (fv_last_declared fv);
               fv = fv\<lparr>fv_last_declared := last_declared\<rparr>
           in (map DeclareFor (opt_list submitted),
               if settled then fv\<lparr>fv_declared_generation := Some (fv_generation fv)\<rparr> else fv)
      else ([], fv))"

text \<open>The locked staging section. The outer \<open>option\<close> is a panic of the clock estimator.\<close>

definition staging_section ::
  "('e, 'd, 'topo) Externals \<Rightarrow> FeedCrate \<Rightarrow> FeederParams \<Rightarrow> ('index, 'topo) PollEnv \<Rightarrow> MiningSnapshot \<Rightarrow> FeederVars
    \<Rightarrow> 'topo CoordinatorState \<Rightarrow> (Candidate option \<times> Job list \<times> FeedOut list \<times> FeederVars \<times> 'topo CoordinatorState) option" where
  "staging_section x C params env snap fv st =
     (let st = st\<lparr>cs_target := Some (target_from_snapshot snap)\<rparr>;
          st = st\<lparr>cs_stash := snd (set_algorithm (for_spec_version (ms_spec_version snap)) (cs_stash st))\<rparr>;
          (jobs, outs, fv, st) = topup_all C params snap (pe_rate_secs env) fv st
      in case observe_head (ms_block_number snap) (pe_now_wall env) (pe_now_mono env) (pe_now_wall env) (cs_timing st) of
           None \<Rightarrow> None
         | Some timing \<Rightarrow>
             let st = st\<lparr>cs_timing := timing\<rparr>;
                 current_block = (case estimate_block (pe_now_mono env) timing of None \<Rightarrow> ms_block_number snap | Some b \<Rightarrow> b);
                 due = due_improving (xt_log x) (xt_pow x) (cs_stash st) current_block (cs_current_best_milli st)
             in Some (due, jobs, outs, fv, st))"

text \<open>
  The solver registration is awaited and the lock is free from the end of the staging section on, so other tasks
  run before the check for miners.
\<close>

definition mempool_section ::
  "FeedCrate \<Rightarrow> ('index, 'topo) PollEnv \<Rightarrow> MiningSnapshot \<Rightarrow> FeederVars \<Rightarrow> 'topo CoordinatorState
    \<Rightarrow> Job list \<times> FeedOut list \<times> FeederVars \<times> 'topo CoordinatorState" where
  "mempool_section C env snap fv st =
     (let st = pe_others env 8 st;
          fv = (if fv_solver_attempted fv \<noteq> Some (fv_generation fv)
                then fv\<lparr>fv_solver_attempted := Some (fv_generation fv),
                        fv_solver_registered := snd (register_round_solver (pe_solver env) (fv_solver_registered fv))\<rparr>
                else fv)
      in if fv_solver_registered fv \<and> ms_block_number snap > fv_orders_read_at fv
         then let (read, jobs, outs, st) = stage_mempool_orders (fx_encode_i32 C) (pe_orders env) (pe_others env 6) st
              in (jobs, outs, if read then fv\<lparr>fv_orders_read_at := ms_block_number snap\<rparr> else fv, st)
         else ([], [], fv, st))"

definition submit_section ::
  "('e, 'd, 'topo) Externals \<Rightarrow> ('index, 'topo) PollEnv \<Rightarrow> MiningSnapshot \<Rightarrow> Candidate option \<Rightarrow> FeederVars
    \<Rightarrow> 'topo CoordinatorState \<Rightarrow> (FeedOut list \<times> FeederVars \<times> 'topo CoordinatorState) option" where
  "submit_section x env snap due fv st =
     (case replay_gates x (target_from_snapshot snap) due of
        None \<Rightarrow> None
      | Some None \<Rightarrow> Some ([], fv, st)
      | Some (Some cand) \<Rightarrow>
          let receipt = pe_submit env (win_proof cand);
              (outs, ledger, st) = settle_win x (pe_now_ms env) cand receipt (fv_submit_ledger fv) (pe_others env 7 st)
          in Some (WinSubmit (win_proof cand) # outs, fv\<lparr>fv_submit_ledger := ledger\<rparr>, st))"

definition set_not_mining :: "'topo CoordinatorState \<Rightarrow> 'topo CoordinatorState" where
  "set_not_mining st =
     st\<lparr>cs_metrics := set_chain ((mt_chain (cs_metrics st))\<lparr>cv_is_mining := False\<rparr>) (cs_metrics st)\<rparr>"

text \<open>
  How a poll ends: the loop sleeps and polls again, the feeder returns, a wait of the walk never ends, or
  an external routine panics. A poll also reports the jobs it staged.
\<close>

datatype 'topo PollEnd =
    Again "Job list" "FeedOut list" FeederVars "'topo CoordinatorState"
  | FeederReturns
  | WalkHangs
  | Panics

text \<open>After the walk: mining continues with participation, difficulty, staging, mempool work and submission.\<close>

definition mining_poll ::
  "('e, 'd, 'topo) Externals \<Rightarrow> FeedCrate \<Rightarrow> FeederParams \<Rightarrow> ('index, 'topo) PollEnv \<Rightarrow> MiningSnapshot \<Rightarrow> FeederVars
    \<Rightarrow> 'topo CoordinatorState \<Rightarrow> 'topo PollEnd" where
  "mining_poll x C params env snap fv st =
     (let (outs1, fv) = declare_if_mined env fv st;
          st = pe_others env 5 st;
          target = target_from_snapshot snap;
          (outs2, fv) = (if fv_last_broadcast fv \<noteq> Some (target_key target)
                         then (broadcast_set_target target st, fv\<lparr>fv_last_broadcast := Some (target_key target)\<rparr>)
                         else ([], fv))
      in case staging_section x C params env snap fv st of
           None \<Rightarrow> Panics
         | Some (due, jobs1, outs3, fv, st) \<Rightarrow>
             let (jobs2, outs4, fv, st) = mempool_section C env snap fv st
             in case submit_section x env snap due fv st of
                  None \<Rightarrow> Panics
                | Some (outs5, fv, st) \<Rightarrow> Again (jobs1 @ jobs2) (outs1 @ outs2 @ outs3 @ outs4 @ outs5) fv st)"

text \<open>From the end of the event handling: stop for a win, wait, or mine.\<close>

definition settled_poll ::
  "('e, 'd, 'topo) Externals \<Rightarrow> FeedCrate \<Rightarrow> FeederParams \<Rightarrow> ('index, 'topo) PollEnv \<Rightarrow> MiningSnapshot \<Rightarrow> Clearing option
    \<Rightarrow> FeedOut list \<Rightarrow> FeederVars \<Rightarrow> 'topo CoordinatorState \<Rightarrow> 'topo PollEnd" where
  "settled_poll x C params env snap clearing outs fv st =
     (let (outs1, fv, st) = (if fv_round fv = Some StartMining \<and> clearing \<noteq> None
                             then stop_for_win env snap fv st else ([], fv, st))
      in if fv_round fv = Some AwaitingQBlock then Again [] (outs @ outs1) fv (set_not_mining st)
         else case mining_poll x C params env snap fv st of
                Again jobs outs2 fv st \<Rightarrow> Again jobs (outs @ outs1 @ outs2) fv st
              | other \<Rightarrow> other)"

definition feeder_poll ::
  "('e, 'd, 'topo) Externals \<Rightarrow> FeedCrate \<Rightarrow> FeederParams \<Rightarrow> ('index, 'topo) PollEnv \<Rightarrow> FeederVars \<Rightarrow> 'topo CoordinatorState
    \<Rightarrow> 'topo PollEnd" where
  "feeder_poll x C params env fv st =
     (case pe_snapshot env of
        Inl _ \<Rightarrow> Again [] [] fv (set_not_mining st)
      | Inr None \<Rightarrow> Again [] [] fv (set_not_mining st)
      | Inr (Some snap) \<Rightarrow>
          let (fv, st) = observe_chain env snap fv (pe_others env 0 st);
              (clearing, observed, fv) = scan_pool env snap fv;
              (event, clearing, fv) = poll_event snap clearing observed fv
          in (case event of
                None \<Rightarrow> settled_poll x C params env snap clearing [] fv st
              | Some ev \<Rightarrow>
                  (case (case fv_round fv of Some s \<Rightarrow> transition s ev | None \<Rightarrow> Some round_start) of
                     None \<Rightarrow> FeederReturns
                   | Some machine \<Rightarrow>
                       let fv = fv\<lparr>fv_generation := sat_add_u64 (fv_generation fv) 1\<rparr> in
                       (case drive_to_mining machine (pe_walk env) params (fv_generation fv) (fv_latches fv) st of
                          None \<Rightarrow> WalkHangs
                        | Some None \<Rightarrow> FeederReturns
                        | Some (Some ((fresh, _, _), w)) \<Rightarrow>
                            let fv = fv\<lparr>fv_round := Some StartMining, fv_latches := wk_latches w\<rparr>;
                                (outs, fv, st) = reseed x C env fresh fv (wk_state w)
                            in settled_poll x C params env fresh clearing outs fv st))))"

end
