(* ===== verification/Feeder_Laws.thy ===== *)
theory Feeder_Laws
  imports Feeding
begin

text \<open>
  Laws of the feeder: what the walk to mining guarantees and when it ends, what stopping a round drops,
  how far the queues are filled, and that every section of a poll is a step of the job ledger of
  \<open>Session_Laws\<close>.
\<close>

subsection \<open>The walk\<close>

definition funded_at :: "'topo WalkEnv \<Rightarrow> FeederParams \<Rightarrow> nat \<Rightarrow> bool" where
  "funded_at env params k \<longleftrightarrow> (\<exists>b n s. ensure_funded (we_balance env k) (map_option (\<lambda>f. f k) (we_faucet env)) (fd_funding params)
     = Some (Inr b, n, s))"

definition synced_at :: "'topo WalkEnv \<Rightarrow> nat \<Rightarrow> bool" where
  "synced_at env k \<longleftrightarrow> wait_until_synced (we_sync env k) \<noteq> None"

text \<open>What the rung of the machine says about the passes so far.\<close>

definition walk_inv :: "'topo WalkEnv \<Rightarrow> FeederParams \<Rightarrow> nat \<Rightarrow> 'topo Walk \<Rightarrow> bool" where
  "walk_inv env params i w \<longleftrightarrow>
     wk_machine w \<noteq> AwaitingQBlock
     \<and> (2 \<le> rung (wk_machine w) \<longrightarrow> (\<exists>k < i. synced_at env k))
     \<and> (3 \<le> rung (wk_machine w) \<longrightarrow> (\<exists>k < i. funded_at env params k))
     \<and> (4 \<le> rung (wk_machine w) \<longrightarrow> la_miner_registered (wk_latches w))
     \<and> (5 \<le> rung (wk_machine w) \<longrightarrow> (\<exists>k < i. \<exists>s. we_snapshot env k = Inr (Some s) \<and> wk_snap w = Some s))
     \<and> (6 \<le> rung (wk_machine w) \<longrightarrow> la_descriptor_filed (wk_latches w))"

lemma ex_less_Suc: "(\<exists>k < i. P k) \<Longrightarrow> \<exists>k < Suc i. P k"
  by (meson less_Suc_eq)

text \<open>A successful pass earns its rung, a failed one stays.\<close>

lemma walk_pass_inv:
  assumes "walk_inv env params i w" "walk_pass env params generation i w = PassEvent ev w'"
    "transition (wk_machine w) ev = Some s"
  shows "walk_inv env params (Suc i) (w'\<lparr>wk_machine := s, wk_state := st\<rparr>)"
proof (cases "wk_machine w")
  case StopMining
  then show ?thesis using assms by (auto simp: walk_pass_def walk_inv_def split_def Let_def)
next
  case ValidatorSynced
  then show ?thesis using assms
    by (auto simp: walk_pass_def walk_inv_def synced_at_def split: if_splits option.splits SyncOutcome.splits prod.splits
        intro: exI [of _ i] ex_less_Suc)
next
  case AccountFunded
  then show ?thesis using assms
    by (auto simp: walk_pass_def walk_inv_def funded_at_def split: if_splits option.splits sum.splits prod.splits
        intro: ex_less_Suc)
next
  case MinerRegistered
  obtain r l n where reg: "register_round_miner (we_register env i) (la_miner_registered (wk_latches w)) = (r, l, n)"
    by (metis prod_cases3)
  from register_round_miner_spec [OF reg] have "r = l" by blast
  with MinerRegistered reg assms show ?thesis
    by (auto simp: walk_pass_def walk_inv_def split: if_splits intro: ex_less_Suc)
next
  case RequirementsDownloaded
  then show ?thesis using assms
    by (auto simp: walk_pass_def walk_inv_def split: if_splits option.splits sum.splits intro: ex_less_Suc)
next
  case DescriptorFiled
  then show ?thesis
    using assms file_round_descriptor_latches(1) [of "we_descriptor env i" "we_ss58 env"]
    by (auto simp: walk_pass_def walk_inv_def split_def Let_def intro: ex_less_Suc less_SucI)
next
  case StartMining
  then show ?thesis using assms by (simp add: walk_pass_def)
next
  case AwaitingQBlock
  then show ?thesis using assms by (simp add: walk_inv_def)
qed

definition walk_ready :: "'topo WalkEnv \<Rightarrow> FeederParams \<Rightarrow> MiningSnapshot \<Rightarrow> 'topo Walk \<Rightarrow> bool" where
  "walk_ready env params snap w \<longleftrightarrow>
     (\<exists>k. synced_at env k) \<and> (\<exists>k. funded_at env params k)
     \<and> la_miner_registered (wk_latches w) \<and> la_descriptor_filed (wk_latches w)
     \<and> (\<exists>k. we_snapshot env k = Inr (Some snap))"

text \<open>Rule induction over a walk that returns.\<close>

lemma drive_loop_induct [consumes 1, case_names Stopped Done Next]:
  assumes "drive_loop env params generation i w = Some y"
    and stopped: "\<And>i w. P i w None"
    and finish: "\<And>i w d. wk_machine w = StartMining \<Longrightarrow> wk_snap w = Some d \<Longrightarrow> P i w (Some ((d, wk_cancelled w, wk_told w), w))"
    and step: "\<And>i w ev w' s y. walk_pass env params generation i w = PassEvent ev w' \<Longrightarrow> transition (wk_machine w) ev = Some s \<Longrightarrow>
      P (Suc i) (w'\<lparr>wk_machine := s, wk_state := we_others env i (wk_state w')\<rparr>) y \<Longrightarrow> P i w y"
  shows "P i w y"
proof (rule drive_loop.raw_induct [OF _ assms(1), where P = "\<lambda>e p g i w y. e = env \<longrightarrow> p = params \<longrightarrow> g = generation \<longrightarrow> P i w y",
      THEN mp, THEN mp, THEN mp, OF _ refl refl refl])
  fix drive e p g i w y
  assume IH: "\<And>e p g i w y. drive e p g i w = Some y \<Longrightarrow> e = env \<longrightarrow> p = params \<longrightarrow> g = generation \<longrightarrow> P i w y"
    and body: "(case walk_pass e p g i w of PassStop \<Rightarrow> Some None | PassHang \<Rightarrow> None
      | PassDone d \<Rightarrow> Some (map_option (\<lambda>d. (d, w)) d)
      | PassEvent event w' \<Rightarrow> if event = Failed \<and> we_stop_sleep e i then Some None
          else (case transition (wk_machine w) event of None \<Rightarrow> Some None
             | Some next_state \<Rightarrow> drive e p g (Suc i) (w'\<lparr>wk_machine := next_state, wk_state := we_others e i (wk_state w')\<rparr>))) = Some y"
  show "e = env \<longrightarrow> p = params \<longrightarrow> g = generation \<longrightarrow> P i w y"
  proof (intro impI)
    assume eqs: "e = env" "p = params" "g = generation"
    show "P i w y"
    proof (cases "walk_pass e p g i w")
      case PassStop
      with body stopped show ?thesis by simp
    next
      case PassHang
      with body show ?thesis by simp
    next
      case (PassDone d)
      then have m: "wk_machine w = StartMining" "d = map_option (\<lambda>s. (s, wk_cancelled w, wk_told w)) (wk_snap w)"
        by (auto simp: walk_pass_def Let_def split_def split: RoundState.splits if_splits option.splits sum.splits SyncOutcome.splits)
      with PassDone body stopped finish show ?thesis by (cases "wk_snap w") auto
    next
      case (PassEvent ev w1)
      show ?thesis
      proof (cases "ev = Failed \<and> we_stop_sleep e i \<or> transition (wk_machine w) ev = None")
        case True
        with PassEvent body stopped show ?thesis by (auto split: if_splits option.splits)
      next
        case False
        then obtain s where s: "transition (wk_machine w) ev = Some s" by auto
        with False PassEvent body have "drive e p g (Suc i) (w1\<lparr>wk_machine := s, wk_state := we_others e i (wk_state w1)\<rparr>) = Some y"
          by (auto split: if_splits)
        from IH [OF this] eqs PassEvent s show ?thesis by (auto intro: step)
      qed
    qed
  qed
qed

lemma drive_loop_ready:
  assumes "drive_loop env params generation i w = Some y" "walk_inv env params i w"
  shows "(case y of None \<Rightarrow> True | Some ((snap, _), w') \<Rightarrow> walk_ready env params snap w')"
  using assms
proof (induction rule: drive_loop_induct)
  case (Done i w d)
  then show ?case by (auto simp: walk_ready_def walk_inv_def)
next
  case (Next i w ev w' s y)
  show ?case using Next.IH walk_pass_inv [OF Next.prems Next.hyps] by blast
qed simp

lemma drive_from_stop_ready:
  "drive_to_mining StopMining env params generation latches st = Some (Some ((snap, cancelled, told), w)) \<Longrightarrow> walk_ready env params snap w"
  using drive_loop_ready [of env params generation 0] unfolding drive_to_mining_def by (fastforce simp: walk_inv_def)

text \<open>
  C9. Mining starts only when the round is ready: if the walk from \<open>StopMining\<close> hands a snapshot to the feeder,
  then in that walk the sync wait returned, the account was funded to the floor, the chain returned that very
  snapshot, the account is known to be a registered miner and the descriptor step is done, whatever the
  chain answered in between and whatever other tasks did to the shared state.
\<close>
theorem mining_only_when_ready:
  assumes "drive_to_mining StopMining env params generation latches st = Some (Some ((snap, cancelled, told), w))"
  shows "walk_ready env params snap w"
  by (rule drive_from_stop_ready [OF assms])

subsection \<open>The order of a walk\<close>

text \<open>
  The passes a walk has behind it, in their order: the sync wait returned, later the account was funded, later the
  registration was answered (or was known before the walk), later the chain returned the snapshot.
\<close>

definition registered_at :: "'topo WalkEnv \<Rightarrow> nat \<Rightarrow> bool" where
  "registered_at env k \<longleftrightarrow> (\<exists>j < SUBMIT_ATTEMPTS. \<exists>a. we_register env k j = Inr a)"

definition synced_before :: "'topo WalkEnv \<Rightarrow> nat \<Rightarrow> bool" where
  "synced_before env i \<longleftrightarrow> (\<exists>k < i. synced_at env k)"

definition funded_before :: "'topo WalkEnv \<Rightarrow> FeederParams \<Rightarrow> nat \<Rightarrow> bool" where
  "funded_before env params i \<longleftrightarrow> (\<exists>k < i. synced_before env k \<and> funded_at env params k)"

definition registered_before :: "'topo WalkEnv \<Rightarrow> FeederParams \<Rightarrow> bool \<Rightarrow> nat \<Rightarrow> bool" where
  "registered_before env params known i \<longleftrightarrow> (\<exists>k < i. funded_before env params k \<and> (known \<or> registered_at env k))"

definition fetched_before :: "'topo WalkEnv \<Rightarrow> FeederParams \<Rightarrow> bool \<Rightarrow> MiningSnapshot \<Rightarrow> nat \<Rightarrow> bool" where
  "fetched_before env params known snap i \<longleftrightarrow>
     (\<exists>k < i. registered_before env params known k \<and> we_snapshot env k = Inr (Some snap))"

lemmas before_defs = synced_before_def funded_before_def registered_before_def fetched_before_def

lemma before_Suc:
  "synced_before env i \<Longrightarrow> synced_before env (Suc i)"
  "funded_before env params i \<Longrightarrow> funded_before env params (Suc i)"
  "registered_before env params known i \<Longrightarrow> registered_before env params known (Suc i)"
  "fetched_before env params known snap i \<Longrightarrow> fetched_before env params known snap (Suc i)"
  unfolding before_defs by (meson less_Suc_eq)+

definition order_inv :: "'topo WalkEnv \<Rightarrow> FeederParams \<Rightarrow> bool \<Rightarrow> nat \<Rightarrow> 'topo Walk \<Rightarrow> bool" where
  "order_inv env params known i w \<longleftrightarrow>
     wk_machine w \<noteq> AwaitingQBlock
     \<and> (rung (wk_machine w) \<le> 3 \<longrightarrow> la_miner_registered (wk_latches w) \<longrightarrow> known)
     \<and> (2 \<le> rung (wk_machine w) \<longrightarrow> synced_before env i)
     \<and> (3 \<le> rung (wk_machine w) \<longrightarrow> funded_before env params i)
     \<and> (4 \<le> rung (wk_machine w) \<longrightarrow> registered_before env params known i)
     \<and> (5 \<le> rung (wk_machine w) \<longrightarrow> (\<exists>s. wk_snap w = Some s \<and> fetched_before env params known s i))"

lemma order_inv_pass:
  assumes inv: "order_inv env params known i w" and pass: "walk_pass env params generation i w = PassEvent ev w'"
    and t: "transition (wk_machine w) ev = Some s"
  shows "order_inv env params known (Suc i) (w'\<lparr>wk_machine := s, wk_state := st\<rparr>)"
proof (cases "wk_machine w")
  case StopMining
  then show ?thesis using assms by (auto simp: walk_pass_def order_inv_def split_def Let_def)
next
  case ValidatorSynced
  then have "synced_at env i" if "ev = Succeeded" using that pass
    by (auto simp: walk_pass_def synced_at_def split: if_splits option.splits)
  then have "synced_before env (Suc i)" if "ev = Succeeded" using that by (auto simp: synced_before_def)
  then show ?thesis using assms ValidatorSynced
    by (auto simp: walk_pass_def order_inv_def split: if_splits option.splits SyncOutcome.splits)
next
  case AccountFunded
  then have "funded_at env params i" if "ev = Succeeded" using that pass
    by (auto simp: walk_pass_def funded_at_def split: if_splits option.splits sum.splits)
  moreover have "synced_before env i" using inv AccountFunded by (simp add: order_inv_def)
  ultimately have "funded_before env params (Suc i)" if "ev = Succeeded" using that by (auto simp: funded_before_def)
  then show ?thesis using assms AccountFunded
    by (auto simp: walk_pass_def order_inv_def before_Suc split: if_splits option.splits sum.splits prod.splits)
next
  case MinerRegistered
  obtain r l n where reg: "register_round_miner (we_register env i) (la_miner_registered (wk_latches w)) = (r, l, n)"
    by (metis prod_cases3)
  note spec = register_round_miner_spec [OF reg]
  have "known \<or> registered_at env i" if "r"
    using that reg spec inv MinerRegistered by (auto simp: order_inv_def registered_at_def SUBMIT_ATTEMPTS_def)
  moreover have "funded_before env params i" using inv MinerRegistered by (simp add: order_inv_def)
  ultimately have "registered_before env params known (Suc i)" if "r" using that by (auto simp: registered_before_def)
  with MinerRegistered reg spec assms show ?thesis
    by (auto simp: walk_pass_def order_inv_def before_Suc split: if_splits)
next
  case RequirementsDownloaded
  then have "registered_before env params known i" using inv by (simp add: order_inv_def)
  then have "fetched_before env params known snap (Suc i)" if "we_snapshot env i = Inr (Some snap)" for snap
    using that by (auto simp: fetched_before_def)
  then show ?thesis using assms RequirementsDownloaded
    by (auto simp: walk_pass_def order_inv_def before_Suc split: if_splits option.splits sum.splits)
next
  case DescriptorFiled
  then show ?thesis using assms
    by (auto simp: walk_pass_def order_inv_def before_Suc split_def Let_def)
next
  case StartMining
  then show ?thesis using pass by (simp add: walk_pass_def)
next
  case AwaitingQBlock
  then show ?thesis using inv by (simp add: order_inv_def)
qed

lemma drive_from_stop_ordered:
  assumes "drive_to_mining StopMining env params generation latches st = Some (Some ((snap, cancelled, told), w))"
  shows "\<exists>i. fetched_before env params (la_miner_registered latches) snap i"
proof -
  have "(case y of None \<Rightarrow> True | Some ((snap, _), _) \<Rightarrow> \<exists>i. fetched_before env params known snap i)"
    if "drive_loop env params generation i w = Some y" "order_inv env params known i w" for known i w y
    using that
  proof (induction rule: drive_loop_induct)
    case (Done i w d)
    then show ?case by (auto simp: order_inv_def)
  next
    case (Next i w ev w' s y)
    show ?case using Next.IH order_inv_pass [OF Next.prems Next.hyps] by blast
  qed simp
  from this [OF assms [unfolded drive_to_mining_def], of "la_miner_registered latches"] show ?thesis
    by (simp add: order_inv_def)
qed

text \<open>An environment without a shutdown, whose waits end, and that answers well from pass \<open>k\<close> on.\<close>

definition recovers :: "'topo WalkEnv \<Rightarrow> FeederParams \<Rightarrow> nat \<Rightarrow> bool" where
  "recovers env params k \<longleftrightarrow>
     (\<forall>i. \<not> we_stop env i \<and> \<not> we_stop_sleep env i \<and> synced_at env i)
     \<and> (\<forall>i \<ge> k. funded_at env params i \<and> (\<exists>j < 3. \<exists>a. we_register env i j = Inr a) \<and> (\<exists>s. we_snapshot env i = Inr (Some s)))"

lemma walk_pass_progress:
  assumes rec: "recovers env params k" and m: "wk_machine w \<notin> {StartMining, AwaitingQBlock}"
  shows "\<exists>ev w'. walk_pass env params generation i w = PassEvent ev w' \<and> (ev = Succeeded \<or> ev = Failed \<and> i < k)"
proof -
  have env: "\<not> we_stop env i" "synced_at env i" using rec by (simp_all add: recovers_def)
  obtain f n s where fund: "ensure_funded (we_balance env i) (map_option (\<lambda>f. f i) (we_faucet env)) (fd_funding params) = Some (f, n, s)"
    using funding_loop_returns [of BACKOFF_START "we_balance env i" "map_option (\<lambda>f. f i) (we_faucet env)" "fd_funding params"
        0 None "fp_timeout (fd_funding params)" 0]
    by (auto simp: ensure_funded_def BACKOFF_START_def balance_history_def)
  obtain r l c where reg: "register_round_miner (we_register env i) (la_miner_registered (wk_latches w)) = (r, l, c)"
    by (metis prod_cases3)
  note regs = register_round_miner_spec [OF reg]
  have good: "\<exists>b. f = Inr b" "r" "\<exists>s. we_snapshot env i = Inr (Some s)" if "\<not> i < k"
  proof -
    have "funded_at env params i" "\<exists>j < 3. \<exists>a. we_register env i j = Inr a" "\<exists>s. we_snapshot env i = Inr (Some s)"
      using rec that by (simp_all add: recovers_def)
    with fund regs show "\<exists>b. f = Inr b" "r" "\<exists>s. we_snapshot env i = Inr (Some s)" by (auto simp: funded_at_def)
  qed
  show ?thesis
  proof (cases "wk_machine w")
    case ValidatorSynced
    then show ?thesis using env by (auto simp: walk_pass_def synced_at_def split: SyncOutcome.splits)
  next
    case AccountFunded
    then show ?thesis using env(1) fund good(1) by (cases f; cases "i < k") (auto simp: walk_pass_def)
  next
    case MinerRegistered
    then show ?thesis using env(1) reg good(2) by (cases "i < k") (auto simp: walk_pass_def)
  next
    case RequirementsDownloaded
    then show ?thesis using env(1) good(3) by (cases "i < k") (auto simp: walk_pass_def split: sum.splits option.splits)
  qed (use m in \<open>auto simp: walk_pass_def Let_def split_def\<close>)
qed

lemma succeeded_climbs: "s \<notin> {StartMining, AwaitingQBlock} \<Longrightarrow> \<exists>t. transition s Succeeded = Some t \<and> rung t = Suc (rung s) \<and> t \<noteq> AwaitingQBlock"
  by (cases s) auto

lemma drive_loop_returns:
  assumes rec: "recovers env params k" and inv: "walk_inv env params i w"
  shows "\<exists>result. drive_loop env params generation i w = Some (Some result)"
  using inv
proof (induction "(k - i) + (6 - rung (wk_machine w))" arbitrary: i w rule: less_induct)
  case less
  have not_wait: "wk_machine w \<noteq> AwaitingQBlock" using less.prems by (simp add: walk_inv_def)
  show ?case
  proof (cases "wk_machine w = StartMining")
    case True
    then show ?thesis using less.prems
      by (subst drive_loop.simps) (auto simp: walk_pass_def walk_inv_def)
  next
    case False
    with not_wait have m: "wk_machine w \<notin> {StartMining, AwaitingQBlock}" by simp
    from walk_pass_progress [OF rec m] obtain ev w' where
      pass: "walk_pass env params generation i w = PassEvent ev w'" and ev: "ev = Succeeded \<or> ev = Failed \<and> i < k" by blast
    from succeeded_climbs [OF m] obtain t where t: "transition (wk_machine w) Succeeded = Some t" "rung t = Suc (rung (wk_machine w))"
      by blast
    have "rung (wk_machine w) < 6" using m by (cases "wk_machine w") auto
    then obtain s where s: "transition (wk_machine w) ev = Some s"
        "(k - Suc i) + (6 - rung s) < (k - i) + (6 - rung (wk_machine w))"
      using ev t by (cases "ev = Succeeded") auto
    let ?w = "w'\<lparr>wk_machine := s, wk_state := we_others env i (wk_state w')\<rparr>"
    have "\<exists>result. drive_loop env params generation (Suc i) ?w = Some (Some result)"
      using s(2) by (intro less.hyps walk_pass_inv [OF less.prems pass s(1)]) simp
    moreover have "drive_loop env params generation i w = drive_loop env params generation (Suc i) ?w"
      using pass s(1) rec by (subst drive_loop.simps) (simp add: recovers_def)
    ultimately show ?thesis by simp
  qed
qed

lemma drive_from_stop_returns:
  "recovers env params k \<Longrightarrow> \<exists>result. drive_to_mining StopMining env params generation latches st = Some (Some result)"
  unfolding drive_to_mining_def by (rule drive_loop_returns) (simp_all add: walk_inv_def)

text \<open>
  C10. The walk ends: without a shutdown, and with sync waits that return, the walk from \<open>StopMining\<close> starts mining
  as soon as the chain funds, registers and answers with a snapshot from some pass on, whatever failed
  before, and never ends as if it had been shut down.
\<close>
theorem walk_reaches_mining:
  assumes "recovers env params k"
  shows "\<exists>result. drive_to_mining StopMining env params generation latches st = Some (Some result)"
  by (rule drive_from_stop_returns [OF assms])

subsection \<open>A concrete walk\<close>

definition demo_walk :: "unit WalkEnv" where
  "demo_walk = \<lparr> we_stop = (\<lambda>_. False), we_stop_sleep = (\<lambda>_. False),
     we_sync = (\<lambda>_ _. Inr \<lparr> sy_is_syncing = False, sy_peers = 3, sy_should_have_peers = True,
       sy_current_block = None, sy_highest_block = None \<rparr>),
     we_balance = (\<lambda>_ _. Inr 3000000000000), we_faucet = None, we_register = (\<lambda>_ _. Inr Registered),
     we_snapshot = (\<lambda>i. if i < 6 then Inr None else Inr (Some demo_snapshot)), we_descriptor = (\<lambda>_ _ _. Inr Filed),
     we_ss58 = (\<lambda>_. []), we_others = (\<lambda>_ st. st) \<rparr>"

definition demo_params :: FeederParams where
  "demo_params = \<lparr> fd_miner_identity = [], fd_miner_account = [], fd_buffer_depth = 2, fd_funding = default_funding,
     fd_descriptor = default_descriptor, fd_max_submit_attempts = 3 \<rparr>"

lemma demo_walk_recovers: "recovers demo_walk demo_params 6"
proof -
  have "synced_at demo_walk i" for i
    unfolding synced_at_def wait_until_synced_def
    by (subst sync_loop.simps) (simp add: demo_walk_def sync_poll_def sync_init_def)
  moreover have "funded_at demo_walk demo_params i" for i
    unfolding funded_at_def ensure_funded_def
    by (subst funding_loop.simps)
       (simp add: demo_walk_def demo_params_def default_funding_def funding_pass_def DEFAULT_MIN_BALANCE_PLANCKS_def)
  ultimately show ?thesis by (auto simp: recovers_def demo_walk_def intro: exI [of _ 0])
qed

theorem walk_reaches_mining_witness:
  "\<exists>result. drive_to_mining StopMining demo_walk demo_params 1 \<lparr> la_descriptor_filed = False, la_miner_registered = False \<rparr> new_state
     = Some (Some result)"
  by (rule walk_reaches_mining [OF demo_walk_recovers])

theorem mining_only_when_ready_witness:
  "\<exists>snap cancelled told w.
     drive_to_mining StopMining demo_walk demo_params 1 \<lparr> la_descriptor_filed = False, la_miner_registered = False \<rparr> new_state
       = Some (Some ((snap, cancelled, told), w)) \<and> walk_ready demo_walk demo_params snap w"
proof -
  obtain snap cancelled told w where "drive_to_mining StopMining demo_walk demo_params 1
      \<lparr> la_descriptor_filed = False, la_miner_registered = False \<rparr> new_state = Some (Some ((snap, cancelled, told), w))"
    using drive_from_stop_returns [OF demo_walk_recovers] by (metis prod.collapse)
  with mining_only_when_ready [OF this] show ?thesis by blast
qed

end
