(* ===== verification/Feeding_Laws.thy ===== *)
theory Feeding_Laws
  imports Feeder_Laws
begin

text \<open>
  Laws of a feeder poll: stopping a round, filling the queues, mempool orders and win-time submission,
  and the refinement of the locked sections to the job ledger of \<open>Session_Laws\<close>.
\<close>

subsection \<open>Stopping a round\<close>

lemma session_run_trans:
  "session_run x st1 ins' outs' st2 \<Longrightarrow> session_run x st ins outs st1 \<Longrightarrow> session_run x st (ins @ ins') (outs @ outs') st2"
proof (induction rule: session_run.induct)
  case (Step st ins' outs' st1 i o' st2)
  then show ?case by (metis append.assoc session_run.Step)
qed simp

lemma session_run_one: "session_step x st ins outs st' \<Longrightarrow> session_run x st ins outs st'"
  using session_run.Step [OF session_run.Done] by simp

lemma session_run_wf: "session_run x st ins outs st' \<Longrightarrow> session_wf st \<Longrightarrow> session_wf st'"
  using session_run_ledger by blast

text \<open>A step that leaves router and in-flight table alone.\<close>

lemma bookkeeping:
  "session_wf st \<Longrightarrow> cs_router st' = cs_router st \<Longrightarrow> cs_inflight st' = cs_inflight st
     \<Longrightarrow> cs_inflight_owner st' = cs_inflight_owner st \<Longrightarrow> session_run x st [] [] st'"
  by (intro session_run_one session_step.Bookkeeping) (simp_all add: session_wf_def)

text \<open>A step that changes only router fields that hold no jobs.\<close>

lemma bookkeeping_router:
  assumes "session_wf st" "router_wf r" "router_jobs r = router_jobs (cs_router st)"
  shows "session_run x st [] [] (st\<lparr>cs_router := r\<rparr>)"
  using assms by (intro session_run_one session_step.Bookkeeping) simp_all

lemma counter_ops:
  assumes "router_wf r"
  shows "router_wf (reset_round_salts r)" "router_jobs (reset_round_salts r) = router_jobs r"
    "router_wf (snd (take_consumed m r))" "router_jobs (snd (take_consumed m r)) = router_jobs r"
    "router_wf (snd (take_lease_salts m r))" "router_jobs (snd (take_lease_salts m r)) = router_jobs r"
    "router_wf (set_topology blake t r)" "router_jobs (set_topology blake t r) = router_jobs r"
  using router_wf_step [OF assms, of _ OpResetRoundSalts] router_jobs_step [OF assms, of _ OpResetRoundSalts]
    router_wf_step [OF assms, of _ "OpTakeConsumed m"] router_jobs_step [OF assms, of _ "OpTakeConsumed m"]
    router_wf_step [OF assms, of _ "OpTakeLeaseSalts m"] router_jobs_step [OF assms, of _ "OpTakeLeaseSalts m"]
    router_wf_step [OF assms, of blake "OpSetTopology t"] router_jobs_step [OF assms, of blake "OpSetTopology t"]
  by (simp_all add: jobs_out_def)

text \<open>The state just before the cancel of a stop, and the stop as a run of the ledger.\<close>

definition new_round :: "nat \<Rightarrow> 'topo CoordinatorState \<Rightarrow> 'topo CoordinatorState" where
  "new_round generation st =
     st\<lparr>cs_generation := generation, cs_current_best_milli := None, cs_stash := reset_stash generation None 0 (cs_stash st)\<rparr>"

lemma stop_mining_snd:
  "snd (stop_mining generation st) =
     (let s = cancel_generations (generation - 1) (new_round generation st)
      in s\<lparr>cs_salts := [], cs_router := reset_round_salts (cs_router s)\<rparr>)"
  by (simp add: stop_mining_def cancel_generations_def new_round_def clear_salts_def split_def Let_def)

lemma stop_mining_run:
  assumes "session_wf st"
  shows "session_run x st [] (dropped_jobs (generation - 1) st) (snd (stop_mining generation st))"
proof -
  let ?g = "generation - 1" and ?s0 = "new_round generation st"
  let ?s1 = "cancel_generations ?g ?s0"
  let ?s2 = "?s1\<lparr>cs_salts := []\<rparr>"
  have w0: "session_wf ?s0" using assms by (simp add: new_round_def)
  have w1: "session_wf ?s1" by (rule cancel_generations_ledger(1) [OF w0])
  have w2: "session_wf ?s2" using w1 by simp
  have "dropped_jobs ?g ?s0 = dropped_jobs ?g st" by (simp add: dropped_jobs_def new_round_def)
  then have cancelling: "session_run x ?s0 [] (dropped_jobs ?g st) ?s1"
    using session_run_one [OF session_step.Cancelling, of x ?s0 ?g] by simp
  have entering: "session_run x st [] [] ?s0" using assms by (intro bookkeeping) (simp_all add: new_round_def)
  have salts: "session_run x ?s1 [] [] ?s2" using w1 by (intro bookkeeping) simp_all
  have rw: "router_wf (cs_router ?s2)" using w2 by (simp add: session_wf_def)
  have "session_run x ?s2 [] [] (?s2\<lparr>cs_router := reset_round_salts (cs_router ?s2)\<rparr>)"
    by (rule bookkeeping_router [OF w2 counter_ops(1,2) [OF rw]])
  then have resetting: "session_run x ?s2 [] [] (snd (stop_mining generation st))"
    unfolding stop_mining_snd Let_def by simp
  show ?thesis
    using session_run_trans [OF resetting session_run_trans [OF salts session_run_trans [OF cancelling entering]]] by simp
qed

lemma fold_complete_fields:
  "cs_router (fold (\<lambda>i s. snd (complete_inflight i s)) ids st) = cs_router st
   \<and> cs_generation (fold (\<lambda>i s. snd (complete_inflight i s)) ids st) = cs_generation st
   \<and> cs_mempool_orders (fold (\<lambda>i s. snd (complete_inflight i s)) ids st) = cs_mempool_orders st"
  by (induction ids arbitrary: st) (auto simp: complete_inflight_def)

text \<open>
  C11. Stopping a round clears it and nothing else: after \<open>stop_mining\<close> every queue holds exactly its jobs that are mempool
  work or of the new generation, in order; the same jobs remain in flight; no salt, no best energy and no
  stashed candidate of the old round is left; and the round counts as not mined until a result of the new
  generation arrives.
\<close>
theorem stop_mining_clears_round:
  assumes "session_wf st"
  shows "let st' = snd (stop_mining generation st); keep = (\<lambda>j. jb_generation j = 0 \<or> generation \<le> jb_generation j) in
     map_option mq_staged (miner (cs_router st') m) = map_option (\<lambda>q. filter keep (mq_staged q)) (miner (cs_router st) m)
     \<and> hm_get (cs_inflight st') i = keep_if keep (hm_get (cs_inflight st) i)
     \<and> cs_salts st' = [] \<and> cs_current_best_milli st' = None \<and> ws_candidates (cs_stash st') = []
     \<and> cs_generation st' = generation \<and> (round_mined st' \<longleftrightarrow> cs_mined_generation st = Some generation)
     \<and> cs_mempool_orders st' = cs_mempool_orders st"
proof -
  let ?keep = "\<lambda>j. jb_generation j = 0 \<or> generation \<le> jb_generation j" and ?g = "generation - 1"
  let ?s = "(new_round generation st)\<lparr>cs_router := snd (cancel ?g (cs_router st))\<rparr>"
  let ?ids = "map fst (filter (\<lambda>e. jb_generation (snd e) \<noteq> 0 \<and> jb_generation (snd e) \<le> ?g) (cs_inflight st))"
  let ?c = "fold (\<lambda>i s. snd (complete_inflight i s)) ?ids ?s"
  have cg: "cancel_generations ?g (new_round generation st) = ?c"
    by (simp add: cancel_generations_def cancel_inflight_def new_round_def)
  have fields: "cs_router ?c = snd (cancel ?g (cs_router st))" "cs_generation ?c = generation"
      "cs_mempool_orders ?c = cs_mempool_orders st"
    using fold_complete_fields [of ?ids ?s] by (simp_all add: new_round_def)
  have wf: "hm_wf (cs_inflight st)" using assms by (simp add: session_wf_def)
  have "hm_get (cs_inflight ?c) i = (if i \<in> set ?ids then None else hm_get (cs_inflight st) i)"
    unfolding fold_complete_inflight by (simp add: new_round_def)
  moreover have "i \<in> set ?ids \<longleftrightarrow> (\<exists>j. hm_get (cs_inflight st) i = Some j \<and> \<not> ?keep j)"
    using wf by (force simp: hm_get_def hm_wf_def)
  ultimately have inflight: "hm_get (cs_inflight ?c) i = keep_if ?keep (hm_get (cs_inflight st) i)"
    by (cases "hm_get (cs_inflight st) i") (auto simp: keep_if_def)
  have staged: "map_option mq_staged (miner (reset_round_salts (snd (cancel ?g (cs_router st)))) m)
      = map_option (\<lambda>q. filter ?keep (mq_staged q)) (miner (cs_router st) m)"
    by (cases "miner (cs_router st) m")
       (auto simp: reset_round_salts_def cancel_def hm_get_map_values keep_job_def intro!: filter_cong)
  show ?thesis
    using staged inflight fields fold_complete_keeps [of ?ids ?s]
    unfolding stop_mining_snd cg Let_def
    by (simp add: round_mined_def new_round_def reset_stash_def)
qed

theorem stop_mining_clears_round_witness:
  "cs_current_best_milli (snd (stop_mining 2 (new_state\<lparr>cs_current_best_milli := Some 5\<rparr> :: unit CoordinatorState))) = None"
proof -
  have "session_wf (new_state\<lparr>cs_current_best_milli := Some 5\<rparr> :: unit CoordinatorState)"
    using session_wf_new by simp
  from stop_mining_clears_round [OF this, of 2 "[]" "[]"] show ?thesis by (simp add: Let_def)
qed

text \<open>
  A proof whose chain call returns after the round turned over pollutes the new round: the success section
  stores the old round's energy as the best of the new one, which then suppresses every worse but
  valid proof of the new round.
\<close>

lemma late_success_pollutes_round:
  assumes "sb_action r = Success"
  shows "cs_current_best_milli (snd (settle_submit now o' (Inr r) (snd (stop_mining generation st))))
      = Some (vd_best_energy_milli (po_validated o'))"
  using assms by (simp add: settle_submit_def Let_def)

subsection \<open>Filling the queues\<close>

text \<open>The effect of a top-up loop: jobs staged on one miner in order, with bookkeeping in between.\<close>

inductive staged_by :: "string \<Rightarrow> Job list \<Rightarrow> 'topo CoordinatorState \<Rightarrow> 'topo CoordinatorState \<Rightarrow> bool" for m where
  Full: "staged_by m [] st st"
| Stage: "stage_on m job (cs_router st) = (True, cs_router st1) \<Longrightarrow> cs_inflight st1 = cs_inflight st \<Longrightarrow>
    cs_inflight_owner st1 = cs_inflight_owner st \<Longrightarrow> staged_by m jobs st1 st' \<Longrightarrow> staged_by m (job # jobs) st st'"

inductive_cases staged_by_NilE: "staged_by m [] st st'"
inductive_cases staged_by_ConsE: "staged_by m (job # jobs) st st'"

lemma stage_on_refused: "stage_on m job r = (False, r') \<Longrightarrow> r' = r"
  by (auto simp: stage_on_def split: option.splits if_splits)

lemma topup_plain_staged:
  "topup_plain C identity snap g m depth ctr st = (jobs, ctr', st') \<Longrightarrow> staged_by m jobs st st'"
proof (induction C identity snap g m depth ctr st arbitrary: jobs ctr' st' rule: topup_plain.induct)
  case (1 C identity snap g m depth ctr st)
  let ?c = "sat_add_u64 ctr 1"
  let ?d = "derive_pow_job (fx_derive_nonce C) (fx_encode_i32 C) (fx_draw C) snap identity (salt_from_counter ?c) g 0"
  show ?case
  proof (cases "staged_len (cs_router st) m < depth \<and> (\<exists>job r. ?d = Inr job \<and> stage_on m job (cs_router st) = (True, r))")
    case True
    then obtain job r where j: "staged_len (cs_router st) m < depth" "?d = Inr job" "stage_on m job (cs_router st) = (True, r)" by blast
    let ?s = "record_salt (jb_job_id job) (salt_from_counter ?c) (st\<lparr>cs_router := r\<rparr>)"
    obtain js c' s' where rec: "topup_plain C identity snap g m depth ?c ?s = (js, c', s')" by (metis prod_cases3)
    have "staged_by m js ?s s'" using "1.IH" [OF j(1) refl refl j(2) j(3) [symmetric] refl rec] .
    then have "staged_by m (job # js) st s'"
      using j(3) by (intro staged_by.Stage [where ?st1.0 = ?s]) (simp_all add: record_salt_def)
    with 1(2) j rec show ?thesis by (subst (asm) topup_plain.simps) (simp add: Let_def)
  next
    case False
    with 1(2) have "jobs = []" "st' = st"
      by (subst (asm) topup_plain.simps, auto simp: Let_def split: if_splits sum.splits prod.splits bool.splits dest: stage_on_refused)+
    then show ?thesis by (simp add: staged_by.Full)
  qed
qed

lemma topup_lease_staged:
  "topup_lease identity snap g m salts ctr st = (jobs, ctr', st') \<Longrightarrow> staged_by m jobs st st'"
proof (induction identity snap g m salts ctr st arbitrary: jobs ctr' st' rule: topup_lease.induct)
  case (1 identity snap g m salts ctr st)
  let ?job = "build_lease_job snap identity (sat_add_u64 ctr 1) salts g"
  show ?case
  proof (cases "staged_len (cs_router st) m < LEASE_STAGE_DEPTH \<and> (\<exists>r. stage_on m ?job (cs_router st) = (True, r))")
    case True
    then obtain r where j: "staged_len (cs_router st) m < LEASE_STAGE_DEPTH" "stage_on m ?job (cs_router st) = (True, r)" by blast
    let ?s = "st\<lparr>cs_router := r\<rparr>"
    obtain js c' s' where rec: "topup_lease identity snap g m salts (sat_add_u64 (sat_add_u64 ctr 1) (salts - 1)) ?s = (js, c', s')"
      by (metis prod_cases3)
    have "staged_by m js ?s s'" using "1.IH" [OF j(1) refl refl j(2) [symmetric] refl rec] .
    then have "staged_by m (?job # js) st s'"
      using j(2) by (intro staged_by.Stage [where ?st1.0 = ?s]) simp_all
    with 1(2) j rec show ?thesis by (subst (asm) topup_lease.simps) (simp add: Let_def)
  next
    case False
    with 1(2) have "jobs = []" "st' = st"
      by (subst (asm) topup_lease.simps, auto simp: Let_def split: if_splits prod.splits bool.splits dest: stage_on_refused)+
    then show ?thesis by (simp add: staged_by.Full)
  qed
qed

text \<open>Staging is a run of the ledger when the ids are new.\<close>

lemma staged_by_run:
  "staged_by m jobs st st' \<Longrightarrow> session_wf st \<Longrightarrow> distinct (map jb_job_id jobs) \<Longrightarrow>
     (\<forall>j \<in> set jobs. fresh_id (jb_job_id j) st) \<Longrightarrow> session_run x st jobs [] st'"
proof (induction rule: staged_by.induct)
  case (Full st)
  show ?case by (rule session_run.Done)
next
  case (Stage job st st1 jobs st')
  let ?s = "st\<lparr>cs_router := cs_router st1\<rparr>"
  have step: "session_run x st [job] [] ?s"
    using Stage by (intro session_run_one session_step.Staging) auto
  have led: "session_wf ?s" "live_jobs ?s = add_mset job (live_jobs st)"
    using session_run_ledger [OF step Stage.prems(1)] by simp_all
  have eq: "session_run x ?s [] [] st1" using led(1) Stage.hyps by (intro bookkeeping) simp_all
  have w1: "session_wf st1" by (rule session_run_wf [OF eq led(1)])
  have "live_jobs st1 = live_jobs ?s" using Stage.hyps by (simp add: live_jobs_def inflight_jobs_def)
  with led(2) Stage.prems(2,3) have "\<forall>j \<in> set jobs. fresh_id (jb_job_id j) st1"
    by (auto simp: fresh_id_def image_iff)
  with Stage.IH w1 Stage.prems(2) have "session_run x st1 jobs [] st'" by simp
  from session_run_trans [OF this session_run_trans [OF eq step]] show ?case by simp
qed

lemma staged_by_queue:
  "staged_by m jobs st st' \<Longrightarrow>
     staged_len (cs_router st') m = staged_len (cs_router st) m + length jobs
     \<and> (\<forall>m'. m' \<noteq> m \<longrightarrow> miner (cs_router st') m' = miner (cs_router st) m')
     \<and> map_option mq_staged (miner (cs_router st') m) = map_option (\<lambda>q. mq_staged q @ jobs) (miner (cs_router st) m)"
proof (induction rule: staged_by.induct)
  case (Full st)
  show ?case by (cases "miner (cs_router st) m") simp_all
next
  case (Stage job st st1 jobs st')
  have "\<exists>q. miner (cs_router st) m = Some q \<and> cs_router st1 = modify_miner m (push_back job) (cs_router st)"
    using Stage.hyps(1) by (auto simp: stage_on_def split: if_splits option.splits)
  then obtain q where q: "miner (cs_router st) m = Some q" "cs_router st1 = modify_miner m (push_back job) (cs_router st)" by blast
  then have "miner (cs_router st1) m = Some (push_back job q)" "\<forall>m'. m' \<noteq> m \<longrightarrow> miner (cs_router st1) m' = miner (cs_router st) m'"
    by simp_all
  with Stage.IH q stage_on_staged_len [OF Stage.hyps(1)] show ?case by simp
qed

definition drawn :: "FeedCrate \<Rightarrow> bytes \<Rightarrow> MiningSnapshot \<Rightarrow> nat \<Rightarrow> nat \<Rightarrow> string + Job" where
  "drawn C identity snap g k =
     derive_pow_job (fx_derive_nonce C) (fx_encode_i32 C) (fx_draw C) snap identity (salt_from_counter k) g 0"

text \<open>Which jobs a plain top-up stages: the draws of consecutive salts, until the window is full or a draw does not fit.\<close>

lemma topup_plain_draws:
  "topup_plain C identity snap g m depth ctr st = (jobs, ctr', st') \<Longrightarrow>
     ctr + (depth - staged_len (cs_router st) m) \<le> u64_max \<Longrightarrow>
     length jobs \<le> depth - staged_len (cs_router st) m
     \<and> map (drawn C identity snap g) [Suc ctr..<Suc ctr + length jobs] = map Inr jobs
     \<and> cs_salts st' = fold (\<lambda>(k, j). hm_insert (jb_job_id j) (salt_from_counter k)) (zip [Suc ctr..<Suc ctr + length jobs] jobs) (cs_salts st)
     \<and> (depth \<le> staged_len (cs_router st') m
         \<or> (case drawn C identity snap g (min (Suc (ctr + length jobs)) u64_max) of
              Inl _ \<Rightarrow> True | Inr job \<Rightarrow> \<not> fst (stage_on m job (cs_router st'))))"
proof (induction C identity snap g m depth ctr st arbitrary: jobs ctr' st' rule: topup_plain.induct)
  case (1 C identity snap g m depth ctr st)
  let ?c = "sat_add_u64 ctr 1"
  let ?d = "drawn C identity snap g ?c"
  show ?case
  proof (cases "staged_len (cs_router st) m < depth \<and> (\<exists>job r. ?d = Inr job \<and> stage_on m job (cs_router st) = (True, r))")
    case True
    then obtain job r where j: "staged_len (cs_router st) m < depth" "?d = Inr job" "stage_on m job (cs_router st) = (True, r)" by blast
    have c: "?c = Suc ctr" using "1.prems"(2) j(1) by (simp add: sat_add_u64_def)
    let ?s = "record_salt (jb_job_id job) (salt_from_counter ?c) (st\<lparr>cs_router := r\<rparr>)"
    obtain js c' s' where rec: "topup_plain C identity snap g m depth ?c ?s = (js, c', s')" by (metis prod_cases3)
    have out: "jobs = job # js" "st' = s'"
      using "1.prems"(1) j rec by (subst (asm) topup_plain.simps, simp add: Let_def drawn_def)+
    have len: "staged_len (cs_router ?s) m = Suc (staged_len (cs_router st) m)"
      using stage_on_staged_len [OF j(3)] by (simp add: record_salt_def)
    have "?c + (depth - staged_len (cs_router ?s) m) \<le> u64_max" using "1.prems"(2) j(1) c len by simp
    from "1.IH" [OF j(1) refl refl j(2) [unfolded drawn_def] j(3) [symmetric] refl rec this]
    have ih: "length js \<le> depth - Suc (staged_len (cs_router st) m)"
      "map (drawn C identity snap g) [Suc ?c..<Suc ?c + length js] = map Inr js"
      "cs_salts s' = fold (\<lambda>(k, j). hm_insert (jb_job_id j) (salt_from_counter k)) (zip [Suc ?c..<Suc ?c + length js] js) (cs_salts ?s)"
      "depth \<le> staged_len (cs_router s') m
         \<or> (case drawn C identity snap g (min (Suc (?c + length js)) u64_max) of
              Inl _ \<Rightarrow> True | Inr job \<Rightarrow> \<not> fst (stage_on m job (cs_router s')))"
      unfolding len by blast+
    have up: "[Suc ctr..<Suc ctr + length jobs] = Suc ctr # [Suc (Suc ctr)..<Suc (Suc ctr) + length js]"
      unfolding out by (simp add: upt_conv_Cons del: upt_Suc)
    show ?thesis
      unfolding up using ih [unfolded c] j(1) j(2) [unfolded c] out
      by (auto simp: record_salt_def c simp del: upt_Suc)
  next
    case False
    then have out: "jobs = []" "st' = st"
      using "1.prems"(1)
      by (subst (asm) topup_plain.simps, auto simp: Let_def drawn_def split: if_splits sum.splits prod.splits bool.splits dest: stage_on_refused)+
    have "?c = min (Suc ctr) u64_max" by (simp add: sat_add_u64_def)
    with False out show ?thesis by (auto split: sum.splits) (metis (full_types) prod.collapse)
  qed
qed

lemma topup_lease_bound:
  "topup_lease identity snap g m salts ctr st = (jobs, ctr', st') \<Longrightarrow>
     length jobs \<le> LEASE_STAGE_DEPTH - staged_len (cs_router st) m"
proof (induction identity snap g m salts ctr st arbitrary: jobs ctr' st' rule: topup_lease.induct)
  case (1 identity snap g m salts ctr st)
  let ?job = "build_lease_job snap identity (sat_add_u64 ctr 1) salts g"
  show ?case
  proof (cases "staged_len (cs_router st) m < LEASE_STAGE_DEPTH \<and> (\<exists>r. stage_on m ?job (cs_router st) = (True, r))")
    case True
    then obtain r where j: "staged_len (cs_router st) m < LEASE_STAGE_DEPTH" "stage_on m ?job (cs_router st) = (True, r)" by blast
    obtain js c' s' where rec: "topup_lease identity snap g m salts (sat_add_u64 (sat_add_u64 ctr 1) (salts - 1)) (st\<lparr>cs_router := r\<rparr>) = (js, c', s')"
      by (metis prod_cases3)
    have "jobs = ?job # js" using 1(2) j rec by (subst (asm) topup_lease.simps) (simp add: Let_def)
    with "1.IH" [OF j(1) refl refl j(2) [symmetric] refl rec] j(1) stage_on_staged_len [OF j(2)] show ?thesis by simp
  next
    case False
    with 1(2) have "jobs = []"
      by (subst (asm) topup_lease.simps, auto simp: Let_def split: if_splits prod.splits bool.splits)
    then show ?thesis by simp
  qed
qed

text \<open>
  A top-up fills the window and no more, with fresh draws: while the salt counter is below its maximum, the jobs
  staged are the model draws of the next salts in order, appended to the queue in that order; each job's salt
  is recorded under its id; no other queue changes; and the loop stops when the window is full, or at
  the first salt whose draw fails or whose job the miner cannot take.
\<close>
theorem topup_fills_window:
  assumes "topup_plain C identity snap g m depth ctr st = (jobs, ctr', st')" "ctr + depth \<le> u64_max"
  shows "map (drawn C identity snap g) [Suc ctr..<Suc ctr + length jobs] = map Inr jobs
    \<and> map_option mq_staged (miner (cs_router st') m) = map_option (\<lambda>q. mq_staged q @ jobs) (miner (cs_router st) m)
    \<and> (\<forall>m'. m' \<noteq> m \<longrightarrow> miner (cs_router st') m' = miner (cs_router st) m')
    \<and> staged_len (cs_router st') m \<le> max depth (staged_len (cs_router st) m)
    \<and> cs_salts st' = fold (\<lambda>(k, j). hm_insert (jb_job_id j) (salt_from_counter k)) (zip [Suc ctr..<Suc ctr + length jobs] jobs) (cs_salts st)
    \<and> (depth \<le> staged_len (cs_router st') m
        \<or> (case drawn C identity snap g (min (Suc (ctr + length jobs)) u64_max) of
             Inl _ \<Rightarrow> True | Inr job \<Rightarrow> \<not> fst (stage_on m job (cs_router st'))))"
proof -
  have "ctr + (depth - staged_len (cs_router st) m) \<le> u64_max" using assms(2) by simp
  note d = topup_plain_draws [OF assms(1) this] and q = staged_by_queue [OF topup_plain_staged [OF assms(1)]]
  have "staged_len (cs_router st') m \<le> max depth (staged_len (cs_router st) m)" using d q by linarith
  with d q show ?thesis by blast
qed

definition demo_feed :: FeedCrate where
  "demo_feed = \<lparr> fx_derive_nonce = (\<lambda>r i s. s), fx_encode_i32 = (\<lambda>_. []), fx_draw = (\<lambda>_ n e _ _. Inr (replicate n 0, replicate e 0)),
     fx_exp = (\<lambda>a. a), fx_topology_hash = (\<lambda>_ _ _ _ _. []) \<rparr>"

definition demo_state :: "unit CoordinatorState" where
  "demo_state = new_state\<lparr>cs_router := ex_router\<rparr>"

theorem topup_fills_window_witness:
  "\<exists>jobs ctr' st'. topup_plain demo_feed [] demo_snapshot 5 ''a'' 3 0 demo_state = (jobs, ctr', st')
     \<and> map (drawn demo_feed [] demo_snapshot 5) [1..<1 + length jobs] = map Inr jobs
     \<and> staged_len (cs_router st') ''a'' \<le> 3"
proof -
  obtain jobs ctr' st' where run: "topup_plain demo_feed [] demo_snapshot 5 ''a'' 3 0 demo_state = (jobs, ctr', st')"
    by (metis prod_cases3)
  have "staged_len (cs_router demo_state) ''a'' = 2"
    by (simp add: demo_state_def staged_len_def ex_router_miner ex_queue_def)
  with topup_fills_window [OF run] run show ?thesis by auto
qed

subsection \<open>The staging section\<close>

text \<open>The largest queue a poll builds: the lease depth, the configured floor, or what fits the byte budget.\<close>

definition stage_bound :: "FeederParams \<Rightarrow> MiningSnapshot \<Rightarrow> nat" where
  "stage_bound params snap = max LEASE_STAGE_DEPTH
     (stage_ceiling (length (ms_nodes snap)) (length (ms_edges snap)) (fd_buffer_depth params))"

lemma topup_plain_bound:
  "topup_plain C identity snap g m depth ctr st = (jobs, ctr', st') \<Longrightarrow>
     length jobs \<le> depth - staged_len (cs_router st) m"
proof (induction C identity snap g m depth ctr st arbitrary: jobs ctr' st' rule: topup_plain.induct)
  case (1 C identity snap g m depth ctr st)
  let ?c = "sat_add_u64 ctr 1"
  let ?d = "drawn C identity snap g ?c"
  show ?case
  proof (cases "staged_len (cs_router st) m < depth \<and> (\<exists>job r. ?d = Inr job \<and> stage_on m job (cs_router st) = (True, r))")
    case True
    then obtain job r where j: "staged_len (cs_router st) m < depth" "?d = Inr job" "stage_on m job (cs_router st) = (True, r)" by blast
    let ?s = "record_salt (jb_job_id job) (salt_from_counter ?c) (st\<lparr>cs_router := r\<rparr>)"
    obtain js c' s' where rec: "topup_plain C identity snap g m depth ?c ?s = (js, c', s')" by (metis prod_cases3)
    have "jobs = job # js" using 1(2) j rec by (subst (asm) topup_plain.simps) (simp add: Let_def drawn_def)
    with "1.IH" [OF j(1) refl refl j(2) [unfolded drawn_def] j(3) [symmetric] refl rec] j(1) stage_on_staged_len [OF j(3)]
    show ?thesis by (simp add: record_salt_def)
  next
    case False
    with 1(2) have "jobs = []"
      by (subst (asm) topup_plain.simps, auto simp: Let_def drawn_def split: if_splits sum.splits prod.splits bool.splits)
    then show ?thesis by simp
  qed
qed

text \<open>One turn of the loop over miners: counters are read, then jobs are staged on that miner within the bound.\<close>

lemma staged_len_counters:
  "staged_len (snd (take_consumed m r)) m' = staged_len r m'" "staged_len (snd (take_lease_salts m r)) m' = staged_len r m'"
  by (auto simp: staged_len_def take_consumed_def take_lease_salts_def modify_miner_def hm.get_upd split: option.splits)

lemma topup_miner_step:
  assumes "topup_miner C params snap rs m (staged, outs, fv, st) = (staged', outs', fv', st')" "session_wf st"
  obtains jobs st1 where "staged' = staged @ jobs" "session_run x st [] [] st1" "staged_by m jobs st1 st'"
    "\<And>m'. staged_len (cs_router st1) m' = staged_len (cs_router st) m'"
    "length jobs \<le> stage_bound params snap - staged_len (cs_router st) m" "fv_generation fv' = fv_generation fv"
proof -
  let ?r1 = "snd (take_consumed m (cs_router st))"
  let ?s1 = "st\<lparr>cs_router := ?r1\<rparr>"
  have rw: "router_wf (cs_router st)" using assms(2) by (simp add: session_wf_def)
  note c1 = counter_ops(3,4) [OF rw, of m]
  have run1: "session_run x st [] [] ?s1" by (rule bookkeeping_router [OF assms(2) c1])
  define e where "e = next_ema (hm_get (fv_consumption_ema fv) m) (fst (take_consumed m (cs_router st)))"
  show thesis
  proof (cases "keep_if accepts_leases (router_caps ?r1 m)")
    case None
    let ?depth = "min (adaptive_depth e (fd_buffer_depth params))
      (stage_ceiling (length (ms_nodes snap)) (length (ms_edges snap)) (fd_buffer_depth params))"
    obtain jobs c s where t: "topup_plain C (fd_miner_identity params) snap (fv_generation fv) m ?depth (fv_salt_ctr fv) ?s1 = (jobs, c, s)"
      by (metis prod_cases3)
    have out: "staged' = staged @ jobs" "st' = s" "fv_generation fv' = fv_generation fv"
      using assms(1) None t by (auto simp: topup_miner_def split_def Let_def e_def)
    have "length jobs \<le> ?depth - staged_len (cs_router st) m"
      using topup_plain_bound [OF t] by (simp add: staged_len_counters)
    then have "length jobs \<le> stage_bound params snap - staged_len (cs_router st) m" by (simp add: stage_bound_def)
    with that [OF out(1) run1] topup_plain_staged [OF t] out(2,3) show ?thesis by (simp add: staged_len_counters)
  next
    case (Some caps)
    let ?r2 = "snd (take_lease_salts m ?r1)"
    let ?s2 = "?s1\<lparr>cs_router := ?r2\<rparr>"
    have w1: "session_wf ?s1" by (rule session_run_wf [OF run1 assms(2)])
    have "session_run x ?s1 [] [] ?s2"
      using counter_ops(5,6) [OF c1(1), of m] by (intro bookkeeping_router [OF w1]) simp_all
    then have run2: "session_run x st [] [] ?s2" using session_run_trans [OF _ run1] by force
    obtain rate rates where rt: "next_rate (fx_exp C) (fst (take_lease_salts m ?r1)) rs m (fv_salt_rates fv) = (rate, rates)"
      by (metis surj_pair)
    obtain jobs c s where t: "topup_lease (fd_miner_identity params) snap (fv_generation fv) m
        (lease_salt_count rate (mc_stream_width caps)) (fv_salt_ctr fv) ?s2 = (jobs, c, s)" by (metis prod_cases3)
    have out: "staged' = staged @ jobs" "st' = s" "fv_generation fv' = fv_generation fv"
      using assms(1) Some t rt by (auto simp: topup_miner_def split_def Let_def)
    have "length jobs \<le> LEASE_STAGE_DEPTH - staged_len (cs_router st) m"
      using topup_lease_bound [OF t] by (simp add: staged_len_counters)
    then have "length jobs \<le> stage_bound params snap - staged_len (cs_router st) m" by (simp add: stage_bound_def)
    with that [OF out(1) run2] topup_lease_staged [OF t] out(2,3) show ?thesis by (simp add: staged_len_counters)
  qed
qed

lemma topup_miner_prefix:
  "\<exists>jobs. fst (topup_miner C params snap rs m acc) = fst acc @ jobs"
  by (cases acc) (auto simp: topup_miner_def split_def Let_def split: option.splits)

lemma topup_fold_prefix:
  "\<exists>jobs. fst (fold (topup_miner C params snap rs) ms acc) = fst acc @ jobs"
proof (induction ms arbitrary: acc)
  case (Cons m ms)
  show ?case
    using Cons.IH [of "topup_miner C params snap rs m acc"] topup_miner_prefix [of C params snap rs m acc] by auto
qed simp

lemma topup_fold_run:
  assumes "fold (topup_miner C params snap rs) ms (staged, outs, fv, st) = (staged @ jobs, outs', fv', st')" "session_wf st"
    "distinct (map jb_job_id jobs)" "\<forall>j \<in> set jobs. fresh_id (jb_job_id j) st"
  shows "session_run x st jobs [] st'
    \<and> (\<forall>m. staged_len (cs_router st') m \<le> max (stage_bound params snap) (staged_len (cs_router st) m))"
  using assms
proof (induction ms arbitrary: staged outs fv st jobs)
  case Nil
  then show ?case by (simp add: session_run.Done)
next
  case (Cons m ms)
  obtain staged1 outs1 fv1 st1 where t: "topup_miner C params snap rs m (staged, outs, fv, st) = (staged1, outs1, fv1, st1)"
    by (metis prod_cases4)
  from topup_miner_step [OF t Cons.prems(2), of x] obtain js st0 where
    s: "staged1 = staged @ js" "session_run x st [] [] st0" "staged_by m js st0 st1"
      "\<And>m'. staged_len (cs_router st0) m' = staged_len (cs_router st) m'"
      "length js \<le> stage_bound params snap - staged_len (cs_router st) m" by metis
  have rest: "fold (topup_miner C params snap rs) ms (staged1, outs1, fv1, st1) = (staged @ jobs, outs', fv', st')"
    using Cons.prems(1) t by simp
  from topup_fold_prefix [of C params snap rs ms "(staged1, outs1, fv1, st1)"] rest s(1)
  obtain js' where jobs: "jobs = js @ js'" by auto
  have w0: "session_wf st0" "live_jobs st0 = live_jobs st"
    using session_run_ledger [OF s(2) Cons.prems(2)] by simp_all
  have run1: "session_run x st0 js [] st1"
    using Cons.prems(3,4) jobs w0(2) by (intro staged_by_run [OF s(3) w0(1)]) (auto simp: fresh_id_def)
  have w1: "session_wf st1" "live_jobs st1 = live_jobs st + mset js"
    using session_run_ledger [OF run1 w0(1)] w0(2) by simp_all
  have fresh: "\<forall>j \<in> set js'. fresh_id (jb_job_id j) st1"
    using Cons.prems(3,4) jobs w1(2) by (auto simp: fresh_id_def)
  have "session_run x st1 js' [] st' \<and> (\<forall>m. staged_len (cs_router st') m \<le> max (stage_bound params snap) (staged_len (cs_router st1) m))"
    using Cons.IH [of staged1 outs1 fv1 st1 js'] rest s(1) jobs w1(1) fresh Cons.prems(3) by simp
  moreover have "staged_len (cs_router st1) m' \<le> max (stage_bound params snap) (staged_len (cs_router st) m')" for m'
  proof (cases "m' = m")
    case True
    have "staged_len (cs_router st1) m = staged_len (cs_router st) m + length js"
      using staged_by_queue [OF s(3)] s(4) [of m] by simp
    with s(5) True show ?thesis unfolding max_def by auto
  next
    case False
    with staged_by_queue [OF s(3)] s(4) [of m'] show ?thesis by (simp add: staged_len_def)
  qed
  ultimately show ?case
    using session_run_trans [OF _ session_run_trans [OF run1 s(2)], of js' "[]" st'] jobs
    by (auto simp: le_max_iff_disj intro: order.trans)
qed

lemma due_improving_unsubmitted: "due_improving lg pw s b best = Some c \<Longrightarrow> \<not> ca_submitted c"
proof -
  assume "due_improving lg pw s b best = Some c"
  then have "find (is_due lg pw s b) (ws_candidates s) = Some c"
    by (auto simp: due_improving_def due_at_def split: option.splits if_splits)
  then have "is_due lg pw s b c" by (auto simp: find_Some_iff)
  then show ?thesis by (simp add: is_due_def)
qed

text \<open>
  C8. The staging section of a poll refines the job ledger. Started in a well-formed state, and provided the jobs it
  stages have pairwise different ids none of which is an id of a live job (a plain id is the nonce of
  a fresh salt, a lease id carries its first salt), its
  whole effect on the shared state, over all miners, leases and plain jobs, is a run of the ledger that enters
  exactly the jobs it reports and loses none; the state stays well-formed; the queues stay within the byte budget of
  the topology (or the configured floor, or the two staged leases); and a candidate it offers for submission is
  unsubmitted.
\<close>
theorem staging_refines_ledger:
  assumes "staging_section x C params env snap fv st = Some (due, jobs, outs, fv', st')" "session_wf st"
    "distinct (map jb_job_id jobs)" "\<forall>j \<in> set jobs. fresh_id (jb_job_id j) st"
  shows "session_run x st jobs [] st' \<and> live_jobs st' = live_jobs st + mset jobs \<and> session_wf st'
    \<and> (\<forall>m. staged_len (cs_router st') m \<le> max (stage_bound params snap) (staged_len (cs_router st) m))
    \<and> (\<forall>c. due = Some c \<longrightarrow> \<not> ca_submitted c)"
proof -
  let ?s = "st\<lparr>cs_target := Some (target_from_snapshot snap),
      cs_stash := snd (set_algorithm (for_spec_version (ms_spec_version snap)) (cs_stash st))\<rparr>"
  obtain js os v s where t: "topup_all C params snap (pe_rate_secs env) fv ?s = (js, os, v, s)"
    by (metis prod_cases4)
  from assms(1) t obtain timing where out: "jobs = js" "st' = s\<lparr>cs_timing := timing\<rparr>"
      "\<exists>b. due = due_improving (xt_log x) (xt_pow x) (cs_stash s) b (cs_current_best_milli s)"
    by (auto simp: staging_section_def Let_def split: option.splits)
  have w: "session_wf ?s" "live_jobs ?s = live_jobs st" using assms(2) by simp_all
  have run1: "session_run x st [] [] ?s" using assms(2) by (intro bookkeeping) simp_all
  have fold: "fold (topup_miner C params snap (pe_rate_secs env)) (miner_ids (cs_router ?s)) ([], [], fv, ?s) = ([] @ jobs, os, v, s)"
    using t out(1) by (simp add: topup_all_def)
  have fresh: "\<forall>j \<in> set jobs. fresh_id (jb_job_id j) ?s" using assms(4) w(2) by (simp add: fresh_id_def)
  from topup_fold_run [OF fold w(1) assms(3) fresh, of x] have
    run2: "session_run x ?s jobs [] s" and
    len: "\<forall>m. staged_len (cs_router s) m \<le> max (stage_bound params snap) (staged_len (cs_router st) m)" by simp_all
  have run3: "session_run x s [] [] st'"
    using session_run_wf [OF run2 w(1)] out(2) by (intro bookkeeping) simp_all
  have run: "session_run x st jobs [] st'"
    using session_run_trans [OF run3 session_run_trans [OF run2 run1]] by simp
  have "\<forall>c. due = Some c \<longrightarrow> \<not> ca_submitted c"
    using out(3) due_improving_unsubmitted by metis
  with run session_run_ledger [OF run assms(2)] len out(2) show ?thesis by simp
qed

definition demo_poll :: "(unit, unit) PollEnv" where
  "demo_poll = \<lparr> pe_snapshot = Inr (Some demo_snapshot), pe_miner_info = Inr None, pe_pending = Inr [], pe_pow = demo_crate,
     pe_walk = demo_walk, pe_qblock = Inr None, pe_decay = (\<lambda>_. Inr None), pe_latest = Inr None, pe_declare = (\<lambda>_. Inr Declared),
     pe_solver = Inr Registered, pe_orders = Inr [], pe_submit = (\<lambda>_. Inl ''down''), pe_rate_secs = Fin 1, pe_now_mono = Fin 0,
     pe_now_wall = Fin 0, pe_now_ms = 0, pe_others = (\<lambda>_ st. st) \<rparr>"

definition demo_vars :: FeederVars where
  "demo_vars = feeder_init demo_params \<lparr> la_descriptor_filed = False, la_miner_registered = False \<rparr> False"

text \<open>A fleet of one miner, and the jobs the demonstration crate draws for it.\<close>

definition fleet_router :: "RoutingTopology option \<Rightarrow> Job list \<Rightarrow> Router" where
  "fleet_router t js = \<lparr> rtr_miners = [(''a'', ex_queue ex_caps js 1)], rtr_topology = t, rtr_unroutable = [], rtr_drops = [] \<rparr>"

definition fleet_state :: "unit CoordinatorState" where
  "fleet_state = new_state\<lparr>cs_router := fleet_router None []\<rparr>"

definition fleet_job :: "nat \<Rightarrow> nat \<Rightarrow> Job" where
  "fleet_job g k = \<lparr> jb_job_id = salt_from_counter k, jb_kind = IsingSample, jb_generation = g, jb_deadline_ms = 0,
     jb_ising = Some (milli_problem (\<lambda>_. []) (Some (TopologyHash [7])) [0, 0] [0]),
     jb_provenance = Some \<lparr> pv_is_pow = True, pv_order_id = [] \<rparr>, jb_generator = None \<rparr>"

lemma fleet_drawn: "drawn demo_feed [] demo_snapshot g k = Inr (fleet_job g k)"
  by (simp add: drawn_def derive_pow_job_def demo_feed_def demo_snapshot_def build_ising_job_from_nonce_def fleet_job_def numeral_2_eq_2)

lemma fleet_stage: "stage_on ''a'' (fleet_job g k) (fleet_router t js) = (True, fleet_router t (js @ [fleet_job g k]))"
  by (simp add: stage_on_def is_capable_def capable_def native_compatible_def fleet_router_def fleet_job_def ex_queue_def
      ex_caps_def hm_get_def modify_miner_def hm_modify_def)

lemma fleet_counters:
  "staged_len (fleet_router t js) ''a'' = length js" "take_consumed ''a'' (fleet_router t js) = (0, fleet_router t js)"
  "keep_if accepts_leases (router_caps (fleet_router t js) ''a'') = None" "miner_ids (fleet_router t js) = [''a'']"
  by (simp_all add: staged_len_def take_consumed_def router_caps_def keep_if_def accepts_leases_def miner_ids_def hm_keys_def
      fleet_router_def hm_get_def modify_miner_def hm_modify_def ex_queue_def ex_caps_def)

lemma fleet_topup:
  assumes "cs_router st = fleet_router t []"
  shows "topup_plain demo_feed [] demo_snapshot g ''a'' 2 0 st = ([fleet_job g 1, fleet_job g 2], 2,
    record_salt (jb_job_id (fleet_job g 2)) (salt_from_counter 2) (record_salt (jb_job_id (fleet_job g 1)) (salt_from_counter 1) st)
      \<lparr>cs_router := fleet_router t [fleet_job g 1, fleet_job g 2]\<rparr>)"
  using fleet_drawn [of g, unfolded drawn_def] assms
  by (simp add: topup_plain.simps [of demo_feed "[]" demo_snapshot g "''a''" 2] Let_def fleet_counters fleet_stage record_salt_def
      sat_add_u64_def flip: One_nat_def numeral_2_eq_2)

lemma fleet_depth: "min (adaptive_depth (next_ema None 0) 2) (stage_ceiling 2 1 2) = 2"
  by (simp add: adaptive_depth_def stage_ceiling_def WINDOW_HEADROOM_def f_ceil_def f_rnd_def f_to_u64_def trunc_rat_def next_ema_def f_of_int_def)

lemma fleet_topup_all:
  assumes "cs_router st = fleet_router t []" "fv_consumption_ema fv = []" "fv_salt_ctr fv = 0"
  shows "\<exists>outs fv'. topup_all demo_feed demo_params demo_snapshot rs fv st = ([fleet_job (fv_generation fv) 1, fleet_job (fv_generation fv) 2], outs, fv',
    record_salt (jb_job_id (fleet_job (fv_generation fv) 2)) (salt_from_counter 2) (record_salt (jb_job_id (fleet_job (fv_generation fv) 1)) (salt_from_counter 1) st)
      \<lparr>cs_router := fleet_router t [fleet_job (fv_generation fv) 1, fleet_job (fv_generation fv) 2]\<rparr>)"
proof -
  have e: "hm_get (fv_consumption_ema fv) ''a'' = None" using assms by (simp add: hm_get_def)
  have d: "fd_buffer_depth demo_params = 2" "fd_miner_identity demo_params = []" "length (ms_nodes demo_snapshot) = 2" "length (ms_edges demo_snapshot) = 1"
    by (simp_all add: demo_params_def demo_snapshot_def)
  have s: "st\<lparr>cs_router := fleet_router t []\<rparr> = st" using assms(1) by simp
  show ?thesis
    unfolding topup_all_def assms(1) fleet_counters(4)
    by (simp add: topup_miner_def assms s fleet_counters e d fleet_depth [simplified d] fleet_topup [OF assms(1)] split_def Let_def del: One_nat_def)
qed


lemma fleet_wf: "session_wf fleet_state" "live_jobs fleet_state = {#}"
  by (simp_all add: fleet_state_def session_wf_def live_jobs_def router_jobs_def hm_total_def fleet_router_def router_wf_def hm_wf_def
      hm_get_def ex_queue_def queue_ok_def unique_ids_def new_state_def inflight_jobs_def hm_keys_def)

lemma fleet_ids: "jb_job_id (fleet_job g 1) \<noteq> jb_job_id (fleet_job g 2)"
proof -
  have "le_bytes 8 1 \<noteq> le_bytes 8 2" using le_bytes_inj [of 8 1 2] by auto
  then show ?thesis by (simp add: fleet_job_def salt_from_counter_def)
qed

lemma fleet_clock: "observe_head (ms_block_number demo_snapshot) (Fin 0) (Fin 0) (Fin 0) timing_with_defaults \<noteq> None"
  by (simp add: observe_head_def Let_def fold_interval_def timing_with_defaults_def new_timing_def f_clamp_def f_le_def)

theorem staging_refines_ledger_witness:
  "\<exists>due outs fv' st'. staging_section ex_externals demo_feed demo_params demo_poll demo_snapshot demo_vars fleet_state
       = Some (due, [fleet_job 0 1, fleet_job 0 2], outs, fv', st')
     \<and> live_jobs st' = {#fleet_job 0 1, fleet_job 0 2#}"
proof -
  let ?s = "fleet_state\<lparr>cs_target := Some (target_from_snapshot demo_snapshot),
      cs_stash := snd (set_algorithm (for_spec_version (ms_spec_version demo_snapshot)) (cs_stash fleet_state))\<rparr>"
  have g: "fv_generation demo_vars = 0" "fv_consumption_ema demo_vars = []" "fv_salt_ctr demo_vars = 0"
    by (simp_all add: demo_vars_def feeder_init_def)
  obtain outs v where t: "topup_all demo_feed demo_params demo_snapshot (Fin 1) demo_vars ?s = ([fleet_job 0 1, fleet_job 0 2], outs, v,
    record_salt (jb_job_id (fleet_job 0 2)) (salt_from_counter 2) (record_salt (jb_job_id (fleet_job 0 1)) (salt_from_counter 1) ?s)
      \<lparr>cs_router := fleet_router None [fleet_job 0 1, fleet_job 0 2]\<rparr>)"
    using fleet_topup_all [of ?s None demo_vars "Fin 1"] g by (auto simp: fleet_state_def)
  then obtain due st' where run: "staging_section ex_externals demo_feed demo_params demo_poll demo_snapshot demo_vars fleet_state
       = Some (due, [fleet_job 0 1, fleet_job 0 2], outs, v, st')"
    using fleet_clock by (auto simp: staging_section_def Let_def demo_poll_def record_salt_def fleet_state_def new_state_def)
  have "live_jobs st' = live_jobs fleet_state + mset [fleet_job 0 1, fleet_job 0 2]"
    using staging_refines_ledger [OF run fleet_wf(1)] fleet_ids [of 0] fleet_wf(2) by (simp add: fresh_id_def del: One_nat_def)
  with run fleet_wf(2) show ?thesis by auto
qed

subsection \<open>The gates of a mempool order\<close>

text \<open>
  The gates kept for a mempool order admit exactly the rows the pallet keeps: a row at the order's energy bound
  passes although the validator's comparison is strict. An order without a solution count gets two rows
  when it has a diversity bound, one otherwise.
\<close>
theorem order_gates_match_pallet:
  assumes "jo_min_energy_milli order = Some e" "e < i64_max"
  shows "admitted_rows (qg_min_energy_milli (order_gates order)) rows = filter (\<lambda>r. sr_energy_milli r \<le> e) rows
    \<and> qg_min_diversity_milli (order_gates order) = (case jo_min_diversity_milli order of None \<Rightarrow> 0 | Some d \<Rightarrow> d)
    \<and> (jo_min_solutions order = None \<longrightarrow>
         qg_min_solutions (order_gates order) = (if qg_min_diversity_milli (order_gates order) > 0 then 2 else 1))"
proof -
  have "min (e + 1) i64_max = e + 1" using assms(2) by simp
  moreover have "(\<lambda>r. sr_energy_milli r < e + 1) = (\<lambda>r. sr_energy_milli r \<le> e)" by auto
  ultimately show ?thesis using assms(1) by (auto simp: order_gates_def admitted_rows_def Let_def)
qed

definition demo_order :: JobOrder where
  "demo_order = \<lparr> jo_order_id = [1], jo_mode = OpenMode, jo_nodes = [], jo_edges = [], jo_h_milli = [], jo_j_milli = [],
     jo_min_energy_milli = Some (- 5), jo_min_diversity_milli = None, jo_min_solutions = None, jo_deadline_ms = 0 \<rparr>"

theorem order_gates_match_pallet_witness:
  "admitted_rows (qg_min_energy_milli (order_gates demo_order)) [\<lparr> sr_spins = [1], sr_energy_milli = - 5 \<rparr>]
     = [\<lparr> sr_spins = [1], sr_energy_milli = - 5 \<rparr>]"
proof -
  have "jo_min_energy_milli demo_order = Some (- 5)" "(- 5 :: int) < i64_max" by (simp_all add: demo_order_def)
  from order_gates_match_pallet [OF this, of "[\<lparr> sr_spins = [1], sr_energy_milli = - 5 \<rparr>]"] show ?thesis by simp
qed

subsection \<open>Win-time submission\<close>

lemma mark_first_marks:
  "c \<in> set cs \<Longrightarrow> ca_job_id c = i \<Longrightarrow> (\<exists>c' \<in> set (mark_first i cs). ca_job_id c' = i \<and> ca_submitted c')"
  by (induction cs) auto

text \<open>
  C12. A win-time submission is safe and bounded: the only proof a poll submits from the stash is that of the due
  candidate, its rows pass the chain's gates under the target just read, and it is submitted once; unless
  the chain was unreachable or asked for a retry below the limit, the candidate is marked submitted, and only a
  success changes the best energy.
\<close>
theorem win_submission_gated:
  assumes "submit_section x env snap due fv st = Some (outs, fv', st')"
  shows "(\<forall>p. WinSubmit p \<in> set outs \<longrightarrow> (\<exists>c check. due = Some c \<and> p = win_proof c
           \<and> check_proof_gates (xt_select x) (xt_diversity x) (ca_solutions c) (gates_from_target (Some (target_from_snapshot snap))) = Some check
           \<and> pg_accepted check))
    \<and> length (filter (\<lambda>o'. case o' of WinSubmit _ \<Rightarrow> True | _ \<Rightarrow> False) outs) \<le> 1
    \<and> (\<forall>c. due = Some c \<and> WinSubmit (win_proof c) \<in> set outs \<longrightarrow>
         (case pe_submit env (win_proof c) of
            Inl _ \<Rightarrow> st' = pe_others env 7 st
          | Inr r \<Rightarrow>
             let here = pe_others env 7 st; q = (case cs_qblock_id here of None \<Rightarrow> 0 | Some q \<Rightarrow> q) in
             if sb_action r = Retry \<and> fst (record_failure q (ca_job_id c) (fv_submit_ledger fv)) \<noteq> StopFatal then st' = here
             else cs_stash st' = mark_submitted (ca_job_id c) (cs_stash here)
               \<and> cs_current_best_milli st' = (if sb_action r = Success then Some (ca_best_energy_milli c) else cs_current_best_milli here)))"
  using assms
  by (auto simp: submit_section_def replay_gates_def settle_win_def Let_def split_def
      split: option.splits if_splits sum.splits SubmitAction.splits)

definition demo_candidate :: Candidate where
  "demo_candidate = \<lparr> ca_job_id = [4], ca_salt = None, ca_generation = 1, ca_best_energy_milli = - 2000, ca_diversity_milli = 0,
     ca_n_valid = 1, ca_solutions = [\<lparr> sr_spins = [1], sr_energy_milli = - 2000 \<rparr>], ca_is_pow = True, ca_order_id = [],
     ca_device_access_time_us = 0, ca_submitted = False \<rparr>"

theorem win_submission_gated_witness:
  "\<exists>outs fv' st'. submit_section ex_externals demo_poll (demo_snapshot\<lparr>ms_min_diversity_milli := 0\<rparr>) (Some demo_candidate) demo_vars new_state
       = Some (outs, fv', st') \<and> WinSubmit (win_proof demo_candidate) \<in> set outs \<and> st' = new_state"
proof -
  let ?snap = "demo_snapshot\<lparr>ms_min_diversity_milli := 0\<rparr>"
  have gate: "replay_gates ex_externals (target_from_snapshot ?snap) (Some demo_candidate) = Some (Some demo_candidate)"
    by (simp add: replay_gates_def target_from_snapshot_def demo_snapshot_def demo_candidate_def ex_externals_def
        check_proof_gates_def admitted_rows_def gates_from_target_def select_and_score_def pick_def)
  obtain outs fv' st' where run: "submit_section ex_externals demo_poll ?snap (Some demo_candidate) demo_vars new_state = Some (outs, fv', st')"
      "WinSubmit (win_proof demo_candidate) \<in> set outs"
    unfolding submit_section_def gate Let_def by (simp add: split_def)
  have env: "pe_submit demo_poll = (\<lambda>_. Inl ''down'')" "pe_others demo_poll 7 = (\<lambda>st. st)" by (simp_all add: demo_poll_def)
  from win_submission_gated [OF run(1), THEN conjunct2, THEN conjunct2, THEN spec, of demo_candidate] run(2)
  have "st' = new_state" by (simp add: env)
  with run show ?thesis by blast
qed

subsection \<open>The state of the loop across polls\<close>

text \<open>The fields that decide what a poll may do.\<close>

definition core :: "FeederVars \<Rightarrow> RoundState option \<times> bytes option \<times> nat \<times> ProcessLatches" where
  "core fv = (fv_round fv, fv_current_head fv, fv_generation fv, fv_latches fv)"

lemma core_topup_miner: "core (fst (snd (snd (topup_miner C params snap rs m acc)))) = core (fst (snd (snd acc)))"
  by (cases acc) (auto simp: topup_miner_def split_def Let_def core_def split: option.splits)

lemma core_topup_fold:
  "core (fst (snd (snd (fold (topup_miner C params snap rs) ms acc)))) = core (fst (snd (snd acc)))"
  by (induction ms arbitrary: acc) (simp_all add: core_topup_miner)

lemma core_sections:
  "core (snd (declare_if_mined env fv st)) = core fv"
  "staging_section x C params env snap fv st = Some (due, jobs, outs, fv', st') \<Longrightarrow> core fv' = core fv"
  "core (fst (snd (snd (mempool_section C env snap fv st)))) = core fv"
  "submit_section x env snap due fv st = Some (outs, fv', st') \<Longrightarrow> core fv' = core fv"
proof -
  show "core (snd (declare_if_mined env fv st)) = core fv"
    by (simp add: declare_if_mined_def split_def Let_def core_def)
  show "staging_section x C params env snap fv st = Some (due, jobs, outs, fv', st') \<Longrightarrow> core fv' = core fv"
    using core_topup_fold [of C params snap "pe_rate_secs env" _ "([], [], fv, _)"]
    by (auto simp: staging_section_def topup_all_def split_def Let_def split: option.splits)
  show "core (fst (snd (snd (mempool_section C env snap fv st)))) = core fv"
    by (simp add: mempool_section_def split_def Let_def core_def)
  show "submit_section x env snap due fv st = Some (outs, fv', st') \<Longrightarrow> core fv' = core fv"
    by (auto simp: submit_section_def split_def Let_def core_def split: option.splits)
qed

lemma core_mining_poll:
  assumes "mining_poll x C params env snap fv st = Again jobs outs fv' st'"
  shows "core fv' = core fv"
proof -
  obtain o1 v1 where d: "declare_if_mined env fv st = (o1, v1)" by fastforce
  define v2 where "v2 = (if fv_last_broadcast v1 \<noteq> Some (target_key (target_from_snapshot snap))
    then v1\<lparr>fv_last_broadcast := Some (target_key (target_from_snapshot snap))\<rparr> else v1)"
  obtain due j1 o3 v3 s3 where s: "staging_section x C params env snap v2 (pe_others env 5 st) = Some (due, j1, o3, v3, s3)"
    using assms d by (auto simp: mining_poll_def v2_def Let_def split: option.splits if_splits)
  obtain j2 o4 v4 s4 where m: "mempool_section C env snap v3 s3 = (j2, o4, v4, s4)" by (metis prod_cases4)
  obtain o5 v5 s5 where w: "submit_section x env snap due v4 s4 = Some (o5, v5, s5)" "fv' = v5"
    using assms d s m by (auto simp: mining_poll_def v2_def Let_def split: option.splits if_splits)
  have "core v2 = core v1" by (simp add: v2_def core_def)
  then show ?thesis
    using core_sections(1) [of env fv st] core_sections(2) [OF s] core_sections(3) [of C env snap v3 s3] core_sections(4) [OF w(1)] d m w(2)
    by simp
qed

lemma core_event:
  "core (snd (snd (scan_pool env snap fv))) = core fv"
  "core (snd (snd (poll_event snap clearing observed fv))) = core fv"
  "core (fst (observe_chain env snap fv st)) = core fv"
  by (auto simp: scan_pool_def poll_event_def observe_chain_def split_def Let_def core_def split: sum.splits option.splits)

lemma reseed_core:
  "core (fst (snd (reseed x C env snap fv st))) = (fv_round fv, Some (ms_last_proof_block_hash snap), fv_generation fv, fv_latches fv)"
  by (simp add: reseed_def split_def Let_def core_def)

lemma stop_for_win_core:
  "fv_round fv = Some StartMining \<Longrightarrow>
     core (fst (snd (stop_for_win env snap fv st))) = (Some AwaitingQBlock, fv_current_head fv, sat_add_u64 (fv_generation fv) 1, fv_latches fv)"
  by (auto simp: stop_for_win_def split_def Let_def core_def)

text \<open>Broadcasts, wake-ups and declarations are not submissions.\<close>

definition submits :: "FeedOut list \<Rightarrow> bool" where
  "submits outs \<longleftrightarrow> (\<exists>p. WinSubmit p \<in> set outs)"

lemma no_submits:
  "\<not> submits (feed_broadcast msg st)" "\<not> submits (fst (stop_for_win env snap fv st))" "\<not> submits (fst (reseed x C env snap fv st))"
  by (auto simp: submits_def feed_broadcast_def stop_for_win_def reseed_def broadcast_cancel_def broadcast_topology_def
      broadcast_set_target_def split_def Let_def)

lemma settled_poll_core:
  assumes "settled_poll x C params env snap clearing outs0 fv st = Again jobs outs fv' st'" "fv_round fv \<in> {Some StartMining, Some AwaitingQBlock}"
    "\<not> submits outs0"
  shows "fv_current_head fv' = fv_current_head fv \<and> fv_latches fv' = fv_latches fv
    \<and> fv_generation fv' \<in> {fv_generation fv, sat_add_u64 (fv_generation fv) 1}
    \<and> fv_round fv' \<in> {Some StartMining, Some AwaitingQBlock}
    \<and> (fv_round fv' = Some AwaitingQBlock \<longrightarrow> jobs = [] \<and> \<not> submits outs)"
proof -
  obtain o1 v1 s1 where t: "(if fv_round fv = Some StartMining \<and> clearing \<noteq> None then stop_for_win env snap fv st else ([], fv, st)) = (o1, v1, s1)"
    by (metis prod_cases3)
  have c: "core v1 = core fv \<or> fv_round fv = Some StartMining \<and> core v1 = (Some AwaitingQBlock, fv_current_head fv, sat_add_u64 (fv_generation fv) 1, fv_latches fv)"
    using t stop_for_win_core [of fv env snap st] by (auto split: if_splits)
  have ns: "\<not> submits o1" using t no_submits(2) [of env snap fv st] by (auto simp: submits_def split: if_splits)
  show ?thesis
  proof (cases "fv_round v1 = Some AwaitingQBlock")
    case True
    with assms(1) t have "fv' = v1" "jobs = []" "outs = outs0 @ o1" by (auto simp: settled_poll_def)
    with c assms(2,3) ns True show ?thesis by (auto simp: core_def submits_def)
  next
    case False
    then obtain o2 where "mining_poll x C params env snap v1 s1 = Again jobs o2 fv' st'"
      using assms(1) t by (auto simp: settled_poll_def split: PollEnd.splits)
    from core_mining_poll [OF this] c False assms(2) show ?thesis by (auto simp: core_def)
  qed
qed

definition feeder_ok :: "FeederVars \<Rightarrow> bool" where
  "feeder_ok fv \<longleftrightarrow> (fv_round fv = None \<and> fv_current_head fv = None)
     \<or> (fv_round fv \<in> {Some StartMining, Some AwaitingQBlock} \<and> fv_current_head fv \<noteq> None)"

lemma poll_event_StopMining:
  assumes "poll_event snap clearing observed fv = (Some ev, clearing', fv')" "feeder_ok fv"
  shows "(case fv_round fv' of Some s \<Rightarrow> transition s ev | None \<Rightarrow> Some round_start) = Some StopMining"
proof -
  have "fv_round fv' = fv_round fv" using core_event(2) [of snap clearing observed fv] assms(1) by (simp add: core_def)
  moreover have "ev = NewHead \<or> ev = Resume \<and> fv_round fv = Some AwaitingQBlock"
    using assms(1) by (auto simp: poll_event_def Let_def split: if_splits prod.splits option.splits)
  ultimately show ?thesis using assms(2) by (auto simp: feeder_ok_def round_start_def split: option.splits)
qed

text \<open>
  C7. The polls follow the round machine: from a fresh feeder on, the loop is either before its first round, mining, or
  waiting for a quantum block; a poll that leaves it waiting stages nothing and submits nothing; generations never
  go back. The root it mines changes, or mining starts again on the same root, only in a poll that walked the whole
  ladder: in the passes of that poll's walk, one after the other, the sync wait returned, the account was funded to its
  floor, the registration was answered (unless the latch the feeder held before the poll already said so) and the
  chain returned the snapshot that names the new root; after the poll the feeder's own latches say registered and
  descriptor settled, and its generation is a new one while the counter has not reached its maximum.
\<close>
theorem polls_follow_round_machine:
  assumes "feeder_poll x C params env fv st = Again jobs outs fv' st'" "feeder_ok fv" "fv_generation fv \<le> u64_max"
  shows "feeder_ok fv' \<and> fv_generation fv \<le> fv_generation fv' \<and> fv_generation fv' \<le> u64_max
    \<and> (fv_round fv' \<noteq> Some StartMining \<longrightarrow> jobs = [] \<and> \<not> submits outs)
    \<and> (fv_current_head fv' \<noteq> fv_current_head fv \<or> fv_round fv \<noteq> Some StartMining \<and> fv_round fv' = Some StartMining \<longrightarrow>
        (\<exists>snap i. fv_current_head fv' = Some (ms_last_proof_block_hash snap)
           \<and> fetched_before (pe_walk env) params (la_miner_registered (fv_latches fv)) snap i)
        \<and> la_miner_registered (fv_latches fv') \<and> la_descriptor_filed (fv_latches fv')
        \<and> (fv_generation fv < u64_max \<longrightarrow> fv_generation fv < fv_generation fv'))"
proof (cases "\<exists>snap. pe_snapshot env = Inr (Some snap)")
  case False
  then have "fv' = fv" "jobs = []" "outs = []"
    using assms(1) by (auto simp: feeder_poll_def split: sum.splits option.splits)
  with assms(2,3) show ?thesis by (auto simp: submits_def)
next
  case True
  then obtain snap where snap: "pe_snapshot env = Inr (Some snap)" by blast
  obtain v0 s0 where v0: "observe_chain env snap fv (pe_others env 0 st) = (v0, s0)" by fastforce
  obtain cl ob v1 where v1: "scan_pool env snap v0 = (cl, ob, v1)" by (metis prod_cases3)
  obtain ev cl' v2 where v2: "poll_event snap cl ob v1 = (ev, cl', v2)" by (metis prod_cases3)
  have c1: "core v1 = core fv"
    using core_event(1) [of env snap v0] core_event(3) [of env snap fv "pe_others env 0 st"] v0 v1 by simp
  have c2: "core v2 = core fv" using core_event(2) [of snap cl ob v1] v2 c1 by simp
  have ok1: "feeder_ok v1" using assms(2) c1 by (simp add: feeder_ok_def core_def)
  note head = assms(1) [unfolded feeder_poll_def snap, simplified, unfolded v0, simplified, unfolded v1, simplified, unfolded v2, simplified]
  show ?thesis
  proof (cases ev)
    case None
    then have mined: "fv_round v2 \<in> {Some StartMining, Some AwaitingQBlock}" "fv_round v2 = Some AwaitingQBlock \<or> fv_round v2 = Some StartMining"
      using ok1 v2 c1 c2 by (auto simp: poll_event_def feeder_ok_def core_def split: if_splits)
    have run: "settled_poll x C params env snap cl' [] v2 s0 = Again jobs outs fv' st'" using head None by simp
    note s = settled_poll_core [OF run mined(1)]
    have "\<not> submits []" by (simp add: submits_def)
    note s = s [OF this]
    have wait: "fv_round fv \<noteq> Some StartMining \<and> fv_round fv' = Some StartMining \<Longrightarrow> False"
    proof -
      assume a: "fv_round fv \<noteq> Some StartMining \<and> fv_round fv' = Some StartMining"
      then have "fv_round v2 = Some AwaitingQBlock" using c2 mined by (simp add: core_def)
      then show False using run a by (auto simp: settled_poll_def)
    qed
    show ?thesis
      using s c2 assms(2,3) wait mined by (auto simp: core_def feeder_ok_def sat_add_u64_def)
  next
    case (Some e)
    have stop: "(case fv_round v2 of Some s \<Rightarrow> transition s e | None \<Rightarrow> Some round_start) = Some StopMining"
      by (rule poll_event_StopMining [OF v2 [unfolded Some] ok1])
    let ?v3 = "v2\<lparr>fv_generation := sat_add_u64 (fv_generation v2) 1\<rparr>"
    obtain fresh c t w where walk: "drive_to_mining StopMining (pe_walk env) params (fv_generation ?v3) (fv_latches ?v3) s0
        = Some (Some ((fresh, c, t), w))"
      using head Some stop by (auto split: option.splits)
    let ?v4 = "?v3\<lparr>fv_round := Some StartMining, fv_latches := wk_latches w\<rparr>"
    obtain o5 v5 s5 where r: "reseed x C env fresh ?v4 (wk_state w) = (o5, v5, s5)" by (metis prod_cases3)
    have run: "settled_poll x C params env fresh cl' o5 v5 s5 = Again jobs outs fv' st'"
      using head Some stop walk r by simp
    have c5: "core v5 = (Some StartMining, Some (ms_last_proof_block_hash fresh), sat_add_u64 (fv_generation v2) 1, wk_latches w)"
      using reseed_core [of x C env fresh ?v4 "wk_state w"] r by simp
    have "\<not> submits o5" using no_submits(3) [of x C env fresh ?v4 "wk_state w"] r by simp
    then have s: "fv_current_head fv' = fv_current_head v5 \<and> fv_latches fv' = fv_latches v5 \<and> fv_generation fv' \<in> {fv_generation v5, sat_add_u64 (fv_generation v5) 1}
        \<and> fv_round fv' \<in> {Some StartMining, Some AwaitingQBlock} \<and> (fv_round fv' = Some AwaitingQBlock \<longrightarrow> jobs = [] \<and> \<not> submits outs)"
      using c5 by (intro settled_poll_core [OF run]) (simp_all add: core_def)
    have latches: "la_miner_registered (wk_latches w) \<and> la_descriptor_filed (wk_latches w)"
      using drive_from_stop_ready [OF walk] by (simp add: walk_ready_def)
    have "fv_latches ?v3 = fv_latches fv" using c2 by (simp add: core_def)
    then have ordered: "\<exists>i. fetched_before (pe_walk env) params (la_miner_registered (fv_latches fv)) fresh i"
      using drive_from_stop_ordered [OF walk] by simp
    have g: "fv_generation fv \<le> fv_generation fv' \<and> fv_generation fv' \<le> u64_max
        \<and> (fv_generation fv < u64_max \<longrightarrow> fv_generation fv < fv_generation fv')"
      using s c5 c2 assms(3) by (auto simp: core_def sat_add_u64_def)
    have h: "fv_current_head fv' = Some (ms_last_proof_block_hash fresh)" "fv_latches fv' = wk_latches w"
      using s c5 by (simp_all add: core_def)
    have "feeder_ok fv'" using s h by (auto simp: feeder_ok_def)
    moreover have "fv_round fv' \<noteq> Some StartMining \<longrightarrow> jobs = [] \<and> \<not> submits outs" using s by auto
    moreover have "\<exists>snap i. fv_current_head fv' = Some (ms_last_proof_block_hash snap)
        \<and> fetched_before (pe_walk env) params (la_miner_registered (fv_latches fv)) snap i" using h(1) ordered by blast
    moreover have "la_miner_registered (fv_latches fv') \<and> la_descriptor_filed (fv_latches fv')" using h(2) latches by simp
    ultimately show ?thesis using g by blast
  qed
qed

text \<open>A chain that answers every step of the walk at once.\<close>

definition swift_walk :: "unit WalkEnv" where
  "swift_walk = demo_walk\<lparr>we_snapshot := \<lambda>_. Inr (Some demo_snapshot)\<rparr>"

definition swift_poll :: "(unit, unit) PollEnv" where
  "swift_poll = demo_poll\<lparr>pe_walk := swift_walk\<rparr>"

lemma swift_drive:
  "\<exists>c t. drive_to_mining StopMining swift_walk demo_params g latches st = Some (Some ((demo_snapshot, c, t),
     \<lparr> wk_machine = StartMining, wk_cancelled = c, wk_told = t, wk_snap = Some demo_snapshot,
       wk_latches = \<lparr> la_descriptor_filed = True, la_miner_registered = True \<rparr>, wk_state = snd (stop_mining g st) \<rparr>))"
proof -
  have "synced_at demo_walk 0" "funded_at demo_walk demo_params 6" using demo_walk_recovers by (simp_all add: recovers_def)
  then obtain so n b m s where sf: "wait_until_synced (we_sync demo_walk 0) = Some (so, n)"
      "ensure_funded (we_balance demo_walk 6) (map_option (\<lambda>f. f 6) (we_faucet demo_walk)) (fd_funding demo_params) = Some (Inr b, m, s)"
    by (auto simp: synced_at_def funded_at_def)
  have env: "we_sync swift_walk i = we_sync demo_walk 0" "we_balance swift_walk i = we_balance demo_walk 6"
      "map_option (\<lambda>f. f i) (we_faucet swift_walk) = map_option (\<lambda>f. f 6) (we_faucet demo_walk)"
      "\<not> we_stop swift_walk i" "we_snapshot swift_walk i = Inr (Some demo_snapshot)" "we_others swift_walk i x = x" for i x
    by (simp_all add: swift_walk_def demo_walk_def)
  have "we_register swift_walk i = (\<lambda>_. Inr Registered)" for i by (simp add: swift_walk_def demo_walk_def)
  then have reg: "register_round_miner (we_register swift_walk i) l = (True, True, if l then 0 else 1)" for i l
    by (simp add: register_round_miner_def SUBMIT_ATTEMPTS_def numeral_3_eq_3)
  have pass:
    "wk_machine w = ValidatorSynced \<Longrightarrow> walk_pass swift_walk demo_params g i w = PassEvent Succeeded w"
    "wk_machine w = AccountFunded \<Longrightarrow> walk_pass swift_walk demo_params g i w = PassEvent Succeeded w"
    "wk_machine w = MinerRegistered \<Longrightarrow> walk_pass swift_walk demo_params g i w
       = PassEvent Succeeded (w\<lparr>wk_latches := wk_latches w\<lparr>la_miner_registered := True\<rparr>\<rparr>)"
    "wk_machine w = RequirementsDownloaded \<Longrightarrow> walk_pass swift_walk demo_params g i w
       = PassEvent Succeeded (w\<lparr>wk_snap := Some demo_snapshot\<rparr>)"
    "wk_machine w = DescriptorFiled \<Longrightarrow> walk_pass swift_walk demo_params g i w
       = PassEvent Succeeded (w\<lparr>wk_latches := wk_latches w\<lparr>la_descriptor_filed := True\<rparr>\<rparr>)"
    "wk_machine w = StartMining \<Longrightarrow> walk_pass swift_walk demo_params g i w
       = PassDone (map_option (\<lambda>s. (s, wk_cancelled w, wk_told w)) (wk_snap w))" for i and w :: "unit Walk"
    using sf reg file_round_descriptor_latches(1) [of "we_descriptor swift_walk i" "we_ss58 swift_walk"]
    by (cases so; simp add: walk_pass_def env split_def Let_def)+
  have step: "walk_pass swift_walk demo_params g i w = PassEvent Succeeded w' \<Longrightarrow> transition (wk_machine w) Succeeded = Some s \<Longrightarrow>
      drive_loop swift_walk demo_params g i w = drive_loop swift_walk demo_params g (Suc i) (w'\<lparr>wk_machine := s\<rparr>)" for i w w' s
    by (subst drive_loop.simps) (simp add: env)
  have stop: "drive_loop swift_walk demo_params g i w = Some (map_option (\<lambda>d. ((d, wk_cancelled w, wk_told w), w)) (wk_snap w))"
    if "wk_machine w = StartMining" for i and w :: "unit Walk"
    using that by (subst drive_loop.simps) (simp add: pass option.map_comp comp_def)
  have first: "walk_pass swift_walk demo_params g i w = PassEvent Succeeded (w\<lparr>wk_cancelled := fst (stop_mining g (wk_state w)),
      wk_told := (if g > 1 then fst (broadcast_cancel (g - 1) (snd (stop_mining g (wk_state w)))) else 0),
      wk_state := snd (stop_mining g (wk_state w))\<rparr>)" if "wk_machine w = StopMining" for i and w :: "unit Walk"
    using that by (simp add: walk_pass_def split_def Let_def)
  show ?thesis
    unfolding drive_to_mining_def
    by (simp add: step [OF first] step [OF pass(1)] step [OF pass(2)] step [OF pass(3)] step [OF pass(4)] step [OF pass(5)] stop)
qed

text \<open>A shared state with that fleet, nothing queued, in flight or stashed, and no job of the round done.\<close>

definition idle_fleet :: "RoutingTopology option \<Rightarrow> unit CoordinatorState \<Rightarrow> bool" where
  "idle_fleet t st \<longleftrightarrow> cs_router st = fleet_router t [] \<and> cs_inflight st = [] \<and> cs_timing st = timing_with_defaults
     \<and> ws_candidates (cs_stash st) = [] \<and> cs_mined_generation st = None"

lemma fleet_router_idle:
  "cancel g (fleet_router t []) = (0, fleet_router t [])" "reset_round_salts (fleet_router t []) = fleet_router t []"
  "set_topology bl topo (fleet_router t []) = fleet_router (rtr_topology (set_topology bl topo (fleet_router t []))) []"
  by (simp_all add: cancel_def reset_round_salts_def set_topology_def fleet_router_def hm_map_values_def ex_queue_def Let_def
      split: option.splits)

lemma fleet_idle: "idle_fleet None (fleet_state\<lparr>cs_metrics := m\<rparr>)"
  by (simp add: idle_fleet_def fleet_state_def new_state_def new_stash_def)

lemma stop_idle: "idle_fleet t st \<Longrightarrow> idle_fleet t (snd (stop_mining g st))"
  by (simp add: idle_fleet_def stop_mining_def Let_def fleet_router_idle cancel_inflight_def clear_salts_def reset_stash_def)

lemma reseed_idle:
  assumes "idle_fleet t st"
  obtains outs st' t' where "reseed ex_externals demo_feed swift_poll demo_snapshot fv st
     = (outs, fv\<lparr>fv_last_broadcast := Some (target_key (target_from_snapshot demo_snapshot)), fv_current_head := Some []\<rparr>, st')"
    "idle_fleet t' st'"
proof -
  let ?r = "reseed ex_externals demo_feed swift_poll demo_snapshot fv st"
  have env: "pe_others swift_poll i s = s" "ms_last_proof_block_hash demo_snapshot = []" for i s
    by (simp_all add: swift_poll_def demo_poll_def demo_snapshot_def)
  have "fst (snd ?r) = fv\<lparr>fv_last_broadcast := Some (target_key (target_from_snapshot demo_snapshot)), fv_current_head := Some []\<rparr>"
    by (simp add: reseed_def Let_def split_def env)
  moreover have "idle_fleet (rtr_topology (cs_router (snd (snd ?r)))) (snd (snd ?r))"
    using assms fleet_router_idle(3)
    by (simp add: reseed_def Let_def split_def env idle_fleet_def state_set_topology_def reset_stash_def)
  ultimately show ?thesis by (intro that [of "fst ?r" "snd (snd ?r)"]) (simp_all add: prod_eq_iff)
qed

lemma mining_idle:
  assumes st: "idle_fleet t st" and fv: "fv_consumption_ema fv = []" "fv_salt_ctr fv = 0"
    "fv_last_broadcast fv = Some (target_key (target_from_snapshot demo_snapshot))"
  shows "\<exists>outs fv' st'. mining_poll ex_externals demo_feed demo_params swift_poll demo_snapshot fv st
     = Again [fleet_job (fv_generation fv) 1, fleet_job (fv_generation fv) 2] outs fv' st'"
proof -
  have env: "pe_others swift_poll i s = s" "pe_orders swift_poll = Inr []" "pe_now_wall swift_poll = Fin 0" "pe_now_mono swift_poll = Fin 0" for i s
    by (simp_all add: swift_poll_def demo_poll_def)
  let ?s = "st\<lparr>cs_target := Some (target_from_snapshot demo_snapshot),
      cs_stash := snd (set_algorithm (for_spec_version (ms_spec_version demo_snapshot)) (cs_stash st))\<rparr>"
  have "\<not> round_mined st" using st by (simp add: round_mined_def idle_fleet_def)
  then have d: "declare_if_mined swift_poll fv st = ([], fv)" by (simp add: declare_if_mined_def)
  have c: "ws_candidates (snd (set_algorithm a (cs_stash st))) = []" for a
    using st by (auto simp: idle_fleet_def set_algorithm_def Let_def split: option.splits if_splits)
  have "cs_router ?s = fleet_router t []" using st by (simp add: idle_fleet_def)
  from fleet_topup_all [OF this fv(1,2), of "pe_rate_secs swift_poll"] st fleet_clock c obtain outs v s where
    s: "staging_section ex_externals demo_feed demo_params swift_poll demo_snapshot fv st
       = Some (None, [fleet_job (fv_generation fv) 1, fleet_job (fv_generation fv) 2], outs, v, s)"
    by (auto simp: staging_section_def Let_def env idle_fleet_def record_salt_def due_improving_def due_at_def simp del: One_nat_def)
  have "fst (mempool_section demo_feed swift_poll demo_snapshot v s) = []"
    by (simp add: mempool_section_def stage_mempool_orders_def env Let_def split_def)
  then obtain o4 v4 s4 where m: "mempool_section demo_feed swift_poll demo_snapshot v s = ([], o4, v4, s4)"
    by (metis fst_conv prod_cases4)
  show ?thesis
    by (simp add: mining_poll_def d env fv(3) s m submit_section_def replay_gates_def Let_def del: One_nat_def)
qed

lemma swift_poll_mines:
  "\<exists>outs fv' st'. feeder_poll ex_externals demo_feed demo_params swift_poll demo_vars fleet_state
     = Again [fleet_job 1 1, fleet_job 1 2] outs fv' st' \<and> fv_current_head fv' = Some [] \<and> fv_round fv' = Some StartMining"
proof -
  have env: "pe_snapshot swift_poll = Inr (Some demo_snapshot)" "pe_walk swift_poll = swift_walk" "pe_others swift_poll i s = s" for i s
    by (simp_all add: swift_poll_def demo_poll_def)
  obtain m v where ob: "observe_chain swift_poll demo_snapshot demo_vars fleet_state = (demo_vars\<lparr>fv_last_block_number := v\<rparr>, fleet_state\<lparr>cs_metrics := m\<rparr>)"
    by (auto simp: observe_chain_def Let_def demo_vars_def feeder_init_def demo_snapshot_def)
  let ?v = "demo_vars\<lparr>fv_last_block_number := v\<rparr>"
  have v: "fv_current_head ?v = None" "fv_round ?v = None" "fv_generation ?v = 0" "fv_consumption_ema ?v = []" "fv_salt_ctr ?v = 0"
    by (simp_all add: demo_vars_def feeder_init_def)
  have ev: "scan_pool swift_poll demo_snapshot ?v = (None, ObsUnknown, ?v)" "poll_event demo_snapshot None ObsUnknown ?v = (Some NewHead, None, ?v)"
    using v by (simp_all add: scan_pool_def poll_event_def)
  let ?v1 = "?v\<lparr>fv_generation := 1\<rparr>"
  obtain c t where w: "drive_to_mining StopMining swift_walk demo_params 1 (fv_latches demo_vars) (fleet_state\<lparr>cs_metrics := m\<rparr>) = Some (Some ((demo_snapshot, c, t),
     \<lparr> wk_machine = StartMining, wk_cancelled = c, wk_told = t, wk_snap = Some demo_snapshot,
       wk_latches = \<lparr> la_descriptor_filed = True, la_miner_registered = True \<rparr>, wk_state = snd (stop_mining 1 (fleet_state\<lparr>cs_metrics := m\<rparr>)) \<rparr>))"
    using swift_drive by blast
  let ?v2 = "?v1\<lparr>fv_round := Some StartMining, fv_latches := \<lparr> la_descriptor_filed = True, la_miner_registered = True \<rparr>\<rparr>"
  obtain outs st' t' where r: "reseed ex_externals demo_feed swift_poll demo_snapshot ?v2 (snd (stop_mining 1 (fleet_state\<lparr>cs_metrics := m\<rparr>)))
     = (outs, ?v2\<lparr>fv_last_broadcast := Some (target_key (target_from_snapshot demo_snapshot)), fv_current_head := Some []\<rparr>, st')"
    "idle_fleet t' st'"
    by (rule reseed_idle [OF stop_idle [OF fleet_idle]])
  let ?v3 = "?v2\<lparr>fv_last_broadcast := Some (target_key (target_from_snapshot demo_snapshot)), fv_current_head := Some []\<rparr>"
  from mining_idle [OF r(2), of ?v3] v obtain o2 v4 s4 where
    mine: "mining_poll ex_externals demo_feed demo_params swift_poll demo_snapshot ?v3 st' = Again [fleet_job 1 1, fleet_job 1 2] o2 v4 s4"
    by auto
  have g: "sat_add_u64 0 1 = 1" by (simp add: sat_add_u64_def)
  have settled: "settled_poll ex_externals demo_feed demo_params swift_poll demo_snapshot None outs ?v3 st' = Again [fleet_job 1 1, fleet_job 1 2] (outs @ o2) v4 s4"
    by (simp add: settled_poll_def mine Let_def del: One_nat_def)
  have "fv_current_head v4 = Some []" "fv_round v4 = Some StartMining"
    using core_mining_poll [OF mine] by (simp_all add: core_def)
  moreover have "feeder_poll ex_externals demo_feed demo_params swift_poll demo_vars fleet_state
      = Again [fleet_job 1 1, fleet_job 1 2] (outs @ o2) v4 s4"
    unfolding feeder_poll_def env
    by (simp add: env ob ev v g w r(1) settled round_start_def Let_def del: One_nat_def)
  ultimately show ?thesis by blast
qed

theorem polls_follow_round_machine_witness:
  "\<exists>outs fv' st' snap i. feeder_poll ex_externals demo_feed demo_params swift_poll demo_vars fleet_state
       = Again [fleet_job 1 1, fleet_job 1 2] outs fv' st'
     \<and> fv_current_head demo_vars = None \<and> fv_current_head fv' = Some (ms_last_proof_block_hash snap)
     \<and> \<not> la_miner_registered (fv_latches demo_vars) \<and> \<not> la_descriptor_filed (fv_latches demo_vars)
     \<and> fetched_before swift_walk demo_params False snap i
     \<and> la_miner_registered (fv_latches fv') \<and> la_descriptor_filed (fv_latches fv') \<and> 0 < fv_generation fv'"
proof -
  obtain outs fv' st' where run: "feeder_poll ex_externals demo_feed demo_params swift_poll demo_vars fleet_state
      = Again [fleet_job 1 1, fleet_job 1 2] outs fv' st'" "fv_current_head fv' = Some []"
    using swift_poll_mines by blast
  have v: "feeder_ok demo_vars" "fv_generation demo_vars = 0" "fv_current_head demo_vars = None"
    "\<not> la_miner_registered (fv_latches demo_vars)" "\<not> la_descriptor_filed (fv_latches demo_vars)"
    by (simp_all add: demo_vars_def feeder_init_def feeder_ok_def)
  have "pe_walk swift_poll = swift_walk" by (simp add: swift_poll_def)
  with polls_follow_round_machine [OF run(1) v(1)] run v show ?thesis by auto
qed

end
