(* ===== verification/Rpc.thy ===== *)
theory Rpc
  imports Readiness PoolWatch Decay Metrics
begin

text \<open>
  What the chain client says to a node and reads from it: JSON values, the transaction status
  notifications (\<open>chain/watch.rs\<close>), dry-run errors (\<open>chain/dryrun.rs\<close>), the account blob
  (\<open>chain/account.rs\<close>), the remaining storage keys, the mirrored storage types and the call bodies
  (\<open>chain/scale_types.rs\<close>). The codec of the mirrored types is external: the fields of \<open>Scale\<close>.
\<close>

subsection \<open>JSON values\<close>

text \<open>
  \<open>serde_json::Value\<close>. An object lists its entries in the map's iteration order. A number that is no
  integer is kept as its text: the code reads integers only.
\<close>

datatype json =
    JNull
  | JBool bool
  | JNum int
  | JReal string
  | JStr string
  | JArr "json list"
  | JObj "(string \<times> json) list"

fun as_string :: "json \<Rightarrow> string option" where
  "as_string (JStr s) = Some s"
| "as_string _ = None"

fun as_bool :: "json \<Rightarrow> bool option" where
  "as_bool (JBool b) = Some b"
| "as_bool _ = None"

fun as_u64 :: "json \<Rightarrow> nat option" where
  "as_u64 (JNum n) = (if 0 \<le> n \<and> n \<le> int u64_max then Some (nat n) else None)"
| "as_u64 _ = None"

fun as_array :: "json \<Rightarrow> json list option" where
  "as_array (JArr xs) = Some xs"
| "as_array _ = None"

fun as_object :: "json \<Rightarrow> (string \<times> json) list option" where
  "as_object (JObj es) = Some es"
| "as_object _ = None"

fun get_key :: "json \<Rightarrow> string \<Rightarrow> json option" where
  "get_key (JObj es) k = map_of es k"
| "get_key _ k = None"

lemma as_string_Some [simp]: "as_string v = Some s \<longleftrightarrow> v = JStr s"
  by (cases v) auto

lemma as_array_Some [simp]: "as_array v = Some xs \<longleftrightarrow> v = JArr xs"
  by (cases v) auto

definition to_ascii_lowercase :: "string \<Rightarrow> string" where
  "to_ascii_lowercase s =
     map (\<lambda>c. let b = of_char c :: nat in if 65 \<le> b \<and> b \<le> 90 then char_of (b + 32) else c) s"

subsection \<open>Errors\<close>

datatype ChainError = Unavailable string | DecodeErr string | SubmitErr string

fun chain_error_text :: "ChainError \<Rightarrow> string" where
  "chain_error_text (Unavailable s) = ''chain unavailable: '' @ s"
| "chain_error_text (DecodeErr s) = ''decode error: '' @ s"
| "chain_error_text (SubmitErr s) = ''submit error: '' @ s"

fun hex_error_text :: "HexError \<Rightarrow> string" where
  "hex_error_text (OddLength n) = ''odd-length hex ('' @ show_nat n @ '' digits)''"
| "hex_error_text InvalidDigit = ''invalid hex digit''"

subsection \<open>Transaction status\<close>

datatype TxStatus =
    TxReady
  | TxBroadcast
  | TxInBlock string
  | TxFinalized string
  | TxDropped string
  | TxInvalid string
  | TxFuture
  | TxOther string

fun tx_status_entry :: "string \<Rightarrow> json \<Rightarrow> TxStatus option" where
  "tx_status_entry k val =
     (let hash = (case as_string val of Some s \<Rightarrow> s | None \<Rightarrow> '''');
          name = to_ascii_lowercase k
      in if name = ''inblock'' then Some (TxInBlock hash)
         else if name = ''finalized'' then Some (TxFinalized hash)
         else if name = ''dropped'' \<or> name = ''usurped'' \<or> name = ''retracted'' \<or> name = ''finalitytimeout''
         then Some (TxDropped (k @ '': '' @ hash))
         else if name = ''invalid'' then Some (TxInvalid (k @ '': '' @ hash))
         else if name = ''broadcast'' then Some TxBroadcast
         else None)"

fun tx_status_entries :: "(string \<times> json) list \<Rightarrow> TxStatus option" where
  "tx_status_entries [] = None"
| "tx_status_entries ((k, val) # es) =
     (case tx_status_entry k val of Some s \<Rightarrow> Some s | None \<Rightarrow> tx_status_entries es)"

definition parse_tx_status :: "(json \<Rightarrow> string) \<Rightarrow> json \<Rightarrow> TxStatus" where
  "parse_tx_status json_text v =
     (case as_string v of
        Some s \<Rightarrow>
          let name = to_ascii_lowercase s in
          if name = ''ready'' then TxReady
          else if name = ''broadcast'' then TxBroadcast
          else if name = ''future'' then TxFuture
          else TxOther s
      | None \<Rightarrow>
          (case as_object v of
             None \<Rightarrow> TxOther (json_text v)
           | Some obj \<Rightarrow> (case tx_status_entries obj of Some s \<Rightarrow> s | None \<Rightarrow> TxOther (json_text v))))"

subsection \<open>Dry-run errors\<close>

record ModuleError =
  me_pallet :: u8
  me_error :: bytes

definition DISPATCH_ERROR_MODULE :: u8 where
  "DISPATCH_ERROR_MODULE = 3"

definition byte_at :: "bytes \<Rightarrow> nat \<Rightarrow> u8 option" where
  "byte_at bs i = (if i < length bs then Some (bs ! i) else None)"

definition byte_range :: "bytes \<Rightarrow> nat \<Rightarrow> nat \<Rightarrow> bytes option" where
  "byte_range bs i j = (if i \<le> j \<and> j \<le> length bs then Some (take (j - i) (drop i bs)) else None)"

definition decode_dispatch_error :: "bytes \<Rightarrow> ModuleError option" where
  "decode_dispatch_error bs = do {
     b0 \<leftarrow> byte_at bs 0;
     ensure (b0 = 0x00);
     b1 \<leftarrow> byte_at bs 1;
     ensure (b1 = 0x01);
     b2 \<leftarrow> byte_at bs 2;
     ensure (b2 = DISPATCH_ERROR_MODULE);
     pallet \<leftarrow> byte_at bs 3;
     error \<leftarrow> byte_range bs 4 8;
     Some \<lparr> me_pallet = pallet, me_error = error \<rparr>
   }"

definition QUANTUM_POW_ERRORS :: "string list" where
  "QUANTUM_POW_ERRORS =
     [''MinerAlreadyRegistered'', ''MinerNotRegistered'', ''TopologyAlreadyRegistered'', ''TopologyNotRegistered'',
      ''InvalidCurve'', ''GraphTooSmall'', ''InvalidTopology'', ''ProofLimitReached'', ''InvalidNonce'',
      ''NoSolutionsSubmitted'', ''InvalidSpinValues'', ''SolutionLengthMismatch'', ''InsufficientEnergy'',
      ''InsufficientDiversity'', ''InsufficientSolutions'', ''ArithmeticOverflow'', ''EmptyAllowedValues'',
      ''EncodingTooWide'', ''PackedSolutionLengthMismatch'', ''InvalidEncodedSpin'', ''PackedSolutionTooLarge'',
      ''TopologyNotMineable'', ''TopologyIsDefault'', ''MineableTopologyConflict'', ''InvalidDiversityConfig'']"

definition MINER_REGISTRY_ERRORS :: "string list" where
  "MINER_REGISTRY_ERRORS =
     [''EmptyNodeId'', ''EmptyNodeName'', ''EmptyPublicHost'', ''EmptyRpcEndpoint'', ''EmptyMinerLabel'',
      ''EmptyMinerBackend'', ''EmptyMinerDeviceId'', ''EmptyOsSystem'', ''EmptyCpuBrand'', ''EmptyCpuArch'',
      ''EmptyGpuVendor'', ''EmptyGpuName'', ''InvalidGpuUtilization'', ''EmptyPythonVersion'', ''EmptyQuipVersion'',
      ''EmptyDockerImage'', ''NoMiners'', ''InvalidPort'', ''DescriptorNotFound'', ''DescriptorRequired'',
      ''InvalidQBlockId'', ''DuplicateParticipation'']"

definition QUANTUM_POW_PALLET_INDEX :: u8 where "QUANTUM_POW_PALLET_INDEX = 10"
definition MINER_REGISTRY_PALLET_INDEX :: u8 where "MINER_REGISTRY_PALLET_INDEX = 13"
definition QUANTUM_COMPUTE_MEMPOOL_PALLET_INDEX :: u8 where "QUANTUM_COMPUTE_MEMPOOL_PALLET_INDEX = 9"

definition describe_in :: "string \<Rightarrow> string list \<Rightarrow> nat \<Rightarrow> string" where
  "describe_in pallet_name table idx =
     (if idx < length table then pallet_name @ ''::'' @ (table ! idx)
      else pallet_name @ '' error '' @ show_nat idx @ '' (index beyond the known table)'')"

definition describe_module_error :: "ModuleError \<Rightarrow> string" where
  "describe_module_error e =
     (let idx = le_value (me_error e) in
      if me_pallet e = QUANTUM_POW_PALLET_INDEX then describe_in ''QuantumPow'' QUANTUM_POW_ERRORS idx
      else if me_pallet e = MINER_REGISTRY_PALLET_INDEX then describe_in ''MinerRegistry'' MINER_REGISTRY_ERRORS idx
      else ''pallet '' @ show_nat (unat (me_pallet e)) @ '' error '' @ show_nat idx
           @ '' (no name table for this pallet)'')"

subsection \<open>Account balance and storage keys\<close>

definition FREE_OFFSET :: nat where
  "FREE_OFFSET = 16"

definition system_account_storage_key :: "(nat \<Rightarrow> bytes \<Rightarrow> nat) \<Rightarrow> (bytes \<Rightarrow> bytes) \<Rightarrow> bytes \<Rightarrow> bytes" where
  "system_account_storage_key xxhash64 blake2_128 account =
     twox128 xxhash64 (ascii ''System'') @ twox128 xxhash64 (ascii ''Account'') @ blake2_128 account @ account"

definition free_from_account_bytes :: "bytes \<Rightarrow> string + nat" where
  "free_from_account_bytes bs =
     (let finish = FREE_OFFSET + 16 in
      case byte_range bs FREE_OFFSET finish of
        None \<Rightarrow> Inl (''System.Account blob is too short: '' @ show_nat (length bs)
                     @ '' bytes, need at least '' @ show_nat finish)
      | Some free \<Rightarrow> Inr (le_value free))"

definition miners_storage_key :: "(nat \<Rightarrow> bytes \<Rightarrow> nat) \<Rightarrow> (bytes \<Rightarrow> bytes) \<Rightarrow> bytes \<Rightarrow> bytes" where
  "miners_storage_key xxhash64 blake2_128 account = quantum_pow_map_key xxhash64 blake2_128 ''Miners'' account"

definition difficulties_storage_key :: "(nat \<Rightarrow> bytes \<Rightarrow> nat) \<Rightarrow> (bytes \<Rightarrow> bytes) \<Rightarrow> bytes \<Rightarrow> bytes" where
  "difficulties_storage_key xxhash64 blake2_128 topology =
     quantum_pow_map_key xxhash64 blake2_128 ''Difficulties'' topology"

definition topology_curve_c_storage_key :: "(nat \<Rightarrow> bytes \<Rightarrow> nat) \<Rightarrow> (bytes \<Rightarrow> bytes) \<Rightarrow> bytes \<Rightarrow> bytes" where
  "topology_curve_c_storage_key xxhash64 blake2_128 topology =
     quantum_pow_map_key xxhash64 blake2_128 ''TopologyCurveC'' topology"

definition last_proof_block_storage_key :: "(nat \<Rightarrow> bytes \<Rightarrow> nat) \<Rightarrow> bytes" where
  "last_proof_block_storage_key xxhash64 = item_prefix xxhash64 ''QuantumPow'' ''LastProofBlock''"

definition last_proof_block_hash_storage_key :: "(nat \<Rightarrow> bytes \<Rightarrow> nat) \<Rightarrow> bytes" where
  "last_proof_block_hash_storage_key xxhash64 = item_prefix xxhash64 ''QuantumPow'' ''LastProofBlockHash''"

definition default_topology_storage_key :: "(nat \<Rightarrow> bytes \<Rightarrow> nat) \<Rightarrow> bytes" where
  "default_topology_storage_key xxhash64 = item_prefix xxhash64 ''QuantumPow'' ''DefaultTopology''"

definition qblocks_storage_key :: "(nat \<Rightarrow> bytes \<Rightarrow> nat) \<Rightarrow> (bytes \<Rightarrow> bytes) \<Rightarrow> nat \<Rightarrow> bytes" where
  "qblocks_storage_key xxhash64 blake2_128 block_number =
     (let encoded = le_bytes 4 block_number in
      item_prefix xxhash64 ''QuantumPow'' ''QBlocks'' @ blake2_128 encoded @ encoded)"

definition node_descriptors_storage_key :: "(nat \<Rightarrow> bytes \<Rightarrow> nat) \<Rightarrow> (bytes \<Rightarrow> bytes) \<Rightarrow> bytes \<Rightarrow> bytes" where
  "node_descriptors_storage_key xxhash64 blake2_128 account =
     item_prefix xxhash64 ''MinerRegistry'' ''NodeDescriptors'' @ blake2_128 account @ account"

subsection \<open>Mirrored storage types\<close>

record DifficultyConfig =
  df_min_solutions :: nat
  df_max_energy_milli :: int
  df_min_diversity_milli :: nat

record CurveCScale =
  cc_easy_milli :: nat
  cc_knee_milli :: nat
  cc_hard_milli :: nat

text \<open>The bounds of the two range specifications are never read; they are kept as their encoding.\<close>

datatype AllowedValueSpec = SetSpec "int list" | IntegerRange bytes | ContinuousRange bytes

record TopologyMetaScale =
  tm_nodes :: "node list"
  tm_edges :: "(node \<times> node) list"
  tm_allowed_h_values :: AllowedValueSpec
  tm_allowed_j_values :: AllowedValueSpec
  tm_allowed_spin_values :: AllowedValueSpec
  tm_registered_at :: nat

definition require_set_values :: "AllowedValueSpec \<Rightarrow> string + int list" where
  "require_set_values spec =
     (case spec of
        SetSpec v \<Rightarrow> if v \<noteq> [] then Inr v
          else Inl ''allowed-value Set is empty; a PoW model cannot be drawn''
      | _ \<Rightarrow> Inl (''coordinator requires AllowedValueSpec::Set; range specs (IntegerRange/''
                  @ ''ContinuousRange) sample differently on-chain and are not supported''))"

record IsingParams =
  ip_nodes :: "node list"
  ip_edges :: "(node \<times> node) list"
  ip_h_values :: "int list"
  ip_j_values :: "int list"
  ip_min_energy_milli :: "int option"
  ip_min_diversity_milli :: "nat option"
  ip_min_solutions :: "nat option"

record OrderTiming =
  ot_deadline_blocks :: nat
  ot_block_wait :: nat

datatype OrderStatus = OrderOpened | OrderExpired | OrderClosed

datatype RewardResolution = SingleBest | TopNWeighted nat | TopNEqual nat

datatype ResultDelivery = OnChainOnly | Callback bytes | CallbackWithPoll bytes

record JobOrderScale =
  os_spec_id :: bytes
  os_proposer :: bytes
  os_ising_params :: IsingParams
  os_reward :: nat
  os_mode :: JobMode
  os_resolution :: RewardResolution
  os_timing :: OrderTiming
  os_delivery :: ResultDelivery
  os_status :: OrderStatus
  os_created_at :: nat
  os_first_solution_at :: "nat option"
  os_solution_count :: nat

record MinerInfoScale =
  mn_registered_at :: nat
  mn_deposit :: nat
  mn_proofs_submitted :: nat
  mn_proofs_won :: nat
  mn_rewards_earned :: nat

record SolverInfoScale =
  si_account :: bytes
  si_solver_type :: SolverType
  si_registered_at :: nat
  si_solutions_submitted :: nat
  si_rewards_earned :: nat

record JobSolutionScale =
  jl_solver :: bytes
  jl_solver_type :: SolverType
  jl_solutions :: "int list list"
  jl_best_energy_milli :: int
  jl_diversity_milli :: nat
  jl_num_valid :: nat
  jl_submitted_at :: nat

text \<open>The SCALE codec of these types: decoders fail with the codec's message.\<close>

record Scale =
  sd_u32 :: "bytes \<Rightarrow> string + nat"
  sd_hash :: "bytes \<Rightarrow> string + bytes"
  sd_difficulty :: "bytes \<Rightarrow> string + DifficultyConfig"
  sd_difficulty_opt :: "bytes \<Rightarrow> string + DifficultyConfig option"
  sd_topology_opt :: "bytes \<Rightarrow> string + TopologyMetaScale option"
  sd_qblock_opt :: "bytes \<Rightarrow> string + nat option"
  sd_curve :: "bytes \<Rightarrow> string + CurveCScale"
  sd_miner_info :: "bytes \<Rightarrow> string + MinerInfoScale"
  sd_solver_info :: "bytes \<Rightarrow> string + SolverInfoScale"
  sd_job_order :: "bytes \<Rightarrow> string + JobOrderScale"
  sd_job_solution :: "bytes \<Rightarrow> string + JobSolutionScale"
  se_solver_type :: "SolverType \<Rightarrow> bytes"
  se_miner_kind :: "MinerKind \<Rightarrow> bytes"
  se_budget :: "nat option \<Rightarrow> bytes"
  se_spin_rows :: "int list list \<Rightarrow> bytes"
  se_descriptor :: "NodeDescriptorV2Input \<Rightarrow> bytes"

subsection \<open>Call bodies\<close>

definition encode_register_miner_call :: bytes where
  "encode_register_miner_call = [QUANTUM_POW_PALLET_INDEX, 0]"

definition encode_register_solver_call :: "Scale \<Rightarrow> SolverType \<Rightarrow> bytes" where
  "encode_register_solver_call S solver_type = [QUANTUM_COMPUTE_MEMPOOL_PALLET_INDEX, 0] @ se_solver_type S solver_type"

definition encode_deregister_solver_call :: bytes where
  "encode_deregister_solver_call = [QUANTUM_COMPUTE_MEMPOOL_PALLET_INDEX, 1]"

definition encode_submit_solution_call :: "Scale \<Rightarrow> nat \<Rightarrow> int list list \<Rightarrow> bytes" where
  "encode_submit_solution_call S order_id solutions =
     [QUANTUM_COMPUTE_MEMPOOL_PALLET_INDEX, 4] @ le_bytes 8 order_id @ se_spin_rows S solutions"

definition encode_participate_call :: "Scale \<Rightarrow> nat \<Rightarrow> MinerKind \<Rightarrow> nat option \<Rightarrow> bytes" where
  "encode_participate_call S qblock_id kind budget_seconds =
     [MINER_REGISTRY_PALLET_INDEX, 2] @ le_bytes 8 qblock_id @ se_miner_kind S kind @ se_budget S budget_seconds"

definition encode_set_descriptor_call :: "Scale \<Rightarrow> NodeDescriptorV2Input \<Rightarrow> bytes" where
  "encode_set_descriptor_call S descriptor = [MINER_REGISTRY_PALLET_INDEX, 0] @ [1] @ se_descriptor S descriptor"

subsection \<open>Numbers in answers\<close>

text \<open>\<open>u64::from_str_radix(s, 16)\<close> with the standard library's error texts.\<close>

fun hex_digits_value :: "nat \<Rightarrow> string \<Rightarrow> string + nat" where
  "hex_digits_value acc [] = Inr acc"
| "hex_digits_value acc (c # cs) =
     (case decode_nibble c of
        Inl _ \<Rightarrow> Inl ''invalid digit found in string''
      | Inr d \<Rightarrow> if acc * 16 + d > u64_max then Inl ''number too large to fit in target type''
                 else hex_digits_value (acc * 16 + d) cs)"

definition u64_from_hex :: "string \<Rightarrow> string + nat" where
  "u64_from_hex s =
     (if s = [] then Inl ''cannot parse integer from empty string''
      else if s = ''+'' then Inl ''invalid digit found in string''
      else hex_digits_value 0 (if hd s = CHR ''+'' then tl s else s))"

definition map_err :: "('e \<Rightarrow> 'f) \<Rightarrow> 'e + 'a \<Rightarrow> 'f + 'a" where
  "map_err f r = (case r of Inl e \<Rightarrow> Inl (f e) | Inr v \<Rightarrow> Inr v)"

definition parse_block_number :: "json \<Rightarrow> ChainError + nat" where
  "parse_block_number header =
     (case get_key header ''number'' of
        None \<Rightarrow> Inl (DecodeErr ''header missing number'')
      | Some number \<Rightarrow>
          (case as_u64 number of
             Some n \<Rightarrow> Inr n
           | None \<Rightarrow> (case as_string number of
                 Some s \<Rightarrow> map_err DecodeErr (u64_from_hex (strip_0x s))
               | None \<Rightarrow> Inl (DecodeErr ''header.number unparseable''))))"

definition parse_u32_field :: "string \<Rightarrow> string \<Rightarrow> string \<Rightarrow> json \<Rightarrow> ChainError + nat" where
  "parse_u32_field field missing too_big v =
     (case Option.bind (get_key v field) as_u64 of
        None \<Rightarrow> Inl (DecodeErr missing)
      | Some n \<Rightarrow> if n \<le> u32_max then Inr n else Inl (DecodeErr too_big))"

definition parse_spec_version :: "json \<Rightarrow> ChainError + nat" where
  "parse_spec_version rv =
     parse_u32_field ''specVersion'' ''runtime specVersion missing/not a u64'' ''specVersion exceeds u32'' rv"

definition parse_transaction_version :: "json \<Rightarrow> ChainError + nat" where
  "parse_transaction_version rv =
     parse_u32_field ''transactionVersion'' ''runtime transactionVersion missing/not a u64''
       ''transactionVersion exceeds u32'' rv"

lemma map_err_Inr [simp]: "map_err f r = Inr v \<longleftrightarrow> r = Inr v"
  by (auto simp: map_err_def split: sum.splits)

subsection \<open>Order deadlines\<close>

definition BLOCK_TIME_ESTIMATE_MS :: nat where
  "BLOCK_TIME_ESTIMATE_MS = 6000"

definition order_deadline_ms :: "nat \<Rightarrow> nat option \<Rightarrow> OrderTiming \<Rightarrow> nat \<Rightarrow> nat \<Rightarrow> nat option" where
  "order_deadline_ms created_at first_solution_at timing head now_ms =
     (let hard = sat_add_u32 created_at (ot_deadline_blocks timing);
          expiry = (case first_solution_at of
                      None \<Rightarrow> hard
                    | Some first \<Rightarrow> min hard (sat_add_u32 first (ot_block_wait timing)))
      in if expiry < head \<or> expiry - head = 0 then None
         else Some (sat_add_u64 now_ms (sat_mul_u64 (expiry - head) BLOCK_TIME_ESTIMATE_MS)))"

end
