(* ===== verification/Client.thy ===== *)
theory Client
  imports Rpc
begin

text \<open>
  \<open>chain/real.rs\<close> and \<open>chain/proof_encode.rs\<close>: the chain client. It talks to its validators in order,
  caches what cannot change, signs and submits calls, and decides from chain state whether a call took
  effect. The network is a record of functions of the number of requests made so far, so it may
  answer the same request differently each time. An operation is a function of the client's state; its
  result is \<open>None\<close> when it waits forever, an error, or a value. The mutexes guard the fields below; no code
  panics while it holds one, so the branches for a poisoned lock are left out, and so are log lines.
\<close>

subsection \<open>The client and its network\<close>

record Client =
  cl_validators :: "string list"
  cl_signer_key :: string
  cl_last_snapshot :: "MiningSnapshot option"
  cl_last_spin_spec :: "AllowedValueSpec option"
  cl_topology :: "(bytes \<times> TopologyMetaScale) option"
  cl_tx_context :: "RuntimeTxContext option"
  cl_reachable :: "bool option"
  cl_participate_kind :: MinerKind
  cl_registered_solver :: "(bytes \<times> SolverType) option"
  cl_requests :: nat

definition new_client :: "string list \<Rightarrow> string \<Rightarrow> MinerKind \<Rightarrow> Client" where
  "new_client validators signer_key participate_kind =
     \<lparr> cl_validators = validators, cl_signer_key = signer_key, cl_last_snapshot = None,
       cl_last_spin_spec = None, cl_topology = None, cl_tx_context = None, cl_reachable = None,
       cl_participate_kind = participate_kind, cl_registered_solver = None, cl_requests = 0 \<rparr>"

text \<open>A subscription is the sequence of its items; \<open>None\<close> at an index ends it.\<close>

type_synonym status_stream = "nat \<Rightarrow> (ChainError + json) option"

record ('key, 'sig) Net =
  nt_request :: "nat \<Rightarrow> string \<Rightarrow> string \<Rightarrow> json list \<Rightarrow> ChainError + json"
  nt_subscribe :: "nat \<Rightarrow> string \<Rightarrow> string \<Rightarrow> ChainError + status_stream"
  nt_now_ms :: "nat \<Rightarrow> nat"
  nt_codec :: "('key, 'sig, QuantumProof) Codec"
  nt_scale :: Scale
  nt_xxhash64 :: "nat \<Rightarrow> bytes \<Rightarrow> nat"
  nt_blake2_128 :: "bytes \<Rightarrow> bytes"
  nt_load_pair :: "string \<Rightarrow> string + 'key"
  nt_ss58 :: "bytes \<Rightarrow> string"
  nt_json_text :: "json \<Rightarrow> string"
  nt_derive_nonce :: "bytes \<Rightarrow> bytes \<Rightarrow> bytes \<Rightarrow> nat"
  nt_pack_solution :: "int list \<Rightarrow> AllowedValueSpec \<Rightarrow> string + bytes"

subsection \<open>Operations\<close>

type_synonym 'a io = "Client \<Rightarrow> ((ChainError + 'a) \<times> Client) option"

definition pure_io :: "'a \<Rightarrow> 'a io" where
  "pure_io v c = Some (Inr v, c)"

definition fail_io :: "ChainError \<Rightarrow> 'a io" where
  "fail_io e c = Some (Inl e, c)"

definition bind_io :: "'a io \<Rightarrow> ('a \<Rightarrow> 'b io) \<Rightarrow> 'b io" where
  "bind_io m f c =
     (case m c of
        None \<Rightarrow> None
      | Some (Inl e, c) \<Rightarrow> Some (Inl e, c)
      | Some (Inr v, c) \<Rightarrow> f v c)"

definition lift_io :: "ChainError + 'a \<Rightarrow> 'a io" where
  "lift_io r c = Some (r, c)"

definition put_io :: "(Client \<Rightarrow> Client) \<Rightarrow> unit io" where
  "put_io f c = Some (Inr (), f c)"

definition get_io :: "(Client \<Rightarrow> 'a) \<Rightarrow> 'a io" where
  "get_io f c = Some (Inr (f c), c)"

definition need :: "ChainError \<Rightarrow> 'a option \<Rightarrow> 'a io" where
  "need e v = lift_io (case v of None \<Rightarrow> Inl e | Some v \<Rightarrow> Inr v)"

definition decode_hex :: "string \<Rightarrow> bytes io" where
  "decode_hex hex = lift_io (map_err (\<lambda>e. DecodeErr (hex_error_text e)) (hex_decode hex))"

definition decode_scale :: "(bytes \<Rightarrow> string + 'a) \<Rightarrow> bytes \<Rightarrow> 'a io" where
  "decode_scale d bs = lift_io (map_err DecodeErr (d bs))"

lemma bind_io_simps:
  "bind_io (pure_io v) f c = f v c"
  "bind_io (fail_io e) f c = Some (Inl e, c)"
  "bind_io (put_io g) k c = k () (g c)"
  "bind_io (get_io sel) f c = f (sel c) c"
  by (simp_all add: bind_io_def pure_io_def fail_io_def put_io_def get_io_def)

lemma bind_lift_io:
  "bind_io (lift_io r) f c = (case r of Inl e \<Rightarrow> Some (Inl e, c) | Inr v \<Rightarrow> f v c)"
  by (cases r) (simp_all add: bind_io_def lift_io_def)

lemmas io_run = bind_io_simps bind_lift_io

text \<open>When a sequence of operations succeeds.\<close>

lemma bind_io_Inr:
  "bind_io m f c = Some (Inr v, c') \<longleftrightarrow> (\<exists>u d. m c = Some (Inr u, d) \<and> f u d = Some (Inr v, c'))"
  by (auto simp: bind_io_def split: option.splits sum.splits)

lemma pure_io_Inr: "pure_io u c = Some (Inr v, c') \<longleftrightarrow> u = v \<and> c' = c"
  by (auto simp: pure_io_def)

lemma fail_io_Inr: "fail_io e c \<noteq> Some (Inr v, c')"
  by (simp add: fail_io_def)

lemma lift_io_Inr: "lift_io r c = Some (Inr v, c') \<longleftrightarrow> r = Inr v \<and> c' = c"
  by (auto simp: lift_io_def)

lemma put_io_Inr: "put_io g c = Some (Inr v, c') \<longleftrightarrow> c' = g c"
  by (auto simp: put_io_def)

lemma get_io_Inr: "get_io g c = Some (Inr v, c') \<longleftrightarrow> v = g c \<and> c' = c"
  by (auto simp: get_io_def)

lemma need_Inr: "need e w c = Some (Inr v, c') \<longleftrightarrow> w = Some v \<and> c' = c"
  by (auto simp: need_def lift_io_def split: option.splits)

lemma decode_hex_Inr: "decode_hex s c = Some (Inr v, c') \<longleftrightarrow> hex_decode s = Inr v \<and> c' = c"
  by (auto simp: decode_hex_def lift_io_Inr)

lemma decode_scale_Inr: "decode_scale d b c = Some (Inr v, c') \<longleftrightarrow> d b = Inr v \<and> c' = c"
  by (auto simp: decode_scale_def lift_io_Inr)

lemmas io_Inr = bind_io_Inr pure_io_Inr fail_io_Inr lift_io_Inr put_io_Inr get_io_Inr need_Inr
  decode_hex_Inr decode_scale_Inr

subsection \<open>Requests\<close>

definition no_validators :: ChainError where
  "no_validators = Unavailable ''no validators configured''"

text \<open>Only a change of reachability is logged; the field keeps the last outcome either way.\<close>

definition note_reachability :: "bool \<Rightarrow> Client \<Rightarrow> Client" where
  "note_reachability now c = (if cl_reachable c = Some now then c else c\<lparr>cl_reachable := Some now\<rparr>)"

definition pair_io :: "('key, 'sig) Net \<Rightarrow> 'key io" where
  "pair_io N c = lift_io (map_err (\<lambda>e. Unavailable (''load signer: '' @ e)) (nt_load_pair N (cl_signer_key c))) c"

definition primary_url :: "string io" where
  "primary_url c = need no_validators (case cl_validators c of [] \<Rightarrow> None | url # _ \<Rightarrow> Some url) c"

fun rpc_try :: "('key, 'sig) Net \<Rightarrow> string \<Rightarrow> json list \<Rightarrow> string list \<Rightarrow> ChainError option \<Rightarrow> json io" where
  "rpc_try N meth params [] failed c =
     Some (Inl (case failed of None \<Rightarrow> no_validators | Some e \<Rightarrow> e),
           (if cl_validators c = [] then c else note_reachability False c))"
| "rpc_try N meth params (url # urls) failed c =
     (case nt_request N (cl_requests c) url meth params of
        Inr v \<Rightarrow> Some (Inr v, note_reachability True (c\<lparr>cl_requests := cl_requests c + 1\<rparr>))
      | Inl e \<Rightarrow> rpc_try N meth params urls (Some e) (c\<lparr>cl_requests := cl_requests c + 1\<rparr>))"

definition rpc_call :: "('key, 'sig) Net \<Rightarrow> string \<Rightarrow> json list \<Rightarrow> json io" where
  "rpc_call N meth params c =
     (if cl_validators c = [] then fail_io no_validators c
      else rpc_try N meth params (cl_validators c) None c)"

definition runtime_version_raw :: "('key, 'sig) Net \<Rightarrow> json io" where
  "runtime_version_raw N = rpc_call N ''state_getRuntimeVersion'' []"

definition system_health_raw :: "('key, 'sig) Net \<Rightarrow> json io" where
  "system_health_raw N = rpc_call N ''system_health'' []"

definition sync_state_raw :: "('key, 'sig) Net \<Rightarrow> json io" where
  "sync_state_raw N = rpc_call N ''system_syncState'' []"

text \<open>The head's hash as the node writes it, read at the start of most operations.\<close>

definition head_hex :: "('key, 'sig) Net \<Rightarrow> string io" where
  "head_hex N =
     bind_io (rpc_call N ''chain_getBlockHash'' []) (\<lambda>head.
       need (DecodeErr ''chain_getBlockHash not a string'') (as_string head))"

definition get_storage :: "('key, 'sig) Net \<Rightarrow> bytes \<Rightarrow> string \<Rightarrow> json io" where
  "get_storage N key at_hex = rpc_call N ''state_getStorage'' [JStr (hex_encode key), JStr at_hex]"

definition read_storage :: "('key, 'sig) Net \<Rightarrow> (bytes \<Rightarrow> string + 'a) \<Rightarrow> bytes \<Rightarrow> string \<Rightarrow> 'a option io" where
  "read_storage N d key at_hex =
     bind_io (get_storage N key at_hex) (\<lambda>raw.
       case as_string raw of
         None \<Rightarrow> pure_io None
       | Some hex \<Rightarrow>
           bind_io (decode_hex hex) (\<lambda>bytes.
           bind_io (decode_scale d bytes) (\<lambda>v. pure_io (Some v))))"

definition storage_value_present :: "('key, 'sig) Net \<Rightarrow> bytes \<Rightarrow> string \<Rightarrow> bool io" where
  "storage_value_present N key at_hex =
     bind_io (get_storage N key at_hex) (\<lambda>raw. pure_io (as_string raw \<noteq> None))"

definition quantum_pow_call_by_hash ::
  "('key, 'sig) Net \<Rightarrow> (bytes \<Rightarrow> string + 'a option) \<Rightarrow> string \<Rightarrow> bytes \<Rightarrow> string \<Rightarrow> 'a option io" where
  "quantum_pow_call_by_hash N d meth hash at_hex =
     bind_io (rpc_call N ''state_call'' [JStr meth, JStr (hex_encode hash), JStr at_hex]) (\<lambda>result.
       case as_string result of
         None \<Rightarrow> pure_io None
       | Some hex \<Rightarrow> bind_io (decode_hex hex) (\<lambda>bytes. decode_scale d bytes))"

definition registered_solver_type :: "('key, 'sig) Net \<Rightarrow> bytes \<Rightarrow> string \<Rightarrow> SolverType option io" where
  "registered_solver_type N account at_hex =
     bind_io (get_io cl_registered_solver) (\<lambda>cached.
       let cached_type = (case cached of
             Some (cached_account, solver_type) \<Rightarrow> if cached_account = account then Some solver_type else None
           | None \<Rightarrow> None)
       in if cached_type \<noteq> None then pure_io cached_type
          else bind_io (read_storage N (sd_solver_info (nt_scale N))
                 (solvers_storage_key (nt_xxhash64 N) (nt_blake2_128 N) account) at_hex) (\<lambda>stored.
               let solver_type = map_option si_solver_type stored in
               bind_io (put_io (\<lambda>c. c\<lparr>cl_registered_solver := map_option (\<lambda>kind. (account, kind)) solver_type\<rparr>)) (\<lambda>_.
               pure_io solver_type)))"

subsection \<open>Topology\<close>

definition snapshot_topology_hash_at :: "('key, 'sig) Net \<Rightarrow> bytes option \<Rightarrow> string \<Rightarrow> bytes option io" where
  "snapshot_topology_hash_at N chosen at_hex =
     (case chosen of
        Some hash \<Rightarrow> pure_io (Some hash)
      | None \<Rightarrow> read_storage N (sd_hash (nt_scale N)) (default_topology_storage_key (nt_xxhash64 N)) at_hex)"

definition topology_meta :: "('key, 'sig) Net \<Rightarrow> bytes \<Rightarrow> string \<Rightarrow> TopologyMetaScale option io" where
  "topology_meta N hash at_hex =
     bind_io (get_io cl_topology) (\<lambda>slot.
       let cached = (case slot of Some (h, meta) \<Rightarrow> if h = hash then Some meta else None | None \<Rightarrow> None)
       in if cached \<noteq> None then pure_io cached
          else bind_io (quantum_pow_call_by_hash N (sd_topology_opt (nt_scale N)) ''QuantumPowApi_topology_meta'' hash at_hex)
                 (\<lambda>meta.
               bind_io (put_io (\<lambda>c. case meta of Some m \<Rightarrow> c\<lparr>cl_topology := Some (hash, m)\<rparr> | None \<Rightarrow> c)) (\<lambda>_.
               pure_io meta)))"

definition fetch_default_topology :: "('key, 'sig) Net \<Rightarrow> (bytes \<times> TopologyMetaScale) option io" where
  "fetch_default_topology N =
     bind_io (head_hex N) (\<lambda>at_hex.
     bind_io (snapshot_topology_hash_at N None at_hex) (\<lambda>chosen.
       case chosen of
         None \<Rightarrow> pure_io None
       | Some hash \<Rightarrow>
           bind_io (topology_meta N hash at_hex) (\<lambda>meta.
           bind_io (need (DecodeErr (''default topology '' @ hex_encode hash @ '' is not registered'')) meta) (\<lambda>metadata.
           pure_io (Some (hash, metadata))))))"

definition default_topology :: "('key, 'sig) Net \<Rightarrow> bytes option io" where
  "default_topology N =
     bind_io (head_hex N) (\<lambda>at_hex.
       read_storage N (sd_hash (nt_scale N)) (default_topology_storage_key (nt_xxhash64 N)) at_hex)"

subsection \<open>Signing context\<close>

definition fetch_runtime_tx_context :: "('key, 'sig) Net \<Rightarrow> RuntimeTxContext io" where
  "fetch_runtime_tx_context N =
     bind_io (rpc_call N ''chain_getBlockHash'' [JNum 0]) (\<lambda>genesis.
     bind_io (need (DecodeErr ''genesis hash not a string'') (as_string genesis)) (\<lambda>genesis_hex.
     bind_io (decode_hex genesis_hex) (\<lambda>genesis_bytes.
       if length genesis_bytes \<noteq> 32 then fail_io (DecodeErr ''genesis hash length'')
       else bind_io (rpc_call N ''state_getRuntimeVersion'' []) (\<lambda>rv.
            bind_io (lift_io (parse_spec_version rv)) (\<lambda>spec_version.
            bind_io (lift_io (parse_transaction_version rv)) (\<lambda>transaction_version.
            pure_io \<lparr> rc_genesis_hash = genesis_bytes, rc_spec_version = spec_version,
                      rc_transaction_version = transaction_version \<rparr>))))))"

definition runtime_tx_context :: "('key, 'sig) Net \<Rightarrow> RuntimeTxContext io" where
  "runtime_tx_context N =
     bind_io (get_io (\<lambda>c. (map_option ms_spec_version (cl_last_snapshot c), cl_tx_context c))) (\<lambda>(current_spec, cached).
       case (cached, current_spec) of
         (Some ctx, Some spec) \<Rightarrow>
           if rc_spec_version ctx = spec then pure_io ctx
           else bind_io (fetch_runtime_tx_context N) (\<lambda>ctx.
                bind_io (put_io (\<lambda>c. c\<lparr>cl_tx_context := Some ctx\<rparr>)) (\<lambda>_. pure_io ctx))
       | _ \<Rightarrow> bind_io (fetch_runtime_tx_context N) (\<lambda>ctx.
              bind_io (put_io (\<lambda>c. c\<lparr>cl_tx_context := Some ctx\<rparr>)) (\<lambda>_. pure_io ctx)))"

definition signed_extension_context :: "('key, 'sig) Net \<Rightarrow> 'key \<Rightarrow> SignedExtensionContext io" where
  "signed_extension_context N pair =
     bind_io (rpc_call N ''system_accountNextIndex'' [JStr (nt_ss58 N (cd_signer_account (nt_codec N) pair))]) (\<lambda>nonce_val.
     bind_io (need (DecodeErr ''system_accountNextIndex not a u64'') (as_u64 nonce_val)) (\<lambda>nonce.
     bind_io (lift_io (if nonce \<le> u32_max then Inr nonce else Inl (DecodeErr ''account nonce exceeds u32''))) (\<lambda>account_nonce.
     bind_io (fetch_runtime_tx_context N) (\<lambda>runtime.
     pure_io \<lparr> sx_account_nonce = account_nonce, sx_genesis_hash = rc_genesis_hash runtime,
               sx_spec_version = rc_spec_version runtime, sx_transaction_version = rc_transaction_version runtime,
               sx_tip = 0 \<rparr>))))"

subsection \<open>Confirmation from chain state\<close>

datatype Confirmation =
    ProofWin bytes
  | DescriptorPresent bytes
  | MinerRegisteredAt bytes
  | Participation nat bytes
  | DefaultTopologySet
  | DifficultySet bytes
  | SolverRegistered bytes
  | SolverDeregistered bytes
  | SolutionAccepted nat bytes

datatype SignedCallOutcome =
    CallSuccess string nat
  | DispatchFailed string bool
  | CallInvalid string
  | CallDropped string

datatype StateOutcome = Won | IncludedButNotWon | NotIncluded

definition classify_state_outcome :: "bool \<Rightarrow> bool \<Rightarrow> StateOutcome" where
  "classify_state_outcome included won_here =
     (if included then (if won_here then Won else IncludedButNotWon) else NotIncluded)"

definition get_header :: "('key, 'sig) Net \<Rightarrow> string \<Rightarrow> nat io" where
  "get_header N block_hex =
     bind_io (rpc_call N ''chain_getHeader'' [JStr block_hex]) (\<lambda>header. lift_io (parse_block_number header))"

fun any_extrinsic :: "(bytes \<Rightarrow> bytes) \<Rightarrow> bytes \<Rightarrow> json list \<Rightarrow> bool io" where
  "any_extrinsic hash_of want_hash [] c = pure_io False c"
| "any_extrinsic hash_of want_hash (e # exts) c =
     (case as_string e of
        None \<Rightarrow> any_extrinsic hash_of want_hash exts c
      | Some hex \<Rightarrow>
          bind_io (decode_hex hex) (\<lambda>bytes.
            if hash_of bytes = want_hash then pure_io True
            else any_extrinsic hash_of want_hash exts) c)"

definition block_contains :: "('key, 'sig) Net \<Rightarrow> string \<Rightarrow> bytes \<Rightarrow> bool io" where
  "block_contains N block_hex want_hash =
     bind_io (rpc_call N ''chain_getBlock'' [JStr block_hex]) (\<lambda>body.
     bind_io (need (DecodeErr ''chain_getBlock has no block.extrinsics array'')
         (Option.bind (Option.bind (get_key body ''block'') (\<lambda>b. get_key b ''extrinsics'')) as_array)) (\<lambda>exts.
     any_extrinsic (extrinsic_hash (nt_codec N)) want_hash exts))"

definition qblock_winner_at :: "('key, 'sig) Net \<Rightarrow> string \<Rightarrow> bytes option io" where
  "qblock_winner_at N block_hex =
     bind_io (get_header N block_hex) (\<lambda>number.
     bind_io (lift_io (if number \<le> u32_max then Inr number else Inl (DecodeErr ''block number exceeds u32''))) (\<lambda>block_number.
     bind_io (get_storage N (qblocks_storage_key (nt_xxhash64 N) (nt_blake2_128 N) block_number) block_hex) (\<lambda>raw.
       case as_string raw of
         None \<Rightarrow> pure_io None
       | Some hex \<Rightarrow>
           bind_io (decode_hex hex) (\<lambda>bytes.
           bind_io (need (DecodeErr (''QBlocks value is '' @ show_nat (length bytes)
               @ '' bytes, too short to hold an account'')) (byte_range bytes 0 32)) (\<lambda>account.
           pure_io (Some account))))))"

definition proof_win_at :: "('key, 'sig) Net \<Rightarrow> string \<Rightarrow> bytes \<Rightarrow> bool io" where
  "proof_win_at N block_hex our_account =
     bind_io (qblock_winner_at N block_hex) (\<lambda>winner. pure_io (winner = Some our_account))"

definition miner_is_registered :: "('key, 'sig) Net \<Rightarrow> bytes \<Rightarrow> bool io" where
  "miner_is_registered N account =
     bind_io (head_hex N) (\<lambda>at_hex. storage_value_present N (miners_storage_key (nt_xxhash64 N) (nt_blake2_128 N) account) at_hex)"

definition confirmation_present :: "('key, 'sig) Net \<Rightarrow> string \<Rightarrow> Confirmation \<Rightarrow> bool io" where
  "confirmation_present N block_hex confirmation =
     (let xx = nt_xxhash64 N; bl = nt_blake2_128 N in
      case confirmation of
        ProofWin account \<Rightarrow> proof_win_at N block_hex account
      | DescriptorPresent account \<Rightarrow> storage_value_present N (node_descriptors_storage_key xx bl account) block_hex
      | MinerRegisteredAt account \<Rightarrow> storage_value_present N (miners_storage_key xx bl account) block_hex
      | Participation qblock_id account \<Rightarrow>
          storage_value_present N (participants_by_qblock_storage_key xx bl qblock_id account) block_hex
      | DefaultTopologySet \<Rightarrow> storage_value_present N (default_topology_storage_key xx) block_hex
      | DifficultySet topology \<Rightarrow> storage_value_present N (difficulties_storage_key xx bl topology) block_hex
      | SolverRegistered account \<Rightarrow>
          bind_io (read_storage N (sd_solver_info (nt_scale N)) (solvers_storage_key xx bl account) block_hex) (\<lambda>stored.
          bind_io (get_io (\<lambda>c. solver_type_of (cl_participate_kind c))) (\<lambda>want.
            let registered = (case stored of
                  Some info \<Rightarrow> if si_solver_type info = want then Some (account, si_solver_type info) else None
                | None \<Rightarrow> None)
            in bind_io (put_io (\<lambda>c. c\<lparr>cl_registered_solver := registered\<rparr>)) (\<lambda>_. pure_io (registered \<noteq> None))))
      | SolverDeregistered account \<Rightarrow>
          bind_io (storage_value_present N (solvers_storage_key xx bl account) block_hex) (\<lambda>present. pure_io (\<not> present))
      | SolutionAccepted order_id account \<Rightarrow>
          bind_io (get_header N block_hex) (\<lambda>number.
          bind_io (read_storage N (sd_job_solution (nt_scale N)) (order_solutions_storage_key xx bl order_id account) block_hex)
            (\<lambda>stored. pure_io (case stored of None \<Rightarrow> False | Some s \<Rightarrow> jl_submitted_at s = number))))"

definition explain_proof_failure :: "bytes \<Rightarrow> bytes option \<Rightarrow> string \<times> bool" where
  "explain_proof_failure our_account winner =
     (case winner of
        Some w \<Rightarrow>
          if w \<noteq> our_account
          then (''lost the qblock to miner '' @ hex_encode w @ ''; this proof was valid but arrived behind theirs'', True)
          else (''we hold the qblock but the win was not observed at this block; treat as a read ''
                @ ''race, not a rejection'', False)
      | None \<Rightarrow> (''no qblock was recorded at this block, so the pallet rejected the proof itself; ''
                 @ ''check diversity, energy, and registration'', False))"

definition failure_text :: "Confirmation \<Rightarrow> string" where
  "failure_text confirmation =
     (case confirmation of
        ProofWin _ \<Rightarrow> []
      | MinerRegisteredAt _ \<Rightarrow>
          ''dispatch failed and QuantumPow.Miners still has no entry for this account; ''
          @ ''the deposit may be unaffordable''
      | DescriptorPresent _ \<Rightarrow>
          ''dispatch failed and MinerRegistry.NodeDescriptors still has no entry for this account''
      | Participation qblock_id _ \<Rightarrow>
          ''dispatch failed and this account is absent from the participant set for qblock '' @ show_nat qblock_id
      | DefaultTopologySet \<Rightarrow> ''dispatch failed and QuantumPow.DefaultTopology is still unset''
      | DifficultySet _ \<Rightarrow> ''dispatch failed and QuantumPow.Difficulties has no entry for this topology''
      | SolverRegistered _ \<Rightarrow>
          ''dispatch failed and QuantumComputeMempool.Solvers has no entry with the requested ''
          @ ''solver type for this account''
      | SolverDeregistered _ \<Rightarrow> ''dispatch failed and QuantumComputeMempool.Solvers still holds this account''
      | SolutionAccepted order_id _ \<Rightarrow>
          ''dispatch failed and OrderSolutions for order '' @ show_nat order_id
          @ '' holds no submission from this block; the order may have closed, or the solutions missed its gates'')"

text \<open>The explanation never fails: an error of the extra read becomes part of its text.\<close>

definition explain_failure :: "('key, 'sig) Net \<Rightarrow> string \<Rightarrow> Confirmation \<Rightarrow> (string \<times> bool) io" where
  "explain_failure N block_hex confirmation c =
     (case confirmation of
        ProofWin account \<Rightarrow>
          (case qblock_winner_at N block_hex c of
             None \<Rightarrow> None
           | Some (Inr winner, c) \<Rightarrow> Some (Inr (explain_proof_failure account winner), c)
           | Some (Inl e, c) \<Rightarrow>
               Some (Inr (''dispatch failed and the qblock winner could not be read: '' @ chain_error_text e, False), c))
      | _ \<Rightarrow> Some (Inr (failure_text confirmation, False), c))"

definition confirm_in_block ::
  "('key, 'sig) Net \<Rightarrow> string \<Rightarrow> bytes \<Rightarrow> Confirmation \<Rightarrow> SignedCallOutcome io" where
  "confirm_in_block N block_hex want_hash confirmation =
     bind_io (block_contains N block_hex want_hash) (\<lambda>included.
     bind_io (confirmation_present N block_hex confirmation) (\<lambda>confirmed.
       case classify_state_outcome included confirmed of
         Won \<Rightarrow> bind_io (get_header N block_hex) (\<lambda>number. pure_io (CallSuccess block_hex number))
       | IncludedButNotWon \<Rightarrow>
           bind_io (explain_failure N block_hex confirmation) (\<lambda>(error, lost_race). pure_io (DispatchFailed error lost_race))
       | NotIncluded \<Rightarrow> pure_io (CallDropped (''extrinsic absent from block '' @ block_hex))))"

subsection \<open>Signed calls\<close>

text \<open>The loop over status notifications; \<open>None\<close> when no notification ever decides.\<close>

partial_function (option) watch_loop ::
  "('key, 'sig) Net \<Rightarrow> status_stream \<Rightarrow> bytes \<Rightarrow> Confirmation \<Rightarrow> nat \<Rightarrow> Client
    \<Rightarrow> ((ChainError + SignedCallOutcome) \<times> Client) option" where
  "watch_loop N stream want_hash confirmation k c =
     (case stream k of
        None \<Rightarrow> Some (Inl (Unavailable ''transaction status stream ended before inclusion''), c)
      | Some (Inl e) \<Rightarrow> Some (Inl e, c)
      | Some (Inr v) \<Rightarrow>
          (case parse_tx_status (nt_json_text N) v of
             TxInBlock block \<Rightarrow> confirm_in_block N block want_hash confirmation c
           | TxFinalized block \<Rightarrow> confirm_in_block N block want_hash confirmation c
           | TxInvalid message \<Rightarrow> Some (Inr (CallInvalid message), c)
           | TxDropped message \<Rightarrow> Some (Inr (CallDropped message), c)
           | TxOther _ \<Rightarrow> watch_loop N stream want_hash confirmation (k + 1) c
           | TxReady \<Rightarrow> watch_loop N stream want_hash confirmation (k + 1) c
           | TxBroadcast \<Rightarrow> watch_loop N stream want_hash confirmation (k + 1) c
           | TxFuture \<Rightarrow> watch_loop N stream want_hash confirmation (k + 1) c))"

definition submit_and_watch ::
  "('key, 'sig) Net \<Rightarrow> string \<Rightarrow> bytes \<Rightarrow> Confirmation \<Rightarrow> SignedCallOutcome io" where
  "submit_and_watch N url ext confirmation c =
     (let opened = nt_subscribe N (cl_requests c) url (hex_encode ext);
          c = c\<lparr>cl_requests := cl_requests c + 1\<rparr>
      in case opened of
           Inr stream \<Rightarrow> watch_loop N stream (extrinsic_hash (nt_codec N) ext) confirmation 0 c
         | Inl (SubmitErr message) \<Rightarrow> Some (Inr (CallInvalid message), c)
         | Inl e \<Rightarrow> Some (Inl e, c))"

definition submit_signed_call ::
  "('key, 'sig) Net \<Rightarrow> bytes \<Rightarrow> Confirmation \<Rightarrow> (SignedCallOutcome \<times> bytes) io" where
  "submit_signed_call N call confirmation =
     bind_io (pair_io N) (\<lambda>pair.
     bind_io (signed_extension_context N pair) (\<lambda>signed_ctx.
       let ext = build_hybrid_signed_extrinsic (nt_codec N) pair call signed_ctx in
       bind_io primary_url (\<lambda>url.
       bind_io (submit_and_watch N url ext confirmation) (\<lambda>outcome.
       pure_io (outcome, extrinsic_hash (nt_codec N) ext)))))"

subsection \<open>Proof construction\<close>

record ProofBuildContext =
  pb_topology_hash :: bytes
  pb_last_proof_block_hash :: bytes
  pb_miner_identity :: bytes
  pb_salt :: bytes
  pb_num_nodes :: nat
  pb_allowed_spin :: AllowedValueSpec

text \<open>The three arms of the source's match agree: a spin becomes a thousand times itself.\<close>

definition spin_milli :: "int \<Rightarrow> int" where
  "spin_milli s = (if s = 1 then 1000 else if s = - 1 then - 1000 else s * 1000)"

fun pack_rows ::
  "(int list \<Rightarrow> AllowedValueSpec \<Rightarrow> string + bytes) \<Rightarrow> ProofBuildContext \<Rightarrow> SpinRow list \<Rightarrow> string + bytes list" where
  "pack_rows pack_solution ctx [] = Inr []"
| "pack_rows pack_solution ctx (row # rows) =
     (let spins = sr_spins row in
      if length spins \<noteq> pb_num_nodes ctx
      then Inl (''solution length '' @ show_nat (length spins) @ '' != topology nodes '' @ show_nat (pb_num_nodes ctx))
      else case pack_solution (map spin_milli spins) (pb_allowed_spin ctx) of
             Inl e \<Rightarrow> Inl (''pack_solution: '' @ e)
           | Inr bytes \<Rightarrow> (case pack_rows pack_solution ctx rows of Inl e \<Rightarrow> Inl e | Inr packed \<Rightarrow> Inr (bytes # packed)))"

definition build_quantum_proof :: "('key, 'sig) Net \<Rightarrow> Proof \<Rightarrow> ProofBuildContext \<Rightarrow> string + QuantumProof" where
  "build_quantum_proof N proof ctx =
     (case pack_rows (nt_pack_solution N) ctx (pr_solutions proof) of
        Inl e \<Rightarrow> Inl e
      | Inr packed \<Rightarrow> Inr
          \<lparr> qp_topology_hash = pb_topology_hash ctx,
            qp_nonce = nt_derive_nonce N (pb_last_proof_block_hash ctx) (pb_miner_identity ctx) (pb_salt ctx),
            qp_salt = pb_salt ctx, qp_solutions = packed,
            qp_device_access_time_us = pr_device_access_time_us proof \<rparr>)"

definition miner_identity_bytes :: "('key, 'sig, 'proof) Codec \<Rightarrow> 'key \<Rightarrow> bytes" where
  "miner_identity_bytes C pair = cd_blake2_256 C (cd_signer_account C pair)"

definition extract_salt :: "Proof \<Rightarrow> bytes option" where
  "extract_salt proof = (if length (pr_salt proof) \<noteq> 32 then None else Some (pr_salt proof))"

subsection \<open>Submitting proofs and solutions\<close>

definition hash_of_hex :: "string \<Rightarrow> bytes option" where
  "hash_of_hex block =
     (case hex_decode block of Inr b \<Rightarrow> if length b = 32 then Some b else None | Inl _ \<Rightarrow> None)"

definition receipt_of :: "SubmitAction \<Rightarrow> bytes \<Rightarrow> SubmitReceipt" where
  "receipt_of action extrinsic = \<lparr> sb_action = action, sb_extrinsic_hash = Some extrinsic, sb_block_hash = None,
     sb_block_number = None \<rparr>"

definition success_receipt :: "string \<Rightarrow> nat \<Rightarrow> bytes \<Rightarrow> SubmitReceipt" where
  "success_receipt block number extrinsic =
     \<lparr> sb_action = Success, sb_extrinsic_hash = Some extrinsic, sb_block_hash = hash_of_hex block,
       sb_block_number = Some number \<rparr>"

definition proof_receipt :: "SignedCallOutcome \<Rightarrow> bytes \<Rightarrow> SubmitReceipt" where
  "proof_receipt outcome extrinsic =
     (case outcome of
        CallSuccess block number \<Rightarrow> success_receipt block number extrinsic
      | DispatchFailed error lost_race \<Rightarrow>
          if lost_race then receipt_of StopRoundStale extrinsic
          else receipt_of (classify_receipt (Some error)) extrinsic
      | CallInvalid message \<Rightarrow> receipt_of (classify_receipt (Some message)) extrinsic
      | CallDropped message \<Rightarrow> receipt_of Retry extrinsic)"

definition submit_proof :: "('key, 'sig) Net \<Rightarrow> Proof \<Rightarrow> SubmitReceipt io" where
  "submit_proof N proof =
     bind_io (pair_io N) (\<lambda>pair.
     bind_io (get_io cl_last_snapshot) (\<lambda>held.
     bind_io (need (Unavailable ''submit_proof requires a prior fetch_mining_snapshot'') held) (\<lambda>snap.
     bind_io (get_io cl_last_spin_spec) (\<lambda>spec.
     bind_io (need (SubmitErr (''proof.salt must be 32 bytes for live submit_proof ''
         @ ''(session does not yet thread salt through Job)'')) (extract_salt proof)) (\<lambda>salt.
       let ctx = \<lparr> pb_topology_hash = (if length (ms_topology_hash snap) = 32 then ms_topology_hash snap else replicate 32 0),
                   pb_last_proof_block_hash = ms_last_proof_block_hash snap,
                   pb_miner_identity = miner_identity_bytes (nt_codec N) pair,
                   pb_salt = salt, pb_num_nodes = length (ms_nodes snap),
                   pb_allowed_spin = (case spec of Some s \<Rightarrow> s | None \<Rightarrow> SetSpec (ms_allowed_spin_milli snap)) \<rparr>
       in bind_io (lift_io (map_err (\<lambda>e. SubmitErr (''encode proof: '' @ e)) (build_quantum_proof N proof ctx))) (\<lambda>quantum.
          bind_io (submit_signed_call N (encode_submit_proof_call (nt_codec N) quantum)
                     (ProofWin (cd_signer_account (nt_codec N) pair))) (\<lambda>(outcome, extrinsic).
          pure_io (proof_receipt outcome extrinsic))))))))"

definition solution_receipt :: "SignedCallOutcome \<Rightarrow> bytes \<Rightarrow> SubmitReceipt" where
  "solution_receipt outcome extrinsic =
     (case outcome of
        CallSuccess block number \<Rightarrow> success_receipt block number extrinsic
      | DispatchFailed reason _ \<Rightarrow> receipt_of StopFatal extrinsic
      | CallInvalid reason \<Rightarrow> receipt_of StopFatal extrinsic
      | CallDropped message \<Rightarrow> receipt_of Retry extrinsic)"

definition submit_solution :: "('key, 'sig) Net \<Rightarrow> Proof \<Rightarrow> SubmitReceipt io" where
  "submit_solution N proof =
     bind_io (lift_io (if length (pr_order_id proof) = 8 then Inr (le_value (pr_order_id proof))
         else Inl (SubmitErr (''mempool order id is '' @ show_nat (length (pr_order_id proof)) @ '' bytes, expected 8'')))) (\<lambda>order_id.
     bind_io (pair_io N) (\<lambda>pair.
     bind_io (submit_signed_call N (encode_submit_solution_call (nt_scale N) order_id (map sr_spins (pr_solutions proof)))
                (SolutionAccepted order_id (cd_signer_account (nt_codec N) pair))) (\<lambda>(outcome, extrinsic).
     pure_io (solution_receipt outcome extrinsic))))"

subsection \<open>Registration, descriptor and participation\<close>

text \<open>The common tail: success, a classified rejection, or an error.\<close>

definition settle_call :: "'a \<Rightarrow> (string \<Rightarrow> 'a option) \<Rightarrow> SignedCallOutcome \<Rightarrow> 'a io" where
  "settle_call accepted classify outcome =
     (case outcome of
        CallSuccess _ _ \<Rightarrow> pure_io accepted
      | DispatchFailed error _ \<Rightarrow> need (SubmitErr error) (classify error)
      | CallInvalid error \<Rightarrow> need (SubmitErr error) (classify error)
      | CallDropped message \<Rightarrow> fail_io (SubmitErr message))"

definition ensure_miner_registered :: "('key, 'sig) Net \<Rightarrow> RegistrationOutcome io" where
  "ensure_miner_registered N =
     bind_io (pair_io N) (\<lambda>pair.
       let account = cd_signer_account (nt_codec N) pair in
       bind_io (miner_is_registered N account) (\<lambda>present.
         if present then pure_io AlreadyRegistered
         else bind_io (submit_signed_call N encode_register_miner_call (MinerRegisteredAt account)) (\<lambda>(outcome, _).
              settle_call Registered (\<lambda>e. classify_registration (Some e)) outcome)))"

definition register_solver :: "('key, 'sig) Net \<Rightarrow> bytes \<Rightarrow> SolverType \<Rightarrow> RegistrationOutcome io" where
  "register_solver N account want =
     bind_io (submit_signed_call N (encode_register_solver_call (nt_scale N) want) (SolverRegistered account)) (\<lambda>(outcome, _).
     settle_call Registered (\<lambda>e. classify_registration (Some e)) outcome)"

text \<open>An entry of another type is removed before the new one is written.\<close>

definition settle_solver :: "('key, 'sig) Net \<Rightarrow> bytes \<Rightarrow> SolverType \<Rightarrow> SolverType option \<Rightarrow> RegistrationOutcome io" where
  "settle_solver N account want registered =
     (case registered of
        None \<Rightarrow> register_solver N account want
      | Some registered \<Rightarrow>
          if registered = want then pure_io AlreadyRegistered
          else bind_io (put_io (\<lambda>c. c\<lparr>cl_registered_solver := None\<rparr>)) (\<lambda>_.
               bind_io (submit_signed_call N encode_deregister_solver_call (SolverDeregistered account)) (\<lambda>(outcome, _).
                 case outcome of
                   CallSuccess _ _ \<Rightarrow> register_solver N account want
                 | DispatchFailed error _ \<Rightarrow> fail_io (SubmitErr (''deregister_solver: '' @ error))
                 | CallInvalid error \<Rightarrow> fail_io (SubmitErr (''deregister_solver: '' @ error))
                 | CallDropped error \<Rightarrow> fail_io (SubmitErr (''deregister_solver: '' @ error)))))"

definition ensure_solver_registered :: "('key, 'sig) Net \<Rightarrow> RegistrationOutcome io" where
  "ensure_solver_registered N =
     bind_io (put_io (\<lambda>c. c\<lparr>cl_registered_solver := None\<rparr>)) (\<lambda>_.
     bind_io (pair_io N) (\<lambda>pair.
       let account = cd_signer_account (nt_codec N) pair in
       bind_io (get_io (\<lambda>c. solver_type_of (cl_participate_kind c))) (\<lambda>want.
       bind_io (head_hex N) (\<lambda>at_hex.
       bind_io (registered_solver_type N account at_hex) (\<lambda>registered.
       settle_solver N account want registered)))))"

definition file_descriptor :: "('key, 'sig) Net \<Rightarrow> NodeDescriptorV2Input \<Rightarrow> DescriptorOutcome io" where
  "file_descriptor N descriptor =
     bind_io (pair_io N) (\<lambda>pair.
     bind_io (submit_signed_call N (encode_set_descriptor_call (nt_scale N) descriptor)
                (DescriptorPresent (cd_signer_account (nt_codec N) pair))) (\<lambda>(outcome, _).
     settle_call Filed (\<lambda>e. classify_descriptor (Some e)) outcome))"

definition declare_participation :: "('key, 'sig) Net \<Rightarrow> nat \<Rightarrow> ParticipationOutcome io" where
  "declare_participation N qblock_id =
     bind_io (get_io cl_participate_kind) (\<lambda>kind.
     bind_io (pair_io N) (\<lambda>pair.
     bind_io (submit_signed_call N (encode_participate_call (nt_scale N) qblock_id kind None)
                (Participation qblock_id (cd_signer_account (nt_codec N) pair))) (\<lambda>(outcome, _).
     settle_call Declared (\<lambda>e. classify_participation (Some e)) outcome)))"

subsection \<open>Reads\<close>

definition free_balance :: "('key, 'sig) Net \<Rightarrow> bytes \<Rightarrow> Client \<Rightarrow> ((string + nat) \<times> Client) option" where
  "free_balance N account c =
     (case rpc_call N ''chain_getBlockHash'' [] c of
        None \<Rightarrow> None
      | Some (Inl e, c) \<Rightarrow> Some (Inl (chain_error_text e), c)
      | Some (Inr head, c) \<Rightarrow>
          (case as_string head of
             None \<Rightarrow> Some (Inl ''chain_getBlockHash did not return a string'', c)
           | Some at_hex \<Rightarrow>
               (case get_storage N (system_account_storage_key (nt_xxhash64 N) (nt_blake2_128 N) account) at_hex c of
                  None \<Rightarrow> None
                | Some (Inl e, c) \<Rightarrow> Some (Inl (chain_error_text e), c)
                | Some (Inr raw, c) \<Rightarrow>
                    (case as_string raw of
                       None \<Rightarrow> Some (Inr 0, c)
                     | Some hex \<Rightarrow> (case hex_decode hex of
                           Inl e \<Rightarrow> Some (Inl (hex_error_text e), c)
                         | Inr bytes \<Rightarrow> Some (free_from_account_bytes bytes, c))))))"

text \<open>
  The five reads the source joins run one after the other here: they touch different fields of the client,
  and the network may answer each of them as it likes.
\<close>

definition head_block :: "('key, 'sig) Net \<Rightarrow> bytes option \<Rightarrow> bytes io" where
  "head_block N chosen =
     (case chosen of
        Some h \<Rightarrow> pure_io h
      | None \<Rightarrow>
          bind_io (head_hex N) (\<lambda>hex.
          bind_io (decode_hex hex) (\<lambda>bytes.
            if length bytes \<noteq> 32 then fail_io (DecodeErr (''block hash len '' @ show_nat (length bytes)))
            else pure_io bytes)))"

definition snapshot_of ::
  "bytes \<Rightarrow> nat \<Rightarrow> nat \<Rightarrow> bytes \<Rightarrow> bytes option \<Rightarrow> nat option \<Rightarrow> DifficultyConfig \<Rightarrow> TopologyMetaScale \<Rightarrow> string + MiningSnapshot" where
  "snapshot_of block_hash block_number spec_version topology stored_root last_proof_block difficulty meta =
     (case require_set_values (tm_allowed_h_values meta) of
        Inl e \<Rightarrow> Inl e
      | Inr h \<Rightarrow> (case require_set_values (tm_allowed_j_values meta) of
          Inl e \<Rightarrow> Inl e
        | Inr j \<Rightarrow> (case require_set_values (tm_allowed_spin_values meta) of
            Inl e \<Rightarrow> Inl e
          | Inr spin \<Rightarrow> Inr
              \<lparr> ms_head_hash = block_hash,
                ms_last_proof_block_hash = round_root block_hash block_number
                  (case last_proof_block of None \<Rightarrow> 0 | Some n \<Rightarrow> n)
                  (case stored_root of None \<Rightarrow> replicate 32 0 | Some r \<Rightarrow> r),
                ms_topology_hash = topology, ms_nodes = tm_nodes meta, ms_edges = tm_edges meta,
                ms_allowed_h_milli = h, ms_allowed_j_milli = j, ms_allowed_spin_milli = spin,
                ms_min_solutions = df_min_solutions difficulty, ms_max_energy_milli = df_max_energy_milli difficulty,
                ms_min_diversity_milli = df_min_diversity_milli difficulty, ms_block_number = block_number,
                ms_spec_version = spec_version \<rparr>)))"

definition snapshot_on ::
  "('key, 'sig) Net \<Rightarrow> bytes \<Rightarrow> json \<Rightarrow> json \<Rightarrow> nat option \<Rightarrow> bytes option \<Rightarrow> bytes \<Rightarrow> MiningSnapshot option io" where
  "snapshot_on N block_hash header runtime_version last_proof_block stored_root topology =
     bind_io (lift_io (parse_block_number header)) (\<lambda>block_number.
     bind_io (lift_io (parse_spec_version runtime_version)) (\<lambda>spec_version.
     bind_io (quantum_pow_call_by_hash N (sd_difficulty_opt (nt_scale N)) ''QuantumPowApi_difficulty_for'' topology
                (hex_encode block_hash)) (\<lambda>decayed.
       case decayed of
         None \<Rightarrow> pure_io None
       | Some difficulty \<Rightarrow>
           bind_io (topology_meta N topology (hex_encode block_hash)) (\<lambda>registered.
             case registered of
               None \<Rightarrow> pure_io None
             | Some meta \<Rightarrow>
                 bind_io (lift_io (map_err DecodeErr (snapshot_of block_hash block_number spec_version topology
                            stored_root last_proof_block difficulty meta))) (\<lambda>snap.
                 bind_io (put_io (\<lambda>c. c\<lparr>cl_last_snapshot := Some snap,
                            cl_last_spin_spec := Some (tm_allowed_spin_values meta)\<rparr>)) (\<lambda>_.
                 pure_io (Some snap)))))))"

definition fetch_mining_snapshot ::
  "('key, 'sig) Net \<Rightarrow> bytes option \<Rightarrow> bytes option \<Rightarrow> MiningSnapshot option io" where
  "fetch_mining_snapshot N chosen_block chosen_topology =
     bind_io (head_block N chosen_block) (\<lambda>block_hash.
       let at_hex = hex_encode block_hash; xx = nt_xxhash64 N; S = nt_scale N in
       bind_io (rpc_call N ''chain_getHeader'' [JStr at_hex]) (\<lambda>header.
       bind_io (snapshot_topology_hash_at N chosen_topology at_hex) (\<lambda>named.
       bind_io (read_storage N (sd_u32 S) (last_proof_block_storage_key xx) at_hex) (\<lambda>last_proof_block.
       bind_io (read_storage N (sd_hash S) (last_proof_block_hash_storage_key xx) at_hex) (\<lambda>stored_root.
       bind_io (rpc_call N ''state_getRuntimeVersion'' [JStr at_hex]) (\<lambda>runtime_version.
         case named of
           None \<Rightarrow> pure_io None
         | Some topology \<Rightarrow> snapshot_on N block_hash header runtime_version last_proof_block stored_root topology))))))"

definition fetch_latest_qblock_id :: "('key, 'sig) Net \<Rightarrow> nat option io" where
  "fetch_latest_qblock_id N =
     bind_io (head_hex N) (\<lambda>hex.
     bind_io (decode_hex hex) (\<lambda>block_hash.
     bind_io (rpc_call N ''state_call'' [JStr ''QuantumPowApi_latest_qblock_id'', JStr (hex_encode []), JStr (hex_encode block_hash)])
       (\<lambda>result.
       case as_string result of
         None \<Rightarrow> pure_io None
       | Some hex \<Rightarrow> bind_io (decode_hex hex) (\<lambda>bytes. decode_scale (sd_qblock_opt (nt_scale N)) bytes))))"

definition fetch_miner_info :: "('key, 'sig) Net \<Rightarrow> bytes \<Rightarrow> MinerInfo option io" where
  "fetch_miner_info N account =
     bind_io (head_hex N) (\<lambda>at_hex.
     bind_io (read_storage N (sd_miner_info (nt_scale N)) (miners_storage_key (nt_xxhash64 N) (nt_blake2_128 N) account) at_hex)
       (\<lambda>scale. pure_io (map_option (\<lambda>s.
         \<lparr> mi_registered_at = mn_registered_at s, mi_deposit = mn_deposit s, mi_proofs_submitted = mn_proofs_submitted s,
           mi_proofs_won = mn_proofs_won s, mi_rewards_earned = mn_rewards_earned s \<rparr>) scale)))"

definition fetch_decay_params :: "('key, 'sig) Net \<Rightarrow> bytes \<Rightarrow> DecayParams option io" where
  "fetch_decay_params N topology =
     (let xx = nt_xxhash64 N; bl = nt_blake2_128 N; S = nt_scale N in
      bind_io (head_hex N) (\<lambda>at_hex.
      bind_io (read_storage N (sd_difficulty S) (difficulties_storage_key xx bl topology) at_hex) (\<lambda>base.
      bind_io (read_storage N (sd_u32 S) (last_proof_block_storage_key xx) at_hex) (\<lambda>last_proof_block.
      bind_io (read_storage N (sd_curve S) (topology_curve_c_storage_key xx bl topology) at_hex) (\<lambda>curve.
        let (c_easy, c_knee, c_hard) = (case curve of
              None \<Rightarrow> (DEFAULT_C_EASY_MILLI, DEFAULT_C_KNEE_MILLI, DEFAULT_C_HARD_MILLI)
            | Some c \<Rightarrow> (cc_easy_milli c, cc_knee_milli c, cc_hard_milli c))
        in pure_io (Some
          \<lparr> dp_base_max_energy_milli = (case base of None \<Rightarrow> DEFAULT_BASE_MAX_ENERGY_MILLI | Some d \<Rightarrow> df_max_energy_milli d),
            dp_last_proof_block = (case last_proof_block of None \<Rightarrow> 0 | Some n \<Rightarrow> n),
            dp_epoch_length = EPOCH_LENGTH_BLOCKS,
            dp_c_easy_milli = c_easy, dp_c_knee_milli = c_knee, dp_c_hard_milli = c_hard \<rparr>))))))"

subsection \<open>Mempool orders\<close>

definition ORDER_PAGE_SIZE :: nat where
  "ORDER_PAGE_SIZE = 200"

text \<open>Keys that are no strings or no order keys are skipped; bad hexadecimal text ends the walk.\<close>

fun page_order_ids :: "(nat \<Rightarrow> bytes \<Rightarrow> nat) \<Rightarrow> json list \<Rightarrow> ChainError + nat list" where
  "page_order_ids xx [] = Inr []"
| "page_order_ids xx (k # keys) =
     (case as_string k of
        None \<Rightarrow> page_order_ids xx keys
      | Some hex \<Rightarrow>
          (case hex_decode hex of
             Inl e \<Rightarrow> Inl (DecodeErr (hex_error_text e))
           | Inr bytes \<Rightarrow>
               (case page_order_ids xx keys of
                  Inl e \<Rightarrow> Inl e
                | Inr ids \<Rightarrow> Inr (opt_list (order_id_from_key xx bytes) @ ids))))"

definition order_page_params :: "string \<Rightarrow> string option \<Rightarrow> string \<Rightarrow> json list" where
  "order_page_params key_prefix start_key head =
     [JStr key_prefix, JNum (int ORDER_PAGE_SIZE), (case start_key of Some k \<Rightarrow> JStr k | None \<Rightarrow> JNull), JStr head]"

text \<open>The walk over the key pages; \<open>None\<close> when full pages never end.\<close>

partial_function (option) order_id_walk ::
  "('key, 'sig) Net \<Rightarrow> string \<Rightarrow> string \<Rightarrow> string option \<Rightarrow> nat list \<Rightarrow> Client
    \<Rightarrow> ((ChainError + nat list) \<times> Client) option" where
  "order_id_walk N key_prefix head start_key order_ids c =
     (case rpc_call N ''state_getKeysPaged'' (order_page_params key_prefix start_key head) c of
        None \<Rightarrow> None
      | Some (Inl e, c) \<Rightarrow> Some (Inl e, c)
      | Some (Inr page, c) \<Rightarrow>
          (case as_array page of
             None \<Rightarrow> Some (Inr order_ids, c)
           | Some keys \<Rightarrow>
               if keys = [] then Some (Inr order_ids, c)
               else case page_order_ids (nt_xxhash64 N) keys of
                      Inl e \<Rightarrow> Some (Inl e, c)
                    | Inr ids \<Rightarrow>
                        if length keys \<noteq> ORDER_PAGE_SIZE then Some (Inr (order_ids @ ids), c)
                        else order_id_walk N key_prefix head (as_string (last keys)) (order_ids @ ids) c))"

definition order_from_scale :: "nat \<Rightarrow> JobOrderScale \<Rightarrow> nat \<Rightarrow> JobOrder" where
  "order_from_scale oid scale deadline_ms =
     (let p = os_ising_params scale in
      \<lparr> jo_order_id = le_bytes 8 oid, jo_mode = os_mode scale, jo_nodes = ip_nodes p, jo_edges = ip_edges p,
        jo_h_milli = ip_h_values p, jo_j_milli = ip_j_values p, jo_min_energy_milli = ip_min_energy_milli p,
        jo_min_diversity_milli = ip_min_diversity_milli p, jo_min_solutions = ip_min_solutions p,
        jo_deadline_ms = deadline_ms \<rparr>)"

text \<open>One order: absent, closed, expired and excluding orders are skipped.\<close>

definition read_order ::
  "('key, 'sig) Net \<Rightarrow> bytes \<Rightarrow> string \<Rightarrow> nat \<Rightarrow> nat \<Rightarrow> nat \<Rightarrow> JobOrder option io" where
  "read_order N miner_account head head_number now_ms oid =
     bind_io (get_storage N (job_orders_storage_key (nt_xxhash64 N) (nt_blake2_128 N) oid) head) (\<lambda>raw.
       case as_string raw of
         None \<Rightarrow> pure_io None
       | Some hex \<Rightarrow>
           bind_io (decode_hex hex) (\<lambda>bytes.
           bind_io (lift_io (map_err (\<lambda>e. DecodeErr (''JobOrder '' @ show_nat oid @ '': '' @ e)) (sd_job_order (nt_scale N) bytes)))
             (\<lambda>scale.
             if os_status scale \<noteq> OrderOpened then pure_io None
             else case order_deadline_ms (os_created_at scale) (os_first_solution_at scale) (os_timing scale) head_number now_ms of
                    None \<Rightarrow> pure_io None
                  | Some deadline_ms \<Rightarrow>
                      let order = order_from_scale oid scale deadline_ms in
                      (case jo_mode order of
                         OpenMode \<Rightarrow> pure_io (Some order)
                       | Bid _ _ \<Rightarrow>
                           bind_io (registered_solver_type N miner_account head) (\<lambda>solver.
                           pure_io (case solver of
                               None \<Rightarrow> None
                             | Some solver_type \<Rightarrow> if is_eligible_for order miner_account solver_type then Some order else None))))))"

fun read_orders ::
  "('key, 'sig) Net \<Rightarrow> bytes \<Rightarrow> string \<Rightarrow> nat \<Rightarrow> nat \<Rightarrow> nat list \<Rightarrow> JobOrder list io" where
  "read_orders N miner_account head head_number now_ms [] c = pure_io [] c"
| "read_orders N miner_account head head_number now_ms (oid # ids) c =
     bind_io (read_order N miner_account head head_number now_ms oid) (\<lambda>order.
     bind_io (read_orders N miner_account head head_number now_ms ids) (\<lambda>orders.
     pure_io (opt_list order @ orders))) c"

definition fetch_mempool_orders :: "('key, 'sig) Net \<Rightarrow> bytes \<Rightarrow> JobOrder list io" where
  "fetch_mempool_orders N miner_account =
     bind_io (head_hex N) (\<lambda>head.
     bind_io (decode_hex head) (\<lambda>head_bytes.
       if length head_bytes \<noteq> 32
       then fail_io (DecodeErr (''head hash is '' @ show_nat (length head_bytes) @ '' bytes, expected 32''))
       else bind_io (order_id_walk N (hex_encode (job_orders_prefix (nt_xxhash64 N))) head None []) (\<lambda>order_ids.
            bind_io (get_header N head) (\<lambda>head_number.
            bind_io (get_io (\<lambda>c. nt_now_ms N (cl_requests c))) (\<lambda>now_ms.
            read_orders N miner_account head head_number now_ms order_ids)))))"

subsection \<open>Pending proofs\<close>

fun pending_entries ::
  "('key, 'sig) Net \<Rightarrow> RuntimeTxContext \<Rightarrow> json list \<Rightarrow> ChainError + QuantumProof PendingProof list" where
  "pending_entries N ctx [] = Inr []"
| "pending_entries N ctx (entry # entries) =
     (case as_string entry of
        None \<Rightarrow> pending_entries N ctx entries
      | Some hex \<Rightarrow>
          (case hex_decode hex of
             Inl e \<Rightarrow> Inl (DecodeErr (hex_error_text e))
           | Inr bytes \<Rightarrow>
               (case pending_entries N ctx entries of
                  Inl e \<Rightarrow> Inl e
                | Inr proofs \<Rightarrow> Inr (opt_list (decode_pending_proof (nt_codec N) bytes ctx) @ proofs))))"

definition fetch_pending_proofs :: "('key, 'sig) Net \<Rightarrow> QuantumProof PendingProof list io" where
  "fetch_pending_proofs N =
     bind_io (rpc_call N ''author_pendingExtrinsics'' []) (\<lambda>raw.
     bind_io (need (DecodeErr ''author_pendingExtrinsics did not return an array'') (as_array raw)) (\<lambda>entries.
     bind_io (runtime_tx_context N) (\<lambda>ctx.
     lift_io (pending_entries N ctx entries))))"

end
