(* ===== verification/Client_Laws.thy ===== *)
theory Client_Laws
  imports Client
begin

text \<open>
  What the chain client promises. A node is \<open>honest\<close> towards a chain when every answer it gives agrees
  with that chain's blocks, headers and storage; it may fail any request and answer other methods as it
  likes. Under an honest node the outcome of a signed call is what the chain's state says, orders and
  topologies are those of the chain, and the walk over order keys ends with all of them.
\<close>

subsection \<open>Requests\<close>

text \<open>The first validator that answers decides, and the requests before it failed.\<close>

lemma rpc_try_Inr:
  "rpc_try N meth params urls failed c = Some (Inr v, c') \<longleftrightarrow>
     (\<exists>i < length urls. (\<forall>j < i. \<exists>e. nt_request N (cl_requests c + j) (urls ! j) meth params = Inl e)
        \<and> nt_request N (cl_requests c + i) (urls ! i) meth params = Inr v
        \<and> c' = c\<lparr>cl_reachable := Some True, cl_requests := cl_requests c + i + 1\<rparr>)"
proof (induction urls arbitrary: failed c)
  case (Cons url urls)
  show ?case
  proof (cases "nt_request N (cl_requests c) url meth params")
    case (Inl e)
    then show ?thesis
      by (simp add: Cons.IH [of "Some e"] Ex_less_Suc2 All_less_Suc2)
  next
    case (Inr w)
    then show ?thesis
      by (auto simp: Ex_less_Suc2 All_less_Suc2 note_reachability_def)
  qed
qed simp

text \<open>A failing walk over the validators reports the last one's error and an unreachable node.\<close>

lemma rpc_try_Inl:
  "rpc_try N meth params urls failed c = Some (Inl e, c') \<longleftrightarrow>
     (\<forall>j < length urls. \<exists>e. nt_request N (cl_requests c + j) (urls ! j) meth params = Inl e)
     \<and> (if urls = [] then e = (case failed of None \<Rightarrow> no_validators | Some e \<Rightarrow> e)
        else nt_request N (cl_requests c + length urls - 1) (last urls) meth params = Inl e)
     \<and> c' = (if cl_validators c = [] then c\<lparr>cl_requests := cl_requests c + length urls\<rparr>
             else c\<lparr>cl_reachable := Some False, cl_requests := cl_requests c + length urls\<rparr>)"
proof (induction urls arbitrary: failed c)
  case Nil
  then show ?case by (auto simp: note_reachability_def)
next
  case (Cons url urls)
  show ?case
    by (cases "nt_request N (cl_requests c) url meth params")
       (auto simp: Cons.IH All_less_Suc2 split: if_splits)
qed

lemma rpc_call_Inr:
  "rpc_call N meth params c = Some (Inr v, c') \<longleftrightarrow>
     (\<exists>i < length (cl_validators c).
        (\<forall>j < i. \<exists>e. nt_request N (cl_requests c + j) (cl_validators c ! j) meth params = Inl e)
        \<and> nt_request N (cl_requests c + i) (cl_validators c ! i) meth params = Inr v
        \<and> c' = c\<lparr>cl_reachable := Some True, cl_requests := cl_requests c + i + 1\<rparr>)"
  by (auto simp: rpc_call_def fail_io_def rpc_try_Inr)

lemma rpc_call_not_None [simp]: "rpc_call N meth params c \<noteq> None"
proof -
  have "rpc_try N meth params urls failed c \<noteq> None" for urls failed c
    by (induction urls arbitrary: failed c) (auto split: sum.splits)
  then show ?thesis by (simp add: rpc_call_def fail_io_def)
qed

text \<open>A read touches the reachability flag and the request counter only.\<close>

definition polled :: "Client \<Rightarrow> Client \<Rightarrow> bool" where
  "polled c c' \<longleftrightarrow> (\<exists>r n. c' = c\<lparr>cl_reachable := r, cl_requests := n\<rparr>)"

lemma polled_refl [simp]: "polled c c"
  unfolding polled_def by (rule exI [of _ "cl_reachable c"], rule exI [of _ "cl_requests c"]) simp

lemma polled_trans: "polled c d \<Longrightarrow> polled d e \<Longrightarrow> polled c e"
  unfolding polled_def by (elim exE) (simp, blast)

lemma polledD:
  assumes "polled c c'"
  shows "cl_validators c' = cl_validators c" "cl_signer_key c' = cl_signer_key c"
    "cl_last_snapshot c' = cl_last_snapshot c" "cl_last_spin_spec c' = cl_last_spin_spec c"
    "cl_topology c' = cl_topology c" "cl_tx_context c' = cl_tx_context c"
    "cl_participate_kind c' = cl_participate_kind c" "cl_registered_solver c' = cl_registered_solver c"
  using assms by (auto simp: polled_def)

lemma polled_rpc: "rpc_call N meth params c = Some (Inr v, c') \<Longrightarrow> polled c c'"
  by (auto simp: rpc_call_Inr polled_def)

lemma hex_decode_encode [simp]: "hex_decode (hex_encode bs) = Inr bs"
  using hex_roundtrip by blast

subsection \<open>Honest nodes\<close>

record Chain =
  ch_body :: "string \<Rightarrow> bytes list"
  ch_number :: "string \<Rightarrow> nat"
  ch_storage :: "string \<Rightarrow> bytes \<Rightarrow> bytes option"

definition answers :: "Chain \<Rightarrow> string \<Rightarrow> json list \<Rightarrow> json \<Rightarrow> bool" where
  "answers ch meth params v \<longleftrightarrow>
     (\<forall>b. meth = ''chain_getBlock'' \<and> params = [JStr b] \<longrightarrow>
        Option.bind (get_key v ''block'') (\<lambda>block. get_key block ''extrinsics'')
          = Some (JArr (map (\<lambda>e. JStr (hex_encode e)) (ch_body ch b))))
     \<and> (\<forall>b. meth = ''chain_getHeader'' \<and> params = [JStr b] \<longrightarrow>
        (\<exists>s. get_key v ''number'' = Some (JStr s) \<and> u64_from_hex (strip_0x s) = Inr (ch_number ch b)))
     \<and> (\<forall>key b. meth = ''state_getStorage'' \<and> params = [JStr (hex_encode key), JStr b] \<longrightarrow>
        v = (case ch_storage ch b key of None \<Rightarrow> JNull | Some bs \<Rightarrow> JStr (hex_encode bs)))"

definition honest :: "('key, 'sig) Net \<Rightarrow> Chain \<Rightarrow> bool" where
  "honest N ch \<longleftrightarrow> (\<forall>t url meth params v. nt_request N t url meth params = Inr v \<longrightarrow> answers ch meth params v)"

lemma honest_rpc: "honest N ch \<Longrightarrow> rpc_call N meth params c = Some (Inr v, c') \<Longrightarrow> answers ch meth params v"
  by (auto simp: honest_def rpc_call_Inr)

text \<open>The account a block's quantum block names, and whether a call took effect at a block.\<close>

definition winner_at :: "('key, 'sig) Net \<Rightarrow> Chain \<Rightarrow> string \<Rightarrow> bytes option" where
  "winner_at N ch b =
     map_option (take 32) (ch_storage ch b (qblocks_storage_key (nt_xxhash64 N) (nt_blake2_128 N) (ch_number ch b)))"

definition included_at :: "('key, 'sig) Net \<Rightarrow> Chain \<Rightarrow> string \<Rightarrow> bytes \<Rightarrow> bool" where
  "included_at N ch b h \<longleftrightarrow> (\<exists>ext \<in> set (ch_body ch b). extrinsic_hash (nt_codec N) ext = h)"

definition took_effect :: "('key, 'sig) Net \<Rightarrow> Chain \<Rightarrow> MinerKind \<Rightarrow> string \<Rightarrow> Confirmation \<Rightarrow> bool" where
  "took_effect N ch kind b confirmation =
     (let xx = nt_xxhash64 N; bl = nt_blake2_128 N; present = (\<lambda>key. ch_storage ch b key \<noteq> None) in
      case confirmation of
        ProofWin account \<Rightarrow> winner_at N ch b = Some account
      | DescriptorPresent account \<Rightarrow> present (node_descriptors_storage_key xx bl account)
      | MinerRegisteredAt account \<Rightarrow> present (miners_storage_key xx bl account)
      | Participation qblock account \<Rightarrow> present (participants_by_qblock_storage_key xx bl qblock account)
      | DefaultTopologySet \<Rightarrow> present (default_topology_storage_key xx)
      | DifficultySet topology \<Rightarrow> present (difficulties_storage_key xx bl topology)
      | SolverRegistered account \<Rightarrow>
          (\<exists>bs info. ch_storage ch b (solvers_storage_key xx bl account) = Some bs
             \<and> sd_solver_info (nt_scale N) bs = Inr info \<and> si_solver_type info = solver_type_of kind)
      | SolverDeregistered account \<Rightarrow> \<not> present (solvers_storage_key xx bl account)
      | SolutionAccepted order account \<Rightarrow>
          (\<exists>bs s. ch_storage ch b (order_solutions_storage_key xx bl order account) = Some bs
             \<and> sd_job_solution (nt_scale N) bs = Inr s \<and> jl_submitted_at s = ch_number ch b))"

subsection \<open>Reads of an honest node\<close>

lemma answers_storage:
  "answers ch ''state_getStorage'' [JStr (hex_encode key), JStr b] v \<Longrightarrow>
     v = (case ch_storage ch b key of None \<Rightarrow> JNull | Some bs \<Rightarrow> JStr (hex_encode bs))"
  unfolding answers_def by blast

lemma get_storage_honest:
  assumes "honest N ch" "get_storage N key b c = Some (Inr v, c')"
  shows "v = (case ch_storage ch b key of None \<Rightarrow> JNull | Some bs \<Rightarrow> JStr (hex_encode bs)) \<and> polled c c'"
  using honest_rpc [OF assms(1)] polled_rpc assms(2) unfolding get_storage_def by (metis answers_storage)

lemma storage_value_present_honest:
  assumes "honest N ch" "storage_value_present N key b c = Some (Inr r, c')"
  shows "r = (ch_storage ch b key \<noteq> None) \<and> polled c c'"
  using assms(2)
  by (auto simp: storage_value_present_def io_Inr dest!: get_storage_honest [OF assms(1)] split: option.splits)

lemma read_storage_honest:
  assumes "honest N ch" "read_storage N d key b c = Some (Inr r, c')"
  shows "(case ch_storage ch b key of None \<Rightarrow> r = None | Some bs \<Rightarrow> \<exists>v. d bs = Inr v \<and> r = Some v) \<and> polled c c'"
  using assms(2)
  by (auto simp: read_storage_def io_Inr dest!: get_storage_honest [OF assms(1)] split: option.splits)

lemma get_header_honest:
  assumes "honest N ch" "get_header N b c = Some (Inr n, c')"
  shows "n = ch_number ch b \<and> polled c c'"
proof -
  obtain v where v: "rpc_call N ''chain_getHeader'' [JStr b] c = Some (Inr v, c')" "parse_block_number v = Inr n"
    using assms(2) by (auto simp: get_header_def io_Inr)
  then obtain s where "get_key v ''number'' = Some (JStr s)" "u64_from_hex (strip_0x s) = Inr (ch_number ch b)"
    using honest_rpc [OF assms(1) v(1)] by (auto simp: answers_def)
  with v(2) polled_rpc [OF v(1)] show ?thesis
    by (auto simp: parse_block_number_def map_err_def)
qed

lemma any_extrinsic_hex:
  "any_extrinsic f want (map (\<lambda>e. JStr (hex_encode e)) es) c = Some (Inr (\<exists>e \<in> set es. f e = want), c)"
  by (induction es) (auto simp: decode_hex_def io_run pure_io_def map_err_def)

lemma block_contains_honest:
  assumes "honest N ch" "block_contains N b want c = Some (Inr r, c')"
  shows "r = included_at N ch b want \<and> polled c c'"
proof -
  obtain v d es where v: "rpc_call N ''chain_getBlock'' [JStr b] c = Some (Inr v, d)"
      "Option.bind (Option.bind (get_key v ''block'') (\<lambda>b. get_key b ''extrinsics'')) as_array = Some es"
      "any_extrinsic (extrinsic_hash (nt_codec N)) want es d = Some (Inr r, c')"
    using assms(2) by (auto simp: block_contains_def io_Inr)
  with honest_rpc [OF assms(1) v(1)] have "es = map (\<lambda>e. JStr (hex_encode e)) (ch_body ch b)"
    by (auto simp: answers_def)
  with v(3) polled_rpc [OF v(1)] show ?thesis
    by (simp add: any_extrinsic_hex included_at_def)
qed

lemma qblock_winner_honest:
  assumes "honest N ch" "qblock_winner_at N b c = Some (Inr r, c')"
  shows "r = winner_at N ch b \<and> polled c c'"
proof -
  obtain n d1 d2 raw where s: "get_header N b c = Some (Inr n, d1)"
      "get_storage N (qblocks_storage_key (nt_xxhash64 N) (nt_blake2_128 N) n) b d1 = Some (Inr raw, d2)"
    and r: "(case as_string raw of
         None \<Rightarrow> pure_io None
       | Some hex \<Rightarrow>
           bind_io (decode_hex hex) (\<lambda>bytes.
           bind_io (need (DecodeErr (''QBlocks value is '' @ show_nat (length bytes)
               @ '' bytes, too short to hold an account'')) (byte_range bytes 0 32)) (\<lambda>account.
           pure_io (Some account)))) d2 = Some (Inr r, c')"
    using assms(2) by (auto simp: qblock_winner_at_def io_Inr split: if_splits)
  note get_header_honest [OF assms(1) s(1)] get_storage_honest [OF assms(1) s(2)]
  with r show ?thesis
    by (auto simp: winner_at_def io_Inr byte_range_def split: option.splits if_splits intro: polled_trans)
qed

lemma confirmation_honest:
  assumes "honest N ch" "confirmation_present N b confirmation c = Some (Inr r, c')"
  shows "r = took_effect N ch (cl_participate_kind c) b confirmation"
proof (cases confirmation)
  case (ProofWin a)
  with assms(2) show ?thesis
    by (auto simp: confirmation_present_def took_effect_def proof_win_at_def io_Inr dest: qblock_winner_honest [OF assms(1)])
next
  case (SolverRegistered a)
  with assms(2) show ?thesis
    by (auto simp: confirmation_present_def took_effect_def io_Inr Let_def
        dest!: read_storage_honest [OF assms(1)] polledD(7) split: option.splits if_splits)
next
  case (SolverDeregistered a)
  with assms(2) show ?thesis
    by (auto simp: confirmation_present_def took_effect_def io_Inr dest!: storage_value_present_honest [OF assms(1)])
next
  case (SolutionAccepted q a)
  with assms(2) show ?thesis
    by (auto simp: confirmation_present_def took_effect_def io_Inr
        dest!: read_storage_honest [OF assms(1)] get_header_honest [OF assms(1)] split: option.splits)
qed (use assms(2) in \<open>auto simp: confirmation_present_def took_effect_def dest!: storage_value_present_honest [OF assms(1)]\<close>)

subsection \<open>Signed calls\<close>

lemma fetch_runtime_tx_context_polled:
  "fetch_runtime_tx_context N c = Some (Inr ctx, c') \<Longrightarrow> polled c c'"
  by (auto simp: fetch_runtime_tx_context_def io_Inr split: if_splits dest!: polled_rpc intro: polled_trans)

lemma signed_extension_context_polled:
  "signed_extension_context N pair c = Some (Inr ctx, c') \<Longrightarrow> polled c c'"
  by (auto simp: signed_extension_context_def io_Inr split: if_splits
      dest!: polled_rpc fetch_runtime_tx_context_polled intro: polled_trans)

text \<open>What a decided call says about the chain.\<close>

definition outcome_agrees ::
  "('key, 'sig) Net \<Rightarrow> Chain \<Rightarrow> MinerKind \<Rightarrow> Confirmation \<Rightarrow> bytes \<Rightarrow> SignedCallOutcome \<Rightarrow> bool" where
  "outcome_agrees N ch kind confirmation h outcome =
     (case outcome of
        CallSuccess b n \<Rightarrow> n = ch_number ch b \<and> included_at N ch b h \<and> took_effect N ch kind b confirmation
      | DispatchFailed error lost_race \<Rightarrow>
          (\<exists>b. included_at N ch b h \<and> \<not> took_effect N ch kind b confirmation
             \<and> (lost_race \<longrightarrow> (\<exists>a w. confirmation = ProofWin a \<and> winner_at N ch b = Some w \<and> w \<noteq> a
                   \<and> error = fst (explain_proof_failure a (Some w)))))
      | _ \<Rightarrow> True)"

lemma explain_proof_failure_lost:
  "snd (explain_proof_failure a winner) \<longleftrightarrow> (\<exists>w. winner = Some w \<and> w \<noteq> a)"
  by (simp add: explain_proof_failure_def split: option.splits)

lemma explain_failure_honest:
  assumes "honest N ch" "explain_failure N b confirmation c = Some (Inr (error, lost_race), c')" "lost_race"
  shows "\<exists>a w. confirmation = ProofWin a \<and> winner_at N ch b = Some w \<and> w \<noteq> a
           \<and> error = fst (explain_proof_failure a (Some w))"
proof (cases confirmation)
  case (ProofWin a)
  with assms(2,3) obtain winner where w: "qblock_winner_at N b c = Some (Inr winner, c')"
      "(error, lost_race) = explain_proof_failure a winner"
    by (fastforce simp: explain_failure_def split: option.splits sum.splits)
  with assms(3) explain_proof_failure_lost [of a winner] qblock_winner_honest [OF assms(1) w(1)] ProofWin
  show ?thesis by (metis fst_conv snd_conv)
qed (use assms(2,3) in \<open>auto simp: explain_failure_def\<close>)

text \<open>The two reads of a confirmation, resolved against the chain, and what is left to do.\<close>

lemma confirm_in_block_steps:
  assumes h: "honest N ch" and r: "confirm_in_block N b want confirmation c = Some (Inr outcome, c')"
  obtains d d' where "polled c d"
    "confirmation_present N b confirmation d = Some (Inr (took_effect N ch (cl_participate_kind c) b confirmation), d')"
    "(case classify_state_outcome (included_at N ch b want) (took_effect N ch (cl_participate_kind c) b confirmation) of
         Won \<Rightarrow> bind_io (get_header N b) (\<lambda>number. pure_io (CallSuccess b number))
       | IncludedButNotWon \<Rightarrow>
           bind_io (explain_failure N b confirmation) (\<lambda>(error, lost_race). pure_io (DispatchFailed error lost_race))
       | NotIncluded \<Rightarrow> pure_io (CallDropped (''extrinsic absent from block '' @ b))) d' = Some (Inr outcome, c')"
proof -
  obtain included d confirmed d' where 1: "block_contains N b want c = Some (Inr included, d)"
      "confirmation_present N b confirmation d = Some (Inr confirmed, d')"
    and rest: "(case classify_state_outcome included confirmed of
         Won \<Rightarrow> bind_io (get_header N b) (\<lambda>number. pure_io (CallSuccess b number))
       | IncludedButNotWon \<Rightarrow>
           bind_io (explain_failure N b confirmation) (\<lambda>(error, lost_race). pure_io (DispatchFailed error lost_race))
       | NotIncluded \<Rightarrow> pure_io (CallDropped (''extrinsic absent from block '' @ b))) d' = Some (Inr outcome, c')"
    using r by (auto simp only: confirm_in_block_def bind_io_Inr)
  have "included = included_at N ch b want" "polled c d" using block_contains_honest [OF h 1(1)] by auto
  moreover have "confirmed = took_effect N ch (cl_participate_kind c) b confirmation"
    using confirmation_honest [OF h 1(2)] polledD(7) [OF \<open>polled c d\<close>] by simp
  ultimately show thesis using that 1(2) rest by simp
qed

lemma confirm_in_block_honest:
  assumes h: "honest N ch" and r: "confirm_in_block N b want confirmation c = Some (Inr outcome, c')"
  shows "outcome_agrees N ch (cl_participate_kind c) confirmation want outcome"
  using h r
proof (rule confirm_in_block_steps)
  fix d d'
  assume rest: "(case classify_state_outcome (included_at N ch b want) (took_effect N ch (cl_participate_kind c) b confirmation) of
         Won \<Rightarrow> bind_io (get_header N b) (\<lambda>number. pure_io (CallSuccess b number))
       | IncludedButNotWon \<Rightarrow>
           bind_io (explain_failure N b confirmation) (\<lambda>(error, lost_race). pure_io (DispatchFailed error lost_race))
       | NotIncluded \<Rightarrow> pure_io (CallDropped (''extrinsic absent from block '' @ b))) d' = Some (Inr outcome, c')"
  consider (won) "included_at N ch b want" "took_effect N ch (cl_participate_kind c) b confirmation"
    | (lost) "included_at N ch b want" "\<not> took_effect N ch (cl_participate_kind c) b confirmation"
    | (absent) "\<not> included_at N ch b want" by blast
  then show ?thesis
  proof cases
    case won
    with rest show ?thesis
      by (auto simp: io_Inr outcome_agrees_def classify_state_outcome_def dest!: get_header_honest [OF h])
  next
    case lost
    with rest obtain error lost_race where
      "explain_failure N b confirmation d' = Some (Inr (error, lost_race), c')" "outcome = DispatchFailed error lost_race"
      by (auto simp: io_Inr classify_state_outcome_def)
    with lost show ?thesis
      using explain_failure_honest [OF h] by (auto simp: outcome_agrees_def)
  next
    case absent
    with rest show ?thesis
      by (auto simp: io_Inr outcome_agrees_def classify_state_outcome_def simp del: append_Cons)
  qed
qed

text \<open>A status loop ends in a block, a refusal of the pool or an error.\<close>

definition decided ::
  "('key, 'sig) Net \<Rightarrow> bytes \<Rightarrow> Confirmation \<Rightarrow> Client \<Rightarrow> (ChainError + SignedCallOutcome) \<times> Client \<Rightarrow> bool" where
  "decided N want confirmation c r \<longleftrightarrow>
     (\<exists>b. confirm_in_block N b want confirmation c = Some r)
     \<or> snd r = c \<and> (case fst r of Inl _ \<Rightarrow> True | Inr (CallInvalid _) \<Rightarrow> True | Inr (CallDropped _) \<Rightarrow> True | _ \<Rightarrow> False)"

lemma watch_loop_decided:
  assumes "watch_loop N stream want confirmation k c = Some r"
  shows "decided N want confirmation c r"
proof (rule watch_loop.raw_induct [OF _ assms, where P = "\<lambda>N _ want confirmation _ c r. decided N want confirmation c r"])
  fix loop N stream want confirmation k c r
  assume IH: "\<And>N stream want confirmation k c r.
      loop N stream want confirmation k c = Some r \<Longrightarrow> decided N want confirmation c r"
    and body: "(case stream k of
        None \<Rightarrow> Some (Inl (Unavailable ''transaction status stream ended before inclusion''), c)
      | Some (Inl e) \<Rightarrow> Some (Inl e, c)
      | Some (Inr v) \<Rightarrow>
          (case parse_tx_status (nt_json_text N) v of
             TxReady \<Rightarrow> loop N stream want confirmation (k + 1) c
           | TxBroadcast \<Rightarrow> loop N stream want confirmation (k + 1) c
           | TxInBlock block \<Rightarrow> confirm_in_block N block want confirmation c
           | TxFinalized block \<Rightarrow> confirm_in_block N block want confirmation c
           | TxDropped message \<Rightarrow> Some (Inr (CallDropped message), c)
           | TxInvalid message \<Rightarrow> Some (Inr (CallInvalid message), c)
           | TxFuture \<Rightarrow> loop N stream want confirmation (k + 1) c
           | TxOther _ \<Rightarrow> loop N stream want confirmation (k + 1) c)) = Some r"
  then show "decided N want confirmation c r"
    by (auto split: option.splits sum.splits TxStatus.splits dest: IH)
       (auto simp: decided_def)
qed

lemma submit_signed_call_honest:
  assumes h: "honest N ch" and r: "submit_signed_call N call confirmation c = Some (Inr (outcome, hash), c')"
  shows "outcome_agrees N ch (cl_participate_kind c) confirmation hash outcome"
proof -
  obtain pair d ctx d1 url d2 where 1: "pair_io N c = Some (Inr pair, d)"
      "signed_extension_context N pair d = Some (Inr ctx, d1)" "primary_url d1 = Some (Inr url, d2)"
      "submit_and_watch N url (build_hybrid_signed_extrinsic (nt_codec N) pair call ctx) confirmation d2 = Some (Inr outcome, c')"
      "hash = extrinsic_hash (nt_codec N) (build_hybrid_signed_extrinsic (nt_codec N) pair call ctx)"
    using r by (auto simp: submit_signed_call_def io_Inr Let_def)
  have "polled c d2"
    using 1(1,3) signed_extension_context_polled [OF 1(2)]
    by (auto simp: pair_io_def primary_url_def io_Inr)
  then have k: "cl_participate_kind d2 = cl_participate_kind c" by (rule polledD)
  let ?e = "d2\<lparr>cl_requests := cl_requests d2 + 1\<rparr>"
  consider (block) b where "confirm_in_block N b hash confirmation ?e = Some (Inr outcome, c')"
    | (refused) m where "outcome = CallInvalid m \<or> outcome = CallDropped m"
    using 1(4,5) by (cases "nt_subscribe N (cl_requests d2) url (hex_encode (build_hybrid_signed_extrinsic (nt_codec N) pair call ctx))")
      (auto simp: submit_and_watch_def Let_def decided_def split: ChainError.splits SignedCallOutcome.splits dest!: watch_loop_decided)
  then show ?thesis
  proof cases
    case block
    with confirm_in_block_honest [OF h block] k show ?thesis by simp
  qed (auto simp: outcome_agrees_def)
qed

text \<open>
  C19. The answer of a call is that of the first validator that answers, in the configured order, and
  the client is then marked reachable; the call fails exactly when every validator fails, with the
  last one's error, and the client is marked unreachable.  Nothing else of the client changes.
\<close>
theorem rpc_failover:
  assumes "cl_validators c \<noteq> []"
  shows "(rpc_call N meth params c = Some (Inr v, c') \<longleftrightarrow>
      (\<exists>i < length (cl_validators c).
         (\<forall>j < i. \<exists>e. nt_request N (cl_requests c + j) (cl_validators c ! j) meth params = Inl e)
         \<and> nt_request N (cl_requests c + i) (cl_validators c ! i) meth params = Inr v
         \<and> c' = c\<lparr>cl_reachable := Some True, cl_requests := cl_requests c + i + 1\<rparr>))
    \<and> (rpc_call N meth params c = Some (Inl e, c') \<longleftrightarrow>
      (\<forall>j < length (cl_validators c). \<exists>e. nt_request N (cl_requests c + j) (cl_validators c ! j) meth params = Inl e)
      \<and> nt_request N (cl_requests c + length (cl_validators c) - 1) (last (cl_validators c)) meth params = Inl e
      \<and> c' = c\<lparr>cl_reachable := Some False, cl_requests := cl_requests c + length (cl_validators c)\<rparr>)"
  using assms rpc_call_Inr [of N meth params c v c'] by (simp add: rpc_call_def rpc_try_Inl)

lemma proof_receipt_Success:
  "sb_action (proof_receipt outcome h) = Success \<longleftrightarrow> (\<exists>b n. outcome = CallSuccess b n)"
  by (auto simp: proof_receipt_def success_receipt_def receipt_of_def classify_receipt_def
      split: SignedCallOutcome.splits)

lemma submit_proof_call:
  assumes "submit_proof N proof c = Some (Inr r, c')"
  obtains pair quantum outcome h where "nt_load_pair N (cl_signer_key c) = Inr pair"
    "submit_signed_call N (encode_submit_proof_call (nt_codec N) quantum) (ProofWin (cd_signer_account (nt_codec N) pair)) c
       = Some (Inr (outcome, h), c')"
    "r = proof_receipt outcome h"
  using assms by (fastforce simp: submit_proof_def io_Inr pair_io_def Let_def)

text \<open>
  C13. Against an honest node, a proof is reported as a success only when the extrinsic of the receipt is in
  the body of the block named, that block's quantum block names the signing account, and the receipt carries
  that block's number; every other receipt carries no block.  The node may fail and delay as it likes.
\<close>
theorem submit_proof_sound:
  assumes "honest N ch" "submit_proof N proof c = Some (Inr r, c')"
  shows "\<exists>pair h. nt_load_pair N (cl_signer_key c) = Inr pair \<and> sb_extrinsic_hash r = Some h
    \<and> (if sb_action r = Success
       then \<exists>b. included_at N ch b h \<and> winner_at N ch b = Some (cd_signer_account (nt_codec N) pair)
              \<and> sb_block_number r = Some (ch_number ch b) \<and> sb_block_hash r = hash_of_hex b
       else sb_block_number r = None \<and> sb_block_hash r = None)"
proof -
  obtain pair quantum outcome h where 1: "nt_load_pair N (cl_signer_key c) = Inr pair"
    "submit_signed_call N (encode_submit_proof_call (nt_codec N) quantum) (ProofWin (cd_signer_account (nt_codec N) pair)) c
       = Some (Inr (outcome, h), c')"
    and r: "r = proof_receipt outcome h"
    using assms(2) by (rule submit_proof_call)
  note agrees = submit_signed_call_honest [OF assms(1) 1(2)]
  show ?thesis
  proof (intro exI conjI)
    show "if sb_action r = Success
       then \<exists>b. included_at N ch b h \<and> winner_at N ch b = Some (cd_signer_account (nt_codec N) pair)
              \<and> sb_block_number r = Some (ch_number ch b) \<and> sb_block_hash r = hash_of_hex b
       else sb_block_number r = None \<and> sb_block_hash r = None"
      using agrees unfolding r proof_receipt_Success
      by (auto simp: outcome_agrees_def took_effect_def proof_receipt_def success_receipt_def receipt_of_def
          split: SignedCallOutcome.splits)
  qed (use 1(1) r in \<open>auto simp: proof_receipt_def success_receipt_def receipt_of_def split: SignedCallOutcome.splits\<close>)
qed

subsection \<open>A small chain\<close>

text \<open>
  One validator, one block with one extrinsic, and storage whose every entry is 32 zero bytes: the
  witnesses run the client against it.
\<close>

definition zeros :: bytes where
  "zeros = replicate 32 0"

lemma length_zeros [simp]: "length zeros = 32"
  by (simp add: zeros_def)

definition small_chain :: Chain where
  "small_chain = \<lparr> ch_body = \<lambda>_. [[]], ch_number = \<lambda>_. 1, ch_storage = \<lambda>_ _. Some zeros \<rparr>"

definition small_key :: bytes where
  "small_key = job_orders_storage_key (\<lambda>_ _. 0) (\<lambda>_. replicate 16 0) 5"

definition small_request :: "nat \<Rightarrow> string \<Rightarrow> string \<Rightarrow> json list \<Rightarrow> ChainError + json" where
  "small_request t url meth params =
     (if meth = ''chain_getBlockHash'' then Inr (JStr (hex_encode zeros))
      else if meth = ''state_getRuntimeVersion''
      then Inr (JObj [(''specVersion'', JNum 1), (''transactionVersion'', JNum 1)])
      else if meth = ''system_accountNextIndex'' then Inr (JNum 0)
      else if meth = ''chain_getBlock'' then Inr (JObj [(''block'', JObj [(''extrinsics'', JArr [JStr (hex_encode [])])])])
      else if meth = ''chain_getHeader'' then Inr (JObj [(''number'', JStr ''0x1'')])
      else if meth = ''state_getStorage'' \<or> meth = ''state_call'' then Inr (JStr (hex_encode zeros))
      else if meth = ''state_getKeysPaged'' \<and> params ! 2 = JNull then Inr (JArr [JStr (hex_encode small_key)])
      else if meth = ''state_getKeysPaged'' then Inr (JArr [])
      else Inr JNull)"

definition small_codec :: "(unit, unit, QuantumProof) Codec" where
  "small_codec =
     \<lparr> cd_compact = \<lambda>_. [], cd_compact_decode = \<lambda>_ bs. Some (0, bs), cd_signature = \<lambda>_. [],
       cd_signature_decode = \<lambda>bs. Some ((), bs), cd_proof = \<lambda>_. [], cd_proof_decode = \<lambda>_. None,
       cd_blake2_256 = \<lambda>_. zeros, cd_sign = \<lambda>_ _. (), cd_verify = \<lambda>_ _. True,
       cd_derived_account = \<lambda>_. zeros, cd_signer_account = \<lambda>_. zeros \<rparr>"

definition small_meta :: TopologyMetaScale where
  "small_meta = \<lparr> tm_nodes = [0, 1], tm_edges = [(0, 1)], tm_allowed_h_values = SetSpec [0],
     tm_allowed_j_values = SetSpec [1000], tm_allowed_spin_values = SetSpec [- 1000, 1000], tm_registered_at = 0 \<rparr>"

definition small_order :: JobOrderScale where
  "small_order =
     \<lparr> os_spec_id = zeros, os_proposer = zeros,
       os_ising_params = \<lparr> ip_nodes = [0], ip_edges = [], ip_h_values = [1], ip_j_values = [],
         ip_min_energy_milli = None, ip_min_diversity_milli = None, ip_min_solutions = None \<rparr>,
       os_reward = 5, os_mode = OpenMode, os_resolution = SingleBest,
       os_timing = \<lparr> ot_deadline_blocks = 10, ot_block_wait = 2 \<rparr>, os_delivery = OnChainOnly,
       os_status = OrderOpened, os_created_at = 0, os_first_solution_at = None, os_solution_count = 0 \<rparr>"

definition small_scale :: Scale where
  "small_scale =
     \<lparr> sd_u32 = \<lambda>_. Inr 0, sd_hash = \<lambda>_. Inr zeros,
       sd_difficulty = \<lambda>_. Inl ''none'', sd_difficulty_opt = \<lambda>_. Inr (Some \<lparr> df_min_solutions = 1,
         df_max_energy_milli = 0, df_min_diversity_milli = 0 \<rparr>), sd_topology_opt = \<lambda>_. Inr (Some small_meta),
       sd_qblock_opt = \<lambda>_. Inr None, sd_curve = \<lambda>_. Inl ''none'', sd_miner_info = \<lambda>_. Inl ''none'',
       sd_solver_info = \<lambda>_. Inr \<lparr> si_account = zeros, si_solver_type = STCpu, si_registered_at = 0,
         si_solutions_submitted = 0, si_rewards_earned = 0 \<rparr>,
       sd_job_order = \<lambda>_. Inr small_order, sd_job_solution = \<lambda>_. Inl ''none'', se_solver_type = \<lambda>_. [], se_miner_kind = \<lambda>_. [],
       se_budget = \<lambda>_. [], se_spin_rows = \<lambda>_. [], se_descriptor = \<lambda>_. [] \<rparr>"

definition small_stream :: status_stream where
  "small_stream k = (if k = 0 then Some (Inr (JStr ''ready'')) else Some (Inr (JObj [(''inblock'', JStr ''0xab'')])))"

definition small_net :: "(unit, unit) Net" where
  "small_net =
     \<lparr> nt_request = small_request, nt_subscribe = \<lambda>_ _ _. Inr small_stream, nt_now_ms = \<lambda>_. 1000,
       nt_codec = small_codec, nt_scale = small_scale, nt_xxhash64 = \<lambda>_ _. 0, nt_blake2_128 = \<lambda>_. replicate 16 0,
       nt_load_pair = \<lambda>_. Inr (), nt_ss58 = \<lambda>_. ''5G'', nt_json_text = \<lambda>_. ''?'', nt_derive_nonce = \<lambda>_ _ _. 7,
       nt_pack_solution = \<lambda>_ _. Inr [1] \<rparr>"

definition small_snapshot :: MiningSnapshot where
  "small_snapshot = \<lparr> ms_head_hash = zeros, ms_last_proof_block_hash = zeros, ms_topology_hash = zeros, ms_nodes = [0, 1],
     ms_edges = [(0, 1)], ms_allowed_h_milli = [0], ms_allowed_j_milli = [1000], ms_allowed_spin_milli = [- 1000, 1000],
     ms_min_solutions = 1, ms_max_energy_milli = 0, ms_min_diversity_milli = 0, ms_block_number = 1, ms_spec_version = 1 \<rparr>"

definition small_client :: Client where
  "small_client = (new_client [''ws://node''] ''//Alice'' MKCpu)\<lparr>cl_last_snapshot := Some small_snapshot\<rparr>"

definition small_proof :: Proof where
  "small_proof = \<lparr> pr_job_id = [1], pr_best_energy_milli = - 1000, pr_diversity_milli = 0, pr_n_valid = 1,
     pr_solutions = [\<lparr> sr_spins = [1, - 1], sr_energy_milli = - 1000 \<rparr>], pr_is_pow = True, pr_order_id = [],
     pr_generation = 1, pr_salt = zeros, pr_device_access_time_us = 0 \<rparr>"

lemma u64_from_hex_1: "u64_from_hex (strip_0x ''0x1'') = Inr 1"
  by (simp add: u64_from_hex_def strip_0x_def decode_nibble_def)

lemma small_honest: "honest small_net small_chain"
  unfolding honest_def answers_def small_net_def small_chain_def
  by (auto simp: small_request_def u64_from_hex_1 split: if_splits)

lemma small_rpc:
  "cl_validators c = [''ws://node''] \<Longrightarrow> small_request (cl_requests c) ''ws://node'' meth params = Inr v \<Longrightarrow>
     rpc_call small_net meth params c = Some (Inr v, c\<lparr>cl_reachable := Some True, cl_requests := cl_requests c + 1\<rparr>)"
  by (simp add: rpc_call_def note_reachability_def small_net_def)

definition small_confirmations :: "Confirmation list" where
  "small_confirmations = [ProofWin zeros, DescriptorPresent zeros]"

lemma small_confirm:
  assumes "cl_validators c = [''ws://node'']" "confirmation \<in> set small_confirmations"
  shows "\<exists>c'. confirm_in_block small_net ''0xab'' zeros confirmation c = Some (Inr (CallSuccess ''0xab'' 1), c')"
  using assms unfolding small_confirmations_def
  by (auto simp: confirm_in_block_def block_contains_def confirmation_present_def proof_win_at_def qblock_winner_at_def
      storage_value_present_def
      get_header_def get_storage_def bind_io_def lift_io_def need_def pure_io_def decode_hex_def small_rpc small_request_def
      parse_block_number_def u64_from_hex_1 byte_range_def classify_state_outcome_def map_err_def extrinsic_hash_def
      small_codec_def small_net_def [THEN arg_cong [where f = nt_codec]])

lemma small_net_simps [simp]:
  "nt_request small_net = small_request" "nt_subscribe small_net = (\<lambda>_ _ _. Inr small_stream)" "nt_now_ms small_net = (\<lambda>_. 1000)"
  "nt_codec small_net = small_codec" "nt_scale small_net = small_scale" "nt_load_pair small_net = (\<lambda>_. Inr ())"
  "nt_pack_solution small_net = (\<lambda>_ _. Inr [1])" "nt_xxhash64 small_net = (\<lambda>_ _. 0)"
  "nt_derive_nonce small_net = (\<lambda>_ _ _. 7)"
  by (simp_all add: small_net_def)

lemma small_codec_simps [simp]:
  "cd_blake2_256 small_codec = (\<lambda>_. zeros)" "cd_signer_account small_codec = (\<lambda>_. zeros)"
  by (simp_all add: small_codec_def)

lemma small_watch:
  "watch_loop small_net small_stream h confirmation 0 c = confirm_in_block small_net ''0xab'' h confirmation c"
  by (subst watch_loop.simps, simp add: small_stream_def parse_tx_status_def to_ascii_lowercase_def)
     (subst watch_loop.simps, simp add: small_stream_def parse_tx_status_def to_ascii_lowercase_def)

lemma small_call:
  assumes "cl_validators c = [''ws://node'']" "confirmation \<in> set small_confirmations"
  shows "\<exists>c'. submit_signed_call small_net call confirmation c = Some (Inr (CallSuccess ''0xab'' 1, zeros), c')"
proof -
  have ctx: "\<exists>ctx d. signed_extension_context small_net () c = Some (Inr ctx, d)"
    using assms
    by (simp add: signed_extension_context_def fetch_runtime_tx_context_def bind_io_def lift_io_def need_def pure_io_def
        decode_hex_def map_err_def small_rpc small_request_def parse_spec_version_def parse_transaction_version_def parse_u32_field_def)
  then obtain ctx d where d: "signed_extension_context small_net () c = Some (Inr ctx, d)" by blast
  then have v: "cl_validators d = [''ws://node'']"
    using assms polledD(1) [OF signed_extension_context_polled [OF d]] by simp
  obtain e where "confirm_in_block small_net ''0xab'' zeros confirmation (d\<lparr>cl_requests := cl_requests d + 1\<rparr>)
      = Some (Inr (CallSuccess ''0xab'' 1), e)"
    using small_confirm [OF _ assms(2), of "d\<lparr>cl_requests := cl_requests d + 1\<rparr>"] v by auto
  with d v show ?thesis
    by (simp add: submit_signed_call_def bind_io_def pair_io_def lift_io_def map_err_def need_def primary_url_def pure_io_def
        submit_and_watch_def small_watch extrinsic_hash_def Let_def)
qed

theorem submit_proof_sound_witness:
  "\<exists>r c'. submit_proof small_net small_proof small_client = Some (Inr r, c') \<and> sb_action r = Success
     \<and> sb_block_number r = Some 1 \<and> winner_at small_net small_chain ''0xab'' = Some zeros"
proof -
  let ?q = "\<lparr> qp_topology_hash = zeros, qp_nonce = 7, qp_salt = zeros, qp_solutions = [[1]], qp_device_access_time_us = 0 \<rparr>"
  obtain c' where "submit_signed_call small_net (encode_submit_proof_call small_codec ?q) (ProofWin zeros) small_client
      = Some (Inr (CallSuccess ''0xab'' 1, zeros), c')"
    using small_call [of small_client "ProofWin zeros"] by (auto simp: small_client_def new_client_def small_confirmations_def)
  then have run: "submit_proof small_net small_proof small_client = Some (Inr (success_receipt ''0xab'' 1 zeros), c')"
    by (simp add: submit_proof_def bind_io_def pair_io_def lift_io_def map_err_def get_io_def need_def extract_salt_def
        build_quantum_proof_def small_client_def new_client_def small_proof_def small_snapshot_def pure_io_def proof_receipt_def
        miner_identity_bytes_def)
  have "winner_at small_net small_chain ''0xab'' = Some zeros"
    by (simp add: winner_at_def small_chain_def zeros_def)
  with run submit_proof_sound [OF small_honest run] show ?thesis
    by (auto simp: success_receipt_def small_chain_def)
qed

theorem rpc_failover_witness:
  "rpc_call small_net ''system_accountNextIndex'' [] small_client
     = Some (Inr (JNum 0), small_client\<lparr>cl_reachable := Some True, cl_requests := 1\<rparr>)"
  using rpc_failover [of small_client small_net "''system_accountNextIndex''" "[]" "JNum 0"
      "small_client\<lparr>cl_reachable := Some True, cl_requests := 1\<rparr>"]
  by (simp add: small_client_def new_client_def small_request_def)

subsection \<open>What a decided inclusion means\<close>

text \<open>The first validator answers every request.\<close>

definition responsive :: "('key, 'sig) Net \<Rightarrow> Client \<Rightarrow> bool" where
  "responsive N c \<longleftrightarrow> (\<exists>url urls. cl_validators c = url # urls
     \<and> (\<forall>t meth params. \<exists>v. nt_request N t url meth params = Inr v))"

lemma responsive_polled: "responsive N c \<Longrightarrow> polled c c' \<Longrightarrow> responsive N c'"
  by (simp add: responsive_def polledD)

lemma responsive_rpc:
  assumes "responsive N c"
  shows "\<exists>v c'. rpc_call N meth params c = Some (Inr v, c') \<and> responsive N c'"
proof -
  obtain url urls where v: "cl_validators c = url # urls" "\<forall>t meth params. \<exists>v. nt_request N t url meth params = Inr v"
    using assms by (auto simp: responsive_def)
  then obtain w where "nt_request N (cl_requests c) url meth params = Inr w" by blast
  with v(1) have "rpc_call N meth params c = Some (Inr w, note_reachability True (c\<lparr>cl_requests := cl_requests c + 1\<rparr>))"
    by (simp add: rpc_call_def)
  with v show ?thesis using responsive_polled [OF assms polled_rpc] by blast
qed

lemma get_storage_total:
  assumes "honest N ch" "responsive N c"
  shows "\<exists>c'. get_storage N key b c = Some (Inr (case ch_storage ch b key of None \<Rightarrow> JNull | Some bs \<Rightarrow> JStr (hex_encode bs)), c')
     \<and> responsive N c'"
  using responsive_rpc [OF assms(2)] get_storage_honest [OF assms(1)] unfolding get_storage_def by metis

lemma get_header_total:
  assumes "honest N ch" "responsive N c"
  shows "\<exists>c'. get_header N b c = Some (Inr (ch_number ch b), c') \<and> responsive N c'"
proof -
  obtain v c' where v: "rpc_call N ''chain_getHeader'' [JStr b] c = Some (Inr v, c')" "responsive N c'"
    using responsive_rpc [OF assms(2)] by blast
  then obtain s where "get_key v ''number'' = Some (JStr s)" "u64_from_hex (strip_0x s) = Inr (ch_number ch b)"
    using honest_rpc [OF assms(1) v(1)] by (auto simp: answers_def)
  with v show ?thesis
    by (simp add: get_header_def bind_io_def lift_io_def parse_block_number_def map_err_def)
qed

lemma block_contains_total:
  assumes "honest N ch" "responsive N c"
  shows "\<exists>c'. block_contains N b want c = Some (Inr (included_at N ch b want), c') \<and> responsive N c'"
proof -
  obtain v c' where v: "rpc_call N ''chain_getBlock'' [JStr b] c = Some (Inr v, c')" "responsive N c'"
    using responsive_rpc [OF assms(2)] by blast
  then have "Option.bind (get_key v ''block'') (\<lambda>block. get_key block ''extrinsics'')
      = Some (JArr (map (\<lambda>e. JStr (hex_encode e)) (ch_body ch b)))"
    using honest_rpc [OF assms(1) v(1)] by (simp add: answers_def)
  with v show ?thesis
    by (simp add: block_contains_def bind_io_def need_def lift_io_def any_extrinsic_hex included_at_def
        del: Option.bind_assoc)
qed

definition qblock_readable :: "('key, 'sig) Net \<Rightarrow> Chain \<Rightarrow> string \<Rightarrow> bool" where
  "qblock_readable N ch b \<longleftrightarrow> ch_number ch b \<le> u32_max
     \<and> (\<forall>q. ch_storage ch b (qblocks_storage_key (nt_xxhash64 N) (nt_blake2_128 N) (ch_number ch b)) = Some q \<longrightarrow> 32 \<le> length q)"

lemma qblock_winner_total:
  assumes "honest N ch" "responsive N c" "qblock_readable N ch b"
  shows "\<exists>c'. qblock_winner_at N b c = Some (Inr (winner_at N ch b), c') \<and> responsive N c'"
proof -
  let ?key = "qblocks_storage_key (nt_xxhash64 N) (nt_blake2_128 N) (ch_number ch b)"
  obtain d where d: "get_header N b c = Some (Inr (ch_number ch b), d)" "responsive N d"
    using get_header_total [OF assms(1,2)] by blast
  obtain e where "get_storage N ?key b d = Some (Inr (case ch_storage ch b ?key of None \<Rightarrow> JNull | Some bs \<Rightarrow> JStr (hex_encode bs)), e)"
      "responsive N e"
    using get_storage_total [OF assms(1) d(2)] by blast
  with d assms(3) show ?thesis
    by (cases "ch_storage ch b ?key")
       (auto simp: qblock_winner_at_def qblock_readable_def winner_at_def bind_io_def lift_io_def pure_io_def decode_hex_def
         need_def map_err_def byte_range_def)
qed

text \<open>The reference: what the state of the including block says of a proof.\<close>

definition proof_outcome :: "('key, 'sig) Net \<Rightarrow> Chain \<Rightarrow> bytes \<Rightarrow> bytes \<Rightarrow> string \<Rightarrow> SignedCallOutcome" where
  "proof_outcome N ch account h b =
     (if \<not> included_at N ch b h then CallDropped (''extrinsic absent from block '' @ b)
      else if winner_at N ch b = Some account then CallSuccess b (ch_number ch b)
      else case explain_proof_failure account (winner_at N ch b) of (error, lost_race) \<Rightarrow> DispatchFailed error lost_race)"

lemma confirm_in_block_total:
  assumes "honest N ch" "responsive N c" "qblock_readable N ch b"
  shows "\<exists>c'. confirm_in_block N b h (ProofWin account) c = Some (Inr (proof_outcome N ch account h b), c')"
proof -
  obtain d where d: "block_contains N b h c = Some (Inr (included_at N ch b h), d)" "responsive N d"
    using block_contains_total [OF assms(1,2)] by blast
  obtain e where e: "qblock_winner_at N b d = Some (Inr (winner_at N ch b), e)" "responsive N e"
    using qblock_winner_total [OF assms(1) d(2) assms(3)] by blast
  obtain f where f: "qblock_winner_at N b e = Some (Inr (winner_at N ch b), f)"
    using qblock_winner_total [OF assms(1) e(2) assms(3)] by blast
  obtain g where g: "get_header N b e = Some (Inr (ch_number ch b), g)"
    using get_header_total [OF assms(1) e(2)] by blast
  show ?thesis
    by (simp add: confirm_in_block_def confirmation_present_def proof_win_at_def bind_io_def pure_io_def d(1) e(1) f g
        classify_state_outcome_def explain_failure_def proof_outcome_def split_def)
qed

text \<open>Notifications that decide nothing are skipped.\<close>

definition undecided :: "TxStatus \<Rightarrow> bool" where
  "undecided s = (case s of TxReady \<Rightarrow> True | TxBroadcast \<Rightarrow> True | TxFuture \<Rightarrow> True | TxOther _ \<Rightarrow> True | _ \<Rightarrow> False)"

lemma watch_loop_skips:
  assumes "\<forall>i < n. \<exists>v. stream (k + i) = Some (Inr v) \<and> undecided (parse_tx_status (nt_json_text N) v)"
  shows "watch_loop N stream h confirmation k c = watch_loop N stream h confirmation (k + n) c"
  using assms
proof (induction n arbitrary: k)
  case (Suc n)
  from Suc.prems obtain v where "stream k = Some (Inr v)" "undecided (parse_tx_status (nt_json_text N) v)"
    by (auto dest: spec [of _ 0])
  then have "watch_loop N stream h confirmation k c = watch_loop N stream h confirmation (Suc k) c"
    by (subst watch_loop.simps) (auto simp: undecided_def split: TxStatus.splits)
  also have "\<dots> = watch_loop N stream h confirmation (Suc k + n) c"
    using Suc.prems by (intro Suc.IH) (auto dest: spec [of _ "Suc _"])
  finally show ?case by simp
qed simp

text \<open>
  C14. When the node accepts the subscription, sends any number of notifications that decide nothing and then
  names a block, and the first validator answers honestly, the submission returns, and with exactly the
  outcome the block's state determines: absent from the block, won, lost to another account's
  quantum block, or refused by the pallet.
\<close>
theorem proof_outcome_exact:
  assumes "honest N ch" "responsive N c" "qblock_readable N ch b"
    and "nt_subscribe N (cl_requests c) url (hex_encode ext) = Inr stream"
    and "\<forall>i < n. \<exists>v. stream i = Some (Inr v) \<and> undecided (parse_tx_status (nt_json_text N) v)"
    and "stream n = Some (Inr v)" "parse_tx_status (nt_json_text N) v \<in> {TxInBlock b, TxFinalized b}"
  shows "\<exists>c'. submit_and_watch N url ext (ProofWin account) c
     = Some (Inr (proof_outcome N ch account (extrinsic_hash (nt_codec N) ext) b), c')"
proof -
  let ?c = "c\<lparr>cl_requests := cl_requests c + 1\<rparr>" and ?h = "extrinsic_hash (nt_codec N) ext"
  have "responsive N ?c" using assms(2) by (simp add: responsive_def)
  moreover have "watch_loop N stream ?h (ProofWin account) 0 ?c = watch_loop N stream ?h (ProofWin account) n ?c"
    using watch_loop_skips [of n stream 0 N] assms(5) by simp
  moreover have "\<dots> = confirm_in_block N b ?h (ProofWin account) ?c"
    using assms(6,7) by (subst watch_loop.simps) auto
  ultimately show ?thesis
    using confirm_in_block_total [OF assms(1) _ assms(3)] by (simp add: submit_and_watch_def assms(4) Let_def)
qed

lemma small_responsive: "cl_validators c = [''ws://node''] \<Longrightarrow> responsive small_net c"
  by (auto simp: responsive_def small_request_def)

theorem proof_outcome_exact_witness:
  "\<exists>c'. submit_and_watch small_net ''ws://node'' [] (ProofWin [7]) small_client
     = Some (Inr (proof_outcome small_net small_chain [7] zeros ''0xab''), c')"
proof -
  have "qblock_readable small_net small_chain ''0xab''"
    by (simp add: qblock_readable_def small_chain_def)
  moreover have "cl_validators small_client = [''ws://node'']"
    by (simp add: small_client_def new_client_def)
  ultimately show ?thesis
    using proof_outcome_exact [OF small_honest small_responsive, of small_client "''0xab''" "''ws://node''" "[]" small_stream 1
        "JObj [(''inblock'', JStr ''0xab'')]" "[7]"]
    by (simp add: small_stream_def parse_tx_status_def to_ascii_lowercase_def undecided_def extrinsic_hash_def)
qed

subsection \<open>Order keys\<close>

text \<open>
  The node serves the storage keys \<open>keys\<close> in pages: at most a page of them after the start key, or from the
  first one without a start key.
\<close>

definition serves_keys :: "('key, 'sig) Net \<Rightarrow> string \<Rightarrow> string \<Rightarrow> bytes list \<Rightarrow> bool" where
  "serves_keys N key_prefix head keys \<longleftrightarrow> distinct keys
     \<and> (\<forall>t url v. nt_request N t url ''state_getKeysPaged'' (order_page_params key_prefix None head) = Inr v \<longrightarrow>
          v = JArr (map (\<lambda>k. JStr (hex_encode k)) (take ORDER_PAGE_SIZE keys)))
     \<and> (\<forall>t url v k. k \<in> set keys \<longrightarrow>
          nt_request N t url ''state_getKeysPaged'' (order_page_params key_prefix (Some (hex_encode k)) head) = Inr v \<longrightarrow>
          v = JArr (map (\<lambda>k. JStr (hex_encode k)) (take ORDER_PAGE_SIZE (tl (dropWhile (\<lambda>x. x \<noteq> k) keys)))))"

definition order_ids_of :: "(nat \<Rightarrow> bytes \<Rightarrow> nat) \<Rightarrow> bytes list \<Rightarrow> nat list" where
  "order_ids_of xx keys = concat (map (\<lambda>k. opt_list (order_id_from_key xx k)) keys)"

lemma page_order_ids_hex:
  "page_order_ids xx (map (\<lambda>k. JStr (hex_encode k)) keys) = Inr (order_ids_of xx keys)"
  by (induction keys) (auto simp: order_ids_of_def)

lemma rest_after_last:
  "distinct (pre @ [k] @ rest) \<Longrightarrow> tl (dropWhile (\<lambda>x. x \<noteq> k) (pre @ [k] @ rest)) = rest"
  by (induction pre) auto

lemma served_page:
  assumes "serves_keys N key_prefix head (pre @ rest)"
    and "rpc_call N ''state_getKeysPaged'' (order_page_params key_prefix
           (if pre = [] then None else Some (hex_encode (last pre))) head) c = Some (Inr page, c')"
  shows "page = JArr (map (\<lambda>k. JStr (hex_encode k)) (take ORDER_PAGE_SIZE rest))"
proof (cases pre rule: rev_cases)
  case Nil
  with assms show ?thesis by (auto simp: serves_keys_def rpc_call_Inr)
next
  case (snoc ks k)
  with assms rest_after_last [of ks k rest] show ?thesis by (auto simp: serves_keys_def rpc_call_Inr)
qed

lemma order_walk_from:
  assumes "serves_keys N key_prefix head (pre @ rest)"
  shows "\<exists>r c'. order_id_walk N key_prefix head (if pre = [] then None else Some (hex_encode (last pre))) acc c = Some (r, c')
    \<and> (\<forall>ids. r = Inr ids \<longrightarrow> ids = acc @ order_ids_of (nt_xxhash64 N) rest \<and> polled c c')
    \<and> (responsive N c \<longrightarrow> (\<exists>ids. r = Inr ids))"
  using assms
proof (induction "length rest" arbitrary: pre rest acc c rule: less_induct)
  case less
  let ?start = "if pre = [] then None else Some (hex_encode (last pre))"
  obtain r d where call: "rpc_call N ''state_getKeysPaged'' (order_page_params key_prefix ?start head) c = Some (r, d)"
    by (metis rpc_call_not_None option.exhaust surj_pair)
  show ?case
  proof (cases r)
    case (Inl e)
    then have "\<not> responsive N c" using call responsive_rpc [of N c "''state_getKeysPaged''" "order_page_params key_prefix ?start head"] by auto
    with call Inl show ?thesis by (subst order_id_walk.simps) simp
  next
    case (Inr page)
    note page = served_page [OF less.prems call [unfolded Inr]]
    have polled: "polled c d" using call Inr by (simp add: polled_rpc)
    show ?thesis
    proof (cases "length (take ORDER_PAGE_SIZE rest) = ORDER_PAGE_SIZE")
      case False
      then have "take ORDER_PAGE_SIZE rest = rest" by simp
      with call Inr page False polled show ?thesis
        by (subst order_id_walk.simps) (auto simp: page_order_ids_hex order_ids_of_def)
    next
      case True
      then have ne: "take ORDER_PAGE_SIZE rest \<noteq> []" by (auto simp: ORDER_PAGE_SIZE_def)
      then have shorter: "length (drop ORDER_PAGE_SIZE rest) < length rest" by (auto simp: ORDER_PAGE_SIZE_def)
      let ?acc = "acc @ order_ids_of (nt_xxhash64 N) (take ORDER_PAGE_SIZE rest)"
      have "order_id_walk N key_prefix head ?start acc c
          = order_id_walk N key_prefix head (Some (hex_encode (last (pre @ take ORDER_PAGE_SIZE rest)))) ?acc d"
        using call Inr page ne True by (subst order_id_walk.simps) (simp add: page_order_ids_hex last_map)
      moreover have "responsive N d" if "responsive N c"
        using responsive_polled [OF that polled_rpc] call Inr by blast
      moreover have "order_ids_of xx (take ORDER_PAGE_SIZE rest) @ order_ids_of xx (drop ORDER_PAGE_SIZE rest)
          = order_ids_of xx rest" for xx
        by (simp add: order_ids_of_def flip: concat_append map_append)
      ultimately show ?thesis
        using less.hyps [OF shorter, of "pre @ take ORDER_PAGE_SIZE rest" ?acc d] less.prems ne polled_trans [OF polled] by auto
    qed
  qed
qed

text \<open>
  C16. Against a node that pages through distinct storage keys, the walk over the order map ends, whatever the
  network does to single requests; when it succeeds it has the ids of all order keys, each once and in order,
  and it succeeds when the first validator answers.
\<close>
theorem order_walk_complete:
  assumes "serves_keys N key_prefix head keys"
  shows "\<exists>r c'. order_id_walk N key_prefix head None [] c = Some (r, c')
    \<and> (\<forall>ids. r = Inr ids \<longrightarrow> ids = order_ids_of (nt_xxhash64 N) keys)
    \<and> (responsive N c \<longrightarrow> r = Inr (order_ids_of (nt_xxhash64 N) keys))"
  using order_walk_from [of N key_prefix head "[]" keys "[]" c] assms by auto

lemma small_serves: "serves_keys small_net key_prefix head [small_key]"
  by (auto simp: serves_keys_def small_request_def order_page_params_def ORDER_PAGE_SIZE_def)

lemma small_order_id: "order_id_from_key (\<lambda>_ _. 0) small_key = Some 5"
  unfolding small_key_def using order_id_key_roundtrip [of "\<lambda>_. replicate 16 0" 5 5 "\<lambda>_ _. 0"] by simp

theorem order_walk_complete_witness:
  "\<exists>c'. order_id_walk small_net ''k'' ''h'' None [] small_client = Some (Inr [5], c')"
  using order_walk_complete [OF small_serves, of "''k''" "''h''" small_client] small_responsive [of small_client]
  by (auto simp: small_client_def new_client_def order_ids_of_def small_order_id)

subsection \<open>Snapshots\<close>

text \<open>A topology never changes under its hash: whatever the node answers for a hash is what the registry holds.\<close>

definition registry :: "('key, 'sig) Net \<Rightarrow> (bytes \<Rightarrow> TopologyMetaScale option) \<Rightarrow> bool" where
  "registry N reg \<longleftrightarrow> (\<forall>t url hash b hex bs meta.
     nt_request N t url ''state_call'' [JStr ''QuantumPowApi_topology_meta'', JStr (hex_encode hash), JStr b] = Inr (JStr hex) \<longrightarrow>
     hex_decode hex = Inr bs \<longrightarrow> sd_topology_opt (nt_scale N) bs = Inr (Some meta) \<longrightarrow> reg hash = Some meta)"

definition cache_ok :: "(bytes \<Rightarrow> TopologyMetaScale option) \<Rightarrow> Client \<Rightarrow> bool" where
  "cache_ok reg c \<longleftrightarrow> (\<forall>hash meta. cl_topology c = Some (hash, meta) \<longrightarrow> reg hash = Some meta)"

lemma cache_ok_polled: "cache_ok reg c \<Longrightarrow> polled c c' \<Longrightarrow> cache_ok reg c'"
  by (simp add: cache_ok_def polledD)

lemma quantum_pow_call_Inr:
  "quantum_pow_call_by_hash N d meth hash b c = Some (Inr r, c') \<Longrightarrow>
     polled c c' \<and> (\<forall>v. r = Some v \<longrightarrow> (\<exists>t url hex bs.
       nt_request N t url ''state_call'' [JStr meth, JStr (hex_encode hash), JStr b] = Inr (JStr hex)
       \<and> hex_decode hex = Inr bs \<and> d bs = Inr (Some v)))"
  by (auto simp: quantum_pow_call_by_hash_def io_Inr split: option.splits dest: polled_rpc)
     (auto simp: rpc_call_Inr)

lemma topology_meta_registered:
  assumes "registry N reg" "cache_ok reg c" "topology_meta N hash b c = Some (Inr r, c')"
  shows "cache_ok reg c' \<and> (\<forall>meta. r = Some meta \<longrightarrow> reg hash = Some meta)"
proof (cases "\<exists>meta. cl_topology c = Some (hash, meta)")
  case True
  with assms show ?thesis by (auto simp: topology_meta_def io_Inr cache_ok_def)
next
  case False
  then have "topology_meta N hash b c =
      bind_io (quantum_pow_call_by_hash N (sd_topology_opt (nt_scale N)) ''QuantumPowApi_topology_meta'' hash b) (\<lambda>meta.
      bind_io (put_io (\<lambda>c. case meta of Some m \<Rightarrow> c\<lparr>cl_topology := Some (hash, m)\<rparr> | None \<Rightarrow> c)) (\<lambda>_. pure_io meta)) c"
    by (cases "cl_topology c") (auto simp: topology_meta_def bind_io_simps)
  with assms(3) obtain d where call:
      "quantum_pow_call_by_hash N (sd_topology_opt (nt_scale N)) ''QuantumPowApi_topology_meta'' hash b c = Some (Inr r, d)"
    and c': "c' = (case r of Some m \<Rightarrow> d\<lparr>cl_topology := Some (hash, m)\<rparr> | None \<Rightarrow> d)"
    by (auto simp: io_Inr)
  note quantum_pow_call_Inr [OF call]
  moreover from this have "reg hash = Some meta" if "r = Some meta" for meta
    using that assms(1) unfolding registry_def by blast
  ultimately show ?thesis
    using cache_ok_polled [OF assms(2)] unfolding c' by (auto simp: cache_ok_def split: option.splits)
qed

definition stored :: "Chain \<Rightarrow> (bytes \<Rightarrow> string + 'a) \<Rightarrow> bytes \<Rightarrow> string \<Rightarrow> 'a option" where
  "stored ch d key b = Option.bind (ch_storage ch b key) (\<lambda>bs. case d bs of Inr v \<Rightarrow> Some v | Inl _ \<Rightarrow> None)"

lemma read_storage_stored:
  assumes "honest N ch" "read_storage N d key b c = Some (Inr r, c')"
  shows "r = stored ch d key b \<and> polled c c'"
  using read_storage_honest [OF assms] by (auto simp: stored_def split: option.splits)

lemma snapshot_topology_hash_stored:
  assumes "honest N ch" "snapshot_topology_hash_at N chosen b c = Some (Inr r, c')"
  shows "r = (if chosen = None then stored ch (sd_hash (nt_scale N)) (default_topology_storage_key (nt_xxhash64 N)) b else chosen)
     \<and> polled c c'"
  using assms(2)
  by (auto simp: snapshot_topology_hash_at_def io_Inr split: option.splits dest!: read_storage_stored [OF assms(1)])

lemma head_block_polled: "head_block N chosen c = Some (Inr h, c') \<Longrightarrow> polled c c'"
  by (auto simp: head_block_def head_hex_def io_Inr split: option.splits if_splits dest!: polled_rpc)

text \<open>The difficulty that a node computed for a topology at a block.\<close>

definition difficulty_answered :: "('key, 'sig) Net \<Rightarrow> bytes \<Rightarrow> string \<Rightarrow> DifficultyConfig \<Rightarrow> bool" where
  "difficulty_answered N topology b difficulty \<longleftrightarrow> (\<exists>t url hex bs.
     nt_request N t url ''state_call'' [JStr ''QuantumPowApi_difficulty_for'', JStr (hex_encode topology), JStr b] = Inr (JStr hex)
     \<and> hex_decode hex = Inr bs \<and> sd_difficulty_opt (nt_scale N) bs = Inr (Some difficulty))"

text \<open>The reference: what a snapshot says of the chain and of the registered topology.\<close>

definition snapshot_agrees ::
  "('key, 'sig) Net \<Rightarrow> Chain \<Rightarrow> (bytes \<Rightarrow> TopologyMetaScale option) \<Rightarrow> bytes option \<Rightarrow> bytes option \<Rightarrow> MiningSnapshot \<Rightarrow> bool" where
  "snapshot_agrees N ch reg block chosen snap \<longleftrightarrow>
     (let b = hex_encode (ms_head_hash snap); xx = nt_xxhash64 N; S = nt_scale N in
      (\<forall>h. block = Some h \<longrightarrow> ms_head_hash snap = h)
      \<and> ms_block_number snap = ch_number ch b
      \<and> (\<exists>t url v. nt_request N t url ''state_getRuntimeVersion'' [JStr b] = Inr v \<and> parse_spec_version v = Inr (ms_spec_version snap))
      \<and> (\<exists>difficulty. difficulty_answered N (ms_topology_hash snap) b difficulty
           \<and> ms_min_solutions snap = df_min_solutions difficulty \<and> ms_max_energy_milli snap = df_max_energy_milli difficulty
           \<and> ms_min_diversity_milli snap = df_min_diversity_milli difficulty)
      \<and> Some (ms_topology_hash snap)
          = (if chosen = None then stored ch (sd_hash S) (default_topology_storage_key xx) b else chosen)
      \<and> ms_last_proof_block_hash snap
          = (if (case stored ch (sd_u32 S) (last_proof_block_storage_key xx) b of None \<Rightarrow> 0 | Some n \<Rightarrow> n) = ch_number ch b
             then ms_head_hash snap
             else case stored ch (sd_hash S) (last_proof_block_hash_storage_key xx) b of None \<Rightarrow> replicate 32 0 | Some r \<Rightarrow> r)
      \<and> (\<exists>meta. reg (ms_topology_hash snap) = Some meta \<and> ms_nodes snap = tm_nodes meta \<and> ms_edges snap = tm_edges meta
           \<and> tm_allowed_h_values meta = SetSpec (ms_allowed_h_milli snap) \<and> ms_allowed_h_milli snap \<noteq> []
           \<and> tm_allowed_j_values meta = SetSpec (ms_allowed_j_milli snap) \<and> ms_allowed_j_milli snap \<noteq> []
           \<and> tm_allowed_spin_values meta = SetSpec (ms_allowed_spin_milli snap) \<and> ms_allowed_spin_milli snap \<noteq> []))"

lemma require_set_values_Inr: "require_set_values spec = Inr v \<longleftrightarrow> spec = SetSpec v \<and> v \<noteq> []"
  by (auto simp: require_set_values_def split: AllowedValueSpec.splits if_splits)

lemma snapshot_of_Inr:
  assumes "snapshot_of head number spec topology stored_root last_proof difficulty meta = Inr snap"
  shows "ms_head_hash snap = head" "ms_block_number snap = number" "ms_topology_hash snap = topology"
    "ms_spec_version snap = spec" "ms_min_solutions snap = df_min_solutions difficulty"
    "ms_max_energy_milli snap = df_max_energy_milli difficulty" "ms_min_diversity_milli snap = df_min_diversity_milli difficulty"
    "ms_last_proof_block_hash snap = (if (case last_proof of None \<Rightarrow> 0 | Some n \<Rightarrow> n) = number then head
       else case stored_root of None \<Rightarrow> replicate 32 0 | Some r \<Rightarrow> r)"
    "ms_nodes snap = tm_nodes meta" "ms_edges snap = tm_edges meta"
    "tm_allowed_h_values meta = SetSpec (ms_allowed_h_milli snap)" "ms_allowed_h_milli snap \<noteq> []"
    "tm_allowed_j_values meta = SetSpec (ms_allowed_j_milli snap)" "ms_allowed_j_milli snap \<noteq> []"
    "tm_allowed_spin_values meta = SetSpec (ms_allowed_spin_milli snap)" "ms_allowed_spin_milli snap \<noteq> []"
  using assms by (auto simp: snapshot_of_def require_set_values_Inr round_root_def split: sum.splits)

lemma snapshot_on_Inr:
  assumes reg: "registry N reg" and ok: "cache_ok reg c"
    and r: "snapshot_on N head header version last_proof stored_root topology c = Some (Inr r, c')"
  shows "cache_ok reg c' \<and> (\<forall>snap. r = Some snap \<longrightarrow>
    (\<exists>number spec difficulty meta. parse_block_number header = Inr number \<and> parse_spec_version version = Inr spec
       \<and> difficulty_answered N topology (hex_encode head) difficulty \<and> reg topology = Some meta
       \<and> snapshot_of head number spec topology stored_root last_proof difficulty meta = Inr snap
       \<and> cl_last_snapshot c' = Some snap \<and> cl_last_spin_spec c' = Some (tm_allowed_spin_values meta)))"
proof -
  obtain number spec decayed d where n: "parse_block_number header = Inr number" "parse_spec_version version = Inr spec"
    and call: "quantum_pow_call_by_hash N (sd_difficulty_opt (nt_scale N)) ''QuantumPowApi_difficulty_for'' topology
        (hex_encode head) c = Some (Inr decayed, d)"
    and rest: "(case decayed of None \<Rightarrow> pure_io None
      | Some difficulty \<Rightarrow> bind_io (topology_meta N topology (hex_encode head)) (\<lambda>registered.
          case registered of None \<Rightarrow> pure_io None
          | Some meta \<Rightarrow>
              bind_io (lift_io (map_err DecodeErr (snapshot_of head number spec topology stored_root last_proof difficulty meta)))
                (\<lambda>snap. bind_io (put_io (\<lambda>c. c\<lparr>cl_last_snapshot := Some snap,
                            cl_last_spin_spec := Some (tm_allowed_spin_values meta)\<rparr>)) (\<lambda>_. pure_io (Some snap)))))
        d = Some (Inr r, c')"
    using r by (auto simp: snapshot_on_def bind_io_Inr lift_io_Inr)
  have okd: "cache_ok reg d"
    using cache_ok_polled [OF ok] quantum_pow_call_Inr [OF call] by blast
  show ?thesis
  proof (cases decayed)
    case None
    with rest okd show ?thesis by (simp add: pure_io_Inr)
  next
    case (Some difficulty)
    have da: "difficulty_answered N topology (hex_encode head) difficulty"
      using quantum_pow_call_Inr [OF call] Some by (auto simp: difficulty_answered_def)
    from Some rest obtain registered e where m: "topology_meta N topology (hex_encode head) d = Some (Inr registered, e)"
      and tail: "(case registered of None \<Rightarrow> pure_io None | Some meta \<Rightarrow>
              bind_io (lift_io (map_err DecodeErr (snapshot_of head number spec topology stored_root last_proof difficulty meta)))
                (\<lambda>snap. bind_io (put_io (\<lambda>c. c\<lparr>cl_last_snapshot := Some snap,
                            cl_last_spin_spec := Some (tm_allowed_spin_values meta)\<rparr>)) (\<lambda>_. pure_io (Some snap)))) e
          = Some (Inr r, c')"
      by (auto simp: bind_io_Inr)
    with topology_meta_registered [OF reg okd m] n da show ?thesis
      by (cases registered) (auto simp: io_Inr cache_ok_def)
  qed
qed

text \<open>
  C15. A snapshot is that of its head block, which is the caller's block when one is given: its number, the runtime version and
  the three difficulty figures that a node answered for that block, its topology (the caller's or the chain's default), its
  round root, and the nodes, edges and value sets registered under its topology hash, whether they were
  downloaded now or reused from the cache.  The cache stays true to the registry, and the client remembers the
  snapshot and the spin values for the proof to come.
\<close>
theorem snapshot_agrees_with_chain:
  assumes h: "honest N ch" and reg: "registry N reg" and ok: "cache_ok reg c"
    and r: "fetch_mining_snapshot N chosen_block chosen_topology c = Some (Inr r, c')"
  shows "cache_ok reg c' \<and> (\<forall>snap. r = Some snap \<longrightarrow> snapshot_agrees N ch reg chosen_block chosen_topology snap
    \<and> cl_last_snapshot c' = Some snap \<and> cl_last_spin_spec c' = Some (SetSpec (ms_allowed_spin_milli snap)))"
proof -
  obtain head d0 header d1 named d2 last_proof d3 stored_root d4 version d5 where steps:
    "head_block N chosen_block c = Some (Inr head, d0)"
    "rpc_call N ''chain_getHeader'' [JStr (hex_encode head)] d0 = Some (Inr header, d1)"
    "snapshot_topology_hash_at N chosen_topology (hex_encode head) d1 = Some (Inr named, d2)"
    "read_storage N (sd_u32 (nt_scale N)) (last_proof_block_storage_key (nt_xxhash64 N)) (hex_encode head) d2 = Some (Inr last_proof, d3)"
    "read_storage N (sd_hash (nt_scale N)) (last_proof_block_hash_storage_key (nt_xxhash64 N)) (hex_encode head) d3 = Some (Inr stored_root, d4)"
    "rpc_call N ''state_getRuntimeVersion'' [JStr (hex_encode head)] d4 = Some (Inr version, d5)"
    and rest: "(case named of None \<Rightarrow> pure_io None
      | Some topology \<Rightarrow> snapshot_on N head header version last_proof stored_root topology) d5 = Some (Inr r, c')"
    using r by (auto simp: fetch_mining_snapshot_def bind_io_Inr Let_def)
  note reads = snapshot_topology_hash_stored [OF h steps(3)] read_storage_stored [OF h steps(4)] read_storage_stored [OF h steps(5)]
  have num: "parse_block_number header = Inr n \<Longrightarrow> n = ch_number ch (hex_encode head)" for n
    using get_header_honest [OF h, of "hex_encode head" d0 n d1] steps(2) by (simp add: get_header_def bind_io_Inr lift_io_Inr)
  have block: "chosen_block = Some h \<Longrightarrow> head = h" for h using steps(1) by (simp add: head_block_def pure_io_Inr)
  have versioned: "\<exists>t url. nt_request N t url ''state_getRuntimeVersion'' [JStr (hex_encode head)] = Inr version"
    using steps(6) by (auto simp: rpc_call_Inr)
  have "polled c d5"
    using head_block_polled [OF steps(1)] polled_rpc [OF steps(2)] polled_rpc [OF steps(6)] reads by (meson polled_trans)
  then have ok5: "cache_ok reg d5" by (rule cache_ok_polled [OF ok])
  show ?thesis
  proof (cases named)
    case None
    with rest ok5 show ?thesis by (simp add: pure_io_Inr)
  next
    case (Some topology)
    have "snapshot_agrees N ch reg chosen_block chosen_topology snap"
      if "reg topology = Some meta" "snapshot_of head number spec topology stored_root last_proof difficulty meta = Inr snap"
        "parse_block_number header = Inr number" "parse_spec_version version = Inr spec"
        "difficulty_answered N topology (hex_encode head) difficulty" for snap number spec difficulty meta
      using that(1,4,5) snapshot_of_Inr [OF that(2)] num [OF that(3)] reads Some block versioned
      by (auto simp: snapshot_agrees_def Let_def)
    with snapshot_on_Inr [OF reg ok5, of head header version last_proof stored_root topology r c'] rest Some show ?thesis
      by (fastforce simp: snapshot_of_Inr)
  qed
qed

lemmas io_eval = bind_io_def lift_io_def need_def pure_io_def get_io_def put_io_def decode_hex_def decode_scale_def map_err_def
  small_rpc small_request_def

lemma small_reads:
  assumes "cl_validators c = [''ws://node'']"
  shows "\<exists>c'. get_storage small_net key b c = Some (Inr (JStr (hex_encode zeros)), c') \<and> cl_validators c' = [''ws://node'']"
    and "\<exists>c'. head_hex small_net c = Some (Inr (hex_encode zeros), c') \<and> cl_validators c' = [''ws://node'']"
    and "\<exists>c'. get_header small_net b c = Some (Inr 1, c') \<and> cl_validators c' = [''ws://node'']"
  using assms by (simp_all add: get_storage_def head_hex_def get_header_def io_eval parse_block_number_def u64_from_hex_1)

lemma small_fetch: "\<exists>c'. fetch_mining_snapshot small_net None None small_client = Some (Inr (Some small_snapshot), c')"
  by (simp add: fetch_mining_snapshot_def head_block_def head_hex_def snapshot_topology_hash_at_def read_storage_def get_storage_def
      snapshot_on_def topology_meta_def quantum_pow_call_by_hash_def io_eval small_client_def new_client_def small_scale_def
      parse_block_number_def u64_from_hex_1 parse_spec_version_def parse_u32_field_def snapshot_of_def require_set_values_def
      small_meta_def round_root_def small_snapshot_def Let_def)

theorem snapshot_agrees_with_chain_witness:
  "snapshot_agrees small_net small_chain (\<lambda>_. Some small_meta) None None small_snapshot"
proof -
  obtain c' where "fetch_mining_snapshot small_net None None small_client = Some (Inr (Some small_snapshot), c')"
    using small_fetch by blast
  moreover have "registry small_net (\<lambda>_. Some small_meta)" by (simp add: registry_def small_scale_def)
  moreover have "cache_ok (\<lambda>_. Some small_meta) small_client" by (simp add: cache_ok_def small_client_def new_client_def)
  ultimately show ?thesis using snapshot_agrees_with_chain [OF small_honest] by blast
qed

subsection \<open>Mempool orders\<close>

text \<open>The reference: the block at which the pallet closes an order, and the orders still open at a block.\<close>

definition effective_expiry :: "JobOrderScale \<Rightarrow> nat" where
  "effective_expiry scale =
     (let hard = min (os_created_at scale + ot_deadline_blocks (os_timing scale)) u32_max in
      case os_first_solution_at scale of
        None \<Rightarrow> hard
      | Some first \<Rightarrow> min hard (min (first + ot_block_wait (os_timing scale)) u32_max))"

definition open_at :: "nat \<Rightarrow> JobOrderScale \<Rightarrow> bool" where
  "open_at number scale \<longleftrightarrow> os_status scale = OrderOpened \<and> number < effective_expiry scale"

lemma order_deadline_ms_expiry:
  "order_deadline_ms (os_created_at scale) (os_first_solution_at scale) (os_timing scale) number now_ms =
     (if number < effective_expiry scale
      then Some (min (now_ms + min ((effective_expiry scale - number) * 6000) u64_max) u64_max) else None)"
  by (auto simp: order_deadline_ms_def effective_expiry_def sat_simps BLOCK_TIME_ESTIMATE_MS_def Let_def split: option.splits)

text \<open>
  The solver type the client goes by for an account: the one it has cached from an earlier read or registration of
  that account, else the one the chain's solver map holds at the head. An open order admits everyone; a bid order
  admits a registered solver that it names by account or by type.
\<close>

definition known_solver_type :: "('key, 'sig) Net \<Rightarrow> Chain \<Rightarrow> bytes \<Rightarrow> string \<Rightarrow> Client \<Rightarrow> SolverType option" where
  "known_solver_type N ch account head c =
     (let on_chain = map_option si_solver_type
            (stored ch (sd_solver_info (nt_scale N)) (solvers_storage_key (nt_xxhash64 N) (nt_blake2_128 N) account) head) in
      case cl_registered_solver c of
        Some (cached_account, kind) \<Rightarrow> if cached_account = account then Some kind else on_chain
      | None \<Rightarrow> on_chain)"

definition admits :: "JobMode \<Rightarrow> bytes \<Rightarrow> SolverType option \<Rightarrow> bool" where
  "admits mode account kind \<longleftrightarrow>
     (case mode of
        OpenMode \<Rightarrow> True
      | Bid miners kinds \<Rightarrow>
          (case kind of
             None \<Rightarrow> False
           | Some t \<Rightarrow> (\<exists>as. miners = Some as \<and> account \<in> set as) \<or> (\<exists>ts. kinds = Some ts \<and> solver_type_tag t \<in> set ts)))"

text \<open>The order an id stands for at a head, if that order is to be worked on.\<close>

definition listed_order ::
  "('key, 'sig) Net \<Rightarrow> Chain \<Rightarrow> bytes \<Rightarrow> string \<Rightarrow> nat \<Rightarrow> SolverType option \<Rightarrow> nat \<Rightarrow> JobOrder option" where
  "listed_order N ch account head now_ms kind oid =
     (case stored ch (sd_job_order (nt_scale N)) (job_orders_storage_key (nt_xxhash64 N) (nt_blake2_128 N) oid) head of
        None \<Rightarrow> None
      | Some scale \<Rightarrow>
          if open_at (ch_number ch head) scale \<and> admits (os_mode scale) account kind
          then Some (order_from_scale oid scale
                 (min (now_ms + min ((effective_expiry scale - ch_number ch head) * 6000) u64_max) u64_max))
          else None)"

lemma known_solver_type_polled:
  "polled c c' \<Longrightarrow> known_solver_type N ch account head c' = known_solver_type N ch account head c"
  by (simp add: known_solver_type_def polledD)

lemma registered_solver_type_honest:
  assumes "honest N ch" "registered_solver_type N account head c = Some (Inr r, c')"
  shows "r = known_solver_type N ch account head c \<and> known_solver_type N ch account head c' = r"
  using assms(2)
  by (auto simp: registered_solver_type_def known_solver_type_def io_Inr Let_def
      dest!: read_storage_stored [OF assms(1)] split: option.splits prod.splits if_splits)

lemma is_eligible_admits:
  "jo_mode order = Bid miners kinds \<Longrightarrow> is_eligible_for order account t \<longleftrightarrow> admits (Bid miners kinds) account (Some t)"
  by (auto simp: is_eligible_for_def admits_def split: option.splits)

lemma read_order_honest:
  assumes h: "honest N ch" and r: "read_order N account head (ch_number ch head) now_ms oid c = Some (Inr r, c')"
  shows "r = listed_order N ch account head now_ms (known_solver_type N ch account head c) oid
    \<and> known_solver_type N ch account head c' = known_solver_type N ch account head c"
proof -
  let ?key = "job_orders_storage_key (nt_xxhash64 N) (nt_blake2_128 N) oid"
  let ?number = "ch_number ch head"
  obtain raw d where g: "get_storage N ?key head c = Some (Inr raw, d)"
    using r by (auto simp: read_order_def bind_io_Inr)
  note k = known_solver_type_polled [OF get_storage_honest [OF h g, THEN conjunct2], of N ch account head]
  show ?thesis
  proof (cases "ch_storage ch head ?key")
    case None
    with r g get_storage_honest [OF h g] k show ?thesis
      by (auto simp: read_order_def bind_io_def pure_io_def stored_def listed_order_def)
  next
    case (Some bs)
    with r g get_storage_honest [OF h g] obtain scale where d: "sd_job_order (nt_scale N) bs = Inr scale"
      by (auto simp: read_order_def bind_io_Inr decode_hex_Inr lift_io_Inr split: option.splits)
    have m: "jo_mode (order_from_scale oid scale dl) = os_mode scale" for dl
      by (simp add: order_from_scale_def Let_def)
    have run: "(if os_status scale \<noteq> OrderOpened then pure_io None
        else if \<not> ?number < effective_expiry scale then pure_io None
        else let order = order_from_scale oid scale (min (now_ms + min ((effective_expiry scale - ?number) * 6000) u64_max) u64_max)
          in case os_mode scale of
               OpenMode \<Rightarrow> pure_io (Some order)
             | Bid _ _ \<Rightarrow> bind_io (registered_solver_type N account head) (\<lambda>solver. pure_io (case solver of None \<Rightarrow> None
                 | Some t \<Rightarrow> if is_eligible_for order account t then Some order else None))) d = Some (Inr r, c')"
      using r g get_storage_honest [OF h g] Some d
      by (simp add: read_order_def bind_io_def decode_hex_def lift_io_def map_err_def order_deadline_ms_expiry m Let_def
          split: if_splits)
    have st: "stored ch (sd_job_order (nt_scale N)) ?key head = Some scale" using Some d by (simp add: stored_def)
    show ?thesis
    proof (cases "os_mode scale")
      case OpenMode
      with run st k show ?thesis
        by (auto simp: pure_io_Inr listed_order_def open_at_def admits_def Let_def split: if_splits)
    next
      case (Bid miners kinds)
      have e: "is_eligible_for (order_from_scale oid scale dl) account t = admits (Bid miners kinds) account (Some t)" for dl t
        by (rule is_eligible_admits) (simp add: m Bid)
      show ?thesis
      proof (cases "open_at ?number scale")
        case False
        with run st k show ?thesis
          by (auto simp: pure_io_Inr listed_order_def open_at_def split: if_splits)
      next
        case True
        let ?order = "order_from_scale oid scale (min (now_ms + min ((effective_expiry scale - ?number) * 6000) u64_max) u64_max)"
        from True run Bid obtain solver where s: "registered_solver_type N account head d = Some (Inr solver, c')"
          "r = (case solver of None \<Rightarrow> None | Some t \<Rightarrow> if admits (Bid miners kinds) account (Some t)
             then Some ?order else None)"
          by (fastforce simp: open_at_def bind_io_Inr pure_io_Inr Let_def e split: option.splits)
        have "admits (Bid miners kinds) account None = False" by (simp add: admits_def)
        with registered_solver_type_honest [OF h s(1)] s(2) st k True Bid show ?thesis
          by (auto simp: listed_order_def split: option.splits)
      qed
    qed
  qed
qed

lemma read_orders_honest:
  assumes "honest N ch" "read_orders N account head (ch_number ch head) now_ms ids c = Some (Inr orders, c')"
  shows "orders = concat (map (\<lambda>oid. opt_list (listed_order N ch account head now_ms (known_solver_type N ch account head c) oid)) ids)"
  using assms(2)
proof (induction ids arbitrary: c orders)
  case Nil
  then show ?case by (simp add: pure_io_Inr)
next
  case (Cons oid ids)
  then obtain first d rest where 1: "read_order N account head (ch_number ch head) now_ms oid c = Some (Inr first, d)"
      "read_orders N account head (ch_number ch head) now_ms ids d = Some (Inr rest, c')" "orders = opt_list first @ rest"
    by (auto simp: io_Inr)
  from read_order_honest [OF assms(1) 1(1)] Cons.IH [OF 1(2)] 1(3) show ?case by simp
qed

text \<open>
  C17. The orders fetched at a head are, in the order of the chain's map and each once, exactly the orders that admit
  this solver there: still open and before their effective expiry (the hard deadline, cut short after a first
  solution), and either open to everyone or a bid that names this account or the solver type the account is registered
  with. That type is the one the client has cached for the account, else the one of the chain's solver map at the
  head; a bid order is never listed for an account with neither. Each has the content stored under its id and the
  deadline that the remaining blocks give. Node answers are those of one chain and its keys are paged as documented.
\<close>
theorem mempool_orders_exact:
  assumes h: "honest N ch" and keys: "\<And>head. serves_keys N (hex_encode (job_orders_prefix (nt_xxhash64 N))) head (keys head)"
    and r: "fetch_mempool_orders N account c = Some (Inr orders, c')"
  shows "\<exists>head d t. head_hex N c = Some (Inr head, d)
    \<and> orders = concat (map (\<lambda>oid. opt_list (listed_order N ch account head (nt_now_ms N t) (known_solver_type N ch account head c) oid))
        (order_ids_of (nt_xxhash64 N) (keys head)))"
proof -
  obtain head d1 ids d2 number d3 where w: "head_hex N c = Some (Inr head, d1)"
      "order_id_walk N (hex_encode (job_orders_prefix (nt_xxhash64 N))) head None [] d1 = Some (Inr ids, d2)"
      "get_header N head d2 = Some (Inr number, d3)"
      "read_orders N account head number (nt_now_ms N (cl_requests d3)) ids d3 = Some (Inr orders, c')"
    using r by (auto simp: fetch_mempool_orders_def io_Inr split: if_splits)
  have ids: "ids = order_ids_of (nt_xxhash64 N) (keys head)" and "polled d1 d2"
    using order_walk_from [of N _ head "[]" "keys head" "[]" d1, simplified, OF keys] w(2) by auto
  moreover have number: "number = ch_number ch head" and "polled d2 d3" using get_header_honest [OF h w(3)] by blast+
  moreover have "polled c d1" using w(1) by (auto simp: head_hex_def io_Inr dest: polled_rpc)
  ultimately have "known_solver_type N ch account head d3 = known_solver_type N ch account head c"
    by (metis known_solver_type_polled)
  then have "orders = concat (map (\<lambda>oid. opt_list (listed_order N ch account head (nt_now_ms N (cl_requests d3))
      (known_solver_type N ch account head c) oid)) (order_ids_of (nt_xxhash64 N) (keys head)))"
    using read_orders_honest [OF h w(4) [unfolded number]] by (simp only: ids)
  with w(1) show ?thesis by blast
qed

text \<open>The same node with a bid order for CPU solvers.\<close>

definition bid_order :: JobOrderScale where
  "bid_order = small_order\<lparr>os_mode := Bid None (Some [0])\<rparr>"

definition bid_net :: "(unit, unit) Net" where
  "bid_net = small_net\<lparr>nt_scale := small_scale\<lparr>sd_job_order := \<lambda>_. Inr bid_order\<rparr>\<rparr>"

lemma bid_net_simps [simp]:
  "nt_request bid_net = small_request" "nt_now_ms bid_net = (\<lambda>_. 1000)" "nt_xxhash64 bid_net = (\<lambda>_ _. 0)"
  "nt_scale bid_net = small_scale\<lparr>sd_job_order := \<lambda>_. Inr bid_order\<rparr>"
  by (simp_all add: bid_net_def)

lemma bid_honest: "honest bid_net small_chain"
  using small_honest by (simp add: honest_def)

lemma bid_rpc: "rpc_call bid_net = rpc_call small_net"
proof -
  have "rpc_try bid_net meth params urls failed c = rpc_try small_net meth params urls failed c" for meth params urls failed c
    by (induction urls arbitrary: failed c) (auto split: sum.splits)
  then show ?thesis by (intro ext) (simp add: rpc_call_def)
qed

lemma bid_serves: "serves_keys bid_net key_prefix head [small_key]"
  using small_serves [of key_prefix head] by (simp add: serves_keys_def)

lemma bid_walk:
  assumes "cl_validators c = [''ws://node'']"
  shows "\<exists>c'. order_id_walk bid_net key_prefix head None [] c = Some (Inr [5], c') \<and> cl_validators c' = [''ws://node'']"
  using assms
  by (subst order_id_walk.simps)
     (simp add: order_page_params_def bid_rpc small_rpc small_request_def ORDER_PAGE_SIZE_def small_order_id)

lemma bid_fetch: "\<exists>orders c'. fetch_mempool_orders bid_net zeros small_client = Some (Inr orders, c')"
proof -
  have same: "head_hex bid_net = head_hex small_net" "get_header bid_net = get_header small_net"
    "get_storage bid_net = get_storage small_net"
    by (intro ext, simp add: head_hex_def get_header_def get_storage_def bind_io_def bid_rpc)+
  obtain d1 where d1: "head_hex small_net small_client = Some (Inr (hex_encode zeros), d1)" "cl_validators d1 = [''ws://node'']"
    using small_reads(2) [of small_client] by (auto simp: small_client_def new_client_def)
  obtain d2 where d2: "order_id_walk bid_net (hex_encode (job_orders_prefix (\<lambda>_ _. 0))) (hex_encode zeros) None [] d1 = Some (Inr [5], d2)"
      "cl_validators d2 = [''ws://node'']"
    using bid_walk [OF d1(2)] by blast
  obtain d3 where d3: "get_header small_net (hex_encode zeros) d2 = Some (Inr 1, d3)" "cl_validators d3 = [''ws://node'']"
    using small_reads(3) [OF d2(2)] by blast
  obtain d4 where d4: "get_storage small_net (job_orders_storage_key (\<lambda>_ _. 0) (nt_blake2_128 bid_net) 5) (hex_encode zeros) d3
      = Some (Inr (JStr (hex_encode zeros)), d4)" "cl_validators d4 = [''ws://node'']"
    using small_reads(1) [OF d3(2)] by blast
  obtain d5 where d5: "get_storage small_net (solvers_storage_key (\<lambda>_ _. 0) (nt_blake2_128 bid_net) zeros) (hex_encode zeros) d4
      = Some (Inr (JStr (hex_encode zeros)), d5)"
    using small_reads(1) [OF d4(2)] by blast
  have solver: "\<exists>r c'. registered_solver_type bid_net zeros (hex_encode zeros) d4 = Some (Inr r, c')"
    using d5 by (simp add: registered_solver_type_def read_storage_def same io_eval Let_def small_scale_def)
  show ?thesis
    using d1 d2 d3 d4(1) solver
    by (auto simp: fetch_mempool_orders_def same bind_io_def decode_hex_def lift_io_def map_err_def get_io_def pure_io_def read_order_def
        order_from_scale_def Let_def split: JobMode.splits option.splits)
qed

theorem mempool_orders_exact_witness:
  "\<exists>c'. fetch_mempool_orders bid_net zeros small_client = Some (Inr [order_from_scale 5 bid_order 55000], c')"
proof -
  obtain orders c' where run: "fetch_mempool_orders bid_net zeros small_client = Some (Inr orders, c')"
    using bid_fetch by blast
  have "known_solver_type bid_net small_chain zeros head small_client = Some STCpu" for head
    by (simp add: known_solver_type_def small_client_def new_client_def stored_def small_chain_def small_scale_def)
  then have "listed_order bid_net small_chain zeros head 1000
      (known_solver_type bid_net small_chain zeros head small_client) 5 = Some (order_from_scale 5 bid_order 55000)" for head
    by (simp add: listed_order_def stored_def small_chain_def open_at_def admits_def bid_order_def small_order_def
        effective_expiry_def)
  then have "orders = [order_from_scale 5 bid_order 55000]"
    using mempool_orders_exact [OF bid_honest _ run, of "\<lambda>_. [small_key]"] bid_serves
    by (fastforce simp: order_ids_of_def small_order_id)
  with run show ?thesis by blast
qed

subsection \<open>Registration, descriptor and participation\<close>

lemma settle_call_accepted:
  assumes "settle_call accepted classify outcome c = Some (Inr v, c')" "\<And>e. classify e \<noteq> Some v"
  shows "\<exists>b n. outcome = CallSuccess b n"
  using assms by (cases outcome) (auto simp: settle_call_def io_Inr)

lemma confirmation_keeps:
  assumes "honest N ch" "confirmation_present N b confirmation c = Some (Inr r, c')"
  shows "cl_participate_kind c' = cl_participate_kind c \<and> cl_signer_key c' = cl_signer_key c"
  using assms(2)
  by (cases confirmation)
     (auto simp: confirmation_present_def proof_win_at_def io_Inr Let_def polledD(2,7)
      dest!: qblock_winner_honest [OF assms(1)] storage_value_present_honest [OF assms(1)] read_storage_honest [OF assms(1)]
        get_header_honest [OF assms(1)])

lemma confirm_in_block_keeps:
  assumes h: "honest N ch" and r: "confirm_in_block N b want confirmation c = Some (Inr (CallSuccess b' n), c')"
  shows "cl_participate_kind c' = cl_participate_kind c \<and> cl_signer_key c' = cl_signer_key c"
  using h r
  by (rule confirm_in_block_steps)
     (auto simp: classify_state_outcome_def bind_io_Inr pure_io_Inr polledD(2,7) split: if_splits
       dest!: get_header_honest [OF h] confirmation_keeps [OF h])

lemma submit_signed_call_hash:
  assumes "submit_signed_call N call confirmation c = Some (Inr (outcome, hash), c')"
  shows "\<exists>pair ctx. nt_load_pair N (cl_signer_key c) = Inr pair
     \<and> hash = extrinsic_hash (nt_codec N) (build_hybrid_signed_extrinsic (nt_codec N) pair call ctx)"
  using assms by (auto simp: submit_signed_call_def pair_io_def io_Inr Let_def map_err_def split: sum.splits)

text \<open>A call signed with the given key, included at a block and in effect there.\<close>

definition call_landed ::
  "('key, 'sig) Net \<Rightarrow> Chain \<Rightarrow> string \<Rightarrow> MinerKind \<Rightarrow> bytes \<Rightarrow> Confirmation \<Rightarrow> string \<Rightarrow> bool" where
  "call_landed N ch signer kind call confirmation block \<longleftrightarrow>
     (\<exists>pair ctx. nt_load_pair N signer = Inr pair
        \<and> included_at N ch block (extrinsic_hash (nt_codec N) (build_hybrid_signed_extrinsic (nt_codec N) pair call ctx)))
     \<and> took_effect N ch kind block confirmation"

lemma submit_signed_call_success:
  assumes "honest N ch" "submit_signed_call N call confirmation c = Some (Inr (CallSuccess b n, h), c')"
  shows "call_landed N ch (cl_signer_key c) (cl_participate_kind c) call confirmation b
    \<and> cl_participate_kind c' = cl_participate_kind c \<and> cl_signer_key c' = cl_signer_key c"
proof -
  obtain pair d ctx d1 url d2 ext where 1: "pair_io N c = Some (Inr pair, d)"
      "signed_extension_context N pair d = Some (Inr ctx, d1)" "primary_url d1 = Some (Inr url, d2)"
      "submit_and_watch N url ext confirmation d2 = Some (Inr (CallSuccess b n), c')"
    using assms(2) by (auto simp: submit_signed_call_def io_Inr Let_def)
  then have "polled c d2"
    using signed_extension_context_polled [OF 1(2)] by (auto simp: pair_io_def primary_url_def io_Inr)
  moreover have "cl_participate_kind c' = cl_participate_kind d2 \<and> cl_signer_key c' = cl_signer_key d2"
    using 1(4) by (cases "nt_subscribe N (cl_requests d2) url (hex_encode ext)")
      (auto simp: submit_and_watch_def Let_def decided_def split: ChainError.splits
        dest!: watch_loop_decided confirm_in_block_keeps [OF assms(1)])
  ultimately show ?thesis
    using submit_signed_call_honest [OF assms] submit_signed_call_hash [OF assms(2)]
    by (auto simp: outcome_agrees_def call_landed_def polledD)
qed

lemma classify_never_accepts:
  "classify_registration (Some e) \<noteq> Some Registered" "classify_descriptor (Some e) \<noteq> Some Filed"
  "classify_participation (Some e) \<noteq> Some Declared"
  by (simp_all add: classify_registration_def classify_descriptor_def classify_participation_def)

lemma register_solver_success:
  assumes "honest N ch" "register_solver N account want c = Some (Inr Registered, c')"
  shows "\<exists>b. call_landed N ch (cl_signer_key c) (cl_participate_kind c) (encode_register_solver_call (nt_scale N) want)
    (SolverRegistered account) b"
  using assms(2)
  by (auto simp: register_solver_def bind_io_Inr classify_never_accepts
      dest!: settle_call_accepted submit_signed_call_success [OF assms(1)])

text \<open>A registered solver: an entry of another type was removed first.\<close>

lemma settle_solver_success:
  assumes h: "honest N ch" and r: "settle_solver N account want registered c = Some (Inr Registered, c')"
  shows "(\<exists>b. call_landed N ch (cl_signer_key c) (cl_participate_kind c) (encode_register_solver_call (nt_scale N) want)
      (SolverRegistered account) b)
    \<and> (\<forall>t. registered = Some t \<longrightarrow> t \<noteq> want \<and> (\<exists>b. call_landed N ch (cl_signer_key c) (cl_participate_kind c)
        encode_deregister_solver_call (SolverDeregistered account) b))"
proof (cases registered)
  case None
  with r register_solver_success [OF h] show ?thesis by (simp add: settle_solver_def)
next
  case (Some other)
  with r obtain outcome hash e where
      d: "submit_signed_call N encode_deregister_solver_call (SolverDeregistered account)
        (c\<lparr>cl_registered_solver := None\<rparr>) = Some (Inr (outcome, hash), e)" and other: "other \<noteq> want"
    and tail: "(case outcome of CallSuccess _ _ \<Rightarrow> register_solver N account want
       | DispatchFailed error _ \<Rightarrow> fail_io (SubmitErr (''deregister_solver: '' @ error))
       | CallInvalid error \<Rightarrow> fail_io (SubmitErr (''deregister_solver: '' @ error))
       | CallDropped error \<Rightarrow> fail_io (SubmitErr (''deregister_solver: '' @ error))) e = Some (Inr Registered, c')"
    by (auto simp: settle_solver_def bind_io_Inr put_io_Inr pure_io_Inr split: if_splits)
  from tail obtain b n where o: "outcome = CallSuccess b n" by (cases outcome) (auto simp: fail_io_Inr)
  with submit_signed_call_success [OF h] d have
    "call_landed N ch (cl_signer_key c) (cl_participate_kind c) encode_deregister_solver_call (SolverDeregistered account) b"
    "cl_participate_kind e = cl_participate_kind c" "cl_signer_key e = cl_signer_key c" by fastforce+
  with o tail register_solver_success [OF h, of account want e c'] Some other show ?thesis by auto
qed

lemma miner_is_registered_honest:
  assumes h: "honest N ch" and r: "miner_is_registered N account c = Some (Inr present, d)"
  shows "\<exists>b. present = (ch_storage ch b (miners_storage_key (nt_xxhash64 N) (nt_blake2_128 N) account) \<noteq> None)"
    and "polled c d"
  using r by (auto simp: miner_is_registered_def head_hex_def io_Inr dest!: polled_rpc storage_value_present_honest [OF h]
      intro: polled_trans)

lemma miner_registered_landed:
  assumes h: "honest N ch" and r: "ensure_miner_registered N c = Some (Inr Registered, c')"
    and pair: "nt_load_pair N (cl_signer_key c) = Inr pair"
  shows "(\<exists>b. ch_storage ch b (miners_storage_key (nt_xxhash64 N) (nt_blake2_128 N) (cd_signer_account (nt_codec N) pair)) = None)
    \<and> (\<exists>b. call_landed N ch (cl_signer_key c) (cl_participate_kind c) encode_register_miner_call
         (MinerRegisteredAt (cd_signer_account (nt_codec N) pair)) b)"
proof -
  let ?account = "cd_signer_account (nt_codec N) pair"
  obtain d outcome hash e where s: "miner_is_registered N ?account c = Some (Inr False, d)"
      "submit_signed_call N encode_register_miner_call (MinerRegisteredAt ?account) d = Some (Inr (outcome, hash), e)"
      "settle_call Registered (\<lambda>e. classify_registration (Some e)) outcome e = Some (Inr Registered, c')"
    using r pair by (auto simp: ensure_miner_registered_def bind_io_Inr pair_io_def lift_io_Inr pure_io_Inr Let_def
        map_err_def split: if_splits)
  obtain b n where "outcome = CallSuccess b n"
    using settle_call_accepted [OF s(3) classify_never_accepts(1)] by blast
  with submit_signed_call_success [OF h] s(2) polledD(2,7) [OF miner_is_registered_honest(2) [OF h s(1)]]
  have "call_landed N ch (cl_signer_key c) (cl_participate_kind c) encode_register_miner_call (MinerRegisteredAt ?account) b"
    by fastforce
  with miner_is_registered_honest(1) [OF h s(1)] show ?thesis by auto
qed

lemma solver_registered_landed:
  assumes h: "honest N ch" and r: "ensure_solver_registered N c = Some (Inr Registered, c')"
    and pair: "nt_load_pair N (cl_signer_key c) = Inr pair"
  shows "\<exists>head. let account = cd_signer_account (nt_codec N) pair; want = solver_type_of (cl_participate_kind c);
        landed = call_landed N ch (cl_signer_key c) (cl_participate_kind c) in
      (\<exists>b. landed (encode_register_solver_call (nt_scale N) want) (SolverRegistered account) b)
      \<and> (\<forall>t. map_option si_solver_type (stored ch (sd_solver_info (nt_scale N))
            (solvers_storage_key (nt_xxhash64 N) (nt_blake2_128 N) account) head) = Some t
           \<longrightarrow> t \<noteq> want \<and> (\<exists>b. landed encode_deregister_solver_call (SolverDeregistered account) b))"
proof -
  let ?account = "cd_signer_account (nt_codec N) pair"
  let ?c = "c\<lparr>cl_registered_solver := None\<rparr>"
  obtain head d registered e where s: "head_hex N ?c = Some (Inr head, d)"
      "registered_solver_type N ?account head d = Some (Inr registered, e)"
      "settle_solver N ?account (solver_type_of (cl_participate_kind c)) registered e = Some (Inr Registered, c')"
    using r pair by (auto simp: ensure_solver_registered_def bind_io_Inr put_io_Inr get_io_Inr pair_io_def lift_io_Inr Let_def
        map_err_def)
  have p: "polled ?c d" using s(1) by (auto simp: head_hex_def io_Inr dest: polled_rpc)
  have e: "cl_participate_kind e = cl_participate_kind d" "cl_signer_key e = cl_signer_key d"
    using s(2) by (auto simp: registered_solver_type_def io_Inr Let_def polledD(2,7) split: if_splits
        dest!: read_storage_honest [OF h])
  have "registered = map_option si_solver_type (stored ch (sd_solver_info (nt_scale N))
      (solvers_storage_key (nt_xxhash64 N) (nt_blake2_128 N) ?account) head)"
    using registered_solver_type_honest [OF h s(2)] polledD(8) [OF p] by (simp add: known_solver_type_def)
  with settle_solver_success [OF h s(3)] e polledD(2,7) [OF p] show ?thesis
    by (intro exI [of _ head]) (simp add: Let_def)
qed


text \<open>A node whose first head stores nothing and whose later heads are those of the small chain.\<close>

definition seed_request :: "nat \<Rightarrow> string \<Rightarrow> string \<Rightarrow> json list \<Rightarrow> ChainError + json" where
  "seed_request t url meth params =
     (if meth = ''chain_getBlockHash'' \<and> t = 0 then Inr (JStr ''old'')
      else if meth = ''state_getStorage'' \<and> params ! 1 = JStr ''old'' then Inr JNull
      else small_request t url meth params)"

definition seed_net :: "(unit, unit) Net" where
  "seed_net = small_net\<lparr>nt_request := seed_request\<rparr>"

definition seeded_chain :: Chain where
  "seeded_chain = small_chain\<lparr>ch_storage := \<lambda>b key. if b = ''old'' then None else ch_storage small_chain b key\<rparr>"

lemma seed_honest: "honest seed_net seeded_chain"
  using small_honest unfolding honest_def answers_def seed_net_def seeded_chain_def
  by (auto simp: seed_request_def split: if_splits)

lemma seed_net_simps [simp]:
  "nt_request seed_net = seed_request" "nt_subscribe seed_net = (\<lambda>_ _ _. Inr small_stream)"
  "nt_codec seed_net = small_codec" "nt_scale seed_net = small_scale" "nt_load_pair seed_net = (\<lambda>_. Inr ())"
  "nt_xxhash64 seed_net = (\<lambda>_ _. 0)"
  by (simp_all add: seed_net_def)

lemma seed_rpc:
  "cl_validators c = [''ws://node''] \<Longrightarrow> seed_request (cl_requests c) ''ws://node'' meth params = Inr v \<Longrightarrow>
     rpc_call seed_net meth params c = Some (Inr v, c\<lparr>cl_reachable := Some True, cl_requests := cl_requests c + 1\<rparr>)"
  by (simp add: rpc_call_def note_reachability_def)

lemma seed_watch:
  "watch_loop seed_net small_stream h confirmation 0 c = confirm_in_block seed_net ''0xab'' h confirmation c"
  by (subst watch_loop.simps, simp add: small_stream_def parse_tx_status_def to_ascii_lowercase_def)
     (subst watch_loop.simps, simp add: small_stream_def parse_tx_status_def to_ascii_lowercase_def)

lemma seed_confirm:
  assumes "cl_validators c = [''ws://node'']" "confirmation \<in> {DefaultTopologySet, DifficultySet zeros, MinerRegisteredAt zeros}"
  shows "confirm_in_block seed_net ''0xab'' zeros confirmation c
    = Some (Inr (CallSuccess ''0xab'' 1), c\<lparr>cl_reachable := Some True, cl_requests := cl_requests c + 3\<rparr>)"
  using assms
  by (auto simp: confirm_in_block_def block_contains_def confirmation_present_def storage_value_present_def
      get_header_def get_storage_def bind_io_def lift_io_def need_def pure_io_def decode_hex_def seed_rpc seed_request_def
      small_request_def parse_block_number_def u64_from_hex_1 classify_state_outcome_def map_err_def extrinsic_hash_def)

lemma seed_call:
  assumes v: "cl_validators c = [''ws://node'']" and t: "0 < cl_requests c"
    and k: "confirmation \<in> {DefaultTopologySet, DifficultySet zeros, MinerRegisteredAt zeros}"
  shows "submit_signed_call seed_net call confirmation c
    = Some (Inr (CallSuccess ''0xab'' 1, zeros), c\<lparr>cl_reachable := Some True, cl_requests := cl_requests c + 7\<rparr>)"
proof -
  obtain ctx where d: "signed_extension_context seed_net () c
      = Some (Inr ctx, c\<lparr>cl_reachable := Some True, cl_requests := cl_requests c + 3\<rparr>)"
    using v t
    by (simp add: signed_extension_context_def fetch_runtime_tx_context_def bind_io_def lift_io_def need_def pure_io_def
        decode_hex_def map_err_def seed_rpc seed_request_def small_request_def parse_spec_version_def
        parse_transaction_version_def parse_u32_field_def)
  let ?d = "c\<lparr>cl_reachable := Some True, cl_requests := cl_requests c + 4\<rparr>"
  have "confirm_in_block seed_net ''0xab'' zeros confirmation ?d
      = Some (Inr (CallSuccess ''0xab'' 1), c\<lparr>cl_reachable := Some True, cl_requests := cl_requests c + 7\<rparr>)"
    using seed_confirm [OF _ k, of ?d] v by simp
  with v d show ?thesis
    by (simp add: submit_signed_call_def submit_and_watch_def primary_url_def pair_io_def bind_io_def lift_io_def
        need_def pure_io_def map_err_def Let_def seed_watch extrinsic_hash_def add.commute [of 4])
qed

lemma hex_is_not_old: "hex_encode bs \<noteq> ''old''"
  by (simp add: hex_encode_def)

lemma seed_miner_call:
  "\<exists>c'. ensure_miner_registered seed_net (new_client [''ws://node''] ''//Alice'' MKCpu) = Some (Inr Registered, c')"
  by (simp add: ensure_miner_registered_def miner_is_registered_def head_hex_def storage_value_present_def get_storage_def
      bind_io_def need_def lift_io_def pure_io_def pair_io_def map_err_def settle_call_def seed_rpc seed_request_def new_client_def
      seed_call Let_def)


text \<open>
  Two consequences for the operator. A proof whose quantum block is ours at the second read but was not at the
  first is classified as a fatal rejection, although its text calls it a read race. And a descriptor call counts as
  filed whenever the block holds it and the account has any descriptor, so one filed earlier hides a refusal.
\<close>

lemma read_race_is_fatal:
  "sb_action (proof_receipt (case explain_proof_failure a (Some a) of (error, lost_race) \<Rightarrow> DispatchFailed error lost_race) h) = StopFatal"
  by (simp add: explain_proof_failure_def proof_receipt_def receipt_of_def) code_simp

lemma earlier_descriptor_counts:
  assumes h: "honest N ch" and r: "confirm_in_block N b h (DescriptorPresent account) c = Some (Inr outcome, c')"
    and i: "included_at N ch b h"
    and old: "ch_storage ch b (node_descriptors_storage_key (nt_xxhash64 N) (nt_blake2_128 N) account) = Some old"
  shows "outcome = CallSuccess b (ch_number ch b)"
  using h r
  by (rule confirm_in_block_steps)
     (use i old in \<open>auto simp: took_effect_def classify_state_outcome_def bind_io_Inr pure_io_Inr
       dest!: get_header_honest [OF h]\<close>)

end
