(* ===== verification/Config.thy ===== *)
theory Config
  imports Readiness Metrics Supervisor
begin

text \<open>
  \<open>config.rs\<close>: the launch plan and the settings that \<open>config.toml\<close> describes. The TOML parser and printer
  are the \<open>toml\<close> crate and are parameters; a table is the list of its entries in the order the crate
  iterates over them. Every failure of the parse is an \<open>Inl\<close> of \<open>ConfigError\<close>. A \<open>usize\<close> has 64 bits.
\<close>

subsection \<open>TOML values\<close>

datatype Toml =
    TString ustring
  | TInteger int
  | TFloat "64 word"
  | TBoolean bool
  | TDatetime ustring
  | TArray "Toml list"
  | TTable "(ustring \<times> Toml) list"

type_synonym toml_table = "(ustring \<times> Toml) list"

record TomlLib =
  tl_from_str :: "ustring \<Rightarrow> ustring + toml_table"
  tl_to_string :: "toml_table \<Rightarrow> ustring option"

definition toml_get :: "toml_table \<Rightarrow> string \<Rightarrow> Toml option" where
  "toml_get t k = hm_get t (us k)"

fun toml_str :: "Toml \<Rightarrow> ustring option" where
  "toml_str (TString s) = Some s"
| "toml_str _ = None"

fun toml_integer :: "Toml \<Rightarrow> int option" where
  "toml_integer (TInteger i) = Some i"
| "toml_integer _ = None"

fun toml_bool :: "Toml \<Rightarrow> bool option" where
  "toml_bool (TBoolean b) = Some b"
| "toml_bool _ = None"

fun toml_array :: "Toml \<Rightarrow> Toml list option" where
  "toml_array (TArray a) = Some a"
| "toml_array _ = None"

fun toml_as_table :: "Toml \<Rightarrow> toml_table option" where
  "toml_as_table (TTable t) = Some t"
| "toml_as_table _ = None"

definition get_str :: "toml_table \<Rightarrow> string \<Rightarrow> ustring option" where
  "get_str t k = Option.bind (toml_get t k) toml_str"

definition get_int :: "toml_table \<Rightarrow> string \<Rightarrow> int option" where
  "get_int t k = Option.bind (toml_get t k) toml_integer"

definition get_table :: "toml_table \<Rightarrow> string \<Rightarrow> toml_table option" where
  "get_table t k = Option.bind (toml_get t k) toml_as_table"

text \<open>\<open>try_from\<close> of an \<open>i64\<close> into an unsigned type with the given maximum, and the cast \<open>i as u32\<close>.\<close>

definition try_from_int :: "nat \<Rightarrow> int \<Rightarrow> nat option" where
  "try_from_int m i = (if 0 \<le> i \<and> i \<le> int m then Some (nat i) else None)"

definition int_as_u32 :: "int \<Rightarrow> nat" where
  "int_as_u32 i = nat (i mod 4294967296)"

definition or_value :: "'a \<Rightarrow> 'a option \<Rightarrow> 'a" where
  "or_value d v = (case v of None \<Rightarrow> d | Some x \<Rightarrow> x)"

text \<open>\<open>str::parse::<usize>\<close>: no digit and no sign lies outside ASCII.\<close>

definition parse_usize :: "ustring \<Rightarrow> nat option" where
  "parse_usize s = (if list_all (\<lambda>c. c < 128) s then parse_u64 (map char_of s) else None)"

subsection \<open>The parsed configuration\<close>

datatype ConfigError =
    MissingMiner
  | BadToml ustring
  | NoBackends bool
  | MissingMinerKey string
  | IndexedSingleDeviceSection string ustring
  | CudaSectionNotIndexed ustring
  | DuplicateCudaDevice nat

definition config_error_text :: "ConfigError \<Rightarrow> ustring" where
  "config_error_text e = (case e of
     MissingMiner \<Rightarrow> us ''missing [miner] section''
   | BadToml m \<Rightarrow> us ''bad toml: '' @ m
   | MissingMinerKey key \<Rightarrow> us (''missing [miner].'' @ key)
   | IndexedSingleDeviceSection backend key \<Rightarrow>
       us (''bad ['' @ backend @ ''.'') @ key
       @ us ''] section: only [cuda.N] is indexed by device;                  write [''
       @ us backend @ us '']'' @ us '' and select the device with the miner'' @ [39] @ us ''s --device flag''
   | CudaSectionNotIndexed key \<Rightarrow>
       us ''bad [cuda.'' @ key @ us ''] section: the key must be a CUDA device index (a non-negative integer)''
   | DuplicateCudaDevice device \<Rightarrow> us (''two [cuda] sections resolve to device '' @ show_nat device)
   | NoBackends looks_like_v0_2 \<Rightarrow>
       us ''no miner backend section: add at least one of [cpu], [cuda.N], [metal], [dwave]/[qpu]''
       @ (if looks_like_v0_2
          then us ''. This config carries v0.2 quip-miner keys (faucet_url / rest_host / rest_port); the v0.3 coordinator uses a different format, where each backend gets its own section (see docker/config.toml)''
          else []))"

record DashboardConfig =
  dc_listen :: ustring
  dc_data_dir :: ustring

record CoordinatorConfig =
  cg_validators :: "ustring list"
  cg_signer_key :: ustring
  cg_faucet_url :: "ustring option"
  cg_min_balance_plancks :: nat
  cg_faucet_top_up_plancks :: nat
  cg_funding_timeout_s :: nat
  cg_max_submit_attempts :: nat
  cg_launch :: "LaunchEntry list"
  cg_dashboard :: "DashboardConfig option"
  cg_node_id :: "ustring option"
  cg_node_name :: "ustring option"
  cg_public_host :: ustring
  cg_public_port :: nat
  cg_auto_mine :: bool
  cg_node_log_level :: NodeLogLevel

definition DEFAULT_VALIDATORS :: "ustring list" where
  "DEFAULT_VALIDATORS = [us ''ws://quip-validator:9944'', us ''ws://127.0.0.1:9944'']"

definition entry_miner_kind :: "LaunchEntry \<Rightarrow> MinerKind" where
  "entry_miner_kind e = miner_kind_from_backend (le_backend e)"

definition miner_spec :: "LaunchEntry \<Rightarrow> MinerSpecScale" where
  "miner_spec e =
     \<lparr> sp_kind = entry_miner_kind e,
       sp_label = Some (utf8 (us (le_miner_id e))),
       sp_backend = Some (utf8 (us (le_backend e))),
       sp_device_id = map_option (\<lambda>n. utf8 (us (show_nat n))) (le_device e) \<rparr>"

definition kind_rank :: "MinerKind \<Rightarrow> nat" where
  "kind_rank kind = (case kind of
     MKCpu \<Rightarrow> 0 | MKGpu \<Rightarrow> 1 | MKMetal \<Rightarrow> 2 | MKAsic \<Rightarrow> 3 | MKQpuPasqal \<Rightarrow> 4 | MKQpuIonq \<Rightarrow> 5 | MKQpuIbm \<Rightarrow> 6 | MKQpuDwave \<Rightarrow> 7)"

text \<open>\<open>Iterator::max_by_key\<close>: of several maxima the last one.\<close>

fun max_by_key :: "('a \<Rightarrow> nat) \<Rightarrow> 'a list \<Rightarrow> 'a option" where
  "max_by_key f [] = None"
| "max_by_key f (x # xs) =
     (case max_by_key f xs of None \<Rightarrow> Some x | Some y \<Rightarrow> if f x \<le> f y then Some y else Some x)"

definition participate_kind :: "LaunchEntry list \<Rightarrow> MinerKind" where
  "participate_kind launch = or_value MKCpu (max_by_key kind_rank (map entry_miner_kind launch))"

definition descriptor_from_config :: "CoordinatorConfig \<Rightarrow> DescriptorParams" where
  "descriptor_from_config cfg =
     \<lparr> ds_node_id = cg_node_id cfg, ds_node_name = cg_node_name cfg, ds_public_host = Some (cg_public_host cfg),
       ds_public_port = Some (cg_public_port cfg), ds_auto_mine = cg_auto_mine cfg, ds_log_level = cg_node_log_level cfg,
       ds_rpc_endpoints = cg_validators cfg, ds_miners = map miner_spec (cg_launch cfg),
       ds_system_info = None, ds_runtime = None \<rparr>"

subsection \<open>Launch entries\<close>

definition u32_of :: "toml_table \<Rightarrow> string \<Rightarrow> nat \<Rightarrow> nat" where
  "u32_of t k d = (case get_int t k of None \<Rightarrow> d | Some i \<Rightarrow> int_as_u32 i)"

definition coordinator_keys :: "string list" where
  "coordinator_keys = [''binary'', ''queue_depth'', ''idle_timeout_s'', ''heartbeat_s'', ''reconnect_window_s'']"

definition make_configure :: "TomlLib \<Rightarrow> toml_table \<Rightarrow> Configure" where
  "make_configure lib t =
     \<lparr> cf_queue_depth = u32_of t ''queue_depth'' 3,
       cf_idle_timeout_s = u32_of t ''idle_timeout_s'' 300,
       cf_heartbeat_s = u32_of t ''heartbeat_s'' 15,
       cf_reconnect_window_s = u32_of t ''reconnect_window_s'' 60,
       cf_backend_toml = or_value [] (tl_to_string lib (fold (\<lambda>k. hm_remove (us k)) coordinator_keys t)) \<rparr>"

definition default_binary :: "string \<Rightarrow> ustring" where
  "default_binary backend =
     (if backend = ''dwave'' then us ''quip-dwave-qa'' else us (''quip-'' @ backend @ ''-sa''))"

definition launch_entry :: "TomlLib \<Rightarrow> string \<Rightarrow> string \<Rightarrow> nat option \<Rightarrow> toml_table \<Rightarrow> LaunchEntry" where
  "launch_entry lib miner_id backend device t =
     \<lparr> le_miner_id = miner_id,
       le_binary = or_value (default_binary backend) (get_str t ''binary''),
       le_configure = make_configure lib t,
       le_backend = backend,
       le_device = device \<rparr>"

definition optional_str :: "toml_table \<Rightarrow> string \<Rightarrow> ustring option" where
  "optional_str t key = nonblank (get_str t key)"

definition parse_node_log_level :: "ustring option \<Rightarrow> NodeLogLevel" where
  "parse_node_log_level raw =
     (case map_option (\<lambda>s. map ascii_lower (trim s)) raw of
        None \<Rightarrow> LevelInfo
      | Some s \<Rightarrow> if s = us ''debug'' \<or> s = us ''trace'' then LevelDebug
                  else if s = us ''warn'' \<or> s = us ''warning'' then LevelWarning
                  else if s = us ''error'' then LevelError
                  else LevelInfo)"

fun reject_indexed :: "string \<Rightarrow> toml_table \<Rightarrow> ConfigError + unit" where
  "reject_indexed backend [] = Inr ()"
| "reject_indexed backend ((key, v) # t) =
     (if toml_as_table v \<noteq> None then Inl (IndexedSingleDeviceSection backend key) else reject_indexed backend t)"

subsection \<open>The launch plan\<close>

definition and_then :: "'e + 'a \<Rightarrow> ('a \<Rightarrow> 'e + 'b) \<Rightarrow> 'e + 'b" where
  "and_then r f = (case r of Inl e \<Rightarrow> Inl e | Inr x \<Rightarrow> f x)"

text \<open>The loop over \<open>[cuda]\<close>, with the \<open>BTreeMap\<close> from ordinals to sections.\<close>

fun cuda_sections :: "toml_table \<Rightarrow> (nat, toml_table) hmap \<Rightarrow> ConfigError + (nat, toml_table) hmap" where
  "cuda_sections [] by_device = Inr by_device"
| "cuda_sections ((k, v) # cuda) by_device =
     (case toml_as_table v of
        None \<Rightarrow> cuda_sections cuda by_device
      | Some t \<Rightarrow>
          (case parse_usize k of
             None \<Rightarrow> Inl (CudaSectionNotIndexed k)
           | Some n \<Rightarrow> if hm_get by_device n \<noteq> None then Inl (DuplicateCudaDevice n)
                       else cuda_sections cuda (hm_insert n t by_device)))"

definition cpu_launch :: "TomlLib \<Rightarrow> toml_table \<Rightarrow> ConfigError + LaunchEntry list" where
  "cpu_launch lib root =
     (case get_table root ''cpu'' of
        None \<Rightarrow> Inr []
      | Some t \<Rightarrow> and_then (reject_indexed ''cpu'' t) (\<lambda>_. Inr [launch_entry lib ''cpu-0'' ''cpu'' None t]))"

text \<open>A \<open>BTreeMap\<close> is iterated in the order of its keys.\<close>

definition cuda_launch :: "TomlLib \<Rightarrow> toml_table \<Rightarrow> ConfigError + LaunchEntry list" where
  "cuda_launch lib root =
     (case get_table root ''cuda'' of
        None \<Rightarrow> Inr []
      | Some cuda \<Rightarrow>
          and_then (cuda_sections cuda []) (\<lambda>by_device.
            Inr (map (\<lambda>(n, t). launch_entry lib (''cuda-'' @ show_nat n) ''cuda'' (Some n) t) (sort_key fst by_device))))"

definition metal_launch :: "TomlLib \<Rightarrow> toml_table \<Rightarrow> ConfigError + LaunchEntry list" where
  "metal_launch lib root =
     (case get_table root ''metal'' of
        None \<Rightarrow> Inr []
      | Some t \<Rightarrow> and_then (reject_indexed ''metal'' t) (\<lambda>_. Inr [launch_entry lib ''metal-0'' ''metal'' None t]))"

definition qpu_launch :: "TomlLib \<Rightarrow> toml_table \<Rightarrow> LaunchEntry list" where
  "qpu_launch lib root =
     (case Option.bind (case toml_get root ''dwave'' of None \<Rightarrow> toml_get root ''qpu'' | Some v \<Rightarrow> Some v) toml_as_table of
        None \<Rightarrow> []
      | Some t \<Rightarrow> [launch_entry lib ''qpu-0'' ''dwave'' None t])"

definition parse_launch :: "TomlLib \<Rightarrow> toml_table \<Rightarrow> ConfigError + LaunchEntry list" where
  "parse_launch lib root =
     and_then (cpu_launch lib root) (\<lambda>cpu.
     and_then (cuda_launch lib root) (\<lambda>cuda.
     and_then (metal_launch lib root) (\<lambda>metal.
     Inr (cpu @ cuda @ metal @ qpu_launch lib root))))"

subsection \<open>The settings\<close>

definition missing_dashboard_keys :: "ustring option \<Rightarrow> ustring option \<Rightarrow> string" where
  "missing_dashboard_keys listen data_dir =
     (case (listen, data_dir) of
        (None, None) \<Rightarrow> ''listen, data_dir''
      | (None, Some _) \<Rightarrow> ''listen''
      | (Some _, None) \<Rightarrow> ''data_dir''
      | (Some _, Some _) \<Rightarrow> [])"

text \<open>The keys named in the warning, if there is one, beside the result.\<close>

definition parse_dashboard :: "toml_table \<Rightarrow> DashboardConfig option \<times> string option" where
  "parse_dashboard root =
     (case get_table root ''dashboard'' of
        None \<Rightarrow> (None, None)
      | Some t \<Rightarrow>
          let listen = get_str t ''listen''; data_dir = get_str t ''data_dir'' in
          case (listen, data_dir) of
            (Some l, Some d) \<Rightarrow> (Some \<lparr> dc_listen = l, dc_data_dir = d \<rparr>, None)
          | _ \<Rightarrow> (None, Some (missing_dashboard_keys listen data_dir)))"

record MinerIdentity =
  mi_node_id :: "ustring option"
  mi_node_name :: "ustring option"
  mi_public_host :: ustring
  mi_public_port :: nat
  mi_auto_mine :: bool
  mi_node_log_level :: NodeLogLevel

definition public_port_of :: "toml_table \<Rightarrow> nat option" where
  "public_port_of miner = keep_if (\<lambda>p. 0 < p) (Option.bind (get_int miner ''public_port'') (try_from_int 65535))"

definition parse_miner_identity :: "toml_table \<Rightarrow> ConfigError + MinerIdentity" where
  "parse_miner_identity miner =
     (case optional_str miner ''public_host'' of
        None \<Rightarrow> Inl (MissingMinerKey ''public_host'')
      | Some host \<Rightarrow>
     (case public_port_of miner of
        None \<Rightarrow> Inl (MissingMinerKey ''public_port'')
      | Some port \<Rightarrow> Inr
          \<lparr> mi_node_id = optional_str miner ''node_id'',
            mi_node_name = optional_str miner ''node_name'',
            mi_public_host = host,
            mi_public_port = port,
            mi_auto_mine = or_value True (Option.bind (toml_get miner ''auto_mine'') toml_bool),
            mi_node_log_level = parse_node_log_level (get_str miner ''log_level'') \<rparr>))"

definition parse_validators :: "toml_table \<Rightarrow> ustring list" where
  "parse_validators miner =
     (case Option.bind (toml_get miner ''validators'') toml_array of
        None \<Rightarrow> DEFAULT_VALIDATORS
      | Some a \<Rightarrow> List.map_filter toml_str a)"

definition int_setting :: "toml_table \<Rightarrow> string \<Rightarrow> nat \<Rightarrow> nat \<Rightarrow> nat" where
  "int_setting miner key m d = or_value d (Option.bind (get_int miner key) (try_from_int m))"

abbreviation u128_max :: nat where "u128_max \<equiv> 340282366920938463463374607431768211455"

definition looks_like_v0_2 :: "toml_table \<Rightarrow> bool" where
  "looks_like_v0_2 miner = list_ex (\<lambda>k. toml_get miner k \<noteq> None) [''faucet_url'', ''rest_host'', ''rest_port'']"

definition parse_config :: "TomlLib \<Rightarrow> ustring \<Rightarrow> ConfigError + CoordinatorConfig" where
  "parse_config lib toml_text =
     (case tl_from_str lib toml_text of
        Inl e \<Rightarrow> Inl (BadToml e)
      | Inr root \<Rightarrow>
     (case get_table root ''miner'' of
        None \<Rightarrow> Inl MissingMiner
      | Some miner \<Rightarrow>
     and_then (parse_launch lib root) (\<lambda>launch.
     if launch = [] then Inl (NoBackends (looks_like_v0_2 miner))
     else and_then (parse_miner_identity miner) (\<lambda>identity. Inr
       \<lparr> cg_validators = parse_validators miner,
         cg_signer_key = or_value [] (get_str miner ''signer_key''),
         cg_faucet_url = optional_str miner ''faucet_url'',
         cg_min_balance_plancks = int_setting miner ''min_balance_plancks'' u128_max DEFAULT_MIN_BALANCE_PLANCKS,
         cg_faucet_top_up_plancks = int_setting miner ''faucet_top_up_plancks'' u128_max DEFAULT_TOP_UP_PLANCKS,
         cg_funding_timeout_s = int_setting miner ''funding_timeout_s'' u64_max (DEFAULT_FUNDING_TIMEOUT div 1000),
         cg_max_submit_attempts = int_setting miner ''max_submit_attempts'' u32_max 5,
         cg_launch = launch,
         cg_dashboard = fst (parse_dashboard root),
         cg_node_id = mi_node_id identity,
         cg_node_name = mi_node_name identity,
         cg_public_host = mi_public_host identity,
         cg_public_port = mi_public_port identity,
         cg_auto_mine = mi_auto_mine identity,
         cg_node_log_level = mi_node_log_level identity \<rparr>))))"

end
