(* ===== verification/Startup.thy ===== *)
theory Startup
  imports Client Config Feeder
begin

text \<open>
  The start of the process: the compatibility check of \<open>chain/preflight.rs\<close>, the health answers of
  \<open>chain/sync.rs\<close>, the command \<open>quip-coordinator --config\<close> of \<open>main.rs\<close> and the state that \<open>run_runtime\<close>
  prepares before any task runs. The file system, the TOML library, the eight-byte blake2 digest, the async
  runtime, the host probe and the HTTP client are in \<open>StartEnv\<close>. The result of the command is its exit code and
  what it started the runtime with, if it did; \<open>None\<close> is a wait that never ends.
\<close>

subsection \<open>Preflight\<close>

definition QUANTUM_POW_API :: string where "QUANTUM_POW_API = ''QuantumPowApi''"
definition MIN_QUANTUM_POW_API :: nat where "MIN_QUANTUM_POW_API = 2"

record ValidatorInfo =
  vi_spec_name :: string
  vi_spec_version :: nat
  vi_transaction_version :: nat
  vi_quantum_pow_api :: "nat option"

datatype PreflightError =
    Unreachable ChainError
  | Malformed string
  | MissingApi ValidatorInfo
  | ApiTooOld ValidatorInfo nat

fun preflight_error_text :: "PreflightError \<Rightarrow> string" where
  "preflight_error_text (Unreachable e) = ''cannot reach validator to check compatibility: '' @ chain_error_text e"
| "preflight_error_text (Malformed s) = ''validator runtime version malformed: '' @ s"
| "preflight_error_text (MissingApi info) =
     ''validator runtime '' @ vi_spec_name info @ ''/'' @ show_nat (vi_spec_version info) @ '' exposes no '' @ QUANTUM_POW_API
     @ ''; it is not a QuIP mining validator (upgrade the validator)''"
| "preflight_error_text (ApiTooOld info required) =
     ''validator runtime '' @ vi_spec_name info @ ''/'' @ show_nat (vi_spec_version info) @ '' exposes '' @ QUANTUM_POW_API
     @ '' v'' @ show_nat (or_value 0 (vi_quantum_pow_api info)) @ '', but this coordinator drives v'' @ show_nat required
     @ '' or newer (upgrade the validator)''"

definition u32_of_json :: "json \<Rightarrow> nat option" where
  "u32_of_json v = keep_if (\<lambda>n. n \<le> u32_max) (as_u64 v)"

definition api_entry_version :: "string \<Rightarrow> json \<Rightarrow> nat option" where
  "api_entry_version want_hex entry =
     (case as_array entry of
        Some (first # rest) \<Rightarrow>
          (case as_string first of
             Some i \<Rightarrow>
               if to_ascii_lowercase i = to_ascii_lowercase want_hex
               then (case rest of v # _ \<Rightarrow> u32_of_json v | [] \<Rightarrow> None) else None
           | None \<Rightarrow> None)
      | _ \<Rightarrow> None)"

fun find_map :: "('a \<Rightarrow> 'b option) \<Rightarrow> 'a list \<Rightarrow> 'b option" where
  "find_map f [] = None"
| "find_map f (x # xs) = (case f x of Some y \<Rightarrow> Some y | None \<Rightarrow> find_map f xs)"

definition find_api_version :: "(string \<Rightarrow> bytes) \<Rightarrow> json \<Rightarrow> string \<Rightarrow> nat option" where
  "find_api_version api_id apis trait_name =
     Option.bind (as_array apis) (find_map (api_entry_version (''0x'' @ hex_plain (api_id trait_name))))"

definition parse_runtime_version :: "(string \<Rightarrow> bytes) \<Rightarrow> json \<Rightarrow> PreflightError + ValidatorInfo" where
  "parse_runtime_version api_id rv =
     (case Option.bind (get_key rv ''specVersion'') u32_of_json of
        None \<Rightarrow> Inl (Malformed ''specVersion missing'')
      | Some spec_version \<Rightarrow>
     (case Option.bind (get_key rv ''transactionVersion'') u32_of_json of
        None \<Rightarrow> Inl (Malformed ''transactionVersion missing'')
      | Some transaction_version \<Rightarrow> Inr
          \<lparr> vi_spec_name = or_value ''<unknown>'' (Option.bind (get_key rv ''specName'') as_string),
            vi_spec_version = spec_version,
            vi_transaction_version = transaction_version,
            vi_quantum_pow_api = Option.bind (get_key rv ''apis'') (\<lambda>apis. find_api_version api_id apis QUANTUM_POW_API) \<rparr>))"

definition judge_validator :: "ValidatorInfo \<Rightarrow> PreflightError + ValidatorInfo" where
  "judge_validator info =
     (case vi_quantum_pow_api info of
        None \<Rightarrow> Inl (MissingApi info)
      | Some v \<Rightarrow> if v < MIN_QUANTUM_POW_API then Inl (ApiTooOld info MIN_QUANTUM_POW_API) else Inr info)"

definition preflight ::
  "('key, 'sig) Net \<Rightarrow> (string \<Rightarrow> bytes) \<Rightarrow> Client \<Rightarrow> ((PreflightError + ValidatorInfo) \<times> Client) option" where
  "preflight N api_id c =
     (case runtime_version_raw N c of
        None \<Rightarrow> None
      | Some (Inl e, c') \<Rightarrow> Some (Inl (Unreachable e), c')
      | Some (Inr rv, c') \<Rightarrow> Some (and_then (parse_runtime_version api_id rv) judge_validator, c'))"

subsection \<open>Sync state\<close>

definition sync_progress :: "SyncStatus \<Rightarrow> string" where
  "sync_progress s =
     (case (sy_current_block s, sy_highest_block s) of
        (Some current, Some highest) \<Rightarrow>
          ''at block '' @ show_nat current @ '' of '' @ show_nat highest @ '' ('' @ show_nat (highest - current) @ '' behind)''
      | (Some current, None) \<Rightarrow> ''at block '' @ show_nat current
      | (None, _) \<Rightarrow> ''at an unreported block'')"

definition parse_health :: "json \<Rightarrow> ChainError + (bool \<times> nat \<times> bool)" where
  "parse_health v =
     (case Option.bind (get_key v ''isSyncing'') as_bool of
        None \<Rightarrow> Inl (DecodeErr ''system_health: isSyncing missing'')
      | Some is_syncing \<Rightarrow> Inr (is_syncing, or_value 0 (Option.bind (get_key v ''peers'') as_u64),
          or_value False (Option.bind (get_key v ''shouldHavePeers'') as_bool)))"

definition parse_sync_state :: "json \<Rightarrow> nat option \<times> nat option" where
  "parse_sync_state v =
     (let current = Option.bind (get_key v ''currentBlock'') as_u64;
          highest = Option.bind (get_key v ''highestBlock'') as_u64
      in (current, (case highest of None \<Rightarrow> current | Some h \<Rightarrow> Some h)))"

definition sync_status :: "('key, 'sig) Net \<Rightarrow> SyncStatus io" where
  "sync_status N =
     bind_io (system_health_raw N) (\<lambda>health.
     bind_io (lift_io (parse_health health)) (\<lambda>(is_syncing, peers, should_have_peers) c.
       case sync_state_raw N c of
         None \<Rightarrow> None
       | Some (answer, c') \<Rightarrow>
           let (current, highest) = (case answer of Inr v \<Rightarrow> parse_sync_state v | Inl _ \<Rightarrow> (None, None))
           in Some (Inr \<lparr> sy_is_syncing = is_syncing, sy_peers = peers, sy_should_have_peers = should_have_peers,
                          sy_current_block = current, sy_highest_block = highest \<rparr>, c')))"

subsection \<open>The environment of the command\<close>

datatype ExitCode = Clean | ConfigInvalid | InternalFatal | OtherExit nat

record RuntimeParams =
  rp_sock_path :: string
  rp_max_submit_attempts :: nat
  rp_grace_ms :: nat
  rp_backoff :: BackoffPolicy
  rp_miner_identity :: bytes
  rp_miner_account :: bytes
  rp_buffer_depth :: nat
  rp_poll_interval_ms :: nat
  rp_dashboard :: "(ustring \<times> ustring) option"
  rp_log_level :: LogLevel
  rp_funding :: FundingParams
  rp_descriptor :: DescriptorParams
  rp_descriptor_filed :: bool
  rp_miner_registered :: bool
  rp_solver_registered :: bool
  rp_identity :: Identity

record ('key, 'sig) StartEnv =
  se_read_file :: "ustring \<Rightarrow> string + ustring"
  se_toml :: TomlLib
  se_tokio :: bool
  se_net :: "('key, 'sig) Net"
  se_api_id :: "string \<Rightarrow> bytes"
  se_survey :: "HostSurvey option"
  se_http_faucet :: "ustring \<Rightarrow> string + (nat \<Rightarrow> FaucetError + unit)"
  se_chain :: StartChain
  se_process_id :: nat
  se_run_runtime :: "LaunchEntry list \<Rightarrow> RuntimeParams \<Rightarrow> string + unit"

subsection \<open>The command\<close>

definition load_coordinator_config ::
  "('key, 'sig) StartEnv \<Rightarrow> ustring option \<Rightarrow> ExitCode + (ustring \<times> CoordinatorConfig)" where
  "load_coordinator_config env config =
     (case config of
        None \<Rightarrow> Inl ConfigInvalid
      | Some path \<Rightarrow>
     (case se_read_file env path of
        Inl _ \<Rightarrow> Inl ConfigInvalid
      | Inr text \<Rightarrow>
     (case parse_config (se_toml env) text of
        Inr c \<Rightarrow> Inr (path, c)
      | Inl _ \<Rightarrow> Inl ConfigInvalid)))"

definition client_of_config :: "CoordinatorConfig \<Rightarrow> Client" where
  "client_of_config cfg =
     new_client (map byte_string (cg_validators cfg)) (byte_string (cg_signer_key cfg)) (participate_kind (cg_launch cfg))"

definition run_preflight_gate ::
  "('key, 'sig) Net \<Rightarrow> (string \<Rightarrow> bytes) \<Rightarrow> Client \<Rightarrow> (ExitCode option \<times> Client) option" where
  "run_preflight_gate N api_id c =
     (case preflight N api_id c of
        None \<Rightarrow> None
      | Some (Inr _, c') \<Rightarrow> Some (None, c')
      | Some (Inl (Unreachable _), c') \<Rightarrow> Some (None, c')
      | Some (Inl _, c') \<Rightarrow> Some (Some ConfigInvalid, c'))"

record MinerKeys =
  mk_identity :: bytes
  mk_account :: bytes
  mk_ss58 :: "string option"

definition miner_keys_from_key :: "('key, 'sig) Net \<Rightarrow> string \<Rightarrow> MinerKeys" where
  "miner_keys_from_key N signer_key =
     (case nt_load_pair N signer_key of
        Inr pair \<Rightarrow>
          let account = cd_signer_account (nt_codec N) pair in
          \<lparr> mk_identity = miner_identity_bytes (nt_codec N) pair, mk_account = account, mk_ss58 = Some (nt_ss58 N account) \<rparr>
      | Inl _ \<Rightarrow> \<lparr> mk_identity = replicate 32 0, mk_account = replicate 32 0, mk_ss58 = None \<rparr>)"

definition identity_from_keys :: "string option \<Rightarrow> bytes \<Rightarrow> ustring option \<Rightarrow> Identity" where
  "identity_from_keys ss58 account node_id =
     (case ss58 of
        None \<Rightarrow> identity_default
      | Some ss58_address \<Rightarrow>
          \<lparr> id_ss58_address = us ss58_address,
            id_account_id_hex = us (hex_encode account),
            id_node_id = (case node_id of None \<Rightarrow> us (node_id_from_account account) | Some i \<Rightarrow> i) \<rparr>)"

definition build_faucet ::
  "(ustring \<Rightarrow> string + (nat \<Rightarrow> FaucetError + unit)) \<Rightarrow> ustring option \<Rightarrow> (nat \<Rightarrow> FaucetError + unit) option" where
  "build_faucet http_faucet url =
     (case url of
        None \<Rightarrow> None
      | Some u \<Rightarrow> (case http_faucet u of Inr f \<Rightarrow> Some f | Inl _ \<Rightarrow> None))"

text \<open>The code to exit with, if any, and the latches.\<close>

definition run_startup_prepare ::
  "('key, 'sig) StartEnv \<Rightarrow> bytes \<Rightarrow> FundingParams \<Rightarrow> DescriptorParams \<Rightarrow> ProcessLatches
    \<Rightarrow> (ExitCode option \<times> ProcessLatches) option" where
  "run_startup_prepare env miner_account funding descriptor latches =
     (case prepare_round ((se_chain env)\<lparr>sc_faucet := build_faucet (se_http_faucet env) (fp_faucet_url funding)\<rparr>)
             (\<lambda>a. us (nt_ss58 (se_net env) a)) funding descriptor miner_account latches of
        None \<Rightarrow> None
      | Some (Inr _, latches', _) \<Rightarrow> Some (None, latches')
      | Some (Inl (FundingFailed _), latches', _) \<Rightarrow> Some (Some ConfigInvalid, latches')
      | Some (Inl (SnapshotFailed _), latches', _) \<Rightarrow> Some (None, latches'))"

definition funding_of_config :: "CoordinatorConfig \<Rightarrow> FundingParams" where
  "funding_of_config cfg =
     \<lparr> fp_faucet_url = cg_faucet_url cfg, fp_min_balance = cg_min_balance_plancks cfg,
       fp_top_up = cg_faucet_top_up_plancks cfg, fp_timeout = cg_funding_timeout_s cfg * 1000 \<rparr>"

definition surveyed_descriptor :: "CoordinatorConfig \<Rightarrow> HostSurvey option \<Rightarrow> DescriptorParams" where
  "surveyed_descriptor cfg survey =
     (case survey of
        None \<Rightarrow> descriptor_from_config cfg
      | Some s \<Rightarrow> (descriptor_from_config cfg)\<lparr>ds_system_info := Some (hs_system s), ds_runtime := Some (hs_runtime s)\<rparr>)"

definition runtime_params ::
  "('key, 'sig) StartEnv \<Rightarrow> CoordinatorConfig \<Rightarrow> LogLevel \<Rightarrow> MinerKeys \<Rightarrow> ProcessLatches \<Rightarrow> RuntimeParams" where
  "runtime_params env cfg log_level keys latches =
     \<lparr> rp_sock_path = ''/tmp/quip-coordinator-'' @ show_nat (se_process_id env) @ ''.sock'',
       rp_max_submit_attempts = cg_max_submit_attempts cfg,
       rp_grace_ms = 2000,
       rp_backoff = default_policy,
       rp_miner_identity = mk_identity keys,
       rp_miner_account = mk_account keys,
       rp_buffer_depth = 256,
       rp_poll_interval_ms = 1000,
       rp_dashboard = map_option (\<lambda>d. (dc_listen d, dc_data_dir d)) (cg_dashboard cfg),
       rp_log_level = log_level,
       rp_funding = funding_of_config cfg,
       rp_descriptor = surveyed_descriptor cfg (se_survey env),
       rp_descriptor_filed = la_descriptor_filed latches,
       rp_miner_registered = la_miner_registered latches,
       rp_solver_registered = False,
       rp_identity = identity_from_keys (mk_ss58 keys) (mk_account keys) (cg_node_id cfg) \<rparr>"

definition run_config_path ::
  "('key, 'sig) StartEnv \<Rightarrow> ustring option \<Rightarrow> LogLevel \<Rightarrow> (ExitCode \<times> (LaunchEntry list \<times> RuntimeParams) option) option" where
  "run_config_path env config log_level =
     (case load_coordinator_config env config of
        Inl code \<Rightarrow> Some (code, None)
      | Inr (_, cfg) \<Rightarrow>
      if \<not> se_tokio env then Some (InternalFatal, None)
      else (case run_preflight_gate (se_net env) (se_api_id env) (client_of_config cfg) of
        None \<Rightarrow> None
      | Some (Some code, _) \<Rightarrow> Some (code, None)
      | Some (None, _) \<Rightarrow>
          let keys = miner_keys_from_key (se_net env) (byte_string (cg_signer_key cfg)) in
          (case run_startup_prepare env (mk_account keys) (funding_of_config cfg) (surveyed_descriptor cfg (se_survey env))
                  \<lparr> la_descriptor_filed = False, la_miner_registered = False \<rparr> of
             None \<Rightarrow> None
           | Some (Some code, _) \<Rightarrow> Some (code, None)
           | Some (None, latches) \<Rightarrow>
               let params = runtime_params env cfg log_level keys latches in
               Some ((case se_run_runtime env (cg_launch cfg) params of Inr _ \<Rightarrow> Clean | Inl _ \<Rightarrow> InternalFatal),
                     Some (cg_launch cfg, params)))))"

subsection \<open>What the runtime prepares before its tasks start\<close>

definition seed_entry :: "LaunchEntry \<Rightarrow> 'topo CoordinatorState \<Rightarrow> 'topo CoordinatorState" where
  "seed_entry e st =
     st\<lparr>cs_configure := hm_insert (le_miner_id e) (le_configure e) (cs_configure st),
        cs_miner_types := hm_insert (le_miner_id e) (miner_type_label (le_backend e)) (cs_miner_types st)\<rparr>"

definition seed_runtime :: "LaunchEntry list \<Rightarrow> RuntimeParams \<Rightarrow> 'topo CoordinatorState \<Rightarrow> 'topo CoordinatorState" where
  "seed_runtime launch params st =
     (let st1 = fold seed_entry launch st;
          metrics = set_identity (rp_identity params) (new_metrics (map (\<lambda>e. (le_miner_id e, le_backend e)) launch));
          st2 = st1\<lparr>cs_metrics := metrics\<rparr>
      in if rp_dashboard params = None then st2 else st2\<lparr>cs_attempt_tx := True\<rparr>)"

definition feeder_params :: "RuntimeParams \<Rightarrow> FeederParams" where
  "feeder_params params =
     \<lparr> fd_miner_identity = rp_miner_identity params, fd_miner_account = rp_miner_account params,
       fd_buffer_depth = rp_buffer_depth params, fd_funding = rp_funding params,
       fd_descriptor = rp_descriptor params, fd_max_submit_attempts = rp_max_submit_attempts params \<rparr>"

end
