(* ===== verification/Config_Laws.thy ===== *)
theory Config_Laws
  imports Config
begin

text \<open>
  What a parse of \<open>config.toml\<close> guarantees: the accepted files, the error each rejected file gets, the exact launch
  plan, and the types of the result.
\<close>

lemma and_then_Inr [simp]: "and_then r f = Inr y \<longleftrightarrow> (\<exists>x. r = Inr x \<and> f x = Inr y)"
  by (cases r) (auto simp: and_then_def)

lemma and_then_Inl: "and_then r f = Inl e \<longleftrightarrow> r = Inl e \<or> (\<exists>x. r = Inr x \<and> f x = Inl e)"
  by (cases r) (auto simp: and_then_def)

subsection \<open>The sections of the file\<close>

text \<open>The sub-tables of a section, and the ordinals their keys stand for.\<close>

definition sub_tables :: "toml_table \<Rightarrow> (ustring \<times> toml_table) list" where
  "sub_tables s = List.map_filter (\<lambda>e. map_option (\<lambda>t. (fst e, t)) (toml_as_table (snd e))) s"

definition ordinals :: "toml_table \<Rightarrow> nat list" where
  "ordinals s = List.map_filter parse_usize (map fst (sub_tables s))"

definition numbered :: "toml_table \<Rightarrow> bool" where
  "numbered s \<longleftrightarrow> list_all (\<lambda>e. parse_usize (fst e) \<noteq> None) (sub_tables s)"

definition section_or_empty :: "toml_table \<Rightarrow> string \<Rightarrow> toml_table" where
  "section_or_empty root k = or_value [] (get_table root k)"

definition qpu_section :: "toml_table \<Rightarrow> toml_table option" where
  "qpu_section root = Option.bind (case toml_get root ''dwave'' of None \<Rightarrow> toml_get root ''qpu'' | Some v \<Rightarrow> Some v) toml_as_table"

definition has_backend :: "toml_table \<Rightarrow> bool" where
  "has_backend root \<longleftrightarrow>
     get_table root ''cpu'' \<noteq> None \<or> sub_tables (section_or_empty root ''cuda'') \<noteq> []
     \<or> get_table root ''metal'' \<noteq> None \<or> qpu_section root \<noteq> None"

definition acceptable :: "toml_table \<Rightarrow> bool" where
  "acceptable root \<longleftrightarrow> (case get_table root ''miner'' of None \<Rightarrow> False | Some miner \<Rightarrow>
     sub_tables (section_or_empty root ''cpu'') = [] \<and> sub_tables (section_or_empty root ''metal'') = []
     \<and> numbered (section_or_empty root ''cuda'') \<and> distinct (ordinals (section_or_empty root ''cuda''))
     \<and> has_backend root \<and> optional_str miner ''public_host'' \<noteq> None \<and> public_port_of miner \<noteq> None)"

lemma sub_tables_simps [simp]:
  "sub_tables [] = []"
  "toml_as_table v = None \<Longrightarrow> sub_tables ((k, v) # s) = sub_tables s"
  "toml_as_table v = Some t \<Longrightarrow> sub_tables ((k, v) # s) = (k, t) # sub_tables s"
  by (simp_all add: sub_tables_def List.map_filter_simps)

lemma ordinals_simps [simp]:
  "ordinals [] = []"
  "toml_as_table v = None \<Longrightarrow> ordinals ((k, v) # s) = ordinals s"
  "toml_as_table v = Some t \<Longrightarrow> parse_usize k = Some n \<Longrightarrow> ordinals ((k, v) # s) = n # ordinals s"
  "toml_as_table v = Some t \<Longrightarrow> parse_usize k = None \<Longrightarrow> ordinals ((k, v) # s) = ordinals s"
  by (simp_all add: ordinals_def List.map_filter_simps)

lemma reject_indexed_spec:
  "(case reject_indexed backend s of
      Inr _ \<Rightarrow> sub_tables s = []
    | Inl e \<Rightarrow> \<exists>key t. e = IndexedSingleDeviceSection backend key \<and> (key, t) \<in> set (sub_tables s))"
proof (induction s)
  case (Cons e s)
  obtain k v where "e = (k, v)" by force
  with Cons show ?case by (cases "toml_as_table v") (auto split: sum.splits)
qed simp

lemma reject_indexed_Inr [simp]: "reject_indexed backend s = Inr u \<longleftrightarrow> sub_tables s = []"
  using reject_indexed_spec [of backend s] by (cases "reject_indexed backend s") auto

lemma count_list_distinct: "distinct xs \<Longrightarrow> count_list xs x \<le> 1"
  by (induction xs) (auto simp: count_list_0_iff)

lemma hm_insert_absent: "hm_get m k = None \<Longrightarrow> hm_insert k v m = m @ [(k, v)]"
  unfolding hm_get_def hm_insert_def by (induction m) (auto split: if_splits)

text \<open>The loop over \<open>[cuda]\<close> keeps the sections under their ordinals, or stops at a fault that is really there.\<close>

lemma cuda_sections_spec:
  "distinct (map fst m) \<Longrightarrow>
   (case cuda_sections cuda m of
      Inr m' \<Rightarrow> numbered cuda \<and> distinct (map fst m @ ordinals cuda) \<and> m' = m @ zip (ordinals cuda) (map snd (sub_tables cuda))
    | Inl (CudaSectionNotIndexed k) \<Rightarrow> k \<in> fst ` set (sub_tables cuda) \<and> parse_usize k = None
    | Inl (DuplicateCudaDevice n) \<Rightarrow> 2 \<le> count_list (map fst m @ ordinals cuda) n
    | Inl _ \<Rightarrow> False)"
proof (induction cuda arbitrary: m)
  case (Cons e cuda)
  obtain k v where e: "e = (k, v)" by force
  show ?case
  proof (cases "toml_as_table v")
    case None
    with Cons.IH [OF Cons.prems] show ?thesis by (simp add: e numbered_def split: sum.splits ConfigError.splits)
  next
    case (Some t)
    show ?thesis
    proof (cases "parse_usize k")
      case None
      with Some show ?thesis by (simp add: e)
    next
      case n: (Some n)
      show ?thesis
      proof (cases "hm_get m n")
        case None
        then have "n \<notin> set (map fst m)" by (simp add: hm_get_def map_of_eq_None_iff)
        then have "distinct (map fst (hm_insert n t m))" using Cons.prems None by (simp add: hm_insert_absent)
        from Cons.IH [OF this] show ?thesis using Some n None
          by (auto simp: e numbered_def hm_insert_absent split: sum.splits ConfigError.splits)
      next
        case (Some u)
        then have "n \<in> set (map fst m)" by (metis hm_get_def map_of_SomeD in_set_zipE zip_map_fst_snd)
        then have "1 \<le> count_list (map fst m) n" by (simp add: count_list_0_iff Suc_le_eq flip: neq0_conv)
        with Some n \<open>toml_as_table v = Some t\<close> show ?thesis by (simp add: e)
      qed
    qed
  qed
qed (simp add: numbered_def)

subsection \<open>The plan and the errors\<close>

definition single_plan :: "TomlLib \<Rightarrow> string \<Rightarrow> string \<Rightarrow> toml_table option \<Rightarrow> LaunchEntry list" where
  "single_plan lib miner_id backend s = map (launch_entry lib miner_id backend None) (opt_list s)"

definition cuda_plan :: "TomlLib \<Rightarrow> toml_table \<Rightarrow> LaunchEntry list" where
  "cuda_plan lib cuda =
     map (\<lambda>(n, t). launch_entry lib (''cuda-'' @ show_nat n) ''cuda'' (Some n) t)
       (sort_key fst (zip (ordinals cuda) (map snd (sub_tables cuda))))"

definition plan :: "TomlLib \<Rightarrow> toml_table \<Rightarrow> LaunchEntry list" where
  "plan lib root =
     single_plan lib ''cpu-0'' ''cpu'' (get_table root ''cpu'') @ cuda_plan lib (section_or_empty root ''cuda'')
     @ single_plan lib ''metal-0'' ''metal'' (get_table root ''metal'') @ single_plan lib ''qpu-0'' ''dwave'' (qpu_section root)"

lemma cpu_launch_Inr:
  "cpu_launch lib root = Inr es \<longleftrightarrow>
     sub_tables (section_or_empty root ''cpu'') = [] \<and> es = single_plan lib ''cpu-0'' ''cpu'' (get_table root ''cpu'')"
  by (cases "get_table root ''cpu''") (auto simp: cpu_launch_def section_or_empty_def or_value_def single_plan_def)

lemma metal_launch_Inr:
  "metal_launch lib root = Inr es \<longleftrightarrow>
     sub_tables (section_or_empty root ''metal'') = [] \<and> es = single_plan lib ''metal-0'' ''metal'' (get_table root ''metal'')"
  by (cases "get_table root ''metal''") (auto simp: metal_launch_def section_or_empty_def or_value_def single_plan_def)

lemma qpu_launch_plan: "qpu_launch lib root = single_plan lib ''qpu-0'' ''dwave'' (qpu_section root)"
  by (simp add: qpu_launch_def qpu_section_def single_plan_def split: option.splits)

lemma cuda_sections_Inr:
  "cuda_sections cuda [] = Inr m \<longleftrightarrow>
     numbered cuda \<and> distinct (ordinals cuda) \<and> m = zip (ordinals cuda) (map snd (sub_tables cuda))"
proof (cases "cuda_sections cuda []")
  case (Inl e)
  have "\<not> (numbered cuda \<and> distinct (ordinals cuda))"
  proof (cases e)
    case (CudaSectionNotIndexed k)
    with Inl cuda_sections_spec [of "[]" cuda] show ?thesis by (force simp: numbered_def list_all_iff)
  next
    case (DuplicateCudaDevice n)
    with Inl cuda_sections_spec [of "[]" cuda] have "2 \<le> count_list (ordinals cuda) n" by simp
    then show ?thesis using count_list_distinct [of "ordinals cuda" n] by auto
  qed (use Inl cuda_sections_spec [of "[]" cuda] in simp_all)
  with Inl show ?thesis by auto
next
  case (Inr m')
  with cuda_sections_spec [of "[]" cuda] show ?thesis by auto
qed

lemma cuda_launch_Inr:
  "cuda_launch lib root = Inr es \<longleftrightarrow>
     numbered (section_or_empty root ''cuda'') \<and> distinct (ordinals (section_or_empty root ''cuda''))
     \<and> es = cuda_plan lib (section_or_empty root ''cuda'')"
  by (cases "get_table root ''cuda''")
    (auto simp: cuda_launch_def section_or_empty_def or_value_def cuda_plan_def numbered_def cuda_sections_Inr)

lemma parse_launch_Inr:
  "parse_launch lib root = Inr es \<longleftrightarrow>
     sub_tables (section_or_empty root ''cpu'') = [] \<and> sub_tables (section_or_empty root ''metal'') = []
     \<and> numbered (section_or_empty root ''cuda'') \<and> distinct (ordinals (section_or_empty root ''cuda'')) \<and> es = plan lib root"
  by (auto simp: parse_launch_def cpu_launch_Inr cuda_launch_Inr metal_launch_Inr qpu_launch_plan plan_def)

lemma parse_launch_Inl:
  assumes "parse_launch lib root = Inl e"
  shows "(case e of
      IndexedSingleDeviceSection backend key \<Rightarrow>
        backend \<in> {''cpu'', ''metal''} \<and> key \<in> fst ` set (sub_tables (section_or_empty root backend))
    | CudaSectionNotIndexed key \<Rightarrow>
        key \<in> fst ` set (sub_tables (section_or_empty root ''cuda'')) \<and> parse_usize key = None
    | DuplicateCudaDevice n \<Rightarrow> 2 \<le> count_list (ordinals (section_or_empty root ''cuda'')) n
    | _ \<Rightarrow> False)"
proof -
  consider "cpu_launch lib root = Inl e" | "cuda_launch lib root = Inl e" | "metal_launch lib root = Inl e"
    using assms by (auto simp: parse_launch_def and_then_Inl)
  then show ?thesis
  proof cases
    case 1
    then obtain t where t: "get_table root ''cpu'' = Some t" "reject_indexed ''cpu'' t = Inl e"
      by (auto simp: cpu_launch_def and_then_Inl split: option.splits)
    with reject_indexed_spec [of "''cpu''" t] show ?thesis by (force simp: section_or_empty_def or_value_def)
  next
    case 2
    then obtain t where t: "get_table root ''cuda'' = Some t" "cuda_sections t [] = Inl e"
      by (auto simp: cuda_launch_def and_then_Inl split: option.splits)
    with cuda_sections_spec [of "[]" t] show ?thesis
      by (cases e) (simp_all add: section_or_empty_def or_value_def)
  next
    case 3
    then obtain t where t: "get_table root ''metal'' = Some t" "reject_indexed ''metal'' t = Inl e"
      by (auto simp: metal_launch_def and_then_Inl split: option.splits)
    with reject_indexed_spec [of "''metal''" t] show ?thesis by (force simp: section_or_empty_def or_value_def)
  qed
qed

lemma cuda_plan_Nil: "numbered cuda \<Longrightarrow> cuda_plan lib cuda = [] \<longleftrightarrow> sub_tables cuda = []"
proof -
  assume "numbered cuda"
  then have "length (ordinals cuda) = length (sub_tables cuda)"
    unfolding numbered_def ordinals_def by (induction "sub_tables cuda" rule: list.induct) (auto simp: List.map_filter_def list_all_iff)
  then show ?thesis by (auto simp: cuda_plan_def simp flip: length_0_conv)
qed

lemma plan_Nil: "numbered (section_or_empty root ''cuda'') \<Longrightarrow> plan lib root = [] \<longleftrightarrow> \<not> has_backend root"
  by (auto simp: plan_def cuda_plan_Nil has_backend_def single_plan_def opt_list_def split: option.splits)


subsection \<open>Which files are accepted, and why the others are not\<close>

definition error_holds :: "toml_table \<Rightarrow> ConfigError \<Rightarrow> bool" where
  "error_holds root e = (case e of
     BadToml _ \<Rightarrow> False
   | MissingMiner \<Rightarrow> get_table root ''miner'' = None
   | IndexedSingleDeviceSection backend key \<Rightarrow>
       (backend = ''cpu'' \<or> backend = ''metal'') \<and> key \<in> fst ` set (sub_tables (section_or_empty root backend))
   | CudaSectionNotIndexed key \<Rightarrow>
       key \<in> fst ` set (sub_tables (section_or_empty root ''cuda'')) \<and> parse_usize key = None
   | DuplicateCudaDevice n \<Rightarrow> 2 \<le> count_list (ordinals (section_or_empty root ''cuda'')) n
   | NoBackends old \<Rightarrow> \<not> has_backend root
       \<and> (old \<longleftrightarrow> (\<exists>k. k \<in> {''faucet_url'', ''rest_host'', ''rest_port''} \<and> toml_get (section_or_empty root ''miner'') k \<noteq> None))
   | MissingMinerKey key \<Rightarrow> has_backend root
       \<and> (key = ''public_host'' \<and> optional_str (section_or_empty root ''miner'') key = None
          \<or> key = ''public_port'' \<and> public_port_of (section_or_empty root ''miner'') = None))"

lemma looks_like_v0_2_iff:
  "looks_like_v0_2 miner \<longleftrightarrow> (\<exists>k. k \<in> {''faucet_url'', ''rest_host'', ''rest_port''} \<and> toml_get miner k \<noteq> None)"
  unfolding looks_like_v0_2_def by auto

lemma parse_miner_identity_Inr:
  "parse_miner_identity miner = Inr i \<Longrightarrow>
     optional_str miner ''public_host'' = Some (mi_public_host i) \<and> public_port_of miner = Some (mi_public_port i)
     \<and> mi_node_id i = optional_str miner ''node_id'' \<and> mi_node_name i = optional_str miner ''node_name''"
  by (auto simp: parse_miner_identity_def split: option.splits)

lemma parse_miner_identity_Inl:
  "parse_miner_identity miner = Inl e \<Longrightarrow>
     e = MissingMinerKey ''public_host'' \<and> optional_str miner ''public_host'' = None
     \<or> e = MissingMinerKey ''public_port'' \<and> public_port_of miner = None"
  by (auto simp: parse_miner_identity_def split: option.splits)

text \<open>An accepted file, taken apart.\<close>

lemma parse_config_Inr:
  assumes "parse_config lib text = Inr cfg"
  obtains root miner i where
    "tl_from_str lib text = Inr root" "get_table root ''miner'' = Some miner" "parse_launch lib root = Inr (cg_launch cfg)"
    "cg_launch cfg \<noteq> []" "parse_miner_identity miner = Inr i"
    "cg_node_id cfg = mi_node_id i" "cg_node_name cfg = mi_node_name i" "cg_public_host cfg = mi_public_host i"
    "cg_public_port cfg = mi_public_port i" "cg_faucet_url cfg = optional_str miner ''faucet_url''"
    "cg_min_balance_plancks cfg = int_setting miner ''min_balance_plancks'' u128_max DEFAULT_MIN_BALANCE_PLANCKS"
    "cg_faucet_top_up_plancks cfg = int_setting miner ''faucet_top_up_plancks'' u128_max DEFAULT_TOP_UP_PLANCKS"
    "cg_funding_timeout_s cfg = int_setting miner ''funding_timeout_s'' u64_max (DEFAULT_FUNDING_TIMEOUT div 1000)"
    "cg_max_submit_attempts cfg = int_setting miner ''max_submit_attempts'' u32_max 5"
  using assms unfolding parse_config_def by (auto split: sum.splits option.splits if_splits)

lemma accepted_iff:
  assumes root: "tl_from_str lib text = Inr root"
  shows "(\<exists>cfg. parse_config lib text = Inr cfg) \<longleftrightarrow> acceptable root"
proof (cases "get_table root ''miner''")
  case None
  with root show ?thesis by (simp add: parse_config_def acceptable_def)
next
  case (Some miner)
  have "(\<exists>i. parse_miner_identity miner = Inr i) \<longleftrightarrow> optional_str miner ''public_host'' \<noteq> None \<and> public_port_of miner \<noteq> None"
    by (auto simp: parse_miner_identity_def split: option.splits)
  with root Some show ?thesis
    by (auto simp: parse_config_def acceptable_def parse_launch_Inr plan_Nil split: if_splits)
qed

lemma rejected_why:
  assumes root: "tl_from_str lib text = Inr root" and e: "parse_config lib text = Inl e"
  shows "error_holds root e"
proof (cases "get_table root ''miner''")
  case None
  with root e show ?thesis by (auto simp: parse_config_def error_holds_def)
next
  case (Some miner)
  then have m: "section_or_empty root ''miner'' = miner" by (simp add: section_or_empty_def or_value_def)
  show ?thesis
  proof (cases "parse_launch lib root")
    case (Inl e')
    then have "e' = e" using root e Some by (simp add: parse_config_def and_then_def)
    with parse_launch_Inl [OF Inl] show ?thesis by (auto simp: error_holds_def split: ConfigError.splits)
  next
    case (Inr launch)
    then have plan: "launch = plan lib root" "numbered (section_or_empty root ''cuda'')" by (simp_all add: parse_launch_Inr)
    show ?thesis
    proof (cases "launch = []")
      case True
      then show ?thesis using root e Some Inr plan plan_Nil [OF plan(2)]
        by (auto simp: parse_config_def and_then_def error_holds_def m looks_like_v0_2_iff)
    next
      case False
      then have "parse_miner_identity miner = Inl e"
        using root e Some Inr by (simp add: parse_config_def and_then_def split: sum.splits)
      moreover have "has_backend root" using False plan plan_Nil [OF plan(2)] by blast
      ultimately show ?thesis using parse_miner_identity_Inl [of miner e] by (auto simp: error_holds_def m)
    qed
  qed
qed

text \<open>
  C21. A configuration file is accepted exactly when it is TOML with a \<open>[miner]\<close> table that has a non-blank host and
  a port in range, no sub-table in a single-device section, only numbered and pairwise different CUDA
  sections, and at least one backend; otherwise the error returned names a fault the file really has.
\<close>
theorem config_errors_justified:
  "(case tl_from_str lib text of
      Inl m \<Rightarrow> parse_config lib text = Inl (BadToml m)
    | Inr root \<Rightarrow> (case parse_config lib text of
          Inr cfg \<Rightarrow> acceptable root
        | Inl e \<Rightarrow> \<not> acceptable root \<and> error_holds root e))"
proof (cases "tl_from_str lib text")
  case (Inl m)
  then show ?thesis by (simp add: parse_config_def)
next
  case (Inr root)
  with accepted_iff [OF Inr] rejected_why [OF Inr] show ?thesis by (auto split: sum.splits)
qed

subsection \<open>The launch plan\<close>

lemma parse_digits_le: "acc \<le> u64_max \<Longrightarrow> parse_digits acc s = Some n \<Longrightarrow> n \<le> u64_max"
proof (induction s arbitrary: acc)
  case (Cons c s)
  from Cons.prems(2) obtain d where "acc * 10 + d \<le> u64_max" "parse_digits (acc * 10 + d) s = Some n"
    by (auto simp: not_less split: option.splits if_splits)
  then show ?case by (rule Cons.IH)
qed simp

lemma parse_usize_le: "parse_usize s = Some n \<Longrightarrow> n \<le> u64_max"
  using parse_digits_le [of 0] by (auto simp: parse_usize_def parse_u64_def Let_def split: if_splits list.splits)

lemma ordinals_le: "n \<in> set (ordinals s) \<Longrightarrow> n \<le> u64_max"
  by (auto simp: ordinals_def List.map_filter_def dest: parse_usize_le)

lemma numbered_ordinals: "numbered s \<Longrightarrow> map Some (ordinals s) = map (\<lambda>e. parse_usize (fst e)) (sub_tables s)"
  unfolding numbered_def ordinals_def
  by (induction "sub_tables s" rule: list.induct) (auto simp: List.map_filter_def list_all_iff)

lemma length_ordinals: "numbered s \<Longrightarrow> length (ordinals s) = length (sub_tables s)"
  by (metis length_map numbered_ordinals)

lemma map_fst_sort_key: "map fst (sort_key fst xs) = sort (map fst xs)"
proof (rule properties_for_sort [symmetric])
  show "mset (map fst (sort_key fst xs)) = mset (map fst xs)" by (metis mset_map mset_sort)
qed simp

definition identity_of :: "LaunchEntry \<Rightarrow> string \<times> string \<times> nat option" where
  "identity_of e = (le_miner_id e, le_backend e, le_device e)"

definition single_identity :: "string \<Rightarrow> string \<Rightarrow> toml_table option \<Rightarrow> (string \<times> string \<times> nat option) list" where
  "single_identity miner_id backend s = map (\<lambda>_. (miner_id, backend, None)) (opt_list s)"

lemma identity_single: "map identity_of (single_plan lib miner_id backend s) = single_identity miner_id backend s"
  by (simp add: single_plan_def single_identity_def identity_of_def launch_entry_def)

lemma identity_cuda:
  assumes "numbered cuda"
  shows "map identity_of (cuda_plan lib cuda) = map (\<lambda>n. (''cuda-'' @ show_nat n, ''cuda'', Some n)) (sort (ordinals cuda))"
proof -
  let ?z = "zip (ordinals cuda) (map snd (sub_tables cuda))"
  have "sort (ordinals cuda) = map fst (sort_key fst ?z)"
    using length_ordinals [OF assms] by (simp add: map_fst_sort_key)
  then show ?thesis by (simp add: cuda_plan_def identity_of_def launch_entry_def split_def)
qed

lemma cuda_plan_entry:
  assumes "numbered cuda" and "(k, t) \<in> set (sub_tables cuda)"
  shows "\<exists>n. parse_usize k = Some n \<and> launch_entry lib (''cuda-'' @ show_nat n) ''cuda'' (Some n) t \<in> set (cuda_plan lib cuda)"
proof -
  obtain i where i: "i < length (sub_tables cuda)" "sub_tables cuda ! i = (k, t)" using assms(2) by (auto simp: in_set_conv_nth)
  have "Some (ordinals cuda ! i) = parse_usize k"
    using numbered_ordinals [OF assms(1)] i length_ordinals [OF assms(1)] by (metis fst_conv nth_map)
  moreover have "(ordinals cuda ! i, t) \<in> set (zip (ordinals cuda) (map snd (sub_tables cuda)))"
    using i length_ordinals [OF assms(1)] by (auto simp: in_set_zip intro!: exI [of _ i])
  ultimately show ?thesis by (force simp: cuda_plan_def)
qed

text \<open>
  C22. The launch plan of an accepted file: the CPU miner, one CUDA miner per section in the order of the device
  numbers, the Metal miner and the QPU miner, each only if its section is there; every CUDA section \<open>[cuda.k]\<close> gives one
  entry whose id and device are the number that \<open>k\<close> stands for, with the settings of that section, and the child
  process is told exactly this device.
\<close>
theorem launch_plan_exact:
  assumes root: "tl_from_str lib text = Inr root" and cfg: "parse_config lib text = Inr cfg"
  shows "map identity_of (cg_launch cfg) =
      single_identity ''cpu-0'' ''cpu'' (get_table root ''cpu'')
      @ map (\<lambda>n. (''cuda-'' @ show_nat n, ''cuda'', Some n)) (sort (ordinals (section_or_empty root ''cuda'')))
      @ single_identity ''metal-0'' ''metal'' (get_table root ''metal'') @ single_identity ''qpu-0'' ''dwave'' (qpu_section root)
    \<and> (\<forall>k t. (k, t) \<in> set (sub_tables (section_or_empty root ''cuda'')) \<longrightarrow>
      (\<exists>n e. parse_usize k = Some n \<and> e \<in> set (cg_launch cfg) \<and> e = launch_entry lib (''cuda-'' @ show_nat n) ''cuda'' (Some n) t
        \<and> child_args e sock level = [''--quip-coordinator'', sock, ''--miner-id'', ''cuda-'' @ show_nat n,
             ''--log-level'', log_level_str level, ''--device'', show_nat n]))"
proof -
  from parse_config_Inr [OF cfg] root have "parse_launch lib root = Inr (cg_launch cfg)" by (metis sum.inject(2))
  then have n: "numbered (section_or_empty root ''cuda'')" and p: "cg_launch cfg = plan lib root"
    by (simp_all add: parse_launch_Inr)
  have "\<exists>n e. parse_usize k = Some n \<and> e \<in> set (cg_launch cfg) \<and> e = launch_entry lib (''cuda-'' @ show_nat n) ''cuda'' (Some n) t
      \<and> child_args e sock level = [''--quip-coordinator'', sock, ''--miner-id'', ''cuda-'' @ show_nat n,
           ''--log-level'', log_level_str level, ''--device'', show_nat n]"
    if "(k, t) \<in> set (sub_tables (section_or_empty root ''cuda''))" for k t
    using cuda_plan_entry [OF n that, of lib] by (auto simp: p plan_def child_args_def launch_entry_def)
  then show ?thesis by (simp add: p plan_def identity_single identity_cuda [OF n])
qed

text \<open>A sample file: two CUDA sections written out of order, one of them with a leading zero, and a CPU section.\<close>

definition sample_root :: toml_table where
  "sample_root =
     [(us ''cpu'', TTable [(us ''queue_depth'', TInteger 4)]),
      (us ''cuda'', TTable [(us ''10'', TTable []), (us ''02'', TTable [(us ''binary'', TString (us ''b''))]), (us ''x'', TInteger 1)]),
      (us ''miner'', TTable [(us ''public_host'', TString (us '' h '')), (us ''public_port'', TInteger 20050)])]"

definition sample_lib :: TomlLib where
  "sample_lib = \<lparr> tl_from_str = (\<lambda>_. Inr sample_root), tl_to_string = (\<lambda>_. None) \<rparr>"

lemma us_eq_iff: "us a = us b \<longleftrightarrow> a = b"
  unfolding us_def by (rule inj_map_eq_map) (simp add: inj_def)

lemma parse_usize_us: "list_all (\<lambda>c. of_char c < (128 :: nat)) s \<Longrightarrow> parse_usize (us s) = parse_u64 s"
  by (simp add: parse_usize_def us_def list_all_iff comp_def)

lemmas sample_simps = sample_root_def us_eq_iff toml_get_def hm_get_def get_table_def get_str_def get_int_def
  section_or_empty_def or_value_def qpu_section_def

lemma sample_cuda: "section_or_empty sample_root ''cuda'' =
    [(us ''10'', TTable []), (us ''02'', TTable [(us ''binary'', TString (us ''b''))]), (us ''x'', TInteger 1)]"
  by (simp add: sample_simps)

lemma sample_keys: "parse_usize [49, 48] = Some 10" "parse_usize [48, 50] = Some 2"
  using parse_usize_us [of "''10''"] parse_usize_us [of "''02''"] by (simp_all add: parse_u64_def digit_value_def)

lemma sample_accepted: "\<exists>cfg. parse_config sample_lib [] = Inr cfg"
proof -
  have "trim (us '' h '') = us ''h''" by (simp add: trim_def trim_start_def us_def is_whitespace_def)
  then have "acceptable sample_root"
    unfolding acceptable_def has_backend_def sample_cuda
    by (simp add: sample_simps numbered_def sample_keys optional_str_def nonblank_def public_port_of_def keep_if_def try_from_int_def)
  then show ?thesis using accepted_iff [of sample_lib "[]" sample_root] by (simp add: sample_lib_def)
qed

theorem launch_plan_exact_witness:
  "\<exists>cfg. parse_config sample_lib [] = Inr cfg
     \<and> map identity_of (cg_launch cfg) = [(''cpu-0'', ''cpu'', None), (''cuda-2'', ''cuda'', Some 2), (''cuda-10'', ''cuda'', Some 10)]"
proof -
  obtain cfg where cfg: "parse_config sample_lib [] = Inr cfg" using sample_accepted by blast
  have root: "tl_from_str sample_lib [] = Inr sample_root" by (simp add: sample_lib_def)
  have "sort (ordinals (section_or_empty sample_root ''cuda'')) = [2, 10]" by (simp add: sample_cuda sample_keys)
  moreover have "show_nat 2 = ''2''" "show_nat 10 = ''10''" by code_simp+
  moreover have "single_identity ''cpu-0'' ''cpu'' (get_table sample_root ''cpu'') = [(''cpu-0'', ''cpu'', None)]"
    "single_identity ''metal-0'' ''metal'' (get_table sample_root ''metal'') = []"
    "single_identity ''qpu-0'' ''dwave'' (qpu_section sample_root) = []" by (simp_all add: sample_simps single_identity_def)
  ultimately show ?thesis using cfg launch_plan_exact [OF root cfg] by auto
qed

subsection \<open>The types of an accepted configuration\<close>

definition trimmed :: "ustring \<Rightarrow> bool" where
  "trimmed s \<longleftrightarrow> s \<noteq> [] \<and> \<not> is_whitespace (hd s) \<and> \<not> is_whitespace (last s)"

definition entry_ok :: "LaunchEntry \<Rightarrow> bool" where
  "entry_ok e \<longleftrightarrow>
     cf_queue_depth (le_configure e) \<le> u32_max \<and> cf_idle_timeout_s (le_configure e) \<le> u32_max
     \<and> cf_heartbeat_s (le_configure e) \<le> u32_max \<and> cf_reconnect_window_s (le_configure e) \<le> u32_max
     \<and> (case le_device e of
          Some n \<Rightarrow> n \<le> u64_max \<and> le_backend e = ''cuda'' \<and> le_miner_id e = ''cuda-'' @ show_nat n
        | None \<Rightarrow> (le_miner_id e, le_backend e) \<in> {(''cpu-0'', ''cpu''), (''metal-0'', ''metal''), (''qpu-0'', ''dwave'')})"

definition config_ok :: "CoordinatorConfig \<Rightarrow> bool" where
  "config_ok cfg \<longleftrightarrow>
     cg_launch cfg \<noteq> [] \<and> list_all entry_ok (cg_launch cfg) \<and> distinct (map le_miner_id (cg_launch cfg))
     \<and> sorted_wrt (<) (List.map_filter le_device (cg_launch cfg))
     \<and> trimmed (cg_public_host cfg) \<and> 1 \<le> cg_public_port cfg \<and> cg_public_port cfg \<le> 65535
     \<and> pred_option trimmed (cg_node_id cfg) \<and> pred_option trimmed (cg_node_name cfg) \<and> pred_option trimmed (cg_faucet_url cfg)
     \<and> cg_min_balance_plancks cfg \<le> u128_max \<and> cg_faucet_top_up_plancks cfg \<le> u128_max
     \<and> cg_funding_timeout_s cfg \<le> u64_max \<and> cg_max_submit_attempts cfg \<le> u32_max"

lemma trimmed_trim: "trim s \<noteq> [] \<Longrightarrow> trimmed (trim s)"
proof -
  assume ne: "trim s \<noteq> []"
  let ?r = "dropWhile is_whitespace (rev (trim_start s))"
  have "?r \<noteq> []" using ne by (simp add: trim_def trim_start_def)
  then have "\<not> is_whitespace (hd ?r)" by (rule hd_dropWhile)
  then have "\<not> is_whitespace (last (trim s))" using \<open>?r \<noteq> []\<close> by (simp add: trim_def trim_start_def last_rev)
  with trim_ends [OF ne] ne show ?thesis by (simp add: trimmed_def)
qed

lemma optional_str_trimmed: "pred_option trimmed (optional_str t k)"
  by (cases "get_str t k") (auto simp: optional_str_def nonblank_def trimmed_trim)

lemma int_setting_le: "d \<le> m \<Longrightarrow> int_setting t k m d \<le> m"
  by (auto simp: int_setting_def or_value_def try_from_int_def bind_eq_Some_conv split: option.splits)

lemma u32_of_le: "d \<le> u32_max \<Longrightarrow> u32_of t k d \<le> u32_max"
proof -
  have "nat (i mod 4294967296) \<le> u32_max" for i :: int
    using pos_mod_bound [of 4294967296 i] by linarith
  then show "d \<le> u32_max \<Longrightarrow> u32_of t k d \<le> u32_max" by (auto simp: u32_of_def int_as_u32_def split: option.splits)
qed

lemma entry_ok_iff:
  "entry_ok (launch_entry lib i b dev t) \<longleftrightarrow>
     (case dev of Some n \<Rightarrow> n \<le> u64_max \<and> b = ''cuda'' \<and> i = ''cuda-'' @ show_nat n
                | None \<Rightarrow> (i, b) \<in> {(''cpu-0'', ''cpu''), (''metal-0'', ''metal''), (''qpu-0'', ''dwave'')})"
  by (cases dev) (simp_all add: entry_ok_def launch_entry_def make_configure_def u32_of_le)

lemma plan_entry_ok: "e \<in> set (plan lib root) \<Longrightarrow> entry_ok e"
  by (auto simp: plan_def single_plan_def cuda_plan_def entry_ok_iff dest!: set_zip_leftD ordinals_le)

lemma show_nat_ne: "show_nat n \<noteq> []"
  using show_nat_hd [of n] by auto

lemma plan_identities:
  assumes "numbered (section_or_empty root ''cuda'')" and "distinct (ordinals (section_or_empty root ''cuda''))"
  shows "distinct (map le_miner_id (plan lib root))" "sorted_wrt (<) (List.map_filter le_device (plan lib root))"
proof -
  let ?ns = "sort (ordinals (section_or_empty root ''cuda''))"
  have ids: "map le_miner_id (cuda_plan lib (section_or_empty root ''cuda'')) = map (\<lambda>n. ''cuda-'' @ show_nat n) ?ns"
    using arg_cong [OF identity_cuda [OF assms(1), of lib], of "map fst"] by (simp add: identity_of_def comp_def)
  have inj: "inj_on (\<lambda>n. ''cuda-'' @ show_nat n) (set ?ns)" by (auto intro!: inj_onI simp: show_nat_inj ordinals_le)
  show "distinct (map le_miner_id (plan lib root))"
    using assms(2) inj unfolding plan_def map_append ids
    by (auto simp: single_plan_def launch_entry_def opt_list_def distinct_map split: option.splits)
  have "List.map_filter le_device (cuda_plan lib (section_or_empty root ''cuda'')) = ?ns"
  proof -
    have "List.map_filter le_device xs = List.map_filter (\<lambda>i. snd (snd i)) (map identity_of xs)" for xs
      by (simp add: List.map_filter_def identity_of_def filter_map comp_def)
    then show ?thesis using identity_cuda [OF assms(1), of lib] by (simp add: List.map_filter_def comp_def)
  qed
  moreover have "List.map_filter le_device (single_plan lib i b s) = []" for i b s
    by (auto simp: single_plan_def List.map_filter_def launch_entry_def filter_empty_conv)
  ultimately have "List.map_filter le_device (plan lib root) = ?ns" by (simp add: plan_def List.map_filter_def)
  then show "sorted_wrt (<) (List.map_filter le_device (plan lib root))"
    using assms(2) by (simp add: strict_sorted_iff)
qed

lemma parsed_config_ok:
  assumes "parse_config lib text = Inr cfg"
  shows "config_ok cfg"
proof -
  from assms obtain root miner i where
    plan: "parse_launch lib root = Inr (cg_launch cfg)" "cg_launch cfg \<noteq> []"
    and i: "parse_miner_identity miner = Inr i"
    and f: "cg_node_id cfg = mi_node_id i" "cg_node_name cfg = mi_node_name i" "cg_public_host cfg = mi_public_host i"
      "cg_public_port cfg = mi_public_port i" "cg_faucet_url cfg = optional_str miner ''faucet_url''"
      "cg_min_balance_plancks cfg = int_setting miner ''min_balance_plancks'' u128_max DEFAULT_MIN_BALANCE_PLANCKS"
      "cg_faucet_top_up_plancks cfg = int_setting miner ''faucet_top_up_plancks'' u128_max DEFAULT_TOP_UP_PLANCKS"
      "cg_funding_timeout_s cfg = int_setting miner ''funding_timeout_s'' u64_max (DEFAULT_FUNDING_TIMEOUT div 1000)"
      "cg_max_submit_attempts cfg = int_setting miner ''max_submit_attempts'' u32_max 5"
    by (rule parse_config_Inr)
  note identity = parse_miner_identity_Inr [OF i]
  have "pred_option trimmed (Some (mi_public_host i))" using identity optional_str_trimmed [of miner "''public_host''"] by simp
  moreover have "1 \<le> mi_public_port i \<and> mi_public_port i \<le> 65535"
    using identity by (auto simp: public_port_of_def try_from_int_def bind_eq_Some_conv split: if_splits)
  ultimately show ?thesis
    using plan identity plan_identities [of root lib] plan_entry_ok [of _ lib root]
    by (auto simp: config_ok_def f optional_str_trimmed parse_launch_Inr list_all_iff intro!: int_setting_le
        simp: DEFAULT_MIN_BALANCE_PLANCKS_def DEFAULT_TOP_UP_PLANCKS_def DEFAULT_FUNDING_TIMEOUT_def)
qed

text \<open>
  C23. An accepted configuration is well typed: every number fits the width of its field, host, names and
  faucet address are trimmed and not blank, the port is one to 65535, the plan is not empty, its miner ids are
  pairwise different, its devices ascend, and an entry has a device exactly when it is a CUDA miner, whose id then names it.
\<close>
theorem config_well_typed:
  assumes "parse_config lib text = Inr cfg"
  shows "config_ok cfg"
  using assms by (rule parsed_config_ok)

theorem config_well_typed_witness:
  "\<exists>cfg. parse_config sample_lib [] = Inr cfg \<and> config_ok cfg"
  using sample_accepted config_well_typed [of sample_lib "[]"] by blast

end
