(* ===== verification/Startup_Laws.thy ===== *)
theory Startup_Laws
  imports Startup Config_Laws Client_Laws Session_Laws
begin

text \<open>
  The start of the process: what the compatibility check accepts, when the command starts the runtime and with what,
  and that a launched miner is handed the settings of its own section.
\<close>

subsection \<open>The compatibility check\<close>

lemma preflight_returns: "\<exists>r c'. preflight N api_id c = Some (r, c')"
proof -
  obtain a c' where "runtime_version_raw N c = Some (a, c')"
    using rpc_call_not_None [of N "''state_getRuntimeVersion''" "[]" c] by (force simp: runtime_version_raw_def)
  then show ?thesis by (cases a) (simp_all add: preflight_def)
qed

text \<open>
  The check against the validator: it always returns. It succeeds exactly when a validator answered the
  version query with both version numbers and with \<open>QuantumPowApi\<close> at version two or newer, and an unreachable network is
  the only failure it reports as such, which is the one that does not stop the process.
\<close>
theorem preflight_exact:
  "\<exists>r c'. preflight N api_id c = Some (r, c') \<and>
     (case r of
        Inr info \<Rightarrow> \<exists>rv. runtime_version_raw N c = Some (Inr rv, c') \<and> parse_runtime_version api_id rv = Inr info
          \<and> (\<exists>v. vi_quantum_pow_api info = Some v \<and> 2 \<le> v)
      | Inl e \<Rightarrow> (case e of
          Unreachable err \<Rightarrow> runtime_version_raw N c = Some (Inl err, c')
        | Malformed m \<Rightarrow> \<exists>rv. runtime_version_raw N c = Some (Inr rv, c')
            \<and> (Option.bind (get_key rv ''specVersion'') u32_of_json = None
               \<or> Option.bind (get_key rv ''transactionVersion'') u32_of_json = None)
        | MissingApi info \<Rightarrow> \<exists>rv. runtime_version_raw N c = Some (Inr rv, c') \<and> parse_runtime_version api_id rv = Inr info
            \<and> vi_quantum_pow_api info = None
        | ApiTooOld info required \<Rightarrow> \<exists>rv v. runtime_version_raw N c = Some (Inr rv, c')
            \<and> parse_runtime_version api_id rv = Inr info \<and> vi_quantum_pow_api info = Some v \<and> v < 2 \<and> required = 2)
        \<and> (run_preflight_gate N api_id c = Some (None, c') \<longleftrightarrow> (\<exists>err. e = Unreachable err)))"
proof -
  obtain a c' where a: "runtime_version_raw N c = Some (a, c')"
    using preflight_returns [of N api_id c] by (auto simp: preflight_def split: option.splits)
  show ?thesis
  proof (cases a)
    case (Inl e)
    with a show ?thesis by (simp add: preflight_def run_preflight_gate_def)
  next
    case (Inr rv)
    show ?thesis
    proof (cases "parse_runtime_version api_id rv")
      case (Inl e)
      then have "\<exists>m. e = Malformed m \<and> (Option.bind (get_key rv ''specVersion'') u32_of_json = None
          \<or> Option.bind (get_key rv ''transactionVersion'') u32_of_json = None)"
        by (auto simp: parse_runtime_version_def split: option.splits)
      with a Inr Inl show ?thesis by (auto simp: preflight_def run_preflight_gate_def and_then_def)
    next
      case info: (Inr info)
      show ?thesis
        using a Inr info
        by (cases "vi_quantum_pow_api info")
          (auto simp: preflight_def run_preflight_gate_def and_then_def judge_validator_def MIN_QUANTUM_POW_API_def)
    qed
  qed
qed

subsection \<open>When the runtime starts\<close>

definition accepted_config :: "('key, 'sig) StartEnv \<Rightarrow> ustring option \<Rightarrow> CoordinatorConfig option" where
  "accepted_config env config =
     (case load_coordinator_config env config of Inr (_, cfg) \<Rightarrow> Some cfg | Inl _ \<Rightarrow> None)"

text \<open>The validator answered, and what it said rules it out.\<close>

definition incompatible :: "('key, 'sig) StartEnv \<Rightarrow> CoordinatorConfig \<Rightarrow> bool" where
  "incompatible env cfg \<longleftrightarrow>
     (case preflight (se_net env) (se_api_id env) (client_of_config cfg) of
        Some (Inl (Unreachable _), _) \<Rightarrow> False
      | Some (Inl _, _) \<Rightarrow> True
      | _ \<Rightarrow> False)"

definition unfunded :: "('key, 'sig) StartEnv \<Rightarrow> CoordinatorConfig \<Rightarrow> bool" where
  "unfunded env cfg \<longleftrightarrow>
     (case ensure_funded (sc_balance (se_chain env)) (build_faucet (se_http_faucet env) (cg_faucet_url cfg)) (funding_of_config cfg) of
        Some (Inl _, _) \<Rightarrow> True
      | _ \<Rightarrow> False)"

lemma gate_code:
  "\<exists>c'. run_preflight_gate (se_net env) (se_api_id env) (client_of_config cfg)
     = Some (if incompatible env cfg then Some ConfigInvalid else None, c')"
proof -
  obtain r c' where r: "preflight (se_net env) (se_api_id env) (client_of_config cfg) = Some (r, c')"
    using preflight_returns by blast
  show ?thesis
  proof (cases r)
    case (Inl e)
    with r show ?thesis by (cases e) (simp_all add: run_preflight_gate_def incompatible_def)
  qed (use r in \<open>simp add: run_preflight_gate_def incompatible_def\<close>)
qed

lemma prepare_code:
  assumes "wait_until_synced (sc_sync (se_chain env)) = Some w"
  shows "\<exists>latches'. run_startup_prepare env account (funding_of_config cfg) descriptor latches
     = Some (if unfunded env cfg then Some ConfigInvalid else None, latches')"
proof -
  let ?chain = "(se_chain env)\<lparr>sc_faucet := build_faucet (se_http_faucet env) (fp_faucet_url (funding_of_config cfg))\<rparr>"
  have "wait_until_synced (sc_sync ?chain) = Some w" using assms by simp
  from prepare_round_returns [OF this, of "funding_of_config cfg" "\<lambda>a. us (nt_ss58 (se_net env) a)" descriptor account latches]
  obtain funded n slept result latches' states where
    f: "ensure_funded (sc_balance ?chain) (sc_faucet ?chain) (funding_of_config cfg) = Some (funded, n, slept)"
    and p: "prepare_round ?chain (\<lambda>a. us (nt_ss58 (se_net env) a)) (funding_of_config cfg) descriptor account latches
        = Some (result, latches', states)"
    and r: "case funded of Inl e \<Rightarrow> result = Inl (FundingFailed e)
        | Inr _ \<Rightarrow> (\<exists>snap. result = Inr snap) \<or> (\<exists>e. result = Inl (SnapshotFailed e))"
    by blast
  have u: "unfunded env cfg \<longleftrightarrow> isl funded"
    using f by (cases funded) (simp_all add: unfunded_def funding_of_config_def)
  show ?thesis
  proof (cases funded)
    case (Inl e)
    with r u p show ?thesis by (simp add: run_startup_prepare_def)
  next
    case (Inr b)
    with r u p show ?thesis by (auto simp: run_startup_prepare_def)
  qed
qed

lemma load_Inl: "load_coordinator_config env config = Inl code \<Longrightarrow> code = ConfigInvalid"
  by (auto simp: load_coordinator_config_def split: option.splits sum.splits)

lemma accepted_config_ok:
  assumes "accepted_config env config = Some cfg"
  shows "config_ok cfg"
proof -
  obtain path contents where "config = Some path" "se_read_file env path = Inr contents"
    "parse_config (se_toml env) contents = Inr cfg"
    using assms by (auto simp: accepted_config_def load_coordinator_config_def split: sum.splits option.splits)
  then show ?thesis using parsed_config_ok by blast
qed


text \<open>A network on which no validator answers, a funded account and the sample file: the runtime starts.\<close>

definition quiet_env :: "(unit, unit) StartEnv" where
  "quiet_env = \<lparr> se_read_file = (\<lambda>_. Inr []), se_toml = sample_lib, se_tokio = True,
     se_net = small_net\<lparr>nt_request := (\<lambda>_ _ _ _. Inl (Unavailable ''down''))\<rparr>, se_api_id = (\<lambda>_. []), se_survey = None,
     se_http_faucet = (\<lambda>_. Inl ''none''), se_chain = demo_start\<lparr>sc_balance := (\<lambda>_. Inr 9000000000000)\<rparr>,
     se_process_id = 7, se_run_runtime = (\<lambda>_ _. Inr ()) \<rparr>"

lemma quiet_rpc: "\<exists>e c'. rpc_try (se_net quiet_env) meth ps urls failed c = Some (Inl e, c')"
  by (induction urls arbitrary: failed c) (simp_all add: quiet_env_def)

lemma quiet_compatible: "\<not> incompatible quiet_env cfg"
proof -
  obtain e c' where "runtime_version_raw (se_net quiet_env) (client_of_config cfg) = Some (Inl e, c')"
    using quiet_rpc by (metis fail_io_def rpc_call_def runtime_version_raw_def)
  then show ?thesis by (simp add: incompatible_def preflight_def)
qed

lemma sample_min_balance:
  assumes "parse_config sample_lib [] = Inr cfg"
  shows "cg_min_balance_plancks cfg = DEFAULT_MIN_BALANCE_PLANCKS"
proof -
  from assms obtain miner where "get_table sample_root ''miner'' = Some miner"
    "cg_min_balance_plancks cfg = int_setting miner ''min_balance_plancks'' u128_max DEFAULT_MIN_BALANCE_PLANCKS"
    by (rule parse_config_Inr) (auto simp: sample_lib_def)
  then show ?thesis by (auto simp: sample_simps int_setting_def)
qed

lemma quiet_funded: "parse_config sample_lib [] = Inr cfg \<Longrightarrow> \<not> unfunded quiet_env cfg"
  unfolding unfunded_def ensure_funded_def
  by (subst funding_loop.simps)
    (simp add: quiet_env_def demo_start_def funding_pass_def funding_of_config_def sample_min_balance DEFAULT_MIN_BALANCE_PLANCKS_def)


subsection \<open>A launched miner gets its own settings\<close>

lemma seed_entry_get:
  "hm_get (cs_configure (seed_entry e st)) i = (if i = le_miner_id e then Some (le_configure e) else hm_get (cs_configure st) i)"
  "hm_get (cs_miner_types (seed_entry e st)) i
     = (if i = le_miner_id e then Some (miner_type_label (le_backend e)) else hm_get (cs_miner_types st) i)"
  by (simp_all add: seed_entry_def hm.get_ins)

lemma fold_seed_get:
  "distinct (map le_miner_id es) \<Longrightarrow> e \<in> set es \<Longrightarrow>
     hm_get (cs_configure (fold seed_entry es st)) (le_miner_id e) = Some (le_configure e)
     \<and> hm_get (cs_miner_types (fold seed_entry es st)) (le_miner_id e) = Some (miner_type_label (le_backend e))"
proof (induction es arbitrary: st)
  case (Cons a es)
  have keep: "hm_get (cs_configure (fold seed_entry es st)) i = hm_get (cs_configure st) i
      \<and> hm_get (cs_miner_types (fold seed_entry es st)) i = hm_get (cs_miner_types st) i"
    if "i \<notin> le_miner_id ` set es" for i and st :: "'a CoordinatorState" using that
    by (induction es arbitrary: st) (auto simp: seed_entry_get)
  show ?case
  proof (cases "e \<in> set es")
    case True
    with Cons show ?thesis by simp
  next
    case False
    then have "e = a" using Cons.prems(2) by simp
    moreover have "le_miner_id a \<notin> le_miner_id ` set es" using Cons.prems(1) by simp
    ultimately show ?thesis using keep [of "le_miner_id a" "seed_entry a st"] by (simp add: seed_entry_get)
  qed
qed simp

lemma seed_runtime_tables:
  "cs_configure (seed_runtime es params st) = cs_configure (fold seed_entry es st)"
  "cs_miner_types (seed_runtime es params st) = cs_miner_types (fold seed_entry es st)"
  by (simp_all add: seed_runtime_def Let_def)

text \<open>
  Between configuration and session: a miner of the plan that completes the handshake, on any later state that still
  holds the seeded settings, is sent the settings of its own section and is charged credits by that section's queue depth.
\<close>
theorem launched_miner_gets_its_settings:
  assumes cfg: "parse_config lib text = Inr cfg" and e: "e \<in> set (cg_launch cfg)"
    and st: "cs_configure st = cs_configure (seed_runtime (cg_launch cfg) params st0)"
    and hello: "he_miner_id hello = le_miner_id e"
    and shake: "session_handshake x sent tx (HelloMsg hello) st = (Some (m, configure), outs, st')"
  shows "m = le_miner_id e \<and> configure = le_configure e \<and> ToMiner (ConfigureMsg (le_configure e)) \<in> set outs
    \<and> session_message x now sp ss configure m Ready st'
        = Some ([Grant (max (cf_queue_depth (le_configure e)) 1)], st')"
proof -
  have "distinct (map le_miner_id (cg_launch cfg))" using parsed_config_ok [OF cfg] by (simp add: config_ok_def)
  from fold_seed_get [OF this e, of st0] have "hm_get (cs_configure st) (he_miner_id hello) = Some (le_configure e)"
    by (simp add: st seed_runtime_tables hello)
  with shake hello show ?thesis
    by (auto simp: session_handshake_def Let_def seed_credits_def split: if_splits option.splits)
qed

definition hello_cpu :: Hello where
  "hello_cpu = \<lparr> he_miner_id = ''cpu-0'', he_session_token = ''t'', he_capabilities = Some
     \<lparr> cp_protocol_version = 1, cp_backend = 0, cp_algorithm = 0, cp_supported_kinds = [], cp_max_nodes = 8,
       cp_max_edges = 8, cp_max_degree = None, cp_native_topology_hash = None, cp_features = [], cp_generators = [],
       cp_stream_width = 1 \<rparr> \<rparr>"

definition quiet_params :: "CoordinatorConfig \<Rightarrow> RuntimeParams" where
  "quiet_params cfg = runtime_params quiet_env cfg Info \<lparr> mk_identity = [], mk_account = [], mk_ss58 = None \<rparr>
     \<lparr> la_descriptor_filed = True, la_miner_registered = True \<rparr>"

definition greeted :: "CoordinatorConfig \<Rightarrow> unit CoordinatorState" where
  "greeted cfg = (seed_runtime (cg_launch cfg) (quiet_params cfg) new_state)\<lparr>cs_expected_tokens := [(''cpu-0'', ''t'')]\<rparr>"

lemma sample_cpu_entry:
  assumes "parse_config sample_lib [] = Inr cfg"
  shows "launch_entry sample_lib ''cpu-0'' ''cpu'' None [(us ''queue_depth'', TInteger 4)] \<in> set (cg_launch cfg)"
proof -
  from assms have "parse_launch sample_lib sample_root = Inr (cg_launch cfg)"
    by (rule parse_config_Inr) (auto simp: sample_lib_def)
  then show ?thesis by (auto simp: parse_launch_Inr plan_def single_plan_def sample_simps)
qed

theorem launched_miner_gets_its_settings_witness:
  "\<exists>cfg m configure outs st'. parse_config sample_lib [] = Inr cfg
     \<and> session_handshake ex_externals (\<lambda>_. True) 0 (HelloMsg hello_cpu) (greeted cfg) = (Some (m, configure), outs, st')
     \<and> cf_queue_depth configure = 4"
proof -
  obtain cfg where cfg: "parse_config sample_lib [] = Inr cfg" using sample_accepted by blast
  let ?e = "launch_entry sample_lib ''cpu-0'' ''cpu'' None [(us ''queue_depth'', TInteger 4)]"
  have "fst (session_handshake ex_externals (\<lambda>_. True) 0 (HelloMsg hello_cpu) (greeted cfg)) \<noteq> None"
    by (simp add: session_handshake_def hello_ok_def hello_cpu_def greeted_def ex_externals_def Let_def hm_get_def)
  then obtain m configure outs st' where
    h: "session_handshake ex_externals (\<lambda>_. True) 0 (HelloMsg hello_cpu) (greeted cfg) = (Some (m, configure), outs, st')"
    by (cases "session_handshake ex_externals (\<lambda>_. True) 0 (HelloMsg hello_cpu) (greeted cfg)") force
  have "cs_configure (greeted cfg)
      = cs_configure (seed_runtime (cg_launch cfg) (quiet_params cfg) (new_state :: unit CoordinatorState))"
    by (simp add: greeted_def)
  moreover have "he_miner_id hello_cpu = le_miner_id ?e" by (simp add: hello_cpu_def launch_entry_def)
  ultimately have "configure = le_configure ?e"
    using launched_miner_gets_its_settings [OF cfg sample_cpu_entry [OF cfg] _ _ h] by blast
  then have "cf_queue_depth configure = 4"
    by (simp add: launch_entry_def make_configure_def u32_of_def sample_simps int_as_u32_def)
  with cfg h show ?thesis by blast
qed

end
