(* ===== verification/Dashboard.thy ===== *)
theory Dashboard
  imports Rpc
begin

text \<open>
  \<open>dashboard.rs\<close>: the answers of the HTTP endpoints. The clock, the files under the data directory and the JSON parser are
  arguments; a response is its status and body. Of an object built with \<open>json!\<close> the entries are listed in the order the
  source writes them; their order has no meaning. Log lines are left out.
\<close>

subsection \<open>Integers on the wire\<close>

definition JS_MAX_SAFE_INTEGER :: int where "JS_MAX_SAFE_INTEGER = 9007199254740991"
definition JS_MIN_SAFE_INTEGER :: int where "JS_MIN_SAFE_INTEGER = - 9007199254740991"

definition safe_i64 :: "int \<Rightarrow> json" where
  "safe_i64 v = (if JS_MIN_SAFE_INTEGER \<le> v \<and> v \<le> JS_MAX_SAFE_INTEGER then JNum v else JNum 0)"

definition safe_u64 :: "nat \<Rightarrow> json" where
  "safe_u64 v = (if int v \<le> i64_max then safe_i64 (int v) else JNum 0)"

definition wire_u128 :: "nat \<Rightarrow> json" where
  "wire_u128 v = JStr (show_nat v)"

definition or_null :: "('a \<Rightarrow> json) \<Rightarrow> 'a option \<Rightarrow> json" where
  "or_null f v = (case v of None \<Rightarrow> JNull | Some x \<Rightarrow> f x)"

subsection \<open>Time\<close>

text \<open>The arithmetic is on \<open>u64\<close>; for the seconds of a \<open>u64\<close> clock it does not overflow, and no subtraction goes below zero.\<close>

definition civil_from_days :: "nat \<Rightarrow> nat \<times> nat \<times> nat" where
  "civil_from_days days =
     (let z = days + 719468;
          era = z div 146097;
          doe = z mod 146097;
          yoe = (doe - doe div 1460 + doe div 36524 - doe div 146096) div 365;
          doy = doe - (365 * yoe + yoe div 4 - yoe div 100);
          mp = (5 * doy + 2) div 153;
          day = doy - (153 * mp + 2) div 5 + 1;
          month = (if mp < 10 then mp + 3 else mp - 9);
          year = yoe + era * 400 + (if month \<le> 2 then 1 else 0)
      in (year, month, day))"

definition pad :: "nat \<Rightarrow> nat \<Rightarrow> string" where
  "pad w n = replicate (w - length (show_nat n)) (CHR ''0'') @ show_nat n"

text \<open>\<open>t\<close> is in seconds since the epoch; a time before it is zero.\<close>

definition iso8601_utc :: "nat \<Rightarrow> string" where
  "iso8601_utc secs =
     (let (year, month, day) = civil_from_days (secs div 86400); rem = secs mod 86400
      in pad 4 year @ ''-'' @ pad 2 month @ ''-'' @ pad 2 day @ ''T''
         @ pad 2 (rem div 3600) @ '':'' @ pad 2 (rem mod 3600 div 60) @ '':'' @ pad 2 (rem mod 60) @ ''Z'')"

subsection \<open>Envelopes\<close>

record Response =
  rs_status :: nat
  rs_body :: json

definition success_envelope :: "nat \<Rightarrow> json \<Rightarrow> Response" where
  "success_envelope now data =
     \<lparr> rs_status = 200, rs_body = JObj [(''success'', JBool True), (''data'', data), (''timestamp'', JNum (int now))] \<rparr>"

definition error_envelope :: "nat \<Rightarrow> nat \<Rightarrow> string \<Rightarrow> string \<Rightarrow> Response" where
  "error_envelope now status message code =
     \<lparr> rs_status = status,
       rs_body = JObj [(''success'', JBool False), (''error'', JStr message), (''code'', JStr code), (''timestamp'', JNum (int now))] \<rparr>"

subsection \<open>Status and counters\<close>

definition counters_json :: "Counters \<Rightarrow> json" where
  "counters_json c =
     JObj [(''heads_observed'', safe_u64 (ct_heads_observed c)),
           (''contexts_dispatched'', safe_u64 (ct_contexts_dispatched c)),
           (''results_received'', safe_u64 (ct_results_received c)),
           (''proofs_submitted'', safe_u64 (ct_proofs_submitted c)),
           (''stale_drops'', safe_u64 (ct_stale_drops c)),
           (''submission_errors'', safe_u64 (ct_submission_errors c)),
           (''duplicate_result_drops'', safe_u64 (ct_duplicate_result_drops c))]"

definition miners_json :: "MinerEntry list \<Rightarrow> json" where
  "miners_json miners = JArr (map (\<lambda>m. JObj [(''id'', JStr (me_id m)), (''type'', JStr (me_miner_type m))]) miners)"

definition miner_info_json :: "MinerInfo \<Rightarrow> json" where
  "miner_info_json i =
     JObj [(''registered_at'', safe_u64 (mi_registered_at i)),
           (''deposit'', wire_u128 (mi_deposit i)),
           (''proofs_submitted'', safe_u64 (mi_proofs_submitted i)),
           (''proofs_won'', safe_u64 (mi_proofs_won i)),
           (''rewards_earned'', wire_u128 (mi_rewards_earned i))]"

text \<open>\<open>uptime\<close> is the time since the process started; the last submission is in seconds.\<close>

definition api_status :: "nat \<Rightarrow> nat \<Rightarrow> CoordinatorMetrics \<Rightarrow> Response" where
  "api_status now uptime m =
     (let identity = mt_identity m; chain = mt_chain m;
          modes = map (\<lambda>(backend, view). (backend,
             JObj [(''controller'', counters_json (mv_counters view)), (''miners'', miners_json (mv_miners view))])) (mode_views m)
      in success_envelope now (JObj
        [(''ss58_address'', JStr (byte_string (id_ss58_address identity))),
         (''account_id_hex'', JStr (byte_string (id_account_id_hex identity))),
         (''node_id'', JStr (byte_string (id_node_id identity))),
         (''is_mining'', JBool (cv_is_mining chain)),
         (''last_successful_submission'', or_null (\<lambda>t. JStr (iso8601_utc t)) (mt_last_successful_submission m)),
         (''uptime_seconds'', safe_u64 uptime),
         (''chain'', JObj [(''head_hash'', JStr (cv_head_hash chain)), (''head_number'', safe_u64 (cv_head_number chain))]),
         (''miner_registered'', JBool (cv_miner_registered chain)),
         (''miner_info'', or_null miner_info_json (cv_miner_info chain)),
         (''miners'', miners_json (metric_miners m)),
         (''modes'', JObj modes)]))"

definition api_stats :: "nat \<Rightarrow> CoordinatorMetrics \<Rightarrow> Response" where
  "api_stats now m = success_envelope now (JObj [(''controller'', counters_json (mt_global m))])"

subsection \<open>Fields of an attempt record\<close>

type_synonym attempt_map = "(string \<times> json) list"

text \<open>\<open>str::parse::<i64>\<close>.\<close>

definition parse_i64 :: "string \<Rightarrow> int option" where
  "parse_i64 s =
     (case s of
        c # cs \<Rightarrow>
          if c = CHR ''-''
          then (if cs = [] then None
                else (case parse_digits 0 cs of
                        Some n \<Rightarrow> if - int n \<ge> i64_min then Some (- int n) else None
                      | None \<Rightarrow> None))
          else (case parse_u64 s of Some n \<Rightarrow> if int n \<le> i64_max then Some (int n) else None | None \<Rightarrow> None)
      | [] \<Rightarrow> None)"

definition string_field :: "attempt_map \<Rightarrow> string \<Rightarrow> string option" where
  "string_field r key = (case map_of r key of Some (JStr s) \<Rightarrow> if s \<noteq> [] then Some s else None | _ \<Rightarrow> None)"

definition bool_field :: "attempt_map \<Rightarrow> string \<Rightarrow> bool option" where
  "bool_field r key = Option.bind (map_of r key) as_bool"

definition i64_field :: "attempt_map \<Rightarrow> string \<Rightarrow> int option" where
  "i64_field r key =
     (case map_of r key of
        Some (JNum n) \<Rightarrow> if is_i64 n then Some n else None
      | Some (JStr s) \<Rightarrow> parse_i64 s
      | _ \<Rightarrow> None)"

definition u64_field :: "attempt_map \<Rightarrow> string \<Rightarrow> nat option" where
  "u64_field r key =
     (case map_of r key of
        Some (JNum n) \<Rightarrow> as_u64 (JNum n)
      | Some (JStr s) \<Rightarrow> parse_u64 s
      | _ \<Rightarrow> None)"

text \<open>Milliseconds of a \<open>u64\<close> in nanoseconds always fit a \<open>u128\<close>.\<close>

definition ts_ns_of :: "attempt_map \<Rightarrow> nat" where
  "ts_ns_of r = (case u64_field r ''ts_ms'' of Some ms \<Rightarrow> ms * 1000000 | None \<Rightarrow> 0)"

definition submitted_row :: "attempt_map \<Rightarrow> bool" where
  "submitted_row r \<longleftrightarrow> bool_field r ''submitted'' = Some True"

definition accepted_row :: "attempt_map \<Rightarrow> bool" where
  "accepted_row r \<longleftrightarrow> bool_field r ''accepted'' = Some True"

definition result_kind_of :: "attempt_map \<Rightarrow> string" where
  "result_kind_of r = (if submitted_row r then ''submitted'' else if accepted_row r then ''stored'' else ''rejected'')"

definition resolved_energy_milli :: "attempt_map \<Rightarrow> int option" where
  "resolved_energy_milli r =
     (case i64_field r ''best_energy_milli'' of
        Some best \<Rightarrow> if best \<noteq> i64_max then Some best
                    else (case i64_field r ''raw_best_energy_milli'' of
                            Some raw \<Rightarrow> if raw \<noteq> i64_max then Some raw else None | None \<Rightarrow> None)
      | None \<Rightarrow> (case i64_field r ''raw_best_energy_milli'' of
                    Some raw \<Rightarrow> if raw \<noteq> i64_max then Some raw else None | None \<Rightarrow> None))"

definition wire_energy_milli :: "attempt_map \<Rightarrow> json" where
  "wire_energy_milli r = safe_i64 (case resolved_energy_milli r of Some e \<Rightarrow> e | None \<Rightarrow> 0)"

subsection \<open>The attempts of a quantum block\<close>

definition opt_str :: "string option \<Rightarrow> string" where
  "opt_str v = (case v of Some s \<Rightarrow> s | None \<Rightarrow> [])"

definition attempt_from_record :: "attempt_map \<Rightarrow> nat \<Rightarrow> nat \<Rightarrow> json" where
  "attempt_from_record r iter solution_number =
     JObj [(''type'', JStr ''attempt''),
           (''ts_ns'', wire_u128 (ts_ns_of r)),
           (''miner_id'', JStr (opt_str (string_field r ''miner_id''))),
           (''miner_type'', JStr (opt_str (string_field r ''miner_type''))),
           (''solution_number'', safe_u64 solution_number),
           (''iter'', safe_u64 iter),
           (''best_energy_milli'', wire_energy_milli r),
           (''result_kind'', JStr (result_kind_of r)),
           (''num_valid'', or_null safe_u64 (Option.bind (map_of r ''n_valid'') as_u64)),
           (''diversity_milli'', or_null safe_u64 (Option.bind (map_of r ''diversity_milli'') as_u64)),
           (''qpu_access_time_us'',
              (case u64_field r ''device_access_time_us'' of Some t \<Rightarrow> if t > 0 then safe_u64 t else JNull | None \<Rightarrow> JNull)),
           (''job_id'', or_null JStr (string_field r ''job_id'')),
           (''accepted'', or_null JBool (bool_field r ''accepted'')),
           (''submitted'', or_null JBool (bool_field r ''submitted''))]"

definition chosen_record :: "attempt_map list \<Rightarrow> attempt_map" where
  "chosen_record records =
     (case find submitted_row (rev records) of
        Some r \<Rightarrow> r
      | None \<Rightarrow>
     (case find accepted_row (rev records) of
        Some r \<Rightarrow> r
      | None \<Rightarrow> (case rev records of r # _ \<Rightarrow> r | [] \<Rightarrow> [])))"

definition submission_from_records :: "attempt_map list \<Rightarrow> nat \<Rightarrow> json" where
  "submission_from_records records solution_number =
     (let chosen = chosen_record records in
      JObj [(''type'', JStr ''submission''),
            (''ts_ns'', wire_u128 (ts_ns_of chosen)),
            (''solution_number'', safe_u64 solution_number),
            (''miner_id'', JStr (case string_field chosen ''miner_id'' of Some s \<Rightarrow> s | None \<Rightarrow> ''unknown'')),
            (''miner_type'', JStr (opt_str (string_field chosen ''miner_type''))),
            (''energy_milli'', wire_energy_milli chosen),
            (''diversity_milli'', safe_u64 (case u64_field chosen ''diversity_milli'' of Some n \<Rightarrow> n | None \<Rightarrow> 0)),
            (''threshold_milli'', safe_i64 (case i64_field chosen ''threshold_milli'' of Some n \<Rightarrow> n | None \<Rightarrow> 0)),
            (''num_valid'', or_null safe_u64 (u64_field chosen ''n_valid'')),
            (''last_proof_block_hash'', JStr (case string_field chosen ''last_proof_block_hash'' of Some s \<Rightarrow> s | None \<Rightarrow> ''0x0'')),
            (''extrinsic_hash'', (case map_of chosen ''extrinsic_hash'' of Some v \<Rightarrow> v | None \<Rightarrow> JNull)),
            (''chain_block_hash'', (case map_of chosen ''chain_block_hash'' of Some v \<Rightarrow> v | None \<Rightarrow> JNull)),
            (''chain_block_number'', or_null safe_u64 (u64_field chosen ''chain_block_number'')),
            (''pow_sequence'', or_null safe_u64 (u64_field chosen ''pow_sequence'')),
            (''outcome'', JStr (if list_ex submitted_row records then ''submitted''
                                else if list_ex accepted_row records then ''stored'' else ''rejected''))])"

definition min_list_option :: "int list \<Rightarrow> int option" where
  "min_list_option xs = (case xs of [] \<Rightarrow> None | y # ys \<Rightarrow> Some (fold min ys y))"

definition totals_from_records :: "attempt_map list \<Rightarrow> nat \<Rightarrow> json" where
  "totals_from_records records solution_number =
     JObj [(''attempt_count'', safe_u64 (length records)),
           (''best_energy_milli'',
              safe_i64 (case min_list_option (List.map_filter resolved_energy_milli records) of Some e \<Rightarrow> e | None \<Rightarrow> 0)),
           (''qpu_access_time_us'', safe_u64 (fold (\<lambda>r acc. sat_add_u64 acc
              (case u64_field r ''device_access_time_us'' of Some t \<Rightarrow> t | None \<Rightarrow> 0)) records 0)),
           (''num_valid'', or_null safe_u64 (Option.bind (find submitted_row (rev records)) (\<lambda>r. u64_field r ''n_valid'')))]"

subsection \<open>Loading a trail\<close>

datatype 'e AttemptsLoadError = NotFound | IoError 'e

definition parse_line :: "(ustring \<Rightarrow> json option) \<Rightarrow> ustring \<Rightarrow> attempt_map option" where
  "parse_line parse line =
     (let l = trim line in
      if l = [] then None else (case parse l of Some (JObj obj) \<Rightarrow> Some obj | _ \<Rightarrow> None))"

definition trail_records :: "(ustring \<Rightarrow> json option) \<Rightarrow> ustring \<Rightarrow> attempt_map list" where
  "trail_records parse body = List.map_filter (parse_line parse) (str_lines body)"

definition kept_records :: "nat option \<Rightarrow> attempt_map list \<Rightarrow> (nat \<times> attempt_map) list" where
  "kept_records limit records =
     (let kept = enumerate 0 records in
      case limit of
        None \<Rightarrow> kept
      | Some n \<Rightarrow> let sorted = sort_key (\<lambda>e. ts_ns_of (snd e)) kept in drop (length sorted - n) sorted)"

text \<open>
  \<open>read\<close> gives the attempts file of a directory that exists: the text, no file, or another error.
\<close>

definition load_attempts_envelope ::
  "(ustring \<Rightarrow> json option) \<Rightarrow> (nat \<Rightarrow> ('e option + ustring) option) \<Rightarrow> nat \<Rightarrow> nat option \<Rightarrow> 'e AttemptsLoadError + json" where
  "load_attempts_envelope parse read solution_number limit =
     (case read solution_number of
        None \<Rightarrow> Inl NotFound
      | Some (Inl None) \<Rightarrow> Inl NotFound
      | Some (Inl (Some e)) \<Rightarrow> Inl (IoError e)
      | Some (Inr body) \<Rightarrow>
          let records = trail_records parse body in
          if records = [] then Inl NotFound
          else Inr (JObj
            ([(''submission'', submission_from_records records solution_number),
              (''attempts'', JArr (map (\<lambda>(i, r). attempt_from_record r (i + 1) solution_number) (kept_records limit records)))]
             @ (if limit = None then [] else [(''totals'', totals_from_records records solution_number)]))))"

definition attempts_response ::
  "nat \<Rightarrow> (ustring \<Rightarrow> json option) \<Rightarrow> (nat \<Rightarrow> ('e option + ustring) option) \<Rightarrow> nat \<Rightarrow> nat option \<Rightarrow> Response" where
  "attempts_response now parse read solution_number limit =
     (case load_attempts_envelope parse read solution_number limit of
        Inr data \<Rightarrow> success_envelope now data
      | Inl NotFound \<Rightarrow>
          error_envelope now 404 (''solution_number '' @ show_nat solution_number @ '' not found'') ''NOT_FOUND''
      | Inl (IoError _) \<Rightarrow> error_envelope now 500 ''failed to read attempts'' ''INTERNAL_ERROR'')"

definition api_mining_attempts ::
  "nat \<Rightarrow> (ustring \<Rightarrow> json option) \<Rightarrow> (nat \<Rightarrow> ('e option + ustring) option) \<Rightarrow> string option \<Rightarrow> string option \<Rightarrow> Response" where
  "api_mining_attempts now parse read solution_number_arg limit_arg =
     (case solution_number_arg of
        None \<Rightarrow> error_envelope now 400 ''supply ?solution_number=N'' ''BAD_PARAM''
      | Some raw \<Rightarrow>
     (case parse_u64 raw of
        None \<Rightarrow> error_envelope now 400 ''solution_number must be an integer'' ''BAD_PARAM''
      | Some solution_number \<Rightarrow>
     (case limit_arg of
        None \<Rightarrow> attempts_response now parse read solution_number None
      | Some raw_limit \<Rightarrow>
     (case parse_u64 raw_limit of
        Some n \<Rightarrow> attempts_response now parse read solution_number (Some n)
      | None \<Rightarrow> error_envelope now 400 ''limit must be a non-negative integer'' ''BAD_PARAM''))))"

definition list_qblocks :: "(string \<times> bool) list \<Rightarrow> string list" where
  "list_qblocks entries = sort (map fst (filter snd entries))"

end
