(* ===== verification/Dashboard_Laws.thy ===== *)
theory Dashboard_Laws
  imports Dashboard
begin

text \<open>
  The dashboard: its dates follow the Gregorian calendar day by day, every number it serves is exact in a double,
  and a bounded trail is the newest part of the whole one.
\<close>

subsection \<open>The calendar\<close>

definition leap :: "nat \<Rightarrow> bool" where
  "leap y \<longleftrightarrow> y mod 4 = 0 \<and> y mod 100 \<noteq> 0 \<or> y mod 400 = 0"

definition month_length :: "nat \<Rightarrow> nat \<Rightarrow> nat" where
  "month_length y m = (if m = 2 then (if leap y then 29 else 28) else if m \<in> {4, 6, 9, 11} then 30 else 31)"

fun next_day :: "nat \<times> nat \<times> nat \<Rightarrow> nat \<times> nat \<times> nat" where
  "next_day (y, m, d) =
     (if d < month_length y m then (y, m, d + 1) else if m < 12 then (y, m + 1, 1) else (y + 1, 1, 1))"

text \<open>Years that begin on the first of March: the days before year \<open>y\<close> of an era, and the length of a year.\<close>

definition year_start :: "nat \<Rightarrow> nat" where
  "year_start y = 365 * y + y div 4 - y div 100"

definition year_length :: "nat \<Rightarrow> nat" where
  "year_length y = (if leap (y + 1) then 366 else 365)"

definition month_day :: "nat \<Rightarrow> nat \<times> nat" where
  "month_day doy =
     (let mp = (5 * doy + 2) div 153 in (if mp < 10 then mp + 3 else mp - 9, doy - (153 * mp + 2) div 5 + 1))"

lemma year_parts:
  assumes "y < (400 :: nat)"
  obtains c q r where "y = 100 * c + 4 * q + r" "c < 4" "q < 25" "r < 4"
    "year_start y = 36524 * c + 1461 * q + 365 * r" "year_length y = (if r = 3 \<and> (q \<noteq> 24 \<or> c = 3) then 366 else 365)"
proof -
  define c q r where "c = y div 100" and "q = y mod 100 div 4" and "r = y mod 4"
  have b: "c < 4" "q < 25" "r < 4" using assms by (auto simp: c_def q_def r_def)
  have "y mod 100 mod 4 = r" by (simp add: r_def mod_mod_cancel)
  then have y: "y = 100 * c + 4 * q + r"
    using mult_div_mod_eq [of 100 y] mult_div_mod_eq [of 4 "y mod 100"] unfolding c_def q_def by linarith
  have "y div 4 = 25 * c + q" by (rule div_nat_eqI) (use y b in simp_all)
  moreover have "y div 100 = c" by (simp add: c_def)
  ultimately have s: "year_start y = 36524 * c + 1461 * q + 365 * r" using y by (simp add: year_start_def)
  have full: "t mod n = 0 \<longleftrightarrow> t = n" if "0 < t" "t \<le> n" for t n :: nat using that by (cases "t = n") auto
  have "y + 1 = (4 * q + r + 1) + c * 100" using y by simp
  then have "(y + 1) mod 100 = (4 * q + r + 1) mod 100" by (simp only: mod_mult_self1)
  moreover have "y + 1 = (r + 1) + (25 * c + q) * 4" using y by simp
  then have "(y + 1) mod 4 = (r + 1) mod 4" by (simp only: mod_mult_self1)
  ultimately have m: "(y + 1) mod 4 = 0 \<longleftrightarrow> r = 3" "(y + 1) mod 100 = 0 \<longleftrightarrow> 4 * q + r + 1 = 100" "(y + 1) mod 400 = 0 \<longleftrightarrow> y + 1 = 400"
    using full [of "r + 1" 4] full [of "4 * q + r + 1" 100] full [of "y + 1" 400] b assms by simp_all
  have "q = 24" "r = 3" if "4 * q + r + 1 = 100" using that b by linarith+
  then have cent: "4 * q + r + 1 = 100 \<longleftrightarrow> q = 24 \<and> r = 3" by auto
  have "c = 3" "q = 24" "r = 3" if "y + 1 = 400" using that b y by linarith+
  moreover have "y + 1 = 400" if "c = 3" "q = 24" "r = 3" using that y by simp
  ultimately have era: "y + 1 = 400 \<longleftrightarrow> c = 3 \<and> q = 24 \<and> r = 3" by blast
  have "leap (y + 1) \<longleftrightarrow> r = 3 \<and> (q \<noteq> 24 \<or> c = 3)" unfolding leap_def m cent era by blast
  then have "year_length y = (if r = 3 \<and> (q \<noteq> 24 \<or> c = 3) then 366 else 365)" by (simp only: year_length_def)
  with that y b s show ?thesis by blast
qed

text \<open>The year of an era is recovered from the day of the era.\<close>

lemma year_of_era:
  assumes "y < 400" and "k < year_length y" and "doe = year_start y + k"
  shows "(doe - doe div 1460 + doe div 36524 - doe div 146096) div 365 = y" "doe < 146097"
proof -
  obtain c q r where p: "y = 100 * c + 4 * q + r" "c < 4" "q < 25" "r < 4" "year_start y = 36524 * c + 1461 * q + 365 * r"
    and len: "year_length y = (if r = 3 \<and> (q \<noteq> 24 \<or> c = 3) then 366 else 365)" by (rule year_parts [OF assms(1)])
  have doe: "doe = 36524 * c + 1461 * q + 365 * r + k" using assms(3) p(5) by simp
  have k: "k \<le> 364 \<or> k = 365 \<and> r = 3 \<and> (q \<noteq> 24 \<or> c = 3)" using assms(2) len by (auto split: if_splits)
  have "doe = (24 * c + q + 365 * r + k) + (25 * c + q) * 1460" "doe = (1461 * q + 365 * r + k) + c * 36524" using doe by simp_all
  then have d1: "doe div 1460 = 25 * c + q + (24 * c + q + 365 * r + k) div 1460"
    and d2: "doe div 36524 = c + (1461 * q + 365 * r + k) div 36524" by simp_all
  have "365 * y \<le> doe - doe div 1460 + doe div 36524 - doe div 146096
      \<and> doe - doe div 1460 + doe div 36524 - doe div 146096 < 365 * Suc y \<and> doe < 146097" (is "?lo \<and> ?hi \<and> ?lt")
  proof (cases "k \<le> 364")
    case True
    have "(1461 * q + 365 * r + k) div 36524 = 0" using True p by simp
    moreover have "doe div 146096 = 0" using True p doe by simp
    moreover have "(24 * c + q + 365 * r + k) div 1460 \<le> k"
    proof (cases "k = 0")
      case False
      have "(24 * c + q + 365 * r + k) div 1460 < 2" using p True by (intro less_mult_imp_div_less) simp
      with False show ?thesis by simp
    qed (use p in simp)
    ultimately obtain e where e: "doe div 1460 = 25 * c + q + e" "e \<le> k" "doe div 36524 = c" "doe div 146096 = 0" using d1 d2 by simp
    then have "doe - doe div 1460 + doe div 36524 - doe div 146096 = 365 * y + (k - e)" using doe p(1) by simp
    moreover have "doe < 146097" using True p doe by simp
    ultimately show ?thesis using True by simp
  next
    case False
    with k have k': "k = 365" "r = 3" "q \<noteq> 24 \<or> c = 3" by auto
    have "(24 * c + q + 365 * r + k) div 1460 = 1" using k' p by simp
    moreover have "(1461 * q + 365 * r + k) div 36524 = doe div 146096 \<and> doe < 146097"
    proof (cases "q = 24")
      case False
      then have "q \<le> 23" using p by simp
      then show ?thesis using k' p doe by simp
    qed (use k' p doe in simp)
    ultimately show ?thesis using d1 d2 doe p k' by simp
  qed
  then show "(doe - doe div 1460 + doe div 36524 - doe div 146096) div 365 = y" "doe < 146097"
    by (blast intro: div_nat_eqI)+
qed

lemma month_of_day:
  "a \<le> doy \<Longrightarrow> doy < b \<Longrightarrow> (5 * a + 2) div 153 = mp \<Longrightarrow> (5 * (b - 1) + 2) div 153 = mp \<Longrightarrow> (5 * doy + 2) div 153 = (mp :: nat)"
proof (rule antisym)
  assume "a \<le> doy" "doy < b" and m: "(5 * a + 2) div 153 = mp" "(5 * (b - 1) + 2) div 153 = mp"
  then have "5 * a + 2 \<le> 5 * doy + 2" "5 * doy + 2 \<le> 5 * (b - 1) + 2" by simp_all
  then show "(5 * doy + 2) div 153 \<le> mp" "mp \<le> (5 * doy + 2) div 153" using m div_le_mono by metis+
qed

lemma month_day_table:
  assumes "doy < 366"
  shows "month_day doy =
    (if doy < 31 then (3, doy + 1) else if doy < 61 then (4, doy - 30) else if doy < 92 then (5, doy - 60)
     else if doy < 122 then (6, doy - 91) else if doy < 153 then (7, doy - 121) else if doy < 184 then (8, doy - 152)
     else if doy < 214 then (9, doy - 183) else if doy < 245 then (10, doy - 213) else if doy < 275 then (11, doy - 244)
     else if doy < 306 then (12, doy - 274) else if doy < 337 then (1, doy - 305) else (2, doy - 336))"
proof -
  note month = month_of_day [of 0 doy 31 0] month_of_day [of 31 doy 61 1] month_of_day [of 61 doy 92 2]
    month_of_day [of 92 doy 122 3] month_of_day [of 122 doy 153 4] month_of_day [of 153 doy 184 5]
    month_of_day [of 184 doy 214 6] month_of_day [of 214 doy 245 7] month_of_day [of 245 doy 275 8]
    month_of_day [of 275 doy 306 9] month_of_day [of 306 doy 337 10] month_of_day [of 337 doy 366 11]
  consider "doy < 31" | "31 \<le> doy" "doy < 61" | "61 \<le> doy" "doy < 92" | "92 \<le> doy" "doy < 122" | "122 \<le> doy" "doy < 153"
    | "153 \<le> doy" "doy < 184" | "184 \<le> doy" "doy < 214" | "214 \<le> doy" "doy < 245" | "245 \<le> doy" "doy < 275"
    | "275 \<le> doy" "doy < 306" | "306 \<le> doy" "doy < 337" | "337 \<le> doy"
    by atomize_elim (simp only: not_less [symmetric], blast)
  then show ?thesis by cases (use month assms in \<open>simp_all add: month_day_def\<close>)
qed

text \<open>The date of day \<open>k\<close> of the March year \<open>y\<close>, and its successor.\<close>

definition march_date :: "nat \<Rightarrow> nat \<Rightarrow> nat \<times> nat \<times> nat" where
  "march_date y k = (let (m, d) = month_day k in (y + (if m \<le> 2 then 1 else 0), m, d))"

lemma next_march_date:
  assumes "k < year_length y"
  shows "next_day (march_date y k) = (if k + 1 < year_length y then march_date y (k + 1) else march_date (y + 1) 0)"
proof -
  have k: "k < 366" "k = 365 \<longrightarrow> leap (y + 1)" using assms by (auto simp: year_length_def split: if_splits)
  consider "k < 31" | "31 \<le> k" "k < 61" | "61 \<le> k" "k < 92" | "92 \<le> k" "k < 122" | "122 \<le> k" "k < 153"
    | "153 \<le> k" "k < 184" | "184 \<le> k" "k < 214" | "214 \<le> k" "k < 245" | "245 \<le> k" "k < 275"
    | "275 \<le> k" "k < 306" | "306 \<le> k" "k < 337" | "337 \<le> k"
    by atomize_elim (simp only: not_less [symmetric], blast)
  then show ?thesis
    by cases (use k in \<open>auto simp: march_date_def month_day_table month_length_def year_length_def\<close>)
qed

text \<open>Day \<open>k\<close> of March year \<open>y\<close>, counted from the first of March of year zero.\<close>

definition march_number :: "nat \<Rightarrow> nat \<Rightarrow> nat" where
  "march_number y k = 146097 * (y div 400) + year_start (y mod 400) + k"

lemma year_length_mod: "year_length (y mod 400) = year_length y"
proof -
  have "y mod 400 mod 100 = y mod 100" "y mod 400 mod 4 = y mod 4" by (simp_all add: mod_mod_cancel)
  then have "(y mod 400 + 1) mod 100 = (y + 1) mod 100" "(y mod 400 + 1) mod 4 = (y + 1) mod 4"
    "(y mod 400 + 1) mod 400 = (y + 1) mod 400" by (metis mod_add_left_eq)+
  then show ?thesis by (simp add: year_length_def leap_def)
qed

lemma civil_parts:
  assumes "days + 719468 = doe + era * 146097" "doe < 146097"
    and "(doe - doe div 1460 + doe div 36524 - doe div 146096) div 365 = y" "doe - (365 * y + y div 4 - y div 100) = k"
  shows "civil_from_days days = march_date (y + era * 400) k"
proof -
  have "(days + 719468) div 146097 = era" "(days + 719468) mod 146097 = doe" unfolding assms(1) using assms(2) by simp_all
  then show ?thesis
    by (simp only: civil_from_days_def Let_def march_date_def month_day_def assms(3,4) prod.case)
qed

lemma civil_march:
  assumes "k < year_length y" and "march_number y k = days + 719468"
  shows "civil_from_days days = march_date y k"
proof -
  let ?y = "y mod 400"
  have "?y < 400" "k < year_length ?y" using assms(1) by (simp_all add: year_length_mod)
  note era = year_of_era [OF this refl]
  have "days + 719468 = (year_start ?y + k) + (y div 400) * 146097" using assms(2) by (simp add: march_number_def)
  moreover have "year_start ?y + k - (365 * ?y + ?y div 4 - ?y div 100) = k" by (simp add: year_start_def)
  ultimately have "civil_from_days days = march_date (?y + y div 400 * 400) k" 
    by (intro civil_parts [OF _ era(2,1)])
  then show ?thesis by (simp only: mod_mult_div_eq mod_div_mult_eq)
qed

lemma year_start_Suc:
  assumes "Suc y < 400"
  shows "year_start (Suc y) = year_start y + year_length y"
proof -
  have "Suc y mod 400 \<noteq> 0" using assms by simp
  moreover have "Suc y mod 100 = 0 \<Longrightarrow> Suc y mod 4 = 0" using dvd_trans [of 4 100 "Suc y"] by (simp add: mod_eq_0_iff_dvd)
  ultimately have l: "leap (Suc y) \<longleftrightarrow> Suc y mod 4 = 0 \<and> Suc y mod 100 \<noteq> 0" by (auto simp: leap_def)
  have total: "year_start n + n div 100 = 365 * n + n div 4" for n
    using div_le_mono2 [of 4 100 n] by (simp add: year_start_def)
  show ?thesis
    using total [of y] total [of "Suc y"] l \<open>Suc y mod 100 = 0 \<Longrightarrow> Suc y mod 4 = 0\<close>
    by (cases "Suc y mod 4 = 0"; cases "Suc y mod 100 = 0") (simp_all add: year_length_def div_Suc [of y 4] div_Suc [of y 100])
qed

lemma march_number_step:
  assumes "k < year_length y"
  shows "march_number y k + 1 = (if k + 1 < year_length y then march_number y (k + 1) else march_number (y + 1) 0)"
proof (cases "k + 1 < year_length y")
  case True
  then show ?thesis by (simp add: march_number_def)
next
  case False
  then have k: "k + 1 = year_length y" using assms by simp
  show ?thesis
  proof (cases "Suc y mod 400 = 0")
    case True
    then have "Suc y div 400 = Suc (y div 400)" "y mod 400 = 399" by (simp_all add: div_Suc mod_Suc split: if_splits)
    with True k show ?thesis by (simp add: march_number_def year_start_def year_length_def leap_def)
  next
    case n: False
    then have d: "Suc y div 400 = y div 400" "Suc y mod 400 = Suc (y mod 400)" by (auto simp: div_Suc mod_Suc split: if_splits)
    then have "Suc (y mod 400) < 400" by (metis mod_less_divisor zero_less_numeral)
    from year_start_Suc [OF this] d k show ?thesis by (simp add: march_number_def year_length_mod)
  qed
qed

lemma march_number_surj: "\<exists>y k. k < year_length y \<and> march_number y k = n"
proof (induction n)
  case 0
  have "0 < year_length 0" "march_number 0 0 = 0" by (simp_all add: year_length_def march_number_def year_start_def)
  then show ?case by blast
next
  case (Suc n)
  then obtain y k where yk: "k < year_length y" "march_number y k = n" by blast
  have "0 < year_length (y + 1)" by (simp add: year_length_def)
  with march_number_step [OF yk(1)] yk show ?case by (metis Suc_eq_plus1)
qed

lemma civil_step: "civil_from_days (Suc days) = next_day (civil_from_days days)"
proof -
  obtain y k where yk: "k < year_length y" "march_number y k = days + 719468" using march_number_surj by blast
  have z: "0 < year_length (y + 1)" by (simp add: year_length_def)
  have n: "(if k + 1 < year_length y then march_number y (k + 1) else march_number (y + 1) 0) = Suc days + 719468"
    using march_number_step [OF yk(1)] yk(2) by simp
  have "civil_from_days (Suc days) = (if k + 1 < year_length y then march_date y (k + 1) else march_date (y + 1) 0)"
  proof (cases "k + 1 < year_length y")
    case True
    with n have "march_number y (k + 1) = Suc days + 719468" by (simp only: if_True)
    from civil_march [OF True this] True show ?thesis by (simp only: if_True)
  next
    case False
    with n have "march_number (y + 1) 0 = Suc days + 719468" by (simp only: if_False)
    from civil_march [OF z this] False show ?thesis by (simp only: if_False)
  qed
  then show ?thesis by (simp only: civil_march [OF yk] next_march_date [OF yk(1)])
qed

text \<open>
  C26. The date of a day number is the Gregorian one: starting from 1 January 1970, each further day is the next day of the
  calendar, leap years included, for every day number.
\<close>
theorem civil_from_days_calendar: "civil_from_days days = (next_day ^^ days) (1970, 1, 1)"
proof (induction days)
  case 0
  have "civil_from_days 0 = march_date (369 + 4 * 400) 306" by (rule civil_parts [where doe = 135080]) simp_all
  then show ?case by (simp add: march_date_def month_day_table)
next
  case (Suc days)
  then show ?case by (simp add: civil_step)
qed

subsection \<open>Numbers that a double holds exactly\<close>

text \<open>
  Every number inside a JSON value is an integer of at most fifty-three bits; a number written with a fraction or
  an exponent (\<open>JReal\<close>) is none.
\<close>

fun exact_numbers :: "json \<Rightarrow> bool" where
  "exact_numbers (JNum n) \<longleftrightarrow> \<bar>n\<bar> < 2 ^ 53"
| "exact_numbers (JReal _) \<longleftrightarrow> False"
| "exact_numbers (JArr vs) \<longleftrightarrow> (\<forall>v \<in> set vs. exact_numbers v)"
| "exact_numbers (JObj es) \<longleftrightarrow> (\<forall>e \<in> set es. exact_numbers (snd e))"
| "exact_numbers _ \<longleftrightarrow> True"

lemma exact_safe [simp]: "exact_numbers (safe_i64 v)" "exact_numbers (safe_u64 n)" "exact_numbers (wire_u128 n)"
  by (auto simp: safe_i64_def safe_u64_def wire_u128_def JS_MAX_SAFE_INTEGER_def JS_MIN_SAFE_INTEGER_def)

lemma exact_or_null: "(\<And>x. exact_numbers (f x)) \<Longrightarrow> exact_numbers (or_null f v)"
  by (cases v) (simp_all add: or_null_def)

lemma exact_counters [simp]: "exact_numbers (counters_json c)"
  by (simp add: counters_json_def)

lemma exact_miners [simp]: "exact_numbers (miners_json ms)"
  by (simp add: miners_json_def list_all_iff)

lemma exact_status: "int now < 2 ^ 53 \<Longrightarrow> exact_numbers (rs_body (api_status now uptime m))"
  by (auto simp: api_status_def success_envelope_def Let_def list_all_iff miner_info_json_def intro!: exact_or_null)

lemma exact_stats: "int now < 2 ^ 53 \<Longrightarrow> exact_numbers (rs_body (api_stats now m))"
  by (simp add: api_stats_def success_envelope_def)

lemma exact_error: "int now < 2 ^ 53 \<Longrightarrow> exact_numbers (rs_body (error_envelope now st msg code))"
  by (simp add: error_envelope_def)

text \<open>The two fields that are copied from the trail unread.\<close>

definition plain_hashes :: "attempt_map \<Rightarrow> bool" where
  "plain_hashes r \<longleftrightarrow> (\<forall>k v. k \<in> {''extrinsic_hash'', ''chain_block_hash''} \<longrightarrow> map_of r k = Some v \<longrightarrow> exact_numbers v)"

lemma find_Some_mem: "find P xs = Some x \<Longrightarrow> x \<in> set xs \<and> P x"
  by (auto simp: find_Some_iff)

lemma chosen_record_mem: "records \<noteq> [] \<Longrightarrow> chosen_record records \<in> set records"
proof -
  assume "records \<noteq> []"
  then obtain r rs where "rev records = r # rs" by (cases "rev records") auto
  then have "r \<in> set records" by (metis list.set_intros(1) set_rev)
  with \<open>rev records = r # rs\<close> show ?thesis
    by (auto simp: chosen_record_def split: option.splits dest!: find_Some_mem)
qed

lemma exact_attempt: "exact_numbers (attempt_from_record r i sn)"
  by (auto simp: attempt_from_record_def wire_energy_milli_def intro!: exact_or_null split: option.splits)

lemma exact_submission:
  assumes "records \<noteq> []" and "\<And>r. r \<in> set records \<Longrightarrow> plain_hashes r"
  shows "exact_numbers (submission_from_records records sn)"
  using assms(2) [OF chosen_record_mem [OF assms(1)]]
  by (auto simp: submission_from_records_def wire_energy_milli_def plain_hashes_def Let_def intro!: exact_or_null split: option.splits)

lemma exact_totals: "exact_numbers (totals_from_records records sn)"
  by (auto simp: totals_from_records_def intro!: exact_or_null)

text \<open>
  C25. Every number in any answer of the three endpoints is an integer that a double holds exactly, and none has a fraction,
  whatever counters, heights, balances and trail files hold. Two conditions: the clock reads less than \<open>2 ^ 53\<close> seconds (the
  answers carry it as it is), and in every record of a trail the two fields that are copied unread, \<open>extrinsic_hash\<close>
  and \<open>chain_block_hash\<close>, hold no fractional and no larger number (the coordinator itself writes a string or nothing there).
\<close>
theorem dashboard_numbers_exact:
  assumes "int now < 2 ^ 53"
    and "\<And>n body r. read n = Some (Inr body) \<Longrightarrow> r \<in> set (trail_records parse body) \<Longrightarrow> plain_hashes r"
  shows "exact_numbers (rs_body (api_status now uptime m)) \<and> exact_numbers (rs_body (api_stats now m))
    \<and> exact_numbers (rs_body (api_mining_attempts now parse read sn limit))"
proof -
  have load: "exact_numbers d" if "load_attempts_envelope parse read n l = Inr d" for n l d
    using that assms(2)
    by (auto simp: load_attempts_envelope_def Let_def list_all_iff exact_attempt exact_totals intro!: exact_submission
        split: option.splits sum.splits if_splits)
  have answer: "exact_numbers (rs_body (attempts_response now parse read n l))" for n l
  proof (cases "load_attempts_envelope parse read n l")
    case (Inl e)
    then show ?thesis using exact_error [OF assms(1)] by (cases e) (simp_all add: attempts_response_def)
  next
    case (Inr d)
    then show ?thesis using load [OF Inr] assms(1) by (simp add: attempts_response_def success_envelope_def)
  qed
  have "exact_numbers (rs_body (api_mining_attempts now parse read sn limit))"
    by (simp add: api_mining_attempts_def exact_error [OF assms(1)] answer split: option.split)
  with exact_status [OF assms(1)] exact_stats [OF assms(1)] show ?thesis by simp
qed

definition sample_parse :: "ustring \<Rightarrow> json option" where
  "sample_parse line = Some (JObj [(''ts_ms'', JNum (int (hd line) * 9007199254740991)),
     (''extrinsic_hash'', JStr ''0xab''), (''best_energy_milli'', JReal ''-1.5'')])"

definition sample_read :: "nat \<Rightarrow> (unit option + ustring) option" where
  "sample_read n = Some (Inr [51, 10, 49, 10, 50])"

lemma sample_plain:
  "sample_read n = Some (Inr body) \<Longrightarrow> r \<in> set (trail_records sample_parse body) \<Longrightarrow> plain_hashes r"
  by (auto simp: trail_records_def parse_line_def sample_parse_def List.map_filter_def plain_hashes_def Let_def split: if_splits)

theorem dashboard_numbers_exact_witness:
  "exact_numbers (rs_body (api_mining_attempts 1700000000 sample_parse sample_read (Some ''42'') None))"
proof -
  have now: "int 1700000000 < 2 ^ 53" by simp
  have "exact_numbers (rs_body (api_status 1700000000 0 (new_metrics []))) \<and> exact_numbers (rs_body (api_stats 1700000000 (new_metrics [])))
      \<and> exact_numbers (rs_body (api_mining_attempts 1700000000 sample_parse sample_read (Some ''42'') None))"
    by (rule dashboard_numbers_exact [OF now]) (rule sample_plain)
  then show ?thesis by (elim conjE)
qed

subsection \<open>A bounded trail\<close>

lemma sort_key_last_part:
  assumes "ys = sort_key f xs" and "x \<in> set (take m ys)" and "y \<in> set (drop m ys)"
  shows "f x \<le> f y"
proof -
  have "sorted (map f ys)" by (simp add: assms(1))
  then have "sorted (map f (take m ys) @ map f (drop m ys))" by (metis append_take_drop_id map_append)
  with assms(2,3) show ?thesis by (auto simp: sorted_append)
qed

text \<open>The rows a limit keeps, as positions in the file.\<close>

lemma newest_rows:
  fixes f :: "'a \<Rightarrow> nat" and rs :: "'a list" and n :: nat
  defines "srt \<equiv> sort_key (\<lambda>e. f (snd e)) (enumerate 0 rs)"
  defines "tail \<equiv> drop (length srt - n) srt"
  shows "tail = map (\<lambda>i. (i, rs ! i)) (map fst tail)" "length tail = min n (length rs)" "distinct (map fst tail)"
    "set (map fst tail) \<subseteq> {..<length rs}" "sorted (map (\<lambda>i. f (rs ! i)) (map fst tail))"
    "i < length rs \<Longrightarrow> i \<notin> set (map fst tail) \<Longrightarrow> j \<in> set (map fst tail) \<Longrightarrow> f (rs ! i) \<le> f (rs ! j)"
proof -
  have mem: "e \<in> set srt \<Longrightarrow> fst e < length rs \<and> snd e = rs ! fst e" for e by (auto simp: srt_def in_set_enumerate_eq)
  have sub: "e \<in> set tail \<Longrightarrow> e \<in> set srt" for e unfolding tail_def by (rule in_set_dropD)
  have "e = (fst e, rs ! fst e)" if "e \<in> set tail" for e using mem [OF sub [OF that]] by (simp add: prod_eq_iff)
  then show rows: "tail = map (\<lambda>i. (i, rs ! i)) (map fst tail)" unfolding map_map comp_def by (simp add: map_idI)
  show "length tail = min n (length rs)" by (simp add: tail_def srt_def)
  have "mset (map fst srt) = mset [0..<length rs]" unfolding srt_def by (metis add_0 map_fst_enumerate mset_map mset_sort)
  then have "distinct (map fst srt)" by (metis distinct_upt mset_eq_imp_distinct_iff)
  then show "distinct (map fst tail)" unfolding tail_def drop_map [symmetric] by (rule distinct_drop)
  show "set (map fst tail) \<subseteq> {..<length rs}" using mem sub by auto
  have "sorted (map (\<lambda>e. f (snd e)) srt)" by (simp add: srt_def)
  then have "sorted (map (\<lambda>e. f (snd e)) tail)" unfolding tail_def drop_map [symmetric] by (rule sorted_wrt_drop)
  moreover have "map (\<lambda>e. f (snd e)) tail = map (\<lambda>i. f (rs ! i)) (map fst tail)" using mem sub by simp
  ultimately show "sorted (map (\<lambda>i. f (rs ! i)) (map fst tail))" by simp
  show "f (rs ! i) \<le> f (rs ! j)" if i: "i < length rs" "i \<notin> set (map fst tail)" and j: "j \<in> set (map fst tail)"
  proof -
    have "(i, rs ! i) \<in> set srt" using i(1) by (simp add: srt_def in_set_enumerate_eq)
    moreover have "(i, rs ! i) \<notin> set tail" using i(2) by force
    ultimately have "(i, rs ! i) \<in> set (take (length srt - n) srt)" unfolding tail_def by (metis Un_iff append_take_drop_id set_append)
    moreover have "(j, rs ! j) \<in> set tail" using j mem sub by force
    ultimately show ?thesis
      using sort_key_last_part [of srt "\<lambda>e. f (snd e)" "enumerate 0 rs" "(i, rs ! i)" "length srt - n" "(j, rs ! j)"]
      by (simp add: srt_def tail_def)
  qed
qed

text \<open>
  C24. With a limit the answer holds the newest rows of the trail: as many as asked for (or all), in the order of their
  time stamps, each numbered by its place in the whole file, and no row left out is newer than one kept; the totals describe
  the whole trail and do not depend on the limit. Without a limit it holds every row in file order, and no totals.
\<close>
theorem bounded_trail_is_newest:
  assumes "read sn = Some (Inr body)" and "trail_records parse body \<noteq> []"
  shows "\<exists>kept. load_attempts_envelope parse read sn (Some n) = Inr (JObj
        [(''submission'', submission_from_records (trail_records parse body) sn),
         (''attempts'', JArr (map (\<lambda>i. attempt_from_record (trail_records parse body ! i) (i + 1) sn) kept)),
         (''totals'', totals_from_records (trail_records parse body) sn)])
      \<and> length kept = min n (length (trail_records parse body)) \<and> distinct kept
      \<and> set kept \<subseteq> {..<length (trail_records parse body)}
      \<and> sorted (map (\<lambda>i. ts_ns_of (trail_records parse body ! i)) kept)
      \<and> (\<forall>i j. i < length (trail_records parse body) \<longrightarrow> i \<notin> set kept \<longrightarrow> j \<in> set kept \<longrightarrow>
           ts_ns_of (trail_records parse body ! i) \<le> ts_ns_of (trail_records parse body ! j))
      \<and> load_attempts_envelope parse read sn None = Inr (JObj
        [(''submission'', submission_from_records (trail_records parse body) sn),
         (''attempts'', JArr (map (\<lambda>i. attempt_from_record (trail_records parse body ! i) (i + 1) sn)
            [0..<length (trail_records parse body)]))])"
proof -
  let ?rs = "trail_records parse body"
  let ?srt = "sort_key (\<lambda>e. ts_ns_of (snd e)) (enumerate 0 ?rs)"
  define tail where "tail = drop (length ?srt - n) ?srt"
  note rows = newest_rows [where f = ts_ns_of and rs = ?rs and n = n, folded tail_def]
  have "kept_records (Some n) ?rs = tail" by (simp add: kept_records_def Let_def tail_def)
  moreover have "map (\<lambda>(i, r). attempt_from_record r (i + 1) sn) tail
      = map (\<lambda>i. attempt_from_record (?rs ! i) (i + 1) sn) (map fst tail)" by (subst rows(1)) simp
  ultimately have bounded: "load_attempts_envelope parse read sn (Some n) = Inr (JObj
        [(''submission'', submission_from_records ?rs sn),
         (''attempts'', JArr (map (\<lambda>i. attempt_from_record (?rs ! i) (i + 1) sn) (map fst tail))),
         (''totals'', totals_from_records ?rs sn)])"
    using assms by (simp add: load_attempts_envelope_def Let_def)
  have "map (\<lambda>(i, r). attempt_from_record r (i + 1) sn) (enumerate 0 ?rs)
      = map (\<lambda>i. attempt_from_record (?rs ! i) (i + 1) sn) [0..<length ?rs]"
    by (rule nth_equalityI) (simp_all add: nth_enumerate_eq)
  then have "load_attempts_envelope parse read sn None = Inr (JObj
        [(''submission'', submission_from_records ?rs sn),
         (''attempts'', JArr (map (\<lambda>i. attempt_from_record (?rs ! i) (i + 1) sn) [0..<length ?rs]))])"
    using assms by (simp add: load_attempts_envelope_def kept_records_def Let_def)
  with bounded rows show ?thesis by (intro exI [of _ "map fst tail"]) (simp only: length_map, blast)
qed

theorem bounded_trail_is_newest_witness:
  "\<exists>kept. length kept = 2 \<and> load_attempts_envelope sample_parse sample_read 42 (Some 2) = Inr (JObj
     [(''submission'', submission_from_records (trail_records sample_parse [51, 10, 49, 10, 50]) 42),
      (''attempts'', JArr (map (\<lambda>i. attempt_from_record (trail_records sample_parse [51, 10, 49, 10, 50] ! i) (i + 1) 42) kept)),
      (''totals'', totals_from_records (trail_records sample_parse [51, 10, 49, 10, 50]) 42)])"
proof -
  have r: "sample_read 42 = Some (Inr [51, 10, 49, 10, 50])" by (simp add: sample_read_def)
  have l: "length (trail_records sample_parse [51, 10, 49, 10, 50]) = 3"
    by (simp add: trail_records_def str_lines_def strip_cr_def parse_line_def sample_parse_def trim_def trim_start_def is_whitespace_def
        List.map_filter_def)
  then have "trail_records sample_parse [51, 10, 49, 10, 50] \<noteq> []" by auto
  from bounded_trail_is_newest [where read = sample_read and sn = 42 and n = 2, OF r this] l show ?thesis by (elim exE conjE) (auto intro!: exI)
qed

end
