(* ===== verification/Sources.thy ===== *)
theory Sources
  imports Lease Rpc Text Client
begin

text \<open>
  \<open>drive/topology_spec.rs\<close>, \<open>presets.rs\<close>, \<open>drive/mod.rs\<close>, \<open>drive/random_source.rs\<close>,
  \<open>drive/lease_source.rs\<close> and \<open>drive/list_source.rs\<close>: where an offline run takes its topology and its jobs
  from. The JSON decoder, the hashes, the nonce derivation and the coefficient draw are external and are the
  fields of \<open>DriveLib\<close>. A source is a state with a step that yields the next job; \<open>drain_all\<close> runs any such
  step until it yields none, so it is a partial function, and the locale \<open>bounded_source\<close> states what makes it
  return. \<open>None\<close> of \<open>hex_to_bytes\<close> and of what calls it is a panic.
\<close>

subsection \<open>Topology specifications\<close>

record GatesJson =
  gj_min_solutions :: nat
  gj_max_energy_milli :: int
  gj_min_diversity_milli :: nat

definition default_max_energy_milli :: int where
  "default_max_energy_milli = i64_max"

definition gates_default :: GatesJson where
  "gates_default = \<lparr> gj_min_solutions = 0, gj_max_energy_milli = default_max_energy_milli, gj_min_diversity_milli = 0 \<rparr>"

record TopologySpecJson =
  tj_nodes :: "node list"
  tj_edges :: "(node \<times> node) list"
  tj_allowed_h_milli :: "int list"
  tj_allowed_j_milli :: "int list"
  tj_allowed_spin_milli :: "int list"
  tj_gates :: "GatesJson option"

record ListEntryJson =
  ln_nonce :: "ustring option"
  ln_h_milli :: "int list option"
  ln_j_milli :: "int list option"
  ln_edges :: "(node \<times> node) list option"
  ln_num_reads :: "nat option"

record 'derr DriveLib =
  dl_hash_sets :: "node list \<Rightarrow> (node \<times> node) list \<Rightarrow> int list \<Rightarrow> int list \<Rightarrow> int list \<Rightarrow> bytes"
  dl_encode_i32 :: "int list \<Rightarrow> bytes"
  dl_draw :: "bytes \<Rightarrow> nat \<Rightarrow> nat \<Rightarrow> int list \<Rightarrow> int list \<Rightarrow> 'derr + int list \<times> int list"
  dl_draw_text :: "'derr \<Rightarrow> string"
  dl_derive_nonce :: "bytes \<Rightarrow> bytes \<Rightarrow> bytes \<Rightarrow> bytes"
  dl_blake3 :: "bytes \<Rightarrow> bytes"
  dl_spec_json :: "ustring \<Rightarrow> string + TopologySpecJson"
  dl_entry_json :: "ustring \<Rightarrow> string + ListEntryJson"

datatype TopologySpecError =
    SpecJson string
  | EmptyNodes
  | EmptyAllowedH
  | EmptyAllowedJ
  | EdgeUnknownNode nat node

fun topology_spec_error_text :: "TopologySpecError \<Rightarrow> string" where
  "topology_spec_error_text (SpecJson e) = ''invalid topology spec JSON: '' @ e"
| "topology_spec_error_text EmptyNodes = ''topology spec: nodes must be non-empty''"
| "topology_spec_error_text EmptyAllowedH = ''topology spec: allowed_h_milli must be non-empty''"
| "topology_spec_error_text EmptyAllowedJ = ''topology spec: allowed_j_milli must be non-empty''"
| "topology_spec_error_text (EdgeUnknownNode edge_index endpoint) =
     ''topology spec: edge '' @ show_nat edge_index @ '' references node id '' @ show_nat (unat endpoint)
       @ '', which is not in the topology''"

record TopologySpec =
  sp_topology :: Topology
  sp_allowed_h_milli :: "int list"
  sp_allowed_j_milli :: "int list"
  sp_allowed_spin_milli :: "int list"
  sp_min_solutions :: nat
  sp_max_energy_milli :: int
  sp_min_diversity_milli :: nat

text \<open>The loop over the edges with their index; an edge's first endpoint is looked up before its second.\<close>

fun validate_edges :: "node set \<Rightarrow> nat \<Rightarrow> (node \<times> node) list \<Rightarrow> TopologySpecError + unit" where
  "validate_edges node_set edge_index [] = Inr ()"
| "validate_edges node_set edge_index ((u, v) # edges) =
     (if u \<notin> node_set then Inl (EdgeUnknownNode edge_index u)
      else if v \<notin> node_set then Inl (EdgeUnknownNode edge_index v)
      else validate_edges node_set (edge_index + 1) edges)"

definition validate_spec :: "'derr DriveLib \<Rightarrow> TopologySpecJson \<Rightarrow> TopologySpecError + TopologySpec" where
  "validate_spec L raw =
     (if tj_nodes raw = [] then Inl EmptyNodes
      else if tj_allowed_h_milli raw = [] then Inl EmptyAllowedH
      else if tj_allowed_j_milli raw = [] then Inl EmptyAllowedJ
      else case validate_edges (set (tj_nodes raw)) 0 (tj_edges raw) of
             Inl e \<Rightarrow> Inl e
           | Inr _ \<Rightarrow>
               let allowed_spin_milli = (if tj_allowed_spin_milli raw = [] then default_spin_set
                                         else tj_allowed_spin_milli raw);
                   gates = (case tj_gates raw of None \<Rightarrow> gates_default | Some g \<Rightarrow> g)
               in Inr \<lparr> sp_topology = from_nodes_edges (dl_hash_sets L) (tj_nodes raw) (tj_edges raw)
                          (tj_allowed_h_milli raw) (tj_allowed_j_milli raw) allowed_spin_milli,
                        sp_allowed_h_milli = tj_allowed_h_milli raw,
                        sp_allowed_j_milli = tj_allowed_j_milli raw,
                        sp_allowed_spin_milli = allowed_spin_milli,
                        sp_min_solutions = gj_min_solutions gates,
                        sp_max_energy_milli = gj_max_energy_milli gates,
                        sp_min_diversity_milli = gj_min_diversity_milli gates \<rparr>)"

definition parse_topology_spec :: "'derr DriveLib \<Rightarrow> ustring \<Rightarrow> TopologySpecError + TopologySpec" where
  "parse_topology_spec L txt =
     (case dl_spec_json L txt of Inl e \<Rightarrow> Inl (SpecJson e) | Inr raw \<Rightarrow> validate_spec L raw)"

definition from_chain_meta :: "'derr DriveLib \<Rightarrow> bytes \<Rightarrow> TopologyMetaScale \<Rightarrow> string + TopologySpec" where
  "from_chain_meta L hash meta =
     (case require_set_values (tm_allowed_h_values meta) of
        Inl error \<Rightarrow> Inl (''chain topology allowed_h_milli: '' @ error)
      | Inr h \<Rightarrow>
     (case require_set_values (tm_allowed_j_values meta) of
        Inl error \<Rightarrow> Inl (''chain topology allowed_j_milli: '' @ error)
      | Inr j \<Rightarrow>
     (case require_set_values (tm_allowed_spin_values meta) of
        Inl error \<Rightarrow> Inl (''chain topology allowed_spin_milli: '' @ error)
      | Inr spin \<Rightarrow>
     (case validate_spec L \<lparr> tj_nodes = tm_nodes meta, tj_edges = tm_edges meta, tj_allowed_h_milli = h,
             tj_allowed_j_milli = j, tj_allowed_spin_milli = spin, tj_gates = None \<rparr> of
        Inl error \<Rightarrow> Inl (topology_spec_error_text error)
      | Inr spec \<Rightarrow>
          if tp_hash (sp_topology spec) \<noteq> hash
          then Inl (''topology hash mismatch: chain reported '' @ hex_encode hash @ '', computed ''
                    @ hex_encode (tp_hash (sp_topology spec)))
          else Inr spec))))"

definition to_snapshot :: "TopologySpec \<Rightarrow> MiningSnapshot" where
  "to_snapshot spec =
     \<lparr> ms_head_hash = replicate 32 0, ms_last_proof_block_hash = replicate 32 0,
       ms_topology_hash = tp_hash (sp_topology spec), ms_nodes = tp_nodes (sp_topology spec),
       ms_edges = edge_pairs (sp_topology spec), ms_allowed_h_milli = sp_allowed_h_milli spec,
       ms_allowed_j_milli = sp_allowed_j_milli spec, ms_allowed_spin_milli = sp_allowed_spin_milli spec,
       ms_min_solutions = sp_min_solutions spec, ms_max_energy_milli = sp_max_energy_milli spec,
       ms_min_diversity_milli = sp_min_diversity_milli spec, ms_block_number = 0, ms_spec_version = 0 \<rparr>"

subsection \<open>Presets\<close>

text \<open>
  The two embedded files are arguments, as are the decoder and the printer of JSON values; \<open>quoted\<close> is the
  debug form of a string.
\<close>

record PresetLib =
  pl_advantage2 :: ustring
  pl_smoke :: ustring
  pl_parse :: "ustring \<Rightarrow> string + json"
  pl_print :: "json \<Rightarrow> string + ustring"
  pl_quoted :: "ustring \<Rightarrow> string"

definition set_key :: "string \<Rightarrow> json \<Rightarrow> json \<Rightarrow> json" where
  "set_key key v obj = (case obj of JObj kvs \<Rightarrow> JObj (map (\<lambda>(k, w). (k, if k = key then v else w)) kvs) | _ \<Rightarrow> obj)"

definition removed_edge :: json where
  "removed_edge = JArr [JNum 938, JNum 2812]"

definition aglais :: "PresetLib \<Rightarrow> string + ustring" where
  "aglais P =
     (case pl_parse P (pl_advantage2 P) of
        Inl error \<Rightarrow> Inl (''parse embedded Advantage2 topology: '' @ error)
      | Inr spec \<Rightarrow>
     (case Option.bind (get_key spec ''edges'') as_array of
        None \<Rightarrow> Inl ''embedded Advantage2 topology has no edges array''
      | Some edges \<Rightarrow>
          let kept = filter (\<lambda>edge. edge \<noteq> removed_edge) edges;
              spec = set_key ''edges'' (JArr kept) spec
          in if length kept + 1 \<noteq> length edges
             then Inl ''Aglais derivation requires exactly one native edge (938, 2812)''
             else (case get_key spec ''allowed_h_milli'' of
                     None \<Rightarrow> Inl ''embedded Advantage2 topology has no allowed_h_milli''
                   | Some _ \<Rightarrow> map_err (\<lambda>error. ''serialize derived Aglais topology: '' @ error)
                                 (pl_print P (set_key ''allowed_h_milli'' (JArr [JNum 0]) spec)))))"

definition PRESET_NAMES :: "string list" where
  "PRESET_NAMES = [''advantage2-system1'', ''aglais'', ''smoke'']"

definition preset_spec :: "PresetLib \<Rightarrow> ustring \<Rightarrow> string + ustring" where
  "preset_spec P name =
     (if name = us ''advantage2-system1'' then Inr (pl_advantage2 P)
      else if name = us ''aglais'' then aglais P
      else if name = us ''smoke'' then Inr (pl_smoke P)
      else Inl (''unknown topology preset '' @ pl_quoted P name
                @ ''; valid presets: advantage2-system1, aglais, smoke''))"

subsection \<open>Draining a source\<close>

partial_function (option) drain_all :: "('s \<Rightarrow> Job option \<times> 's) \<Rightarrow> 's \<Rightarrow> (Job list \<times> 's) option" where
  "drain_all next s =
     (case next s of
        (None, s') \<Rightarrow> Some ([], s')
      | (Some j, s') \<Rightarrow> Option.bind (drain_all next s') (\<lambda>(jobs, t). Some (j # jobs, t)))"

definition vec_next :: "Job list \<Rightarrow> Job option \<times> Job list" where
  "vec_next jobs = (case jobs of [] \<Rightarrow> (None, []) | j # rest \<Rightarrow> (Some j, rest))"

subsection \<open>Random draws\<close>

record RandomSource =
  rs_snapshot :: MiningSnapshot
  rs_miner_account :: bytes
  rs_seed :: nat
  rs_deadline_ms :: nat
  rs_count :: nat
  rs_next_index :: nat

definition random_new :: "TopologySpec \<Rightarrow> bytes \<Rightarrow> nat \<Rightarrow> nat \<Rightarrow> nat \<Rightarrow> RandomSource" where
  "random_new spec miner_account seed n deadline_ms =
     \<lparr> rs_snapshot = to_snapshot spec, rs_miner_account = miner_account, rs_seed = seed,
       rs_deadline_ms = deadline_ms, rs_count = n, rs_next_index = 0 \<rparr>"

definition salt_for :: "'derr DriveLib \<Rightarrow> nat \<Rightarrow> nat \<Rightarrow> bytes" where
  "salt_for L seed index = dl_blake3 L (le_bytes 8 seed @ le_bytes 4 index)"

definition random_next :: "'derr DriveLib \<Rightarrow> RandomSource \<Rightarrow> Job option \<times> RandomSource" where
  "random_next L s =
     (if rs_next_index s \<ge> rs_count s then (None, s)
      else case derive_pow_job (dl_derive_nonce L) (dl_encode_i32 L) (dl_draw L) (rs_snapshot s)
                  (rs_miner_account s) (salt_for L (rs_seed s) (rs_next_index s)) (rs_next_index s + 1)
                  (rs_deadline_ms s) of
             Inr job \<Rightarrow> (Some job, s\<lparr>rs_next_index := rs_next_index s + 1\<rparr>)
           | Inl e \<Rightarrow> (None, s))"

subsection \<open>Leases\<close>

record LeaseSource =
  lz_snapshot :: MiningSnapshot
  lz_miner_account :: bytes
  lz_salts :: nat
  lz_lease_size :: nat
  lz_next_start :: nat

definition lease_new :: "'derr DriveLib \<Rightarrow> TopologySpec \<Rightarrow> bytes \<Rightarrow> nat \<Rightarrow> nat \<Rightarrow> nat \<Rightarrow> LeaseSource" where
  "lease_new L spec miner_account seed salts lease_size =
     \<lparr> lz_snapshot = (to_snapshot spec)\<lparr>ms_last_proof_block_hash :=
           dl_blake3 L (ascii ''quip-drive-lease'' @ le_bytes 8 seed)\<rparr>,
       lz_miner_account = miner_account, lz_salts = salts, lz_lease_size = max lease_size 1,
       lz_next_start = 0 \<rparr>"

definition lease_next :: "LeaseSource \<Rightarrow> Job option \<times> LeaseSource" where
  "lease_next s =
     (if lz_next_start s \<ge> lz_salts s then (None, s)
      else let count = min (lz_lease_size s) (lz_salts s - lz_next_start s);
               job = build_lease_job (lz_snapshot s) (lz_miner_account s) (lz_next_start s) count 1
           in (Some job, s\<lparr>lz_next_start := lz_next_start s + count\<rparr>))"

subsection \<open>Model lists\<close>

datatype ListSourceError =
    ListIo string
  | ListParse nat string
  | AmbiguousEntry nat
  | MissingTopologyForNonceRef nat

fun list_source_error_text :: "ListSourceError \<Rightarrow> string" where
  "list_source_error_text (ListIo e) = ''cannot read list file: '' @ e"
| "list_source_error_text (ListParse line reason) = ''line '' @ show_nat line @ '': '' @ reason"
| "list_source_error_text (AmbiguousEntry line) =
     ''line '' @ show_nat line @ '': entry must have exactly one of `nonce` or `h_milli`''"
| "list_source_error_text (MissingTopologyForNonceRef line) =
     ''line '' @ show_nat line @ '': nonce-ref entry requires --topology <spec.json>''"

text \<open>
  \<open>u8::from_str_radix(s, 16)\<close> on a slice of two bytes: a leading plus sign is accepted, and any byte that is
  no hexadecimal digit is refused.
\<close>

definition byte_nibble :: "u8 \<Rightarrow> nat option" where
  "byte_nibble b = (case decode_nibble (char_of (unat b)) of Inr d \<Rightarrow> Some d | Inl _ \<Rightarrow> None)"

definition u8_from_hex2 :: "u8 \<Rightarrow> u8 \<Rightarrow> string + u8" where
  "u8_from_hex2 a b =
     (case (if a = 43 then Some 0 else byte_nibble a, byte_nibble b) of
        (Some h, Some l) \<Rightarrow> Inr (of_nat (16 * h + l))
      | _ \<Rightarrow> Inl ''invalid digit found in string'')"

text \<open>The slices \<open>&hex[i..i + 2]\<close> in order; a slice that starts or ends inside a character panics.\<close>

fun hex_slices :: "ustring \<Rightarrow> nat list \<Rightarrow> (string + bytes) option" where
  "hex_slices hex [] = Some (Inr [])"
| "hex_slices hex (i # is) =
     (if \<not> (is_char_boundary hex i \<and> is_char_boundary hex (i + 2)) then None
      else case u8_from_hex2 (utf8 hex ! i) (utf8 hex ! (i + 1)) of
             Inl e \<Rightarrow> Some (Inl e)
           | Inr b \<Rightarrow> (case hex_slices hex is of
                          None \<Rightarrow> None
                        | Some (Inl e) \<Rightarrow> Some (Inl e)
                        | Some (Inr bs) \<Rightarrow> Some (Inr (b # bs))))"

definition hex_to_bytes :: "ustring \<Rightarrow> (string + bytes) option" where
  "hex_to_bytes hex =
     (let hex = trim hex in
      if str_len hex mod 2 \<noteq> 0 then Some (Inl ''odd-length hex string'')
      else hex_slices hex (map (\<lambda>k. 2 * k) [0..<str_len hex div 2]))"

definition decode_nonce_hex :: "ustring \<Rightarrow> (string + bytes) option" where
  "decode_nonce_hex hex =
     (case hex_to_bytes hex of
        None \<Rightarrow> None
      | Some (Inl e) \<Rightarrow> Some (Inl e)
      | Some (Inr bytes) \<Rightarrow>
          Some (if length bytes \<noteq> 32
                then Inl (''nonce must decode to 32 bytes, got '' @ show_nat (length bytes))
                else Inr bytes))"

definition build_explicit_job :: "'derr DriveLib \<Rightarrow> ListEntryJson \<Rightarrow> nat \<Rightarrow> nat \<Rightarrow> Job" where
  "build_explicit_job L entry generation deadline_ms =
     (let h = (case ln_h_milli entry of None \<Rightarrow> [] | Some v \<Rightarrow> v);
          j = (case ln_j_milli entry of None \<Rightarrow> [] | Some v \<Rightarrow> v);
          edges = (case ln_edges entry of None \<Rightarrow> [] | Some v \<Rightarrow> v)
      in \<lparr> jb_job_id = ascii (''explicit-'' @ show_nat generation), jb_kind = IsingSample,
           jb_generation = generation, jb_deadline_ms = deadline_ms,
           jb_ising = Some ((milli_problem (dl_encode_i32 L) (Some (Edges (map fst edges) (map snd edges))) h j)
             \<lparr>ip_num_reads := (case ln_num_reads entry of None \<Rightarrow> 0 | Some n \<Rightarrow> n)\<rparr>),
           jb_provenance = Some \<lparr> pv_is_pow = False, pv_order_id = [] \<rparr>,
           jb_generator = None \<rparr>)"

definition build_entry_job ::
  "'derr DriveLib \<Rightarrow> ListEntryJson \<Rightarrow> nat \<Rightarrow> MiningSnapshot option \<Rightarrow> nat \<Rightarrow> (ListSourceError + Job) option" where
  "build_entry_job L entry line_no topology_snapshot deadline_ms =
     (let has_nonce = (ln_nonce entry \<noteq> None); has_explicit = (ln_h_milli entry \<noteq> None) in
      if has_nonce = has_explicit then Some (Inl (AmbiguousEntry line_no))
      else if has_nonce then
        (case topology_snapshot of
           None \<Rightarrow> Some (Inl (MissingTopologyForNonceRef line_no))
         | Some snap \<Rightarrow>
             (case decode_nonce_hex (case ln_nonce entry of None \<Rightarrow> [] | Some n \<Rightarrow> n) of
                None \<Rightarrow> None
              | Some (Inl reason) \<Rightarrow> Some (Inl (ListParse line_no reason))
              | Some (Inr nonce) \<Rightarrow>
                  Some (map_err (\<lambda>e. ListParse line_no (''cannot draw model from nonce-ref: '' @ dl_draw_text L e))
                    (build_ising_job_from_nonce (dl_encode_i32 L) (dl_draw L) snap nonce line_no deadline_ms))))
      else Some (Inr (build_explicit_job L entry line_no deadline_ms)))"

fun parse_lines ::
  "'derr DriveLib \<Rightarrow> MiningSnapshot option \<Rightarrow> nat \<Rightarrow> nat \<Rightarrow> ustring list \<Rightarrow> (ListSourceError + Job list) option" where
  "parse_lines L topology_snapshot deadline_ms i [] = Some (Inr [])"
| "parse_lines L topology_snapshot deadline_ms i (line # lines) =
     (let line_no = i + 1; trimmed = trim line in
      if trimmed = [] then parse_lines L topology_snapshot deadline_ms (i + 1) lines
      else case dl_entry_json L trimmed of
             Inl e \<Rightarrow> Some (Inl (ListParse line_no e))
           | Inr entry \<Rightarrow>
               (case build_entry_job L entry line_no topology_snapshot deadline_ms of
                  None \<Rightarrow> None
                | Some (Inl e) \<Rightarrow> Some (Inl e)
                | Some (Inr job) \<Rightarrow>
                    (case parse_lines L topology_snapshot deadline_ms (i + 1) lines of
                       None \<Rightarrow> None
                     | Some (Inl e) \<Rightarrow> Some (Inl e)
                     | Some (Inr jobs) \<Rightarrow> Some (Inr (job # jobs)))))"

definition list_parse ::
  "'derr DriveLib \<Rightarrow> ustring \<Rightarrow> MiningSnapshot option \<Rightarrow> nat \<Rightarrow> (ListSourceError + Job list) option" where
  "list_parse L txt topology_snapshot deadline_ms = parse_lines L topology_snapshot deadline_ms 0 (str_lines txt)"

definition list_load ::
  "'derr DriveLib \<Rightarrow> string + ustring \<Rightarrow> MiningSnapshot option \<Rightarrow> nat \<Rightarrow> (ListSourceError + Job list) option" where
  "list_load L read_file topology_snapshot deadline_ms =
     (case read_file of Inl e \<Rightarrow> Some (Inl (ListIo e)) | Inr txt \<Rightarrow> list_parse L txt topology_snapshot deadline_ms)"

end
