(* ===== verification/Seed.thy ===== *)
theory Seed
  imports Sources Startup
begin

text \<open>
  \<open>chain/seed.rs\<close> and \<open>keygen.rs\<close> with their subcommands in \<open>main.rs\<close>: the two root calls that make a fresh
  chain mineable, over the chain client, and the creation of a signer keystore. The SCALE codec of the call
  arguments, the topology hash, the file system and the randomness source are arguments.
\<close>

subsection \<open>Calls\<close>

definition SUDO_PALLET_INDEX :: u8 where "SUDO_PALLET_INDEX = 6"
definition SUDO_CALL_INDEX :: u8 where "SUDO_CALL_INDEX = 0"
definition REGISTER_TOPOLOGY_CALL_INDEX :: u8 where "REGISTER_TOPOLOGY_CALL_INDEX = 2"
definition SET_DIFFICULTY_CALL_INDEX :: u8 where "SET_DIFFICULTY_CALL_INDEX = 3"

record SeedTopology =
  sd_nodes :: "node list"
  sd_edges :: "(node \<times> node) list"
  sd_allowed_h_milli :: "int list"
  sd_allowed_j_milli :: "int list"
  sd_allowed_spin_milli :: "int list"

record SeedCodec =
  sc_topology_args ::
    "node list \<times> (node \<times> node) list \<times> AllowedValueSpec \<times> AllowedValueSpec \<times> AllowedValueSpec \<Rightarrow> bytes"
  sc_difficulty :: "DifficultyConfig \<Rightarrow> bytes"
  sc_hash_sets :: "node list \<Rightarrow> (node \<times> node) list \<Rightarrow> int list \<Rightarrow> int list \<Rightarrow> int list \<Rightarrow> bytes"

definition seed_topology_hash :: "SeedCodec \<Rightarrow> SeedTopology \<Rightarrow> bytes" where
  "seed_topology_hash S t =
     sc_hash_sets S (sd_nodes t) (sd_edges t) (sd_allowed_h_milli t) (sd_allowed_j_milli t) (sd_allowed_spin_milli t)"

definition encode_register_topology :: "SeedCodec \<Rightarrow> SeedTopology \<Rightarrow> bytes" where
  "encode_register_topology S t =
     [SUDO_PALLET_INDEX, SUDO_CALL_INDEX, QUANTUM_POW_PALLET_INDEX, REGISTER_TOPOLOGY_CALL_INDEX]
     @ sc_topology_args S (sd_nodes t, sd_edges t, SetSpec (sd_allowed_h_milli t), SetSpec (sd_allowed_j_milli t),
         SetSpec (sd_allowed_spin_milli t))"

definition encode_set_difficulty :: "SeedCodec \<Rightarrow> bytes \<Rightarrow> DifficultyConfig \<Rightarrow> bytes" where
  "encode_set_difficulty S hash difficulty =
     [SUDO_PALLET_INDEX, SUDO_CALL_INDEX, QUANTUM_POW_PALLET_INDEX, SET_DIFFICULTY_CALL_INDEX]
     @ hash @ sc_difficulty S difficulty"

definition DEFAULT_SEED_DIFFICULTY :: DifficultyConfig where
  "DEFAULT_SEED_DIFFICULTY = \<lparr> df_min_solutions = 5, df_max_energy_milli = - 2500000, df_min_diversity_milli = 200 \<rparr>"

definition seed_from_spec :: "TopologySpec \<Rightarrow> SeedTopology" where
  "seed_from_spec spec =
     \<lparr> sd_nodes = tp_nodes (sp_topology spec), sd_edges = edge_pairs (sp_topology spec),
       sd_allowed_h_milli = sp_allowed_h_milli spec, sd_allowed_j_milli = sp_allowed_j_milli spec,
       sd_allowed_spin_milli = sp_allowed_spin_milli spec \<rparr>"

subsection \<open>The seed sequence\<close>

record SeedParams =
  sq_validator :: string
  sq_sudo_key :: string
  sq_topology :: SeedTopology
  sq_difficulty :: DifficultyConfig

record SeedReport =
  sv_topology_hash :: bytes
  sv_nodes :: nat
  sv_edges :: nat
  sv_register_block :: string
  sv_difficulty_block :: string

definition seed_dispatch :: "('key, 'sig) Net \<Rightarrow> bytes \<Rightarrow> string \<Rightarrow> Confirmation \<Rightarrow> string io" where
  "seed_dispatch N call what confirmation =
     bind_io (submit_signed_call N call confirmation) (\<lambda>(outcome, _).
       case outcome of
         CallSuccess block _ \<Rightarrow> pure_io block
       | DispatchFailed error _ \<Rightarrow>
           fail_io (SubmitErr (what @ '' was included but the dispatch failed: '' @ error))
       | CallInvalid message \<Rightarrow>
           fail_io (SubmitErr (what @ '' was rejected by the transaction pool: '' @ message))
       | CallDropped message \<Rightarrow>
           fail_io (SubmitErr (what @ '' was dropped before inclusion: '' @ message)))"

definition seed_steps :: "('key, 'sig) Net \<Rightarrow> SeedCodec \<Rightarrow> SeedParams \<Rightarrow> SeedReport io" where
  "seed_steps N S params =
     bind_io (default_topology N) (\<lambda>existing.
       case existing of
         Some existing \<Rightarrow>
           fail_io (SubmitErr (''DefaultTopology is already set to 0x'' @ hex_plain existing
             @ ''; a chain can only be seeded once, so wipe the chain data and restart the validator first''))
       | None \<Rightarrow>
           let expected = seed_topology_hash S (sq_topology params) in
           bind_io (seed_dispatch N (encode_register_topology S (sq_topology params)) ''register_topology''
               DefaultTopologySet) (\<lambda>register_block.
           bind_io (default_topology N) (\<lambda>stored.
           bind_io (need (SubmitErr (''register_topology was included but DefaultTopology is still unset; ''
               @ ''the call failed inner validation'')) stored) (\<lambda>stored.
             if stored \<noteq> expected
             then fail_io (SubmitErr (''chain registered topology 0x'' @ hex_plain stored @ '' but this build computed 0x''
               @ hex_plain expected @ ''; the call encoding and the hash function disagree''))
             else bind_io (seed_dispatch N (encode_set_difficulty S expected (sq_difficulty params)) ''set_difficulty''
                    (DifficultySet expected)) (\<lambda>difficulty_block.
                  pure_io \<lparr> sv_topology_hash = expected, sv_nodes = length (sd_nodes (sq_topology params)),
                    sv_edges = length (sd_edges (sq_topology params)), sv_register_block = register_block,
                    sv_difficulty_block = difficulty_block \<rparr>)))))"

definition seed_chain ::
  "('key, 'sig) Net \<Rightarrow> SeedCodec \<Rightarrow> SeedParams \<Rightarrow> ((ChainError + SeedReport) \<times> Client) option" where
  "seed_chain N S params =
     seed_steps N S params (new_client [sq_validator params] (sq_sudo_key params) MKCpu)"

subsection \<open>The subcommand\<close>

record SeedChainArgs =
  sa_validator :: string
  sa_sudo_key :: "string option"
  sa_mnemonic_file :: "ustring option"
  sa_topology_preset :: ustring
  sa_topology :: "ustring option"
  sa_min_solutions :: nat
  sa_max_energy_milli :: int
  sa_min_diversity_milli :: nat

definition sudo_key_from :: "(ustring \<Rightarrow> string + ustring) \<Rightarrow> SeedChainArgs \<Rightarrow> string + string" where
  "sudo_key_from read_file args =
     (case (sa_sudo_key args, sa_mnemonic_file args) of
        (Some k, None) \<Rightarrow> Inr k
      | (None, Some p) \<Rightarrow>
          (case read_file p of
             Inl e \<Rightarrow> Inl (''read mnemonic file '' @ byte_string p @ '': '' @ e)
           | Inr phrase \<Rightarrow>
               if trim phrase = [] then Inl (''mnemonic file is empty: '' @ byte_string p)
               else Inr (byte_string (trim phrase)))
      | _ \<Rightarrow> Inl ''give exactly one of --sudo-key or --mnemonic-file'')"

text \<open>The debug form of a specification error is \<open>debug_error\<close>.\<close>

definition seed_chain_inner ::
  "('key, 'sig) Net \<Rightarrow> SeedCodec \<Rightarrow> 'derr DriveLib \<Rightarrow> PresetLib \<Rightarrow> (ustring \<Rightarrow> string + ustring)
    \<Rightarrow> (TopologySpecError \<Rightarrow> string) \<Rightarrow> SeedChainArgs \<Rightarrow> (string + SeedReport) option" where
  "seed_chain_inner N S L P read_file debug_error args =
     (case sudo_key_from read_file args of
        Inl e \<Rightarrow> Some (Inl e)
      | Inr sudo_key \<Rightarrow>
     (case (case sa_topology args of
              Some p \<Rightarrow> map_err (\<lambda>e. ''read topology '' @ byte_string p @ '': '' @ e) (read_file p)
            | None \<Rightarrow> preset_spec P (sa_topology_preset args)) of
        Inl e \<Rightarrow> Some (Inl e)
      | Inr txt \<Rightarrow>
     (case parse_topology_spec L txt of
        Inl e \<Rightarrow> Some (Inl (debug_error e))
      | Inr spec \<Rightarrow>
          map_option (\<lambda>(r, _). map_err chain_error_text r)
            (seed_chain N S \<lparr> sq_validator = sa_validator args, sq_sudo_key = sudo_key,
               sq_topology = seed_from_spec spec,
               sq_difficulty = \<lparr> df_min_solutions = sa_min_solutions args,
                 df_max_energy_milli = sa_max_energy_milli args,
                 df_min_diversity_milli = sa_min_diversity_milli args \<rparr> \<rparr>))))"

subsection \<open>Keystores\<close>

datatype KeygenError = KeyExists | KeyIo string | KeyRandom string

datatype OpenFailure = AlreadyExists | OpenOther string

text \<open>
  What the system answers at each step: whether the target exists, whether it has a parent directory to create,
  the creation of that directory, the random seed, the exclusive creation of the file, what of the given bytes
  a write stores and whether it fails, and the flush. The second component is the content written to the created file, if one was created.
\<close>

record KeyFs =
  kf_exists :: bool
  kf_has_parent :: bool
  kf_create_dirs :: "string + unit"
  kf_random :: "string + bytes"
  kf_create_new :: "OpenFailure + unit"
  kf_write :: "string \<Rightarrow> string \<times> (string + unit)"
  kf_sync :: "string + unit"

definition seed_to_hex :: "bytes \<Rightarrow> string" where
  "seed_to_hex seed = concat (map hex_byte seed)"

definition keystore_body :: "bytes \<Rightarrow> string" where
  "keystore_body seed =
     ''{'' @ [CHR 0x22] @ ''master_seed_hex'' @ [CHR 0x22] @ '':'' @ [CHR 0x22] @ seed_to_hex seed @ [CHR 0x22]
     @ ''}'' @ [CHR 0x0A]"

definition write_keystore :: "KeyFs \<Rightarrow> (KeygenError + unit) \<times> string option" where
  "write_keystore fs =
     (if kf_exists fs then (Inl KeyExists, None)
      else case (if kf_has_parent fs then kf_create_dirs fs else Inr ()) of
             Inl e \<Rightarrow> (Inl (KeyIo e), None)
           | Inr _ \<Rightarrow>
     (case kf_random fs of
        Inl e \<Rightarrow> (Inl (KeyRandom e), None)
      | Inr seed \<Rightarrow>
     (case kf_create_new fs of
        Inl AlreadyExists \<Rightarrow> (Inl KeyExists, None)
      | Inl (OpenOther e) \<Rightarrow> (Inl (KeyIo e), None)
      | Inr _ \<Rightarrow>
          let body = keystore_body seed in
          (case kf_write fs body of
             (written, Inl e) \<Rightarrow> (Inl (KeyIo e), Some written)
           | (written, Inr _) \<Rightarrow>
               (case kf_sync fs of Inl e \<Rightarrow> (Inl (KeyIo e), Some written) | Inr _ \<Rightarrow> (Inr (), Some written))))))"

definition run_keygen_cli :: "KeyFs \<Rightarrow> ExitCode" where
  "run_keygen_cli fs = (case fst (write_keystore fs) of Inr _ \<Rightarrow> Clean | Inl _ \<Rightarrow> ConfigInvalid)"

subsection \<open>Loading a signer\<close>

datatype SecretStringError =
    InvalidFormat string
  | InvalidPhrase
  | InvalidPassword
  | InvalidSeed
  | InvalidSeedLength
  | InvalidPath

fun secret_uri_error_kind :: "SecretStringError \<Rightarrow> string" where
  "secret_uri_error_kind (InvalidFormat _) = ''invalid format''"
| "secret_uri_error_kind InvalidPhrase = ''invalid phrase''"
| "secret_uri_error_kind InvalidPassword = ''invalid password''"
| "secret_uri_error_kind InvalidSeed = ''invalid seed''"
| "secret_uri_error_kind InvalidSeedLength = ''invalid seed length''"
| "secret_uri_error_kind InvalidPath = ''invalid path''"

text \<open>
  The file a name refers to, if it exists, with the outcome of reading it; the JSON decoder; and the two
  constructors of a pair.
\<close>

record 'key KeyLib =
  kl_file :: "string \<Rightarrow> (string + string) option"
  kl_json :: "string \<Rightarrow> string + json"
  kl_from_seed :: "bytes \<Rightarrow> 'key"
  kl_from_string :: "string \<Rightarrow> SecretStringError + 'key"

definition load_keystore :: "'key KeyLib \<Rightarrow> string \<Rightarrow> string + 'key" where
  "load_keystore K txt =
     (case kl_json K txt of
        Inl e \<Rightarrow> Inl (''keystore json: '' @ e)
      | Inr v \<Rightarrow>
     (case Option.bind (get_key v ''master_seed_hex'') as_string of
        None \<Rightarrow> Inl ''keystore missing master_seed_hex''
      | Some seed_hex \<Rightarrow>
     (case hex_decode seed_hex of
        Inl e \<Rightarrow> Inl (hex_error_text e)
      | Inr seed_bytes \<Rightarrow>
          if length seed_bytes \<noteq> 32 then Inl (''master_seed must be 32 bytes, got '' @ show_nat (length seed_bytes))
          else Inr (kl_from_seed K seed_bytes))))"

definition is_ascii_hexdigit :: "char \<Rightarrow> bool" where
  "is_ascii_hexdigit c \<longleftrightarrow> (case decode_nibble c of Inr _ \<Rightarrow> True | Inl _ \<Rightarrow> False)"

definition signer_refused :: "string \<Rightarrow> string" where
  "signer_refused kind =
     ''signer_key is not an existing keystore file, a 32-byte hex seed, or a valid secret URI: '' @ kind"

definition load_hybrid_pair :: "'key KeyLib \<Rightarrow> string \<Rightarrow> string + 'key" where
  "load_hybrid_pair K signer_key =
     (case kl_file K signer_key of
        Some (Inl e) \<Rightarrow> Inl e
      | Some (Inr txt) \<Rightarrow> load_keystore K txt
      | None \<Rightarrow>
          let hex_body = strip_0x signer_key in
          if length hex_body = 64 \<and> list_all is_ascii_hexdigit hex_body
          then map_err hex_error_text (map_sum id (kl_from_seed K) (hex_decode hex_body))
          else map_err (\<lambda>error. signer_refused (secret_uri_error_kind error)) (kl_from_string K signer_key))"

end
