(* ===== verification/Sources_Laws.thy ===== *)
theory Sources_Laws
  imports Sources
begin

text \<open>
  What a drive run's sources promise. The locale \<open>bounded_source\<close> is the contract of a \<open>JobSource\<close> that ends:
  each job it yields lowers a count. Draining such a source returns, and a property of what it yields is proved
  step by step with \<open>drain_rule\<close>. It is interpreted on the fixed list, the random source and the lease source.
\<close>

subsection \<open>Draining\<close>

lemma drain_all_stop: "next s = (None, s') \<Longrightarrow> drain_all next s = Some ([], s')"
  by (subst drain_all.simps) simp

lemma drain_all_step:
  "next s = (Some j, s') \<Longrightarrow> drain_all next s' = Some (jobs, t) \<Longrightarrow> drain_all next s = Some (j # jobs, t)"
  by (subst drain_all.simps) simp

locale bounded_source =
  fixes next_of :: "'s \<Rightarrow> Job option \<times> 's"
    and ok :: "'s \<Rightarrow> bool"
    and left :: "'s \<Rightarrow> nat"
  assumes step_ok: "ok s \<Longrightarrow> next_of s = (Some j, s') \<Longrightarrow> ok s'"
    and step_left: "ok s \<Longrightarrow> next_of s = (Some j, s') \<Longrightarrow> left s' < left s"
begin

lemma drain_rule:
  assumes "ok s"
    and "\<And>s s'. ok s \<Longrightarrow> next_of s = (None, s') \<Longrightarrow> P s []"
    and "\<And>s j s' jobs. ok s \<Longrightarrow> next_of s = (Some j, s') \<Longrightarrow> P s' jobs \<Longrightarrow> P s (j # jobs)"
  shows "\<exists>jobs t. drain_all next_of s = Some (jobs, t) \<and> P s jobs"
  using assms(1)
proof (induction "left s" arbitrary: s rule: less_induct)
  case less
  show ?case
  proof (cases "next_of s")
    case (Pair r s')
    show ?thesis
    proof (cases r)
      case None
      with Pair less.prems assms(2) show ?thesis by (auto intro: drain_all_stop)
    next
      case (Some j)
      with Pair have n: "next_of s = (Some j, s')" by simp
      from less.hyps [OF step_left [OF less.prems n] step_ok [OF less.prems n]]
      obtain jobs t where "drain_all next_of s' = Some (jobs, t)" "P s' jobs" by blast
      with n less.prems assms(3) show ?thesis by (blast intro: drain_all_step)
    qed
  qed
qed

lemma drain_returns: "ok s \<Longrightarrow> \<exists>jobs t. drain_all next_of s = Some (jobs, t) \<and> length jobs \<le> left s"
proof (rule drain_rule)
  fix s j s' and jobs :: "Job list"
  assume "ok s" "next_of s = (Some j, s')" "length jobs \<le> left s'"
  with step_left [of s j s'] show "length (j # jobs) \<le> left s" by simp
qed simp_all

end

interpretation vec_src: bounded_source vec_next "\<lambda>_. True" length
  by unfold_locales (auto simp: vec_next_def split: list.splits)

interpretation random_src: bounded_source "random_next L" "\<lambda>_. True" "\<lambda>s. rs_count s - rs_next_index s"
  for L :: "'derr DriveLib"
  by unfold_locales (auto simp: random_next_def split: if_splits sum.splits)

interpretation lease_src: bounded_source lease_next "\<lambda>s. 1 \<le> lz_lease_size s" "\<lambda>s. lz_salts s - lz_next_start s"
  by unfold_locales (auto simp: lease_next_def Let_def split: if_splits)

lemma drain_vec: "drain_all vec_next jobs = Some (jobs, [])"
  by (induction jobs) (auto simp: vec_next_def intro: drain_all_stop drain_all_step)

subsection \<open>The lease source\<close>

definition lease_range :: "Job \<Rightarrow> nat list" where
  "lease_range job =
     (case jb_generator job of None \<Rightarrow> [] | Some g \<Rightarrow> [gn_salt_start g..<gn_salt_start g + gn_salt_count g])"

definition lease_start :: "Job \<Rightarrow> nat" where
  "lease_start job = (case jb_generator job of None \<Rightarrow> 0 | Some g \<Rightarrow> gn_salt_start g)"

lemma lease_job_id_inj: "lease_job_id a = lease_job_id b \<Longrightarrow> a \<le> u64_max \<Longrightarrow> b \<le> u64_max \<Longrightarrow> a = b"
  using le_bytes_inj [of 8 a b] by (simp add: lease_job_id_def)

lemma lease_next_step:
  assumes "lease_next s = (Some j, s')"
  defines "n \<equiv> min (lz_lease_size s) (lz_salts s - lz_next_start s)"
  shows "lz_next_start s < lz_salts s" "s' = s\<lparr>lz_next_start := lz_next_start s + n\<rparr>"
    "j = build_lease_job (lz_snapshot s) (lz_miner_account s) (lz_next_start s) n 1"
  using assms by (auto simp: lease_next_def Let_def split: if_splits)

text \<open>What one source yields from a given state on.\<close>

definition leases_from :: "LeaseSource \<Rightarrow> Job list \<Rightarrow> bool" where
  "leases_from s jobs \<longleftrightarrow>
     concat (map lease_range jobs) = [lz_next_start s..<lz_salts s]
     \<and> list_all (\<lambda>job. \<exists>start k. job = build_lease_job (lz_snapshot s) (lz_miner_account s) start k 1
          \<and> lz_next_start s \<le> start \<and> 1 \<le> k \<and> k \<le> lz_lease_size s \<and> start + k \<le> lz_salts s) jobs
     \<and> length jobs = (lz_salts s - lz_next_start s + (lz_lease_size s - 1)) div lz_lease_size s
     \<and> distinct (map lease_start jobs)"

lemma ceil_step:
  fixes k :: nat
  assumes "1 \<le> k" "0 < d"
  shows "(d + (k - 1)) div k = Suc ((d - min k d + (k - 1)) div k)"
proof (cases "k \<le> d")
  case True
  then have "d + (k - 1) = (d - k + (k - 1)) + k" by simp
  then have "(d + (k - 1)) div k = (d - k + (k - 1)) div k + 1"
    using assms by (metis div_add_self2 less_le_trans less_numeral_extra(1) not_gr_zero)
  with True show ?thesis by simp
next
  case False
  then have "(d + (k - 1)) div k = 1" using assms by (intro div_nat_eqI) auto
  moreover have "(k - 1) div k = 0" using assms by simp
  ultimately show ?thesis using False by simp
qed

lemma leases_from_step:
  assumes ok: "1 \<le> lz_lease_size s" and n: "lease_next s = (Some j, s')" and l: "leases_from s' jobs"
  shows "leases_from s (j # jobs)"
proof -
  define k where "k = min (lz_lease_size s) (lz_salts s - lz_next_start s)"
  note st = lease_next_step [OF n, folded k_def]
  let ?a = "lz_next_start s" and ?m = "lz_salts s"
  have k: "1 \<le> k" "?a + k \<le> ?m" "k \<le> lz_lease_size s" using st(1) ok by (auto simp: k_def)
  have s': "lz_next_start s' = ?a + k" "lz_salts s' = ?m" "lz_lease_size s' = lz_lease_size s"
    "lz_snapshot s' = lz_snapshot s" "lz_miner_account s' = lz_miner_account s" using st(2) by simp_all
  have rest: "list_all (\<lambda>job. \<exists>start k'. job = build_lease_job (lz_snapshot s) (lz_miner_account s) start k' 1
        \<and> ?a + k \<le> start \<and> 1 \<le> k' \<and> k' \<le> lz_lease_size s \<and> start + k' \<le> ?m) jobs"
    using l unfolding leases_from_def s' by blast
  have starts: "lease_start job \<ge> ?a + k" if "job \<in> set jobs" for job
    using rest that by (auto simp: list_all_iff lease_start_def build_lease_job_def)
  have "concat (map lease_range (j # jobs)) = [?a..<?a + k] @ [?a + k..<?m]"
    using l st(3) unfolding leases_from_def s' by (simp add: lease_range_def build_lease_job_def)
  also have "\<dots> = [?a..<?m]" using k(2) upt_add_eq_append [of ?a "?a + k" "?m - (?a + k)"] by simp
  finally have c: "concat (map lease_range (j # jobs)) = [?a..<?m]" .
  have "list_all (\<lambda>job. \<exists>start k'. job = build_lease_job (lz_snapshot s) (lz_miner_account s) start k' 1
        \<and> ?a \<le> start \<and> 1 \<le> k' \<and> k' \<le> lz_lease_size s \<and> start + k' \<le> ?m) jobs"
    using rest by (rule list.pred_mono_strong) (blast intro: add_leD1)
  then have a: "list_all (\<lambda>job. \<exists>start k'. job = build_lease_job (lz_snapshot s) (lz_miner_account s) start k' 1
        \<and> ?a \<le> start \<and> 1 \<le> k' \<and> k' \<le> lz_lease_size s \<and> start + k' \<le> ?m) (j # jobs)"
    using k st(3) unfolding list.pred_inject(2) by blast
  have len: "length (j # jobs) = (?m - ?a + (lz_lease_size s - 1)) div lz_lease_size s"
    using l ceil_step [OF ok, of "?m - ?a"] st(1) unfolding leases_from_def s' by (simp add: k_def)
  have "lease_start j = ?a" using st(3) by (simp add: lease_start_def build_lease_job_def)
  then have "distinct (map lease_start (j # jobs))"
    using l k(1) unfolding leases_from_def by (auto dest: starts)
  with c a len show ?thesis by (simp only: leases_from_def)
qed

lemma leases_from_drain:
  "1 \<le> lz_lease_size s \<Longrightarrow> \<exists>jobs t. drain_all lease_next s = Some (jobs, t) \<and> leases_from s jobs"
proof (rule lease_src.drain_rule)
  show "leases_from s []" if "lease_next s = (None, s')" "1 \<le> lz_lease_size s" for s s'
    using that by (auto simp: lease_next_def leases_from_def Let_def split: if_splits)
qed (auto intro: leases_from_step)

text \<open>
  C36. The lease source splits the salt counters of a run without gap or overlap: draining it returns, the
  leases it yields name the counters \<open>0\<close> to \<open>salts - 1\<close> in order and each exactly once, every lease holds
  between one salt and the lease size (one when the size is zero) of the round the seed names, there are as few leases as that
  size allows, and, salts being a 64-bit count, no two leases share a job id.
\<close>
theorem lease_source_partitions_salts:
  "\<exists>jobs t. drain_all lease_next (lease_new L spec account seed salts lease_size) = Some (jobs, t)
     \<and> concat (map lease_range jobs) = [0..<salts]
     \<and> (\<forall>job \<in> set jobs. is_lease job \<and> 1 \<le> length (lease_range job) \<and> length (lease_range job) \<le> max lease_size 1
          \<and> map_option gn_last_proof_block_hash (jb_generator job)
              = Some (dl_blake3 L (ascii ''quip-drive-lease'' @ le_bytes 8 seed)))
     \<and> length jobs = (salts + (max lease_size 1 - 1)) div max lease_size 1
     \<and> (salts \<le> u64_max \<longrightarrow> distinct (map jb_job_id jobs))"
proof -
  let ?s = "lease_new L spec account seed salts lease_size"
  have s: "lz_next_start ?s = 0" "lz_salts ?s = salts" "lz_lease_size ?s = max lease_size 1"
    "ms_last_proof_block_hash (lz_snapshot ?s) = dl_blake3 L (ascii ''quip-drive-lease'' @ le_bytes 8 seed)"
    by (simp_all add: lease_new_def)
  obtain jobs t where d: "drain_all lease_next ?s = Some (jobs, t)" and l: "leases_from ?s jobs"
    using leases_from_drain [of ?s] s(3) by auto
  have each: "\<exists>start k. job = build_lease_job (lz_snapshot ?s) (lz_miner_account ?s) start k 1
      \<and> 1 \<le> k \<and> k \<le> max lease_size 1 \<and> start + k \<le> salts" if "job \<in> set jobs" for job
    using l that unfolding leases_from_def s list_all_iff by blast
  have "inj_on (\<lambda>job. jb_job_id job) (set jobs)" if "salts \<le> u64_max"
  proof (rule inj_onI)
    fix x y assume xy: "x \<in> set jobs" "y \<in> set jobs" "jb_job_id x = jb_job_id y"
    obtain a p where x: "x = build_lease_job (lz_snapshot ?s) (lz_miner_account ?s) a p 1" "a + p \<le> salts"
      using each [OF xy(1)] by blast
    obtain b q where y: "y = build_lease_job (lz_snapshot ?s) (lz_miner_account ?s) b q 1" "b + q \<le> salts"
      using each [OF xy(2)] by blast
    have "a = b" using lease_job_id_inj [of a b] xy(3) x y that by (simp add: build_lease_job_def)
    then have "lease_start x = lease_start y" using x(1) y(1) by (simp add: lease_start_def build_lease_job_def)
    with xy l show "x = y" unfolding leases_from_def distinct_map by (meson inj_onD)
  qed
  then have "salts \<le> u64_max \<longrightarrow> distinct (map jb_job_id jobs)"
    using l unfolding leases_from_def distinct_map by blast
  moreover have "\<forall>job \<in> set jobs. is_lease job \<and> 1 \<le> length (lease_range job) \<and> length (lease_range job) \<le> max lease_size 1
      \<and> map_option gn_last_proof_block_hash (jb_generator job)
          = Some (dl_blake3 L (ascii ''quip-drive-lease'' @ le_bytes 8 seed))"
    using each by (fastforce simp: is_lease_def lease_range_def build_lease_job_def s(4))
  ultimately show ?thesis using d l unfolding leases_from_def s by auto
qed

definition tiny_spec :: TopologySpec where
  "tiny_spec = \<lparr> sp_topology = \<lparr> tp_hash = replicate 32 9, tp_nodes = [30, 10], tp_edges = ([30], [10]),
       tp_allowed_h = [0], tp_allowed_j = [- 1000, 1000] \<rparr>,
     sp_allowed_h_milli = [0], sp_allowed_j_milli = [- 1000, 1000], sp_allowed_spin_milli = [- 1000, 1000],
     sp_min_solutions = 0, sp_max_energy_milli = i64_max, sp_min_diversity_milli = 0 \<rparr>"

definition tiny_lib :: "string DriveLib" where
  "tiny_lib = \<lparr> dl_hash_sets = (\<lambda>ns es h j sp. replicate 32 9), dl_encode_i32 = i32_le_enc,
     dl_draw = (\<lambda>nonce n m h j. if h = [] \<or> j = [] then Inl ''empty set'' else Inr (replicate n (hd h), replicate m (hd j))),
     dl_draw_text = (\<lambda>e. e), dl_derive_nonce = (\<lambda>a b c. take 32 (c @ replicate 32 0)), dl_blake3 = (\<lambda>bs. take 32 (bs @ replicate 32 0)),
     dl_spec_json = (\<lambda>t. Inl ''not JSON''), dl_entry_json = (\<lambda>t. Inl ''not JSON'') \<rparr>"

theorem lease_source_partitions_salts_witness:
  "\<exists>jobs t. drain_all lease_next (lease_new tiny_lib tiny_spec (replicate 32 0) 1 10 4) = Some (jobs, t)
     \<and> concat (map lease_range jobs) = [0..<10] \<and> length jobs = 3 \<and> distinct (map jb_job_id jobs)"
  using lease_source_partitions_salts [of tiny_lib tiny_spec "replicate 32 0" 1 10 4] by auto

subsection \<open>The random source\<close>

text \<open>
  The random source yields one job per index, each drawn from the salt of its index, until the count is reached
  or a draw fails; it then stops for good.
\<close>

definition random_job :: "'derr DriveLib \<Rightarrow> RandomSource \<Rightarrow> nat \<Rightarrow> 'derr + Job" where
  "random_job L s i = derive_pow_job (dl_derive_nonce L) (dl_encode_i32 L) (dl_draw L) (rs_snapshot s)
     (rs_miner_account s) (salt_for L (rs_seed s) i) (i + 1) (rs_deadline_ms s)"

lemma random_source_yields:
  "\<exists>jobs t. drain_all (random_next L) s = Some (jobs, t)
     \<and> map Inr jobs = map (random_job L s) [rs_next_index s..<rs_next_index s + length jobs]
     \<and> rs_next_index s + length jobs \<le> max (rs_count s) (rs_next_index s)
     \<and> (rs_next_index s + length jobs < rs_count s \<longrightarrow> (\<exists>e. random_job L s (rs_next_index s + length jobs) = Inl e))"
proof (rule random_src.drain_rule)
  fix s s' assume "random_next L s = (None, s')"
  then show "map Inr [] = map (random_job L s) [rs_next_index s..<rs_next_index s + length []]
     \<and> rs_next_index s + length [] \<le> max (rs_count s) (rs_next_index s)
     \<and> (rs_next_index s + length [] < rs_count s \<longrightarrow> (\<exists>e. random_job L s (rs_next_index s + length []) = Inl e))"
    by (auto simp: random_next_def random_job_def split: if_splits sum.splits)
next
  fix s j s' and jobs :: "Job list"
  assume n: "random_next L s = (Some j, s')"
    and h: "map Inr jobs = map (random_job L s') [rs_next_index s'..<rs_next_index s' + length jobs]
      \<and> rs_next_index s' + length jobs \<le> max (rs_count s') (rs_next_index s')
      \<and> (rs_next_index s' + length jobs < rs_count s' \<longrightarrow> (\<exists>e. random_job L s' (rs_next_index s' + length jobs) = Inl e))"
  have st: "rs_next_index s < rs_count s" "s' = s\<lparr>rs_next_index := Suc (rs_next_index s)\<rparr>"
    "random_job L s (rs_next_index s) = Inr j"
    using n by (auto simp: random_next_def random_job_def split: if_splits sum.splits)
  have same: "random_job L s' = random_job L s" using st(2) by (simp add: random_job_def fun_eq_iff)
  have "map Inr jobs = map (random_job L s) [Suc (rs_next_index s)..<Suc (rs_next_index s) + length jobs]"
    using h st(2) unfolding same by simp
  then show "map Inr (j # jobs) = map (random_job L s) [rs_next_index s..<rs_next_index s + length (j # jobs)]
     \<and> rs_next_index s + length (j # jobs) \<le> max (rs_count s) (rs_next_index s)
     \<and> (rs_next_index s + length (j # jobs) < rs_count s
          \<longrightarrow> (\<exists>e. random_job L s (rs_next_index s + length (j # jobs)) = Inl e))"
    using h st unfolding same by (simp add: upt_conv_Cons del: upt_Suc)
qed simp

subsection \<open>Nonces in hexadecimal\<close>

lemma utf8_ascii: "list_all (\<lambda>c. c < 128) s \<Longrightarrow> utf8 s = map of_nat s"
  by (induction s) (auto simp: utf8_char_def)

lemma str_len_ascii: "list_all (\<lambda>c. c < 128) s \<Longrightarrow> str_len s = length s"
  by (simp add: str_len_def utf8_ascii)

lemma ascii_boundary:
  assumes "list_all (\<lambda>c. c < 128) s" "i \<le> length s"
  shows "is_char_boundary s i"
proof -
  have "list_all (\<lambda>c. c < 128) (take i s)" using assms(1) by (auto simp: list_all_iff dest: in_set_takeD)
  then have "str_len (take i s) = i" using assms(2) by (simp add: str_len_ascii)
  with assms(2) show ?thesis unfolding is_char_boundary_iff by blast
qed

lemma hex_slices_ascii:
  "list_all (\<lambda>c. c < 128) s \<Longrightarrow> list_all (\<lambda>i. i + 2 \<le> length s) is \<Longrightarrow> hex_slices s is \<noteq> None"
proof (induction "is")
  case (Cons i "is")
  then have "is_char_boundary s i" "is_char_boundary s (i + 2)" by (auto intro!: ascii_boundary)
  moreover have "hex_slices s is \<noteq> None" using Cons by simp
  ultimately show ?case by (auto split: sum.split option.split)
qed simp

lemma list_all_trim: "list_all P s \<Longrightarrow> list_all P (trim s)"
  using set_trim [of s] by (auto simp: list_all_iff)

lemma even_slices: "list_all (\<lambda>i. i + 2 \<le> n) (map (\<lambda>k. 2 * k) [0..<n div 2])"
  by (auto simp: list_all_iff)

lemma decode_nonce_ascii:
  assumes "list_all (\<lambda>c. c < 128) s"
  shows "decode_nonce_hex s \<noteq> None"
proof -
  have t: "list_all (\<lambda>c. c < 128) (trim s)" using assms by (rule list_all_trim)
  have "hex_slices (trim s) (map (\<lambda>k. 2 * k) [0..<str_len (trim s) div 2]) \<noteq> None"
    unfolding str_len_ascii [OF t] using t even_slices by (rule hex_slices_ascii)
  then show ?thesis by (auto simp: decode_nonce_hex_def hex_to_bytes_def Let_def split: sum.splits option.splits)
qed

lemma hex_plain_nth:
  "k < length bs \<Longrightarrow> hex_plain bs ! (2 * k) = hex_digit (unat (bs ! k) div 16)
     \<and> hex_plain bs ! (2 * k + 1) = hex_digit (unat (bs ! k) mod 16)"
proof (induction bs arbitrary: k)
  case (Cons b bs)
  then show ?case by (cases k) (auto simp: hex_plain_def hex_byte_def)
qed simp

lemma hex_digit_range:
  assumes "n < 16"
  shows "48 \<le> (of_char (hex_digit n) :: nat)" "of_char (hex_digit n) \<le> (102 :: nat)"
  using decode_hex_digit [OF assms] by (auto simp: decode_nibble_def Let_def split: if_splits)

lemma hex_digit_facts:
  assumes "n < 16"
  shows "of_char (hex_digit n) < (128 :: nat)" "\<not> is_whitespace (of_char (hex_digit n))"
    "unat (of_nat (of_char (hex_digit n)) :: u8) = of_char (hex_digit n)"
    "of_nat (of_char (hex_digit n)) \<noteq> (43 :: u8)"
proof -
  note r = hex_digit_range [OF assms]
  show "of_char (hex_digit n) < (128 :: nat)" "\<not> is_whitespace (of_char (hex_digit n))"
    using r unfolding is_whitespace_def by linarith+
  show u: "unat (of_nat (of_char (hex_digit n)) :: u8) = of_char (hex_digit n)"
    using r(2) by (simp add: unat_of_nat_u8)
  show "of_nat (of_char (hex_digit n)) \<noteq> (43 :: u8)"
  proof
    assume "of_nat (of_char (hex_digit n)) = (43 :: u8)"
    with u have "of_char (hex_digit n) = unat (43 :: u8)" by simp
    with r(1) show False by simp
  qed
qed

lemma byte_nibble_char: "n < 16 \<Longrightarrow> byte_nibble (of_nat (of_char (hex_digit n))) = Some n"
  by (simp add: byte_nibble_def hex_digit_facts(3) decode_hex_digit)

lemma u8_from_hex2_byte:
  "u8_from_hex2 (of_nat (of_char (hex_digit (unat b div 16)))) (of_nat (of_char (hex_digit (unat b mod 16)))) = Inr b"
proof -
  have "unat b < 256" using unsigned_less [of b, where 'a = nat] by simp
  then have "unat b div 16 < 16" "unat b mod 16 < 16" by auto
  then show ?thesis
    by (simp add: u8_from_hex2_def byte_nibble_char hex_digit_facts(4))
qed

lemma hex_plain_chars: "c \<in> set (hex_plain bs) \<Longrightarrow> \<exists>n < 16. c = hex_digit n"
proof -
  assume "c \<in> set (hex_plain bs)"
  then obtain b where "c \<in> set (hex_byte b)" by (auto simp: hex_plain_def)
  then have "c = hex_digit (unat b div 16) \<or> c = hex_digit (unat b mod 16)" by (auto simp: hex_byte_def)
  moreover have "unat b < 256" using unsigned_less [of b, where 'a = nat] by simp
  then have "unat b div 16 < 16" "unat b mod 16 < 16" by auto
  ultimately show ?thesis by blast
qed

lemma hex_text:
  "list_all (\<lambda>c. c < 128) (us (hex_plain bs))" "list_all (\<lambda>c. \<not> is_whitespace c) (us (hex_plain bs))"
  using hex_plain_chars hex_digit_facts(1,2) by (fastforce simp: us_def list_all_iff)+

lemma hex_slices_plain:
  assumes "n \<le> length bs"
  shows "hex_slices (us (hex_plain bs)) (map (\<lambda>k. 2 * k) [n..<length bs]) = Some (Inr (drop n bs))"
  using assms
proof (induction "length bs - n" arbitrary: n)
  case (Suc d)
  then have n: "n < length bs" by simp
  let ?s = "us (hex_plain bs)"
  have len: "length ?s = 2 * length bs" by (simp add: us_def length_hex_plain)
  have "utf8 ?s ! (2 * n) = of_nat (of_char (hex_plain bs ! (2 * n)))"
    "utf8 ?s ! (2 * n + 1) = of_nat (of_char (hex_plain bs ! (2 * n + 1)))"
    using n unfolding utf8_ascii [OF hex_text(1)] by (simp_all add: us_def length_hex_plain)
  then have b: "u8_from_hex2 (utf8 ?s ! (2 * n)) (utf8 ?s ! (2 * n + 1)) = Inr (bs ! n)"
    using hex_plain_nth [OF n] u8_from_hex2_byte by simp
  have "is_char_boundary ?s (2 * n)" "is_char_boundary ?s (2 * n + 2)"
    using n len by (auto intro!: ascii_boundary hex_text)
  moreover have "hex_slices ?s (map (\<lambda>k. 2 * k) [Suc n..<length bs]) = Some (Inr (drop (Suc n) bs))"
    using Suc by (intro Suc.hyps(1)) auto
  ultimately show ?case using n b by (simp add: upt_conv_Cons Cons_nth_drop_Suc del: upt_Suc)
qed simp

lemma trim_no_space: "list_all (\<lambda>c. \<not> is_whitespace c) s \<Longrightarrow> list_all is_whitespace p \<Longrightarrow> list_all is_whitespace q \<Longrightarrow>
    s \<noteq> [] \<Longrightarrow> trim (p @ s @ q) = s"
proof -
  assume s: "list_all (\<lambda>c. \<not> is_whitespace c) s" "s \<noteq> []" and p: "list_all is_whitespace p" and q: "list_all is_whitespace q"
  have hd: "dropWhile is_whitespace (xs @ t @ u) = t @ u"
    if "list_all is_whitespace xs" "t \<noteq> []" "\<not> is_whitespace (hd t)" for xs t u
    using that by (induction xs) (auto simp: neq_Nil_conv)
  have "dropWhile is_whitespace (p @ s @ q) = s @ q" using hd [OF p, of s q] s by (auto simp: list_all_iff)
  moreover have "dropWhile is_whitespace (rev q @ rev s @ []) = rev s @ []"
    using hd [of "rev q" "rev s" "[]"] s q by (auto simp: list_all_iff hd_rev)
  ultimately show ?thesis by (simp add: trim_def trim_start_def)
qed

lemma nonce_hex_plain:
  assumes "length bs = 32" "list_all is_whitespace p" "list_all is_whitespace q"
  shows "decode_nonce_hex (p @ us (hex_plain bs) @ q) = Some (Inr bs)"
proof -
  let ?s = "us (hex_plain bs)"
  have len: "length ?s = 64" using assms(1) by (simp add: us_def length_hex_plain)
  then have "?s \<noteq> []" by auto
  then have t: "trim (p @ ?s @ q) = ?s" using hex_text(2) assms by (intro trim_no_space) auto
  have l: "str_len ?s = 2 * length bs" using len assms(1) str_len_ascii [OF hex_text(1)] by simp
  have "hex_to_bytes (p @ ?s @ q) = Some (Inr bs)"
    using hex_slices_plain [of 0 bs] by (simp add: hex_to_bytes_def t l)
  then show ?thesis using assms(1) by (simp add: decode_nonce_hex_def)
qed

text \<open>
  A nonce of a model list is read back from its hexadecimal form: thirty-two bytes printed in lower-case
  hexadecimal, with any white space around them, decode to those bytes; and no line of ASCII text makes the
  decoder panic, whatever it holds.
\<close>
theorem nonce_hex_roundtrip:
  "(length bs = 32 \<longrightarrow> list_all is_whitespace p \<longrightarrow> list_all is_whitespace q
      \<longrightarrow> decode_nonce_hex (p @ us (hex_plain bs) @ q) = Some (Inr bs))
   \<and> (list_all (\<lambda>c. c < 128) s \<longrightarrow> decode_nonce_hex s \<noteq> None)"
  using nonce_hex_plain decode_nonce_ascii by blast

theorem nonce_hex_roundtrip_witness:
  "decode_nonce_hex ([32] @ us (hex_plain (replicate 32 171)) @ [9]) = Some (Inr (replicate 32 171))
   \<and> decode_nonce_hex (us ''zz'') \<noteq> None"
  using nonce_hex_roundtrip [of "replicate 32 171" "[32]" "[9]" "us ''zz''"] by (simp add: is_whitespace_def us_def)

text \<open>Outside ASCII the byte slices can cut a character: this four-byte text makes the decoder panic.\<close>

lemma nonce_hex_can_panic: "decode_nonce_hex [97, 233, 97] = None"
proof -
  have "\<not> is_whitespace 97" "\<not> is_whitespace 233" by (simp_all add: is_whitespace_def)
  then have t: "trim [97, 233, 97] = [97, 233, 97]" by (simp add: trim_def trim_start_def)
  have l: "str_len [97, 233, 97] = 4" by (simp add: str_len_def utf8_char_def)
  have "\<not> is_char_boundary [97, 233, 97] (Suc (Suc 0))"
    by (simp add: is_char_boundary_def str_len_def utf8_char_def upt_rec)
  then show ?thesis by (simp add: decode_nonce_hex_def hex_to_bytes_def t l upt_rec Let_def)
qed

text \<open>A pair that starts with a plus sign is accepted as a byte below sixteen.\<close>

lemma hex_pair_accepts_plus: "u8_from_hex2 43 (of_nat (of_char (hex_digit 15))) = Inr 15"
  by (simp add: u8_from_hex2_def byte_nibble_char)

subsection \<open>Topology specifications\<close>

lemma validate_edges_cases:
  "(case validate_edges ns i es of
      Inr _ \<Rightarrow> (\<forall>e \<in> set es. fst e \<in> ns \<and> snd e \<in> ns)
    | Inl e \<Rightarrow> \<exists>k < length es. \<exists>n. e = EdgeUnknownNode (i + k) n \<and> n \<notin> ns
        \<and> (n = fst (es ! k) \<or> n = snd (es ! k) \<and> fst (es ! k) \<in> ns)
        \<and> (\<forall>e \<in> set (take k es). fst e \<in> ns \<and> snd e \<in> ns))"
proof (induction ns i es rule: validate_edges.induct)
  case (2 ns i u v es)
  show ?case
  proof (cases "u \<in> ns \<and> v \<in> ns")
    case True
    with 2 have IH: "case validate_edges ns (i + 1) es of
        Inr _ \<Rightarrow> (\<forall>e \<in> set es. fst e \<in> ns \<and> snd e \<in> ns)
      | Inl e \<Rightarrow> \<exists>k < length es. \<exists>n. e = EdgeUnknownNode (i + 1 + k) n \<and> n \<notin> ns
          \<and> (n = fst (es ! k) \<or> n = snd (es ! k) \<and> fst (es ! k) \<in> ns)
          \<and> (\<forall>e \<in> set (take k es). fst e \<in> ns \<and> snd e \<in> ns)" by blast
    show ?thesis
    proof (cases "validate_edges ns (i + 1) es")
      case (Inl e)
      with IH obtain k n where "k < length es" "e = EdgeUnknownNode (i + 1 + k) n" "n \<notin> ns"
        "n = fst (es ! k) \<or> n = snd (es ! k) \<and> fst (es ! k) \<in> ns"
        "\<forall>e \<in> set (take k es). fst e \<in> ns \<and> snd e \<in> ns" by auto
      with Inl True show ?thesis by (auto intro!: exI [of _ "Suc k"])
    qed (use IH True in auto)
  qed (auto intro!: exI [of _ 0])
qed simp

text \<open>
  A topology specification is accepted exactly when it can be mined over: nodes and both value sets are
  non-empty and every edge joins listed nodes. The specification built keeps nodes, edges and values as they were
  given, in their order, hashes them with the spin set in force (the binary set when none is given) and takes
  open gates when none are given. A refusal names the first fault: the empty list, or the first edge with an
  unlisted endpoint and that endpoint.
\<close>
theorem topology_spec_exact:
  "(case validate_spec L raw of
      Inr spec \<Rightarrow>
        tj_nodes raw \<noteq> [] \<and> tj_allowed_h_milli raw \<noteq> [] \<and> tj_allowed_j_milli raw \<noteq> []
        \<and> (\<forall>e \<in> set (tj_edges raw). fst e \<in> set (tj_nodes raw) \<and> snd e \<in> set (tj_nodes raw))
        \<and> tp_nodes (sp_topology spec) = tj_nodes raw \<and> edge_pairs (sp_topology spec) = tj_edges raw
        \<and> sp_allowed_h_milli spec = tj_allowed_h_milli raw \<and> sp_allowed_j_milli spec = tj_allowed_j_milli raw
        \<and> sp_allowed_spin_milli spec = (if tj_allowed_spin_milli raw = [] then default_spin_set else tj_allowed_spin_milli raw)
        \<and> tp_hash (sp_topology spec) = dl_hash_sets L (tj_nodes raw) (tj_edges raw) (tj_allowed_h_milli raw)
             (tj_allowed_j_milli raw) (sp_allowed_spin_milli spec)
        \<and> (tj_gates raw = None \<longrightarrow> sp_min_solutions spec = 0 \<and> sp_max_energy_milli spec = i64_max
             \<and> sp_min_diversity_milli spec = 0)
    | Inl EmptyNodes \<Rightarrow> tj_nodes raw = []
    | Inl EmptyAllowedH \<Rightarrow> tj_allowed_h_milli raw = []
    | Inl EmptyAllowedJ \<Rightarrow> tj_allowed_j_milli raw = []
    | Inl (EdgeUnknownNode k n) \<Rightarrow>
        k < length (tj_edges raw) \<and> n \<notin> set (tj_nodes raw)
        \<and> (n = fst (tj_edges raw ! k) \<or> n = snd (tj_edges raw ! k) \<and> fst (tj_edges raw ! k) \<in> set (tj_nodes raw))
        \<and> (\<forall>e \<in> set (take k (tj_edges raw)). fst e \<in> set (tj_nodes raw) \<and> snd e \<in> set (tj_nodes raw))
    | Inl (SpecJson _) \<Rightarrow> False)"
proof (cases "validate_edges (set (tj_nodes raw)) 0 (tj_edges raw)")
  case (Inl e)
  then obtain k n where "e = EdgeUnknownNode k n" "k < length (tj_edges raw)" "n \<notin> set (tj_nodes raw)"
      "n = fst (tj_edges raw ! k) \<or> n = snd (tj_edges raw ! k) \<and> fst (tj_edges raw ! k) \<in> set (tj_nodes raw)"
      "\<forall>e \<in> set (take k (tj_edges raw)). fst e \<in> set (tj_nodes raw) \<and> snd e \<in> set (tj_nodes raw)"
    using validate_edges_cases [where ns = "set (tj_nodes raw)" and i = 0 and es = "tj_edges raw"] by auto
  then show ?thesis by (simp add: validate_spec_def Inl)
next
  case (Inr b)
  then have "\<forall>e \<in> set (tj_edges raw). fst e \<in> set (tj_nodes raw) \<and> snd e \<in> set (tj_nodes raw)"
    using validate_edges_cases [where ns = "set (tj_nodes raw)" and i = 0 and es = "tj_edges raw"] by simp
  moreover have "tp_nodes (from_nodes_edges h ns es ah aj sp) = ns"
    "tp_hash (from_nodes_edges h ns es ah aj sp) = h ns es ah aj sp" for h ns es ah aj sp
    by (simp_all add: from_nodes_edges_def)
  ultimately show ?thesis
    by (simp add: validate_spec_def Inr Let_def gates_default_def default_max_energy_milli_def)
qed

text \<open>One accepted and one refused specification.\<close>

definition tiny_raw :: "(node \<times> node) list \<Rightarrow> TopologySpecJson" where
  "tiny_raw es = \<lparr> tj_nodes = [30, 10], tj_edges = es, tj_allowed_h_milli = [0], tj_allowed_j_milli = [- 1000, 1000],
     tj_allowed_spin_milli = [], tj_gates = None \<rparr>"

theorem topology_spec_exact_witness:
  "(\<exists>spec. validate_spec tiny_lib (tiny_raw [(30, 10)]) = Inr spec \<and> edge_pairs (sp_topology spec) = [(30, 10)]
      \<and> sp_max_energy_milli spec = i64_max \<and> sp_allowed_spin_milli spec = default_spin_set)
   \<and> validate_spec tiny_lib (tiny_raw [(30, 10), (30, 7)]) = Inl (EdgeUnknownNode 1 7)"
proof -
  have "\<exists>spec. validate_spec tiny_lib (tiny_raw [(30, 10)]) = Inr spec"
    "validate_spec tiny_lib (tiny_raw [(30, 10), (30, 7)]) = Inl (EdgeUnknownNode 1 7)"
    by (simp_all add: validate_spec_def tiny_raw_def)
  with topology_spec_exact [of "tiny_raw [(30, 10)]" tiny_lib] show ?thesis by (auto simp: tiny_raw_def)
qed

end
