(* ===== verification/Seed_Laws.thy ===== *)
theory Seed_Laws
  imports Seed Client_Laws Sources_Laws
begin

text \<open>
  What seeding and the keystore promise. Over a node that answers truthfully, a reported seed is on the chain;
  a chain that has a default topology is never touched; a keystore that was written loads as the seed it was
  drawn from; and no error of the loader repeats what it was given as a key.
\<close>

subsection \<open>Seeding\<close>

lemma default_topology_honest:
  assumes "honest N ch" "default_topology N c = Some (Inr r, c')"
  shows "\<exists>b. (case ch_storage ch b (default_topology_storage_key (nt_xxhash64 N)) of
            None \<Rightarrow> r = None | Some bs \<Rightarrow> \<exists>v. sd_hash (nt_scale N) bs = Inr v \<and> r = Some v)
         \<and> polled c c'"
  using assms(2)
  by (auto simp: default_topology_def head_hex_def io_Inr dest!: polled_rpc read_storage_honest [OF assms(1)]
      intro: polled_trans)

lemma confirm_default_polled:
  assumes h: "honest N ch" and r: "confirm_in_block N b want DefaultTopologySet c = Some (Inr (CallSuccess b' n), c')"
  shows "polled c c'"
  using h r
proof (rule confirm_in_block_steps)
  fix d d'
  assume d: "polled c d"
    "confirmation_present N b DefaultTopologySet d
      = Some (Inr (took_effect N ch (cl_participate_kind c) b DefaultTopologySet), d')"
    "(case classify_state_outcome (included_at N ch b want) (took_effect N ch (cl_participate_kind c) b DefaultTopologySet) of
         Won \<Rightarrow> bind_io (get_header N b) (\<lambda>number. pure_io (CallSuccess b number))
       | IncludedButNotWon \<Rightarrow>
           bind_io (explain_failure N b DefaultTopologySet) (\<lambda>(error, lost_race). pure_io (DispatchFailed error lost_race))
       | NotIncluded \<Rightarrow> pure_io (CallDropped (''extrinsic absent from block '' @ b))) d' = Some (Inr (CallSuccess b' n), c')"
  have "polled d d'" using d(2) by (auto simp: confirmation_present_def dest!: storage_value_present_honest [OF h])
  moreover have "polled d' c'"
    using d(3) by (auto simp: classify_state_outcome_def io_Inr split: if_splits dest!: get_header_honest [OF h])
  ultimately show ?thesis using d(1) by (blast intro: polled_trans)
qed

lemma polled_request: "polled (c\<lparr>cl_requests := n\<rparr>) d \<Longrightarrow> polled c d"
  unfolding polled_def by auto

lemma submit_default_polled:
  assumes "honest N ch" "submit_signed_call N call DefaultTopologySet c = Some (Inr (CallSuccess b n, h), c')"
  shows "polled c c'"
proof -
  obtain pair d ctx d1 url d2 ext where 1: "pair_io N c = Some (Inr pair, d)"
      "signed_extension_context N pair d = Some (Inr ctx, d1)" "primary_url d1 = Some (Inr url, d2)"
      "submit_and_watch N url ext DefaultTopologySet d2 = Some (Inr (CallSuccess b n), c')"
    using assms(2) by (auto simp: submit_signed_call_def io_Inr Let_def)
  then have "polled c d2"
    using signed_extension_context_polled [OF 1(2)] by (auto simp: pair_io_def primary_url_def io_Inr)
  moreover have "polled d2 c'"
    using 1(4) by (cases "nt_subscribe N (cl_requests d2) url (hex_encode ext)")
      (auto simp: submit_and_watch_def Let_def decided_def split: ChainError.splits
        dest!: watch_loop_decided confirm_default_polled [OF assms(1)] intro: polled_request)
  ultimately show ?thesis by (rule polled_trans)
qed

lemma seed_dispatch_landed:
  assumes "honest N ch" "seed_dispatch N call what confirmation c = Some (Inr block, c')"
  shows "call_landed N ch (cl_signer_key c) (cl_participate_kind c) call confirmation block
     \<and> (confirmation = DefaultTopologySet \<longrightarrow> polled c c')"
proof -
  obtain outcome hash d where s: "submit_signed_call N call confirmation c = Some (Inr (outcome, hash), d)"
    and o: "(case outcome of
         CallSuccess block _ \<Rightarrow> pure_io block
       | DispatchFailed error _ \<Rightarrow> fail_io (SubmitErr (what @ '' was included but the dispatch failed: '' @ error))
       | CallInvalid message \<Rightarrow> fail_io (SubmitErr (what @ '' was rejected by the transaction pool: '' @ message))
       | CallDropped message \<Rightarrow> fail_io (SubmitErr (what @ '' was dropped before inclusion: '' @ message))) d
       = Some (Inr block, c')"
    using assms(2) by (auto simp: seed_dispatch_def bind_io_Inr)
  from o obtain n where "outcome = CallSuccess block n" "d = c'"
    by (cases outcome) (auto simp: pure_io_Inr fail_io_Inr simp del: append_assoc)
  then have s: "submit_signed_call N call confirmation c = Some (Inr (CallSuccess block n, hash), c')" using s by simp
  have "call_landed N ch (cl_signer_key c) (cl_participate_kind c) call confirmation block"
    using submit_signed_call_honest [OF assms(1) s] submit_signed_call_hash [OF s]
    by (auto simp: call_landed_def outcome_agrees_def)
  moreover have "polled c c'" if "confirmation = DefaultTopologySet"
    using submit_default_polled [OF assms(1)] s that by blast
  ultimately show ?thesis by blast
qed

text \<open>
  C34. Over a node that answers truthfully, a reported seed is on the chain: some head had no default topology
  when the run began, the registration of exactly the given topology and then the difficulty of that topology were
  signed with the given key, included in the reported blocks and in effect there, and a later head stores as default
  topology the very hash this build computes for the graph, which is the hash reported. A chain that already has a
  default topology is refused after that one read, with nothing submitted.
\<close>
theorem seed_chain_sound:
  assumes h: "honest N ch"
  shows "(seed_chain N S params = Some (Inr report, c') \<longrightarrow>
      (let expected = seed_topology_hash S (sq_topology params);
           key = default_topology_storage_key (nt_xxhash64 N) in
       sv_topology_hash report = expected
       \<and> sv_nodes report = length (sd_nodes (sq_topology params)) \<and> sv_edges report = length (sd_edges (sq_topology params))
       \<and> (\<exists>b. ch_storage ch b key = None)
       \<and> (\<exists>b bs. ch_storage ch b key = Some bs \<and> sd_hash (nt_scale N) bs = Inr expected)
       \<and> call_landed N ch (sq_sudo_key params) MKCpu (encode_register_topology S (sq_topology params))
           DefaultTopologySet (sv_register_block report)
       \<and> call_landed N ch (sq_sudo_key params) MKCpu (encode_set_difficulty S expected (sq_difficulty params))
           (DifficultySet expected) (sv_difficulty_block report)))
    \<and> (default_topology N (new_client [sq_validator params] (sq_sudo_key params) MKCpu) = Some (Inr (Some existing), d) \<longrightarrow>
       (\<exists>m. seed_chain N S params = Some (Inl (SubmitErr m), d)))"
proof (intro conjI impI)
  let ?c = "new_client [sq_validator params] (sq_sudo_key params) MKCpu"
  let ?e = "seed_topology_hash S (sq_topology params)"
  assume "seed_chain N S params = Some (Inr report, c')"
  then obtain c1 block1 c2 c3 block2 where steps:
      "default_topology N ?c = Some (Inr None, c1)"
      "seed_dispatch N (encode_register_topology S (sq_topology params)) ''register_topology'' DefaultTopologySet c1
         = Some (Inr block1, c2)"
      "default_topology N c2 = Some (Inr (Some ?e), c3)"
      "seed_dispatch N (encode_set_difficulty S ?e (sq_difficulty params)) ''set_difficulty'' (DifficultySet ?e) c3
         = Some (Inr block2, c')"
    and rep: "report = \<lparr> sv_topology_hash = ?e, sv_nodes = length (sd_nodes (sq_topology params)),
                sv_edges = length (sd_edges (sq_topology params)), sv_register_block = block1, sv_difficulty_block = block2 \<rparr>"
    by (auto simp: seed_chain_def seed_steps_def io_Inr Let_def simp del: append_Cons append_assoc
        split: option.splits if_splits)
  from default_topology_honest [OF h steps(1)] have p1: "polled ?c c1"
    and n1: "\<exists>b. ch_storage ch b (default_topology_storage_key (nt_xxhash64 N)) = None"
    by (auto split: option.splits)
  from seed_dispatch_landed [OF h steps(2)] have l1: "call_landed N ch (cl_signer_key c1) (cl_participate_kind c1)
      (encode_register_topology S (sq_topology params)) DefaultTopologySet block1" and p2: "polled c1 c2" by auto
  from default_topology_honest [OF h steps(3)] have p3: "polled c2 c3"
    and n2: "\<exists>b bs. ch_storage ch b (default_topology_storage_key (nt_xxhash64 N)) = Some bs \<and> sd_hash (nt_scale N) bs = Inr ?e"
    by (auto split: option.splits)
  from seed_dispatch_landed [OF h steps(4)] have l2: "call_landed N ch (cl_signer_key c3) (cl_participate_kind c3)
      (encode_set_difficulty S ?e (sq_difficulty params)) (DifficultySet ?e) block2" by blast
  have "polled ?c c3" using p1 p2 p3 by (blast intro: polled_trans)
  with p1 have "cl_signer_key c1 = sq_sudo_key params" "cl_participate_kind c1 = MKCpu"
    "cl_signer_key c3 = sq_sudo_key params" "cl_participate_kind c3 = MKCpu"
    using polledD(2,7) [of ?c c1] polledD(2,7) [of ?c c3] by (simp_all add: new_client_def)
  with rep n1 n2 l1 l2 show "let expected = ?e; key = default_topology_storage_key (nt_xxhash64 N) in
       sv_topology_hash report = expected
       \<and> sv_nodes report = length (sd_nodes (sq_topology params)) \<and> sv_edges report = length (sd_edges (sq_topology params))
       \<and> (\<exists>b. ch_storage ch b key = None)
       \<and> (\<exists>b bs. ch_storage ch b key = Some bs \<and> sd_hash (nt_scale N) bs = Inr expected)
       \<and> call_landed N ch (sq_sudo_key params) MKCpu (encode_register_topology S (sq_topology params))
           DefaultTopologySet (sv_register_block report)
       \<and> call_landed N ch (sq_sudo_key params) MKCpu (encode_set_difficulty S expected (sq_difficulty params))
           (DifficultySet expected) (sv_difficulty_block report)"
    by (simp add: Let_def)
next
  assume "default_topology N (new_client [sq_validator params] (sq_sudo_key params) MKCpu) = Some (Inr (Some existing), d)"
  then show "\<exists>m. seed_chain N S params = Some (Inl (SubmitErr m), d)"
    by (simp add: seed_chain_def seed_steps_def bind_io_def fail_io_def)
qed

definition seed_codec :: SeedCodec where
  "seed_codec = \<lparr> sc_topology_args = \<lambda>_. [], sc_difficulty = \<lambda>_. [], sc_hash_sets = \<lambda>_ _ _ _ _. zeros \<rparr>"

definition seed_params :: SeedParams where
  "seed_params = \<lparr> sq_validator = ''ws://node'', sq_sudo_key = ''//Alice'', sq_topology = seed_from_spec tiny_spec,
     sq_difficulty = DEFAULT_SEED_DIFFICULTY \<rparr>"

lemma seed_default:
  assumes "cl_validators c = [''ws://node'']"
  shows "default_topology seed_net c = Some (Inr (if cl_requests c = 0 then None else Some zeros),
     c\<lparr>cl_reachable := Some True, cl_requests := cl_requests c + 2\<rparr>)"
  using assms
  by (simp add: default_topology_def head_hex_def read_storage_def get_storage_def bind_io_def need_def lift_io_def pure_io_def
      decode_hex_def decode_scale_def map_err_def seed_rpc seed_request_def small_request_def small_scale_def hex_is_not_old)

lemma seed_runs:
  "\<exists>report c'. seed_chain seed_net seed_codec seed_params = Some (Inr report, c')"
  by (simp add: seed_chain_def seed_steps_def seed_dispatch_def bind_io_def pure_io_def need_def lift_io_def
      seed_default seed_call new_client_def seed_params_def seed_topology_hash_def seed_codec_def)

theorem seed_chain_sound_witness:
  "\<exists>report c'. seed_chain seed_net seed_codec seed_params = Some (Inr report, c')
     \<and> sv_topology_hash report = zeros
     \<and> call_landed seed_net seeded_chain ''//Alice'' MKCpu (encode_register_topology seed_codec (seed_from_spec tiny_spec))
         DefaultTopologySet (sv_register_block report)"
proof -
  obtain report c' where r: "seed_chain seed_net seed_codec seed_params = Some (Inr report, c')" using seed_runs by blast
  with seed_chain_sound [OF seed_honest, of seed_codec seed_params report c'] show ?thesis
    by (auto simp: Let_def seed_topology_hash_def seed_codec_def seed_params_def)
qed

subsection \<open>Keys\<close>

lemma decode_pairs_hexdigits:
  "even (length s) \<Longrightarrow> list_all is_ascii_hexdigit s \<Longrightarrow> \<exists>bs. decode_pairs s = Inr bs \<and> length bs = length s div 2"
proof (induction s rule: decode_pairs.induct)
  case (1 high low rest)
  from 1(3) obtain h l where d: "decode_nibble high = Inr h" "decode_nibble low = Inr l"
    by (auto simp: is_ascii_hexdigit_def split: sum.splits)
  with 1 obtain bs where "decode_pairs rest = Inr bs" "length bs = length rest div 2" by auto
  with d show ?case by simp
qed simp_all

lemma x_is_no_digit: "\<not> is_ascii_hexdigit (CHR ''x'')"
  by (simp add: is_ascii_hexdigit_def decode_nibble_def)

lemma hex_decode_digits:
  assumes "list_all is_ascii_hexdigit s" "length s = 64"
  shows "\<exists>bs. hex_decode s = Inr bs \<and> length bs = 32"
proof -
  have "strip_0x s = s"
  proof (cases "take 2 s = ''0x''")
    case True
    then have "s ! 1 = CHR ''x''" using assms(2) nth_take [of 1 2 s] by simp
    moreover have "is_ascii_hexdigit (s ! 1)" using assms by (simp add: list_all_length)
    ultimately show ?thesis using x_is_no_digit by simp
  qed (simp add: strip_0x_def)
  moreover have "\<exists>bs. decode_pairs s = Inr bs \<and> length bs = length s div 2"
    by (rule decode_pairs_hexdigits) (use assms in simp_all)
  ultimately show ?thesis using assms(2) by (auto simp: hex_decode_def)
qed

lemma hex_decode_seed: "hex_decode (seed_to_hex seed) = Inr seed"
proof -
  have "seed_to_hex seed = hex_plain seed" by (simp add: seed_to_hex_def hex_plain_def)
  moreover have "strip_0x (hex_plain seed) = hex_plain seed"
  proof (cases "take 2 (hex_plain seed) = ''0x''")
    case True
    then have "CHR ''x'' \<in> set (hex_plain seed)" by (metis in_set_takeD list.set_intros)
    then obtain n where "n < 16" "CHR ''x'' = hex_digit n" using hex_plain_chars by blast
    then have "is_ascii_hexdigit (CHR ''x'')" by (simp add: is_ascii_hexdigit_def decode_hex_digit)
    with x_is_no_digit show ?thesis by simp
  qed (simp add: strip_0x_def)
  moreover have "hex_decode (hex_encode seed) = Inr seed" by simp
  moreover have "strip_0x (hex_encode seed) = hex_plain seed" by (simp add: strip_0x_def hex_encode_def)
  ultimately show ?thesis by (simp add: hex_decode_def)
qed

text \<open>
  What is relied on of the JSON decoder, from the grammar of JSON alone: an object with a single string member, written
  without spaces, reads as that object, for every key and value of printable ASCII characters that need no
  escape, and white space after the object is ignored.
\<close>

abbreviation json_quote :: char where
  "json_quote \<equiv> CHR 0x22"

definition plain_json_char :: "char \<Rightarrow> bool" where
  "plain_json_char c \<longleftrightarrow> 32 \<le> (of_char c :: nat) \<and> of_char c < (127 :: nat) \<and> c \<noteq> json_quote \<and> c \<noteq> CHR 0x5C"

definition json_space :: "char \<Rightarrow> bool" where
  "json_space c \<longleftrightarrow> c \<in> {CHR 0x20, CHR 0x0A, CHR 0x0D, CHR 0x09}"

definition one_member :: "string \<Rightarrow> string \<Rightarrow> string" where
  "one_member k v = CHR 0x7B # json_quote # k @ json_quote # CHR 0x3A # json_quote # v @ [json_quote, CHR 0x7D]"

definition reads_one_member :: "(string \<Rightarrow> string + json) \<Rightarrow> bool" where
  "reads_one_member dec \<longleftrightarrow>
     (\<forall>k v ws. list_all plain_json_char k \<and> list_all plain_json_char v \<and> list_all json_space ws
        \<longrightarrow> dec (one_member k v @ ws) = Inr (JObj [(k, JStr v)]))"

lemma keystore_body_member:
  "keystore_body seed = one_member ''master_seed_hex'' (seed_to_hex seed) @ [CHR 0x0A]"
  by (simp add: keystore_body_def one_member_def)

lemma hex_digit_plain:
  assumes "n < 16"
  shows "plain_json_char (hex_digit n)"
proof -
  have "hex_digit n \<in> set ''0123456789abcdef''"
    unfolding hex_digit_def by (intro nth_mem) (use assms in simp)
  moreover have "list_all plain_json_char ''0123456789abcdef''" by (simp add: plain_json_char_def)
  ultimately show ?thesis by (simp only: list_all_iff)
qed

lemma seed_hex_plain: "list_all plain_json_char (seed_to_hex seed)"
proof -
  have "seed_to_hex seed = hex_plain seed" by (simp add: seed_to_hex_def hex_plain_def)
  then show ?thesis using hex_plain_chars hex_digit_plain by (fastforce simp: list_all_iff)
qed

lemma keystore_body_reads:
  assumes "reads_one_member dec"
  shows "dec (keystore_body seed) = Inr (JObj [(''master_seed_hex'', JStr (seed_to_hex seed))])"
proof -
  have "list_all plain_json_char ''master_seed_hex''" "list_all json_space [CHR 0x0A]"
    by (simp_all add: plain_json_char_def json_space_def)
  with assms seed_hex_plain show ?thesis
    unfolding reads_one_member_def keystore_body_member by blast
qed

text \<open>
  C35. A keystore round trip. Key generation reports success over a file system whose successful writes have stored
  every byte; the file it leaves is then read by the loader with any JSON decoder that reads one-member objects as the
  JSON grammar says. The loader derives the pair of the seed that was drawn. A target that exists, or that appears
  before the exclusive creation, is never written.
\<close>
theorem keystore_roundtrip:
  "(kf_random fs = Inr seed \<longrightarrow> length seed = 32
      \<longrightarrow> (\<forall>b. snd (kf_write fs b) = Inr () \<longrightarrow> fst (kf_write fs b) = b)
      \<longrightarrow> write_keystore fs = (Inr (), Some body) \<longrightarrow> kl_file K path = Some (Inr body)
      \<longrightarrow> reads_one_member (kl_json K)
      \<longrightarrow> load_hybrid_pair K path = Inr (kl_from_seed K seed))
   \<and> (kf_exists fs \<or> (\<exists>e. kf_create_new fs = Inl e) \<longrightarrow> snd (write_keystore fs) = None \<and> run_keygen_cli fs = ConfigInvalid)"
proof (intro conjI impI)
  assume a: "kf_random fs = Inr seed" "length seed = 32"
    "\<forall>b. snd (kf_write fs b) = Inr () \<longrightarrow> fst (kf_write fs b) = b"
    "write_keystore fs = (Inr (), Some body)" "kl_file K path = Some (Inr body)"
    "reads_one_member (kl_json K)"
  then have "kf_write fs (keystore_body seed) = (body, Inr ())"
    by (auto simp: write_keystore_def Let_def split: if_splits sum.splits prod.splits OpenFailure.splits)
  with a(3) have "body = keystore_body seed" by (metis fst_conv snd_conv)
  with a keystore_body_reads [OF a(6), of seed] show "load_hybrid_pair K path = Inr (kl_from_seed K seed)"
    by (simp add: load_hybrid_pair_def load_keystore_def hex_decode_seed)
qed (auto simp: write_keystore_def run_keygen_cli_def split: sum.splits OpenFailure.splits)

text \<open>
  The loader never repeats a key in an error. For signer material that names no file, a sixty-four digit
  hexadecimal text, with or without its prefix, always loads as that seed, and every refusal is one of six fixed
  sentences, whatever the material is.
\<close>
theorem signer_errors_are_fixed:
  assumes "kl_file K key = None"
  shows "(length (strip_0x key) = 64 \<and> list_all is_ascii_hexdigit (strip_0x key) \<longrightarrow>
      (\<exists>seed. hex_decode (strip_0x key) = Inr seed \<and> length seed = 32 \<and> load_hybrid_pair K key = Inr (kl_from_seed K seed)))
    \<and> (load_hybrid_pair K key = Inl e \<longrightarrow>
      e \<in> signer_refused ` {''invalid format'', ''invalid phrase'', ''invalid password'', ''invalid seed'', ''invalid seed length'', ''invalid path''})"
proof -
  have seed: "\<exists>seed. hex_decode (strip_0x key) = Inr seed \<and> length seed = 32 \<and> load_hybrid_pair K key = Inr (kl_from_seed K seed)"
    if "length (strip_0x key) = 64" "list_all is_ascii_hexdigit (strip_0x key)"
    using hex_decode_digits [OF that(2,1)] that assms by (auto simp: load_hybrid_pair_def map_err_def)
  moreover have "e \<in> signer_refused ` {''invalid format'', ''invalid phrase'', ''invalid password'', ''invalid seed'', ''invalid seed length'', ''invalid path''}"
    if "load_hybrid_pair K key = Inl e"
  proof -
    have "\<not> (length (strip_0x key) = 64 \<and> list_all is_ascii_hexdigit (strip_0x key))" using that seed by auto
    then have "map_err (\<lambda>error. signer_refused (secret_uri_error_kind error)) (kl_from_string K key) = Inl e"
      using that assms by (auto simp: load_hybrid_pair_def Let_def split: if_splits)
    then obtain error where "e = signer_refused (secret_uri_error_kind error)"
      by (cases "kl_from_string K key") (auto simp: map_err_def)
    then show ?thesis by (cases error) simp_all
  qed
  ultimately show ?thesis by blast
qed

text \<open>A reader of one-member objects, which satisfies the law assumed of the decoder.\<close>

definition read_member :: "string \<Rightarrow> string + json" where
  "read_member t =
     (if take 2 t \<noteq> [CHR 0x7B, json_quote] then Inl ''expected an object''
      else let k = takeWhile (\<lambda>c. c \<noteq> json_quote) (drop 2 t);
               r = dropWhile (\<lambda>c. c \<noteq> json_quote) (drop 2 t)
           in if take 3 r \<noteq> [json_quote, CHR 0x3A, json_quote] then Inl ''expected a string member''
           else let v = takeWhile (\<lambda>c. c \<noteq> json_quote) (drop 3 r);
                    e = dropWhile (\<lambda>c. c \<noteq> json_quote) (drop 3 r)
                in if take 2 e \<noteq> [json_quote, CHR 0x7D] then Inl ''expected the end of the object''
                else if list_all json_space (drop 2 e) then Inr (JObj [(k, JStr v)])
                else Inl ''trailing characters'')"

lemma until_quote:
  "list_all plain_json_char k \<Longrightarrow> takeWhile (\<lambda>c. c \<noteq> json_quote) (k @ json_quote # r) = k"
  "list_all plain_json_char k \<Longrightarrow> dropWhile (\<lambda>c. c \<noteq> json_quote) (k @ json_quote # r) = json_quote # r"
  by (induction k) (auto simp: plain_json_char_def)

lemma read_member_law: "reads_one_member read_member"
  by (simp add: reads_one_member_def read_member_def one_member_def until_quote Let_def)

definition sample_keys :: "bytes KeyLib" where
  "sample_keys = \<lparr> kl_file = \<lambda>p. if p = ''k.json'' then Some (Inr (keystore_body (replicate 32 7))) else None,
     kl_json = read_member, kl_from_seed = \<lambda>s. s, kl_from_string = \<lambda>s. Inl InvalidPhrase \<rparr>"

definition sample_fs :: KeyFs where
  "sample_fs = \<lparr> kf_exists = False, kf_has_parent = False, kf_create_dirs = Inr (), kf_random = Inr (replicate 32 7),
     kf_create_new = Inr (), kf_write = \<lambda>b. (b, Inr ()), kf_sync = Inr () \<rparr>"

theorem keystore_roundtrip_witness:
  "write_keystore sample_fs = (Inr (), Some (keystore_body (replicate 32 7)))
   \<and> load_hybrid_pair sample_keys ''k.json'' = Inr (replicate 32 7)"
proof -
  have w: "write_keystore sample_fs = (Inr (), Some (keystore_body (replicate 32 7)))"
    by (simp add: sample_fs_def write_keystore_def)
  have "reads_one_member (kl_json sample_keys)" by (simp add: sample_keys_def read_member_law)
  with w show ?thesis
    using keystore_roundtrip [of sample_fs "replicate 32 7" "keystore_body (replicate 32 7)" sample_keys "''k.json''"]
    by (simp add: sample_fs_def sample_keys_def)
qed

theorem signer_errors_are_fixed_witness:
  "load_hybrid_pair sample_keys ''secret words'' =
     Inl (signer_refused ''invalid phrase'')
   \<and> ''invalid phrase'' \<in> {''invalid format'', ''invalid phrase'', ''invalid password'', ''invalid seed'', ''invalid seed length'', ''invalid path''}"
proof -
  have e: "load_hybrid_pair sample_keys ''secret words'' =
     Inl (signer_refused ''invalid phrase'')"
    by (simp add: load_hybrid_pair_def sample_keys_def strip_0x_def map_err_def)
  have "kl_file sample_keys ''secret words'' = None" by (simp add: sample_keys_def)
  from signer_errors_are_fixed [OF this] e show ?thesis by blast
qed

end
