(* ===== verification/Mock.thy ===== *)
theory Mock
  imports Session Startup Float64
begin

text \<open>
  \<open>quip-mock-miner/src/main.rs\<close>: the reference miner that answers every read with all spins up. The session loop
  is a function of the messages that arrive, each with the wall clock at its arrival and whether the outbound
  channel still takes replies. The protocol crate (handshake, codecs, energies, lease specification, draw,
  target test) is a parameter.
\<close>

subsection \<open>External code\<close>

record LeaseSpec =
  lx_salt_count :: nat
  lx_salt :: "nat \<Rightarrow> bytes option"
  lx_nonce :: "nat \<Rightarrow> bytes option"

record 'view MinerLib =
  ml_build_hello :: "string \<Rightarrow> Capabilities \<Rightarrow> ExitCode + Hello"
  ml_check_welcome :: "nat \<Rightarrow> (ExitCode \<times> string) option"
  ml_idle_timeout_s :: "string \<Rightarrow> Configure \<Rightarrow> nat"
  ml_exit_number :: "ExitCode \<Rightarrow> nat"
  ml_protocol_version :: nat
  ml_backend_mock :: int
  ml_algorithm_sa :: int
  ml_decode_i32 :: "bytes \<Rightarrow> string + int list"
  ml_encode_spins :: "int list \<Rightarrow> bytes"
  ml_energy :: "int list \<Rightarrow> f64 list \<Rightarrow> f64 list \<Rightarrow> (nat \<times> nat) list \<Rightarrow> int"
  ml_lease_spec :: "IsingProblemGenerator \<Rightarrow> LeaseSpec option"
  ml_view :: "ProtoTopology \<Rightarrow> 'view option"
  ml_num_nodes :: "'view \<Rightarrow> nat"
  ml_view_edges :: "'view \<Rightarrow> (nat \<times> nat) list"
  ml_draw :: "'view \<Rightarrow> bytes \<Rightarrow> (int list \<times> int list) option"
  ml_energy_from_milli :: "int list \<Rightarrow> int list \<Rightarrow> int list \<Rightarrow> (nat \<times> nat) list \<Rightarrow> int"
  ml_target :: "SetTarget \<Rightarrow> Target"
  ml_meets_target :: "(int list \<times> int) list \<Rightarrow> Target \<Rightarrow> bool"

subsection \<open>Messages\<close>

definition mock_capabilities :: "'view MinerLib \<Rightarrow> Capabilities" where
  "mock_capabilities L =
     \<lparr> cp_protocol_version = ml_protocol_version L, cp_backend = ml_backend_mock L, cp_algorithm = ml_algorithm_sa L,
       cp_supported_kinds = [IsingSample, IsingGenerate], cp_max_nodes = 100000, cp_max_edges = 1000000,
       cp_max_degree = None, cp_native_topology_hash = None, cp_features = [], cp_generators = [Blake3Chacha8V1],
       cp_stream_width = 1 \<rparr>"

definition mock_status_msg :: MinerMsg where
  "mock_status_msg = StatusMsg 0 []"

definition fatal_msg :: "'view MinerLib \<Rightarrow> ExitCode \<Rightarrow> string \<Rightarrow> MinerMsg" where
  "fatal_msg L code reason = Fatal (ml_exit_number L code) reason"

definition decode_milli_f64 :: "'view MinerLib \<Rightarrow> bytes \<Rightarrow> string + f64 list" where
  "decode_milli_f64 L bs = map_sum id (map (\<lambda>v. f_div (f_of_int v) (Fin 1000))) (ml_decode_i32 L bs)"

subsection \<open>The session topology\<close>

record SessionTopo =
  so_hash :: bytes
  so_edges :: "(node \<times> node) list"
  so_pos :: "(node, nat) hmap"

text \<open>A wire topology without an edge list is one with empty lists.\<close>

definition session_topo :: "ProtoTopology \<Rightarrow> SessionTopo" where
  "session_topo t =
     \<lparr> so_hash = pt_hash t, so_edges = zip (fst (pt_edges t)) (snd (pt_edges t)),
       so_pos = fold (\<lambda>(i, n). hm_insert n i) (enumerate 0 (pt_nodes t)) [] \<rparr>"

fun topo_positions :: "(node, nat) hmap \<Rightarrow> (node \<times> node) list \<Rightarrow> RejectReason + (nat \<times> nat) list" where
  "topo_positions pos [] = Inr []"
| "topo_positions pos ((u, v) # es) =
     (case (hm_get pos u, hm_get pos v) of
        (Some pu, Some pv) \<Rightarrow> map_sum id (Cons (pu, pv)) (topo_positions pos es)
      | _ \<Rightarrow> Inl MalformedJob)"

definition resolve_edges :: "IsingProblem \<Rightarrow> SessionTopo option \<Rightarrow> RejectReason + (nat \<times> nat) list" where
  "resolve_edges ising topo =
     (case ip_graph ising of
        Some (Edges eu ev) \<Rightarrow> Inr (map (\<lambda>(u, v). (unat u, unat v)) (zip eu ev))
      | Some (TopologyHash h) \<Rightarrow>
          (case topo of
             None \<Rightarrow> Inl TopologyMissing
           | Some topo \<Rightarrow>
               if h \<noteq> so_hash topo then Inl TopologyMismatch else topo_positions (so_pos topo) (so_edges topo))
      | None \<Rightarrow> Inr [])"

subsection \<open>Jobs\<close>

definition reject_and_replace :: "bytes \<Rightarrow> RejectReason \<Rightarrow> MinerMsg list" where
  "reject_and_replace job_id reason = [Reject job_id reason, JobRequest 1]"

text \<open>The zero value of the message; its scale of 0 is refused whatever its encoding.\<close>

definition ising_default :: IsingProblem where
  "ising_default = \<lparr> ip_graph = None, ip_encoding = EncOther 0, ip_scale = 0, ip_h = [], ip_j = [], ip_num_reads = 0 \<rparr>"

definition mock_job :: "'view MinerLib \<Rightarrow> nat \<Rightarrow> Job \<Rightarrow> SessionTopo option \<Rightarrow> MinerMsg list" where
  "mock_job L now job topo =
     (let job_id = jb_job_id job;
          ising = (case jb_ising job of None \<Rightarrow> ising_default | Some p \<Rightarrow> p) in
      if jb_kind job \<noteq> IsingSample then reject_and_replace job_id UnsupportedKind
      else if ip_encoding ising \<noteq> EncI32 \<or> ip_scale ising \<noteq> 1000 then reject_and_replace job_id MalformedJob
      else case decode_milli_f64 L (ip_h ising) of
             Inl _ \<Rightarrow> reject_and_replace job_id MalformedJob
           | Inr h \<Rightarrow>
      (case decode_milli_f64 L (ip_j ising) of
         Inl _ \<Rightarrow> reject_and_replace job_id MalformedJob
       | Inr j \<Rightarrow>
           if jb_deadline_ms job \<noteq> 0 \<and> jb_deadline_ms job < now then reject_and_replace job_id ExpiredJob
           else case resolve_edges ising topo of
                  Inl reason \<Rightarrow> reject_and_replace job_id reason
                | Inr edges \<Rightarrow>
                    let n = length h in
                    if list_ex (\<lambda>(u, v). u \<ge> n \<or> v \<ge> n) edges then reject_and_replace job_id MalformedJob
                    else let spins = replicate n 1 in
                      [ResultMsg \<lparr> rr_job_id = job_id,
                         rr_solutions = [\<lparr> sl_spins = ml_encode_spins L spins, sl_energy_milli = ml_energy L spins h j edges \<rparr>],
                         rr_meta = Some \<lparr> sm_device_access_time_us = 0, sm_reads = 1, sm_sweeps = 0 \<rparr>,
                         rr_salt = [], rr_nonce = [] \<rparr>,
                       JobRequest 1]))"

text \<open>The salts of a lease from index \<open>i\<close> on: \<open>None\<close> when a draw fails, else the winners, the number done and the best energy.\<close>

function lease_salts ::
  "'view MinerLib \<Rightarrow> bytes \<Rightarrow> LeaseSpec \<Rightarrow> 'view \<Rightarrow> Target \<Rightarrow> nat \<Rightarrow> MinerMsg list \<Rightarrow> nat \<Rightarrow> int
    \<Rightarrow> (MinerMsg list \<times> nat \<times> int) option" where
  "lease_salts L job_id spec view target i out finished best =
     (if i \<ge> lx_salt_count spec then Some (out, finished, best)
      else case (lx_salt spec i, lx_nonce spec i) of
             (Some salt, Some nonce) \<Rightarrow>
               (case ml_draw L view nonce of
                  None \<Rightarrow> None
                | Some (h, j) \<Rightarrow>
                    let spins = replicate (ml_num_nodes L view) 1;
                        energy = ml_energy_from_milli L spins h j (ml_view_edges L view);
                        out = (if ml_meets_target L [(spins, energy)] target
                               then out @ [ResultMsg \<lparr> rr_job_id = job_id,
                                      rr_solutions = [\<lparr> sl_spins = ml_encode_spins L spins, sl_energy_milli = energy \<rparr>],
                                      rr_meta = Some \<lparr> sm_device_access_time_us = 0, sm_reads = 1, sm_sweeps = 0 \<rparr>,
                                      rr_salt = salt, rr_nonce = nonce \<rparr>]
                               else out)
                    in lease_salts L job_id spec view target (Suc i) out (finished + 1) (min best energy))
           | _ \<Rightarrow> Some (out, finished, best))"
  by pat_completeness auto

termination lease_salts
  by (relation "measure (\<lambda>(L, job_id, spec, view, target, i, rest). lx_salt_count spec - i)") auto

declare lease_salts.simps [simp del]

definition mock_lease :: "'view MinerLib \<Rightarrow> Job \<Rightarrow> ProtoTopology option \<Rightarrow> SetTarget option \<Rightarrow> MinerMsg list" where
  "mock_lease L job topo target =
     (let job_id = jb_job_id job in
      case (case target of None \<Rightarrow> None | Some t \<Rightarrow> if tg_max_proof_solutions t > 0 then Some t else None) of
        None \<Rightarrow> reject_and_replace job_id TargetMissing
      | Some target \<Rightarrow>
     (case topo of
        None \<Rightarrow> reject_and_replace job_id TopologyMissing
      | Some topo \<Rightarrow>
     (case Option.bind (jb_generator job) (ml_lease_spec L) of
        None \<Rightarrow> reject_and_replace job_id MalformedJob
      | Some spec \<Rightarrow>
          if (case jb_generator job of None \<Rightarrow> False | Some g \<Rightarrow> gn_topology_hash g \<noteq> pt_hash topo)
          then reject_and_replace job_id TopologyMismatch
          else case ml_view L topo of
                 None \<Rightarrow> reject_and_replace job_id MalformedJob
               | Some view \<Rightarrow>
                   (case lease_salts L job_id spec view (ml_target L target) 0 [] 0 i64_max of
                      None \<Rightarrow> reject_and_replace job_id MalformedJob
                    | Some (out, finished, best) \<Rightarrow>
                        out @ [LeaseDoneMsg \<lparr> ld_job_id = job_id, ld_salts_done = finished, ld_best_energy_milli = best \<rparr>,
                               JobRequest 1]))))"

subsection \<open>The session loop\<close>

datatype Inbound =
    Coord CoordMsg
  | CancelIn
  | PingIn
  | GetCapabilitiesIn
  | ShutdownIn nat
  | EmptyIn

record MockSession =
  mk_idle_timeout_s :: "nat option"
  mk_grace_ms :: nat
  mk_topo :: "SessionTopo option"
  mk_raw_topo :: "ProtoTopology option"
  mk_target :: "SetTarget option"

definition mock_start :: MockSession where
  "mock_start = \<lparr> mk_idle_timeout_s = None, mk_grace_ms = 5000, mk_topo = None, mk_raw_topo = None, mk_target = None \<rparr>"

definition mock_idle_s :: "MockSession \<Rightarrow> nat" where
  "mock_idle_s s = (case mk_idle_timeout_s s of None \<Rightarrow> 300 | Some t \<Rightarrow> t)"

text \<open>A turn goes on with the replies to send, breaks out of the loop, or breaks out after a refused welcome.\<close>

datatype Turn = Reply "MinerMsg list" MockSession | Leave MockSession | Refuse ExitCode string

definition mock_message :: "'view MinerLib \<Rightarrow> string \<Rightarrow> nat \<Rightarrow> Inbound \<Rightarrow> MockSession \<Rightarrow> Turn" where
  "mock_message L miner_id now msg s =
     (case msg of
        Coord (Welcome w) \<Rightarrow>
          (case ml_check_welcome L w of None \<Rightarrow> Reply [] s | Some (code, reason) \<Rightarrow> Refuse code reason)
      | Coord (ConfigureMsg c) \<Rightarrow> Reply [Ready] (s\<lparr>mk_idle_timeout_s := Some (ml_idle_timeout_s L miner_id c)\<rparr>)
      | Coord (TopologyMsg t) \<Rightarrow> Reply [] (s\<lparr>mk_topo := Some (session_topo t), mk_raw_topo := Some t\<rparr>)
      | Coord (SetTargetMsg t) \<Rightarrow> Reply [] (s\<lparr>mk_target := Some t\<rparr>)
      | Coord (JobMsg job) \<Rightarrow>
          Reply (if jb_kind job = IsingGenerate then mock_lease L job (mk_raw_topo s) (mk_target s)
                 else mock_job L now job (mk_topo s)) s
      | CancelIn \<Rightarrow> Reply [mock_status_msg] s
      | PingIn \<Rightarrow> Reply [mock_status_msg] s
      | GetCapabilitiesIn \<Rightarrow> Reply [CapabilitiesMsg (mock_capabilities L)] s
      | ShutdownIn grace \<Rightarrow> Leave (s\<lparr>mk_grace_ms := (if grace = 0 then 5000 else grace)\<rparr>)
      | EmptyIn \<Rightarrow> Reply [] s)"

text \<open>
  What the loop waits for: a message, with the clock and whether replies can still be sent; the idle timeout or
  the end of the stream; an error of the stream.
\<close>

datatype MockEvent = Arrives nat bool Inbound | Quiet | StreamError

text \<open>
  The messages sent and how the session ended: with its exit code and the time the drain may take, or not yet.
\<close>

fun mock_loop ::
  "'view MinerLib \<Rightarrow> string \<Rightarrow> MockEvent list \<Rightarrow> MockSession \<Rightarrow> MinerMsg list \<times> (ExitCode \<times> nat) option" where
  "mock_loop L miner_id [] s = ([], None)"
| "mock_loop L miner_id (Quiet # evs) s = ([], Some (Clean, mk_grace_ms s))"
| "mock_loop L miner_id (StreamError # evs) s = ([], Some (InternalFatal, 0))"
| "mock_loop L miner_id (Arrives now tx_open msg # evs) s =
     (case mock_message L miner_id now msg s of
        Reply replies s' \<Rightarrow>
          if replies \<noteq> [] \<and> \<not> tx_open then ([], Some (InternalFatal, 0))
          else let (sent, stop) = mock_loop L miner_id evs s' in (replies @ sent, stop)
      | Leave s' \<Rightarrow> ([], Some (Clean, mk_grace_ms s'))
      | Refuse code reason \<Rightarrow> (if tx_open then [fatal_msg L code reason] else [], Some (code, mk_grace_ms s)))"

text \<open>The whole session; \<open>connects\<close> is whether the socket connects, takes the hello and opens the stream.\<close>

definition mock_session ::
  "'view MinerLib \<Rightarrow> string \<Rightarrow> bool \<Rightarrow> MockEvent list \<Rightarrow> MinerMsg list \<times> (ExitCode \<times> nat) option" where
  "mock_session L miner_id connects evs =
     (case ml_build_hello L miner_id (mock_capabilities L) of
        Inl code \<Rightarrow> ([], Some (code, 0))
      | Inr hello \<Rightarrow>
          if \<not> connects then ([], Some (InternalFatal, 0))
          else let (sent, stop) = mock_loop L miner_id evs mock_start in (HelloMsg hello # sent, stop))"

record MockCli =
  ck_quip_coordinator :: "string option"
  ck_miner_id :: "string option"
  ck_capabilities :: bool
  ck_check :: bool

definition mock_run ::
  "'view MinerLib \<Rightarrow> MockCli \<Rightarrow> bool \<Rightarrow> MockEvent list \<Rightarrow> MinerMsg list \<times> (ExitCode \<times> nat) option" where
  "mock_run L cli connects evs =
     (if ck_capabilities cli \<or> ck_check cli then ([], Some (Clean, 0))
      else case ck_quip_coordinator cli of
             None \<Rightarrow> ([], Some (ConfigInvalid, 0))
           | Some uri \<Rightarrow>
               mock_session L (case ck_miner_id cli of None \<Rightarrow> ''mock-0'' | Some i \<Rightarrow> i) connects evs)"

end
