(* ===== verification/Drive.thy ===== *)
theory Drive
  imports Sources Session Startup Feeder
begin

text \<open>
  \<open>drive/harness.rs\<close>, \<open>drive/report.rs\<close> and the drive command of \<open>main.rs\<close>: an offline run that stages every
  job of a source, drives one miner through the session protocol and scores each terminal outcome as a row.
  Each handler is one section of code that runs under the state lock. A session is the message loop, the
  dispatcher task that serves queued credit grants, and one task per plain result that first takes the job and later
  records its row; \<open>drive_event\<close> runs one section of one of these, and the tasks may interleave in any order. The
  monotonic clock, in milliseconds, is an argument of each section, so it does not advance within one. Row counters wrap at
  their width, as a release build does.
\<close>

subsection \<open>Rows\<close>

record JobRow =
  rw_job_id :: bytes
  rw_is_pow :: bool
  rw_n_solutions :: nat
  rw_best_energy_milli :: int
  rw_raw_best_energy_milli :: int
  rw_diversity_milli :: nat
  rw_passed :: bool
  rw_device_access_time_us :: nat
  rw_wall_ms :: nat
  rw_reads :: nat
  rw_sweeps :: nat
  rw_rejected :: bool
  rw_salts_done :: nat
  rw_winners :: nat

definition failing_row :: "bytes \<Rightarrow> bool \<Rightarrow> nat \<Rightarrow> JobRow" where
  "failing_row job_id is_pow wall_ms =
     \<lparr> rw_job_id = job_id, rw_is_pow = is_pow, rw_n_solutions = 0, rw_best_energy_milli = i64_max,
       rw_raw_best_energy_milli = i64_max, rw_diversity_milli = 0, rw_passed = False, rw_device_access_time_us = 0,
       rw_wall_ms = wall_ms, rw_reads = 0, rw_sweeps = 0, rw_rejected = True, rw_salts_done = 0, rw_winners = 0 \<rparr>"

subsection \<open>Run bookkeeping\<close>

record RunState =
  ru_rows :: "JobRow list"
  ru_dispatch_at :: "(bytes, nat) hmap"
  ru_lease_winners :: "(bytes, nat) hmap"
  ru_span :: "nat option \<times> nat option"
  ru_total :: nat

definition run_new :: "nat \<Rightarrow> RunState" where
  "run_new jobs =
     \<lparr> ru_rows = [], ru_dispatch_at = [], ru_lease_winners = [], ru_span = (None, None), ru_total = jobs \<rparr>"

definition note_dispatch :: "nat \<Rightarrow> bytes \<Rightarrow> RunState \<Rightarrow> RunState" where
  "note_dispatch now job_id run =
     run\<lparr>ru_dispatch_at := hm_insert job_id now (ru_dispatch_at run),
         ru_span := (case fst (ru_span run) of None \<Rightarrow> (Some now, snd (ru_span run)) | Some _ \<Rightarrow> ru_span run)\<rparr>"

definition wall_ms_since_dispatch :: "nat \<Rightarrow> bytes \<Rightarrow> RunState \<Rightarrow> nat \<times> RunState" where
  "wall_ms_since_dispatch now job_id run =
     (case hm_get (ru_dispatch_at run) job_id of None \<Rightarrow> 0 | Some t \<Rightarrow> (now - t) mod 2 ^ 64,
      run\<lparr>ru_dispatch_at := hm_remove job_id (ru_dispatch_at run)\<rparr>)"

definition record_row :: "nat \<Rightarrow> JobRow \<Rightarrow> RunState \<Rightarrow> RunState" where
  "record_row now row run =
     run\<lparr>ru_rows := ru_rows run @ [row], ru_span := (fst (ru_span run), Some now)\<rparr>"

definition record_unroutable :: "nat \<Rightarrow> Router \<Rightarrow> RunState \<Rightarrow> Router \<times> RunState" where
  "record_unroutable now r run =
     (r\<lparr>rtr_unroutable := []\<rparr>,
      fold (\<lambda>job. record_row now (failing_row (jb_job_id job) (job_is_pow job) 0)) (rtr_unroutable r) run)"

definition wall_span_ms :: "RunState \<Rightarrow> nat" where
  "wall_span_ms run =
     (case ru_span run of (Some start, Some stop) \<Rightarrow> (stop - start) mod 2 ^ 64 | _ \<Rightarrow> 0)"

definition is_complete :: "RunState \<Rightarrow> bool" where
  "is_complete run \<longleftrightarrow> length (ru_rows run) \<ge> ru_total run"

subsection \<open>The session\<close>

datatype DriveOut = DriveSend CoordMsg | DriveShutdown nat

text \<open>A result whose task holds the job: what validation reads was taken under the lock.\<close>

record TakenResult =
  tk_job :: Job
  tk_result :: MinerResult
  tk_topo :: ResolvedTopo
  tk_gates :: QualityGates

record 'topo DriveSession =
  ds_state :: "'topo CoordinatorState"
  ds_run :: RunState
  ds_grants :: "nat list"
  ds_arrived :: "MinerResult list"
  ds_taken :: "TakenResult list"
  ds_sent :: "DriveOut list"
  ds_reading :: bool
  ds_dispatching :: bool

definition drive_default_configure :: Configure where
  "drive_default_configure = \<lparr> cf_queue_depth = 3, cf_idle_timeout_s = 300, cf_heartbeat_s = 15,
     cf_reconnect_window_s = 60, cf_backend_toml = [] \<rparr>"

definition drive_hello_ok :: "('e, 'd, 'topo) Externals \<Rightarrow> string \<Rightarrow> Hello \<Rightarrow> 'topo CoordinatorState \<Rightarrow> bool" where
  "drive_hello_ok x miner_id hello st =
     (let expected = (case hm_get (cs_expected_tokens st) miner_id of None \<Rightarrow> [] | Some t \<Rightarrow> t)
      in expected \<noteq> [] \<and> he_session_token hello = expected
         \<and> (case he_capabilities hello of
              None \<Rightarrow> False | Some caps \<Rightarrow> cp_protocol_version caps = xt_protocol_version x))"

text \<open>The first message of the session; \<open>None\<close>: the stream is dropped with nothing registered.\<close>

definition drive_handshake ::
  "('e, 'd, 'topo) Externals \<Rightarrow> nat \<Rightarrow> string \<Rightarrow> MinerMsg \<Rightarrow> Job list \<Rightarrow> 'topo CoordinatorState \<Rightarrow> RunState
    \<Rightarrow> (Configure \<times> DriveOut list \<times> 'topo CoordinatorState \<times> RunState) option" where
  "drive_handshake x now miner_id msg jobs st run =
     (case msg of
        HelloMsg hello \<Rightarrow>
          if \<not> drive_hello_ok x miner_id hello st then None
          else (case he_capabilities hello of
             None \<Rightarrow> None
           | Some caps \<Rightarrow>
               let r = register_miner miner_id (from_capabilities (xt_backend_name x) (xt_algorithm_name x) caps) (cs_router st);
                   r = fold (\<lambda>j r. snd (route j r)) jobs r;
                   (r, run) = record_unroutable now r run;
                   st = st\<lparr>cs_router := r\<rparr>;
                   configure = (case hm_get (cs_configure st) miner_id of
                                  None \<Rightarrow> drive_default_configure | Some c \<Rightarrow> c)
               in Some (configure,
                    [DriveSend (Welcome (xt_protocol_version x)), DriveSend (ConfigureMsg configure)]
                      @ map (\<lambda>t. DriveSend (TopologyMsg (to_proto t))) (opt_list (cs_topology st))
                      @ map (\<lambda>t. DriveSend (SetTargetMsg t)) (opt_list (cs_target st)),
                    st, run))
      | _ \<Rightarrow> None)"

text \<open>The \<open>while let\<close> loop of \<open>dispatch_jobs\<close>: each job handed out spends a credit, so it ends.\<close>

function drive_drain ::
  "nat \<Rightarrow> string \<Rightarrow> 'topo CoordinatorState \<Rightarrow> RunState \<Rightarrow> Job list \<times> 'topo CoordinatorState \<times> RunState" where
  "drive_drain now miner_id st run =
     (case next_job miner_id (cs_router st) of
        (None, r) \<Rightarrow> ([], st\<lparr>cs_router := r\<rparr>, run)
      | (Some job, r) \<Rightarrow>
          let (jobs, st', run') = drive_drain now miner_id
                (st\<lparr>cs_router := r, cs_inflight := hm_insert (jb_job_id job) job (cs_inflight st)\<rparr>)
                (note_dispatch now (jb_job_id job) run)
          in (job # jobs, st', run'))"
  by pat_completeness auto

termination drive_drain
  by (relation "measure (\<lambda>(now, m, st, run). credits_of m (cs_router st))")
     (auto dest: credits_of_next_job_less [OF sym])

declare drive_drain.simps [simp del]

definition dispatch_jobs ::
  "nat \<Rightarrow> string \<Rightarrow> nat \<Rightarrow> 'topo CoordinatorState \<Rightarrow> RunState \<Rightarrow> DriveOut list \<times> 'topo CoordinatorState \<times> RunState" where
  "dispatch_jobs now miner_id credits st run =
     (let (jobs, st', run') =
        drive_drain now miner_id (st\<lparr>cs_router := grant_credits miner_id credits (cs_router st)\<rparr>) run
      in (map (\<lambda>j. DriveSend (JobMsg j)) jobs, st', run'))"

text \<open>The two halves of \<open>handle_result\<close>: under the lock, and after validation. A panic of the validator records nothing.\<close>

definition take_drive_result ::
  "MinerResult \<Rightarrow> 'topo CoordinatorState \<Rightarrow> TakenResult option \<times> 'topo CoordinatorState" where
  "take_drive_result result st =
     (map_option (\<lambda>job. \<lparr> tk_job = job, tk_result = result, tk_topo = cs_resolved_topo st,
          tk_gates = gates_from_target (cs_target st) \<rparr>) (hm_get (cs_inflight st) (rr_job_id result)),
      st\<lparr>cs_inflight := hm_remove (rr_job_id result) (cs_inflight st)\<rparr>)"

definition finish_drive_result ::
  "('e, 'd, 'topo) Externals \<Rightarrow> nat \<Rightarrow> TakenResult \<Rightarrow> RunState \<Rightarrow> RunState" where
  "finish_drive_result x now t run =
     (case jb_ising (tk_job t) of
        None \<Rightarrow> run
      | Some ising \<Rightarrow>
          (case validate_result (xt_select x) (xt_diversity x) (xt_decode_i32 x) (xt_decode_spins x) ising
                  (rr_solutions (tk_result t)) (tk_gates t) (tk_topo t) of
             None \<Rightarrow> run
           | Some validated \<Rightarrow>
               let job_id = rr_job_id (tk_result t);
                   (device_us, reads, sweeps) = (case rr_meta (tk_result t) of
                       None \<Rightarrow> (0, 0, 0) | Some m \<Rightarrow> (sm_device_access_time_us m, sm_reads m, sm_sweeps m));
                   (wall_ms, run) = wall_ms_since_dispatch now job_id run
               in record_row now
                    \<lparr> rw_job_id = job_id, rw_is_pow = job_is_pow (tk_job t),
                      rw_n_solutions = length (rr_solutions (tk_result t)),
                      rw_best_energy_milli = vd_best_energy_milli validated,
                      rw_raw_best_energy_milli = vd_raw_best_energy_milli validated,
                      rw_diversity_milli = vd_diversity_milli validated, rw_passed = vd_accepted validated,
                      rw_device_access_time_us = device_us, rw_wall_ms = wall_ms, rw_reads = reads, rw_sweeps = sweeps,
                      rw_rejected = False, rw_salts_done = 1,
                      rw_winners = (if vd_accepted validated then 1 else 0) \<rparr> run))"

text \<open>\<open>None\<close> is a panic of the validator, which unwinds the session task.\<close>

definition drive_lease_result ::
  "('e, 'd, 'topo) Externals \<Rightarrow> MinerResult \<Rightarrow> 'topo CoordinatorState \<Rightarrow> RunState \<Rightarrow> RunState option" where
  "drive_lease_result x result st run =
     (case hm_get (cs_inflight st) (rr_job_id result) of
        None \<Rightarrow> Some run
      | Some job \<Rightarrow>
          (case (jb_generator job, cs_lease_topology st, cs_target st) of
             (Some generator, Some view, Some target) \<Rightarrow>
               (case verify_and_select (xt_select x) (xt_diversity x) (xt_decode_spins x) (xt_verify x)
                       (xt_num_nodes x) rr_solutions generator view target result of
                  None \<Rightarrow> None
                | Some (Inl _) \<Rightarrow> Some run
                | Some (Inr (_, validated)) \<Rightarrow>
                    Some (if vd_accepted validated
                          then run\<lparr>ru_lease_winners := hm_insert (rr_job_id result)
                                 (((case hm_get (ru_lease_winners run) (rr_job_id result) of None \<Rightarrow> 0 | Some n \<Rightarrow> n) + 1)
                                    mod 2 ^ 32) (ru_lease_winners run)\<rparr>
                          else run))
           | _ \<Rightarrow> Some run))"

definition drive_lease_done ::
  "nat \<Rightarrow> LeaseDone \<Rightarrow> 'topo CoordinatorState \<Rightarrow> RunState \<Rightarrow> 'topo CoordinatorState \<times> RunState" where
  "drive_lease_done now finished st run =
     (case hm_get (cs_inflight st) (ld_job_id finished) of
        None \<Rightarrow> (st, run)
      | Some _ \<Rightarrow>
          let st = st\<lparr>cs_inflight := hm_remove (ld_job_id finished) (cs_inflight st)\<rparr>;
              winners = (case hm_get (ru_lease_winners run) (ld_job_id finished) of None \<Rightarrow> 0 | Some n \<Rightarrow> n);
              run = run\<lparr>ru_lease_winners := hm_remove (ld_job_id finished) (ru_lease_winners run)\<rparr>;
              (wall_ms, run) = wall_ms_since_dispatch now (ld_job_id finished) run
          in (st, record_row now
                \<lparr> rw_job_id = ld_job_id finished, rw_is_pow = True, rw_n_solutions = 0,
                  rw_best_energy_milli = ld_best_energy_milli finished,
                  rw_raw_best_energy_milli = ld_best_energy_milli finished, rw_diversity_milli = 0,
                  rw_passed = winners > 0, rw_device_access_time_us = 0, rw_wall_ms = wall_ms, rw_reads = 0,
                  rw_sweeps = 0, rw_rejected = False, rw_salts_done = ld_salts_done finished,
                  rw_winners = winners \<rparr> run))"

definition drive_reject ::
  "nat \<Rightarrow> bytes \<Rightarrow> 'topo CoordinatorState \<Rightarrow> RunState \<Rightarrow> 'topo CoordinatorState \<times> RunState" where
  "drive_reject now job_id st run =
     (let is_pow = (case hm_get (cs_inflight st) job_id of None \<Rightarrow> False | Some j \<Rightarrow> job_is_pow j);
          st = st\<lparr>cs_inflight := hm_remove job_id (cs_inflight st)\<rparr>;
          (wall_ms, run) = wall_ms_since_dispatch now job_id run
      in (st, record_row now (failing_row job_id is_pow wall_ms) run))"

definition fail_one :: "nat \<Rightarrow> Job \<Rightarrow> RunState \<Rightarrow> RunState" where
  "fail_one now j run =
     (let (wall_ms, run) = wall_ms_since_dispatch now (jb_job_id j) run
      in record_row now (failing_row (jb_job_id j) (job_is_pow j) wall_ms) run)"

definition drive_fatal ::
  "nat \<Rightarrow> 'topo CoordinatorState \<Rightarrow> RunState \<Rightarrow> 'topo CoordinatorState \<times> RunState" where
  "drive_fatal now st run = (st\<lparr>cs_inflight := []\<rparr>, fold (fail_one now) (map snd (cs_inflight st)) run)"

text \<open>
  One message: whether the loop goes on, and the session after it. A grant reaches the dispatcher while its task
  lives. A capability update that is applied also sends each wake-up as a grant of no credits.
\<close>

definition handle_message ::
  "('e, 'd, 'topo) Externals \<Rightarrow> nat \<Rightarrow> string \<Rightarrow> nat \<Rightarrow> MinerMsg \<Rightarrow> 'topo DriveSession
    \<Rightarrow> (bool \<times> 'topo DriveSession) option" where
  "handle_message x now miner_id seed msg s =
     (let grant = (\<lambda>n. if ds_dispatching s then (True, s\<lparr>ds_grants := ds_grants s @ [n]\<rparr>) else (False, s));
          finish = (\<lambda>s. if is_complete (ds_run s) then s\<lparr>ds_sent := ds_sent s @ [DriveShutdown 500]\<rparr> else s) in
      case msg of
        Ready \<Rightarrow> Some (grant seed)
      | JobRequest credits \<Rightarrow> Some (grant credits)
      | CapabilitiesMsg caps \<Rightarrow>
          let (applied, wakes, st) = apply_capabilities x miner_id caps (ds_state s) in
          if applied
          then let (r, run) = record_unroutable now (cs_router st) (ds_run s)
               in Some (True, s\<lparr>ds_state := st\<lparr>cs_router := r\<rparr>, ds_run := run,
                    ds_grants := ds_grants s @ map (\<lambda>_. 0) wakes\<rparr>)
          else Some (True, s\<lparr>ds_state := st\<rparr>)
      | ResultMsg result \<Rightarrow>
          if is_lease_result (rr_job_id result) (ds_state s)
          then map_option (\<lambda>run. (True, s\<lparr>ds_run := run\<rparr>)) (drive_lease_result x result (ds_state s) (ds_run s))
          else Some (True, s\<lparr>ds_arrived := ds_arrived s @ [result]\<rparr>)
      | LeaseDoneMsg finished \<Rightarrow>
          let (st, run) = drive_lease_done now finished (ds_state s) (ds_run s)
          in Some (True, finish (s\<lparr>ds_state := st, ds_run := run\<rparr>))
      | Reject job_id _ \<Rightarrow>
          let (st, run) = drive_reject now job_id (ds_state s) (ds_run s)
          in Some (True, s\<lparr>ds_state := st, ds_run := run\<rparr>)
      | Fatal _ _ \<Rightarrow>
          let (st, run) = drive_fatal now (ds_state s) (ds_run s)
          in Some (False, s\<lparr>ds_state := st, ds_run := run\<rparr>)
      | _ \<Rightarrow> Some (True, s))"

text \<open>The end of the message loop: the wake-up entry goes and the dispatcher task is aborted.\<close>

definition stop_reading :: "string \<Rightarrow> 'topo DriveSession \<Rightarrow> 'topo DriveSession" where
  "stop_reading miner_id s =
     s\<lparr>ds_state := deregister_outbound miner_id (ds_state s), ds_reading := False, ds_dispatching := False\<rparr>"

text \<open>
  What runs next: a message or the end of the stream, a queued grant, the taking or the scoring of a result. A
  grant is served in full, or the outbound channel closes after some number of its jobs were sent and the
  dispatcher ends.
\<close>

datatype DriveEvent =
    EvMessage MinerMsg
  | EvStreamEnd
  | EvGrant "nat option"
  | EvTake nat
  | EvScore nat

definition drop_nth :: "nat \<Rightarrow> 'a list \<Rightarrow> 'a list" where
  "drop_nth i xs = take i xs @ drop (Suc i) xs"

fun drive_event ::
  "('e, 'd, 'topo) Externals \<Rightarrow> nat \<Rightarrow> string \<Rightarrow> nat \<Rightarrow> DriveEvent \<Rightarrow> 'topo DriveSession
    \<Rightarrow> 'topo DriveSession option" where
  "drive_event x now miner_id seed (EvMessage msg) s =
     (if \<not> ds_reading s then None
      else case handle_message x now miner_id seed msg s of
             None \<Rightarrow> Some (s\<lparr>ds_reading := False\<rparr>)
           | Some (keep_going, s') \<Rightarrow>
               Some (if \<not> keep_going then stop_reading miner_id s'
                     else if is_complete (ds_run s')
                     then stop_reading miner_id (s'\<lparr>ds_sent := ds_sent s' @ [DriveShutdown 500]\<rparr>)
                     else s'))"
| "drive_event x now miner_id seed EvStreamEnd s = (if ds_reading s then Some (stop_reading miner_id s) else None)"
| "drive_event x now miner_id seed (EvGrant lost_at) s =
     (case ds_grants s of
        credits # rest \<Rightarrow>
          if ds_dispatching s
          then let (outs, st, run) = dispatch_jobs now miner_id credits (ds_state s) (ds_run s)
               in Some (s\<lparr>ds_state := st, ds_run := run, ds_grants := rest,
                    ds_sent := ds_sent s @ (case lost_at of None \<Rightarrow> outs | Some k \<Rightarrow> take k outs),
                    ds_dispatching := (lost_at = None)\<rparr>)
          else None
      | [] \<Rightarrow> None)"
| "drive_event x now miner_id seed (EvTake i) s =
     (if i < length (ds_arrived s)
      then let (t, st) = take_drive_result (ds_arrived s ! i) (ds_state s)
           in Some (s\<lparr>ds_state := st, ds_arrived := drop_nth i (ds_arrived s), ds_taken := ds_taken s @ opt_list t\<rparr>)
      else None)"
| "drive_event x now miner_id seed (EvScore i) s =
     (if i < length (ds_taken s)
      then let run = finish_drive_result x now (ds_taken s ! i) (ds_run s);
               s = s\<lparr>ds_run := run, ds_taken := drop_nth i (ds_taken s)\<rparr>
           in Some (if is_complete run then s\<lparr>ds_sent := ds_sent s @ [DriveShutdown 500]\<rparr> else s)
      else None)"

text \<open>The opening of a session, up to the message loop, with the credits a ready miner is seeded with.\<close>

definition drive_start ::
  "('e, 'd, 'topo) Externals \<Rightarrow> nat \<Rightarrow> string \<Rightarrow> MinerMsg \<Rightarrow> Job list \<Rightarrow> 'topo CoordinatorState \<Rightarrow> RunState
    \<Rightarrow> (nat \<times> 'topo DriveSession) option" where
  "drive_start x now miner_id msg jobs st run =
     (case drive_handshake x now miner_id msg jobs st run of
        None \<Rightarrow> None
      | Some (configure, outs, st, run) \<Rightarrow>
          Some (max (cf_queue_depth configure) 1,
            if ru_total run = 0 \<or> is_complete run
            then \<lparr> ds_state = st, ds_run = run, ds_grants = [], ds_arrived = [], ds_taken = [],
                   ds_sent = outs @ [DriveShutdown 500], ds_reading = False, ds_dispatching = False \<rparr>
            else \<lparr> ds_state = register_wakeup miner_id 0 st, ds_run = run, ds_grants = [], ds_arrived = [],
                   ds_taken = [], ds_sent = outs, ds_reading = True, ds_dispatching = True \<rparr>))"

subsection \<open>A whole run\<close>

record DriveManyParams =
  dm_miner_id :: string
  dm_token :: string
  dm_entry :: LaunchEntry
  dm_topology :: "Topology option"
  dm_target :: "SetTarget option"
  dm_jobs :: "Job list"
  dm_utilization :: "nat option"
  dm_yielding :: bool
  dm_log_level :: LogLevel

record DriveManyReport =
  dr_handshake_ok :: bool
  dr_rows :: "JobRow list"
  dr_total :: nat
  dr_miner_exit_code :: int
  dr_run_wall_ms :: nat

definition drive_state :: "('e, 'd, 'topo) Externals \<Rightarrow> DriveManyParams \<Rightarrow> 'topo CoordinatorState" where
  "drive_state x p =
     (let st = new_state;
          st = st\<lparr>cs_expected_tokens := hm_insert (dm_miner_id p) (dm_token p) (cs_expected_tokens st)\<rparr>;
          st = st\<lparr>cs_configure := hm_insert (dm_miner_id p) (le_configure (dm_entry p)) (cs_configure st)\<rparr>;
          st = state_set_topology x (dm_topology p) st
      in st\<lparr>cs_target := dm_target p\<rparr>)"

definition drive_child_args :: "DriveManyParams \<Rightarrow> string \<Rightarrow> string list" where
  "drive_child_args p socket_uri =
     child_args (dm_entry p) socket_uri (dm_log_level p)
     @ (case dm_utilization p of None \<Rightarrow> [] | Some util \<Rightarrow> [''--utilization'', show_nat util])
     @ (if dm_yielding p then [''--yielding''] else [])"

text \<open>The exit code of the child: \<open>-1\<close> when it was killed, interrupted or could not be waited for.\<close>

definition drive_report :: "DriveManyParams \<Rightarrow> 'topo CoordinatorState \<Rightarrow> RunState \<Rightarrow> int option \<Rightarrow> DriveManyReport" where
  "drive_report p st run status =
     \<lparr> dr_handshake_ok = (router_caps (cs_router st) (dm_miner_id p) \<noteq> None), dr_rows = ru_rows run,
       dr_total = length (dm_jobs p), dr_miner_exit_code = (case status of None \<Rightarrow> - 1 | Some c \<Rightarrow> c),
       dr_run_wall_ms = wall_span_ms run \<rparr>"

subsection \<open>The report\<close>

record Aggregate =
  ag_total_jobs :: nat
  ag_passed :: nat
  ag_rejected :: nat
  ag_wall_ms_total :: nat
  ag_throughput_per_s :: f64
  ag_salts_done :: nat
  ag_salts_per_s :: f64

definition per_second :: "nat \<Rightarrow> nat \<Rightarrow> f64" where
  "per_second n run_wall_ms =
     (if run_wall_ms > 0
      then f_div (f_of_int (int n)) (f_div (f_of_int (int run_wall_ms)) (Fin 1000)) else Fin 0)"

definition aggregate :: "JobRow list \<Rightarrow> nat \<Rightarrow> Aggregate" where
  "aggregate rows run_wall_ms =
     (let total_jobs = length rows;
          salts_done = fold (\<lambda>r acc. wrap_add_u64 acc (rw_salts_done r)) rows 0
      in \<lparr> ag_total_jobs = total_jobs, ag_passed = length (filter rw_passed rows),
           ag_rejected = length (filter rw_rejected rows), ag_wall_ms_total = run_wall_ms,
           ag_throughput_per_s = per_second total_jobs run_wall_ms,
           ag_salts_done = salts_done, ag_salts_per_s = per_second salts_done run_wall_ms \<rparr>)"

definition row_status :: "JobRow \<Rightarrow> string" where
  "row_status r = (if rw_rejected r then ''REJECT'' else if rw_passed r then ''pass'' else ''fail'')"

definition report_hex :: "bytes \<Rightarrow> string" where
  "report_hex bytes = concat (map hex_byte bytes)"

definition truncate_hex :: "string \<Rightarrow> string" where
  "truncate_hex s = (if length s > 16 then take 16 s @ ''..'' else s)"

definition render_range :: "nat \<Rightarrow> nat \<Rightarrow> string" where
  "render_range lo hi = (if lo = hi then show_nat lo else show_nat lo @ ''..'' @ show_nat hi)"

definition effective_params :: "JobRow list \<Rightarrow> (string \<times> string) option" where
  "effective_params rows =
     (let kept = filter (\<lambda>r. \<not> rw_rejected r) rows;
          bounds = (\<lambda>x0 xs. fold (\<lambda>v (lo, hi). (min lo v, max hi v)) xs (x0, x0)) in
      case (map rw_reads kept, map rw_sweeps kept) of
        (r0 # reads, s0 # sweeps) \<Rightarrow>
          let (r_lo, r_hi) = bounds r0 reads; (s_lo, s_hi) = bounds s0 sweeps
          in Some (render_range r_lo r_hi, render_range s_lo s_hi)
      | _ \<Rightarrow> None)"

definition row_to_json :: "JobRow \<Rightarrow> json" where
  "row_to_json r = JObj
     [(''job_id'', JStr (report_hex (rw_job_id r))), (''is_pow'', JBool (rw_is_pow r)),
      (''n_solutions'', JNum (int (rw_n_solutions r))), (''best_energy_milli'', JNum (rw_best_energy_milli r)),
      (''raw_best_energy_milli'', JNum (rw_raw_best_energy_milli r)),
      (''diversity_milli'', JNum (int (rw_diversity_milli r))), (''passed'', JBool (rw_passed r)),
      (''rejected'', JBool (rw_rejected r)),
      (''device_access_time_us'', JNum (int (rw_device_access_time_us r))),
      (''reads'', JNum (int (rw_reads r))), (''sweeps'', JNum (int (rw_sweeps r))),
      (''wall_ms'', JNum (int (rw_wall_ms r))), (''salts_done'', JNum (int (rw_salts_done r))),
      (''winners'', JNum (int (rw_winners r)))]"

text \<open>The objects of the file, one per line; \<open>print\<close> is the JSON form of a float.\<close>

definition jsonl_objects :: "(f64 \<Rightarrow> string) \<Rightarrow> JobRow list \<Rightarrow> Aggregate \<Rightarrow> json list" where
  "jsonl_objects print rows agg =
     map row_to_json rows
     @ [JObj [(''aggregate'', JBool True), (''total_jobs'', JNum (int (ag_total_jobs agg))),
         (''passed'', JNum (int (ag_passed agg))), (''rejected'', JNum (int (ag_rejected agg))),
         (''wall_ms_total'', JNum (int (ag_wall_ms_total agg))),
         (''throughput_per_s'', JReal (print (ag_throughput_per_s agg))),
         (''salts_done'', JNum (int (ag_salts_done agg))),
         (''salts_per_s'', JReal (print (ag_salts_per_s agg)))]]"

subsection \<open>The command\<close>

datatype DriveSourceKind = SourceRandom | SourceLease | SourceList

record DriveArgs =
  da_miner :: ustring
  da_source :: DriveSourceKind
  da_topology :: "ustring option"
  da_topology_preset :: "ustring option"
  da_topology_from_chain :: "string option"
  da_count :: nat
  da_seed :: nat
  da_lease_size :: nat
  da_list :: "ustring option"
  da_target_energy :: "f64 option"
  da_min_solutions :: "nat option"
  da_num_reads :: "nat option"
  da_num_sweeps :: "nat option"
  da_deadline_ms :: nat
  da_device :: "nat option"
  da_report :: "ustring option"
  da_utilization :: "nat option"
  da_yielding :: bool

definition energy_to_milli :: "f64 \<Rightarrow> int" where
  "energy_to_milli e = f_to_i64 (f_mul e (Fin 1000))"

definition set_target_from_spec :: "TopologySpec \<Rightarrow> DriveArgs \<Rightarrow> SetTarget" where
  "set_target_from_spec spec args =
     \<lparr> tg_max_energy_milli = (case da_target_energy args of None \<Rightarrow> sp_max_energy_milli spec | Some e \<Rightarrow> energy_to_milli e),
       tg_min_solutions = (case da_min_solutions args of None \<Rightarrow> sp_min_solutions spec | Some n \<Rightarrow> n),
       tg_min_diversity_milli = sp_min_diversity_milli spec, tg_max_proof_solutions = MAX_PROOF_SOLUTIONS_WIRE,
       tg_num_reads = (case da_num_reads args of None \<Rightarrow> 0 | Some n \<Rightarrow> n),
       tg_num_sweeps = (case da_num_sweeps args of None \<Rightarrow> 0 | Some n \<Rightarrow> n), tg_anneal_time_us = 0 \<rparr>"

text \<open>\<open>None\<close> is a panic of the nonce decoder.\<close>

definition build_jobs ::
  "'derr DriveLib \<Rightarrow> (ustring \<Rightarrow> string + ustring) \<Rightarrow> DriveArgs \<Rightarrow> TopologySpec option \<Rightarrow> nat
    \<Rightarrow> (string + Job list \<times> Topology option \<times> SetTarget option) option" where
  "build_jobs L read_file args spec deadline_ms =
     (case da_source args of
        SourceRandom \<Rightarrow>
          (case spec of
             None \<Rightarrow> Some (Inl ''--source random requires a topology'')
           | Some spec \<Rightarrow>
               map_option (\<lambda>(jobs, _). Inr (jobs, Some (sp_topology spec), Some (set_target_from_spec spec args)))
                 (drain_all (random_next L) (random_new spec (replicate 32 0) (da_seed args) (da_count args) deadline_ms)))
      | SourceLease \<Rightarrow>
          (case spec of
             None \<Rightarrow> Some (Inl ''--source lease requires a topology'')
           | Some spec \<Rightarrow>
               map_option (\<lambda>(jobs, _). Inr (jobs, Some (sp_topology spec), Some (set_target_from_spec spec args)))
                 (drain_all lease_next (lease_new L spec (replicate 32 0) (da_seed args) (da_count args) (da_lease_size args))))
      | SourceList \<Rightarrow>
          (case da_list args of
             None \<Rightarrow> Some (Inl ''--source list requires --list <models.jsonl>'')
           | Some list_path \<Rightarrow>
               (case list_load L (read_file list_path) (map_option to_snapshot spec) deadline_ms of
                  None \<Rightarrow> None
                | Some (Inl error) \<Rightarrow> Some (Inl (list_source_error_text error))
                | Some (Inr jobs) \<Rightarrow>
                    map_option (\<lambda>(jobs, _). Inr (jobs, map_option sp_topology spec,
                        map_option (\<lambda>s. set_target_from_spec s args) spec)) (drain_all vec_next jobs))))"

definition DEFAULT_PRESET :: ustring where
  "DEFAULT_PRESET = us ''advantage2-system1''"

definition resolve_topology ::
  "('key, 'sig) Net \<Rightarrow> 'derr DriveLib \<Rightarrow> PresetLib \<Rightarrow> (ustring \<Rightarrow> string + ustring) \<Rightarrow> DriveArgs
    \<Rightarrow> (string + TopologySpec option) option" where
  "resolve_topology N L P read_file args =
     (case da_topology_from_chain args of
        Some url \<Rightarrow>
          map_option (\<lambda>(answer, _).
            case answer of
              Inl error \<Rightarrow> Inl (''fetch topology from '' @ url @ '': '' @ chain_error_text error)
            | Inr None \<Rightarrow> Inl (''fetch topology from '' @ url @ '': chain has no default topology'')
            | Inr (Some (hash, meta)) \<Rightarrow>
                (case from_chain_meta L hash meta of
                   Inl error \<Rightarrow> Inl (''topology from '' @ url @ '': '' @ error)
                 | Inr spec \<Rightarrow> Inr (Some spec)))
            (fetch_default_topology N (new_client [url] [] MKCpu))
      | None \<Rightarrow>
          let parse = (\<lambda>txt. case txt of
                Inl e \<Rightarrow> Inl e
              | Inr t \<Rightarrow> (case parse_topology_spec L t of
                            Inl error \<Rightarrow> Inl (topology_spec_error_text error) | Inr spec \<Rightarrow> Inr (Some spec))) in
          (case da_topology args of
             Some path \<Rightarrow>
               Some (parse (map_err (\<lambda>error. ''read topology '' @ byte_string path @ '': '' @ error) (read_file path)))
           | None \<Rightarrow>
               (case da_topology_preset args of
                  Some name \<Rightarrow> Some (parse (preset_spec P name))
                | None \<Rightarrow>
                    (case da_source args of
                       SourceList \<Rightarrow> Some (Inr None)
                     | _ \<Rightarrow> Some (parse (preset_spec P DEFAULT_PRESET))))))"

definition drive_entry :: "DriveArgs \<Rightarrow> LaunchEntry" where
  "drive_entry args =
     \<lparr> le_miner_id = ''drive-0'', le_binary = da_miner args,
       le_configure = \<lparr> cf_queue_depth = 3, cf_idle_timeout_s = 30, cf_heartbeat_s = 15,
         cf_reconnect_window_s = 60, cf_backend_toml = [] \<rparr>,
       le_backend = ''cpu'', le_device = da_device args \<rparr>"

definition drive_deadline :: "nat \<Rightarrow> DriveArgs \<Rightarrow> nat" where
  "drive_deadline now_unix_ms args =
     (if da_deadline_ms args = 0 then 0 else wrap_add_u64 now_unix_ms (da_deadline_ms args))"

text \<open>
  The command, with the run itself (\<open>run_drive\<close> on the parameters) and the writing of the report file as arguments.
\<close>

definition drive_params :: "DriveArgs \<Rightarrow> string \<Rightarrow> LogLevel \<Rightarrow> Job list \<Rightarrow> Topology option \<Rightarrow> SetTarget option \<Rightarrow> DriveManyParams" where
  "drive_params args token log_level jobs topology target =
     \<lparr> dm_miner_id = le_miner_id (drive_entry args), dm_token = token, dm_entry = drive_entry args,
       dm_topology = topology, dm_target = target, dm_jobs = jobs, dm_utilization = da_utilization args,
       dm_yielding = da_yielding args, dm_log_level = log_level \<rparr>"

definition drive_main ::
  "('key, 'sig) Net \<Rightarrow> 'derr DriveLib \<Rightarrow> PresetLib \<Rightarrow> (ustring \<Rightarrow> string + ustring) \<Rightarrow> nat \<Rightarrow> string
    \<Rightarrow> (DriveManyParams \<Rightarrow> DriveManyReport) \<Rightarrow> (ustring \<Rightarrow> JobRow list \<Rightarrow> Aggregate \<Rightarrow> bool) \<Rightarrow> DriveArgs \<Rightarrow> LogLevel
    \<Rightarrow> ExitCode option" where
  "drive_main N L P read_file now_unix_ms token run_drive write_jsonl args log_level =
     (case resolve_topology N L P read_file args of
        None \<Rightarrow> None
      | Some (Inl message) \<Rightarrow> Some ConfigInvalid
      | Some (Inr spec) \<Rightarrow>
          (case build_jobs L read_file args spec (drive_deadline now_unix_ms args) of
             None \<Rightarrow> None
           | Some (Inl msg) \<Rightarrow> Some ConfigInvalid
           | Some (Inr (jobs, topology, target)) \<Rightarrow>
               let report = run_drive (drive_params args token log_level jobs topology target);
                   agg = aggregate (dr_rows report) (dr_run_wall_ms report) in
               Some (if \<not> dr_handshake_ok report then InternalFatal
                     else if (case da_report args of None \<Rightarrow> False | Some path \<Rightarrow> \<not> write_jsonl path (dr_rows report) agg)
                     then InternalFatal
                     else if length (dr_rows report) < dr_total report then InternalFatal
                     else Clean)))"

end
