(* ===== verification/Drive_Laws.thy ===== *)
theory Drive_Laws
  imports Drive Session_Laws Sources_Laws
begin

text \<open>
  What a drive run promises. The ids of a run's jobs are conserved: each is staged with the router, in flight, held by a
  result task, or named by a row. One lemma per section of code shows that it only moves ids between these
  places; the invariant \<open>drive_inv\<close> of every reachable session follows, for a miner that rejects only jobs it holds,
  and gives that rows and jobs match one to one. The last section shows what a stray reject does instead.
\<close>

subsection \<open>Keys of a table\<close>

lemma hm_keys_fresh: "hm_get m k = None \<Longrightarrow> mset (hm_keys (hm_insert k v m)) = add_mset k (mset (hm_keys m))"
  by (induction m) (auto simp: hm_get_def hm_keys_def hm_insert_def split: if_splits)

lemma hm_insert_fresh: "hm_get m k = None \<Longrightarrow> set (hm_insert k v m) = insert (k, v) (set m)"
  by (induction m) (auto simp: hm_get_def hm_insert_def split: if_splits)

lemma hm_remove_subset: "set (hm_remove k m) \<subseteq> set m"
  by (auto simp: hm_remove_def)

lemma hm_keys_taken:
  "hm_wf m \<Longrightarrow> hm_get m k = Some v \<Longrightarrow> mset (hm_keys m) = add_mset k (mset (hm_keys (hm_remove k m)))"
proof (induction m)
  case (Cons e m)
  show ?case
  proof (cases "fst e = k")
    case True
    with Cons.prems(1) have "hm_get m k = None"
      by (auto simp: hm_wf_def hm_get_def map_of_eq_None_iff)
    with True show ?thesis using hm_remove_absent [of m k] by (simp add: hm_keys_def hm_remove_def)
  next
    case False
    with Cons show ?thesis by (cases e) (auto simp: hm_wf_def hm_get_def hm_keys_def hm_remove_def)
  qed
qed (simp add: hm_get_def)

text \<open>Parts of a list without repetition.\<close>

lemma distinct_part:
  assumes "A \<subseteq># mset xs" "distinct xs"
  shows "count A i \<le> 1"
proof -
  have "count (mset xs) i \<le> 1" using assms(2) by (simp add: distinct_count_atmost_1)
  with mset_subset_eq_count [OF assms(1), of i] show ?thesis by simp
qed

lemma distinct_sublist:
  assumes "mset ys \<subseteq># mset xs" "distinct xs"
  shows "distinct ys"
  unfolding distinct_count_atmost_1
proof
  fix a
  have "count (mset ys) a \<le> 1" using distinct_part [OF assms] .
  moreover have "count (mset ys) a = 0 \<longleftrightarrow> a \<notin> set ys" by (simp add: count_mset_0_iff)
  ultimately show "count (mset ys) a = (if a \<in> set ys then 1 else 0)" by (cases "a \<in> set ys"; simp only: if_True if_False simp_thms; linarith)
qed

subsection \<open>Where the ids of a run are\<close>

definition staged_ids :: "'topo CoordinatorState \<Rightarrow> bytes multiset" where
  "staged_ids st = image_mset jb_job_id (router_jobs (cs_router st))"

definition flight_ids :: "'topo CoordinatorState \<Rightarrow> bytes multiset" where
  "flight_ids st = mset (hm_keys (cs_inflight st))"

definition row_ids :: "RunState \<Rightarrow> bytes multiset" where
  "row_ids run = mset (map rw_job_id (ru_rows run))"

definition taken_ids :: "TakenResult list \<Rightarrow> bytes multiset" where
  "taken_ids ts = mset (map (\<lambda>t. rr_job_id (tk_result t)) ts)"

definition tables_ok :: "'topo CoordinatorState \<Rightarrow> bool" where
  "tables_ok st \<longleftrightarrow> router_wf (cs_router st) \<and> hm_wf (cs_inflight st)
     \<and> (\<forall>e \<in> set (cs_inflight st). fst e = jb_job_id (snd e))"

lemma row_ids_record [simp]: "row_ids (record_row now row run) = add_mset (rw_job_id row) (row_ids run)"
  by (simp add: row_ids_def record_row_def)

lemma run_keeps [simp]:
  "ru_rows (note_dispatch now i run) = ru_rows run" "ru_total (note_dispatch now i run) = ru_total run"
  "ru_rows (snd (wall_ms_since_dispatch now i run)) = ru_rows run"
  "ru_total (snd (wall_ms_since_dispatch now i run)) = ru_total run"
  "ru_total (record_row now row run) = ru_total run"
  "ru_rows (record_row now row run) = ru_rows run @ [row]"
  by (simp_all add: note_dispatch_def wall_ms_since_dispatch_def record_row_def)

lemma row_ids_cong: "ru_rows run' = ru_rows run \<Longrightarrow> row_ids run' = row_ids run"
  by (simp add: row_ids_def)

lemma record_unroutable_ids:
  fixes r :: Router
  assumes "record_unroutable now r run = (r', run')"
  shows "router_jobs r' + mset (rtr_unroutable r) = router_jobs r" "router_wf r' = router_wf r"
    "row_ids run' = row_ids run + image_mset jb_job_id (mset (rtr_unroutable r))" "ru_total run' = ru_total run"
proof -
  have "row_ids (fold (\<lambda>job. record_row now (failing_row (jb_job_id job) (job_is_pow job) 0)) js run)
      = row_ids run + image_mset jb_job_id (mset js)
      \<and> ru_total (fold (\<lambda>job. record_row now (failing_row (jb_job_id job) (job_is_pow job) 0)) js run) = ru_total run" for js
    by (induction js arbitrary: run) (auto simp: failing_row_def)
  with assms show "row_ids run' = row_ids run + image_mset jb_job_id (mset (rtr_unroutable r))" "ru_total run' = ru_total run"
    by (auto simp: record_unroutable_def)
  show "router_jobs r' + mset (rtr_unroutable r) = router_jobs r" "router_wf r' = router_wf r"
    using assms by (auto simp: record_unroutable_def router_jobs_def)
qed

subsection \<open>Each section moves ids\<close>

text \<open>What a dispatch does to the table of jobs in flight.\<close>

definition takes_off :: "Job list \<Rightarrow> 'topo CoordinatorState \<Rightarrow> 'topo CoordinatorState \<Rightarrow> bool" where
  "takes_off jobs st st' \<longleftrightarrow> flight_ids st' = flight_ids st + mset (map jb_job_id jobs)
     \<and> (\<forall>j \<in> set jobs. hm_get (cs_inflight st') (jb_job_id j) = Some j)
     \<and> (\<forall>i j. hm_get (cs_inflight st) i = Some j \<longrightarrow> hm_get (cs_inflight st') i = Some j)"

lemma drive_drain_ids:
  assumes "tables_ok st" "\<forall>i. count (staged_ids st + flight_ids st) i \<le> 1"
    "drive_drain now m st run = (jobs, st', run')"
  shows "tables_ok st' \<and> staged_ids st' + flight_ids st' = staged_ids st + flight_ids st
    \<and> ru_rows run' = ru_rows run \<and> ru_total run' = ru_total run \<and> takes_off jobs st st'"
  using assms
proof (induction now m st run arbitrary: jobs st' run' rule: drive_drain.induct)
  case (1 now m st run)
  obtain res r where n: "next_job m (cs_router st) = (res, r)" by (cases "next_job m (cs_router st)")
  have wf: "router_wf r" and jobs: "router_jobs r + mset (opt_list res) = router_jobs (cs_router st)"
    using router_wf_next_job [of "cs_router st" m] router_jobs_next_job [of "cs_router st" m] 1(2) n
    by (auto simp: tables_ok_def)
  show ?case
  proof (cases res)
    case None
    then have "st' = st\<lparr>cs_router := r\<rparr>" "run' = run" "jobs = []"
      using 1(4) n by (simp_all add: drive_drain.simps [of now m st run])
    with 1(2) wf jobs None show ?thesis by (auto simp: tables_ok_def staged_ids_def flight_ids_def takes_off_def)
  next
    case (Some job)
    let ?st = "st\<lparr>cs_router := r, cs_inflight := hm_insert (jb_job_id job) job (cs_inflight st)\<rparr>"
    let ?run = "note_dispatch now (jb_job_id job) run"
    have j: "staged_ids st = add_mset (jb_job_id job) (image_mset jb_job_id (router_jobs r))"
      using jobs Some by (simp add: staged_ids_def flip: jobs)
    have "jb_job_id job \<notin># flight_ids st"
      using spec [OF 1(3), of "jb_job_id job"] j by (auto simp: not_in_iff)
    then have fresh: "hm_get (cs_inflight st) (jb_job_id job) = None"
      by (auto simp: flight_ids_def hm.keys_dom)
    have same: "staged_ids ?st + flight_ids ?st = staged_ids st + flight_ids st"
      using j fresh by (simp add: staged_ids_def flight_ids_def hm_keys_fresh)
    have ok: "tables_ok ?st"
      using 1(2) wf fresh by (auto simp: tables_ok_def hm.wf_ins hm_insert_fresh)
    obtain js st2 run2 where rec: "drive_drain now m ?st ?run = (js, st2, run2)"
      by (cases "drive_drain now m ?st ?run") auto
    have out: "st' = st2" "run' = run2" "jobs = job # js"
      using 1(4) n Some rec by (simp_all add: drive_drain.simps [of now m st run])
    have IH: "tables_ok st2" "staged_ids st2 + flight_ids st2 = staged_ids ?st + flight_ids ?st" "ru_rows run2 = ru_rows ?run"
        "ru_total run2 = ru_total ?run" "takes_off js ?st st2"
      using 1(1) [OF n [symmetric] Some ok _ rec] 1(3) same by simp_all
    have "flight_ids ?st = add_mset (jb_job_id job) (flight_ids st)" using fresh by (simp add: flight_ids_def hm_keys_fresh)
    with IH(5) fresh have "takes_off jobs st st'" by (auto simp: takes_off_def out hm.get_ins) (metis option.distinct(1))
    with IH same out show ?thesis by simp
  qed
qed

lemma grant_ids:
  assumes "tables_ok st"
  shows "tables_ok (st\<lparr>cs_router := grant_credits m n (cs_router st)\<rparr>)"
    "staged_ids (st\<lparr>cs_router := grant_credits m n (cs_router st)\<rparr>) = staged_ids st"
    "flight_ids (st\<lparr>cs_router := grant_credits m n (cs_router st)\<rparr>) = flight_ids st"
  using assms router_wf_step [of "cs_router st" undefined "OpGrant m n"]
  by (auto simp: tables_ok_def staged_ids_def flight_ids_def grant_credits_def router_jobs_modify_same)

lemma dispatch_jobs_ids:
  assumes "tables_ok st" "\<forall>i. count (staged_ids st + flight_ids st) i \<le> 1"
    "dispatch_jobs now m credits st run = (outs, st', run')"
  shows "tables_ok st' \<and> staged_ids st' + flight_ids st' = staged_ids st + flight_ids st
    \<and> ru_rows run' = ru_rows run \<and> ru_total run' = ru_total run
    \<and> (\<exists>jobs. outs = map (\<lambda>j. DriveSend (JobMsg j)) jobs \<and> takes_off jobs st st')"
proof -
  let ?st = "st\<lparr>cs_router := grant_credits m credits (cs_router st)\<rparr>"
  obtain jobs where d: "drive_drain now m ?st run = (jobs, st', run')" "outs = map (\<lambda>j. DriveSend (JobMsg j)) jobs"
    using assms(3) by (auto simp: dispatch_jobs_def split: prod.splits)
  from drive_drain_ids [OF grant_ids(1) [OF assms(1)] _ d(1)] assms(2) grant_ids(2,3) [OF assms(1), of m credits] d(2)
  show ?thesis by (auto simp: takes_off_def)
qed

text \<open>Taking a job out of flight, as a result, a lease summary and a reject do.\<close>

abbreviation landed :: "bytes \<Rightarrow> 'topo CoordinatorState \<Rightarrow> 'topo CoordinatorState" where
  "landed i st \<equiv> st\<lparr>cs_inflight := hm_remove i (cs_inflight st)\<rparr>"

lemma unflight:
  assumes "tables_ok st"
  shows "tables_ok (landed i st)" "staged_ids (landed i st) = staged_ids st"
    "hm_get (cs_inflight st) i = Some job \<Longrightarrow> flight_ids st = add_mset i (flight_ids (landed i st))"
    "hm_get (cs_inflight st) i = None \<Longrightarrow> landed i st = st"
  using assms hm_remove_subset [of i "cs_inflight st"]
  by (auto simp: tables_ok_def staged_ids_def flight_ids_def hm.wf_del hm_keys_taken hm_remove_absent)

lemma drive_lease_done_ids:
  assumes "tables_ok st" "drive_lease_done now finished st run = (st', run')"
  shows "tables_ok st' \<and> staged_ids st' = staged_ids st \<and> flight_ids st' + row_ids run' = flight_ids st + row_ids run
    \<and> ru_total run' = ru_total run \<and> row_ids run \<subseteq># row_ids run'"
proof (cases "hm_get (cs_inflight st) (ld_job_id finished)")
  case (Some job)
  note u = unflight(1,2) [OF assms(1), of "ld_job_id finished"] unflight(3) [OF assms(1) Some]
  have "row_ids run' = add_mset (ld_job_id finished) (row_ids run)" "ru_total run' = ru_total run"
    "st' = landed (ld_job_id finished) st"
    using assms(2) Some by (auto simp: drive_lease_done_def Let_def row_ids_def wall_ms_since_dispatch_def)
  with u show ?thesis by simp
qed (use assms in \<open>auto simp: drive_lease_done_def\<close>)

lemma drive_reject_ids:
  assumes "tables_ok st" "drive_reject now i st run = (st', run')" "hm_get (cs_inflight st) i \<noteq> None"
  shows "tables_ok st' \<and> staged_ids st' = staged_ids st \<and> flight_ids st' + row_ids run' = flight_ids st + row_ids run
    \<and> ru_total run' = ru_total run \<and> row_ids run \<subseteq># row_ids run'"
proof -
  obtain job where job: "hm_get (cs_inflight st) i = Some job" using assms(3) by auto
  note u = unflight(1,2) [OF assms(1), of i] unflight(3) [OF assms(1) job]
  have "row_ids run' = add_mset i (row_ids run)" "ru_total run' = ru_total run"
    "st' = landed i st"
    using assms(2) by (auto simp: drive_reject_def Let_def row_ids_def wall_ms_since_dispatch_def failing_row_def)
  with u show ?thesis by simp
qed

lemma fail_one_ids [simp]:
  "row_ids (fail_one now j run) = add_mset (jb_job_id j) (row_ids run)" "ru_total (fail_one now j run) = ru_total run"
  by (simp_all add: fail_one_def wall_ms_since_dispatch_def row_ids_def failing_row_def)

lemma drive_fatal_ids:
  assumes "tables_ok st" "drive_fatal now st run = (st', run')"
  shows "tables_ok st' \<and> staged_ids st' = staged_ids st \<and> flight_ids st' + row_ids run' = flight_ids st + row_ids run
    \<and> ru_total run' = ru_total run \<and> row_ids run \<subseteq># row_ids run'"
proof -
  have f: "row_ids (fold (fail_one now) js run) = row_ids run + image_mset jb_job_id (mset js)
      \<and> ru_total (fold (fail_one now) js run) = ru_total run" for js
    by (induction js arbitrary: run) auto
  have "flight_ids st = image_mset jb_job_id (mset (map snd (cs_inflight st)))"
    using assms(1) by (auto simp: flight_ids_def hm_keys_def tables_ok_def simp flip: mset_map intro!: arg_cong [where f = mset])
  then have "row_ids run' = row_ids run + flight_ids st" "ru_total run' = ru_total run" "st' = st\<lparr>cs_inflight := []\<rparr>"
    using assms(2) f [of "map snd (cs_inflight st)"] by (auto simp: drive_fatal_def)
  with assms(1) show ?thesis by (auto simp: tables_ok_def staged_ids_def flight_ids_def hm_wf_def hm_keys_def)
qed

lemma take_result_ids:
  assumes "tables_ok st" "take_drive_result result st = (t, st')"
  shows "tables_ok st' \<and> staged_ids st' = staged_ids st \<and> flight_ids st' + taken_ids (opt_list t) = flight_ids st"
proof (cases "hm_get (cs_inflight st) (rr_job_id result)")
  case None
  then show ?thesis using assms unflight(4) [OF assms(1) None] by (auto simp: take_drive_result_def taken_ids_def)
next
  case (Some job)
  then show ?thesis
    using assms(2) unflight(1,2) [OF assms(1), of "rr_job_id result"] unflight(3) [OF assms(1) Some]
    by (auto simp: take_drive_result_def taken_ids_def)
qed

lemma finish_result_ids:
  "row_ids (finish_drive_result x now t run) \<in> {row_ids run, add_mset (rr_job_id (tk_result t)) (row_ids run)}"
  "ru_total (finish_drive_result x now t run) = ru_total run"
  by (auto simp: finish_drive_result_def Let_def row_ids_def wall_ms_since_dispatch_def split: option.splits prod.splits)

lemma drive_lease_result_ids:
  "drive_lease_result x result st run = Some run' \<Longrightarrow> ru_rows run' = ru_rows run \<and> ru_total run' = ru_total run"
  by (auto simp: drive_lease_result_def split: option.splits sum.splits if_splits)

lemma apply_capabilities_ids:
  assumes "tables_ok st" "apply_capabilities x m caps st = (applied, wakes, st')"
  shows "tables_ok st' \<and> staged_ids st' = staged_ids st \<and> flight_ids st' = flight_ids st"
proof -
  have wf: "router_wf (cs_router st)" using assms(1) by (simp add: tables_ok_def)
  then have "router_wf (snd (update_capabilities m c (cs_router st)))" for c
    using router_wf_step [OF wf, of undefined "OpUpdateCapabilities m c"] by simp
  moreover have "router_jobs (snd (update_capabilities m c (cs_router st))) = router_jobs (cs_router st)" for c
    using wf by (rule router_jobs_update_capabilities)
  ultimately show ?thesis using assms
    by (auto simp: apply_capabilities_def tables_ok_def staged_ids_def flight_ids_def Let_def split: if_splits prod.splits)
       (metis snd_conv)+
qed

subsection \<open>The invariant\<close>

definition session_ids :: "'topo DriveSession \<Rightarrow> bytes multiset" where
  "session_ids s = staged_ids (ds_state s) + flight_ids (ds_state s) + taken_ids (ds_taken s) + row_ids (ds_run s)"

definition told_to_stop :: "'topo DriveSession \<Rightarrow> bool" where
  "told_to_stop s \<longleftrightarrow> (\<exists>n. DriveShutdown n \<in> set (ds_sent s))"

definition drive_inv :: "Job list \<Rightarrow> 'topo DriveSession \<Rightarrow> bool" where
  "drive_inv jobs s \<longleftrightarrow> tables_ok (ds_state s) \<and> session_ids s \<subseteq># mset (map jb_job_id jobs)
     \<and> ru_total (ds_run s) = length jobs \<and> (told_to_stop s \<longrightarrow> is_complete (ds_run s))"

text \<open>A section that only moves ids from the session to rows, and that stops the miner only when the run is complete, keeps it.\<close>

lemma drive_inv_step:
  assumes "drive_inv jobs s" "tables_ok (ds_state s')" "session_ids s' \<subseteq># session_ids s"
    "ru_total (ds_run s') = ru_total (ds_run s)" "row_ids (ds_run s) \<subseteq># row_ids (ds_run s')"
    "told_to_stop s' \<longrightarrow> told_to_stop s \<or> is_complete (ds_run s')"
  shows "drive_inv jobs s'"
proof -
  have "length (ru_rows (ds_run s)) \<le> length (ru_rows (ds_run s'))"
    using size_mset_mono [OF assms(5)] by (simp add: row_ids_def)
  with assms show ?thesis unfolding drive_inv_def is_complete_def by (auto intro: subset_mset.order_trans)
qed

lemma deregister_ids [simp]:
  "tables_ok (deregister_outbound m st) = tables_ok st" "staged_ids (deregister_outbound m st) = staged_ids st"
  "flight_ids (deregister_outbound m st) = flight_ids st"
  by (simp_all add: deregister_outbound_def tables_ok_def staged_ids_def flight_ids_def)

lemma stop_reading_inv: "drive_inv jobs s \<Longrightarrow> drive_inv jobs (stop_reading m s)"
  by (rule drive_inv_step) (auto simp: stop_reading_def drive_inv_def session_ids_def told_to_stop_def)

lemma shutdown_inv: "drive_inv jobs s \<Longrightarrow> is_complete (ds_run s) \<Longrightarrow> drive_inv jobs (s\<lparr>ds_sent := ds_sent s @ [DriveShutdown n]\<rparr>)"
  by (auto simp: drive_inv_def session_ids_def)

lemma drop_nth_ids: "i < length ts \<Longrightarrow> taken_ids ts = add_mset (rr_job_id (tk_result (ts ! i))) (taken_ids (drop_nth i ts))"
  unfolding taken_ids_def drop_nth_def by (subst id_take_nth_drop [of i ts]) simp_all

definition reject_ok :: "DriveEvent \<Rightarrow> 'topo DriveSession \<Rightarrow> bool" where
  "reject_ok ev s =
     (case ev of EvMessage (Reject i _) \<Rightarrow> hm_get (cs_inflight (ds_state s)) i \<noteq> None | _ \<Rightarrow> True)"

lemma handle_message_inv:
  assumes inv: "drive_inv jobs s" and ok: "reject_ok (EvMessage msg) s"
    and h: "handle_message x now m seed msg s = Some (go, s')"
  shows "drive_inv jobs s'"
proof -
  have t: "tables_ok (ds_state s)" using inv by (simp add: drive_inv_def)
  show ?thesis
  proof (cases msg)
    case (ResultMsg result)
    then show ?thesis
    proof (cases "is_lease_result (rr_job_id result) (ds_state s)")
      case True
      with h ResultMsg obtain run where "drive_lease_result x result (ds_state s) (ds_run s) = Some run" "s' = s\<lparr>ds_run := run\<rparr>"
        by (auto simp: handle_message_def Let_def)
      with drive_lease_result_ids [OF this(1)] t show ?thesis
        by (intro drive_inv_step [OF inv]) (auto simp: session_ids_def told_to_stop_def row_ids_def)
    next
      case False
      with h ResultMsg have "s' = s\<lparr>ds_arrived := ds_arrived s @ [result]\<rparr>" by (auto simp: handle_message_def Let_def)
      with t show ?thesis by (intro drive_inv_step [OF inv]) (auto simp: session_ids_def told_to_stop_def)
    qed
  next
    case (Reject i reason)
    obtain st run where r: "drive_reject now i (ds_state s) (ds_run s) = (st, run)" by (cases "drive_reject now i (ds_state s) (ds_run s)")
    with h Reject have "s' = s\<lparr>ds_state := st, ds_run := run\<rparr>" by (auto simp: handle_message_def Let_def)
    moreover have "hm_get (cs_inflight (ds_state s)) i \<noteq> None" using ok Reject by (simp add: reject_ok_def)
    moreover note drive_reject_ids [OF t r this]
    ultimately show ?thesis
      by (intro drive_inv_step [OF inv]) (auto simp: session_ids_def told_to_stop_def ac_simps)
  next
    case (Fatal code reason)
    obtain st run where r: "drive_fatal now (ds_state s) (ds_run s) = (st, run)" by (cases "drive_fatal now (ds_state s) (ds_run s)")
    with h Fatal have "s' = s\<lparr>ds_state := st, ds_run := run\<rparr>" by (auto simp: handle_message_def Let_def)
    with drive_fatal_ids [OF t r] show ?thesis
      by (intro drive_inv_step [OF inv]) (auto simp: session_ids_def told_to_stop_def ac_simps)
  next
    case (LeaseDoneMsg finished)
    obtain st run where r: "drive_lease_done now finished (ds_state s) (ds_run s) = (st, run)"
      by (cases "drive_lease_done now finished (ds_state s) (ds_run s)")
    let ?s = "s\<lparr>ds_state := st, ds_run := run\<rparr>"
    have "drive_inv jobs ?s" using drive_lease_done_ids [OF t r]
      by (intro drive_inv_step [OF inv]) (auto simp: session_ids_def told_to_stop_def ac_simps)
    with h LeaseDoneMsg r show ?thesis
      using shutdown_inv [of jobs ?s 500] by (auto simp: handle_message_def Let_def split: if_splits)
  next
    case (CapabilitiesMsg caps)
    obtain applied wakes st where a: "apply_capabilities x m caps (ds_state s) = (applied, wakes, st)"
      by (cases "apply_capabilities x m caps (ds_state s)") auto
    note ids = apply_capabilities_ids [OF t a]
    show ?thesis
    proof (cases applied)
      case True
      obtain r run where u: "record_unroutable now (cs_router st) (ds_run s) = (r, run)"
        by (cases "record_unroutable now (cs_router st) (ds_run s)")
      note ru = record_unroutable_ids [OF u]
      have "image_mset jb_job_id (router_jobs r) + row_ids run = staged_ids st + row_ids (ds_run s)"
        using ru(1,3) by (simp add: staged_ids_def ac_simps flip: ru(1))
      moreover have "s' = s\<lparr>ds_state := st\<lparr>cs_router := r\<rparr>, ds_run := run, ds_grants := ds_grants s @ map (\<lambda>_. 0) wakes\<rparr>"
        using h CapabilitiesMsg a u True by (auto simp: handle_message_def Let_def)
      ultimately show ?thesis using ids ru(2-4)
        by (intro drive_inv_step [OF inv])
           (auto simp: session_ids_def told_to_stop_def staged_ids_def flight_ids_def tables_ok_def ac_simps)
    next
      case False
      then have "s' = s\<lparr>ds_state := st\<rparr>" using h CapabilitiesMsg a by (auto simp: handle_message_def Let_def)
      with ids show ?thesis by (intro drive_inv_step [OF inv]) (auto simp: session_ids_def told_to_stop_def)
    qed
  qed (use h t inv in \<open>auto simp: handle_message_def Let_def session_ids_def told_to_stop_def split: if_splits
        intro!: drive_inv_step [OF inv]\<close>)
qed

lemma drive_inv_unique:
  assumes "drive_inv jobs s" "distinct (map jb_job_id jobs)"
  shows "\<forall>i. count (staged_ids (ds_state s) + flight_ids (ds_state s)) i \<le> 1"
proof -
  have "staged_ids (ds_state s) + flight_ids (ds_state s) \<subseteq># mset (map jb_job_id jobs)"
    using assms(1) unfolding drive_inv_def session_ids_def by (meson mset_subset_eq_add_left subset_mset.order_trans)
  then show ?thesis using distinct_part [OF _ assms(2)] by blast
qed

lemma drive_event_inv:
  assumes inv: "drive_inv jobs s" and d: "distinct (map jb_job_id jobs)" and ok: "reject_ok ev s"
    and e: "drive_event x now m seed ev s = Some s'"
  shows "drive_inv jobs s'"
proof (cases ev)
  case (EvMessage msg)
  show ?thesis
  proof (cases "handle_message x now m seed msg s")
    case None
    with e EvMessage have "s' = s\<lparr>ds_reading := False\<rparr>" by (auto split: if_splits)
    with inv show ?thesis by (simp add: drive_inv_def session_ids_def told_to_stop_def)
  next
    case (Some r)
    then obtain go t where r: "handle_message x now m seed msg s = Some (go, t)" by (cases r) auto
    have "drive_inv jobs t" using handle_message_inv [OF inv _ r] ok EvMessage by simp
    with e EvMessage r show ?thesis
      using stop_reading_inv [of jobs t m] stop_reading_inv [of jobs "t\<lparr>ds_sent := ds_sent t @ [DriveShutdown 500]\<rparr>" m]
        shutdown_inv [of jobs t 500] by (auto split: if_splits)
  qed
next
  case EvStreamEnd
  with e inv show ?thesis by (auto split: if_splits intro: stop_reading_inv)
next
  case (EvGrant lost_at)
  then obtain credits rest outs st run where g: "ds_grants s = credits # rest"
      "dispatch_jobs now m credits (ds_state s) (ds_run s) = (outs, st, run)"
    and s': "s' = s\<lparr>ds_state := st, ds_run := run, ds_grants := rest,
        ds_sent := ds_sent s @ (case lost_at of None \<Rightarrow> outs | Some k \<Rightarrow> take k outs), ds_dispatching := (lost_at = None)\<rparr>"
    using e by (auto split: list.splits if_splits prod.splits)
  note drive_inv_unique [OF inv d]
  then have ids: "tables_ok st" "staged_ids st + flight_ids st = staged_ids (ds_state s) + flight_ids (ds_state s)"
      "ru_rows run = ru_rows (ds_run s)" "ru_total run = ru_total (ds_run s)" "\<forall>n. DriveShutdown n \<notin> set outs"
    using dispatch_jobs_ids [OF _ _ g(2)] inv by (auto simp: drive_inv_def)
  then have "told_to_stop s' \<longrightarrow> told_to_stop s"
    by (auto simp: told_to_stop_def s' dest: in_set_takeD split: option.splits)
  with ids show ?thesis
    by (intro drive_inv_step [OF inv]) (auto simp: s' session_ids_def row_ids_def)
next
  case (EvTake i)
  then obtain t st where g: "take_drive_result (ds_arrived s ! i) (ds_state s) = (t, st)"
    and s': "s' = s\<lparr>ds_state := st, ds_arrived := drop_nth i (ds_arrived s), ds_taken := ds_taken s @ opt_list t\<rparr>"
    using e by (auto split: if_splits prod.splits)
  have "tables_ok (ds_state s)" using inv by (simp add: drive_inv_def)
  from take_result_ids [OF this g] show ?thesis
    by (intro drive_inv_step [OF inv]) (auto simp: s' session_ids_def told_to_stop_def taken_ids_def ac_simps)
next
  case (EvScore i)
  define run where "run = finish_drive_result x now (ds_taken s ! i) (ds_run s)"
  let ?s = "s\<lparr>ds_run := run, ds_taken := drop_nth i (ds_taken s)\<rparr>"
  have i: "i < length (ds_taken s)" and s': "s' = (if is_complete run then ?s\<lparr>ds_sent := ds_sent ?s @ [DriveShutdown 500]\<rparr> else ?s)"
    using e EvScore by (auto simp: run_def Let_def split: if_splits)
  have "drive_inv jobs ?s"
    using finish_result_ids [of x now "ds_taken s ! i" "ds_run s", folded run_def] drop_nth_ids [OF i] inv
    by (intro drive_inv_step [OF inv]) (auto simp: session_ids_def told_to_stop_def drive_inv_def)
  then show ?thesis using shutdown_inv [of jobs ?s 500] by (simp add: s')
qed

subsection \<open>From the handshake on\<close>

lemma route_all_ids:
  "router_wf r \<Longrightarrow> router_wf (fold (\<lambda>j r. snd (route j r)) js r)
     \<and> router_jobs (fold (\<lambda>j r. snd (route j r)) js r) = router_jobs r + mset js"
  by (induction js arbitrary: r) (auto simp: route_def router_wf_route_excluding router_jobs_route_excluding)

lemma drive_state_sel:
  "cs_inflight (drive_state x p) = []" "cs_router (drive_state x p) = set_topology (xt_blake2 x) (dm_topology p) new_router"
  by (simp_all add: drive_state_def state_set_topology_def new_state_def Let_def)

lemma new_router_ids: "router_wf (set_topology b t new_router)" "router_jobs (set_topology b t new_router) = {#}"
  using router_wf_step [OF router_wf_new, of b "OpSetTopology t"]
  by (simp_all add: set_topology_def router_jobs_def new_router_def hm_total_def)

lemma drive_handshake_sections:
  assumes "drive_handshake x now m msg jobs st0 run0 = Some (configure, outs, st, run)"
  shows "\<exists>caps. record_unroutable now (fold (\<lambda>j r. snd (route j r)) jobs (register_miner m caps (cs_router st0))) run0
      = (cs_router st, run) \<and> cs_inflight st = cs_inflight st0 \<and> (\<forall>n. DriveShutdown n \<notin> set outs)"
proof -
  obtain hello caps where msg: "msg = HelloMsg hello" "he_capabilities hello = Some caps" "drive_hello_ok x m hello st0"
    using assms by (auto simp: drive_handshake_def split: MinerMsg.splits if_splits option.splits)
  let ?caps = "from_capabilities (xt_backend_name x) (xt_algorithm_name x) caps"
  obtain r run1 where u: "record_unroutable now (fold (\<lambda>j r. snd (route j r)) jobs (register_miner m ?caps (cs_router st0))) run0 = (r, run1)"
    by (cases "record_unroutable now (fold (\<lambda>j r. snd (route j r)) jobs (register_miner m ?caps (cs_router st0))) run0")
  have "cs_router st = r" "run = run1" "cs_inflight st = cs_inflight st0" "\<forall>n. DriveShutdown n \<notin> set outs"
    using assms msg u by (auto simp: drive_handshake_def Let_def)
  with u show ?thesis by blast
qed

lemma drive_start_inv:
  assumes "drive_start x now m msg (dm_jobs p) (drive_state x p) (run_new (length (dm_jobs p))) = Some (seed, s)"
  shows "drive_inv (dm_jobs p) s"
proof -
  obtain configure outs st run where h:
      "drive_handshake x now m msg (dm_jobs p) (drive_state x p) (run_new (length (dm_jobs p))) = Some (configure, outs, st, run)"
    using assms by (auto simp: drive_start_def split: option.splits)
  from drive_handshake_sections [OF h] obtain caps
    where u': "record_unroutable now (fold (\<lambda>j r. snd (route j r)) (dm_jobs p) (register_miner m caps (cs_router (drive_state x p))))
        (run_new (length (dm_jobs p))) = (cs_router st, run)"
      and f': "cs_inflight st = cs_inflight (drive_state x p)" and outs: "\<forall>n. DriveShutdown n \<notin> set outs" by blast
  define r where "r = fold (\<lambda>j r. snd (route j r)) (dm_jobs p) (register_miner m caps (cs_router (drive_state x p)))"
  have u: "record_unroutable now r (run_new (length (dm_jobs p))) = (cs_router st, run)" using u' by (simp only: r_def)
  have f: "cs_inflight st = []" using f' by (simp add: drive_state_sel)
  let ?r0 = "register_miner m caps (cs_router (drive_state x p))"
  have "router_wf ?r0" "router_jobs ?r0 = {#}"
    using router_wf_step [OF new_router_ids(1), of "xt_blake2 x" "OpRegister m caps"] router_jobs_register [OF new_router_ids(1)] new_router_ids(2)
    by (simp_all add: drive_state_sel)
  then have r: "router_wf r" "router_jobs r = mset (dm_jobs p)" using route_all_ids [of ?r0 "dm_jobs p"] by (simp_all add: r_def)
  note ru = record_unroutable_ids [OF u]
  have rows: "row_ids (run_new (length (dm_jobs p))) = {#}" by (simp add: row_ids_def run_new_def)
  have ids: "staged_ids st + row_ids run = mset (map jb_job_id (dm_jobs p))"
    using ru(1,3) r(2) rows by (metis add.left_neutral image_mset_union mset_map staged_ids_def)
  have ok: "tables_ok st" using ru(2) r(1) f by (simp add: tables_ok_def hm_wf_def)
  have n: "ru_total run = length (dm_jobs p)" using ru(4) by (simp add: run_new_def)
  have wake: "tables_ok (register_wakeup m k st) = tables_ok st" "staged_ids (register_wakeup m k st) = staged_ids st"
    "flight_ids (register_wakeup m k st) = flight_ids st" for k
    by (simp_all add: register_wakeup_def tables_ok_def staged_ids_def flight_ids_def)
  have "flight_ids st = {#}" using f by (simp add: flight_ids_def hm_keys_def)
  with assms h ids ok n outs wake show ?thesis
    by (auto simp: drive_start_def drive_inv_def session_ids_def told_to_stop_def taken_ids_def is_complete_def ac_simps
        split: if_splits)
qed

text \<open>The sessions a run can reach with a miner that rejects only jobs it holds; the tasks interleave freely.\<close>

inductive drive_reach ::
  "('e, 'd, 'topo) Externals \<Rightarrow> string \<Rightarrow> nat \<Rightarrow> 'topo DriveSession \<Rightarrow> 'topo DriveSession \<Rightarrow> bool"
  for x m seed s0 where
  drive_reach_start: "drive_reach x m seed s0 s0"
| drive_reach_step: "drive_reach x m seed s0 s \<Longrightarrow> reject_ok ev s \<Longrightarrow> drive_event x now m seed ev s = Some s'
    \<Longrightarrow> drive_reach x m seed s0 s'"

lemma drive_reach_inv:
  "drive_reach x m seed s0 s \<Longrightarrow> drive_inv jobs s0 \<Longrightarrow> distinct (map jb_job_id jobs) \<Longrightarrow> drive_inv jobs s"
  by (induction rule: drive_reach.induct) (blast intro: drive_event_inv)+

text \<open>What the invariant says of the rows.\<close>

lemma drive_inv_rows:
  assumes inv: "drive_inv jobs s" and d: "distinct (map jb_job_id jobs)"
  shows "distinct (map rw_job_id (ru_rows (ds_run s)))" "set (map rw_job_id (ru_rows (ds_run s))) \<subseteq> set (map jb_job_id jobs)"
    "is_complete (ds_run s) \<Longrightarrow> mset (map rw_job_id (ru_rows (ds_run s))) = mset (map jb_job_id jobs)"
    "is_complete (ds_run s) \<Longrightarrow> router_jobs (cs_router (ds_state s)) = {#} \<and> cs_inflight (ds_state s) = [] \<and> ds_taken s = []"
proof -
  let ?rows = "map rw_job_id (ru_rows (ds_run s))" and ?ids = "mset (map jb_job_id jobs)"
  have sub: "session_ids s \<subseteq># ?ids" and n: "ru_total (ds_run s) = length jobs" using inv by (simp_all add: drive_inv_def)
  have rows: "mset ?rows \<subseteq># ?ids"
    using sub unfolding session_ids_def row_ids_def by (meson mset_subset_eq_add_right subset_mset.order_trans)
  show "set ?rows \<subseteq> set (map jb_job_id jobs)" using set_mset_mono [OF rows] by (simp only: set_mset_mset)
  show "distinct ?rows" by (rule distinct_sublist [OF rows d])
  assume c: "is_complete (ds_run s)"
  then have size: "size ?ids \<le> size (mset ?rows)" using n by (simp add: is_complete_def)
  show eq: "mset ?rows = ?ids"
    using rows size by (metis mset_subset_size not_less subset_mset.le_imp_less_or_eq)
  have "session_ids s = mset ?rows"
    using sub size_mset_mono [OF sub] eq unfolding session_ids_def row_ids_def
    by (metis mset_subset_eq_add_right subset_mset.antisym)
  then have "staged_ids (ds_state s) = {#}" "flight_ids (ds_state s) = {#}" "taken_ids (ds_taken s) = {#}"
    unfolding session_ids_def row_ids_def by auto
  then show "router_jobs (cs_router (ds_state s)) = {#} \<and> cs_inflight (ds_state s) = [] \<and> ds_taken s = []"
    by (auto simp: staged_ids_def flight_ids_def taken_ids_def hm_keys_def)
qed

text \<open>
  C32. The report of a drive run accounts for its jobs. Take any run whose job ids differ, and any session it
  reaches after the handshake with a miner that rejects only jobs it holds, however messages, dispatches and result
  tasks interleave and wherever the stream, the outbound channel or a validation breaks. No job has two rows and no row
  names an unknown job. The run counts as complete only when every job has its row, with nothing left staged, in
  flight or in validation, and the miner is told to shut down only then.
\<close>
theorem drive_rows_account_for_jobs:
  assumes "drive_start x now m hello (dm_jobs p) (drive_state x p) (run_new (length (dm_jobs p))) = Some (seed, s0)"
    and "distinct (map jb_job_id (dm_jobs p))" and "drive_reach x m seed s0 s"
  shows "distinct (map rw_job_id (ru_rows (ds_run s)))
    \<and> set (map rw_job_id (ru_rows (ds_run s))) \<subseteq> set (map jb_job_id (dm_jobs p))
    \<and> (is_complete (ds_run s) \<longrightarrow> mset (map rw_job_id (ru_rows (ds_run s))) = mset (map jb_job_id (dm_jobs p))
         \<and> router_jobs (cs_router (ds_state s)) = {#} \<and> cs_inflight (ds_state s) = [] \<and> ds_taken s = [])
    \<and> (\<forall>n. DriveShutdown n \<in> set (ds_sent s) \<longrightarrow> is_complete (ds_run s))"
proof -
  have inv: "drive_inv (dm_jobs p) s" by (rule drive_reach_inv [OF assms(3) drive_start_inv [OF assms(1)] assms(2)])
  then have "\<forall>n. DriveShutdown n \<in> set (ds_sent s) \<longrightarrow> is_complete (ds_run s)" by (auto simp: drive_inv_def told_to_stop_def)
  with drive_inv_rows [OF inv assms(2)] show ?thesis by blast
qed

text \<open>A run of two jobs: the miner asks for work, is sent both, and fails.\<close>

definition ex_drive :: DriveManyParams where
  "ex_drive =
     \<lparr> dm_miner_id = ''d'', dm_token = ''t'',
       dm_entry = \<lparr> le_miner_id = ''d'', le_binary = [], le_configure = drive_default_configure, le_backend = [], le_device = None \<rparr>,
       dm_topology = None, dm_target = None, dm_jobs = [ex_job IsingSample 0, (ex_job IsingSample 0)\<lparr>jb_job_id := [2]\<rparr>],
       dm_utilization = None, dm_yielding = False, dm_log_level = Info \<rparr>"

definition ex_drive_hello :: MinerMsg where
  "ex_drive_hello = HelloMsg \<lparr> he_miner_id = ''d'', he_session_token = ''t'', he_capabilities = Some
     \<lparr> cp_protocol_version = 1, cp_backend = 0, cp_algorithm = 0, cp_supported_kinds = [IsingSample], cp_max_nodes = 0,
       cp_max_edges = 0, cp_max_degree = None, cp_native_topology_hash = None, cp_features = [], cp_generators = [],
       cp_stream_width = 1 \<rparr> \<rparr>"

definition ex_play :: "(nat \<times> unit DriveSession \<times> unit DriveSession) option" where
  "ex_play =
     Option.bind (drive_start ex_externals 0 ''d'' ex_drive_hello (dm_jobs ex_drive) (drive_state ex_externals ex_drive)
         (run_new (length (dm_jobs ex_drive)))) (\<lambda>(seed, s0).
       Option.bind (drive_event ex_externals 1 ''d'' seed (EvMessage Ready) s0) (\<lambda>s1.
       Option.bind (drive_event ex_externals 2 ''d'' seed (EvGrant None) s1) (\<lambda>s2.
       map_option (\<lambda>s3. (seed, s0, s3)) (drive_event ex_externals 5 ''d'' seed (EvMessage (Fatal 70 [])) s2))))"

lemmas drive_start_simps = drive_start_def drive_handshake_def drive_hello_ok_def drive_state_def state_set_topology_def
  new_state_def new_router_def set_topology_def register_miner_def from_capabilities_def record_unroutable_def run_new_def
  is_complete_def register_wakeup_def route_def route_excluding_def candidates_def is_capable_def modify_miner_def

lemmas ex_drive_simps = ex_drive_def ex_drive_hello_def ex_job_def ex_externals_def drive_default_configure_def
  hm_get_def hm_insert_def hm_keys_def hm_modify_def capable_def native_compatible_def Let_def

lemmas ex_play_simps = handle_message_def dispatch_jobs_def grant_credits_def drive_drain.simps next_job.simps note_dispatch_def
  drive_fatal_def fail_one_def wall_ms_since_dispatch_def hm_remove_def record_row_def failing_row_def stop_reading_def
  deregister_outbound_def sat_add_u32_def

lemma ex_play_complete:
  "case ex_play of None \<Rightarrow> False | Some (seed, s0, s) \<Rightarrow> is_complete (ds_run s) \<and> map rw_wall_ms (ru_rows (ds_run s)) = [3, 3]"
  by (simp add: ex_play_def drive_start_simps ex_drive_simps ex_play_simps)

lemma ex_play_reach: "ex_play = Some (seed, s0, s) \<Longrightarrow> drive_reach ex_externals ''d'' seed s0 s"
  unfolding ex_play_def
  by (auto simp del: drive_event.simps simp: bind_eq_Some_conv reject_ok_def intro!: drive_reach_start elim!: drive_reach_step [rotated 2])

theorem drive_rows_account_for_jobs_witness:
  "\<exists>seed s0 s. ex_play = Some (seed, s0, s) \<and> mset (map rw_job_id (ru_rows (ds_run s))) = {#[1], [2]#}
     \<and> cs_inflight (ds_state s) = []"
proof -
  obtain seed s0 s where e: "ex_play = Some (seed, s0, s)" and c: "is_complete (ds_run s)"
    using ex_play_complete by (auto split: option.splits)
  then have start: "drive_start ex_externals 0 ''d'' ex_drive_hello (dm_jobs ex_drive) (drive_state ex_externals ex_drive)
      (run_new (length (dm_jobs ex_drive))) = Some (seed, s0)"
    by (auto simp del: drive_event.simps simp: ex_play_def bind_eq_Some_conv)
  have "distinct (map jb_job_id (dm_jobs ex_drive))" "mset (map jb_job_id (dm_jobs ex_drive)) = {#[1], [2]#}"
    by (simp_all add: ex_drive_def ex_job_def)
  with drive_rows_account_for_jobs [OF start _ ex_play_reach [OF e]] c e show ?thesis by auto
qed

subsection \<open>A stray reject\<close>

text \<open>
  A reject that names no job in flight still adds a row, so the last one before the row count reaches the total ends
  the run: the miner is told to shut down with the jobs it holds still in flight.
\<close>

lemma stray_reject_ends_run:
  assumes "ds_reading s" "hm_get (cs_inflight (ds_state s)) i = None"
    "Suc (length (ru_rows (ds_run s))) = ru_total (ds_run s)"
  shows "\<exists>s'. drive_event x now m seed (EvMessage (Reject i reason)) s = Some s' \<and> is_complete (ds_run s')
    \<and> DriveShutdown 500 \<in> set (ds_sent s') \<and> \<not> ds_reading s'
    \<and> cs_inflight (ds_state s') = cs_inflight (ds_state s) \<and> map rw_job_id (ru_rows (ds_run s')) = map rw_job_id (ru_rows (ds_run s)) @ [i]"
  using assms
  by (simp add: handle_message_def Let_def drive_reject_def wall_ms_since_dispatch_def record_row_def failing_row_def
      is_complete_def stop_reading_def hm_remove_absent deregister_outbound_def)

end
