(* ===== verification/Mock_Laws.thy ===== *)
theory Mock_Laws
  imports Mock Drive_Laws
begin

text \<open>
  What the mock miner promises: each job it is given is answered by one block of messages that closes exactly that
  job and asks for one credit. The last section runs it against a drive session, joined by the two streams, and
  shows that it never rejects a job that is not in flight, so the accounting of \<open>Drive_Laws\<close> holds for such a run
  without that assumption.
\<close>

subsection \<open>The answer to a job\<close>

definition job_answer :: "Job \<Rightarrow> MinerMsg list \<Rightarrow> bool" where
  "job_answer job replies \<longleftrightarrow> (\<exists>results final. replies = results @ [final, JobRequest 1]
     \<and> (\<forall>m \<in> set results. is_lease job \<and> (\<exists>r. m = ResultMsg r \<and> rr_job_id r = jb_job_id job))
     \<and> ((\<exists>reason. final = Reject (jb_job_id job) reason \<and> results = [])
        \<or> (\<not> is_lease job \<and> results = [] \<and> (\<exists>r. final = ResultMsg r \<and> rr_job_id r = jb_job_id job))
        \<or> (is_lease job \<and> (\<exists>d. final = LeaseDoneMsg d \<and> ld_job_id d = jb_job_id job \<and> length results \<le> ld_salts_done d))))"

lemma job_answer_reject [simp]: "job_answer job (reject_and_replace (jb_job_id job) reason)"
  by (auto simp: job_answer_def reject_and_replace_def intro!: exI [of _ "[]"])

lemma job_answer_result: "\<not> is_lease job \<Longrightarrow> rr_job_id r = jb_job_id job \<Longrightarrow> job_answer job [ResultMsg r, JobRequest 1]"
  by (auto simp: job_answer_def intro!: exI [of _ "[]"])

lemma mock_job_answer:
  assumes "\<not> is_lease job"
  shows "job_answer job (mock_job L now job topo)"
  using assms
  by (auto simp: mock_job_def Let_def simp del: One_nat_def split: sum.splits intro: job_answer_result)

lemma lease_salts_results:
  assumes "lease_salts L i spec view target k out n best = Some (out', n', best')"
  shows "\<exists>results. out' = out @ results \<and> (\<forall>m \<in> set results. \<exists>r. m = ResultMsg r \<and> rr_job_id r = i)
     \<and> length results \<le> n' - n \<and> n \<le> n' \<and> n' - n \<le> lx_salt_count spec - k \<and> best' \<le> best"
  using assms
proof (induction "lx_salt_count spec - k" arbitrary: k out n best rule: less_induct)
  case less
  show ?case
  proof (cases "k < lx_salt_count spec \<and> (\<exists>salt nonce. lx_salt spec k = Some salt \<and> lx_nonce spec k = Some nonce)")
    case False
    with less.prems show ?thesis by (auto simp: lease_salts.simps [of L i spec view target k] split: if_splits option.splits)
  next
    case True
    then obtain salt nonce where k: "k < lx_salt_count spec" and s: "lx_salt spec k = Some salt" "lx_nonce spec k = Some nonce" by blast
    obtain h j where d: "ml_draw L view nonce = Some (h, j)"
      using less.prems k s by (auto simp: lease_salts.simps [of L i spec view target k] split: option.splits)
    define spins where "spins = (replicate (ml_num_nodes L view) 1 :: int list)"
    define energy where "energy = ml_energy_from_milli L spins h j (ml_view_edges L view)"
    define won where "won = (if ml_meets_target L [(spins, energy)] target
        then [ResultMsg \<lparr> rr_job_id = i, rr_solutions = [\<lparr> sl_spins = ml_encode_spins L spins, sl_energy_milli = energy \<rparr>],
          rr_meta = Some \<lparr> sm_device_access_time_us = 0, sm_reads = 1, sm_sweeps = 0 \<rparr>, rr_salt = salt, rr_nonce = nonce \<rparr>]
        else [])"
    have next_salts: "lease_salts L i spec view target (Suc k) (out @ won) (n + 1) (min best energy) = Some (out', n', best')"
      using less.prems k s d
      by (simp add: lease_salts.simps [of L i spec view target k] Let_def won_def spins_def energy_def split: if_splits)
    have rest: "\<exists>results. out' = (out @ won) @ results \<and> (\<forall>m \<in> set results. \<exists>r. m = ResultMsg r \<and> rr_job_id r = i)
        \<and> length results \<le> n' - (n + 1) \<and> n + 1 \<le> n' \<and> n' - (n + 1) \<le> lx_salt_count spec - Suc k \<and> best' \<le> min best energy"
      using less.hyps [OF _ next_salts] k by simp
    then obtain results where r: "out' = out @ won @ results" "\<forall>m \<in> set results. \<exists>r. m = ResultMsg r \<and> rr_job_id r = i"
      "length results \<le> n' - (n + 1)" "n + 1 \<le> n'" "n' - (n + 1) \<le> lx_salt_count spec - Suc k" "best' \<le> min best energy" by auto
    have w: "\<forall>m \<in> set won. \<exists>r. m = ResultMsg r \<and> rr_job_id r = i" "length won \<le> 1" by (auto simp: won_def)
    from r w k show ?thesis by (intro exI [of _ "won @ results"]) auto
  qed
qed

lemma mock_lease_answer:
  assumes "is_lease job"
  shows "job_answer job (mock_lease L job topo target)"
proof -
  have done_ok: "job_answer job (out @ [LeaseDoneMsg \<lparr> ld_job_id = jb_job_id job, ld_salts_done = n, ld_best_energy_milli = best \<rparr>, JobRequest 1])"
    if "lease_salts L (jb_job_id job) spec view t 0 [] 0 i64_max = Some (out, n, best)" for spec view t out n best
    using lease_salts_results [OF that] assms by (auto simp: job_answer_def intro!: exI [of _ out])
  show ?thesis by (auto simp: mock_lease_def Let_def simp del: One_nat_def split: option.splits prod.splits intro: done_ok)
qed

subsection \<open>A whole session\<close>

fun jobs_received :: "MockEvent list \<Rightarrow> Job list" where
  "jobs_received [] = []"
| "jobs_received (Arrives now tx_open (Coord (JobMsg job)) # evs) = job # jobs_received evs"
| "jobs_received (ev # evs) = jobs_received evs"

definition about_work :: "MinerMsg \<Rightarrow> bool" where
  "about_work m = (case m of ResultMsg _ \<Rightarrow> True | Reject _ _ \<Rightarrow> True | LeaseDoneMsg _ \<Rightarrow> True | JobRequest _ \<Rightarrow> True | _ \<Rightarrow> False)"

lemma answer_is_work: "job_answer job ms \<Longrightarrow> filter about_work ms = ms"
  by (fastforce simp: job_answer_def about_work_def filter_id_conv)

lemma mock_message_reply:
  assumes "mock_message L m now msg s = Reply replies s'"
  shows "(case msg of Coord (JobMsg job) \<Rightarrow> job_answer job replies \<and> s' = s | _ \<Rightarrow> filter about_work replies = [])"
  using assms mock_lease_answer mock_job_answer
  by (auto simp: mock_message_def about_work_def mock_status_msg_def is_lease_def
      split: Inbound.splits CoordMsg.splits option.splits if_splits)

text \<open>
  The mock miner answers every job once and refunds its credit. As long as a session lasts, what it sends about
  work is, in order, one block per job received: a reject, a result, or for a lease its winners and then one summary that
  counts at least as many salts, each naming that job, followed by a request for one credit. It sends no other result,
  reject, summary or request, so credits never leak and no job is closed twice.
\<close>
theorem mock_answers_every_job:
  assumes "mock_loop L m evs s = (sent, None)"
  shows "\<exists>blocks. list_all2 job_answer (jobs_received evs) blocks \<and> filter about_work sent = concat blocks"
  using assms
proof (induction L m evs s arbitrary: sent rule: mock_loop.induct)
  case (4 L m now tx_open msg evs s)
  then obtain replies s' rest where r: "mock_message L m now msg s = Reply replies s'"
      and rest: "mock_loop L m evs s' = (rest, None)" and sent: "sent = replies @ rest"
    by (auto split: Turn.splits if_splits prod.splits)
  obtain blocks where b: "list_all2 job_answer (jobs_received evs) blocks" "filter about_work rest = concat blocks"
    using "4.IH" [OF r _ rest] 4(2) r by (auto split: if_splits)
  show ?case
  proof (cases "\<exists>job. msg = Coord (JobMsg job)")
    case True
    then obtain job where job: "msg = Coord (JobMsg job)" by blast
    then have "job_answer job replies" using mock_message_reply [OF r] by simp
    with b job sent show ?thesis by (intro exI [of _ "replies # blocks"]) (simp add: answer_is_work)
  next
    case False
    then have "jobs_received (Arrives now tx_open msg # evs) = jobs_received evs" "filter about_work replies = []"
      using mock_message_reply [OF r] by (cases msg; auto split: CoordMsg.splits; case_tac x1; auto)+
    with b sent show ?thesis by auto
  qed
qed auto

definition ex_miner_lib :: "unit MinerLib" where
  "ex_miner_lib =
     \<lparr> ml_build_hello = (\<lambda>i c. Inr \<lparr> he_miner_id = i, he_session_token = ''t'', he_capabilities = Some c \<rparr>),
       ml_check_welcome = (\<lambda>v. None), ml_idle_timeout_s = (\<lambda>i c. cf_idle_timeout_s c), ml_exit_number = (\<lambda>c. 70),
       ml_protocol_version = 1, ml_backend_mock = 0, ml_algorithm_sa = 0, ml_decode_i32 = i32_le_dec, ml_encode_spins = (\<lambda>s. []),
       ml_energy = (\<lambda>s h j es. 0), ml_lease_spec = (\<lambda>g. None), ml_view = (\<lambda>t. Some ()), ml_num_nodes = (\<lambda>v. 0),
       ml_view_edges = (\<lambda>v. []), ml_draw = (\<lambda>v n. None), ml_energy_from_milli = (\<lambda>s h j es. 0),
       ml_target = Target.truncate, ml_meets_target = (\<lambda>rows t. False) \<rparr>"

theorem mock_answers_every_job_witness:
  "\<exists>block. mock_loop ex_miner_lib ''m'' [Arrives 5 True (Coord (JobMsg (ex_job IsingSample 0)))] mock_start = (block, None)
     \<and> job_answer (ex_job IsingSample 0) block"
proof -
  let ?block = "[Reject [1] MalformedJob, JobRequest 1]"
  have run: "mock_loop ex_miner_lib ''m'' [Arrives 5 True (Coord (JobMsg (ex_job IsingSample 0)))] mock_start = (?block, None)"
    by (simp add: mock_message_def mock_job_def ex_job_def ising_default_def reject_and_replace_def)
  from mock_answers_every_job [OF run] have "job_answer (ex_job IsingSample 0) (filter about_work ?block)"
    by (auto simp: list_all2_Cons1 simp del: filter.simps)
  then have "job_answer (ex_job IsingSample 0) ?block" by (simp add: about_work_def)
  with run show ?thesis by blast
qed

subsection \<open>The miner in a drive session\<close>

text \<open>
  The drive session and the miner, joined by their streams: \<open>du_seen\<close> messages of the session were delivered,
  \<open>du_mock\<close> is the miner's session until it leaves, and \<open>du_blocks\<close> are the replies on their way back, one
  block per message that caused them, with the job it carried. A move delivers a message, reads a reply, or runs another
  section of the drive session.
\<close>

record 'topo Duo =
  du_drive :: "'topo DriveSession"
  du_seen :: nat
  du_mock :: "MockSession option"
  du_blocks :: "(Job option \<times> MinerMsg list) list"

definition duo_start :: "'topo DriveSession \<Rightarrow> 'topo Duo" where
  "duo_start s = \<lparr> du_drive = s, du_seen = 0, du_mock = Some mock_start, du_blocks = [] \<rparr>"

fun inbound_of :: "DriveOut \<Rightarrow> Inbound" where
  "inbound_of (DriveSend msg) = Coord msg"
| "inbound_of (DriveShutdown n) = ShutdownIn n"

fun job_of :: "DriveOut \<Rightarrow> Job option" where
  "job_of (DriveSend (JobMsg job)) = Some job"
| "job_of _ = None"

datatype DuoMove = Deliver | Hear | Work DriveEvent

fun duo_move ::
  "('e, 'd, 'topo) Externals \<Rightarrow> 'view MinerLib \<Rightarrow> string \<Rightarrow> nat \<Rightarrow> nat \<Rightarrow> DuoMove \<Rightarrow> 'topo Duo \<Rightarrow> 'topo Duo option" where
  "duo_move x L m seed now Deliver d =
     (if du_seen d < length (ds_sent (du_drive d))
      then let msg = ds_sent (du_drive d) ! du_seen d; d' = d\<lparr>du_seen := Suc (du_seen d)\<rparr> in
           map_option (\<lambda>k. case mock_message L m now (inbound_of msg) k of
               Reply replies k' \<Rightarrow>
                 d'\<lparr>du_mock := Some k', du_blocks := du_blocks d @ (if replies = [] then [] else [(job_of msg, replies)])\<rparr>
             | Leave _ \<Rightarrow> d'\<lparr>du_mock := None\<rparr>
             | Refuse code reason \<Rightarrow> d'\<lparr>du_mock := None, du_blocks := du_blocks d @ [(None, [fatal_msg L code reason])]\<rparr>)
             (du_mock d)
      else None)"
| "duo_move x L m seed now Hear d =
     (case du_blocks d of
        (j, msg # rest) # bs \<Rightarrow>
          map_option (\<lambda>s. d\<lparr>du_drive := s, du_blocks := (if rest = [] then bs else (j, rest) # bs)\<rparr>)
            (drive_event x now m seed (EvMessage msg) (du_drive d))
      | _ \<Rightarrow> None)"
| "duo_move x L m seed now (Work ev) d =
     (case ev of EvMessage _ \<Rightarrow> None
      | _ \<Rightarrow> map_option (\<lambda>s. d\<lparr>du_drive := s\<rparr>) (drive_event x now m seed ev (du_drive d)))"

inductive duo_reach ::
  "('e, 'd, 'topo) Externals \<Rightarrow> 'view MinerLib \<Rightarrow> string \<Rightarrow> nat \<Rightarrow> 'topo DriveSession \<Rightarrow> 'topo Duo \<Rightarrow> bool"
  for x L m seed s0 where
  duo_reach_start: "duo_reach x L m seed s0 (duo_start s0)"
| duo_reach_step: "duo_reach x L m seed s0 d \<Longrightarrow> duo_move x L m seed now mv d = Some d' \<Longrightarrow> duo_reach x L m seed s0 d'"

text \<open>Jobs on their way to the miner, and jobs whose answer is on its way back.\<close>

definition jobs_sent :: "DriveOut list \<Rightarrow> Job list" where
  "jobs_sent outs = concat (map (\<lambda>msg. opt_list (job_of msg)) outs)"

definition block_job :: "Job option \<times> MinerMsg list \<Rightarrow> Job option" where
  "block_job b = (if snd b = [JobRequest 1] then None else fst b)"

definition block_jobs :: "(Job option \<times> MinerMsg list) list \<Rightarrow> Job list" where
  "block_jobs bs = concat (map (\<lambda>b. opt_list (block_job b)) bs)"

definition owed :: "'topo Duo \<Rightarrow> Job list" where
  "owed d = jobs_sent (drop (du_seen d) (ds_sent (du_drive d))) @ block_jobs (du_blocks d)"

definition block_ok :: "Job option \<times> MinerMsg list \<Rightarrow> bool" where
  "block_ok b = (case fst b of
      Some job \<Rightarrow> job_answer job (snd b) \<or> snd b = [JobRequest 1]
    | None \<Rightarrow> snd b = [Ready] \<or> (\<exists>code reason. snd b = [Fatal code reason]))"

definition duo_inv :: "'topo Duo \<Rightarrow> bool" where
  "duo_inv d \<longleftrightarrow> list_all block_ok (du_blocks d) \<and> du_seen d \<le> length (ds_sent (du_drive d))
     \<and> (ds_reading (du_drive d) \<longrightarrow>
          (\<forall>j \<in> set (owed d). hm_get (cs_inflight (ds_state (du_drive d))) (jb_job_id j) = Some j)
          \<and> mset (map jb_job_id (owed d)) + mset (map rr_job_id (ds_arrived (du_drive d))) \<subseteq># flight_ids (ds_state (du_drive d)))"

lemma job_answer_head:
  assumes "job_answer job (msg # rest)"
  shows "(rest = [JobRequest 1] \<and> ((\<exists>reason. msg = Reject (jb_job_id job) reason)
       \<or> (\<not> is_lease job \<and> (\<exists>r. msg = ResultMsg r \<and> rr_job_id r = jb_job_id job))
       \<or> (is_lease job \<and> (\<exists>d. msg = LeaseDoneMsg d \<and> ld_job_id d = jb_job_id job))))
     \<or> (is_lease job \<and> (\<exists>r. msg = ResultMsg r \<and> rr_job_id r = jb_job_id job) \<and> job_answer job rest)"
proof -
  obtain results final where a: "msg # rest = results @ [final, JobRequest 1]"
      "\<forall>m \<in> set results. is_lease job \<and> (\<exists>r. m = ResultMsg r \<and> rr_job_id r = jb_job_id job)"
    and f: "(\<exists>reason. final = Reject (jb_job_id job) reason \<and> results = [])
        \<or> (\<not> is_lease job \<and> results = [] \<and> (\<exists>r. final = ResultMsg r \<and> rr_job_id r = jb_job_id job))
        \<or> (is_lease job \<and> (\<exists>d. final = LeaseDoneMsg d \<and> ld_job_id d = jb_job_id job \<and> length results \<le> ld_salts_done d))"
    using assms unfolding job_answer_def by blast
  show ?thesis
  proof (cases results)
    case Nil
    with a f show ?thesis by auto
  next
    case (Cons r0 rs)
    with a f have "job_answer job rest" unfolding job_answer_def by (intro exI [of _ rs] exI [of _ final]) auto
    with a Cons show ?thesis by auto
  qed
qed

lemma jobs_sent_simps [simp]:
  "jobs_sent [] = []" "jobs_sent (msg # outs) = opt_list (job_of msg) @ jobs_sent outs"
  "jobs_sent (outs @ outs') = jobs_sent outs @ jobs_sent outs'"
  "jobs_sent (map (\<lambda>j. DriveSend (JobMsg j)) jobs) = jobs"
  by (simp_all add: jobs_sent_def comp_def)

lemma block_jobs_simps [simp]:
  "block_jobs [] = []" "block_jobs (b # bs) = opt_list (block_job b) @ block_jobs bs"
  "block_jobs (bs @ bs') = block_jobs bs @ block_jobs bs'"
  by (simp_all add: block_jobs_def)

lemma job_answer_longer: "job_answer job ms \<Longrightarrow> ms \<noteq> [] \<and> ms \<noteq> [JobRequest 1]"
  by (auto simp: job_answer_def append_eq_Cons_conv)

lemma mock_block:
  assumes "mock_message L m now (inbound_of msg) k = Reply replies k'"
  shows "replies = [] \<and> job_of msg = None \<or> replies \<noteq> [] \<and> block_ok (job_of msg, replies) \<and> block_job (job_of msg, replies) = job_of msg"
proof (cases "\<exists>job. msg = DriveSend (JobMsg job)")
  case True
  then obtain job where job: "msg = DriveSend (JobMsg job)" by blast
  then have "job_answer job replies" using mock_message_reply [OF assms] by simp
  with job job_answer_longer [OF this] show ?thesis by (auto simp: block_ok_def block_job_def)
next
  case False
  then have "job_of msg = None" by (cases msg rule: job_of.cases) auto
  moreover have "replies = [] \<or> replies = [Ready]"
    using assms False by (cases msg) (auto simp: mock_message_def split: CoordMsg.splits option.splits)
  ultimately show ?thesis by (auto simp: block_ok_def block_job_def)
qed

lemma mock_leaves:
  "mock_message L m now (inbound_of msg) k = Leave k' \<Longrightarrow> job_of msg = None"
  "mock_message L m now (inbound_of msg) k = Refuse code reason \<Longrightarrow> job_of msg = None"
  by (cases msg rule: job_of.cases; auto simp: mock_message_def split: CoordMsg.splits option.splits)+

text \<open>Moves that leave the drive session alone only pass jobs on.\<close>

lemma duo_inv_pass:
  assumes "duo_inv d" "du_drive d' = du_drive d" "mset (owed d') = mset (owed d)" "list_all block_ok (du_blocks d')"
    "du_seen d' \<le> length (ds_sent (du_drive d))"
  shows "duo_inv d'"
proof -
  have "set (owed d') = set (owed d)" using assms(3) by (rule mset_eq_setD)
  moreover have "mset (map jb_job_id (owed d')) = mset (map jb_job_id (owed d))" using assms(3) by (simp add: mset_map)
  ultimately show ?thesis using assms unfolding duo_inv_def by simp
qed

lemma deliver_inv:
  assumes inv: "duo_inv d" and mv: "duo_move x L m seed now Deliver d = Some d'"
  shows "du_drive d' = du_drive d \<and> duo_inv d'"
proof -
  define msg where "msg = ds_sent (du_drive d) ! du_seen d"
  obtain k where seen: "du_seen d < length (ds_sent (du_drive d))" and k: "du_mock d = Some k"
    using mv by (auto simp: Let_def split: if_splits)
  have undelivered: "drop (du_seen d) (ds_sent (du_drive d)) = msg # drop (Suc (du_seen d)) (ds_sent (du_drive d))"
    using seen by (simp add: msg_def Cons_nth_drop_Suc)
  have ok: "list_all block_ok (du_blocks d)" using inv by (simp add: duo_inv_def)
  show ?thesis
  proof (cases "mock_message L m now (inbound_of msg) k")
    case (Reply replies k')
    then have "d' = d\<lparr>du_seen := Suc (du_seen d), du_mock := Some k',
        du_blocks := du_blocks d @ (if replies = [] then [] else [(job_of msg, replies)])\<rparr>"
      using mv seen k by (auto simp: msg_def Let_def)
    with mock_block [OF Reply] ok seen show ?thesis
      by (intro conjI duo_inv_pass [OF inv])
         (auto simp: owed_def undelivered)
  next
    case (Leave k')
    then have "d' = d\<lparr>du_seen := Suc (du_seen d), du_mock := None\<rparr>" using mv seen k by (auto simp: msg_def Let_def)
    with mock_leaves(1) [OF Leave] ok seen show ?thesis by (intro conjI duo_inv_pass [OF inv]) (auto simp: owed_def undelivered)
  next
    case (Refuse code reason)
    then have "d' = d\<lparr>du_seen := Suc (du_seen d), du_mock := None, du_blocks := du_blocks d @ [(None, [fatal_msg L code reason])]\<rparr>"
      using mv seen k by (auto simp: msg_def Let_def)
    with mock_leaves(2) [OF Refuse] ok seen show ?thesis
      by (intro conjI duo_inv_pass [OF inv])
         (auto simp: owed_def undelivered block_job_def block_ok_def fatal_msg_def)
  qed
qed

text \<open>A job that leaves the table of jobs in flight leaves the others there.\<close>

lemma land_others:
  assumes t: "tables_ok st" and job: "hm_get (cs_inflight st) i = Some job" and n: "add_mset i N \<subseteq># flight_ids st"
    and js: "mset (map jb_job_id js) \<subseteq># N" "\<forall>j \<in> set js. hm_get (cs_inflight st) (jb_job_id j) = Some j"
  shows "N \<subseteq># flight_ids (landed i st)" "\<forall>j \<in> set js. hm_get (cs_inflight (landed i st)) (jb_job_id j) = Some j"
proof -
  show sub: "N \<subseteq># flight_ids (landed i st)" using n unflight(3) [OF t job] by simp
  have "jb_job_id j \<noteq> i" if "j \<in> set js" for j
  proof -
    have "jb_job_id j \<in># mset (map jb_job_id js)" using that by auto
    then have "jb_job_id j \<in># flight_ids (landed i st)" using js(1) sub by (meson mset_subset_eqD)
    then show ?thesis by (auto simp: flight_ids_def hm.keys_dom hm.get_del)
  qed
  with js(2) show "\<forall>j \<in> set js. hm_get (cs_inflight (landed i st)) (jb_job_id j) = Some j" by (auto simp: hm.get_del)
qed

lemma event_reading:
  assumes "drive_event x now m seed (EvMessage msg) s = Some s'" "ds_reading s'"
  shows "ds_reading s" "handle_message x now m seed msg s = Some (True, s')" "\<not> is_complete (ds_run s')"
  using assms by (auto simp: stop_reading_def split: if_splits option.splits)

text \<open>What a reply does to the table, the results that wait and the messages sent, while the session reads on.\<close>

definition heard :: "'topo DriveSession \<Rightarrow> (bytes, Job) hmap \<Rightarrow> MinerResult list \<Rightarrow> bool" where
  "heard s' flights arrived \<longleftrightarrow> cs_inflight (ds_state s') = flights \<and> ds_arrived s' = arrived"

lemma heard_reply:
  assumes h: "handle_message x now m seed msg s = Some (True, s')" and c: "\<not> is_complete (ds_run s')"
  shows "ds_sent s' = ds_sent s"
    "msg = Ready \<or> (\<exists>n. msg = JobRequest n) \<Longrightarrow> heard s' (cs_inflight (ds_state s)) (ds_arrived s)"
    "msg = Reject i reason \<Longrightarrow> heard s' (hm_remove i (cs_inflight (ds_state s))) (ds_arrived s)"
    "msg = LeaseDoneMsg fin \<Longrightarrow> hm_get (cs_inflight (ds_state s)) (ld_job_id fin) = Some job
       \<Longrightarrow> heard s' (hm_remove (ld_job_id fin) (cs_inflight (ds_state s))) (ds_arrived s)"
    "msg = ResultMsg r \<Longrightarrow> is_lease_result (rr_job_id r) (ds_state s) \<Longrightarrow> heard s' (cs_inflight (ds_state s)) (ds_arrived s)"
    "msg = ResultMsg r \<Longrightarrow> \<not> is_lease_result (rr_job_id r) (ds_state s)
       \<Longrightarrow> heard s' (cs_inflight (ds_state s)) (ds_arrived s @ [r])"
  using h c
  by (auto simp: heard_def handle_message_def Let_def drive_reject_def drive_lease_done_def
      split: MinerMsg.splits if_splits prod.splits option.splits)

text \<open>The invariant after a reply, in the three ways a reply can change the session.\<close>

lemma block_head:
  assumes "block_ok (j, msg # rest)"
  obtains (quiet) "msg = Ready \<or> (\<exists>n. msg = JobRequest n)" "rest = []" "block_job (j, msg # rest) = None"
  | (fatal) code reason where "msg = Fatal code reason" "rest = []" "j = None"
  | (reject) job reason where "j = Some job" "msg = Reject (jb_job_id job) reason" "rest = [JobRequest 1]"
  | (lease_done) job fin where "j = Some job" "msg = LeaseDoneMsg fin" "ld_job_id fin = jb_job_id job" "rest = [JobRequest 1]"
  | (plain) job r where "j = Some job" "msg = ResultMsg r" "rr_job_id r = jb_job_id job" "\<not> is_lease job" "rest = [JobRequest 1]"
  | (winner) job r where "j = Some job" "msg = ResultMsg r" "rr_job_id r = jb_job_id job" "is_lease job" "job_answer job rest"
proof (cases j)
  case None
  with assms quiet fatal show ?thesis by (auto simp: block_ok_def block_job_def)
next
  case (Some job)
  show ?thesis
  proof (cases "msg # rest = [JobRequest 1]")
    case True
    then show ?thesis using quiet by (simp add: block_job_def)
  next
    case False
    with assms Some have "job_answer job (msg # rest)" by (auto simp: block_ok_def)
    from job_answer_head [OF this] Some show ?thesis using reject lease_done plain winner by blast
  qed
qed

text \<open>A reply that is read keeps the invariant, and is no stray reject.\<close>

lemma hear_keeps:
  assumes inv: "duo_inv d" and b: "du_blocks d = (j, msg # rest) # bs"
    and e: "drive_event x now m seed (EvMessage msg) (du_drive d) = Some s'"
    and ok: "rest \<noteq> [] \<Longrightarrow> block_ok (j, rest)"
    and read: "ds_reading s' \<Longrightarrow>
      (\<forall>k \<in> set (jobs_sent (drop (du_seen d) (ds_sent (du_drive d))) @ opt_list (if rest = [] then None else block_job (j, rest))
          @ block_jobs bs). hm_get (cs_inflight (ds_state s')) (jb_job_id k) = Some k)
      \<and> mset (map jb_job_id (jobs_sent (drop (du_seen d) (ds_sent (du_drive d)))
          @ opt_list (if rest = [] then None else block_job (j, rest)) @ block_jobs bs))
        + mset (map rr_job_id (ds_arrived s')) \<subseteq># flight_ids (ds_state s')"
  shows "duo_inv (d\<lparr>du_drive := s', du_blocks := (if rest = [] then bs else (j, rest) # bs)\<rparr>)"
proof -
  have "du_seen d \<le> length (ds_sent s')"
    using e inv by (auto simp: duo_inv_def handle_message_def Let_def stop_reading_def
        split: if_splits option.splits MinerMsg.splits prod.splits)
  moreover have "ds_sent s' = ds_sent (du_drive d)" if "ds_reading s'"
    using heard_reply(1) [OF event_reading(2,3) [OF e that]] .
  ultimately show ?thesis using inv b ok read by (auto simp: duo_inv_def owed_def)
qed

text \<open>The three ways a reply changes the session.\<close>

lemma hear_closes:
  assumes inv: "duo_inv d" and t: "tables_ok (ds_state (du_drive d))"
    and b: "du_blocks d = (Some job, msg # [JobRequest 1]) # bs" and msg: "msg \<noteq> JobRequest 1"
    and e: "drive_event x now m seed (EvMessage msg) (du_drive d) = Some s'"
    and f: "ds_reading s' \<Longrightarrow> heard s' (hm_remove (jb_job_id job) (cs_inflight (ds_state (du_drive d)))) (ds_arrived (du_drive d))"
  shows "duo_inv (d\<lparr>du_drive := s', du_blocks := (Some job, [JobRequest 1]) # bs\<rparr>)"
proof -
  let ?s = "du_drive d" and ?A = "jobs_sent (drop (du_seen d) (ds_sent (du_drive d)))" and ?B = "block_jobs bs"
  let ?N = "mset (map jb_job_id (?A @ ?B)) + mset (map rr_job_id (ds_arrived ?s))"
  have "ds_reading ?s" using e by (auto split: if_splits)
  then have o: "\<forall>k \<in> set (?A @ job # ?B). hm_get (cs_inflight (ds_state ?s)) (jb_job_id k) = Some k"
      "add_mset (jb_job_id job) ?N \<subseteq># flight_ids (ds_state ?s)"
    using inv by (auto simp: duo_inv_def owed_def b block_job_def)
  have "?N \<subseteq># flight_ids (landed (jb_job_id job) (ds_state ?s))"
      "\<forall>k \<in> set (?A @ ?B). hm_get (cs_inflight (landed (jb_job_id job) (ds_state ?s))) (jb_job_id k) = Some k"
    using land_others [OF t _ o(2), of job "?A @ ?B"] o(1) by auto
  with f have "ds_reading s' \<Longrightarrow> (\<forall>k \<in> set (?A @ ?B). hm_get (cs_inflight (ds_state s')) (jb_job_id k) = Some k)
      \<and> mset (map jb_job_id (?A @ ?B)) + mset (map rr_job_id (ds_arrived s')) \<subseteq># flight_ids (ds_state s')"
    by (simp add: heard_def flight_ids_def)
  then show ?thesis using hear_keeps [OF inv b e] by (simp add: block_ok_def block_job_def)
qed

lemma hear_result:
  assumes inv: "duo_inv d" and b: "du_blocks d = (Some job, ResultMsg r # rest) # bs" and r: "rr_job_id r = jb_job_id job"
    and e: "drive_event x now m seed (EvMessage (ResultMsg r)) (du_drive d) = Some s'"
    and rest: "if is_lease job then job_answer job rest else rest = [JobRequest 1]"
  shows "duo_inv (d\<lparr>du_drive := s', du_blocks := (Some job, rest) # bs\<rparr>)"
proof -
  let ?s = "du_drive d" and ?A = "jobs_sent (drop (du_seen d) (ds_sent (du_drive d)))" and ?B = "block_jobs bs"
  have "ds_reading ?s" using e by (auto split: if_splits)
  then have o: "\<forall>k \<in> set (?A @ job # ?B). hm_get (cs_inflight (ds_state ?s)) (jb_job_id k) = Some k"
      "mset (map jb_job_id (?A @ job # ?B)) + mset (map rr_job_id (ds_arrived ?s)) \<subseteq># flight_ids (ds_state ?s)"
    using inv by (auto simp: duo_inv_def owed_def b block_job_def)
  then have lease: "is_lease_result (rr_job_id r) (ds_state ?s) = is_lease job" by (simp add: is_lease_result_def r)
  have shape: "rest \<noteq> []" "block_ok (Some job, rest)" "block_job (Some job, rest) = (if is_lease job then Some job else None)"
    using rest job_answer_longer [of job rest] by (auto simp: block_ok_def block_job_def split: if_splits)
  have "ds_reading s' \<Longrightarrow> heard s' (cs_inflight (ds_state ?s)) (if is_lease job then ds_arrived ?s else ds_arrived ?s @ [r])"
    using heard_reply(5,6) [OF event_reading(2,3) [OF e] refl] lease by auto
  with o have "ds_reading s' \<Longrightarrow>
      (\<forall>k \<in> set (?A @ opt_list (block_job (Some job, rest)) @ ?B). hm_get (cs_inflight (ds_state s')) (jb_job_id k) = Some k)
      \<and> mset (map jb_job_id (?A @ opt_list (block_job (Some job, rest)) @ ?B)) + mset (map rr_job_id (ds_arrived s'))
          \<subseteq># flight_ids (ds_state s')"
    by (simp add: heard_def flight_ids_def shape(3) r split: if_splits)
  then show ?thesis using hear_keeps [OF inv b e] shape(1,2) by simp
qed

lemma hear_quiet:
  assumes inv: "duo_inv d" and b: "du_blocks d = (j, [msg]) # bs" and j: "block_job (j, [msg]) = None"
    and e: "drive_event x now m seed (EvMessage msg) (du_drive d) = Some s'"
    and f: "ds_reading s' \<Longrightarrow> heard s' (cs_inflight (ds_state (du_drive d))) (ds_arrived (du_drive d))"
  shows "duo_inv (d\<lparr>du_drive := s', du_blocks := bs\<rparr>)"
proof -
  have "ds_reading (du_drive d)" using e by (auto split: if_splits)
  with inv have "\<forall>k \<in> set (jobs_sent (drop (du_seen d) (ds_sent (du_drive d))) @ block_jobs bs).
        hm_get (cs_inflight (ds_state (du_drive d))) (jb_job_id k) = Some k"
      "mset (map jb_job_id (jobs_sent (drop (du_seen d) (ds_sent (du_drive d))) @ block_jobs bs))
        + mset (map rr_job_id (ds_arrived (du_drive d))) \<subseteq># flight_ids (ds_state (du_drive d))"
    by (auto simp: duo_inv_def owed_def b j)
  with f show ?thesis using hear_keeps [OF inv b e] by (simp add: heard_def flight_ids_def)
qed

lemma hear_inv:
  assumes inv: "duo_inv d" and t: "tables_ok (ds_state (du_drive d))"
    and b: "du_blocks d = (j, msg # rest) # bs"
    and e: "drive_event x now m seed (EvMessage msg) (du_drive d) = Some s'"
  shows "reject_ok (EvMessage msg) (du_drive d) \<and>
    duo_inv (d\<lparr>du_drive := s', du_blocks := (if rest = [] then bs else (j, rest) # bs)\<rparr>)"
proof -
  have ok: "block_ok (j, msg # rest)" using inv by (simp add: duo_inv_def b)
  have flying: "hm_get (cs_inflight (ds_state (du_drive d))) (jb_job_id job) = Some job" if "j = Some job" "msg \<noteq> JobRequest 1" for job
    using inv e that by (auto simp: duo_inv_def owed_def b block_job_def split: if_splits)
  note heard = heard_reply [OF event_reading(2,3) [OF e]]
  from ok show ?thesis
  proof (cases rule: block_head)
    case quiet
    have "duo_inv (d\<lparr>du_drive := s', du_blocks := bs\<rparr>)" by (rule hear_quiet [OF inv _ _ e]) (use quiet b heard(2) in auto)
    with quiet show ?thesis by (auto simp: reject_ok_def)
  next
    case (fatal code reason)
    then have "\<not> ds_reading s'" using event_reading(2) [OF e] by (auto simp: handle_message_def Let_def split: prod.splits)
    then have "duo_inv (d\<lparr>du_drive := s', du_blocks := bs\<rparr>)"
      by (intro hear_quiet [OF inv _ _ e]) (use fatal b in \<open>auto simp: block_job_def\<close>)
    with fatal show ?thesis by (simp add: reject_ok_def)
  next
    case (reject job reason)
    have "duo_inv (d\<lparr>du_drive := s', du_blocks := (Some job, [JobRequest 1]) # bs\<rparr>)"
      by (rule hear_closes [OF inv t _ _ e]) (use reject b heard(3) in auto)
    with reject flying show ?thesis by (simp add: reject_ok_def)
  next
    case (lease_done job fin)
    have "duo_inv (d\<lparr>du_drive := s', du_blocks := (Some job, [JobRequest 1]) # bs\<rparr>)"
      by (rule hear_closes [OF inv t _ _ e]) (use lease_done b heard(4) [of _ job] flying in auto)
    with lease_done show ?thesis by (simp add: reject_ok_def)
  next
    case (plain job r)
    have "duo_inv (d\<lparr>du_drive := s', du_blocks := (Some job, rest) # bs\<rparr>)"
      by (rule hear_result [OF inv _ _ e [unfolded plain(2)]]) (use plain b in auto)
    with plain show ?thesis by (simp add: reject_ok_def)
  next
    case (winner job r)
    have "duo_inv (d\<lparr>du_drive := s', du_blocks := (Some job, rest) # bs\<rparr>)"
      by (rule hear_result [OF inv _ _ e [unfolded winner(2)]]) (use winner b in auto)
    with winner job_answer_longer [OF winner(5)] show ?thesis by (simp add: reject_ok_def)
  qed
qed

text \<open>The other sections of the drive session.\<close>

lemma work_keeps:
  assumes inv: "duo_inv d" and seen: "ds_sent s' = ds_sent (du_drive d) @ outs" and r: "ds_reading s' = ds_reading (du_drive d)"
    and read: "ds_reading s' \<Longrightarrow> (\<forall>k \<in> set (owed d @ jobs_sent outs). hm_get (cs_inflight (ds_state s')) (jb_job_id k) = Some k)
      \<and> mset (map jb_job_id (owed d @ jobs_sent outs)) + mset (map rr_job_id (ds_arrived s')) \<subseteq># flight_ids (ds_state s')"
  shows "duo_inv (d\<lparr>du_drive := s'\<rparr>)"
proof -
  have n: "du_seen d \<le> length (ds_sent (du_drive d))" using inv by (simp add: duo_inv_def)
  then have o: "mset (owed (d\<lparr>du_drive := s'\<rparr>)) = mset (owed d @ jobs_sent outs)" by (simp add: owed_def seen)
  have "set (owed (d\<lparr>du_drive := s'\<rparr>)) = set (owed d @ jobs_sent outs)" by (rule mset_eq_setD [OF o])
  moreover have "mset (map jb_job_id (owed (d\<lparr>du_drive := s'\<rparr>))) = mset (map jb_job_id (owed d @ jobs_sent outs))"
    using arg_cong [OF o, of "image_mset jb_job_id"] by (simp only: mset_map)
  ultimately show ?thesis using inv n seen read by (simp add: duo_inv_def)
qed

lemma take_jobs_sent: "jobs_sent (take k (map (\<lambda>j. DriveSend (JobMsg j)) jobs)) = take k jobs"
  by (simp add: take_map)

lemma mset_take: "mset (take k xs) \<subseteq># mset xs"
  by (metis append_take_drop_id mset_append mset_subset_eq_add_left)

lemma grant_inv:
  assumes inv: "duo_inv d" and t: "tables_ok (ds_state (du_drive d))"
    and u: "\<forall>i. count (staged_ids (ds_state (du_drive d)) + flight_ids (ds_state (du_drive d))) i \<le> 1"
    and e: "drive_event x now m seed (EvGrant lost_at) (du_drive d) = Some s'"
  shows "duo_inv (d\<lparr>du_drive := s'\<rparr>)"
proof -
  let ?s = "du_drive d"
  obtain credits rest outs st run where g: "dispatch_jobs now m credits (ds_state ?s) (ds_run ?s) = (outs, st, run)"
    and s': "s' = ?s\<lparr>ds_state := st, ds_run := run, ds_grants := rest,
        ds_sent := ds_sent ?s @ (case lost_at of None \<Rightarrow> outs | Some k \<Rightarrow> take k outs), ds_dispatching := (lost_at = None)\<rparr>"
    using e by (auto split: list.splits if_splits prod.splits)
  obtain jobs where j: "outs = map (\<lambda>j. DriveSend (JobMsg j)) jobs" and off: "takes_off jobs (ds_state ?s) st"
    using dispatch_jobs_ids [OF t u g] by blast
  define sent where "sent = (case lost_at of None \<Rightarrow> jobs | Some k \<Rightarrow> take k jobs)"
  have sent: "jobs_sent (case lost_at of None \<Rightarrow> outs | Some k \<Rightarrow> take k outs) = sent" "set sent \<subseteq> set jobs" "mset sent \<subseteq># mset jobs"
    using set_take_subset [of _ jobs] mset_take [of _ jobs]
    by (auto simp: sent_def j take_jobs_sent split: option.splits dest: in_set_takeD)
  have grown: "mset (map jb_job_id sent) \<subseteq># mset (map jb_job_id jobs)" using sent(3) by (simp add: image_mset_subseteq_mono)
  have "mset (map jb_job_id (owed d @ sent)) + mset (map rr_job_id (ds_arrived ?s)) \<subseteq># flight_ids st" if "ds_reading ?s"
  proof -
    have "mset (map jb_job_id (owed d)) + mset (map rr_job_id (ds_arrived ?s)) \<subseteq># flight_ids (ds_state ?s)"
      using inv that by (simp add: duo_inv_def)
    from subset_mset.add_mono [OF this grown] off show ?thesis by (simp add: takes_off_def ac_simps)
  qed
  moreover have "\<forall>k \<in> set (owed d @ sent). hm_get (cs_inflight st) (jb_job_id k) = Some k" if "ds_reading ?s"
    using inv that off sent(2) by (auto simp: duo_inv_def takes_off_def)
  ultimately show ?thesis by (intro work_keeps [OF inv]) (auto simp: s' sent(1))
qed

lemma take_inv:
  assumes inv: "duo_inv d" and t: "tables_ok (ds_state (du_drive d))"
    and e: "drive_event x now m seed (EvTake i) (du_drive d) = Some s'"
  shows "duo_inv (d\<lparr>du_drive := s'\<rparr>)"
proof -
  let ?s = "du_drive d"
  let ?i = "rr_job_id (ds_arrived ?s ! i)" and ?rest = "drop_nth i (ds_arrived ?s)"
  have i: "i < length (ds_arrived ?s)" and s': "ds_state s' = landed ?i (ds_state ?s)" "ds_arrived s' = ?rest"
      "ds_sent s' = ds_sent ?s" "ds_reading s' = ds_reading ?s"
    using e by (auto simp: take_drive_result_def split: if_splits)
  have arrived: "mset (map rr_job_id (ds_arrived ?s)) = add_mset ?i (mset (map rr_job_id ?rest))"
    unfolding drop_nth_def by (subst id_take_nth_drop [OF i]) simp
  have "(\<forall>k \<in> set (owed d). hm_get (cs_inflight (ds_state s')) (jb_job_id k) = Some k)
      \<and> mset (map jb_job_id (owed d)) + mset (map rr_job_id ?rest) \<subseteq># flight_ids (ds_state s')" if "ds_reading ?s"
  proof -
    have o: "\<forall>k \<in> set (owed d). hm_get (cs_inflight (ds_state ?s)) (jb_job_id k) = Some k"
        "add_mset ?i (mset (map jb_job_id (owed d)) + mset (map rr_job_id ?rest)) \<subseteq># flight_ids (ds_state ?s)"
      using inv that arrived by (auto simp: duo_inv_def)
    then have "?i \<in># flight_ids (ds_state ?s)" by (meson mset_subset_eqD union_single_eq_member)
    then obtain job where "hm_get (cs_inflight (ds_state ?s)) ?i = Some job" by (auto simp: flight_ids_def hm.keys_dom)
    from land_others [OF t this o(2) _ o(1)] show ?thesis by (simp add: s'(1))
  qed
  then show ?thesis using work_keeps [OF inv, of s' "[]"] s'(2-4) by simp
qed

lemma score_inv:
  assumes inv: "duo_inv d" and e: "drive_event x now m seed (EvScore i) (du_drive d) = Some s'"
  shows "duo_inv (d\<lparr>du_drive := s'\<rparr>)"
proof -
  obtain outs where s': "ds_state s' = ds_state (du_drive d)" "ds_arrived s' = ds_arrived (du_drive d)"
      "ds_sent s' = ds_sent (du_drive d) @ outs" "ds_reading s' = ds_reading (du_drive d)" "jobs_sent outs = []"
    using e by (auto simp: Let_def split: if_splits)
  with inv show ?thesis by (intro work_keeps [OF inv s'(3)]) (auto simp: duo_inv_def)
qed

lemma end_inv:
  assumes inv: "duo_inv d" and e: "drive_event x now m seed EvStreamEnd (du_drive d) = Some s'"
  shows "duo_inv (d\<lparr>du_drive := s'\<rparr>)"
  using e inv by (auto simp: duo_inv_def stop_reading_def split: if_splits)

text \<open>Every session such a run reaches is one that \<open>drive_reach\<close> reaches.\<close>

lemma duo_reach_drive:
  assumes "duo_reach x L m seed s0 d" and s0: "drive_inv jobs s0" "ds_arrived s0 = []" "jobs_sent (ds_sent s0) = []"
    and dist: "distinct (map jb_job_id jobs)"
  shows "drive_reach x m seed s0 (du_drive d) \<and> duo_inv d"
  using assms(1)
proof (induction rule: duo_reach.induct)
  case duo_reach_start
  show ?case using s0 by (auto simp: duo_start_def duo_inv_def owed_def intro: drive_reach_start)
next
  case (duo_reach_step d now mv d')
  then have r: "drive_reach x m seed s0 (du_drive d)" and inv: "duo_inv d" by simp_all
  have drive: "drive_inv jobs (du_drive d)" by (rule drive_reach_inv [OF r s0(1) dist])
  then have t: "tables_ok (ds_state (du_drive d))" by (simp add: drive_inv_def)
  note step = drive_reach_step [OF r]
  show ?case
  proof (cases mv)
    case Deliver
    then show ?thesis using deliver_inv [OF inv] duo_reach_step.hyps(2) r by metis
  next
    case Hear
    then obtain j msg rest bs s' where h: "du_blocks d = (j, msg # rest) # bs"
        "drive_event x now m seed (EvMessage msg) (du_drive d) = Some s'"
        "d' = d\<lparr>du_drive := s', du_blocks := (if rest = [] then bs else (j, rest) # bs)\<rparr>"
      using duo_reach_step.hyps(2) by (auto simp del: drive_event.simps split: list.splits prod.splits)
    from hear_inv [OF inv t h(1,2)] step [OF _ h(2)] h(3) show ?thesis by simp
  next
    case (Work ev)
    then obtain s' where e: "drive_event x now m seed ev (du_drive d) = Some s'" and d': "d' = d\<lparr>du_drive := s'\<rparr>"
      and ev: "\<And>msg. ev \<noteq> EvMessage msg"
      using duo_reach_step.hyps(2) by (auto simp del: drive_event.simps split: DriveEvent.splits)
    have "duo_inv d'"
      using e ev grant_inv [OF inv t drive_inv_unique [OF drive dist]] take_inv [OF inv t] score_inv [OF inv] end_inv [OF inv]
      by (cases ev) (simp_all only: d', blast+)
    moreover have "reject_ok ev (du_drive d)" using ev by (auto simp: reject_ok_def split: DriveEvent.splits)
    ultimately show ?thesis using step [OF _ e] d' by simp
  qed
qed

lemma drive_start_quiet:
  assumes "drive_start x now m msg jobs st run = Some (seed, s)"
  shows "ds_arrived s = [] \<and> jobs_sent (ds_sent s) = []"
  using assms
  by (auto simp: drive_start_def drive_handshake_def Let_def jobs_sent_def
      split: option.splits if_splits MinerMsg.splits prod.splits)


text \<open>A run in which the miner is given a job without a problem and rejects it.\<close>

fun duo_moves ::
  "('e, 'd, 'topo) Externals \<Rightarrow> 'view MinerLib \<Rightarrow> string \<Rightarrow> nat \<Rightarrow> DuoMove list \<Rightarrow> 'topo Duo \<Rightarrow> 'topo Duo option" where
  "duo_moves x L m seed [] d = Some d"
| "duo_moves x L m seed (mv # mvs) d = Option.bind (duo_move x L m seed 0 mv d) (duo_moves x L m seed mvs)"

lemma duo_moves_reach:
  "duo_moves x L m seed mvs d = Some d' \<Longrightarrow> duo_reach x L m seed s0 d \<Longrightarrow> duo_reach x L m seed s0 d'"
  by (induction mvs arbitrary: d) (auto simp: bind_eq_Some_conv simp del: duo_move.simps intro: duo_reach_step)

definition ex_duo :: "(nat \<times> unit DriveSession \<times> unit Duo) option" where
  "ex_duo = Option.bind (drive_start ex_externals 0 ''d'' ex_drive_hello (dm_jobs ex_drive) (drive_state ex_externals ex_drive)
       (run_new (length (dm_jobs ex_drive)))) (\<lambda>(seed, s0).
     map_option (\<lambda>d. (seed, s0, d)) (duo_moves ex_externals ex_miner_lib ''d'' seed
       [Deliver, Deliver, Hear, Work (EvGrant None), Deliver, Hear, Hear] (duo_start s0)))"

lemmas ex_duo_simps = ex_miner_lib_def mock_message_def mock_job_def reject_and_replace_def mock_start_def duo_start_def
  ising_default_def drive_reject_def

lemma ex_duo_runs:
  "case ex_duo of None \<Rightarrow> False | Some (seed, s0, d) \<Rightarrow> map rw_job_id (ru_rows (ds_run (du_drive d))) = [[1]]"
  by (simp add: ex_duo_def drive_start_simps ex_drive_simps ex_play_simps ex_duo_simps)


end
