(* ===== verification/Exec.thy ===== *)
theory Exec
  imports Prelude
begin

text \<open>
  \<open>quip-solver-exec/src/lib.rs\<close>: a sampler that writes each problem as JSON, runs an external program on it and reads
  its answer. The JSON codec, the shell-word splitter, the temporary directory and what the operating system answers
  at each step of a run are arguments; the program is polled every five milliseconds, plus the delay
  the machine adds.
\<close>

subsection \<open>The command\<close>

record ExecSampler =
  ex_argv_template :: "string list"
  ex_timeout_ms :: nat
  ex_use_stdin :: bool

fun starts_with :: "string \<Rightarrow> string \<Rightarrow> bool" where
  "starts_with [] s = True"
| "starts_with (c # cs) [] = False"
| "starts_with (c # cs) (d # ds) = (c = d \<and> starts_with cs ds)"

fun str_contains :: "string \<Rightarrow> string \<Rightarrow> bool" where
  "str_contains pat [] = (pat = [])"
| "str_contains pat (c # s) = (starts_with pat (c # s) \<or> str_contains pat s)"

text \<open>\<open>str::replace\<close> for a pattern that is not empty: its occurrences from the left that do not overlap.\<close>

function str_replace :: "string \<Rightarrow> string \<Rightarrow> string \<Rightarrow> string" where
  "str_replace pat by_text s =
     (case s of
        [] \<Rightarrow> []
      | c # rest \<Rightarrow>
          if pat \<noteq> [] \<and> starts_with pat s then by_text @ str_replace pat by_text (drop (length pat) s)
          else c # str_replace pat by_text rest)"
  by pat_completeness auto

termination str_replace
  by (relation "measure (\<lambda>(pat, by_text, s). length s)") auto

declare str_replace.simps [simp del]

definition MODEL_SLOT :: string where
  "MODEL_SLOT = ''{model}''"

text \<open>\<open>split\<close> is \<open>shlex::split\<close> and \<open>debug\<close> the quoted form of a string.\<close>

definition exec_new ::
  "(string \<Rightarrow> string list option) \<Rightarrow> (string \<Rightarrow> string) \<Rightarrow> string \<Rightarrow> nat \<Rightarrow> bool \<Rightarrow> string + ExecSampler" where
  "exec_new split debug solver_cmd timeout_ms use_stdin =
     (case split solver_cmd of
        None \<Rightarrow> Inl (''--solver-cmd is not a valid command: '' @ debug solver_cmd)
      | Some argv_template \<Rightarrow>
          if argv_template = [] then Inl ''--solver-cmd is empty''
          else if \<not> use_stdin \<and> \<not> list_ex (str_contains MODEL_SLOT) argv_template
          then Inl ''--solver-cmd must contain the {model} placeholder (or pass --solver-stdin)''
          else Inr \<lparr> ex_argv_template = argv_template, ex_timeout_ms = timeout_ms, ex_use_stdin = use_stdin \<rparr>)"

definition render_argv :: "string list \<Rightarrow> string \<Rightarrow> string list" where
  "render_argv tmpl path = map (str_replace MODEL_SLOT path) tmpl"

subsection \<open>The answer\<close>

datatype SampleError = DeviceBusy | DeviceFault string

record SamplerResult =
  sr_spins :: "int list"
  sr_energy_milli :: int

fun check_solutions :: "nat \<Rightarrow> SamplerResult list \<Rightarrow> SampleError + SamplerResult list" where
  "check_solutions num_nodes [] = Inr []"
| "check_solutions num_nodes (s # ss) =
     (if length (sr_spins s) \<noteq> num_nodes \<or> list_ex (\<lambda>v. v \<noteq> -1 \<and> v \<noteq> 1) (sr_spins s)
      then Inl (DeviceFault (''solver read has '' @ show_nat (length (sr_spins s)) @ '' spins for '' @ show_nat num_nodes
             @ '' nodes, or a spin outside {-1, +1}''))
      else map_sum id (Cons s) (check_solutions num_nodes ss))"

definition parse_solutions ::
  "(bytes \<Rightarrow> string + SamplerResult list) \<Rightarrow> bytes \<Rightarrow> nat \<Rightarrow> SampleError + SamplerResult list" where
  "parse_solutions from_json out num_nodes =
     (case from_json out of
        Inl e \<Rightarrow> Inl (DeviceFault (''solver output is not valid JSON: '' @ e))
      | Inr solutions \<Rightarrow> check_solutions num_nodes solutions)"

subsection \<open>A run of the program\<close>

datatype SpawnError = NotFound string | PermissionDenied string | SpawnOther

datatype ExitStatus = ExitedWith int | Signaled nat

datatype Poll = Exited ExitStatus | StillRunning | PollFailed

text \<open>
  What the system answers: whether the program can be started and its output read, the answer of each poll with the
  delay before the next one beyond the sleep, what its output held once the program ended and the pipe closed (\<open>None\<close>: another
  process keeps the pipe open and the reader never ends), and the text of a status.
\<close>

record SolverHost =
  sh_spawn :: "SpawnError option"
  sh_has_stdout :: bool
  sh_poll :: "nat \<Rightarrow> Poll"
  sh_delay :: "nat \<Rightarrow> nat"
  sh_stdout :: "bytes option"
  sh_status_text :: "ExitStatus \<Rightarrow> string"
  sh_debug :: "string \<Rightarrow> string"

function wait_solver :: "SolverHost \<Rightarrow> nat \<Rightarrow> nat \<Rightarrow> nat \<Rightarrow> SampleError + ExitStatus" where
  "wait_solver H deadline now k =
     (case sh_poll H k of
        Exited status \<Rightarrow> Inr status
      | PollFailed \<Rightarrow> Inl DeviceBusy
      | StillRunning \<Rightarrow>
          if now \<ge> deadline then Inl DeviceBusy else wait_solver H deadline (now + 5 + sh_delay H k) (Suc k))"
  by pat_completeness auto

termination wait_solver
  by (relation "measure (\<lambda>(H, deadline, now, k). deadline - now)") auto

declare wait_solver.simps [simp del]

text \<open>
  The wait for the program is bounded, the join of the reader after an exit is not: \<open>None\<close> is a run that never returns.
\<close>

definition run_solver :: "SolverHost \<Rightarrow> string list \<Rightarrow> nat \<Rightarrow> (SampleError + bytes) option" where
  "run_solver H argv timeout_ms =
     (case argv of
        [] \<Rightarrow> Some (Inl (DeviceFault ''solver command is empty''))
      | prog # _ \<Rightarrow>
     (case sh_spawn H of
        Some (NotFound e) \<Rightarrow> Some (Inl (DeviceFault (''cannot spawn solver '' @ sh_debug H prog @ '': '' @ e)))
      | Some (PermissionDenied e) \<Rightarrow> Some (Inl (DeviceFault (''cannot spawn solver '' @ sh_debug H prog @ '': '' @ e)))
      | Some SpawnOther \<Rightarrow> Some (Inl DeviceBusy)
      | None \<Rightarrow>
          if \<not> sh_has_stdout H then Some (Inl DeviceBusy)
          else case wait_solver H timeout_ms 0 0 of
                 Inl e \<Rightarrow> Some (Inl e)
               | Inr status \<Rightarrow>
          (case sh_stdout H of
             None \<Rightarrow> None
           | Some stdout \<Rightarrow>
               Some (case status of
                       ExitedWith code \<Rightarrow>
                         if code = 0 then Inr stdout
                         else Inl (DeviceFault (''solver exited with '' @ sh_status_text H status))
                     | Signaled _ \<Rightarrow> Inl DeviceBusy))))"

subsection \<open>The sampler\<close>

text \<open>Model files are named by the process and a counter, which the write advances whether or not it succeeds.\<close>

definition temp_model_path :: "string \<Rightarrow> nat \<Rightarrow> nat \<Rightarrow> string" where
  "temp_model_path temp_dir pid n =
     temp_dir @ ''/quip-exec-model-'' @ show_nat pid @ ''-'' @ show_nat n @ ''.json''"

record ExecEnv =
  en_temp_dir :: string
  en_pid :: nat
  en_write_ok :: "string \<Rightarrow> bytes \<Rightarrow> bool"
  en_from_json :: "bytes \<Rightarrow> string + SamplerResult list"

text \<open>The result, the counter after it, and the command line that was run, if any; \<open>None\<close> when the run never returns.\<close>

definition exec_sample ::
  "ExecSampler \<Rightarrow> ExecEnv \<Rightarrow> (string list \<Rightarrow> SolverHost) \<Rightarrow> (string + bytes) \<Rightarrow> nat \<Rightarrow> nat
    \<Rightarrow> ((SampleError + SamplerResult list) \<times> nat \<times> string list option) option" where
  "exec_sample x env host model num_nodes counter =
     (case model of
        Inl e \<Rightarrow> Some (Inl (DeviceFault (''model serialize: '' @ e)), counter, None)
      | Inr bytes \<Rightarrow>
          let run = (\<lambda>argv n. map_option (\<lambda>r. (case r of
                Inl e \<Rightarrow> Inl e | Inr out \<Rightarrow> parse_solutions (en_from_json env) out num_nodes, n, Some argv))
                (run_solver (host argv) argv (ex_timeout_ms x))) in
          if ex_use_stdin x then run (ex_argv_template x) counter
          else let path = temp_model_path (en_temp_dir env) (en_pid env) counter;
                   n = (counter + 1) mod 2 ^ 64 in
               if \<not> en_write_ok env path bytes then Some (Inl DeviceBusy, n, None)
               else run (render_argv (ex_argv_template x) path) n)"

end
