(* ===== verification/Exec_Laws.thy ===== *)
theory Exec_Laws
  imports Exec
begin

text \<open>
  What the exec solver promises: the wait for the external program is over within its time limit, every outcome has the one class
  the documented contract gives it, and accepted rows have the shape the protocol needs.
\<close>

subsection \<open>Waiting\<close>

text \<open>The polls up to the first that settles the wait; the clock at poll \<open>k\<close>.\<close>

definition poll_time :: "SolverHost \<Rightarrow> nat \<Rightarrow> nat" where
  "poll_time H k = (\<Sum>i<k. 5 + sh_delay H i)"

lemma poll_time_Suc: "poll_time H (Suc k) = poll_time H k + 5 + sh_delay H k"
  by (simp add: poll_time_def)

lemma poll_time_ge: "5 * k \<le> poll_time H k"
  by (induction k) (auto simp: poll_time_Suc)

lemma wait_solver_from:
  assumes "\<forall>i. k \<le> i \<and> i < n \<longrightarrow> sh_poll H i = StillRunning \<and> poll_time H i < deadline" "k \<le> n"
    "sh_poll H n \<noteq> StillRunning \<or> deadline \<le> poll_time H n"
  shows "wait_solver H deadline (poll_time H k) k
    = (case sh_poll H n of Exited status \<Rightarrow> Inr status | _ \<Rightarrow> Inl DeviceBusy)"
  using assms
proof (induction "n - k" arbitrary: k)
  case 0
  then have "k = n" by simp
  with 0 show ?case by (auto simp: wait_solver.simps [of H deadline "poll_time H n" n] split: Poll.splits)
next
  case (Suc r)
  then have k: "k < n" "sh_poll H k = StillRunning" "poll_time H k < deadline" by auto
  have "wait_solver H deadline (poll_time H (Suc k)) (Suc k) = (case sh_poll H n of Exited status \<Rightarrow> Inr status | _ \<Rightarrow> Inl DeviceBusy)"
    using Suc k by (intro Suc.hyps(1)) auto
  with k show ?case by (simp add: wait_solver.simps [of H deadline "poll_time H k" k] poll_time_Suc)
qed

text \<open>The wait always ends, and after at most one poll per five milliseconds of the limit.\<close>

lemma wait_settles:
  "\<exists>n \<le> deadline div 5 + 1. (\<forall>i<n. sh_poll H i = StillRunning \<and> poll_time H i < deadline)
     \<and> (sh_poll H n \<noteq> StillRunning \<or> deadline \<le> poll_time H n)"
proof -
  define stop where "stop n \<longleftrightarrow> sh_poll H n \<noteq> StillRunning \<or> deadline \<le> poll_time H n" for n
  have "deadline \<le> 5 * (deadline div 5 + 1)" by presburger
  then have "stop (deadline div 5 + 1)" using poll_time_ge [of "deadline div 5 + 1" H] by (simp add: stop_def)
  then obtain n where "stop n" "n \<le> deadline div 5 + 1" "\<And>i. i < n \<Longrightarrow> \<not> stop i"
    using LeastI [of stop] Least_le [of stop] not_less_Least [of _ stop] by blast
  then show ?thesis unfolding stop_def by (metis not_le)
qed

subsection \<open>Outcomes\<close>

text \<open>Poll \<open>n\<close> is the one that settles a wait.\<close>

definition settles :: "SolverHost \<Rightarrow> nat \<Rightarrow> nat \<Rightarrow> bool" where
  "settles H limit n \<longleftrightarrow> (\<forall>i<n. sh_poll H i = StillRunning \<and> poll_time H i < limit)
     \<and> (sh_poll H n \<noteq> StillRunning \<or> limit \<le> poll_time H n)"

lemma run_solver_settled:
  assumes "settles H limit n"
  shows "run_solver H (prog # args) limit =
    (case sh_spawn H of
       Some (NotFound e) \<Rightarrow> Some (Inl (DeviceFault (''cannot spawn solver '' @ sh_debug H prog @ '': '' @ e)))
     | Some (PermissionDenied e) \<Rightarrow> Some (Inl (DeviceFault (''cannot spawn solver '' @ sh_debug H prog @ '': '' @ e)))
     | Some SpawnOther \<Rightarrow> Some (Inl DeviceBusy)
     | None \<Rightarrow>
         (case (sh_has_stdout H, sh_poll H n) of
            (True, Exited status) \<Rightarrow> map_option (\<lambda>stdout. case status of
                ExitedWith code \<Rightarrow> if code = 0 then Inr stdout
                  else Inl (DeviceFault (''solver exited with '' @ sh_status_text H (ExitedWith code)))
              | Signaled _ \<Rightarrow> Inl DeviceBusy) (sh_stdout H)
          | _ \<Rightarrow> Some (Inl DeviceBusy)))"
proof -
  have "wait_solver H limit (poll_time H 0) 0 = (case sh_poll H n of Exited status \<Rightarrow> Inr status | _ \<Rightarrow> Inl DeviceBusy)"
    using assms by (intro wait_solver_from) (auto simp: settles_def)
  then have "wait_solver H limit 0 0 = (case sh_poll H n of Exited status \<Rightarrow> Inr status | _ \<Rightarrow> Inl DeviceBusy)"
    by (simp add: poll_time_def)
  then show ?thesis
    by (auto simp: run_solver_def split: option.splits SpawnError.splits Poll.splits ExitStatus.splits)
qed

text \<open>
  The wait for the program is over within its limit, after at most one poll per five milliseconds of it, and the
  outcome of a run is the documented one. It succeeds exactly when the program starts and exits with code 0 by then and its
  output closes, and returns what was written. It is a fault, which ends the session, exactly when the program cannot be found or
  executed, or exits with a code of its own and its output closes; every other outcome (host pressure at start, a failed
  poll, a signal, the time limit) only rejects the job. The run itself has no bound: it never returns exactly when the program
  exits in time while another process keeps its output open, since the reader is then joined without a limit.
\<close>
theorem exec_run_exact:
  "\<exists>n \<le> limit div 5 + 1. settles H limit n
     \<and> (\<forall>out. run_solver H (prog # args) limit = Some (Inr out) \<longleftrightarrow>
          sh_spawn H = None \<and> sh_has_stdout H \<and> sh_poll H n = Exited (ExitedWith 0) \<and> sh_stdout H = Some out)
     \<and> ((\<exists>why. run_solver H (prog # args) limit = Some (Inl (DeviceFault why))) \<longleftrightarrow>
          (\<exists>e. sh_spawn H = Some (NotFound e) \<or> sh_spawn H = Some (PermissionDenied e))
          \<or> (sh_spawn H = None \<and> sh_has_stdout H \<and> sh_stdout H \<noteq> None
              \<and> (\<exists>code. code \<noteq> 0 \<and> sh_poll H n = Exited (ExitedWith code))))
     \<and> (run_solver H (prog # args) limit = None \<longleftrightarrow>
          sh_spawn H = None \<and> sh_has_stdout H \<and> sh_stdout H = None \<and> (\<exists>status. sh_poll H n = Exited status))"
proof -
  obtain n where n: "n \<le> limit div 5 + 1" "settles H limit n" using wait_settles [of limit H] by (auto simp: settles_def)
  show ?thesis
    using n run_solver_settled [OF n(2), of prog args]
    by (intro exI [of _ n]; cases "sh_spawn H"; cases "sh_stdout H"; cases "sh_poll H n")
       (auto split: SpawnError.splits ExitStatus.splits bool.splits if_splits)
qed

lemma check_solutions_Inr:
  "check_solutions n ss = Inr rows \<longleftrightarrow> rows = ss \<and> list_all (\<lambda>s. length (sr_spins s) = n \<and> set (sr_spins s) \<subseteq> {-1, 1}) ss"
proof (induction ss arbitrary: rows)
  case (Cons s ss)
  then show ?case by (cases "check_solutions n ss") (auto simp: list_ex_iff)
qed auto

text \<open>
  A sample that succeeds comes from a run of the rendered command that ended with code 0 within its limit: its rows are those
  of the program's output, and each has one spin per node, up or down.
\<close>
theorem exec_sample_sound:
  assumes "exec_sample x env host model num_nodes counter = Some (Inr rows, counter', ran_cmd)"
  shows "\<exists>argv. ran_cmd = Some argv
     \<and> argv = (if ex_use_stdin x then ex_argv_template x
               else render_argv (ex_argv_template x) (temp_model_path (en_temp_dir env) (en_pid env) counter))
     \<and> (\<exists>n \<le> ex_timeout_ms x div 5 + 1. settles (host argv) (ex_timeout_ms x) n \<and> sh_poll (host argv) n = Exited (ExitedWith 0))
     \<and> (\<exists>out. sh_stdout (host argv) = Some out \<and> en_from_json env out = Inr rows)
     \<and> list_all (\<lambda>s. length (sr_spins s) = num_nodes \<and> set (sr_spins s) \<subseteq> {-1, 1}) rows"
proof -
  obtain argv out where a: "ran_cmd = Some argv" "argv = (if ex_use_stdin x then ex_argv_template x
        else render_argv (ex_argv_template x) (temp_model_path (en_temp_dir env) (en_pid env) counter))"
    and r: "run_solver (host argv) argv (ex_timeout_ms x) = Some (Inr out)" "parse_solutions (en_from_json env) out num_nodes = Inr rows"
    using assms by (auto simp: exec_sample_def Let_def map_option_case split: sum.split_asm if_splits option.split_asm)
  obtain prog args where argv: "argv = prog # args" using r(1) by (cases argv) (auto simp: run_solver_def)
  obtain n where "n \<le> ex_timeout_ms x div 5 + 1" "settles (host argv) (ex_timeout_ms x) n"
      "sh_poll (host argv) n = Exited (ExitedWith 0)" "sh_stdout (host argv) = Some out"
    using exec_run_exact [of "ex_timeout_ms x" "host argv" prog args] r(1) unfolding argv by blast
  with a r(2) show ?thesis by (auto simp: parse_solutions_def check_solutions_Inr split: sum.splits)
qed

text \<open>Model files of one process never share a name while the counter has not wrapped.\<close>

lemma temp_model_path_inj:
  "n \<le> u64_max \<Longrightarrow> n' \<le> u64_max \<Longrightarrow> temp_model_path dir pid n = temp_model_path dir pid n' \<longleftrightarrow> n = n'"
  by (auto simp: temp_model_path_def simp: show_nat_inj)

subsection \<open>Templates\<close>

text \<open>A command that was accepted without standard input names the model file.\<close>

lemma starts_with_iff: "starts_with pat s \<longleftrightarrow> (\<exists>rest. s = pat @ rest)"
  by (induction pat s rule: starts_with.induct) auto

lemma str_contains_iff: "str_contains pat s \<longleftrightarrow> (\<exists>a b. s = a @ pat @ b)"
  by (induction s) (auto simp: starts_with_iff Cons_eq_append_conv)

lemma str_replace_occurs: "pat \<noteq> [] \<Longrightarrow> str_contains pat s \<Longrightarrow> str_contains path (str_replace pat path s)"
proof (induction pat path s rule: str_replace.induct)
  case (1 pat path s)
  show ?case
  proof (cases s)
    case (Cons c rest)
    show ?thesis
    proof (cases "starts_with pat s")
      case True
      with 1(3) Cons show ?thesis by (subst str_replace.simps) (auto simp: str_contains_iff intro: exI [of _ "[]"])
    next
      case False
      with 1(4) Cons have "str_contains pat rest" by auto
      with 1(2) [OF Cons] False 1(3) have "str_contains path (str_replace pat path rest)" by simp
      then have "str_contains path (c # str_replace pat path rest)" by simp
      with False Cons show ?thesis by (subst str_replace.simps) simp
    qed
  qed (use 1 in simp)
qed

theorem exec_command_names_model:
  assumes "exec_new split debug solver_cmd timeout_ms False = Inr x"
  shows "\<exists>arg \<in> set (render_argv (ex_argv_template x) path). str_contains path arg"
proof -
  obtain t where "t \<in> set (ex_argv_template x)" "str_contains MODEL_SLOT t"
    using assms by (auto simp: exec_new_def list_ex_iff split: option.splits if_splits)
  then show ?thesis using str_replace_occurs [of MODEL_SLOT t path] by (auto simp: render_argv_def MODEL_SLOT_def)
qed

end
