(* ===== verification/Spec2Isabelle.thy ===== *)
theory Spec2Isabelle
  imports Round Validate_Laws Session_Laws Funding PoolWatch Survey Readiness Feeding_Laws Client_Laws Startup_Laws Dashboard_Laws Seed_Laws Mock_Laws Exec_Laws
begin

text \<open>
  This development verifies the coordinator of the mining stack and its two miner binaries (the crates
  \<^verbatim>\<open>quip-coordinator\<close>, \<^verbatim>\<open>quip-mock-miner\<close> and \<^verbatim>\<open>quip-solver-exec\<close>; other paths below are relative to
  \<^verbatim>\<open>src/crates/quip-coordinator/src\<close>).  The coordinator follows a Substrate chain, stages Ising
  problems for miner subprocesses, validates what they return and submits the proofs that clear
  the difficulty gates.

  \<^bold>\<open>How the parts interact.\<close>  The feeder task (\<^verbatim>\<open>runtime.rs\<close>) polls the chain.  A round begins
  with a walk over the round state machine (\<^verbatim>\<open>round.rs\<close>): stop mining, wait for a synced
  validator, fund the account, register the miner, download the requirements, file the node
  descriptor, start mining.  While it mines, the feeder derives jobs (\<^verbatim>\<open>producer/\<close>,
  \<^verbatim>\<open>lease.rs\<close>), stages them in the router (\<^verbatim>\<open>router.rs\<close>), and submits a candidate of
  the win stash (\<^verbatim>\<open>stash.rs\<close>) when the decaying target (\<^verbatim>\<open>decay.rs\<close>) reaches its energy.
  It watches the transaction pool (\<^verbatim>\<open>pool_watch.rs\<close>) for a proof that clears the gates and then
  stops for the win.  Each miner has a session task (\<^verbatim>\<open>session.rs\<close>) that grants it jobs
  against its credits, validates its results (\<^verbatim>\<open>validate.rs\<close>) and stashes or submits them; a
  supervisor task (\<^verbatim>\<open>supervisor.rs\<close>) restarts the process and requeues its jobs.  All of them share
  one \<^verbatim>\<open>CoordinatorState\<close> behind a lock, which is the record of that name in \<open>Session\<close>.

  \<^bold>\<open>The theories.\<close>
  \<^item> \<open>Prelude\<close>: saturating and wrapping arithmetic, association-list hash maps (\<open>hm_get\<close>,
    \<open>hm_insert\<close>, \<open>hm_remove\<close>), list and option lemmas, the \<^theory_text>\<open>named_theorems\<close> collections.
    \<open>Text\<close>: Rust strings as lists of characters with their UTF-8 bytes.  \<open>Float64\<close>: IEEE doubles
    as exact rationals rounded to the nearest double after each operation.  \<open>Ledger\<close>: runs of a component
    and the locales of an invariant, a conserved quantity and a bounded one; the router and the stash interpret them.
  \<^item> \<open>Wire\<close>, \<open>Topology\<close>, \<open>Problem\<close>: protocol messages, the session topology and its
    fingerprints (\<^verbatim>\<open>topology.rs\<close>), and the authoring of jobs from chain data
    (\<^verbatim>\<open>producer/*.rs\<close>, \<^verbatim>\<open>chain/mempool.rs\<close>, \<^verbatim>\<open>chain/snapshot.rs\<close>): an order's
    node and edge positions are exact, and the native fingerprint identifies a graph.
  \<^item> \<open>Round\<close>: \<^verbatim>\<open>RoundState::transition\<close>; a run that mines passed every gate after the last
    new head, and from every state successes lead to mining.
  \<^item> \<open>Router\<close> with \<open>Router_Laws\<close>: every method of \<^verbatim>\<open>Router\<close>.  Over any sequence of calls jobs
    are conserved as a multiset, dispatches never exceed the granted credits, the dispatched job is
    the first one of the queue that fits the miner's envelope, and a rejected job does not return to
    the rejecting miner.
  \<^item> \<open>Validate\<close> with \<open>Validate_Laws\<close>: scoring, deduplication, selection, gates and stash rows of
    \<^verbatim>\<open>validate.rs\<close>; what is submitted clears the gates, and every row set taken from a stash
    entry clears them at each ceiling.
  \<^item> \<open>Decay\<close>, \<open>Stash\<close>, \<open>Lease\<close>, \<open>Submit\<close>, \<open>Timing\<close>, \<open>Liveness\<close>,
    \<open>Metrics\<close>, \<open>Supervisor\<close>, \<open>Attempt\<close>: one theory per module of these names
    (\<open>Submit\<close>: \<^verbatim>\<open>chain/submit.rs\<close> and \<^verbatim>\<open>chain/outcome.rs\<close>; \<open>Supervisor\<close> also the launch
    entry of \<^verbatim>\<open>config.rs\<close>).  They show, among others, that the clearing search equals the first
    block at which the eased threshold reaches the energy, that the stash holds the k lowest viable energies,
    the exact restart budget and the partition of the attempt log, whose writes may be refused or cut short.
  \<^item> \<open>Extrinsic\<close>: signed extrinsics, hex, storage keys and the pending-proof decoder
    (\<^verbatim>\<open>chain/extrinsic.rs\<close>, \<^verbatim>\<open>chain/orders.rs\<close>, \<^verbatim>\<open>chain/pool.rs\<close>), with the
    round trip from a signed proof to the decoded one.
  \<^item> \<open>Rpc\<close>, \<open>Client\<close> with \<open>Client_Laws\<close>: JSON answers, the mirrored storage types and calls
    (\<^verbatim>\<open>chain/watch.rs\<close>, \<^verbatim>\<open>chain/dryrun.rs\<close>, \<^verbatim>\<open>chain/account.rs\<close>,
    \<^verbatim>\<open>chain/scale_types.rs\<close>) and the chain client (\<^verbatim>\<open>chain/real.rs\<close>,
    \<^verbatim>\<open>chain/proof_encode.rs\<close>) over an arbitrary network.  Under a node that answers truthfully a reported
    success stands for the client's own extrinsic in a block and the entry it writes, the orders fetched are
    exactly those that admit the registered solver, and a snapshot is that of its head.
  \<^item> \<open>Session\<close> with \<open>Session_Laws\<close>: \<^verbatim>\<open>CoordinatorState\<close> and every message handler of
    \<^verbatim>\<open>session.rs\<close>.  The step relation \<open>session_step\<close> interleaves handlers of all miners; a job
    staged is later staged, in flight, finished or reported as dropped exactly once, cancelled work is
    never scored, and mempool results do not touch the proof-of-work state.
  \<^item> \<open>Funding\<close> (\<^verbatim>\<open>funding.rs\<close>, \<^verbatim>\<open>chain/sync.rs\<close>), \<open>PoolWatch\<close>
    (\<^verbatim>\<open>pool_watch.rs\<close>), \<open>Survey\<close> (\<^verbatim>\<open>survey.rs\<close>), \<open>Readiness\<close>
    (\<^verbatim>\<open>readiness.rs\<close>): the waits return, the judge of pending proofs agrees with the
    coordinator's own gates, the sanitized survey fits the pallet bounds, and the outcome of the
    start-up walk is determined by the chain's answers.
  \<^item> \<open>Feeder\<close>, \<open>Feeding\<close> with \<open>Feeder_Laws\<close>, \<open>Feeding_Laws\<close>: the walk
    \<^verbatim>\<open>drive_to_mining\<close> and one poll of \<^verbatim>\<open>feeder_loop\<close> of \<^verbatim>\<open>runtime.rs\<close>.  Mining
    starts only after each gate held, polls move the round only along the machine's edges, staging
    refines the job ledger, stopping clears the round, and only candidates that pass the replayed
    gates are submitted.
  \<^item> \<open>Config\<close>, \<open>Startup\<close> with \<open>Config_Laws\<close>, \<open>Startup_Laws\<close>: the parse of the
    configuration file (\<^verbatim>\<open>config.rs\<close>), the compatibility check (\<^verbatim>\<open>chain/preflight.rs\<close>), the
    \<^verbatim>\<open>--config\<close> command of \<^verbatim>\<open>main.rs\<close> and the state \<^verbatim>\<open>run_runtime\<close> starts from.  An
    accepted configuration is well typed, each error names a fault of the file, and the runtime
    starts exactly when the checks pass.
  \<^item> \<open>Dashboard\<close> with \<open>Dashboard_Laws\<close>: every JSON answer of \<^verbatim>\<open>dashboard.rs\<close>; the attempt
    trail is cut to its newest rows with totals of the whole, numbers are integers exact in a double, and dates follow the calendar.
  \<^item> \<open>Sources\<close> with \<open>Sources_Laws\<close>: topology specifications, presets and the job sources of a
    drive run (\<^verbatim>\<open>drive/topology_spec.rs\<close>, \<^verbatim>\<open>drive/*_source.rs\<close>, \<^verbatim>\<open>presets.rs\<close>).  The locale
    \<open>bounded_source\<close> states when draining a source ends; the lease source partitions the salt range.
  \<^item> \<open>Drive\<close> with \<open>Drive_Laws\<close>: a drive run (\<^verbatim>\<open>drive/harness.rs\<close>, \<^verbatim>\<open>drive/report.rs\<close>, the
    drive command of \<^verbatim>\<open>main.rs\<close>).  The relation \<open>drive_reach\<close> interleaves its message loop, dispatcher and
    result tasks; rows and jobs match one to one as long as the miner rejects only jobs it holds.
  \<^item> \<open>Seed\<close> with \<open>Seed_Laws\<close>: seeding a chain (\<^verbatim>\<open>chain/seed.rs\<close>), writing a keystore
    (\<^verbatim>\<open>keygen.rs\<close>) and loading a signer (\<^verbatim>\<open>chain/extrinsic.rs\<close>).  A reported seed is on the chain, and a
    written keystore loads as the pair of its seed under any decoder that reads one-member JSON objects.
  \<^item> \<open>Mock\<close> with \<open>Mock_Laws\<close>: the reference miner (\<^verbatim>\<open>quip-mock-miner/src/main.rs\<close>).  It answers every
    job once and refunds its credit; joined with a drive session by the two streams (\<open>duo_reach\<close>), it
    rejects only jobs in flight, so the accounting of a drive run holds for it without an assumption.
  \<^item> \<open>Exec\<close> with \<open>Exec_Laws\<close>: the solver that runs an external program
    (\<^verbatim>\<open>quip-solver-exec/src/lib.rs\<close>).  The wait for the program is over within its limit (the join
    of the output reader after an exit is not bounded, and a run that never returns is an outcome of the model),
    each other outcome has its documented class, and accepted rows have the right shape.

  \<^bold>\<open>Conventions.\<close>  A struct is a record and an enum a datatype.  Unsigned counters are
  naturals with saturation or wrap-around written out where the code has it; \<^verbatim>\<open>i64\<close>
  energies are integers, with the ranges stated where a result depends on them.  A panic is the value
  \<open>None\<close>, an error the left summand.  A hash map is a list of pairs with distinct keys.
  The clock and the answers of the network are arguments.  Where the feeder releases the lock, its model
  applies an arbitrary function of the state (\<open>pe_others\<close>) that stands for the other tasks.

  \<^bold>\<open>Loops.\<close>  \<open>next_job\<close>, \<open>drain_jobs\<close>, the top-up loops and \<open>bisect\<close> have
  termination proofs, as have \<open>drive_drain\<close>, \<open>lease_salts\<close> and \<open>wait_solver\<close>.  The draining of a job source, the waits of \<open>Funding\<close> and the walk of \<open>Feeder\<close> may run forever; they are
  partial functions into \<^theory_text>\<open>option\<close>, and \<open>bounded_source\<close>, \<open>ensure_funded_returns\<close>,
  \<open>wait_until_synced_returns\<close> and \<open>walk_reaches_mining\<close> show when they return.  The only fuel is that
  of \<open>match_rests\<close> in \<open>Text\<close>, one more than the text's length, which is proved to be enough.

  \<^bold>\<open>External code.\<close>  Hashes, signatures, the SCALE codec of the chain's types, the
  \<^verbatim>\<open>quantum_validation\<close> crate (diversity, selection, packed spins, the redraw verifier) and the libm
  functions are parameters, and theorems that need a documented property of one
  state it as a hypothesis.

  \<^bold>\<open>Not modelled.\<close>  Processes, sockets, timers, files, signals and log lines are inputs or left out:
  the transports (\<^verbatim>\<open>chain/transport*.rs\<close>), the gRPC and HTTP servers, the probes of the host survey, the log
  subscriber (\<^verbatim>\<open>logging.rs\<close>), the parsing of command-line flags and the printing of tables.  The scripted
  chain of the tests (\<^verbatim>\<open>chain/fake.rs\<close>) is not modelled: the theorems range over arbitrary answers instead.
\<close>

end
